(* ===== verification/Prelude.thy ===== *)
theory Prelude
  imports Complex_Main "HOL-Library.Word" "HOL-Library.AList"
begin

text \<open>
  The vocabulary every component shares: the Go integer types the repository narrows
  to, time and durations, and the generic list and map lemmas the component proofs use.

  \<^item> \<open>byte\<close>, \<open>bytes32\<close> (Go's [32]byte, also common.Hash) and \<open>address\<close> (Go's [20]byte,
    common.Address) are words of their width; a Go byte slice is a \<open>byte list\<close>.
  \<^item> A \<open>*big.Int\<close> is an \<open>int\<close>, or an \<open>int option\<close> where the code tests it against nil.
  \<^item> An \<open>int64\<close> (and time.Duration, which is one) is the \<open>int\<close> in its range, and every
    conversion or product the code does in that type goes through \<open>i64\<close>, which wraps.
  \<^item> A time.Time is its number of nanoseconds since the epoch.
  \<^item> An error value is its text, kept to the constant part of its format string; a
    fallible function returns \<open>string + 'a\<close> with \<open>Inl\<close> the error.
\<close>

section \<open>Types\<close>

type_synonym byte = "8 word"
type_synonym bytes32 = "256 word"
type_synonym address = "160 word"
type_synonym 'a result = "string + 'a"

named_theorems go_simps \<open>Unfolding facts for the small helpers of the standard library.\<close>
named_theorems go_inv \<open>Preservation facts for the components' invariants.\<close>

section \<open>Results\<close>

text \<open>The \<open>if err != nil\<close> return: the rest of a function runs on a result.\<close>

definition and_then :: "'a result \<Rightarrow> ('a \<Rightarrow> 'b result) \<Rightarrow> 'b result" where
  "and_then r f = (case r of Inl e \<Rightarrow> Inl e | Inr x \<Rightarrow> f x)"

lemma and_then_Inr [simp]: "and_then r f = Inr y \<longleftrightarrow> (\<exists>x. r = Inr x \<and> f x = Inr y)"
  by (cases r) (simp_all add: and_then_def)

section \<open>int64\<close>

text \<open>
  The conversion \<open>x.Int64()\<close> of a big integer keeps its low 64 bits, and int64 arithmetic
  is modulo \<open>2 ^ 64\<close>: both are \<open>i64\<close>.
\<close>

definition i64 :: "int \<Rightarrow> int" where
  "i64 x = sint (word_of_int x :: 64 word)"

lemma i64_range: "- (2 ^ 63) \<le> i64 x \<and> i64 x < 2 ^ 63"
  using sint_range_size [of "word_of_int x :: 64 word"] by (simp add: i64_def word_size)

lemma i64_id: "- (2 ^ 63) \<le> x \<Longrightarrow> x < 2 ^ 63 \<Longrightarrow> i64 x = x"
  by (simp add: i64_def signed_take_bit_int_eq_self sint_sbintrunc')

lemma i64_i64 [simp]: "i64 (i64 x) = i64 x"
  using i64_range [of x] by (intro i64_id) simp_all

lemma i64_mod: "i64 x = (x + 2 ^ 63) mod 2 ^ 64 - 2 ^ 63"
  by (simp add: i64_def sint_sbintrunc' signed_take_bit_eq_take_bit_shift take_bit_eq_mod)

section \<open>Time and durations\<close>

definition ns_per_second :: int where
  "ns_per_second = 1000000000"

text \<open>\<open>time.Time.Unix\<close>, and \<open>time.Unix(s, 0)\<close>.\<close>

definition unix_of :: "int \<Rightarrow> int" where
  "unix_of t = t div ns_per_second"

definition time_of_unix :: "int \<Rightarrow> int" where
  "time_of_unix s = s * ns_per_second"

lemma unix_of_time_of_unix [simp]: "unix_of (time_of_unix s) = s"
  by (simp add: unix_of_def time_of_unix_def ns_per_second_def)

lemma unix_of_mono: "a \<le> b \<Longrightarrow> unix_of a \<le> unix_of b"
  by (simp add: unix_of_def ns_per_second_def zdiv_mono1)

section \<open>Association lists standing for Go maps\<close>

text \<open>
  A Go map the code iterates over is an association list with distinct keys; the iteration
  order is not observable in any function modelled here (they sum or count).
\<close>

lemma sum_list_map_AList_delete:
  fixes f :: "'k \<times> 'v \<Rightarrow> int"
  assumes "distinct (map fst xs)" and "map_of xs k = Some v"
  shows "sum_list (map f (AList.delete k xs)) = sum_list (map f xs) - f (k, v)"
  using assms
proof (induction xs)
  case Nil
  then show ?case by simp
next
  case (Cons p xs)
  obtain k' v' where p: "p = (k', v')" by (cases p)
  show ?case
  proof (cases "k' = k")
    case True
    with Cons.prems p have "k \<notin> fst ` set xs" and "v' = v" by auto
    then have "AList.delete k xs = xs" by (simp add: AList.delete_idem)
    with True p \<open>v' = v\<close> show ?thesis by simp
  next
    case False
    with Cons p show ?thesis by simp
  qed
qed

lemma AList_delete_missing: "map_of xs k = None \<Longrightarrow> AList.delete k xs = xs"
  by (simp add: AList.delete_idem map_of_eq_None_iff)

lemma map_of_AList_delete [simp]: "map_of (AList.delete k xs) = (map_of xs)(k := None)"
  by (rule AList.delete_conv')

lemma map_of_AList_update [simp]: "map_of (AList.update k v xs) = (map_of xs)(k \<mapsto> v)"
  by (rule AList.update_conv')

lemma sum_list_map_AList_update:
  fixes f :: "'k \<times> 'v \<Rightarrow> int"
  assumes "distinct (map fst xs)"
  shows "sum_list (map f (AList.update k v xs)) =
    sum_list (map f xs) + f (k, v) - (case map_of xs k of None \<Rightarrow> 0 | Some w \<Rightarrow> f (k, w))"
  using assms
proof (induction xs)
  case Nil
  then show ?case by simp
next
  case (Cons p xs)
  obtain k' v' where p: "p = (k', v')" by (cases p)
  show ?case
  proof (cases "k' = k")
    case True
    with p show ?thesis by simp
  next
    case False
    with Cons p show ?thesis by simp
  qed
qed

lemma length_AList_update:
  "length (AList.update k v xs) = (if map_of xs k = None then Suc (length xs) else length xs)"
  by (induction xs) auto

lemma length_AList_delete:
  assumes "distinct (map fst xs)" and "map_of xs k \<noteq> None"
  shows "Suc (length (AList.delete k xs)) = length xs"
  using assms
proof (induction xs)
  case Nil
  then show ?case by simp
next
  case (Cons p xs)
  then show ?case
    by (cases "fst p = k") (auto simp: AList_delete_missing map_of_eq_None_iff)
qed

section \<open>Lists\<close>

lemma sum_list_nonneg_int: "(\<forall>x\<in>set xs. 0 \<le> f x) \<Longrightarrow> (0::int) \<le> sum_list (map f xs)"
  by (induction xs) auto

lemma sum_list_filter_le:
  "(\<forall>x\<in>set xs. 0 \<le> f x) \<Longrightarrow> (\<And>x. x \<in> set xs \<Longrightarrow> P x \<Longrightarrow> Q x) \<Longrightarrow>
    sum_list (map f (filter P xs)) \<le> (sum_list (map f (filter Q xs)) :: int)"
  by (induction xs) (auto intro: add_nonneg_nonneg sum_list_nonneg_int add_mono)

lemma filter_length_le:
  "(\<And>x. x \<in> set xs \<Longrightarrow> P x \<Longrightarrow> Q x) \<Longrightarrow> length (filter P xs) \<le> length (filter Q xs)"
  by (induction xs) (auto simp: le_SucI)

lemma filter_filter_sub:
  "(\<And>x. x \<in> set xs \<Longrightarrow> P x \<Longrightarrow> Q x) \<Longrightarrow> filter P (filter Q xs) = filter P xs"
  by (induction xs) auto

section \<open>Machines\<close>

text \<open>
  The contract of a component whose operations are applied one after another, from any
  number of callers: each event its guard allows keeps the invariant. What the client gets
  is the invariant after every run whose events are allowed when they happen.
\<close>

fun run :: "('s \<Rightarrow> 'e \<Rightarrow> 's) \<Rightarrow> 's \<Rightarrow> 'e list \<Rightarrow> 's" where
  "run step s [] = s"
| "run step s (e # es) = run step (step s e) es"

fun allowed :: "('s \<Rightarrow> 'e \<Rightarrow> 's) \<Rightarrow> ('s \<Rightarrow> 'e \<Rightarrow> bool) \<Rightarrow> 's \<Rightarrow> 'e list \<Rightarrow> bool" where
  "allowed step ok s [] = True"
| "allowed step ok s (e # es) = (ok s e \<and> allowed step ok (step s e) es)"

lemma run_append [simp]: "run step s (xs @ ys) = run step (run step s xs) ys"
  by (induction xs arbitrary: s) auto

lemma allowed_append [simp]:
  "allowed step ok s (xs @ ys) \<longleftrightarrow> allowed step ok s xs \<and> allowed step ok (run step s xs) ys"
  by (induction xs arbitrary: s) auto

locale machine =
  fixes step :: "'s \<Rightarrow> 'e \<Rightarrow> 's"
    and ok :: "'s \<Rightarrow> 'e \<Rightarrow> bool"
    and inv :: "'s \<Rightarrow> bool"
  assumes step_inv: "inv s \<Longrightarrow> ok s e \<Longrightarrow> inv (step s e)"
begin

lemma run_inv: "inv s \<Longrightarrow> allowed step ok s es \<Longrightarrow> inv (run step s es)"
  by (induction es arbitrary: s) (auto intro: step_inv)

lemma every_prefix_inv:
  "inv s \<Longrightarrow> allowed step ok s (es @ fs) \<Longrightarrow> inv (run step s es)"
  by (simp add: run_inv)

end

lemma distinct_map_snoc: "distinct (map f (xs @ [x])) \<longleftrightarrow> distinct (map f xs) \<and> f x \<notin> f ` set xs"
  by auto

end
