(* ===== verification/GoText.thy ===== *)
theory GoText
  imports Prelude
begin

text \<open>
  The parts of the Go standard library the repository uses on text: decimal integers
  (\<open>big.Int.SetString(s, 10)\<close>, \<open>big.Int.String\<close>), hexadecimal (\<open>encoding/hex\<close>), and
  \<open>strings.TrimPrefix\<close>, \<open>HasPrefix\<close>, \<open>Cut\<close> and \<open>EqualFold\<close>. A Go string is its bytes,
  a \<open>string\<close> of 8-bit characters. Each printer has a round-trip lemma with its parser.
\<close>

section \<open>Decimal integers\<close>

definition is_digit :: "char \<Rightarrow> bool" where
  "is_digit c \<longleftrightarrow> 48 \<le> (of_char c :: nat) \<and> (of_char c :: nat) \<le> 57"

definition digit_val :: "char \<Rightarrow> nat" where
  "digit_val c = of_char c - 48"

definition digit_char :: "nat \<Rightarrow> char" where
  "digit_char d = char_of (48 + d)"

fun read_digits :: "nat \<Rightarrow> string \<Rightarrow> nat option" where
  "read_digits acc [] = Some acc"
| "read_digits acc (c # cs) =
     (if is_digit c then read_digits (10 * acc + digit_val c) cs else None)"

definition read_nat :: "string \<Rightarrow> nat option" where
  "read_nat s = (if s = [] then None else read_digits 0 s)"

text \<open>\<open>new(big.Int).SetString(s, 10)\<close>: an optional sign, then at least one digit and
  nothing else; \<open>None\<close> is its \<open>ok = false\<close>.\<close>

definition set_string10 :: "string \<Rightarrow> int option" where
  "set_string10 s =
     (case s of
        [] \<Rightarrow> None
      | c # cs \<Rightarrow>
          if c = CHR ''-'' then map_option (\<lambda>n. - int n) (read_nat cs)
          else if c = CHR ''+'' then map_option int (read_nat cs)
          else map_option int (read_nat s))"

fun show_nat :: "nat \<Rightarrow> string" where
  "show_nat n = (if n < 10 then [digit_char n] else show_nat (n div 10) @ [digit_char (n mod 10)])"

declare show_nat.simps [simp del]

text \<open>\<open>x.String()\<close>.\<close>

definition big_show :: "int \<Rightarrow> string" where
  "big_show i = (if i < 0 then CHR ''-'' # show_nat (nat (- i)) else show_nat (nat i))"

lemma digit_char_props [simp]:
  assumes "d < 10"
  shows "is_digit (digit_char d)" "digit_val (digit_char d) = d"
  using assms by (simp_all add: is_digit_def digit_val_def digit_char_def)

lemma read_digits_append:
  "read_digits acc (xs @ ys) =
     (case read_digits acc xs of None \<Rightarrow> None | Some n \<Rightarrow> read_digits n ys)"
  by (induction xs arbitrary: acc) auto

lemma read_digits_show: "read_digits 0 (show_nat n) = Some n"
proof (induction n rule: show_nat.induct)
  case (1 n)
  show ?case
  proof (cases "n < 10")
    case True
    then show ?thesis by (simp add: show_nat.simps [of n])
  next
    case False
    with "1.IH" show ?thesis
      by (simp add: show_nat.simps [of n] read_digits_append)
  qed
qed

lemma show_nat_nonempty [simp]: "show_nat n \<noteq> []"
  by (simp add: show_nat.simps [of n])

lemma show_nat_digits: "\<forall>c\<in>set (show_nat n). is_digit c"
proof (induction n rule: show_nat.induct)
  case (1 n)
  then show ?case by (cases "n < 10") (auto simp: show_nat.simps [of n])
qed

lemma show_nat_hd: "show_nat n = c # cs \<Longrightarrow> is_digit c"
  using show_nat_digits [of n] by simp

lemma sign_not_digit [simp]: "\<not> is_digit (CHR ''-'')" "\<not> is_digit (CHR ''+'')"
  by (simp_all add: is_digit_def)

lemma set_string10_show_nat: "set_string10 (show_nat n) = Some (int n)"
proof (cases "show_nat n")
  case Nil
  then show ?thesis by simp
next
  case (Cons c cs)
  then have "is_digit c" by (rule show_nat_hd)
  then have "c \<noteq> CHR ''-''" "c \<noteq> CHR ''+''" by auto
  with Cons read_digits_show [of n] show ?thesis
    by (simp add: set_string10_def read_nat_def)
qed

lemma set_string10_big_show [simp]: "set_string10 (big_show i) = Some i"
proof (cases "i < 0")
  case True
  then show ?thesis
    by (simp add: big_show_def set_string10_def read_nat_def read_digits_show)
next
  case False
  then show ?thesis by (simp add: big_show_def set_string10_show_nat)
qed

section \<open>Bytes and words\<close>

definition bytes32_bytes :: "bytes32 \<Rightarrow> byte list" where
  "bytes32_bytes w = map (\<lambda>i. ucast (drop_bit (8 * (31 - i)) w)) [0..<32]"

definition address_bytes :: "address \<Rightarrow> byte list" where
  "address_bytes a = map (\<lambda>i. ucast (drop_bit (8 * (19 - i)) a)) [0..<20]"

text \<open>\<open>copy(out[:], b)\<close> for a slice that fills the array.\<close>

definition bytes32_of :: "byte list \<Rightarrow> bytes32" where
  "bytes32_of b = word_rcat b"

lemma bytes32_bytes_length [simp]: "length (bytes32_bytes w) = 32"
  by (simp add: bytes32_bytes_def)

lemma address_bytes_length [simp]: "length (address_bytes a) = 20"
  by (simp add: address_bytes_def)

lemma bit_word_rcat_bytes:
  "bit (word_rcat (xs :: byte list) :: 'b::len word) n \<longleftrightarrow>
     n < LENGTH('b) \<and> n div 8 < length xs \<and> bit (rev xs ! (n div 8)) (n mod 8)"
  by (auto simp: word_rcat_def bit_simps bit_horner_sum_uint_exp_iff [where 'a = 8, simplified])

lemma bytes32_of_bytes [simp]: "bytes32_of (bytes32_bytes w) = w"
proof (rule bit_word_eqI)
  fix n
  assume "n < LENGTH(256)"
  then have n: "n < 256" by simp
  then have d: "n div 8 < 32" by linarith
  then have "rev (bytes32_bytes w) ! (n div 8) = ucast (drop_bit (8 * (n div 8)) w)"
    using nth_upt [of 0 "31 - n div 8" 32] by (simp add: bytes32_bytes_def rev_nth)
  with n d show "bit (bytes32_of (bytes32_bytes w)) n = bit w n"
    by (simp add: bytes32_of_def bit_word_rcat_bytes bit_simps)
qed

lemma bytes32_bytes_inj: "bytes32_bytes v = bytes32_bytes w \<Longrightarrow> v = w"
  by (metis bytes32_of_bytes)

section \<open>Hexadecimal\<close>

definition hex_char :: "nat \<Rightarrow> char" where
  "hex_char d = char_of (if d < 10 then 48 + d else 87 + d)"

definition unhex :: "char \<Rightarrow> nat option" where
  "unhex c =
     (let n = (of_char c :: nat) in
      if 48 \<le> n \<and> n \<le> 57 then Some (n - 48)
      else if 97 \<le> n \<and> n \<le> 102 then Some (n - 87)
      else if 65 \<le> n \<and> n \<le> 70 then Some (n - 55)
      else None)"

text \<open>\<open>hex.EncodeToString\<close> and \<open>hex.DecodeString\<close> (\<open>None\<close> for its error).\<close>

fun hex_encode :: "byte list \<Rightarrow> string" where
  "hex_encode [] = []"
| "hex_encode (b # bs) = hex_char (unat b div 16) # hex_char (unat b mod 16) # hex_encode bs"

fun hex_decode :: "string \<Rightarrow> byte list option" where
  "hex_decode [] = Some []"
| "hex_decode [c] = None"
| "hex_decode (c # d # cs) =
     (case (unhex c, unhex d) of
        (Some h, Some l) \<Rightarrow> map_option ((#) (of_nat (16 * h + l))) (hex_decode cs)
      | _ \<Rightarrow> None)"

lemma unhex_hex_char: "d < 16 \<Longrightarrow> unhex (hex_char d) = Some d"
  by (simp add: unhex_def hex_char_def Let_def)

lemma hex_decode_encode [simp]: "hex_decode (hex_encode bs) = Some bs"
proof (induction bs)
  case Nil
  then show ?case by simp
next
  case (Cons b bs)
  have "unat b < 256" using unsigned_less [of b, where ?'a = nat] by simp
  then have "unat b div 16 < 16" "unat b mod 16 < 16" by auto
  with Cons show ?case by (simp add: unhex_hex_char)
qed

lemma hex_encode_length [simp]: "length (hex_encode bs) = 2 * length bs"
  by (induction bs) auto

section \<open>Package strings\<close>

definition has_prefix :: "string \<Rightarrow> string \<Rightarrow> bool" where
  "has_prefix s p \<longleftrightarrow> take (length p) s = p"

definition trim_prefix :: "string \<Rightarrow> string \<Rightarrow> string" where
  "trim_prefix s p = (if has_prefix s p then drop (length p) s else s)"

lemma trim_prefix_append [simp]: "trim_prefix (p @ s) p = s"
  by (simp add: trim_prefix_def has_prefix_def)

lemma trim_prefix_0x [simp]: "trim_prefix (CHR ''0'' # CHR ''x'' # s) ''0x'' = s"
  by (simp add: trim_prefix_def has_prefix_def)

lemma has_prefix_iff: "has_prefix s p \<longleftrightarrow> (\<exists>t. s = p @ t)"
  by (auto simp: has_prefix_def) (metis append_take_drop_id)

text \<open>\<open>strings.Cut(s, ":")\<close>: the part after the first colon, \<open>None\<close> when there is none.\<close>

fun cut_colon :: "string \<Rightarrow> string option" where
  "cut_colon [] = None"
| "cut_colon (c # cs) = (if c = CHR '':'' then Some cs else cut_colon cs)"

text \<open>\<open>strings.EqualFold\<close> on ASCII text, which is all the repository compares with it.\<close>

definition ascii_lower :: "char \<Rightarrow> char" where
  "ascii_lower c =
     (let n = (of_char c :: nat) in if 65 \<le> n \<and> n \<le> 90 then char_of (n + 32) else c)"

definition equal_fold :: "string \<Rightarrow> string \<Rightarrow> bool" where
  "equal_fold s t \<longleftrightarrow> map ascii_lower s = map ascii_lower t"

lemma equal_fold_refl [simp]: "equal_fold s s"
  by (simp add: equal_fold_def)

end
