(* ===== verification/Geth.thy ===== *)
theory Geth
  imports GoText
begin

text \<open>
  The go-ethereum functions the repository calls. Their code is not part of this
  repository, so they are a parameter: one record of functions that every definition
  using them takes as its argument. \<open>geth_text\<close>, \<open>geth_bytes\<close> and \<open>geth_sig\<close> are the
  documented behaviour the theorems that need it assume by name; \<open>sample_geth\<close> is a
  concrete instance that satisfies all of them, used by the witnesses. A private key is
  its 32-byte scalar.
\<close>

section \<open>The parameter\<close>

record geth =
  keccak256 :: "byte list \<Rightarrow> bytes32"
  from_hex :: "string \<Rightarrow> byte list"
  bytes2hex :: "byte list \<Rightarrow> string"
  left_pad_bytes :: "byte list \<Rightarrow> nat \<Rightarrow> byte list"
  is_hex_address :: "string \<Rightarrow> bool"
  hex_to_address :: "string \<Rightarrow> address"
  address_hex :: "address \<Rightarrow> string"
  hex_to_hash :: "string \<Rightarrow> bytes32"
  hash_hex :: "bytes32 \<Rightarrow> string"
  bytes_to_address :: "byte list \<Rightarrow> address"
  crypto_sign :: "bytes32 \<Rightarrow> bytes32 \<Rightarrow> byte list option"
  sig_to_address :: "bytes32 \<Rightarrow> byte list \<Rightarrow> address option"
  key_address :: "bytes32 \<Rightarrow> address"

text \<open>
  The fields stand for crypto.Keccak256, common.FromHex, common.Bytes2Hex,
  common.LeftPadBytes, common.IsHexAddress, common.HexToAddress, Address.Hex,
  common.HexToHash, Hash.Hex, common.BytesToAddress, crypto.Sign (digest and key, \<open>None\<close>
  its error), crypto.SigToPub followed by PubkeyToAddress (\<open>None\<close> its error), and
  crypto.PubkeyToAddress of a key's public key.
\<close>

section \<open>Documented behaviour\<close>

text \<open>Text forms: what \<open>Hex\<close> prints, the parsers accept and read back.\<close>

definition geth_text :: "geth \<Rightarrow> bool" where
  "geth_text G \<longleftrightarrow>
     (\<forall>a. is_hex_address G (address_hex G a)) \<and>
     (\<forall>a. hex_to_address G (address_hex G a) = a) \<and>
     (\<forall>h. hex_to_hash G (hash_hex G h) = h) \<and>
     (\<forall>bs. bytes2hex G bs = hex_encode bs) \<and>
     (\<forall>bs. from_hex G (''0x'' @ hex_encode bs) = bs)"

text \<open>\<open>LeftPadBytes\<close> puts zero bytes in front up to the wanted length.\<close>

definition geth_bytes :: "geth \<Rightarrow> bool" where
  "geth_bytes G \<longleftrightarrow>
     (\<forall>bs n. left_pad_bytes G bs n = replicate (n - length bs) 0 @ bs)"

text \<open>
  A signature is 65 bytes ending in a recovery id 0 or 1, and recovering it from the same
  digest gives the signer's address.
\<close>

definition geth_sig :: "geth \<Rightarrow> bool" where
  "geth_sig G \<longleftrightarrow>
     (\<forall>h k s. crypto_sign G h k = Some s \<longrightarrow>
        length s = 65 \<and> s ! 64 \<in> {0, 1} \<and> sig_to_address G h s = Some (key_address G k))"

named_theorems geth_dest \<open>The laws of the documented behaviour, as rules.\<close>

lemma geth_textD [geth_dest]:
  assumes "geth_text G"
  shows "is_hex_address G (address_hex G a)"
    and "hex_to_address G (address_hex G a) = a"
    and "hex_to_hash G (hash_hex G h) = h"
    and "bytes2hex G bs = hex_encode bs"
    and "from_hex G (''0x'' @ hex_encode bs) = bs"
  using assms by (simp_all add: geth_text_def)

lemma geth_sigD:
  assumes "geth_sig G" and "crypto_sign G h k = Some s"
  shows "length s = 65" and "s ! 64 = 0 \<or> s ! 64 = 1"
    and "sig_to_address G h s = Some (key_address G k)"
  using assms by (auto simp: geth_sig_def)

section \<open>A concrete instance\<close>

text \<open>
  Not a model of go-ethereum: the simplest functions with the documented behaviour. The
  digest is the sum of the bytes, a signature carries the key and the digest it signs, and
  an address is printed as 0x and its 40 hexadecimal digits.
\<close>

definition address_of_bytes :: "byte list \<Rightarrow> address" where
  "address_of_bytes bs = word_rcat bs"

definition sample_from_hex :: "string \<Rightarrow> byte list" where
  "sample_from_hex s = (case hex_decode (trim_prefix s ''0x'') of None \<Rightarrow> [] | Some bs \<Rightarrow> bs)"

definition sample_geth :: geth where
  "sample_geth = \<lparr>
     keccak256 = (\<lambda>bs. of_nat (sum_list (map unat bs))),
     from_hex = sample_from_hex,
     bytes2hex = hex_encode,
     left_pad_bytes = (\<lambda>bs n. replicate (n - length bs) 0 @ bs),
     is_hex_address = (\<lambda>s. length (sample_from_hex s) = 20),
     hex_to_address = (\<lambda>s. address_of_bytes (sample_from_hex s)),
     address_hex = (\<lambda>a. ''0x'' @ hex_encode (address_bytes a)),
     hex_to_hash = (\<lambda>s. bytes32_of (sample_from_hex s)),
     hash_hex = (\<lambda>h. ''0x'' @ hex_encode (bytes32_bytes h)),
     bytes_to_address = address_of_bytes,
     crypto_sign = (\<lambda>h k. Some (bytes32_bytes k @ bytes32_bytes h @ [0])),
     sig_to_address = (\<lambda>h s.
       if length s = 65 \<and> take 32 (drop 32 s) = bytes32_bytes h
       then Some (ucast (bytes32_of (take 32 s))) else None),
     key_address = (\<lambda>k. ucast k)\<rparr>"

lemma address_of_bytes_bytes [simp]: "address_of_bytes (address_bytes a) = a"
proof (rule bit_word_eqI)
  fix n
  assume "n < LENGTH(160)"
  then have n: "n < 160" by simp
  then have d: "n div 8 < 20" by linarith
  then have "rev (address_bytes a) ! (n div 8) = ucast (drop_bit (8 * (n div 8)) a)"
    using nth_upt [of 0 "19 - n div 8" 20] by (simp add: address_bytes_def rev_nth)
  with n d show "bit (address_of_bytes (address_bytes a)) n = bit a n"
    by (simp add: address_of_bytes_def bit_word_rcat_bytes bit_simps)
qed

lemma sample_from_hex_0x [simp]:
  "sample_from_hex (''0x'' @ hex_encode bs) = bs"
  "sample_from_hex (CHR ''0'' # CHR ''x'' # hex_encode bs) = bs"
  by (simp_all add: sample_from_hex_def)

lemma sample_geth_text [simp]: "geth_text sample_geth"
  by (simp add: geth_text_def sample_geth_def)

lemma sample_geth_bytes [simp]: "geth_bytes sample_geth"
  by (simp add: geth_bytes_def sample_geth_def)

lemma sample_geth_sig [simp]: "geth_sig sample_geth"
  by (simp add: geth_sig_def sample_geth_def nth_append)

end
