(* ===== verification/Wire.thy ===== *)
theory Wire
  imports Geth
begin

text \<open>
  The wire format and the decision vocabulary: \<open>x402/types.go\<close>, \<open>x402/errcodes.go\<close>,
  the types of \<open>x402/policy.go\<close>, \<open>x402/facilitator.go\<close>, \<open>x402/mandate.go\<close>,
  \<open>x402/confirmation.go\<close> and \<open>x402/grant.go\<close>. Field by field the Go structs; a pointer
  is an option. The base64 JSON of an X-PAYMENT header is represented by the value it
  decodes to, or by \<open>Undecodable\<close>.
\<close>

section \<open>errcodes.go\<close>

datatype errcode =
    NoCode
  | ErrCodePaymentRequired | ErrCodeInvalidHeader | ErrCodeVerificationFailed
  | ErrCodeVerificationError | ErrCodeIdentityUnregistered | ErrCodeIdentityCheckFailed
  | ErrCodeNotEligible | ErrCodeEligibilityCheckFailed | ErrCodeSettlementFailed
  | ErrCodeSettlementError | ErrCodeDeliveryFailed | ErrCodeSessionUnknown
  | ErrCodeSessionExhausted | ErrCodeNonceUnbound | ErrCodePolicyRejected
  | ErrCodePaymentDeferred | ErrCodeConfirmationRequired | ErrCodeBondRequired
  | ErrCodeMandateMissing | ErrCodeMandateInvalid | ErrCodeMandateExpired
  | ErrCodeMandateRevoked | ErrCodeMandateExceeded | ErrCodeMandateBudget
  | ErrCodeMandateRate

text \<open>The stable strings; \<open>NoCode\<close> is Go's empty string, a Decision without a code.\<close>

fun errcode_string :: "errcode \<Rightarrow> string" where
  "errcode_string NoCode = ''''"
| "errcode_string ErrCodePaymentRequired = ''payment_required''"
| "errcode_string ErrCodeInvalidHeader = ''invalid_payment_header''"
| "errcode_string ErrCodeVerificationFailed = ''verification_failed''"
| "errcode_string ErrCodeVerificationError = ''verification_error''"
| "errcode_string ErrCodeIdentityUnregistered = ''identity_unregistered''"
| "errcode_string ErrCodeIdentityCheckFailed = ''identity_check_failed''"
| "errcode_string ErrCodeNotEligible = ''payer_not_eligible''"
| "errcode_string ErrCodeEligibilityCheckFailed = ''eligibility_check_failed''"
| "errcode_string ErrCodeSettlementFailed = ''settlement_failed''"
| "errcode_string ErrCodeSettlementError = ''settlement_error''"
| "errcode_string ErrCodeDeliveryFailed = ''delivery_failed''"
| "errcode_string ErrCodeSessionUnknown = ''session_unknown''"
| "errcode_string ErrCodeSessionExhausted = ''session_exhausted''"
| "errcode_string ErrCodeNonceUnbound = ''nonce_not_bound''"
| "errcode_string ErrCodePolicyRejected = ''policy_rejected''"
| "errcode_string ErrCodePaymentDeferred = ''payment_deferred''"
| "errcode_string ErrCodeConfirmationRequired = ''confirmation_required''"
| "errcode_string ErrCodeBondRequired = ''bond_required''"
| "errcode_string ErrCodeMandateMissing = ''mandate_missing''"
| "errcode_string ErrCodeMandateInvalid = ''mandate_invalid''"
| "errcode_string ErrCodeMandateExpired = ''mandate_expired''"
| "errcode_string ErrCodeMandateRevoked = ''mandate_revoked''"
| "errcode_string ErrCodeMandateExceeded = ''mandate_exceeded''"
| "errcode_string ErrCodeMandateBudget = ''mandate_budget_exceeded''"
| "errcode_string ErrCodeMandateRate = ''mandate_rate_exceeded''"

section \<open>types.go\<close>

definition x402_version :: int where
  "x402_version = 1"

definition scheme_exact :: string where
  "scheme_exact = ''exact''"

record payment_requirements =
  pr_scheme :: string
  pr_network :: string
  pr_max_amount_required :: string
  pr_resource :: string
  pr_description :: string
  pr_mime_type :: string
  pr_pay_to :: string
  pr_max_timeout_seconds :: int
  pr_asset :: string
  pr_extra :: "(string \<times> string) list"

record ask_request =
  ask_mandate_id :: string
  ask_authorization_nonce :: string
  ask_amount :: string
  ask_resource :: string

record authorization_json =
  aj_from :: string
  aj_to :: string
  aj_value :: string
  aj_valid_after :: string
  aj_valid_before :: string
  aj_nonce :: string

record exact_payload =
  ep_signature :: string
  ep_authorization :: authorization_json
  ep_nonce_seed :: string

record mandate_json =
  mj_delegator :: string
  mj_agent :: string
  mj_max_amount_per_payment :: string
  mj_allowed_payees :: "string list"
  mj_allowed_resources :: "string list"
  mj_valid_after :: string
  mj_valid_before :: string
  mj_budget_amount :: string
  mj_budget_window_seconds :: string
  mj_max_payments_per_window :: string
  mj_rate_window_seconds :: string
  mj_mandate_id :: string

record signed_mandate_json =
  smj_mandate :: mandate_json
  smj_signature :: string

record revocation_json =
  rj_mandate_id :: string
  rj_signature :: string

record confirmation_json =
  cj_mandate_id :: string
  cj_authorization_nonce :: string
  cj_amount :: string
  cj_resource :: string
  cj_valid_before :: string
  cj_signature :: string

record session_request =
  sr_open :: bool

record payment_payload =
  pp_version :: int
  pp_scheme :: string
  pp_network :: string
  pp_payload :: exact_payload
  pp_mandate :: "signed_mandate_json option"
  pp_confirmation :: "confirmation_json option"
  pp_session :: "session_request option"

text \<open>The X-PAYMENT header of a request: absent, or the outcome of DecodeHeader on it.\<close>

datatype payment_header = NoHeader | Undecodable string | Decoded payment_payload

section \<open>receipt.go: the wire form\<close>

record receipt_json =
  rcj_receipt_id :: string
  rcj_network :: string
  rcj_resource :: string
  rcj_payer :: string
  rcj_pay_to :: string
  rcj_amount :: string
  rcj_settlement_tx :: string
  rcj_delivery_tx :: string
  rcj_mandate_id :: string
  rcj_delegator :: string
  rcj_issued_at :: int

record signed_receipt_json =
  srj_receipt :: receipt_json
  srj_signature :: string

record settlement_response =
  sresp_success :: bool
  sresp_transaction :: string
  sresp_network :: string
  sresp_payer :: string
  sresp_error_reason :: string
  sresp_delivery_transaction :: string
  sresp_receipt :: "signed_receipt_json option"

section \<open>facilitator.go: VerifyResult\<close>

record verify_result =
  vr_is_valid :: bool
  vr_invalid_reason :: string
  vr_payer :: string

definition vr_invalid :: "string \<Rightarrow> verify_result" where
  "vr_invalid reason = \<lparr>vr_is_valid = False, vr_invalid_reason = reason, vr_payer = ''''\<rparr>"

section \<open>policy.go: decisions and their context\<close>

datatype action = ActionReject | ActionApprove | ActionDefer | ActionAsk | ActionRequireBond

text \<open>The iota values, as the journal stores them.\<close>

fun action_int :: "action \<Rightarrow> int" where
  "action_int ActionReject = 0"
| "action_int ActionApprove = 1"
| "action_int ActionDefer = 2"
| "action_int ActionAsk = 3"
| "action_int ActionRequireBond = 4"

record decision =
  d_action :: action
  d_code :: errcode
  d_reason :: string

abbreviation approve :: decision where
  "approve \<equiv> \<lparr>d_action = ActionApprove, d_code = NoCode, d_reason = ''''\<rparr>"

datatype stage = StagePreSettlement | StageSubmitted | StageConfirmed

fun stage_int :: "stage \<Rightarrow> int" where
  "stage_int StagePreSettlement = 0"
| "stage_int StageSubmitted = 1"
| "stage_int StageConfirmed = 2"

instantiation stage :: linorder
begin

definition less_eq_stage :: "stage \<Rightarrow> stage \<Rightarrow> bool" where
  "less_eq_stage a b \<longleftrightarrow> stage_int a \<le> stage_int b"

definition less_stage :: "stage \<Rightarrow> stage \<Rightarrow> bool" where
  "less_stage a b \<longleftrightarrow> stage_int a < stage_int b"

instance
proof
  fix x y z :: stage
  show "(x < y) = (x \<le> y \<and> \<not> y \<le> x)" by (auto simp: less_eq_stage_def less_stage_def)
  show "x \<le> x" by (simp add: less_eq_stage_def)
  show "x \<le> y \<Longrightarrow> y \<le> z \<Longrightarrow> x \<le> z" by (simp add: less_eq_stage_def)
  show "x \<le> y \<Longrightarrow> y \<le> x \<Longrightarrow> x = y" by (cases x; cases y) (simp_all add: less_eq_stage_def)
  show "x \<le> y \<or> y \<le> x" by (auto simp: less_eq_stage_def)
qed

end

lemma stage_less_simps [simp]:
  "StagePreSettlement < StageSubmitted" "StageSubmitted < StageConfirmed"
  "StagePreSettlement < StageConfirmed" "\<not> StageConfirmed < s"
  by (cases s; simp add: less_stage_def)+

text \<open>
  \<open>codeForAction\<close>: the default error code of a decision without one. Approve falls in the
  default branch too; the gateway never asks for it.
\<close>

fun code_for_action :: "action \<Rightarrow> errcode" where
  "code_for_action ActionDefer = ErrCodePaymentDeferred"
| "code_for_action ActionAsk = ErrCodeConfirmationRequired"
| "code_for_action ActionRequireBond = ErrCodeBondRequired"
| "code_for_action _ = ErrCodePolicyRejected"

text \<open>\<open>DelegatorHistory\<close> of history.go.\<close>

record delegator_history =
  dh_asks :: int
  dh_confirmations :: int
  dh_failures :: int
  dh_last_asked_at :: int

record payment_context =
  pc_payload :: payment_payload
  pc_requirements :: payment_requirements
  pc_verification :: "verify_result option"
  pc_history :: "delegator_history option"
  pc_stage :: stage
  pc_risk_score :: real

text \<open>\<open>paymentAmount\<close> and \<open>paymentNonce\<close> (policy_mandate.go), \<open>payloadNonce\<close> (gateway.go).
  The two nonce readers are the same code; the failing branch also returns the zero nonce,
  which \<open>verifyAndSettle\<close> uses.\<close>

definition payment_amount :: "payment_context \<Rightarrow> int option" where
  "payment_amount pc = set_string10 (aj_value (ep_authorization (pp_payload (pc_payload pc))))"

definition payload_nonce :: "geth \<Rightarrow> payment_payload \<Rightarrow> bytes32 \<times> bool" where
  "payload_nonce G p =
     (let b = from_hex G (aj_nonce (ep_authorization (pp_payload p))) in
      if length b \<noteq> 32 then (0, False) else (bytes32_of b, True))"

definition payment_nonce :: "geth \<Rightarrow> payment_context \<Rightarrow> bytes32 option" where
  "payment_nonce G pc =
     (let b = from_hex G (aj_nonce (ep_authorization (pp_payload (pc_payload pc)))) in
      if length b \<noteq> 32 then None else Some (bytes32_of b))"

lemma payload_nonce_payment_nonce:
  "payload_nonce G (pc_payload pc) =
     (case payment_nonce G pc of None \<Rightarrow> (0, False) | Some n \<Rightarrow> (n, True))"
  by (simp add: payload_nonce_def payment_nonce_def Let_def)

lemma errcode_string_inj: "errcode_string a = errcode_string b \<Longrightarrow> a = b"
  by (cases a; cases b) simp_all

end
