(* ===== verification/Wallet.thy ===== *)
theory Wallet
  imports Wire
begin

text \<open>
  \<open>wallet/wallet.go\<close>: the EIP-712 struct hash and digest of an EIP-3009 authorization, the
  resource-bound nonce, signing and signer recovery, and the (v, r, s) split the contract
  takes. Lemmas: a wallet's signature recovers to its own address, the two authorization
  kinds never share a preimage, and the preimage determines every field.
\<close>

section \<open>Big-endian bytes of a big integer\<close>

text \<open>\<open>x.Bytes()\<close>: the big-endian bytes of the absolute value, none for zero.\<close>

fun nat_bytes :: "nat \<Rightarrow> byte list" where
  "nat_bytes n = (if n = 0 then [] else nat_bytes (n div 256) @ [of_nat (n mod 256)])"

declare nat_bytes.simps [simp del]

definition big_bytes :: "int \<Rightarrow> byte list" where
  "big_bytes x = nat_bytes (nat \<bar>x\<bar>)"

fun bytes_nat :: "byte list \<Rightarrow> nat" where
  "bytes_nat [] = 0"
| "bytes_nat (b # bs) = unat b * 256 ^ length bs + bytes_nat bs"

lemma bytes_nat_append: "bytes_nat (xs @ ys) = bytes_nat xs * 256 ^ length ys + bytes_nat ys"
  by (induction xs) (auto simp: algebra_simps power_add)

lemma bytes_nat_zeros [simp]: "bytes_nat (replicate n 0) = 0"
  by (induction n) auto

lemma unat_of_nat_byte: "n < 256 \<Longrightarrow> unat (of_nat n :: byte) = n"
  by (simp add: unat_of_nat take_bit_nat_eq_self)

lemma bytes_nat_nat_bytes [simp]: "bytes_nat (nat_bytes n) = n"
proof (induction n rule: nat_bytes.induct)
  case (1 n)
  show ?case
  proof (cases "n = 0")
    case True
    then show ?thesis by (simp add: nat_bytes.simps)
  next
    case False
    with "1.IH" show ?thesis
      by (simp add: nat_bytes.simps [of n] bytes_nat_append unat_of_nat_byte)
  qed
qed

lemma length_nat_bytes: "n < 256 ^ k \<Longrightarrow> length (nat_bytes n) \<le> k"
proof (induction n arbitrary: k rule: nat_bytes.induct)
  case (1 n)
  show ?case
  proof (cases "n = 0")
    case True
    then show ?thesis by (simp add: nat_bytes.simps)
  next
    case False
    with "1.prems" obtain k' where k: "k = Suc k'" by (cases k) auto
    with "1.prems" have "n div 256 < 256 ^ k'" by (simp add: less_mult_imp_div_less mult.commute)
    with "1.IH" False k show ?thesis by (simp add: nat_bytes.simps [of n])
  qed
qed

section \<open>Authorizations\<close>

record authorization =
  au_from :: address
  au_to :: address
  au_value :: int
  au_valid_after :: int
  au_valid_before :: int
  au_nonce :: bytes32

definition transfer_type_string :: string where
  "transfer_type_string = ''TransferWithAuthorization(address from,address to,uint256 value,uint256 validAfter,uint256 validBefore,bytes32 nonce)''"

definition receive_type_string :: string where
  "receive_type_string = ''ReceiveWithAuthorization(address from,address to,uint256 value,uint256 validAfter,uint256 validBefore,bytes32 nonce)''"

text \<open>\<open>[]byte(s)\<close>.\<close>

definition string_bytes :: "string \<Rightarrow> byte list" where
  "string_bytes s = map of_char s"

definition transfer_type_hash :: "geth \<Rightarrow> bytes32" where
  "transfer_type_hash G = keccak256 G (string_bytes transfer_type_string)"

definition receive_type_hash :: "geth \<Rightarrow> bytes32" where
  "receive_type_hash G = keccak256 G (string_bytes receive_type_string)"

text \<open>The buffer \<open>structHashWith\<close> builds, and its hash.\<close>

definition auth_preimage :: "geth \<Rightarrow> bytes32 \<Rightarrow> authorization \<Rightarrow> byte list" where
  "auth_preimage G type_hash a =
     bytes32_bytes type_hash
     @ left_pad_bytes G (address_bytes (au_from a)) 32
     @ left_pad_bytes G (address_bytes (au_to a)) 32
     @ left_pad_bytes G (big_bytes (au_value a)) 32
     @ left_pad_bytes G (big_bytes (au_valid_after a)) 32
     @ left_pad_bytes G (big_bytes (au_valid_before a)) 32
     @ bytes32_bytes (au_nonce a)"

definition struct_hash_with :: "geth \<Rightarrow> bytes32 \<Rightarrow> authorization \<Rightarrow> bytes32" where
  "struct_hash_with G type_hash a = keccak256 G (auth_preimage G type_hash a)"

definition struct_hash :: "geth \<Rightarrow> authorization \<Rightarrow> bytes32" where
  "struct_hash G a = struct_hash_with G (transfer_type_hash G) a"

definition receive_struct_hash :: "geth \<Rightarrow> authorization \<Rightarrow> bytes32" where
  "receive_struct_hash G a = struct_hash_with G (receive_type_hash G) a"

definition digest :: "geth \<Rightarrow> bytes32 \<Rightarrow> bytes32 \<Rightarrow> bytes32" where
  "digest G domain_separator sh =
     keccak256 G ([0x19, 0x01] @ bytes32_bytes domain_separator @ bytes32_bytes sh)"

definition bound_nonce :: "geth \<Rightarrow> bytes32 \<Rightarrow> string \<Rightarrow> bytes32" where
  "bound_nonce G seed resource =
     keccak256 G (bytes32_bytes seed @ bytes32_bytes (keccak256 G (string_bytes resource)))"

section \<open>Signing and recovery\<close>

record wallet =
  w_key :: bytes32
  w_address :: address

definition wallet_from_key :: "geth \<Rightarrow> bytes32 \<Rightarrow> wallet" where
  "wallet_from_key G key = \<lparr>w_key = key, w_address = key_address G key\<rparr>"

text \<open>\<open>sig[64] += 27\<close>, and its inverse on a copy in the recovery functions.\<close>

definition bump_v :: "byte list \<Rightarrow> byte list" where
  "bump_v s = s[64 := s ! 64 + 27]"

definition unbump_v :: "byte list \<Rightarrow> byte list" where
  "unbump_v s = (if s ! 64 \<ge> 27 then s[64 := s ! 64 - 27] else s)"

definition sign_struct ::
    "geth \<Rightarrow> wallet \<Rightarrow> bytes32 \<Rightarrow> authorization \<Rightarrow> bytes32 \<Rightarrow> byte list result" where
  "sign_struct G w domain a sh =
     (if au_from a \<noteq> w_address w then Inl ''wallet: authorization.From != wallet''
      else case crypto_sign G (digest G domain sh) (w_key w) of
             None \<Rightarrow> Inl ''wallet: sign''
           | Some s \<Rightarrow> Inr (bump_v s))"

definition sign_authorization ::
    "geth \<Rightarrow> wallet \<Rightarrow> bytes32 \<Rightarrow> authorization \<Rightarrow> byte list result" where
  "sign_authorization G w domain a = sign_struct G w domain a (struct_hash G a)"

definition sign_receive_authorization ::
    "geth \<Rightarrow> wallet \<Rightarrow> bytes32 \<Rightarrow> authorization \<Rightarrow> byte list result" where
  "sign_receive_authorization G w domain a = sign_struct G w domain a (receive_struct_hash G a)"

text \<open>\<open>recoverStruct\<close>, which \<open>recover712\<close> of \<open>x402/mandate.go\<close> repeats with its own error text.\<close>

definition recover_struct :: "geth \<Rightarrow> bytes32 \<Rightarrow> bytes32 \<Rightarrow> byte list \<Rightarrow> address result" where
  "recover_struct G domain sh s =
     (if length s \<noteq> 65 then Inl (''wallet: signature must be 65 bytes, got '' @ show_nat (length s))
      else case sig_to_address G (digest G domain sh) (unbump_v s) of
             None \<Rightarrow> Inl ''wallet: recover''
           | Some a \<Rightarrow> Inr a)"

definition recover_signer :: "geth \<Rightarrow> bytes32 \<Rightarrow> authorization \<Rightarrow> byte list \<Rightarrow> address result" where
  "recover_signer G domain a s = recover_struct G domain (struct_hash G a) s"

definition recover_receive_signer ::
    "geth \<Rightarrow> bytes32 \<Rightarrow> authorization \<Rightarrow> byte list \<Rightarrow> address result" where
  "recover_receive_signer G domain a s = recover_struct G domain (receive_struct_hash G a) s"

definition split_signature :: "byte list \<Rightarrow> (byte \<times> bytes32 \<times> bytes32) result" where
  "split_signature s =
     (if length s \<noteq> 65 then Inl (''wallet: signature must be 65 bytes, got '' @ show_nat (length s))
      else Inr (if s ! 64 < 27 then s ! 64 + 27 else s ! 64,
                bytes32_of (take 32 s), bytes32_of (take 32 (drop 32 s))))"

lemma unbump_bump [simp]:
  assumes "length s = 65" and "s ! 64 = 0 \<or> s ! 64 = 1"
  shows "unbump_v (bump_v s) = s"
proof -
  have "(27::byte) \<le> s ! 64 + 27" and "(s ! 64 + 27) - 27 = s ! 64"
    using assms(2) by (auto simp: word_le_nat_alt)
  with assms(1) show ?thesis by (simp add: unbump_v_def bump_v_def)
qed

lemma recover_crypto_sign:
  assumes "geth_sig G" and "crypto_sign G (digest G domain sh) k = Some s"
  shows "recover_struct G domain sh (bump_v s) = Inr (key_address G k)"
proof -
  note sig = geth_sigD [OF assms]
  from sig(1,2) have "unbump_v (bump_v s) = s" by simp
  moreover from sig(1) have "length (bump_v s) = 65" by (simp add: bump_v_def)
  ultimately show ?thesis using sig(3) by (simp add: recover_struct_def)
qed

lemma sign_struct_recover:
  assumes "geth_sig G" and "sign_struct G (wallet_from_key G k) domain a sh = Inr s"
  shows "recover_struct G domain sh s = Inr (au_from a)"
proof -
  from assms(2) obtain s0 where "crypto_sign G (digest G domain sh) k = Some s0"
    and "s = bump_v s0" and "au_from a = key_address G k"
    by (auto simp: sign_struct_def wallet_from_key_def split: if_splits option.splits)
  with assms(1) show ?thesis by (simp add: recover_crypto_sign)
qed

section \<open>The encoding is unambiguous\<close>

definition u256_range :: "int \<Rightarrow> bool" where
  "u256_range x \<longleftrightarrow> 0 \<le> x \<and> x < 2 ^ 256"

lemma length_padded:
  assumes "geth_bytes G" and "length bs \<le> n"
  shows "length (left_pad_bytes G bs n) = n"
  using assms by (simp add: geth_bytes_def)

lemma padded_inj:
  assumes "geth_bytes G" and "length xs = length ys"
    and "left_pad_bytes G xs n = left_pad_bytes G ys n"
  shows "xs = ys"
  using assms by (simp add: geth_bytes_def)

lemma length_big_bytes:
  assumes "u256_range x"
  shows "length (big_bytes x) \<le> 32"
proof -
  from assms have "nat \<bar>x\<bar> < 256 ^ 32" by (simp add: u256_range_def nat_less_iff)
  then show ?thesis unfolding big_bytes_def by (rule length_nat_bytes)
qed

lemma padded_big_inj:
  assumes "geth_bytes G" and "u256_range x" and "u256_range y"
    and "left_pad_bytes G (big_bytes x) 32 = left_pad_bytes G (big_bytes y) 32"
  shows "x = y"
proof -
  have "bytes_nat (left_pad_bytes G (big_bytes z) 32) = nat z" if "u256_range z" for z
    using assms(1) that
    by (simp add: geth_bytes_def bytes_nat_append big_bytes_def u256_range_def)
  with assms have "nat x = nat y" by metis
  moreover from assms(2,3) have "0 \<le> x" "0 \<le> y" by (auto simp: u256_range_def)
  ultimately show ?thesis by simp
qed

lemma address_bytes_inj: "address_bytes a = address_bytes b \<Longrightarrow> a = b"
  by (metis address_of_bytes_bytes)

definition auth_in_range :: "authorization \<Rightarrow> bool" where
  "auth_in_range a \<longleftrightarrow>
     u256_range (au_value a) \<and> u256_range (au_valid_after a) \<and> u256_range (au_valid_before a)"

lemma length_pad_address:
  assumes "geth_bytes G"
  shows "length (left_pad_bytes G (address_bytes a) 32) = 32"
  by (rule length_padded [OF assms]) simp

lemma length_pad_big:
  assumes "geth_bytes G" and "u256_range x"
  shows "length (left_pad_bytes G (big_bytes x) 32) = 32"
  by (rule length_padded [OF assms(1)]) (rule length_big_bytes [OF assms(2)])

lemma pad_address_inj:
  assumes "geth_bytes G"
    and "left_pad_bytes G (address_bytes a) 32 = left_pad_bytes G (address_bytes b) 32"
  shows "a = b"
  by (rule address_bytes_inj) (rule padded_inj [OF assms(1) _ assms(2)], simp)

text \<open>One step along a concatenation of blocks of known length.\<close>

lemma block_split:
  assumes "xs @ ys = xs' @ ys'" and "length xs = n" and "length xs' = n"
  shows "xs = xs'" and "ys = ys'"
  using assms by simp_all

lemma auth_preimage_inj:
  assumes G: "geth_bytes G" and a: "auth_in_range a" and b: "auth_in_range b"
    and eq: "auth_preimage G t a = auth_preimage G u b"
  shows "t = u \<and> a = b"
proof -
  note ar = a [unfolded auth_in_range_def] and br = b [unfolded auth_in_range_def]
  note la = length_pad_address [OF G] and lb = length_pad_big [OF G]
  note e0 = block_split [OF eq [unfolded auth_preimage_def] bytes32_bytes_length bytes32_bytes_length]
  note e1 = block_split [OF e0(2) la la]
  note e2 = block_split [OF e1(2) la la]
  have e3: "left_pad_bytes G (big_bytes (au_value a)) 32 = left_pad_bytes G (big_bytes (au_value b)) 32"
    and r3: "left_pad_bytes G (big_bytes (au_valid_after a)) 32
      @ left_pad_bytes G (big_bytes (au_valid_before a)) 32 @ bytes32_bytes (au_nonce a)
      = left_pad_bytes G (big_bytes (au_valid_after b)) 32
      @ left_pad_bytes G (big_bytes (au_valid_before b)) 32 @ bytes32_bytes (au_nonce b)"
    using block_split [OF e2(2) lb lb] ar br by blast+
  have e4: "left_pad_bytes G (big_bytes (au_valid_after a)) 32 = left_pad_bytes G (big_bytes (au_valid_after b)) 32"
    and r4: "left_pad_bytes G (big_bytes (au_valid_before a)) 32 @ bytes32_bytes (au_nonce a)
      = left_pad_bytes G (big_bytes (au_valid_before b)) 32 @ bytes32_bytes (au_nonce b)"
    using block_split [OF r3 lb lb] ar br by blast+
  have e5: "left_pad_bytes G (big_bytes (au_valid_before a)) 32 = left_pad_bytes G (big_bytes (au_valid_before b)) 32"
    and r5: "bytes32_bytes (au_nonce a) = bytes32_bytes (au_nonce b)"
    using block_split [OF r4 lb lb] ar br by blast+
  have "au_from a = au_from b" "au_to a = au_to b"
    using pad_address_inj [OF G e1(1)] pad_address_inj [OF G e2(1)] .
  moreover have "au_value a = au_value b" "au_valid_after a = au_valid_after b"
      "au_valid_before a = au_valid_before b"
    using padded_big_inj [OF G _ _ e3] padded_big_inj [OF G _ _ e4] padded_big_inj [OF G _ _ e5]
      ar br by blast+
  ultimately show ?thesis
    using bytes32_bytes_inj [OF e0(1)] bytes32_bytes_inj [OF r5] by simp
qed

end
