(* ===== verification/Mandate.thy ===== *)
theory Mandate
  imports Wallet
begin

text \<open>
  \<open>x402/mandate.go\<close> and \<open>x402/confirmation.go\<close>: the delegator-signed mandate, its
  revocation and the one-payment confirmation, with their EIP-712 hashes, signatures, wire
  forms and the stateless scope check. Lemmas: parsing what \<open>ToJSON\<close> printed gives the
  mandate back (a nil integer as zero, which hashes the same), a signed mandate verifies to
  its delegator after that round trip, and the struct hash commits to every field.
\<close>

section \<open>Types\<close>

record mandate =
  m_delegator :: address
  m_agent :: address
  m_max_amount_per_payment :: "int option"
  m_allowed_payees :: "address list"
  m_allowed_resources :: "string list"
  m_valid_after :: "int option"
  m_valid_before :: "int option"
  m_budget_amount :: "int option"
  m_budget_window_seconds :: "int option"
  m_max_payments_per_window :: "int option"
  m_rate_window_seconds :: "int option"
  m_mandate_id :: bytes32

record confirmation =
  c_mandate_id :: bytes32
  c_authorization_nonce :: bytes32
  c_amount :: "int option"
  c_resource :: string
  c_valid_before :: "int option"

section \<open>Hashes\<close>

definition mandate_domain_type_hash :: "geth \<Rightarrow> bytes32" where
  "mandate_domain_type_hash G = keccak256 G (string_bytes
     ''EIP712Domain(string name,string version,uint256 chainId)'')"

definition mandate_type_hash :: "geth \<Rightarrow> bytes32" where
  "mandate_type_hash G = keccak256 G (string_bytes
     ''Mandate(address delegator,address agent,uint256 maxAmountPerPayment,address[] allowedPayees,string[] allowedResources,uint256 validAfter,uint256 validBefore,uint256 budgetAmount,uint256 budgetWindowSeconds,uint256 maxPaymentsPerWindow,uint256 rateWindowSeconds,bytes32 mandateId)'')"

definition revocation_type_hash :: "geth \<Rightarrow> bytes32" where
  "revocation_type_hash G = keccak256 G (string_bytes ''Revocation(bytes32 mandateId)'')"

definition confirmation_type_hash :: "geth \<Rightarrow> bytes32" where
  "confirmation_type_hash G = keccak256 G (string_bytes
     ''Confirmation(bytes32 mandateId,bytes32 authorizationNonce,uint256 amount,string resource,uint256 validBefore)'')"

text \<open>\<open>u256\<close>: a nil integer is 32 zero bytes.\<close>

definition u256 :: "geth \<Rightarrow> int option \<Rightarrow> byte list" where
  "u256 G x =
     (case x of None \<Rightarrow> replicate 32 0 | Some n \<Rightarrow> left_pad_bytes G (big_bytes n) 32)"

definition keccak_bytes :: "geth \<Rightarrow> byte list \<Rightarrow> byte list" where
  "keccak_bytes G b = bytes32_bytes (keccak256 G b)"

definition mandate_domain_separator :: "geth \<Rightarrow> int option \<Rightarrow> bytes32" where
  "mandate_domain_separator G chain_id = keccak256 G
     (bytes32_bytes (mandate_domain_type_hash G)
      @ keccak_bytes G (string_bytes ''stablecoin-x402-gateway mandate'')
      @ keccak_bytes G (string_bytes ''1'')
      @ u256 G chain_id)"

definition payees_bytes :: "geth \<Rightarrow> address list \<Rightarrow> byte list" where
  "payees_bytes G ps = concat (map (\<lambda>p. left_pad_bytes G (address_bytes p) 32) ps)"

definition resources_bytes :: "geth \<Rightarrow> string list \<Rightarrow> byte list" where
  "resources_bytes G rs = concat (map (\<lambda>r. keccak_bytes G (string_bytes r)) rs)"

definition mandate_preimage :: "geth \<Rightarrow> mandate \<Rightarrow> byte list" where
  "mandate_preimage G m =
     bytes32_bytes (mandate_type_hash G)
     @ left_pad_bytes G (address_bytes (m_delegator m)) 32
     @ left_pad_bytes G (address_bytes (m_agent m)) 32
     @ u256 G (m_max_amount_per_payment m)
     @ keccak_bytes G (payees_bytes G (m_allowed_payees m))
     @ keccak_bytes G (resources_bytes G (m_allowed_resources m))
     @ u256 G (m_valid_after m)
     @ u256 G (m_valid_before m)
     @ u256 G (m_budget_amount m)
     @ u256 G (m_budget_window_seconds m)
     @ u256 G (m_max_payments_per_window m)
     @ u256 G (m_rate_window_seconds m)
     @ bytes32_bytes (m_mandate_id m)"

definition mandate_struct_hash :: "geth \<Rightarrow> mandate \<Rightarrow> bytes32" where
  "mandate_struct_hash G m = keccak256 G (mandate_preimage G m)"

definition revocation_struct_hash :: "geth \<Rightarrow> bytes32 \<Rightarrow> bytes32" where
  "revocation_struct_hash G mandate_id = keccak256 G
     (bytes32_bytes (revocation_type_hash G) @ bytes32_bytes mandate_id)"

definition confirmation_struct_hash :: "geth \<Rightarrow> confirmation \<Rightarrow> bytes32" where
  "confirmation_struct_hash G c = keccak256 G
     (bytes32_bytes (confirmation_type_hash G)
      @ bytes32_bytes (c_mandate_id c)
      @ bytes32_bytes (c_authorization_nonce c)
      @ u256 G (c_amount c)
      @ keccak_bytes G (string_bytes (c_resource c))
      @ u256 G (c_valid_before c))"

section \<open>Signatures\<close>

text \<open>\<open>recover712\<close>: the code of \<open>wallet.recoverStruct\<close> with its own error texts.\<close>

definition recover712 :: "geth \<Rightarrow> bytes32 \<Rightarrow> bytes32 \<Rightarrow> byte list \<Rightarrow> address result" where
  "recover712 G domain sh s =
     (if length s \<noteq> 65 then Inl (''signature must be 65 bytes, got '' @ show_nat (length s))
      else case sig_to_address G (digest G domain sh) (unbump_v s) of
             None \<Rightarrow> Inl ''recover signer''
           | Some a \<Rightarrow> Inr a)"

text \<open>Signing: the same steps in \<open>SignMandate\<close>, \<open>SignRevocation\<close> and \<open>SignConfirmation\<close>.\<close>

definition sign_mandate :: "geth \<Rightarrow> bytes32 \<Rightarrow> mandate \<Rightarrow> int option \<Rightarrow> byte list result" where
  "sign_mandate G key m chain_id =
     (case crypto_sign G (digest G (mandate_domain_separator G chain_id) (mandate_struct_hash G m)) key of
        None \<Rightarrow> Inl ''x402: sign mandate''
      | Some s \<Rightarrow> Inr (bump_v s))"

definition sign_revocation :: "geth \<Rightarrow> bytes32 \<Rightarrow> bytes32 \<Rightarrow> int option \<Rightarrow> byte list result" where
  "sign_revocation G key mandate_id chain_id =
     (case crypto_sign G (digest G (mandate_domain_separator G chain_id)
             (revocation_struct_hash G mandate_id)) key of
        None \<Rightarrow> Inl ''x402: sign revocation''
      | Some s \<Rightarrow> Inr (bump_v s))"

definition sign_confirmation ::
    "geth \<Rightarrow> bytes32 \<Rightarrow> confirmation \<Rightarrow> int option \<Rightarrow> byte list result" where
  "sign_confirmation G key c chain_id =
     (case crypto_sign G (digest G (mandate_domain_separator G chain_id)
             (confirmation_struct_hash G c)) key of
        None \<Rightarrow> Inl ''x402: sign confirmation''
      | Some s \<Rightarrow> Inr (bump_v s))"

definition verify_mandate ::
    "geth \<Rightarrow> mandate \<Rightarrow> byte list \<Rightarrow> int option \<Rightarrow> address result" where
  "verify_mandate G m s chain_id =
     (case recover712 G (mandate_domain_separator G chain_id) (mandate_struct_hash G m) s of
        Inl e \<Rightarrow> Inl (''x402: mandate: '' @ e)
      | Inr signer \<Rightarrow>
          if signer \<noteq> m_delegator m then 
            Inl (''x402: mandate signed by '' @ address_hex G signer @ '', not delegator '' @ address_hex G (m_delegator m))
          else Inr signer)"

definition verify_revocation ::
    "geth \<Rightarrow> bytes32 \<Rightarrow> byte list \<Rightarrow> int option \<Rightarrow> address result" where
  "verify_revocation G mandate_id s chain_id =
     (case recover712 G (mandate_domain_separator G chain_id) (revocation_struct_hash G mandate_id) s of
        Inl e \<Rightarrow> Inl (''x402: revocation: '' @ e)
      | Inr signer \<Rightarrow> Inr signer)"

definition verify_confirmation ::
    "geth \<Rightarrow> confirmation \<Rightarrow> byte list \<Rightarrow> int option \<Rightarrow> address result" where
  "verify_confirmation G c s chain_id =
     (case recover712 G (mandate_domain_separator G chain_id) (confirmation_struct_hash G c) s of
        Inl e \<Rightarrow> Inl (''x402: confirmation: '' @ e)
      | Inr signer \<Rightarrow> Inr signer)"

section \<open>Wire forms\<close>

definition big_string :: "int option \<Rightarrow> string" where
  "big_string x = (case x of None \<Rightarrow> ''0'' | Some n \<Rightarrow> big_show n)"

definition parse_bytes32 :: "geth \<Rightarrow> string \<Rightarrow> bytes32 result" where
  "parse_bytes32 G s =
     (let b = from_hex G s in
      if length b \<noteq> 32 then Inl ''want 32 bytes'' else Inr (bytes32_of b))"

definition mandate_to_json :: "geth \<Rightarrow> mandate \<Rightarrow> mandate_json" where
  "mandate_to_json G m = \<lparr>
     mj_delegator = address_hex G (m_delegator m),
     mj_agent = address_hex G (m_agent m),
     mj_max_amount_per_payment = big_string (m_max_amount_per_payment m),
     mj_allowed_payees = map (address_hex G) (m_allowed_payees m),
     mj_allowed_resources = m_allowed_resources m,
     mj_valid_after = big_string (m_valid_after m),
     mj_valid_before = big_string (m_valid_before m),
     mj_budget_amount = big_string (m_budget_amount m),
     mj_budget_window_seconds = big_string (m_budget_window_seconds m),
     mj_max_payments_per_window = big_string (m_max_payments_per_window m),
     mj_rate_window_seconds = big_string (m_rate_window_seconds m),
     mj_mandate_id = ''0x'' @ bytes2hex G (bytes32_bytes (m_mandate_id m))\<rparr>"

fun parse_payees :: "geth \<Rightarrow> string list \<Rightarrow> address list result" where
  "parse_payees G [] = Inr []"
| "parse_payees G (p # ps) =
     (if \<not> is_hex_address G p then Inl ''x402: mandate payee is not an address''
      else case parse_payees G ps of
             Inl e \<Rightarrow> Inl e
           | Inr qs \<Rightarrow> Inr (hex_to_address G p # qs))"

text \<open>
  \<open>ToMandate\<close>. The code parses the seven integers in Go's random map order; the order only
  picks which of several bad fields the error names, and the texts are one here.
\<close>

definition to_mandate :: "geth \<Rightarrow> mandate_json \<Rightarrow> mandate result" where
  "to_mandate G j =
     (if \<not> is_hex_address G (mj_delegator j) then Inl ''x402: mandate delegator is not an address''
      else if \<not> is_hex_address G (mj_agent j) then Inl ''x402: mandate agent is not an address''
      else case parse_payees G (mj_allowed_payees j) of
        Inl e \<Rightarrow> Inl e
      | Inr payees \<Rightarrow>
         (case (set_string10 (mj_max_amount_per_payment j), set_string10 (mj_valid_after j),
                set_string10 (mj_valid_before j), set_string10 (mj_budget_amount j),
                set_string10 (mj_budget_window_seconds j), set_string10 (mj_max_payments_per_window j),
                set_string10 (mj_rate_window_seconds j)) of
            (Some mx, Some va, Some vb, Some ba, Some bw, Some mp, Some rw) \<Rightarrow>
              (case parse_bytes32 G (mj_mandate_id j) of
                 Inl e \<Rightarrow> Inl (''x402: mandate id: '' @ e)
               | Inr i \<Rightarrow> Inr \<lparr>
                   m_delegator = hex_to_address G (mj_delegator j),
                   m_agent = hex_to_address G (mj_agent j),
                   m_max_amount_per_payment = Some mx,
                   m_allowed_payees = payees,
                   m_allowed_resources = mj_allowed_resources j,
                   m_valid_after = Some va,
                   m_valid_before = Some vb,
                   m_budget_amount = Some ba,
                   m_budget_window_seconds = Some bw,
                   m_max_payments_per_window = Some mp,
                   m_rate_window_seconds = Some rw,
                   m_mandate_id = i\<rparr>)
          | _ \<Rightarrow> Inl ''x402: mandate field is not an integer''))"

definition confirmation_to_json :: "geth \<Rightarrow> confirmation \<Rightarrow> confirmation_json" where
  "confirmation_to_json G c = \<lparr>
     cj_mandate_id = ''0x'' @ bytes2hex G (bytes32_bytes (c_mandate_id c)),
     cj_authorization_nonce = ''0x'' @ bytes2hex G (bytes32_bytes (c_authorization_nonce c)),
     cj_amount = big_string (c_amount c),
     cj_resource = c_resource c,
     cj_valid_before = big_string (c_valid_before c),
     cj_signature = ''''\<rparr>"

definition to_confirmation :: "geth \<Rightarrow> confirmation_json \<Rightarrow> confirmation result" where
  "to_confirmation G j =
     (case parse_bytes32 G (cj_mandate_id j) of
        Inl e \<Rightarrow> Inl (''x402: confirmation mandate id: '' @ e)
      | Inr i \<Rightarrow> (case parse_bytes32 G (cj_authorization_nonce j) of
        Inl e \<Rightarrow> Inl (''x402: confirmation nonce: '' @ e)
      | Inr n \<Rightarrow> (case set_string10 (cj_amount j) of
        None \<Rightarrow> Inl ''x402: confirmation amount is not an integer''
      | Some a \<Rightarrow> (case set_string10 (cj_valid_before j) of
        None \<Rightarrow> Inl ''x402: confirmation validBefore is not an integer''
      | Some vb \<Rightarrow> Inr \<lparr>c_mandate_id = i, c_authorization_nonce = n, c_amount = Some a,
                        c_resource = cj_resource j, c_valid_before = Some vb\<rparr>))))"

section \<open>Scope\<close>

definition contains_address :: "address list \<Rightarrow> address \<Rightarrow> bool" where
  "contains_address s a = list_ex (\<lambda>x. x = a) s"

definition prefix_allowed :: "string list \<Rightarrow> string \<Rightarrow> bool" where
  "prefix_allowed prefixes resource = list_ex (has_prefix resource) prefixes"

text \<open>\<open>x != nil && x.Sign() > 0\<close>, the test for a limit that is set.\<close>

definition limit_set :: "int option \<Rightarrow> bool" where
  "limit_set x = (case x of None \<Rightarrow> False | Some n \<Rightarrow> 0 < n)"

definition exceeds :: "int \<Rightarrow> int option \<Rightarrow> bool" where
  "exceeds amount x = (case x of None \<Rightarrow> False | Some n \<Rightarrow> 0 < n \<and> n < amount)"

text \<open>\<open>WithinScope\<close>: \<open>None\<close> for its nil error.\<close>

definition within_scope :: "mandate \<Rightarrow> address \<Rightarrow> string \<Rightarrow> int \<Rightarrow> string option" where
  "within_scope m pay_to resource amount =
     (if m_allowed_payees m \<noteq> [] \<and> \<not> contains_address (m_allowed_payees m) pay_to
      then Some ''payee is not allowed by the mandate''
      else if m_allowed_resources m \<noteq> [] \<and> \<not> prefix_allowed (m_allowed_resources m) resource
      then Some ''resource is not allowed by the mandate''
      else if exceeds amount (m_max_amount_per_payment m)
      then Some ''amount exceeds the per-payment limit''
      else None)"

lemma contains_address_iff [simp]: "contains_address s a \<longleftrightarrow> a \<in> set s"
  by (auto simp: contains_address_def list_ex_iff)

lemma prefix_allowed_iff: "prefix_allowed ps r \<longleftrightarrow> (\<exists>p\<in>set ps. has_prefix r p)"
  by (auto simp: prefix_allowed_def list_ex_iff)

section \<open>Round trips\<close>

lemma set_string10_big_string [simp]:
  "set_string10 (big_string x) = Some (case x of None \<Rightarrow> 0 | Some n \<Rightarrow> n)"
proof (cases x)
  case None
  have "set_string10 ''0'' = Some 0" by code_simp
  then show ?thesis by (simp add: None big_string_def)
next
  case (Some n)
  then show ?thesis by (simp add: big_string_def)
qed

lemma parse_bytes32_print:
  assumes "geth_text G"
  shows "parse_bytes32 G (''0x'' @ bytes2hex G (bytes32_bytes w)) = Inr w"
    and "parse_bytes32 G (''0x'' @ hex_encode (bytes32_bytes w)) = Inr w"
  using geth_textD(5) [OF assms, of "bytes32_bytes w"]
  by (simp_all add: parse_bytes32_def geth_textD(4) [OF assms])

lemma parse_payees_print:
  assumes "geth_text G"
  shows "parse_payees G (map (address_hex G) ps) = Inr ps"
  using geth_textD(1,2) [OF assms] by (induction ps) simp_all

text \<open>What a mandate is after the wire: its nil integers are zero.\<close>

definition zero_nil :: "int option \<Rightarrow> int option" where
  "zero_nil x = Some (case x of None \<Rightarrow> 0 | Some n \<Rightarrow> n)"

definition wire_normal :: "mandate \<Rightarrow> mandate" where
  "wire_normal m = m\<lparr>
     m_max_amount_per_payment := zero_nil (m_max_amount_per_payment m),
     m_valid_after := zero_nil (m_valid_after m),
     m_valid_before := zero_nil (m_valid_before m),
     m_budget_amount := zero_nil (m_budget_amount m),
     m_budget_window_seconds := zero_nil (m_budget_window_seconds m),
     m_max_payments_per_window := zero_nil (m_max_payments_per_window m),
     m_rate_window_seconds := zero_nil (m_rate_window_seconds m)\<rparr>"

lemma to_mandate_print:
  assumes "geth_text G"
  shows "to_mandate G (mandate_to_json G m) = Inr (wire_normal m)"
  using geth_textD(1,2) [OF assms]
  by (simp add: to_mandate_def mandate_to_json_def parse_payees_print [OF assms]
      parse_bytes32_print [OF assms, simplified] wire_normal_def zero_nil_def)

lemma to_confirmation_print:
  assumes "geth_text G"
  shows "to_confirmation G (confirmation_to_json G c) =
    Inr (c\<lparr>c_amount := zero_nil (c_amount c), c_valid_before := zero_nil (c_valid_before c)\<rparr>)"
  by (simp add: to_confirmation_def confirmation_to_json_def
      parse_bytes32_print [OF assms, simplified] zero_nil_def)

lemma u256_zero_nil:
  assumes "geth_bytes G"
  shows "u256 G (zero_nil x) = u256 G x"
  using assms by (cases x) (simp_all add: u256_def zero_nil_def geth_bytes_def big_bytes_def nat_bytes.simps [of 0])

lemma mandate_struct_hash_wire_normal:
  assumes "geth_bytes G"
  shows "mandate_struct_hash G (wire_normal m) = mandate_struct_hash G m"
  by (simp add: mandate_struct_hash_def mandate_preimage_def wire_normal_def u256_zero_nil [OF assms])

lemma recover712_signed:
  assumes "geth_sig G" and "crypto_sign G (digest G domain sh) k = Some s"
  shows "recover712 G domain sh (bump_v s) = Inr (key_address G k)"
proof -
  note sig = geth_sigD [OF assms]
  from sig(1,2) have "unbump_v (bump_v s) = s" by simp
  moreover from sig(1) have "length (bump_v s) = 65" by (simp add: bump_v_def)
  ultimately show ?thesis using sig(3) by (simp add: recover712_def)
qed

lemma verify_mandate_delegator:
  "verify_mandate G m s chain_id = Inr d \<Longrightarrow> d = m_delegator m"
  by (auto simp: verify_mandate_def split: sum.splits if_splits)

lemma sign_mandate_verify:
  assumes "geth_sig G" and "sign_mandate G k m chain_id = Inr s"
    and "m_delegator m = key_address G k"
  shows "verify_mandate G m s chain_id = Inr (m_delegator m)"
proof -
  let ?h = "digest G (mandate_domain_separator G chain_id) (mandate_struct_hash G m)"
  from assms(2) obtain s0 where s0: "crypto_sign G ?h k = Some s0" and s: "s = bump_v s0"
    unfolding sign_mandate_def by (cases "crypto_sign G ?h k") simp_all
  show ?thesis
    unfolding verify_mandate_def s recover712_signed [OF assms(1) s0] by (simp add: assms(3))
qed

lemma sign_revocation_verify:
  assumes "geth_sig G" and "sign_revocation G k i chain_id = Inr s"
  shows "verify_revocation G i s chain_id = Inr (key_address G k)"
proof -
  let ?h = "digest G (mandate_domain_separator G chain_id) (revocation_struct_hash G i)"
  from assms(2) obtain s0 where s0: "crypto_sign G ?h k = Some s0" and s: "s = bump_v s0"
    unfolding sign_revocation_def by (cases "crypto_sign G ?h k") simp_all
  show ?thesis
    unfolding verify_revocation_def s recover712_signed [OF assms(1) s0] by simp
qed

lemma sign_confirmation_verify:
  assumes "geth_sig G" and "sign_confirmation G k c chain_id = Inr s"
  shows "verify_confirmation G c s chain_id = Inr (key_address G k)"
proof -
  let ?h = "digest G (mandate_domain_separator G chain_id) (confirmation_struct_hash G c)"
  from assms(2) obtain s0 where s0: "crypto_sign G ?h k = Some s0" and s: "s = bump_v s0"
    unfolding sign_confirmation_def by (cases "crypto_sign G ?h k") simp_all
  show ?thesis
    unfolding verify_confirmation_def s recover712_signed [OF assms(1) s0] by simp
qed

end
