(* ===== verification/Accounts.thy ===== *)
theory Accounts
  imports Mandate
begin

text \<open>
  The spend accounting of \<open>x402/policy_mandate.go\<close>: \<open>mandateAccounts\<close> keeps, per mandate
  id, the committed spends and the reservations of in-flight payments; \<open>mandateRevocations\<close>
  keeps the withdrawn mandates. Each operation holds the mutex for its whole body, so a
  concurrent run of the gateway is a sequence of these operations; \<open>acct_step\<close> is one of
  them, and \<open>run\<close> any interleaving. The lemmas show what the windows guarantee over every
  such sequence: committed plus reserved spend passes the budget only by what confirmed
  payments added, and a payment without confirmation is admitted only within it.
\<close>

section \<open>Windows\<close>

definition all_time :: int where
  "all_time = 2 ^ 62"

text \<open>\<open>windowDur\<close>: int64 seconds times time.Second, in int64, as the code computes it.\<close>

definition window_dur :: "int option \<Rightarrow> int" where
  "window_dur seconds =
     (case seconds of
        None \<Rightarrow> all_time
      | Some n \<Rightarrow> if n \<le> 0 then all_time else i64 (i64 n * ns_per_second))"

definition max_window :: "mandate \<Rightarrow> int" where
  "max_window m =
     (let b = window_dur (m_budget_window_seconds m); r = window_dur (m_rate_window_seconds m)
      in if b > r then b else r)"

text \<open>\<open>now.Add(-window)\<close>.\<close>

definition cutoff :: "int \<Rightarrow> int \<Rightarrow> int" where
  "cutoff now window = now + i64 (- window)"

section \<open>State\<close>

record mandate_spend =
  sp_at :: int
  sp_amount :: int

record mandate_account =
  ma_spends :: "mandate_spend list"
  ma_reserved :: "(bytes32 \<times> mandate_spend) list"

type_synonym accounts = "bytes32 \<rightharpoonup> mandate_account"

definition new_account :: mandate_account where
  "new_account = \<lparr>ma_spends = [], ma_reserved = []\<rparr>"

definition account_of :: "accounts \<Rightarrow> bytes32 \<Rightarrow> mandate_account" where
  "account_of a i = (case a i of None \<Rightarrow> new_account | Some acc \<Rightarrow> acc)"

section \<open>Operations\<close>

definition in_window :: "int \<Rightarrow> int \<Rightarrow> mandate_spend \<Rightarrow> bool" where
  "in_window now window s \<longleftrightarrow> \<not> sp_at s < cutoff now window"

definition committed_amount :: "mandate_account \<Rightarrow> int \<Rightarrow> int \<Rightarrow> int" where
  "committed_amount acc now window =
     sum_list (map sp_amount (filter (in_window now window) (ma_spends acc)))"

definition committed_count :: "mandate_account \<Rightarrow> int \<Rightarrow> int \<Rightarrow> int" where
  "committed_count acc now window = int (length (filter (in_window now window) (ma_spends acc)))"

definition reserved_amount :: "mandate_account \<Rightarrow> int" where
  "reserved_amount acc = sum_list (map (\<lambda>p. sp_amount (snd p)) (ma_reserved acc))"

definition prune :: "mandate_account \<Rightarrow> int \<Rightarrow> int \<Rightarrow> mandate_account" where
  "prune acc now window = acc\<lparr>ma_spends := filter (in_window now window) (ma_spends acc)\<rparr>"

definition restore :: "accounts \<Rightarrow> bytes32 \<Rightarrow> int \<Rightarrow> int \<Rightarrow> accounts" where
  "restore a i t amount =
     (let acc = account_of a i in
      a(i \<mapsto> acc\<lparr>ma_spends := ma_spends acc @ [\<lparr>sp_at = t, sp_amount = amount\<rparr>]\<rparr>))"

text \<open>
  \<open>reserve\<close> returns Go's empty string on success, here \<open>NoCode\<close>. The account is created
  even when the payment is refused.
\<close>

definition reserve ::
    "accounts \<Rightarrow> mandate \<Rightarrow> bytes32 \<Rightarrow> int \<Rightarrow> int \<Rightarrow> bool \<Rightarrow> errcode \<times> accounts" where
  "reserve a m nonce amount now skip_budget =
     (let acc = account_of a (m_mandate_id m);
          a' = a(m_mandate_id m \<mapsto> acc) in
      if \<not> skip_budget \<and> limit_set (m_budget_amount m) \<and>
         exceeds (committed_amount acc now (window_dur (m_budget_window_seconds m))
                  + reserved_amount acc + amount) (m_budget_amount m)
      then (ErrCodeMandateBudget, a')
      else if limit_set (m_max_payments_per_window m) \<and>
         (case m_max_payments_per_window m of
            None \<Rightarrow> False
          | Some n \<Rightarrow> committed_count acc now (window_dur (m_rate_window_seconds m))
                       + int (length (ma_reserved acc)) + 1 > i64 n)
      then (ErrCodeMandateRate, a')
      else (NoCode, a(m_mandate_id m \<mapsto>
              acc\<lparr>ma_reserved := AList.update nonce \<lparr>sp_at = now, sp_amount = amount\<rparr>
                                   (ma_reserved acc)\<rparr>)))"

definition commit_spend :: "accounts \<Rightarrow> mandate \<Rightarrow> bytes32 \<Rightarrow> int \<Rightarrow> accounts" where
  "commit_spend a m nonce now =
     (case a (m_mandate_id m) of
        None \<Rightarrow> a
      | Some acc \<Rightarrow>
         (case map_of (ma_reserved acc) nonce of
            None \<Rightarrow> a
          | Some r \<Rightarrow>
              a(m_mandate_id m \<mapsto> prune
                  (acc\<lparr>ma_reserved := AList.delete nonce (ma_reserved acc),
                       ma_spends := ma_spends acc @ [\<lparr>sp_at = now, sp_amount = sp_amount r\<rparr>]\<rparr>)
                  now (max_window m))))"

definition release :: "accounts \<Rightarrow> mandate \<Rightarrow> bytes32 \<Rightarrow> accounts" where
  "release a m nonce =
     (case a (m_mandate_id m) of
        None \<Rightarrow> a
      | Some acc \<Rightarrow>
          a(m_mandate_id m \<mapsto> acc\<lparr>ma_reserved := AList.delete nonce (ma_reserved acc)\<rparr>))"

section \<open>Revocations\<close>

text \<open>The set is keyed by \<open>revocationKey\<close>, the 20 delegator bytes then the 32 id bytes.\<close>

type_synonym revocations = "byte list set"

definition revocation_key :: "address \<Rightarrow> bytes32 \<Rightarrow> byte list" where
  "revocation_key delegator i = address_bytes delegator @ bytes32_bytes i"

definition revocations_add :: "revocations \<Rightarrow> address \<Rightarrow> bytes32 \<Rightarrow> revocations" where
  "revocations_add r delegator i = insert (revocation_key delegator i) r"

definition revocations_has :: "revocations \<Rightarrow> address \<Rightarrow> bytes32 \<Rightarrow> bool" where
  "revocations_has r delegator i \<longleftrightarrow> revocation_key delegator i \<in> r"

lemma revocation_key_inj: "revocation_key d i = revocation_key e j \<longleftrightarrow> d = e \<and> i = j"
proof
  assume "revocation_key d i = revocation_key e j"
  then have "address_bytes d = address_bytes e" and "bytes32_bytes i = bytes32_bytes j"
    by (simp_all add: revocation_key_def)
  then show "d = e \<and> i = j" by (simp add: address_bytes_inj bytes32_bytes_inj)
qed simp

lemma revocations_has_add [simp]:
  "revocations_has (revocations_add r d i) e j \<longleftrightarrow> (e = d \<and> j = i) \<or> revocations_has r e j"
  by (auto simp: revocations_has_def revocations_add_def revocation_key_inj)

section \<open>One account\<close>

definition account_wf :: "mandate_account \<Rightarrow> bool" where
  "account_wf acc \<longleftrightarrow>
     distinct (map fst (ma_reserved acc)) \<and>
     (\<forall>p\<in>set (ma_reserved acc). 0 \<le> sp_amount (snd p)) \<and>
     (\<forall>s\<in>set (ma_spends acc). 0 \<le> sp_amount s)"

lemma account_wf_new [simp]: "account_wf new_account"
  by (simp add: account_wf_def new_account_def)

text \<open>The spend an account counts against a window at a time.\<close>

definition window_use :: "mandate_account \<Rightarrow> int \<Rightarrow> int \<Rightarrow> int" where
  "window_use acc now window = committed_amount acc now window + reserved_amount acc"

lemma window_use_new [simp]: "window_use new_account now w = 0"
  by (simp add: window_use_def committed_amount_def reserved_amount_def new_account_def)

lemma set_AList_update:
  "set (AList.update k v xs) \<subseteq> insert (k, v) (set xs)"
  by (induction xs) auto

lemma set_AList_delete: "set (AList.delete k xs) \<subseteq> set xs"
  by (auto simp: AList.delete_eq)

lemma account_wf_reserve [go_inv]:
  "account_wf acc \<Longrightarrow> 0 \<le> amount \<Longrightarrow>
    account_wf (acc\<lparr>ma_reserved := AList.update n \<lparr>sp_at = t, sp_amount = amount\<rparr> (ma_reserved acc)\<rparr>)"
  using set_AList_update [of n "\<lparr>sp_at = t, sp_amount = amount\<rparr>" "ma_reserved acc"]
  by (fastforce simp: account_wf_def AList.distinct_update)

lemma account_wf_release [go_inv]:
  "account_wf acc \<Longrightarrow> account_wf (acc\<lparr>ma_reserved := AList.delete n (ma_reserved acc)\<rparr>)"
  using set_AList_delete [of n "ma_reserved acc"]
  by (auto simp: account_wf_def AList.distinct_delete)

lemma account_wf_prune [go_inv]: "account_wf acc \<Longrightarrow> account_wf (prune acc now w)"
  by (auto simp: account_wf_def prune_def)

lemma account_wf_spend [go_inv]:
  "account_wf acc \<Longrightarrow> 0 \<le> sp_amount s \<Longrightarrow> account_wf (acc\<lparr>ma_spends := ma_spends acc @ [s]\<rparr>)"
  by (auto simp: account_wf_def)

lemma cutoff_mono: "now \<le> now' \<Longrightarrow> cutoff now w \<le> cutoff now' w"
  by (simp add: cutoff_def)

lemma committed_amount_later:
  assumes "account_wf acc" and "now \<le> now'"
  shows "committed_amount acc now' w \<le> committed_amount acc now w"
  using assms cutoff_mono [OF assms(2), of w]
  unfolding committed_amount_def account_wf_def
  by (intro sum_list_filter_le) (auto simp: in_window_def)

lemma window_use_later:
  "account_wf acc \<Longrightarrow> now \<le> now' \<Longrightarrow> window_use acc now' w \<le> window_use acc now w"
  using committed_amount_later [of acc now now' w] by (simp add: window_use_def)

lemma cutoff_nonneg_window: "0 \<le> w \<Longrightarrow> w < 2 ^ 63 \<Longrightarrow> cutoff now w = now - w"
  by (simp add: cutoff_def i64_id)

lemma window_dur_range: "window_dur s < 2 ^ 63"
  using i64_range by (auto simp: window_dur_def all_time_def split: option.splits)

lemma max_window_ge: "window_dur (m_budget_window_seconds m) \<le> max_window m"
  by (simp add: max_window_def Let_def)

lemma max_window_range: "max_window m < 2 ^ 63"
  using window_dur_range by (simp add: max_window_def Let_def)

text \<open>Pruning by a wider window does not change what a narrower one counts.\<close>

lemma committed_amount_prune:
  assumes "0 \<le> w" and "w \<le> w'" and "w' < 2 ^ 63"
  shows "committed_amount (prune acc now w') now w = committed_amount acc now w"
proof -
  have "cutoff now w' \<le> cutoff now w"
    using assms by (simp add: cutoff_nonneg_window)
  then have "filter (in_window now w) (filter (in_window now w') (ma_spends acc))
      = filter (in_window now w) (ma_spends acc)"
    by (intro filter_filter_sub) (auto simp: in_window_def)
  then show ?thesis by (simp add: committed_amount_def prune_def)
qed

lemma reserved_amount_prune [simp]: "reserved_amount (prune acc now w) = reserved_amount acc"
  by (simp add: reserved_amount_def prune_def)

lemma reserved_amount_update:
  assumes "account_wf acc" and "0 \<le> amount"
  shows "reserved_amount (acc\<lparr>ma_reserved := AList.update n \<lparr>sp_at = t, sp_amount = amount\<rparr> (ma_reserved acc)\<rparr>)
    \<le> reserved_amount acc + amount"
proof (cases "map_of (ma_reserved acc) n")
  case None
  then show ?thesis
    using assms(1) sum_list_map_AList_update [of "ma_reserved acc" "\<lambda>p. sp_amount (snd p)" n]
    by (simp add: reserved_amount_def account_wf_def)
next
  case (Some r)
  then have "0 \<le> sp_amount r" using assms(1) by (auto simp: account_wf_def dest!: map_of_SomeD)
  with Some show ?thesis
    using assms(1) sum_list_map_AList_update [of "ma_reserved acc" "\<lambda>p. sp_amount (snd p)" n]
    by (simp add: reserved_amount_def account_wf_def)
qed

lemma reserved_amount_delete:
  assumes "account_wf acc" and "map_of (ma_reserved acc) n = Some r"
  shows "reserved_amount (acc\<lparr>ma_reserved := AList.delete n (ma_reserved acc)\<rparr>)
    = reserved_amount acc - sp_amount r"
  using assms sum_list_map_AList_delete [of "ma_reserved acc" n r "\<lambda>p. sp_amount (snd p)"]
  by (simp add: reserved_amount_def account_wf_def)

lemma reserved_amount_delete_le:
  assumes "account_wf acc"
  shows "reserved_amount (acc\<lparr>ma_reserved := AList.delete n (ma_reserved acc)\<rparr>) \<le> reserved_amount acc"
proof (cases "map_of (ma_reserved acc) n")
  case None
  then show ?thesis by (simp add: AList_delete_missing)
next
  case (Some r)
  then have "0 \<le> sp_amount r"
    using assms by (auto simp: account_wf_def dest!: map_of_SomeD)
  then show ?thesis using reserved_amount_delete [OF assms Some] by simp
qed

section \<open>The operations on one mandate's account\<close>

lemma account_of_upd [simp]: "account_of (a(i \<mapsto> acc)) i = acc"
  by (simp add: account_of_def)

lemma account_of_other [simp]: "i \<noteq> j \<Longrightarrow> account_of (a(i \<mapsto> acc)) j = account_of a j"
  by (simp add: account_of_def)

lemma reserve_other [simp]:
  "m_mandate_id m \<noteq> i \<Longrightarrow> account_of (snd (reserve a m n amount now skip)) i = account_of a i"
  by (simp add: reserve_def Let_def)

lemma commit_spend_other [simp]:
  "m_mandate_id m \<noteq> i \<Longrightarrow> account_of (commit_spend a m n now) i = account_of a i"
  by (simp add: commit_spend_def split: option.split)

lemma release_other [simp]:
  "m_mandate_id m \<noteq> i \<Longrightarrow> account_of (release a m n) i = account_of a i"
  by (simp add: release_def split: option.split)

lemma restore_other [simp]: "i \<noteq> j \<Longrightarrow> account_of (restore a i t amount) j = account_of a j"
  by (simp add: restore_def Let_def)

text \<open>What \<open>reserve\<close> does to its own account, by its answer.\<close>

lemma reserve_refused:
  "fst (reserve a m n amount now skip) \<noteq> NoCode \<Longrightarrow>
    account_of (snd (reserve a m n amount now skip)) (m_mandate_id m) = account_of a (m_mandate_id m)"
  by (simp add: reserve_def Let_def split: if_splits)

lemma reserve_granted:
  assumes "fst (reserve a m n amount now skip) = NoCode"
  shows "account_of (snd (reserve a m n amount now skip)) (m_mandate_id m) =
    (account_of a (m_mandate_id m))\<lparr>ma_reserved :=
       AList.update n \<lparr>sp_at = now, sp_amount = amount\<rparr> (ma_reserved (account_of a (m_mandate_id m)))\<rparr>"
  using assms by (auto simp: reserve_def Let_def split: if_splits)

definition budget_of :: "mandate \<Rightarrow> int" where
  "budget_of m = (case m_budget_amount m of None \<Rightarrow> 0 | Some n \<Rightarrow> n)"

definition budget_window :: "mandate \<Rightarrow> int" where
  "budget_window m = window_dur (m_budget_window_seconds m)"

lemma reserve_granted_fits:
  assumes "fst (reserve a m n amount now False) = NoCode" and "limit_set (m_budget_amount m)"
  shows "window_use (account_of a (m_mandate_id m)) now (budget_window m) + amount \<le> budget_of m"
  using assms
  by (simp add: reserve_def Let_def exceeds_def limit_set_def budget_of_def budget_window_def
      window_use_def split: if_splits option.splits)

lemma commit_spend_own:
  "account_of (commit_spend a m n now) (m_mandate_id m) =
    (let acc = account_of a (m_mandate_id m) in
     case map_of (ma_reserved acc) n of
       None \<Rightarrow> acc
     | Some r \<Rightarrow> prune (acc\<lparr>ma_reserved := AList.delete n (ma_reserved acc),
                 ma_spends := ma_spends acc @ [\<lparr>sp_at = now, sp_amount = sp_amount r\<rparr>]\<rparr>)
               now (max_window m))"
  by (auto simp: commit_spend_def account_of_def new_account_def Let_def split: option.split)

lemma release_own:
  "account_of (release a m n) (m_mandate_id m) =
    (account_of a (m_mandate_id m))\<lparr>ma_reserved :=
       AList.delete n (ma_reserved (account_of a (m_mandate_id m)))\<rparr>"
  by (auto simp: release_def account_of_def new_account_def split: option.split)

text \<open>Committing moves the amount from the reserved to the committed side.\<close>

lemma window_use_commit:
  assumes wf: "account_wf acc" and r: "map_of (ma_reserved acc) n = Some r"
    and w: "0 \<le> w" "w \<le> w'" "w' < 2 ^ 63"
  shows "window_use (prune (acc\<lparr>ma_reserved := AList.delete n (ma_reserved acc),
           ma_spends := ma_spends acc @ [\<lparr>sp_at = now, sp_amount = sp_amount r\<rparr>]\<rparr>) now w') now w
    = window_use acc now w"
proof -
  have "in_window now w \<lparr>sp_at = now, sp_amount = sp_amount r\<rparr>"
    using w by (simp add: in_window_def cutoff_nonneg_window)
  then show ?thesis
    using reserved_amount_delete [OF wf r] w
    by (simp add: window_use_def committed_amount_prune)
      (simp add: committed_amount_def reserved_amount_def)
qed

section \<open>Any interleaving of payments\<close>

datatype acct_op =
    OpReserve mandate bytes32 int int bool
  | OpCommit mandate bytes32 int
  | OpRelease mandate bytes32

fun acct_apply :: "accounts \<Rightarrow> acct_op \<Rightarrow> accounts" where
  "acct_apply a (OpReserve m n amount now skip) = snd (reserve a m n amount now skip)"
| "acct_apply a (OpCommit m n now) = commit_spend a m n now"
| "acct_apply a (OpRelease m n) = release a m n"

fun op_time :: "int \<Rightarrow> acct_op \<Rightarrow> int" where
  "op_time t (OpReserve m n amount now skip) = now"
| "op_time t (OpCommit m n now) = now"
| "op_time t (OpRelease m n) = t"

text \<open>A state with the time of its last operation.\<close>

definition acct_step :: "accounts \<times> int \<Rightarrow> acct_op \<Rightarrow> accounts \<times> int" where
  "acct_step s oper = (acct_apply (fst s) oper, op_time (snd s) oper)"

text \<open>
  The runs the statements are about: the clock does not go back, amounts are not negative,
  and the operations on this mandate id carry this mandate's signed terms.
\<close>

fun acct_ok :: "mandate \<Rightarrow> accounts \<times> int \<Rightarrow> acct_op \<Rightarrow> bool" where
  "acct_ok m s (OpReserve m' n amount now skip) \<longleftrightarrow>
     snd s \<le> now \<and> 0 \<le> amount \<and> (m_mandate_id m' = m_mandate_id m \<longrightarrow> m' = m)"
| "acct_ok m s (OpCommit m' n now) \<longleftrightarrow>
     snd s \<le> now \<and> (m_mandate_id m' = m_mandate_id m \<longrightarrow> m' = m)"
| "acct_ok m s (OpRelease m' n) \<longleftrightarrow> True"

text \<open>What a confirmed payment of this mandate was admitted for without the budget check.\<close>

fun waived :: "mandate \<Rightarrow> accounts \<Rightarrow> acct_op \<Rightarrow> int" where
  "waived m a (OpReserve m' n amount now skip) =
     (if m_mandate_id m' = m_mandate_id m \<and> skip \<and> fst (reserve a m' n amount now skip) = NoCode then amount else 0)"
| "waived m a _ = 0"

fun waived_total :: "mandate \<Rightarrow> accounts \<times> int \<Rightarrow> acct_op list \<Rightarrow> int" where
  "waived_total m s [] = 0"
| "waived_total m s (oper # ops) = waived m (fst s) oper + waived_total m (acct_step s oper) ops"

text \<open>The run with that total beside it.\<close>

definition budget_step :: "mandate \<Rightarrow> (accounts \<times> int) \<times> int \<Rightarrow> acct_op \<Rightarrow> (accounts \<times> int) \<times> int" where
  "budget_step m s oper = (acct_step (fst s) oper, snd s + waived m (fst (fst s)) oper)"

lemma run_budget: "run (budget_step m) (s, k) ops = (run acct_step s ops, k + waived_total m s ops)"
  by (induction ops arbitrary: s k) (simp_all add: budget_step_def)

lemma allowed_budget:
  "allowed (budget_step m) (\<lambda>x. acct_ok m (fst x)) (s, k) ops \<longleftrightarrow> allowed acct_step (acct_ok m) s ops"
  by (induction ops arbitrary: s k) (simp_all add: budget_step_def)

definition budget_enforceable :: "mandate \<Rightarrow> bool" where
  "budget_enforceable m \<longleftrightarrow> limit_set (m_budget_amount m) \<and> 0 \<le> budget_window m"

definition acct_inv :: "mandate \<Rightarrow> int \<Rightarrow> accounts \<times> int \<Rightarrow> bool" where
  "acct_inv m k s \<longleftrightarrow>
     budget_enforceable m \<and> 0 \<le> k \<and> account_wf (account_of (fst s) (m_mandate_id m)) \<and>
     window_use (account_of (fst s) (m_mandate_id m)) (snd s) (budget_window m) \<le> budget_of m + k"

lemma reserve_granted_use:
  assumes "fst (reserve a m n amount now skip) = NoCode" and "account_wf (account_of a (m_mandate_id m))" and "0 \<le> amount"
  shows "window_use (account_of (snd (reserve a m n amount now skip)) (m_mandate_id m)) now w
    \<le> window_use (account_of a (m_mandate_id m)) now w + amount"
  using reserved_amount_update [OF assms(2,3), of n now]
  by (simp add: reserve_granted [OF assms(1)] window_use_def committed_amount_def)

lemma acct_inv_reserve:
  assumes inv: "acct_inv m k (a, t)" and ok: "acct_ok m (a, t) (OpReserve m' n amount now skip)"
  shows "acct_inv m (k + waived m a (OpReserve m' n amount now skip)) (snd (reserve a m' n amount now skip), now)"
proof (cases "m_mandate_id m' = m_mandate_id m")
  case False
  then show ?thesis
    using inv ok window_use_later [of "account_of a (m_mandate_id m)" t now "budget_window m"]
    by (simp add: acct_inv_def)
next
  case True
  let ?acc = "account_of a (m_mandate_id m)"
  have m: "m' = m" "t \<le> now" "0 \<le> amount" using True ok by auto
  have wf: "account_wf ?acc" and lim: "limit_set (m_budget_amount m)"
    using inv by (auto simp: acct_inv_def budget_enforceable_def)
  show ?thesis
  proof (cases "fst (reserve a m n amount now skip) = NoCode")
    case False
    then show ?thesis
      using inv m window_use_later [OF wf m(2), of "budget_window m"]
      by (simp add: acct_inv_def reserve_refused)
  next
    case granted: True
    have "account_wf (account_of (snd (reserve a m n amount now skip)) (m_mandate_id m))"
      by (simp add: reserve_granted [OF granted] account_wf_reserve wf m(3))
    then show ?thesis
      using reserve_granted_use [OF granted wf m(3), of "budget_window m"] reserve_granted_fits [of a m n amount now] granted lim inv m
        window_use_later [OF wf m(2), of "budget_window m"]
      by (cases skip) (auto simp: acct_inv_def)
  qed
qed

lemma acct_inv_commit:
  assumes inv: "acct_inv m k (a, t)" and ok: "acct_ok m (a, t) (OpCommit m' n now)"
  shows "acct_inv m k (commit_spend a m' n now, now)"
proof (cases "m_mandate_id m' = m_mandate_id m")
  case False
  then show ?thesis
    using inv ok window_use_later [of "account_of a (m_mandate_id m)" t now "budget_window m"]
    by (simp add: acct_inv_def)
next
  case True
  let ?acc = "account_of a (m_mandate_id m)"
  have m: "m' = m" "t \<le> now" using True ok by auto
  have wf: "account_wf ?acc" and w: "0 \<le> budget_window m"
    using inv by (auto simp: acct_inv_def budget_enforceable_def)
  have later: "window_use ?acc now (budget_window m) \<le> budget_of m + k"
    using window_use_later [OF wf m(2), of "budget_window m"] inv by (simp add: acct_inv_def)
  show ?thesis
  proof (cases "map_of (ma_reserved ?acc) n")
    case None
    then show ?thesis
      using inv later m by (simp add: acct_inv_def commit_spend_own Let_def)
  next
    case (Some r)
    then have "0 \<le> sp_amount r" using wf by (auto simp: account_wf_def dest!: map_of_SomeD)
    then have "account_wf (prune (?acc\<lparr>ma_reserved := AList.delete n (ma_reserved ?acc),
        ma_spends := ma_spends ?acc @ [\<lparr>sp_at = now, sp_amount = sp_amount r\<rparr>]\<rparr>) now (max_window m))"
      using account_wf_spend [OF account_wf_release [OF wf, of n],
          of "\<lparr>sp_at = now, sp_amount = sp_amount r\<rparr>"]
      by (intro account_wf_prune) simp
    moreover note window_use_commit [OF wf Some w _ max_window_range, of m now]
    ultimately show ?thesis
      using inv later m Some max_window_ge [of m]
      by (simp add: acct_inv_def commit_spend_own Let_def budget_window_def)
  qed
qed

lemma acct_inv_release:
  assumes inv: "acct_inv m k (a, t)"
  shows "acct_inv m k (release a m' n, t)"
proof (cases "m_mandate_id m' = m_mandate_id m")
  case False
  then show ?thesis using inv by (simp add: acct_inv_def)
next
  case True
  have wf: "account_wf (account_of a (m_mandate_id m))" using inv by (simp add: acct_inv_def)
  have "release a m' n = release a m n" using True by (auto simp: release_def split: option.split)
  then show ?thesis
    using inv reserved_amount_delete_le [OF wf, of n] account_wf_release [OF wf, of n]
    by (simp add: acct_inv_def release_own window_use_def committed_amount_def)
qed

interpretation acct: machine "budget_step m" "\<lambda>s. acct_ok m (fst s)" "\<lambda>s. acct_inv m (snd s) (fst s)" for m
proof unfold_locales
  fix s :: "(accounts \<times> int) \<times> int" and oper
  obtain a t k where s: "s = ((a, t), k)" by (metis prod.collapse)
  assume inv: "acct_inv m (snd s) (fst s)" and ok: "acct_ok m (fst s) oper"
  show "acct_inv m (snd (budget_step m s oper)) (fst (budget_step m s oper))"
  proof (cases oper)
    case (OpReserve m' n amount now skip)
    then show ?thesis using acct_inv_reserve [of m k a t m' n amount now skip] inv ok
      by (simp only: s budget_step_def acct_step_def fst_conv snd_conv acct_apply.simps op_time.simps)
  qed (use inv ok s in \<open>simp_all add: budget_step_def acct_step_def acct_inv_commit acct_inv_release\<close>)
qed

section \<open>The rate cap\<close>

text \<open>
  The payments counted against the frequency window: committed in the window or reserved.
  A confirmation waives the budget, never this cap, so every confirmed payment counts here.
\<close>

definition rate_window :: "mandate \<Rightarrow> int" where
  "rate_window m = window_dur (m_rate_window_seconds m)"

definition rate_use :: "mandate_account \<Rightarrow> int \<Rightarrow> int \<Rightarrow> int" where
  "rate_use acc now window = committed_count acc now window + int (length (ma_reserved acc))"

definition rate_limit :: "mandate \<Rightarrow> int" where
  "rate_limit m = (case m_max_payments_per_window m of None \<Rightarrow> 0 | Some n \<Rightarrow> n)"

definition rate_enforceable :: "mandate \<Rightarrow> bool" where
  "rate_enforceable m \<longleftrightarrow>
     limit_set (m_max_payments_per_window m) \<and> rate_limit m < 2 ^ 63 \<and> 0 \<le> rate_window m"

definition rate_inv :: "mandate \<Rightarrow> accounts \<times> int \<Rightarrow> bool" where
  "rate_inv m s \<longleftrightarrow>
     rate_enforceable m \<and> account_wf (account_of (fst s) (m_mandate_id m)) \<and>
     rate_use (account_of (fst s) (m_mandate_id m)) (snd s) (rate_window m) \<le> rate_limit m"

lemma rate_use_later:
  assumes "now \<le> now'"
  shows "rate_use acc now' w \<le> rate_use acc now w"
proof -
  have "cutoff now w \<le> cutoff now' w" using assms by (rule cutoff_mono)
  then have "length (filter (in_window now' w) (ma_spends acc))
      \<le> length (filter (in_window now w) (ma_spends acc))"
    by (intro filter_length_le) (auto simp: in_window_def)
  then show ?thesis by (simp add: rate_use_def committed_count_def)
qed

lemma reserve_granted_rate:
  assumes "fst (reserve a m n amount now skip) = NoCode" and "rate_enforceable m"
  shows "rate_use (account_of a (m_mandate_id m)) now (rate_window m) + 1 \<le> rate_limit m"
proof -
  obtain k where k: "m_max_payments_per_window m = Some k" "0 < k" "k < 2 ^ 63"
    using assms(2) by (auto simp: rate_enforceable_def rate_limit_def limit_set_def split: option.splits)
  then have "i64 k = k" by (simp add: i64_id)
  with assms(1) k show ?thesis
    by (simp add: reserve_def Let_def limit_set_def rate_use_def rate_window_def rate_limit_def
        split: if_splits)
qed

lemma rate_use_update:
  "rate_use (acc\<lparr>ma_reserved := AList.update n v (ma_reserved acc)\<rparr>) now w \<le> rate_use acc now w + 1"
  by (simp add: rate_use_def committed_count_def length_AList_update)

lemma rate_use_delete:
  "rate_use (acc\<lparr>ma_reserved := AList.delete n (ma_reserved acc)\<rparr>) now w \<le> rate_use acc now w"
  by (simp add: rate_use_def committed_count_def AList.delete_eq)

lemma rate_use_commit:
  assumes wf: "account_wf acc" and r: "map_of (ma_reserved acc) n = Some r"
  shows "rate_use (prune (acc\<lparr>ma_reserved := AList.delete n (ma_reserved acc),
           ma_spends := ma_spends acc @ [\<lparr>sp_at = now, sp_amount = sp_amount r\<rparr>]\<rparr>) now w') now w
    \<le> rate_use acc now w"
proof -
  let ?s = "\<lparr>sp_at = now, sp_amount = sp_amount r\<rparr>"
  have "length (filter (in_window now w) (filter (in_window now w') (ma_spends acc @ [?s])))
      \<le> length (filter (in_window now w) (ma_spends acc @ [?s]))"
    unfolding filter_filter by (intro filter_length_le) auto
  also have "\<dots> \<le> Suc (length (filter (in_window now w) (ma_spends acc)))" by simp
  finally show ?thesis
    using length_AList_delete [of "ma_reserved acc" n] wf r
    by (simp add: rate_use_def committed_count_def prune_def account_wf_def)
qed

lemma rate_inv_reserve:
  assumes inv: "rate_inv m (a, t)" and ok: "acct_ok m (a, t) (OpReserve m' n amount now skip)"
  shows "rate_inv m (snd (reserve a m' n amount now skip), now)"
proof (cases "m_mandate_id m' = m_mandate_id m")
  case False
  then show ?thesis
    using inv ok rate_use_later [of t now "account_of a (m_mandate_id m)" "rate_window m"]
    by (simp add: rate_inv_def)
next
  case True
  let ?acc = "account_of a (m_mandate_id m)"
  have m: "m' = m" "t \<le> now" "0 \<le> amount" using True ok by auto
  have wf: "account_wf ?acc" and en: "rate_enforceable m" using inv by (auto simp: rate_inv_def)
  have later: "rate_use ?acc now (rate_window m) \<le> rate_limit m"
    using rate_use_later [OF m(2), of ?acc "rate_window m"] inv by (simp add: rate_inv_def)
  show ?thesis
  proof (cases "fst (reserve a m n amount now skip) = NoCode")
    case False
    then show ?thesis using inv m later by (simp add: rate_inv_def reserve_refused)
  next
    case granted: True
    show ?thesis
      using reserve_granted_rate [OF granted en] en wf m
        rate_use_update [where acc = ?acc and n = n and v = "\<lparr>sp_at = now, sp_amount = amount\<rparr>"
          and now = now and w = "rate_window m"]
      by (simp add: rate_inv_def reserve_granted [OF granted] account_wf_reserve)
  qed
qed

lemma rate_inv_commit:
  assumes inv: "rate_inv m (a, t)" and ok: "acct_ok m (a, t) (OpCommit m' n now)"
  shows "rate_inv m (commit_spend a m' n now, now)"
proof (cases "m_mandate_id m' = m_mandate_id m")
  case False
  then show ?thesis
    using inv ok rate_use_later [of t now "account_of a (m_mandate_id m)" "rate_window m"]
    by (simp add: rate_inv_def)
next
  case True
  let ?acc = "account_of a (m_mandate_id m)"
  have m: "m' = m" "t \<le> now" using True ok by auto
  have wf: "account_wf ?acc" using inv by (simp add: rate_inv_def)
  have later: "rate_use ?acc now (rate_window m) \<le> rate_limit m"
    using rate_use_later [OF m(2), of ?acc "rate_window m"] inv by (simp add: rate_inv_def)
  show ?thesis
  proof (cases "map_of (ma_reserved ?acc) n")
    case None
    then show ?thesis using inv later m by (simp add: rate_inv_def commit_spend_own Let_def)
  next
    case (Some r)
    then have "0 \<le> sp_amount r" using wf by (auto simp: account_wf_def dest!: map_of_SomeD)
    then have "account_wf (prune (?acc\<lparr>ma_reserved := AList.delete n (ma_reserved ?acc),
        ma_spends := ma_spends ?acc @ [\<lparr>sp_at = now, sp_amount = sp_amount r\<rparr>]\<rparr>) now (max_window m))"
      using account_wf_spend [OF account_wf_release [OF wf, of n],
          of "\<lparr>sp_at = now, sp_amount = sp_amount r\<rparr>"]
      by (intro account_wf_prune) simp
    moreover note rate_use_commit [OF wf Some, of now "max_window m" "rate_window m"]
    ultimately show ?thesis
      using inv later m Some by (simp add: rate_inv_def commit_spend_own Let_def)
  qed
qed

lemma rate_inv_release:
  assumes inv: "rate_inv m (a, t)"
  shows "rate_inv m (release a m' n, t)"
proof (cases "m_mandate_id m' = m_mandate_id m")
  case False
  then show ?thesis using inv by (simp add: rate_inv_def)
next
  case True
  have wf: "account_wf (account_of a (m_mandate_id m))" using inv by (simp add: rate_inv_def)
  have "release a m' n = release a m n" using True by (auto simp: release_def split: option.split)
  then show ?thesis
    using inv rate_use_delete [where acc = "account_of a (m_mandate_id m)" and n = n and now = t
        and w = "rate_window m"]
      account_wf_release [OF wf, of n]
    by (simp add: rate_inv_def release_own)
qed

interpretation rate: machine acct_step "acct_ok m" "rate_inv m" for m
proof unfold_locales
  fix s oper
  assume "rate_inv m s" and "acct_ok m s oper"
  then show "rate_inv m (acct_step s oper)"
    by (cases s; cases oper) (simp_all add: acct_step_def rate_inv_reserve rate_inv_commit rate_inv_release)
qed

section \<open>Properties\<close>

text \<open>
  C2. The cumulative budget holds under every interleaving of payments: starting from a
  mandate with a budget, a window that is not negative and no account, after any sequence of reserve, commit and release operations
  (the clock never goes back, amounts are not negative, the id is used with these terms
  only), what is committed inside the budget window plus what is reserved is at most the
  mandate's BudgetAmount plus the amounts that confirmed payments were admitted for past the
  budget check; and a payment without confirmation is admitted only where all of it, what was
  confirmed included, is within the BudgetAmount.
\<close>

theorem budget_holds_under_interleaving:
  assumes "budget_enforceable m" and "a (m_mandate_id m) = None"
    and "allowed acct_step (acct_ok m) (a, t) ops"
  shows "window_use (account_of (fst (run acct_step (a, t) ops)) (m_mandate_id m))
      (snd (run acct_step (a, t) ops)) (budget_window m) \<le> budget_of m + waived_total m (a, t) ops \<and>
    (\<forall>before n amount now after. ops = before @ OpReserve m n amount now False # after \<longrightarrow>
      (let b = fst (run acct_step (a, t) before) in fst (reserve b m n amount now False) = NoCode \<longrightarrow>
        window_use (account_of (snd (reserve b m n amount now False)) (m_mandate_id m)) now (budget_window m) \<le> budget_of m))"
proof -
  have "account_of a (m_mandate_id m) = new_account" using assms(2) by (simp add: account_of_def)
  then have start: "acct_inv m 0 (a, t)"
    using assms(1)
    by (auto simp: acct_inv_def budget_enforceable_def limit_set_def budget_of_def split: option.splits)
  have inv: "acct_inv m (waived_total m (a, t) xs) (run acct_step (a, t) xs)" if "allowed acct_step (acct_ok m) (a, t) xs" for xs
    using acct.run_inv [of m "((a, t), 0)" xs] start that by (simp add: run_budget allowed_budget)
  have "window_use (account_of (snd (reserve b m n amount now False)) (m_mandate_id m)) now (budget_window m) \<le> budget_of m"
    if "ops = before @ OpReserve m n amount now False # after" and "b = fst (run acct_step (a, t) before)"
      and "fst (reserve b m n amount now False) = NoCode" for before n amount now after b
  proof -
    have "account_wf (account_of b (m_mandate_id m))" "0 \<le> amount" "limit_set (m_budget_amount m)"
      using inv [of before] assms(1,3) that(1,2) by (auto simp: acct_inv_def budget_enforceable_def)
    then show ?thesis
      using reserve_granted_use [OF that(3), of "budget_window m"] reserve_granted_fits [OF that(3)] by simp
  qed
  then show ?thesis using inv [OF assms(3)] by (auto simp: acct_inv_def Let_def)
qed

text \<open>A mandate with a budget of 100 over an hour and two payments an hour, for the witnesses.\<close>

definition sample_mandate :: mandate where
  "sample_mandate = \<lparr>
     m_delegator = 1, m_agent = 2, m_max_amount_per_payment = Some 80,
     m_allowed_payees = [], m_allowed_resources = [],
     m_valid_after = Some 0, m_valid_before = Some 2000000000,
     m_budget_amount = Some 100, m_budget_window_seconds = Some 3600,
     m_max_payments_per_window = Some 2, m_rate_window_seconds = Some 3600,
     m_mandate_id = 7\<rparr>"

lemma sample_window [simp]: "window_dur (Some 3600) = 3600000000000"
  by (simp add: window_dur_def ns_per_second_def i64_id)

theorem budget_holds_witness:
  "let ops = [OpReserve sample_mandate 1 60 1000 False, OpReserve sample_mandate 2 60 1001 False,
              OpCommit sample_mandate 1 1002, OpReserve sample_mandate 3 60 1003 True] in
   window_use (account_of (fst (run acct_step (Map.empty, 0) ops)) 7)
     (snd (run acct_step (Map.empty, 0) ops)) (budget_window sample_mandate) \<le> 100 + waived_total sample_mandate (Map.empty, 0) ops"
proof -
  let ?ops = "[OpReserve sample_mandate 1 60 1000 False, OpReserve sample_mandate 2 60 1001 False,
              OpCommit sample_mandate 1 1002, OpReserve sample_mandate 3 60 1003 True]"
  have en: "budget_enforceable sample_mandate"
    by (simp add: budget_enforceable_def sample_mandate_def limit_set_def budget_window_def)
  have al: "allowed acct_step (acct_ok sample_mandate) (Map.empty, 0) ?ops"
    by (simp add: acct_step_def)
  have e: "Map.empty (m_mandate_id sample_mandate) = None" by simp
  have i: "m_mandate_id sample_mandate = 7" "budget_of sample_mandate = 100"
    by (simp_all add: sample_mandate_def budget_of_def)
  show ?thesis
    using budget_holds_under_interleaving [OF en e al, THEN conjunct1] unfolding i Let_def .
qed

text \<open>
  The frequency cap holds under every interleaving, confirmations included: the
  payments committed inside the rate window plus those in flight never outnumber
  MaxPaymentsPerWindow.
\<close>

theorem rate_cap_holds_under_interleaving:
  assumes "rate_enforceable m" and "a (m_mandate_id m) = None"
    and "allowed acct_step (acct_ok m) (a, t) ops"
  shows "rate_use (account_of (fst (run acct_step (a, t) ops)) (m_mandate_id m))
           (snd (run acct_step (a, t) ops)) (rate_window m) \<le> rate_limit m"
proof -
  have "account_of a (m_mandate_id m) = new_account" using assms(2) by (simp add: account_of_def)
  then have "rate_inv m (a, t)"
    using assms(1)
    by (auto simp: rate_inv_def rate_enforceable_def limit_set_def rate_limit_def rate_use_def
        committed_count_def new_account_def account_wf_def split: option.splits)
  then have "rate_inv m (run acct_step (a, t) ops)" using assms(3) by (rule rate.run_inv)
  then show ?thesis by (simp add: rate_inv_def)
qed

theorem rate_cap_holds_witness:
  "let ops = [OpReserve sample_mandate 1 60 1000 False, OpReserve sample_mandate 2 60 1001 True,
              OpCommit sample_mandate 1 1002, OpReserve sample_mandate 3 1 1003 True] in
   rate_use (account_of (fst (run acct_step (Map.empty, 0) ops)) 7)
     (snd (run acct_step (Map.empty, 0) ops)) (rate_window sample_mandate) \<le> 2"
proof -
  let ?ops = "[OpReserve sample_mandate 1 60 1000 False, OpReserve sample_mandate 2 60 1001 True,
              OpCommit sample_mandate 1 1002, OpReserve sample_mandate 3 1 1003 True]"
  have en: "rate_enforceable sample_mandate"
    by (simp add: rate_enforceable_def sample_mandate_def limit_set_def rate_window_def rate_limit_def)
  have al: "allowed acct_step (acct_ok sample_mandate) (Map.empty, 0) ?ops"
    by (simp add: acct_step_def)
  show ?thesis
    using rate_cap_holds_under_interleaving [OF en _ al]
    by (simp add: sample_mandate_def rate_limit_def Let_def)
qed

text \<open>
  A budget window of ten billion seconds (about 317 years, a natural way to write
  "for ever") overflows the int64 duration to a negative one, so the cutoff lies in the
  future and no committed spend is ever counted: the cumulative budget is not enforced.
\<close>

theorem huge_window_counts_nothing:
  assumes "\<forall>s\<in>set (ma_spends acc). sp_at s \<le> now"
  shows "committed_amount acc now (window_dur (Some 10000000000)) = 0"
proof -
  have "window_dur (Some 10000000000) = - 8446744073709551616"
    by (simp add: window_dur_def ns_per_second_def i64_mod)
  then have "cutoff now (window_dur (Some 10000000000)) = now + 8446744073709551616"
    by (simp add: cutoff_def i64_id)
  with assms have "filter (in_window now (window_dur (Some 10000000000))) (ma_spends acc) = []"
    by (auto simp: in_window_def filter_empty_conv)
  then show ?thesis by (simp add: committed_amount_def)
qed

theorem huge_window_witness:
  "committed_amount \<lparr>ma_spends = [\<lparr>sp_at = 5, sp_amount = 100\<rparr>], ma_reserved = []\<rparr> 6
     (window_dur (Some 10000000000)) = 0"
  by (rule huge_window_counts_nothing) simp

text \<open>
  Accounts are keyed by the mandate id alone, while revocations are keyed by delegator
  and id: a mandate another delegator signs with the same id draws on the same account. One
  payment of 100 under such a mandate exhausts the first delegator's budget of 100.
\<close>

theorem accounts_shared_across_delegators:
  "\<exists>other. m_delegator other \<noteq> m_delegator sample_mandate \<and>
     fst (reserve Map.empty sample_mandate 2 1 1000 False) = NoCode \<and>
     fst (reserve Map.empty other 1 100 1000 False) = NoCode \<and>
     fst (reserve (snd (reserve Map.empty other 1 100 1000 False)) sample_mandate 2 1 1000 False)
       = ErrCodeMandateBudget"
proof -
  let ?other = "sample_mandate\<lparr>m_delegator := 99, m_agent := 98\<rparr>"
  have "m_delegator ?other \<noteq> m_delegator sample_mandate" by (simp add: sample_mandate_def)
  moreover have "fst (reserve Map.empty sample_mandate 2 1 1000 False) = NoCode"
    and "fst (reserve Map.empty ?other 1 100 1000 False) = NoCode"
    by (simp_all add: reserve_def sample_mandate_def account_of_def new_account_def limit_set_def
        exceeds_def committed_amount_def committed_count_def reserved_amount_def i64_id)
  moreover have "fst (reserve (snd (reserve Map.empty ?other 1 100 1000 False)) sample_mandate 2 1 1000 False)
      = ErrCodeMandateBudget"
    by (simp add: reserve_def sample_mandate_def account_of_def new_account_def limit_set_def
        exceeds_def committed_amount_def committed_count_def reserved_amount_def i64_id)
  ultimately show ?thesis by blast
qed

end
