(* ===== verification/Policy.thy ===== *)
theory Policy
  imports Accounts
begin

text \<open>
  The accept policies: \<open>x402/policy.go\<close> (AlwaysVerify, Chain), \<open>x402/policy_identity.go\<close>,
  \<open>x402/policy_eligibility.go\<close>, \<open>x402/policy_table.go\<close>, \<open>x402/policy_mandate.go\<close>, the
  confirmation history of \<open>x402/history.go\<close>, and the agent's mirror image in
  \<open>x402/grant.go\<close> and \<open>x402/grant_table.go\<close>.

  A MandatePolicy holds pointers to its accounts, revocations and history; all three are
  made by its constructor, so the model keeps one store of such triples and a policy value
  holds a reference into it (\<open>None\<close> for a scope-only policy with nil pointers). Deciding
  and settling take the store and return it. A registry is the function its lookup answers
  with at that moment, \<open>Inl\<close> its error. One handler call reads the clock once.
  The validation errors of a table keep their text without the rule's index and value.
\<close>

section \<open>history.go\<close>

type_synonym history = "address \<rightharpoonup> delegator_history"

definition no_history :: delegator_history where
  "no_history = \<lparr>dh_asks = 0, dh_confirmations = 0, dh_failures = 0, dh_last_asked_at = 0\<rparr>"

definition counters :: "history \<Rightarrow> address \<Rightarrow> delegator_history" where
  "counters h d = (case h d of None \<Rightarrow> no_history | Some c \<Rightarrow> c)"

definition record_ask :: "history \<Rightarrow> address \<Rightarrow> int \<Rightarrow> history" where
  "record_ask h d now =
     (let c = counters h d in
      h(d \<mapsto> c\<lparr>dh_asks := dh_asks c + 1, dh_last_asked_at := unix_of now\<rparr>))"

definition record_confirmation :: "history \<Rightarrow> address \<Rightarrow> history" where
  "record_confirmation h d =
     (let c = counters h d in h(d \<mapsto> c\<lparr>dh_confirmations := dh_confirmations c + 1\<rparr>))"

definition record_failure :: "history \<Rightarrow> address \<Rightarrow> history" where
  "record_failure h d =
     (let c = counters h d in h(d \<mapsto> c\<lparr>dh_failures := dh_failures c + 1\<rparr>))"

definition history_snapshot :: "history \<Rightarrow> address \<Rightarrow> delegator_history" where
  "history_snapshot h d = (case h d of None \<Rightarrow> no_history | Some c \<Rightarrow> c)"

section \<open>policy_table.go: decision tables\<close>

record compiled_rule =
  cr_amount_min :: "int option"
  cr_amount_max :: "int option"
  cr_stage_at_least :: "stage option"
  cr_risk_max :: "real option"
  cr_asks_max :: "int option"
  cr_then :: string

record decision_table =
  dt_rules :: "compiled_rule list"
  dt_def :: string

record rule_factors =
  rf_amount :: int
  rf_stage :: stage
  rf_risk :: real
  rf_asks :: int

definition rule_matches :: "compiled_rule \<Rightarrow> rule_factors \<Rightarrow> bool" where
  "rule_matches r f =
     (if (case cr_amount_min r of None \<Rightarrow> False | Some x \<Rightarrow> rf_amount f < x) then False
      else if (case cr_amount_max r of None \<Rightarrow> False | Some x \<Rightarrow> x < rf_amount f) then False
      else if (case cr_stage_at_least r of None \<Rightarrow> False | Some x \<Rightarrow> rf_stage f < x) then False
      else if (case cr_risk_max r of None \<Rightarrow> False | Some x \<Rightarrow> x < rf_risk f) then False
      else if (case cr_asks_max r of None \<Rightarrow> False | Some x \<Rightarrow> x < rf_asks f) then False
      else True)"

fun match_rules :: "compiled_rule list \<Rightarrow> string \<Rightarrow> rule_factors \<Rightarrow> string" where
  "match_rules [] dflt f = dflt"
| "match_rules (r # rs) dflt f = (if rule_matches r f then cr_then r else match_rules rs dflt f)"

definition table_match :: "decision_table \<Rightarrow> rule_factors \<Rightarrow> string" where
  "table_match t f = match_rules (dt_rules t) (dt_def t) f"

text \<open>The struct the JSON file decodes into, before validation.\<close>

record raw_rule =
  rr_amount_min :: "string option"
  rr_amount_max :: "string option"
  rr_stage_at_least :: "string option"
  rr_risk_max :: "real option"
  rr_asks_max :: "int option"
  rr_then :: string

record raw_table =
  rt_default :: string
  rt_rules :: "raw_rule list"

definition parse_non_neg_big :: "string option \<Rightarrow> int option result" where
  "parse_non_neg_big s =
     (case s of
        None \<Rightarrow> Inr None
      | Some t \<Rightarrow> (case set_string10 t of
          None \<Rightarrow> Inl ''not an integer''
        | Some v \<Rightarrow> if v < 0 then Inl ''negative'' else Inr (Some v)))"

definition parse_stage :: "string \<Rightarrow> stage result" where
  "parse_stage s =
     (if s = ''submitted'' then Inr StageSubmitted
      else if s = ''confirmed'' then Inr StageConfirmed
      else Inl ''unknown stage'')"

definition compile_rule :: "string list \<Rightarrow> raw_rule \<Rightarrow> compiled_rule result" where
  "compile_rule valid r =
     (if rr_then r \<notin> set valid then Inl ''x402: rule outcome is not a valid outcome''
      else case parse_non_neg_big (rr_amount_min r) of
        Inl e \<Rightarrow> Inl (''x402: rule amountMin: '' @ e)
      | Inr amin \<Rightarrow> (case parse_non_neg_big (rr_amount_max r) of
        Inl e \<Rightarrow> Inl (''x402: rule amountMax: '' @ e)
      | Inr amax \<Rightarrow> (case (case rr_stage_at_least r of None \<Rightarrow> Inr None
                        | Some s \<Rightarrow> map_sum id Some (parse_stage s)) of
        Inl e \<Rightarrow> Inl (''x402: rule stageAtLeast: '' @ e)
      | Inr st \<Rightarrow>
          if (case rr_risk_max r of None \<Rightarrow> False | Some x \<Rightarrow> x < 0)
          then Inl ''x402: rule riskMax is negative''
          else if (case rr_asks_max r of None \<Rightarrow> False | Some x \<Rightarrow> x < 0)
          then Inl ''x402: rule asksMax is negative''
          else Inr \<lparr>cr_amount_min = amin, cr_amount_max = amax, cr_stage_at_least = st,
                    cr_risk_max = rr_risk_max r, cr_asks_max = rr_asks_max r,
                    cr_then = rr_then r\<rparr>)))"

fun compile_rules :: "string list \<Rightarrow> raw_rule list \<Rightarrow> compiled_rule list result" where
  "compile_rules valid [] = Inr []"
| "compile_rules valid (r # rs) =
     (case compile_rule valid r of
        Inl e \<Rightarrow> Inl e
      | Inr c \<Rightarrow> (case compile_rules valid rs of Inl e \<Rightarrow> Inl e | Inr cs \<Rightarrow> Inr (c # cs)))"

text \<open>\<open>loadTable\<close> after the JSON decoding, whose failure is its \<open>None\<close> argument.\<close>

definition load_table :: "string list \<Rightarrow> raw_table option \<Rightarrow> decision_table result" where
  "load_table valid raw =
     (case raw of
        None \<Rightarrow> Inl ''x402: decode decision table''
      | Some t \<Rightarrow>
          if rt_default t \<notin> set valid then Inl ''x402: table default is not a valid outcome''
          else if rt_rules t = [] then Inl ''x402: table has no rules''
          else (case compile_rules valid (rt_rules t) of
                  Inl e \<Rightarrow> Inl e
                | Inr cs \<Rightarrow> Inr \<lparr>dt_rules = cs, dt_def = rt_default t\<rparr>))"

definition accept_outcomes :: "string list" where
  "accept_outcomes = [''approve'', ''reject'', ''defer'', ''ask'', ''require-bond'']"

definition load_table_policy :: "raw_table option \<Rightarrow> decision_table result" where
  "load_table_policy raw = load_table accept_outcomes raw"

definition accept_decision :: "string \<Rightarrow> decision" where
  "accept_decision outcome =
     (if outcome = ''approve'' then approve
      else if outcome = ''defer'' then
        \<lparr>d_action = ActionDefer, d_code = ErrCodePaymentDeferred, d_reason = ''deferred by policy table''\<rparr>
      else if outcome = ''ask'' then
        \<lparr>d_action = ActionAsk, d_code = ErrCodeConfirmationRequired,
         d_reason = ''confirmation required by policy table''\<rparr>
      else if outcome = ''require-bond'' then
        \<lparr>d_action = ActionRequireBond, d_code = ErrCodeBondRequired, d_reason = ''bond required by policy table''\<rparr>
      else
        \<lparr>d_action = ActionReject, d_code = ErrCodePolicyRejected, d_reason = ''rejected by policy table''\<rparr>)"

definition table_decide :: "decision_table \<Rightarrow> payment_context \<Rightarrow> decision" where
  "table_decide t pc =
     (let amount = (case payment_amount pc of
                      Some a \<Rightarrow> a
                    | None \<Rightarrow> (case set_string10 (pr_max_amount_required (pc_requirements pc)) of
                                 Some a \<Rightarrow> a | None \<Rightarrow> 0));
          asks = (case pc_history pc of None \<Rightarrow> 0 | Some h \<Rightarrow> dh_asks h) in
      accept_decision (table_match t
        \<lparr>rf_amount = amount, rf_stage = pc_stage pc, rf_risk = pc_risk_score pc, rf_asks = asks\<rparr>))"

section \<open>policy_identity.go, policy_eligibility.go\<close>

type_synonym registry = "address \<Rightarrow> bool result"

definition reject :: "errcode \<Rightarrow> string \<Rightarrow> decision" where
  "reject code reason = \<lparr>d_action = ActionReject, d_code = code, d_reason = reason\<rparr>"

definition identity_decide :: "geth \<Rightarrow> registry \<Rightarrow> payment_context \<Rightarrow> decision" where
  "identity_decide G reg pc =
     (case pc_verification pc of
        None \<Rightarrow> reject ErrCodeIdentityUnregistered ''cannot identify the payer to check registration''
      | Some v \<Rightarrow>
          if vr_payer v = '''' then
            reject ErrCodeIdentityUnregistered ''cannot identify the payer to check registration''
          else (case reg (hex_to_address G (vr_payer v)) of
                  Inl e \<Rightarrow> reject ErrCodeIdentityCheckFailed ''identity registry lookup failed''
                | Inr registered \<Rightarrow>
                    if \<not> registered then
                      reject ErrCodeIdentityUnregistered ''payer is not a registered agent''
                    else approve))"

definition eligibility_decide :: "geth \<Rightarrow> registry \<Rightarrow> payment_context \<Rightarrow> decision" where
  "eligibility_decide G reg pc =
     (case pc_verification pc of
        None \<Rightarrow> reject ErrCodeNotEligible ''cannot identify the payer to check eligibility''
      | Some v \<Rightarrow>
          if vr_payer v = '''' then
            reject ErrCodeNotEligible ''cannot identify the payer to check eligibility''
          else (case reg (hex_to_address G (vr_payer v)) of
                  Inl e \<Rightarrow> reject ErrCodeEligibilityCheckFailed ''eligibility registry lookup failed''
                | Inr eligible \<Rightarrow>
                    if \<not> eligible then
                      reject ErrCodeNotEligible ''payer is not eligible to receive the asset''
                    else approve))"

section \<open>policy.go: AlwaysVerify\<close>

definition always_verify_decide :: "payment_context \<Rightarrow> decision" where
  "always_verify_decide pc =
     (case pc_verification pc of
        Some v \<Rightarrow> if vr_is_valid v then approve
                  else reject ErrCodeVerificationFailed (vr_invalid_reason v)
      | None \<Rightarrow> reject ErrCodeVerificationFailed '''')"

section \<open>policy_mandate.go\<close>

record mp_state =
  mps_accounts :: accounts
  mps_revocations :: revocations
  mps_history :: history

type_synonym policy_store = "nat \<Rightarrow> mp_state"

record mandate_policy =
  mp_chain_id :: "int option"
  mp_ask_on_exceed :: bool
  mp_defer_above :: "int option"
  mp_ref :: "nat option"

definition new_mp_state :: mp_state where
  "new_mp_state = \<lparr>mps_accounts = Map.empty, mps_revocations = {}, mps_history = Map.empty\<rparr>"

text \<open>\<open>NewMandatePolicy\<close> makes fresh state behind the given reference.\<close>

definition new_mandate_policy ::
    "int option \<Rightarrow> nat \<Rightarrow> policy_store \<Rightarrow> mandate_policy \<times> policy_store" where
  "new_mandate_policy chain_id r st =
     (\<lparr>mp_chain_id = chain_id, mp_ask_on_exceed = False, mp_defer_above = None, mp_ref = Some r\<rparr>,
      st(r := new_mp_state))"

definition upd_accounts :: "nat \<Rightarrow> accounts \<Rightarrow> policy_store \<Rightarrow> policy_store" where
  "upd_accounts r a st = st(r := (st r)\<lparr>mps_accounts := a\<rparr>)"

definition upd_history :: "nat option \<Rightarrow> (history \<Rightarrow> history) \<Rightarrow> policy_store \<Rightarrow> policy_store" where
  "upd_history ro f st =
     (case ro of None \<Rightarrow> st | Some r \<Rightarrow> st(r := (st r)\<lparr>mps_history := f (mps_history (st r))\<rparr>))"

definition mp_delegator_history :: "mandate_policy \<Rightarrow> policy_store \<Rightarrow> address \<Rightarrow> delegator_history" where
  "mp_delegator_history p st d =
     (case mp_ref p of None \<Rightarrow> no_history | Some r \<Rightarrow> history_snapshot (mps_history (st r)) d)"

definition mp_revoke :: "mandate_policy \<Rightarrow> address \<Rightarrow> bytes32 \<Rightarrow> policy_store \<Rightarrow> policy_store" where
  "mp_revoke p d i st =
     (case mp_ref p of
        None \<Rightarrow> st
      | Some r \<Rightarrow> st(r := (st r)\<lparr>mps_revocations := revocations_add (mps_revocations (st r)) d i\<rparr>))"

definition mp_restore_spend ::
    "mandate_policy \<Rightarrow> bytes32 \<Rightarrow> int \<Rightarrow> int \<Rightarrow> policy_store \<Rightarrow> policy_store" where
  "mp_restore_spend p i t amount st =
     (case mp_ref p of
        None \<Rightarrow> st
      | Some r \<Rightarrow> upd_accounts r (restore (mps_accounts (st r)) i t amount) st)"

definition mp_restore_revocation ::
    "mandate_policy \<Rightarrow> address \<Rightarrow> bytes32 \<Rightarrow> policy_store \<Rightarrow> policy_store" where
  "mp_restore_revocation p d i st = mp_revoke p d i st"

definition confirmation_approves ::
    "geth \<Rightarrow> int \<Rightarrow> mandate_policy \<Rightarrow> payment_context \<Rightarrow> mandate \<Rightarrow> int \<Rightarrow> bool" where
  "confirmation_approves G now p pc m amount =
     (case pp_confirmation (pc_payload pc) of
        None \<Rightarrow> False
      | Some cj \<Rightarrow> (case to_confirmation G cj of
        Inl e \<Rightarrow> False
      | Inr c \<Rightarrow> (case verify_confirmation G c (from_hex G (cj_signature cj)) (mp_chain_id p) of
        Inl e \<Rightarrow> False
      | Inr signer \<Rightarrow>
          if signer \<noteq> m_delegator m then False
          else if c_mandate_id c \<noteq> m_mandate_id m then False
          else (case payment_nonce G pc of
            None \<Rightarrow> False
          | Some nonce \<Rightarrow>
              if c_authorization_nonce c \<noteq> nonce then False
              else if c_amount c \<noteq> Some amount then False
              else if c_resource c \<noteq> pr_resource (pc_requirements pc) then False
              else (case c_valid_before c of
                      None \<Rightarrow> False
                    | Some vb \<Rightarrow> \<not> unix_of now \<ge> i64 vb)))))"

definition over_limit ::
    "int \<Rightarrow> mandate_policy \<Rightarrow> address \<Rightarrow> bool \<Rightarrow> errcode \<Rightarrow> string \<Rightarrow> policy_store \<Rightarrow> decision \<times> policy_store" where
  "over_limit now p delegator attached code reason st =
     (if mp_ask_on_exceed p then
        (\<lparr>d_action = ActionAsk, d_code = ErrCodeConfirmationRequired,
          d_reason = reason @ ''; confirm with the delegator''\<rparr>,
         upd_history (mp_ref p)
           (\<lambda>h. if attached then record_failure h delegator else record_ask h delegator now) st)
      else (reject code reason, st))"

text \<open>
  Decide, in the code's order: the mandate and its signature, the entitlement checks that
  a confirmation never rescues, then the limits, then deferral.
\<close>

definition mandate_of ::
    "geth \<Rightarrow> mandate_policy \<Rightarrow> payment_context \<Rightarrow> decision + mandate" where
  "mandate_of G p pc =
     (case pp_mandate (pc_payload pc) of
        None \<Rightarrow> Inl (reject ErrCodeMandateMissing ''a signed mandate is required'')
      | Some sm \<Rightarrow> (case to_mandate G (smj_mandate sm) of
        Inl e \<Rightarrow> Inl (reject ErrCodeMandateInvalid ''malformed mandate'')
      | Inr m \<Rightarrow> (case verify_mandate G m (from_hex G (smj_signature sm)) (mp_chain_id p) of
        Inl e \<Rightarrow> Inl (reject ErrCodeMandateInvalid ''mandate signature does not verify'')
      | Inr _ \<Rightarrow> Inr m)))"

definition entitlement_failure ::
    "geth \<Rightarrow> int \<Rightarrow> mandate_policy \<Rightarrow> payment_context \<Rightarrow> mandate \<Rightarrow> policy_store \<Rightarrow> decision option" where
  "entitlement_failure G now p pc m st =
     (case pc_verification pc of
        None \<Rightarrow> Some (reject ErrCodeMandateInvalid ''cannot bind the payer to the mandate'')
      | Some v \<Rightarrow>
          if vr_payer v = '''' then
            Some (reject ErrCodeMandateInvalid ''cannot bind the payer to the mandate'')
          else if hex_to_address G (vr_payer v) \<noteq> m_agent m then
            Some (reject ErrCodeMandateInvalid ''payer is not the mandated agent'')
          else if (case m_valid_after m of None \<Rightarrow> False | Some va \<Rightarrow> unix_of now < va) then
            Some (reject ErrCodeMandateExpired ''mandate is not yet valid'')
          else if (case m_valid_before m of None \<Rightarrow> False | Some vb \<Rightarrow> unix_of now \<ge> vb) then
            Some (reject ErrCodeMandateExpired ''mandate has expired'')
          else if (case mp_ref p of None \<Rightarrow> False
                   | Some r \<Rightarrow> revocations_has (mps_revocations (st r)) (m_delegator m) (m_mandate_id m)) then
            Some (reject ErrCodeMandateRevoked ''mandate has been revoked'')
          else if m_allowed_payees m \<noteq> [] \<and>
                  \<not> contains_address (m_allowed_payees m) (hex_to_address G (pr_pay_to (pc_requirements pc))) then
            Some (reject ErrCodeMandateExceeded ''payee is not allowed by the mandate'')
          else if m_allowed_resources m \<noteq> [] \<and>
                  \<not> prefix_allowed (m_allowed_resources m) (pr_resource (pc_requirements pc)) then
            Some (reject ErrCodeMandateExceeded ''resource is not allowed by the mandate'')
          else None)"

definition defer_or_approve :: "mandate_policy \<Rightarrow> payment_context \<Rightarrow> int \<Rightarrow> decision" where
  "defer_or_approve p pc amount =
     (if (case mp_defer_above p of None \<Rightarrow> False | Some d \<Rightarrow> 0 < d \<and> d \<le> amount)
         \<and> pc_stage pc < StageConfirmed
      then \<lparr>d_action = ActionDefer, d_code = ErrCodePaymentDeferred,
            d_reason = ''large payment delivered after settlement confirmations''\<rparr>
      else approve)"

definition account_payment ::
    "geth \<Rightarrow> int \<Rightarrow> mandate_policy \<Rightarrow> payment_context \<Rightarrow> mandate \<Rightarrow> int \<Rightarrow> bool \<Rightarrow> bool \<Rightarrow>
     policy_store \<Rightarrow> decision \<times> policy_store" where
  "account_payment G now p pc m amount confirmed attached st =
     (case mp_ref p of
        None \<Rightarrow> (defer_or_approve p pc amount, st)
      | Some r \<Rightarrow>
          if pc_stage pc \<noteq> StagePreSettlement then (defer_or_approve p pc amount, st)
          else (case payment_nonce G pc of
            None \<Rightarrow> (reject ErrCodeMandateInvalid ''payment nonce is unreadable'', st)
          | Some nonce \<Rightarrow>
              (let (code, a) = reserve (mps_accounts (st r)) m nonce amount now confirmed;
                   st' = upd_accounts r a st in
               if code = ErrCodeMandateBudget then
                 over_limit now p (m_delegator m) attached ErrCodeMandateBudget
                   ''payment exceeds the mandate's cumulative budget'' st'
               else if code = ErrCodeMandateRate then
                 (reject ErrCodeMandateRate ''payment exceeds the mandate's rate limit'', st')
               else (defer_or_approve p pc amount, st'))))"

definition mandate_limits ::
    "geth \<Rightarrow> int \<Rightarrow> mandate_policy \<Rightarrow> payment_context \<Rightarrow> mandate \<Rightarrow> policy_store \<Rightarrow> decision \<times> policy_store" where
  "mandate_limits G now p pc m st =
     (case payment_amount pc of
        None \<Rightarrow> (reject ErrCodeMandateInvalid ''payment amount is unreadable'', st)
      | Some amount \<Rightarrow>
         (let confirmed = confirmation_approves G now p pc m amount;
              attached = (pp_confirmation (pc_payload pc) \<noteq> None) in
          if exceeds amount (m_max_amount_per_payment m) then
            (if \<not> confirmed then
               over_limit now p (m_delegator m) attached ErrCodeMandateExceeded
                 ''amount exceeds the per-payment limit'' st
             else account_payment G now p pc m amount confirmed attached
                    (upd_history (mp_ref p) (\<lambda>h. record_confirmation h (m_delegator m)) st))
          else account_payment G now p pc m amount confirmed attached st))"

definition mandate_decide ::
    "geth \<Rightarrow> int \<Rightarrow> mandate_policy \<Rightarrow> payment_context \<Rightarrow> policy_store \<Rightarrow> decision \<times> policy_store" where
  "mandate_decide G now p pc st =
     (case mandate_of G p pc of
        Inl d \<Rightarrow> (d, st)
      | Inr m \<Rightarrow> (case entitlement_failure G now p pc m st of
                    Some d \<Rightarrow> (d, st)
                  | None \<Rightarrow> mandate_limits G now p pc m st))"

definition mandate_settled ::
    "geth \<Rightarrow> int \<Rightarrow> mandate_policy \<Rightarrow> payment_context \<Rightarrow> bool \<Rightarrow> policy_store \<Rightarrow> policy_store" where
  "mandate_settled G now p pc success st =
     (case (mp_ref p, pp_mandate (pc_payload pc)) of
        (Some r, Some sm) \<Rightarrow> (case to_mandate G (smj_mandate sm) of
          Inl e \<Rightarrow> st
        | Inr m \<Rightarrow> (case payment_nonce G pc of
            None \<Rightarrow> st
          | Some nonce \<Rightarrow>
              if success then upd_accounts r (commit_spend (mps_accounts (st r)) m nonce now) st
              else upd_accounts r (release (mps_accounts (st r)) m nonce) st))
      | _ \<Rightarrow> st)"

section \<open>policy.go: Policy and Chain\<close>

datatype policy =
    AlwaysVerify
  | IdentityPolicy registry
  | EligibilityPolicy registry
  | MandatePolicy mandate_policy
  | TablePolicy decision_table
  | Chain "policy list"

fun decide :: "geth \<Rightarrow> int \<Rightarrow> policy \<Rightarrow> payment_context \<Rightarrow> policy_store \<Rightarrow> decision \<times> policy_store"
and decide_chain ::
    "geth \<Rightarrow> int \<Rightarrow> policy list \<Rightarrow> payment_context \<Rightarrow> policy_store \<Rightarrow> decision \<times> policy_store" where
  "decide G now AlwaysVerify pc st = (always_verify_decide pc, st)"
| "decide G now (IdentityPolicy reg) pc st = (identity_decide G reg pc, st)"
| "decide G now (EligibilityPolicy reg) pc st = (eligibility_decide G reg pc, st)"
| "decide G now (MandatePolicy p) pc st = mandate_decide G now p pc st"
| "decide G now (TablePolicy t) pc st = (table_decide t pc, st)"
| "decide G now (Chain ps) pc st = decide_chain G now ps pc st"
| "decide_chain G now [] pc st = (approve, st)"
| "decide_chain G now (p # ps) pc st =
     (let (d, st') = decide G now p pc st in
      if d_action d \<noteq> ActionApprove then (d, st') else decide_chain G now ps pc st')"

section \<open>grant.go, grant_table.go: the agent's side\<close>

datatype grant_action = GrantRefuse | GrantPay | GrantAsk

record grant_decision =
  gd_action :: grant_action
  gd_reason :: string

record payment_terms_context =
  ptc_requirements :: payment_requirements
  ptc_amount :: "int option"
  ptc_remaining_budget :: "int option"
  ptc_asks :: int

datatype grant_policy = MaxAmountGrant "int option" | TableGrant decision_table

definition grant_outcomes :: "string list" where
  "grant_outcomes = [''pay'', ''ask'', ''refuse'']"

definition load_table_grant :: "raw_table option \<Rightarrow> decision_table result" where
  "load_table_grant raw = load_table grant_outcomes raw"

fun grant_decide :: "grant_policy \<Rightarrow> payment_terms_context \<Rightarrow> grant_decision" where
  "grant_decide (MaxAmountGrant mx) ctx =
     (case (mx, ptc_amount ctx) of
        (Some g, Some a) \<Rightarrow>
          if g < a then \<lparr>gd_action = GrantRefuse, gd_reason = ''amount '' @ big_show a @ '' exceeds delegated limit '' @ big_show g\<rparr>
          else \<lparr>gd_action = GrantPay, gd_reason = ''''\<rparr>
      | _ \<Rightarrow> \<lparr>gd_action = GrantPay, gd_reason = ''''\<rparr>)"
| "grant_decide (TableGrant t) ctx =
     (let amount = (case ptc_amount ctx of None \<Rightarrow> 0 | Some a \<Rightarrow> a);
          o' = table_match t \<lparr>rf_amount = amount, rf_stage = StagePreSettlement, rf_risk = 0,
                             rf_asks = ptc_asks ctx\<rparr> in
      if o' = ''pay'' then \<lparr>gd_action = GrantPay, gd_reason = ''''\<rparr>
      else if o' = ''ask'' then
        \<lparr>gd_action = GrantAsk, gd_reason = ''grant table asks for confirmation''\<rparr>
      else \<lparr>gd_action = GrantRefuse, gd_reason = ''grant table refuses''\<rparr>)"

section \<open>What an approval of the mandate policy promises\<close>

text \<open>
  The entitlement a delegator's signature gives: read off the mandate's documentation, not
  off the order of the checks.
\<close>

definition within_validity :: "mandate \<Rightarrow> int \<Rightarrow> bool" where
  "within_validity m now \<longleftrightarrow>
     (\<forall>va. m_valid_after m = Some va \<longrightarrow> va \<le> unix_of now) \<and>
     (\<forall>vb. m_valid_before m = Some vb \<longrightarrow> unix_of now < vb)"

definition scope_allows :: "geth \<Rightarrow> mandate \<Rightarrow> payment_context \<Rightarrow> bool" where
  "scope_allows G m pc \<longleftrightarrow>
     (m_allowed_payees m = [] \<or> hex_to_address G (pr_pay_to (pc_requirements pc)) \<in> set (m_allowed_payees m)) \<and>
     (m_allowed_resources m = [] \<or>
        (\<exists>p\<in>set (m_allowed_resources m). has_prefix (pr_resource (pc_requirements pc)) p))"

definition revoked_in :: "mandate_policy \<Rightarrow> policy_store \<Rightarrow> mandate \<Rightarrow> bool" where
  "revoked_in p st m \<longleftrightarrow>
     (case mp_ref p of None \<Rightarrow> False
      | Some r \<Rightarrow> revocations_has (mps_revocations (st r)) (m_delegator m) (m_mandate_id m))"

definition signed_mandate_in :: "geth \<Rightarrow> mandate_policy \<Rightarrow> payment_context \<Rightarrow> mandate \<Rightarrow> bool" where
  "signed_mandate_in G p pc m \<longleftrightarrow>
     (case pp_mandate (pc_payload pc) of
        None \<Rightarrow> False
      | Some sm \<Rightarrow> to_mandate G (smj_mandate sm) = Inr m \<and>
          verify_mandate G m (from_hex G (smj_signature sm)) (mp_chain_id p) = Inr (m_delegator m))"

definition paid_by_agent :: "geth \<Rightarrow> payment_context \<Rightarrow> mandate \<Rightarrow> bool" where
  "paid_by_agent G pc m \<longleftrightarrow>
     (case pc_verification pc of None \<Rightarrow> False
      | Some v \<Rightarrow> vr_payer v \<noteq> '''' \<and> hex_to_address G (vr_payer v) = m_agent m)"

definition entitled ::
    "geth \<Rightarrow> int \<Rightarrow> mandate_policy \<Rightarrow> payment_context \<Rightarrow> policy_store \<Rightarrow> mandate \<Rightarrow> bool" where
  "entitled G now p pc st m \<longleftrightarrow>
     signed_mandate_in G p pc m \<and> paid_by_agent G pc m \<and> within_validity m now \<and>
     \<not> revoked_in p st m \<and> scope_allows G m pc"

text \<open>The delegator's one-payment exception.\<close>

definition confirmed_by_delegator ::
    "geth \<Rightarrow> int \<Rightarrow> mandate_policy \<Rightarrow> payment_context \<Rightarrow> mandate \<Rightarrow> int \<Rightarrow> bool" where
  "confirmed_by_delegator G now p pc m amount \<longleftrightarrow>
     (\<exists>cj c vb. pp_confirmation (pc_payload pc) = Some cj \<and> to_confirmation G cj = Inr c \<and>
        verify_confirmation G c (from_hex G (cj_signature cj)) (mp_chain_id p) = Inr (m_delegator m) \<and>
        c_mandate_id c = m_mandate_id m \<and> payment_nonce G pc = Some (c_authorization_nonce c) \<and>
        c_amount c = Some amount \<and> c_resource c = pr_resource (pc_requirements pc) \<and>
        c_valid_before c = Some vb \<and> unix_of now < i64 vb)"

lemma confirmation_approves_iff:
  "confirmation_approves G now p pc m amount \<longleftrightarrow> confirmed_by_delegator G now p pc m amount"
  by (auto simp: confirmation_approves_def confirmed_by_delegator_def not_le split: option.splits sum.splits)

lemma mandate_of_Inr:
  "mandate_of G p pc = Inr m \<longleftrightarrow> signed_mandate_in G p pc m"
  by (auto simp: mandate_of_def signed_mandate_in_def dest: verify_mandate_delegator
      split: option.splits sum.splits)

lemma mandate_of_Inl: "mandate_of G p pc = Inl d \<Longrightarrow> d_action d = ActionReject"
  by (auto simp: mandate_of_def reject_def split: option.splits sum.splits)

lemma entitlement_None_iff:
  "entitlement_failure G now p pc m st = None \<longleftrightarrow>
     paid_by_agent G pc m \<and> within_validity m now \<and> \<not> revoked_in p st m \<and> scope_allows G m pc"
  unfolding entitlement_failure_def paid_by_agent_def within_validity_def revoked_in_def scope_allows_def
    prefix_allowed_iff contains_address_iff
  by (cases "pc_verification pc"; cases "m_valid_after m"; cases "m_valid_before m")
    (auto simp: not_le not_less)

lemma entitlement_Some_reject:
  "entitlement_failure G now p pc m st = Some d \<Longrightarrow> d_action d = ActionReject"
  by (auto simp: entitlement_failure_def reject_def split: option.splits if_splits)

text \<open>Decide, split once for every proof below: refused before the limits, or entitled.\<close>

lemma mandate_decide_cases:
  obtains (refused) "d_action (fst (mandate_decide G now p pc st)) = ActionReject"
      "snd (mandate_decide G now p pc st) = st" "\<nexists>m. entitled G now p pc st m"
  | (entitled) m where "entitled G now p pc st m"
      "mandate_decide G now p pc st = mandate_limits G now p pc m st"
proof (cases "mandate_of G p pc")
  case (Inl d)
  then have "\<nexists>m. entitled G now p pc st m" by (auto simp: entitled_def simp flip: mandate_of_Inr)
  with Inl show thesis by (intro refused) (auto simp: mandate_decide_def mandate_of_Inl)
next
  case (Inr m)
  show thesis
  proof (cases "entitlement_failure G now p pc m st")
    case None
    then have "entitled G now p pc st m"
      using Inr by (simp add: entitled_def entitlement_None_iff flip: mandate_of_Inr)
    moreover have "mandate_decide G now p pc st = mandate_limits G now p pc m st"
      using Inr None by (simp add: mandate_decide_def)
    ultimately show thesis by (rule entitled)
  next
    case (Some d)
    then have no: "\<not> (paid_by_agent G pc m \<and> within_validity m now \<and> \<not> revoked_in p st m \<and> scope_allows G m pc)"
      using entitlement_None_iff [of G now p pc m st] by simp
    have "\<nexists>m'. entitled G now p pc st m'"
      using no Inr unfolding entitled_def mandate_of_Inr [symmetric] by auto
    with Some Inr show thesis
      by (intro refused) (auto simp: mandate_decide_def entitlement_Some_reject)
  qed
qed

lemma defer_or_approve_action:
  "d_action (defer_or_approve p pc amount) \<in> {ActionApprove, ActionDefer}"
  by (simp add: defer_or_approve_def)

lemma over_limit_action:
  "d_action (fst (over_limit now p d att code reason st)) \<in> {ActionAsk, ActionReject}"
  by (simp add: over_limit_def reject_def)

lemma mandate_limits_pass:
  assumes "d_action (fst (mandate_limits G now p pc m st)) \<in> {ActionApprove, ActionDefer}"
  obtains amount where "payment_amount pc = Some amount"
    "exceeds amount (m_max_amount_per_payment m) \<Longrightarrow> confirmed_by_delegator G now p pc m amount"
proof (cases "payment_amount pc")
  case None
  with assms show thesis by (simp add: mandate_limits_def reject_def)
next
  case (Some amount)
  have "confirmed_by_delegator G now p pc m amount" if "exceeds amount (m_max_amount_per_payment m)"
  proof (rule ccontr)
    assume "\<not> confirmed_by_delegator G now p pc m amount"
    with Some that have "mandate_limits G now p pc m st =
        over_limit now p (m_delegator m) (pp_confirmation (pc_payload pc) \<noteq> None)
          ErrCodeMandateExceeded ''amount exceeds the per-payment limit'' st"
      by (simp add: mandate_limits_def confirmation_approves_iff Let_def)
    with assms over_limit_action [of now p "m_delegator m" "pp_confirmation (pc_payload pc) \<noteq> None"
        ErrCodeMandateExceeded "''amount exceeds the per-payment limit''" st]
    show False by auto
  qed
  then show thesis by (rule that [OF Some])
qed

lemma scope_and_cap_within_scope:
  "scope_allows G m pc \<Longrightarrow> \<not> exceeds amount (m_max_amount_per_payment m) \<Longrightarrow>
   within_scope m (hex_to_address G (pr_pay_to (pc_requirements pc))) (pr_resource (pc_requirements pc)) amount = None"
  by (auto simp: scope_allows_def within_scope_def prefix_allowed_iff)

text \<open>
  C1. The mandate policy approves or defers only what the delegator granted: the payload
  carries a mandate its delegator signed for this chain, the verified payer is its agent, now
  is inside its validity, it is not revoked, payee and resource are allowed; and the amount
  passes the auditor's WithinScope or the delegator confirmed this very payment (nonce,
  amount, resource, not expired).
\<close>

theorem mandate_approval_sound:
  assumes "d_action (fst (mandate_decide G now p pc st)) = ActionApprove
         \<or> d_action (fst (mandate_decide G now p pc st)) = ActionDefer"
  shows "\<exists>m amount. entitled G now p pc st m \<and> payment_amount pc = Some amount \<and>
    (within_scope m (hex_to_address G (pr_pay_to (pc_requirements pc)))
         (pr_resource (pc_requirements pc)) amount = None
     \<or> confirmed_by_delegator G now p pc m amount)"
proof (cases rule: mandate_decide_cases [of G now p pc st])
  case refused
  with assms show ?thesis by simp
next
  case (entitled m)
  with assms have "d_action (fst (mandate_limits G now p pc m st)) \<in> {ActionApprove, ActionDefer}" by auto
  then obtain amount where "payment_amount pc = Some amount"
    "exceeds amount (m_max_amount_per_payment m) \<Longrightarrow> confirmed_by_delegator G now p pc m amount"
    by (rule mandate_limits_pass) blast
  moreover have "scope_allows G m pc" using entitled(1) by (simp add: entitled_def)
  ultimately show ?thesis using entitled(1) scope_and_cap_within_scope by blast
qed

lemma account_payment_ask:
  "d_action (fst (account_payment G now p pc m amount conf att st)) = ActionAsk \<Longrightarrow> mp_ask_on_exceed p"
  by (auto simp: account_payment_def over_limit_def reject_def defer_or_approve_def Let_def
      split: option.splits if_splits prod.splits)

lemma mandate_limits_ask:
  "d_action (fst (mandate_limits G now p pc m st)) = ActionAsk \<Longrightarrow> mp_ask_on_exceed p"
  by (auto simp: mandate_limits_def over_limit_def reject_def Let_def
      split: option.splits if_splits dest: account_payment_ask)

text \<open>
  A confirmation is asked for only where one could help: the policy escalates only with
  AskOnExceed set and only for a payment whose mandate, payer, validity, revocation and scope
  checks all passed.
\<close>

theorem ask_only_when_entitled:
  assumes "d_action (fst (mandate_decide G now p pc st)) = ActionAsk"
  shows "mp_ask_on_exceed p \<and> (\<exists>m. entitled G now p pc st m)"
proof (cases rule: mandate_decide_cases [of G now p pc st])
  case refused
  with assms show ?thesis by simp
next
  case (entitled m)
  with assms mandate_limits_ask show ?thesis by fastforce
qed

lemma reserve_skip_codes: "fst (reserve a m n amount now True) \<in> {NoCode, ErrCodeMandateRate}"
  by (simp add: reserve_def Let_def)

lemma reserve_codes: "fst (reserve a m n amount now skip) \<in> {NoCode, ErrCodeMandateBudget, ErrCodeMandateRate}"
  by (simp add: reserve_def Let_def)

text \<open>An approval at the pre-settlement stage of a stateful policy holds a reservation.\<close>

definition reservation_of :: "mandate_policy \<Rightarrow> policy_store \<Rightarrow> mandate \<Rightarrow> bytes32 \<Rightarrow> mandate_spend option" where
  "reservation_of p st m nonce =
     (case mp_ref p of None \<Rightarrow> None
      | Some r \<Rightarrow> map_of (ma_reserved (account_of (mps_accounts (st r)) (m_mandate_id m))) nonce)"

lemma account_payment_reserves:
  assumes "d_action (fst (account_payment G now p pc m amount conf att st)) \<in> {ActionApprove, ActionDefer}"
    and "mp_ref p = Some r" and "pc_stage pc = StagePreSettlement"
  obtains nonce where "payment_nonce G pc = Some nonce"
    "fst (reserve (mps_accounts (st r)) m nonce amount now conf) = NoCode"
    "snd (account_payment G now p pc m amount conf att st)
      = upd_accounts r (snd (reserve (mps_accounts (st r)) m nonce amount now conf)) st"
proof (cases "payment_nonce G pc")
  case None
  with assms show thesis by (simp add: account_payment_def reject_def)
next
  case (Some nonce)
  note codes = reserve_codes [of "mps_accounts (st r)" m nonce amount now conf]
  have "fst (reserve (mps_accounts (st r)) m nonce amount now conf) = NoCode"
    using assms Some codes over_limit_action
    by (auto simp: account_payment_def reject_def over_limit_def Let_def split: prod.splits if_splits)
  with Some assms show thesis
    by (intro that [OF Some]) (auto simp: account_payment_def Let_def split: prod.splits)
qed

lemma reservation_after_approval:
  assumes "d_action (fst (mandate_decide G now p pc st)) = ActionApprove
         \<or> d_action (fst (mandate_decide G now p pc st)) = ActionDefer"
    and "mp_ref p = Some r" and "pc_stage pc = StagePreSettlement"
  shows "\<exists>m nonce amount. entitled G now p pc st m \<and> payment_nonce G pc = Some nonce \<and>
    payment_amount pc = Some amount \<and>
    reservation_of p (snd (mandate_decide G now p pc st)) m nonce = Some \<lparr>sp_at = now, sp_amount = amount\<rparr> \<and>
    (limit_set (m_budget_amount m) \<longrightarrow> confirmed_by_delegator G now p pc m amount \<or>
       window_use (account_of (mps_accounts (st r)) (m_mandate_id m)) now (budget_window m) + amount
         \<le> budget_of m)"
proof (cases rule: mandate_decide_cases [of G now p pc st])
  case refused
  with assms show ?thesis by simp
next
  case (entitled m)
  with assms have act: "d_action (fst (mandate_limits G now p pc m st)) \<in> {ActionApprove, ActionDefer}"
    by auto
  then obtain amount where amount: "payment_amount pc = Some amount"
    and cap: "exceeds amount (m_max_amount_per_payment m) \<Longrightarrow> confirmed_by_delegator G now p pc m amount"
    by (rule mandate_limits_pass) blast
  define conf where "conf = confirmed_by_delegator G now p pc m amount"
  define att where "att = (pp_confirmation (pc_payload pc) \<noteq> None)"
  define st1 where "st1 = (if exceeds amount (m_max_amount_per_payment m)
    then upd_history (mp_ref p) (\<lambda>h. record_confirmation h (m_delegator m)) st else st)"
  have limits: "mandate_limits G now p pc m st = account_payment G now p pc m amount conf att st1"
    using amount cap by (auto simp: mandate_limits_def confirmation_approves_iff conf_def att_def st1_def)
  have acc1: "mps_accounts (st1 r) = mps_accounts (st r)"
    using assms(2) by (simp add: st1_def upd_history_def)
  from act limits have act': "d_action (fst (account_payment G now p pc m amount conf att st1))
      \<in> {ActionApprove, ActionDefer}" by simp
  obtain nonce where nonce: "payment_nonce G pc = Some nonce"
    and granted: "fst (reserve (mps_accounts (st r)) m nonce amount now conf) = NoCode"
    and post: "snd (account_payment G now p pc m amount conf att st1)
      = upd_accounts r (snd (reserve (mps_accounts (st r)) m nonce amount now conf)) st1"
    using account_payment_reserves [OF act' assms(2,3)] acc1 by metis
  have "reservation_of p (snd (mandate_decide G now p pc st)) m nonce
      = Some \<lparr>sp_at = now, sp_amount = amount\<rparr>"
    using assms(2) entitled(2) limits post reserve_granted [OF granted]
    by (simp add: reservation_of_def upd_accounts_def)
  moreover have "window_use (account_of (mps_accounts (st r)) (m_mandate_id m)) now (budget_window m) + amount
      \<le> budget_of m" if "limit_set (m_budget_amount m)" and "\<not> conf"
    using reserve_granted_fits granted that by simp
  ultimately show ?thesis using entitled(1) nonce amount unfolding conf_def by blast
qed

text \<open>
  An approval before settlement holds the money: the approved amount is reserved under the
  payment's nonce in the mandate's account, and without a confirmation the amount fitted the
  cumulative budget next to everything already spent and reserved.
\<close>

theorem approval_holds_reservation:
  assumes "d_action (fst (mandate_decide G now p pc st)) = ActionApprove
         \<or> d_action (fst (mandate_decide G now p pc st)) = ActionDefer"
    and "mp_ref p = Some r" and "pc_stage pc = StagePreSettlement"
  shows "\<exists>m nonce amount. entitled G now p pc st m \<and> payment_nonce G pc = Some nonce \<and>
    payment_amount pc = Some amount \<and>
    reservation_of p (snd (mandate_decide G now p pc st)) m nonce = Some \<lparr>sp_at = now, sp_amount = amount\<rparr> \<and>
    (limit_set (m_budget_amount m) \<longrightarrow> confirmed_by_delegator G now p pc m amount \<or>
       window_use (account_of (mps_accounts (st r)) (m_mandate_id m)) now (budget_window m) + amount
         \<le> budget_of m)"
  using assms by (rule reservation_after_approval)

section \<open>Revocation\<close>

lemma revoked_in_mp_revoke:
  "mp_ref p = Some r \<Longrightarrow> revoked_in p (mp_revoke p d i st) m \<longleftrightarrow>
     (m_delegator m = d \<and> m_mandate_id m = i) \<or> revoked_in p st m"
  by (auto simp: revoked_in_def mp_revoke_def)

lemma mp_revoke_accounts [simp]:
  "mps_accounts (mp_revoke p d i st r) = mps_accounts (st r)"
  "mps_history (mp_revoke p d i st r) = mps_history (st r)"
  by (simp_all add: mp_revoke_def split: option.split)

text \<open>A decision past the entitlement checks never looks at the revocations.\<close>

lemma account_payment_accounts_only:
  assumes "\<And>r. mps_accounts (st r) = mps_accounts (st' r)"
  shows "fst (account_payment G now p pc m amount conf att st)
    = fst (account_payment G now p pc m amount conf att st')"
  by (auto simp: account_payment_def over_limit_def assms Let_def split: option.split prod.split)

lemma mandate_limits_accounts_only:
  assumes "\<And>r. mps_accounts (st r) = mps_accounts (st' r)"
  shows "fst (mandate_limits G now p pc m st) = fst (mandate_limits G now p pc m st')"
proof -
  have hist: "mps_accounts (upd_history ro f st r) = mps_accounts (upd_history ro f st' r)" for ro f r
    by (simp add: upd_history_def assms split: option.split)
  show ?thesis
    using account_payment_accounts_only [of st st', OF assms]
      account_payment_accounts_only [of "upd_history (mp_ref p) (\<lambda>h. record_confirmation h (m_delegator m)) st"
        "upd_history (mp_ref p) (\<lambda>h. record_confirmation h (m_delegator m)) st'", OF hist]
    by (auto simp: mandate_limits_def over_limit_def Let_def split: option.split)
qed

lemma signed_mandate_in_unique:
  "signed_mandate_in G p pc m \<Longrightarrow> signed_mandate_in G p pc m' \<Longrightarrow> m = m'"
  by (auto simp: signed_mandate_in_def split: option.splits)

text \<open>
  A revocation blocks exactly the revoked mandate: after it, every payment under that
  delegator's mandate id is rejected without touching any state, and the decision on any other
  mandate (another id, or the same id of another delegator) does not change.
\<close>

theorem revocation_is_exact:
  assumes "mp_ref p = Some r" and "signed_mandate_in G p pc m"
  shows "if m_delegator m = d \<and> m_mandate_id m = i
    then d_action (fst (mandate_decide G now p pc (mp_revoke p d i st))) = ActionReject \<and>
         snd (mandate_decide G now p pc (mp_revoke p d i st)) = mp_revoke p d i st
    else fst (mandate_decide G now p pc (mp_revoke p d i st)) = fst (mandate_decide G now p pc st)"
proof (cases "m_delegator m = d \<and> m_mandate_id m = i")
  case True
  then have "\<not> entitled G now p pc (mp_revoke p d i st) m'" for m'
    using assms revoked_in_mp_revoke [OF assms(1)] signed_mandate_in_unique
    unfolding entitled_def by metis
  with True show ?thesis
    by (cases rule: mandate_decide_cases [of G now p pc "mp_revoke p d i st"]) auto
next
  case False
  then have "revocations_has (mps_revocations (mp_revoke p d i st r)) (m_delegator m) (m_mandate_id m)
      = revocations_has (mps_revocations (st r)) (m_delegator m) (m_mandate_id m)"
    using revoked_in_mp_revoke [OF assms(1), of d i st m] assms(1) by (auto simp: revoked_in_def)
  then have "entitlement_failure G now p pc m (mp_revoke p d i st) = entitlement_failure G now p pc m st"
    using assms(1) by (simp add: entitlement_failure_def)
  moreover have "fst (mandate_limits G now p pc m (mp_revoke p d i st)) = fst (mandate_limits G now p pc m st)"
    by (rule mandate_limits_accounts_only) simp
  ultimately show ?thesis
    using False assms(2) by (auto simp: mandate_decide_def simp flip: mandate_of_Inr split: option.split)
qed

section \<open>Settlement\<close>

lemma mandate_settled_signed:
  assumes "mp_ref p = Some r" and "signed_mandate_in G p pc m" and "payment_nonce G pc = Some nonce"
  shows "mandate_settled G now p pc success st =
    upd_accounts r (if success then commit_spend (mps_accounts (st r)) m nonce now
                    else release (mps_accounts (st r)) m nonce) st"
  using assms by (auto simp: mandate_settled_def signed_mandate_in_def split: option.splits)

text \<open>
  Settlement closes a reservation: after OnSettled the nonce holds no reservation; success
  with a window that did not overflow has turned it into a committed spend of the same amount
  at that time, failure leaves the committed spends as they were.
\<close>

theorem settled_clears_reservation:
  assumes "mp_ref p = Some r" and "signed_mandate_in G p pc m" and "payment_nonce G pc = Some nonce"
    and "reservation_of p st m nonce = Some s"
  shows "reservation_of p (mandate_settled G now p pc success st) m nonce = None \<and>
    (0 \<le> max_window m \<longrightarrow> success \<longrightarrow> \<lparr>sp_at = now, sp_amount = sp_amount s\<rparr> \<in>
       set (ma_spends (account_of (mps_accounts (mandate_settled G now p pc success st r)) (m_mandate_id m)))) \<and>
    (\<not> success \<longrightarrow> ma_spends (account_of (mps_accounts (mandate_settled G now p pc success st r)) (m_mandate_id m))
        = ma_spends (account_of (mps_accounts (st r)) (m_mandate_id m)))"
proof -
  have s: "map_of (ma_reserved (account_of (mps_accounts (st r)) (m_mandate_id m))) nonce = Some s"
    using assms(1,4) by (simp add: reservation_of_def)
  have win: "in_window now (max_window m) \<lparr>sp_at = now, sp_amount = sp_amount s\<rparr>" if "0 \<le> max_window m"
    using that max_window_range [of m] by (simp add: in_window_def cutoff_nonneg_window)
  show ?thesis
    unfolding mandate_settled_signed [OF assms(1-3)] reservation_of_def
    by (cases success) (auto simp: assms(1) upd_accounts_def commit_spend_own release_own prune_def s win Let_def)
qed

section \<open>Chains\<close>

text \<open>The leaves of a policy, in the order Decide consults them.\<close>

fun members :: "policy \<Rightarrow> policy list" and members_list :: "policy list \<Rightarrow> policy list" where
  "members (Chain ps) = members_list ps"
| "members AlwaysVerify = [AlwaysVerify]"
| "members (IdentityPolicy reg) = [IdentityPolicy reg]"
| "members (EligibilityPolicy reg) = [EligibilityPolicy reg]"
| "members (MandatePolicy p) = [MandatePolicy p]"
| "members (TablePolicy t) = [TablePolicy t]"
| "members_list [] = []"
| "members_list (p # ps) = members p @ members_list ps"

definition same_revocations :: "policy_store \<Rightarrow> policy_store \<Rightarrow> bool" where
  "same_revocations st st' \<longleftrightarrow> (\<forall>r. mps_revocations (st' r) = mps_revocations (st r))"

lemma same_revocations_refl [simp]: "same_revocations st st"
  by (simp add: same_revocations_def)

lemma same_revocations_trans:
  "same_revocations a b \<Longrightarrow> same_revocations b c \<Longrightarrow> same_revocations a c"
  by (simp add: same_revocations_def)

lemma same_revocations_upd [simp]:
  "same_revocations st (upd_accounts r a st)"
  "same_revocations st (upd_history ro f st)"
  by (simp_all add: same_revocations_def upd_accounts_def upd_history_def split: option.split)

lemma same_revocations_over_limit [simp]:
  "same_revocations st (snd (over_limit now p d att code reason st))"
  by (simp add: over_limit_def)

lemma same_revocations_account_payment:
  "same_revocations st (snd (account_payment G now p pc m amount conf att st))"
  by (auto simp: account_payment_def Let_def split: option.split prod.split
      intro: same_revocations_trans [OF same_revocations_upd(1) same_revocations_over_limit])

lemma same_revocations_limits: "same_revocations st (snd (mandate_limits G now p pc m st))"
  by (auto simp: mandate_limits_def Let_def split: option.split
      intro: same_revocations_account_payment
        same_revocations_trans [OF same_revocations_upd(2) same_revocations_account_payment])

lemma same_revocations_decide:
  shows "same_revocations st (snd (decide G now pol pc st))"
    and "same_revocations st (snd (decide_chain G now ps pc st))"
proof (induction G now pol pc st and G now ps pc st rule: decide_decide_chain.induct)
  case (4 G now p pc st)
  show ?case
    by (cases rule: mandate_decide_cases [of G now p pc st]) (simp_all add: same_revocations_limits)
next
  case (8 G now p ps pc st)
  then show ?case
    by (auto simp: Let_def split: prod.split intro: same_revocations_trans) 
qed simp_all

lemma entitled_same_revocations:
  "same_revocations st st' \<Longrightarrow> entitled G now p pc st' = entitled G now p pc st"
  by (simp add: entitled_def revoked_in_def same_revocations_def fun_eq_iff split: option.split)

text \<open>What one leaf's approval means.\<close>

fun leaf_holds :: "geth \<Rightarrow> int \<Rightarrow> payment_context \<Rightarrow> policy_store \<Rightarrow> policy \<Rightarrow> bool" where
  "leaf_holds G now pc st AlwaysVerify \<longleftrightarrow>
     (case pc_verification pc of None \<Rightarrow> False | Some v \<Rightarrow> vr_is_valid v)"
| "leaf_holds G now pc st (IdentityPolicy reg) \<longleftrightarrow>
     (case pc_verification pc of None \<Rightarrow> False
      | Some v \<Rightarrow> vr_payer v \<noteq> '''' \<and> reg (hex_to_address G (vr_payer v)) = Inr True)"
| "leaf_holds G now pc st (EligibilityPolicy reg) \<longleftrightarrow>
     (case pc_verification pc of None \<Rightarrow> False
      | Some v \<Rightarrow> vr_payer v \<noteq> '''' \<and> reg (hex_to_address G (vr_payer v)) = Inr True)"
| "leaf_holds G now pc st (MandatePolicy p) \<longleftrightarrow> (\<exists>m. entitled G now p pc st m)"
| "leaf_holds G now pc st (TablePolicy t) \<longleftrightarrow> table_decide t pc = approve"
| "leaf_holds G now pc st (Chain ps) \<longleftrightarrow> True"

lemma leaf_holds_same_revocations:
  "same_revocations st st' \<Longrightarrow> leaf_holds G now pc st' pol \<longleftrightarrow> leaf_holds G now pc st pol"
  by (cases pol) (simp_all add: entitled_same_revocations)

lemma accept_decision_approve:
  "d_action (accept_decision out) = ActionApprove \<longleftrightarrow> out = ''approve''"
  by (simp add: accept_decision_def)

lemma approve_leaves:
  shows "d_action (fst (decide G now pol pc st)) = ActionApprove \<Longrightarrow>
      \<forall>l\<in>set (members pol). leaf_holds G now pc st l"
    and "d_action (fst (decide_chain G now ps pc st)) = ActionApprove \<Longrightarrow>
      \<forall>l\<in>set (members_list ps). leaf_holds G now pc st l"
proof (induction G now pol pc st and G now ps pc st rule: decide_decide_chain.induct)
  case (4 G now p pc st)
  then show ?case
    by (cases rule: mandate_decide_cases [of G now p pc st]) auto
next
  case (8 G now p ps pc st)
  obtain d st' where d: "decide G now p pc st = (d, st')" by (cases "decide G now p pc st")
  with 8 have a: "d_action d = ActionApprove" and rest: "\<forall>l\<in>set (members_list ps). leaf_holds G now pc st' l"
    by (auto split: if_splits)
  have "same_revocations st st'" using same_revocations_decide(1) [of st G now p pc] d by simp
  with a d rest 8 show ?case by (auto simp: leaf_holds_same_revocations)
qed (auto simp: always_verify_decide_def identity_decide_def eligibility_decide_def reject_def
      table_decide_def accept_decision_approve accept_decision_def Let_def
      split: option.splits sum.splits if_splits)

text \<open>
  A chain approves only if every policy in it, at any depth, has its condition met:
  identity and eligibility registries answered true for the verified payer (so an error or no
  answer fails closed), the facilitator's verdict was valid, each mandate policy finds the
  payment entitled and each table says approve.
\<close>

theorem chain_approval_means_every_member:
  assumes "d_action (fst (decide G now pol pc st)) = ActionApprove"
    and "leaf \<in> set (members pol)"
  shows "leaf_holds G now pc st leaf"
  using approve_leaves(1) [OF assms(1)] assms(2) by blast

section \<open>Decision tables\<close>

text \<open>
  What a rule of the file says, read off the format described in \<open>x402/policy_table.go\<close> and not
  off the compiled form: every condition it states holds, an amount being a decimal integer that
  is not negative.
\<close>

definition raw_bound :: "string option \<Rightarrow> (int \<Rightarrow> bool) \<Rightarrow> bool" where
  "raw_bound s P \<longleftrightarrow> (case s of None \<Rightarrow> True | Some t \<Rightarrow> (\<exists>x\<ge>0. set_string10 t = Some x \<and> P x))"

definition raw_matches :: "raw_rule \<Rightarrow> rule_factors \<Rightarrow> bool" where
  "raw_matches r f \<longleftrightarrow>
     raw_bound (rr_amount_min r) (\<lambda>x. x \<le> rf_amount f) \<and> raw_bound (rr_amount_max r) (\<lambda>x. rf_amount f \<le> x) \<and>
     (case rr_stage_at_least r of None \<Rightarrow> True
      | Some s \<Rightarrow> s = ''submitted'' \<and> StageSubmitted \<le> rf_stage f \<or> s = ''confirmed'' \<and> StageConfirmed \<le> rf_stage f) \<and>
     (case rr_risk_max r of None \<Rightarrow> True | Some x \<Rightarrow> rf_risk f \<le> x) \<and>
     (case rr_asks_max r of None \<Rightarrow> True | Some x \<Rightarrow> rf_asks f \<le> x)"

lemma parse_bound:
  assumes "parse_non_neg_big s = Inr b"
  shows "raw_bound s P \<longleftrightarrow> (case b of None \<Rightarrow> True | Some x \<Rightarrow> P x)"
  using assms by (auto simp: parse_non_neg_big_def raw_bound_def split: option.splits if_splits)

lemma compile_rule_matches:
  assumes "compile_rule valid r = Inr c"
  shows "rule_matches c f \<longleftrightarrow> raw_matches r f" "cr_then c = rr_then r" "rr_then r \<in> set valid"
proof -
  obtain amin amax st where p: "parse_non_neg_big (rr_amount_min r) = Inr amin" "parse_non_neg_big (rr_amount_max r) = Inr amax"
      "(case rr_stage_at_least r of None \<Rightarrow> Inr None | Some s \<Rightarrow> map_sum id Some (parse_stage s)) = Inr st"
    and c: "c = \<lparr>cr_amount_min = amin, cr_amount_max = amax, cr_stage_at_least = st, cr_risk_max = rr_risk_max r,
      cr_asks_max = rr_asks_max r, cr_then = rr_then r\<rparr>" and v: "rr_then r \<in> set valid"
    using assms by (auto simp: compile_rule_def split: if_splits sum.splits)
  have st: "(case rr_stage_at_least r of None \<Rightarrow> True
      | Some s \<Rightarrow> s = ''submitted'' \<and> StageSubmitted \<le> rf_stage f \<or> s = ''confirmed'' \<and> StageConfirmed \<le> rf_stage f)
    \<longleftrightarrow> (case st of None \<Rightarrow> True | Some x \<Rightarrow> x \<le> rf_stage f)"
    using p(3) by (auto simp: parse_stage_def split: option.splits if_splits)
  show "rule_matches c f \<longleftrightarrow> raw_matches r f"
    unfolding raw_matches_def parse_bound [OF p(1)] parse_bound [OF p(2)] st
    by (auto simp: rule_matches_def c not_less split: option.splits)
  show "cr_then c = rr_then r" "rr_then r \<in> set valid" by (simp_all add: c v)
qed

lemma compile_rules_match:
  assumes "compile_rules valid rs = Inr cs" and "dflt \<in> set valid"
  shows "match_rules cs dflt f = (case find (\<lambda>r. raw_matches r f) rs of None \<Rightarrow> dflt | Some r \<Rightarrow> rr_then r) \<and>
    match_rules cs dflt f \<in> set valid"
  using assms
proof (induction rs arbitrary: cs)
  case (Cons r rs)
  obtain c cs' where c: "compile_rule valid r = Inr c" "compile_rules valid rs = Inr cs'" "cs = c # cs'"
    using Cons.prems(1) by (auto split: sum.splits)
  then show ?case using Cons.IH [OF c(2) Cons.prems(2)] compile_rule_matches [OF c(1)] by auto
qed auto

text \<open>
  C22. A loaded decision table answers what its file says: for every payment the outcome of the
  first rule of the file all of whose stated conditions hold (amount between the bounds, stage
  reached, risk and asks not above the maximum), the file's default when there is none; and
  the answer is one of the outcomes of the table's kind.
\<close>

theorem loaded_table_is_total:
  assumes "load_table valid (Some raw) = Inr t"
  shows "table_match t f = (case find (\<lambda>r. raw_matches r f) (rt_rules raw) of None \<Rightarrow> rt_default raw | Some r \<Rightarrow> rr_then r) \<and>
    table_match t f \<in> set valid"
proof -
  obtain cs where cs: "compile_rules valid (rt_rules raw) = Inr cs" "rt_default raw \<in> set valid"
    and t: "t = \<lparr>dt_rules = cs, dt_def = rt_default raw\<rparr>"
    using assms by (auto simp: load_table_def split: if_splits sum.splits)
  have m: "table_match t f = match_rules cs (rt_default raw) f" by (simp add: table_match_def t)
  show ?thesis unfolding m by (rule compile_rules_match [OF cs])
qed

section \<open>Witnesses\<close>

text \<open>
  A concrete payment: sample_mandate signed by its delegator's key 1, the agent 2 paying
  60 with nonce 5, and the policy of reference 0 on chain 1.
\<close>

definition sample_policy :: mandate_policy where
  "sample_policy = fst (new_mandate_policy (Some 1) 0 (\<lambda>_. new_mp_state))"

definition fresh_store :: policy_store where
  "fresh_store = (\<lambda>_. new_mp_state)"

definition sample_signature :: "byte list" where
  "sample_signature = (case sign_mandate sample_geth 1 sample_mandate (Some 1) of Inl e \<Rightarrow> [] | Inr s \<Rightarrow> s)"

definition sample_payload :: "string \<Rightarrow> payment_payload" where
  "sample_payload amount = \<lparr>
     pp_version = 1, pp_scheme = scheme_exact, pp_network = ''kaia'',
     pp_payload = \<lparr>ep_signature = '''',
       ep_authorization = \<lparr>aj_from = '''', aj_to = '''', aj_value = amount,
         aj_valid_after = ''0'', aj_valid_before = ''0'', aj_nonce = ''0x'' @ hex_encode (bytes32_bytes 5)\<rparr>,
       ep_nonce_seed = ''''\<rparr>,
     pp_mandate = Some \<lparr>smj_mandate = mandate_to_json sample_geth sample_mandate,
                        smj_signature = ''0x'' @ hex_encode sample_signature\<rparr>,
     pp_confirmation = None, pp_session = None\<rparr>"

definition sample_requirements :: payment_requirements where
  "sample_requirements = \<lparr>
     pr_scheme = scheme_exact, pr_network = ''kaia'', pr_max_amount_required = ''60'',
     pr_resource = ''/doc'', pr_description = '''', pr_mime_type = '''', pr_pay_to = '''',
     pr_max_timeout_seconds = 60, pr_asset = '''', pr_extra = []\<rparr>"

definition sample_context :: "string \<Rightarrow> payment_context" where
  "sample_context amount = \<lparr>
     pc_payload = sample_payload amount, pc_requirements = sample_requirements,
     pc_verification = Some \<lparr>vr_is_valid = True, vr_invalid_reason = '''', vr_payer = address_hex sample_geth 2\<rparr>,
     pc_history = None, pc_stage = StagePreSettlement, pc_risk_score = 0\<rparr>"

lemma sample_sign: "sign_mandate sample_geth 1 sample_mandate (Some 1) = Inr sample_signature"
  by (simp add: sample_signature_def sign_mandate_def) (simp add: sample_geth_def)

lemma sample_verify:
  "verify_mandate sample_geth sample_mandate sample_signature (Some 1) = Inr (m_delegator sample_mandate)"
  by (rule sign_mandate_verify [OF sample_geth_sig sample_sign])
    (simp add: sample_mandate_def sample_geth_def)

lemma sample_from_hex_print [simp]:
  "from_hex sample_geth (CHR ''0'' # CHR ''x'' # hex_encode bs) = bs"
  using geth_textD(5) [OF sample_geth_text, of bs] by simp

lemma sample_hex_to_address [simp]: "hex_to_address sample_geth (address_hex sample_geth a) = a"
  by (rule geth_textD(2) [OF sample_geth_text])

lemma sample_signed_in [simp]: "signed_mandate_in sample_geth sample_policy (sample_context amount) sample_mandate"
proof -
  have "wire_normal sample_mandate = sample_mandate"
    by (simp add: wire_normal_def zero_nil_def sample_mandate_def)
  then show ?thesis
    by (simp add: signed_mandate_in_def sample_context_def sample_payload_def to_mandate_print
        sample_verify sample_policy_def new_mandate_policy_def)
qed

lemma sample_mandate_of [simp]: "mandate_of sample_geth sample_policy (sample_context amount) = Inr sample_mandate"
  by (simp add: mandate_of_Inr)

lemma sample_payer [simp]: "address_hex sample_geth a \<noteq> ''''"
  by (simp add: sample_geth_def)

lemma sample_entitled: "entitled sample_geth 1000 sample_policy (sample_context amount) fresh_store sample_mandate"
  by (simp add: entitled_def paid_by_agent_def within_validity_def revoked_in_def scope_allows_def)
    (simp add: sample_mandate_def sample_context_def unix_of_def ns_per_second_def sample_policy_def
      new_mandate_policy_def fresh_store_def new_mp_state_def revocations_has_def)

lemma sample_entitlement [simp]:
  "entitlement_failure sample_geth 1000 sample_policy (sample_context amount) sample_mandate fresh_store = None"
  using sample_entitled [of amount] by (simp add: entitlement_None_iff entitled_def)

lemma set_string10_samples [simp]:
  "set_string10 ''60'' = Some 60" "set_string10 ''90'' = Some 90" "set_string10 ''0'' = Some 0"
  by code_simp+

lemma sample_nonce [simp]: "payment_nonce sample_geth (sample_context amount) = Some 5"
  by (simp add: payment_nonce_def sample_context_def sample_payload_def)

lemma sample_context_simps [simp]:
  "pc_stage (sample_context a) = StagePreSettlement"
  "pc_requirements (sample_context a) = sample_requirements"
  "pc_payload (sample_context a) = sample_payload a"
  "pp_confirmation (sample_payload a) = None"
  "payment_amount (sample_context a) = set_string10 a"
  "mp_ref sample_policy = Some 0"
  "mp_defer_above sample_policy = None"
  "fresh_store r = new_mp_state"
  "mps_accounts new_mp_state = Map.empty"
  by (simp_all add: sample_context_def sample_payload_def sample_policy_def new_mandate_policy_def
      fresh_store_def new_mp_state_def payment_amount_def)

lemma sample_reserve [simp]: "fst (reserve Map.empty sample_mandate n 60 1000 False) = NoCode"
  by (simp add: reserve_def sample_mandate_def account_of_def new_account_def limit_set_def exceeds_def
      committed_amount_def committed_count_def reserved_amount_def i64_id)

lemma sample_approves [simp]:
  "mandate_decide sample_geth 1000 sample_policy (sample_context ''60'') fresh_store =
     (approve, upd_accounts 0 (snd (reserve Map.empty sample_mandate 5 60 1000 False)) fresh_store)"
proof -
  have "\<not> confirmation_approves sample_geth 1000 sample_policy (sample_context ''60'') sample_mandate 60"
    by (simp add: confirmation_approves_def)
  moreover have "\<not> exceeds 60 (m_max_amount_per_payment sample_mandate)"
    by (simp add: exceeds_def sample_mandate_def)
  moreover obtain a where "reserve Map.empty sample_mandate 5 60 1000 False = (NoCode, a)"
    using sample_reserve [of 5] by (cases "reserve Map.empty sample_mandate 5 60 1000 False") simp
  ultimately show ?thesis
    by (simp add: mandate_decide_def mandate_limits_def account_payment_def Let_def defer_or_approve_def)
qed

theorem mandate_approval_witness:
  "\<exists>m amount. entitled sample_geth 1000 sample_policy (sample_context ''60'') fresh_store m \<and>
    set_string10 ''60'' = Some amount \<and>
    (within_scope m (hex_to_address sample_geth '''') ''/doc'' amount = None
     \<or> confirmed_by_delegator sample_geth 1000 sample_policy (sample_context ''60'') m amount)"
  using mandate_approval_sound [of sample_geth 1000 sample_policy "sample_context ''60''" fresh_store]
  by (simp add: sample_requirements_def)

theorem approval_holds_reservation_witness:
  "\<exists>m nonce amount. entitled sample_geth 1000 sample_policy (sample_context ''60'') fresh_store m \<and>
    payment_nonce sample_geth (sample_context ''60'') = Some nonce \<and>
    reservation_of sample_policy
      (snd (mandate_decide sample_geth 1000 sample_policy (sample_context ''60'') fresh_store)) m nonce
      = Some \<lparr>sp_at = 1000, sp_amount = amount\<rparr>"
  using approval_holds_reservation [of sample_geth 1000 sample_policy "sample_context ''60''" fresh_store 0]
  by auto

text \<open>Over the cap with AskOnExceed: the policy asks.\<close>

definition asking_policy :: mandate_policy where
  "asking_policy = sample_policy\<lparr>mp_ask_on_exceed := True\<rparr>"

lemma asking_policy_simps [simp]:
  "mandate_of G asking_policy pc = mandate_of G sample_policy pc"
  "entitlement_failure G now asking_policy pc m st = entitlement_failure G now sample_policy pc m st"
  "mp_ask_on_exceed asking_policy" "mp_ref asking_policy = Some 0"
  by (auto simp: asking_policy_def mandate_of_def entitlement_failure_def split: option.split sum.split)

theorem ask_only_when_entitled_witness:
  "mp_ask_on_exceed asking_policy \<and>
   (\<exists>m. entitled sample_geth 1000 asking_policy (sample_context ''90'') fresh_store m)"
proof -
  have "d_action (fst (mandate_decide sample_geth 1000 asking_policy (sample_context ''90'') fresh_store))
      = ActionAsk"
    by (simp add: mandate_decide_def mandate_limits_def Let_def confirmation_approves_def over_limit_def)
      (simp add: exceeds_def sample_mandate_def)
  then show ?thesis by (rule ask_only_when_entitled)
qed

theorem revocation_witness:
  "d_action (fst (mandate_decide sample_geth 1000 sample_policy (sample_context ''60'')
      (mp_revoke sample_policy 1 7 fresh_store))) = ActionReject \<and>
   fst (mandate_decide sample_geth 1000 sample_policy (sample_context ''60'')
      (mp_revoke sample_policy 99 7 fresh_store)) = approve"
  using revocation_is_exact [of sample_policy 0 sample_geth "sample_context ''60''" sample_mandate 1 7 1000 fresh_store]
    revocation_is_exact [of sample_policy 0 sample_geth "sample_context ''60''" sample_mandate 99 7 1000 fresh_store]
  by (simp add: sample_mandate_def [THEN arg_cong [where f = m_delegator]]
      sample_mandate_def [THEN arg_cong [where f = m_mandate_id]])

definition paid_store :: policy_store where
  "paid_store = snd (mandate_decide sample_geth 1000 sample_policy (sample_context ''60'') fresh_store)"

lemma paid_store_reservation [simp]:
  "reservation_of sample_policy paid_store sample_mandate 5 = Some \<lparr>sp_at = 1000, sp_amount = 60\<rparr>"
  using reserve_granted [OF sample_reserve [of 5]]
  by (simp add: paid_store_def reservation_of_def upd_accounts_def)

theorem settled_clears_reservation_witness:
  "reservation_of sample_policy
     (mandate_settled sample_geth 2000 sample_policy (sample_context ''60'') True paid_store) sample_mandate 5 = None"
  using settled_clears_reservation [of sample_policy 0 sample_geth "sample_context ''60''" sample_mandate 5
      paid_store "\<lparr>sp_at = 1000, sp_amount = 60\<rparr>" 2000 True] by simp

theorem chain_approval_witness:
  "leaf_holds sample_geth 1000 (sample_context ''60'') fresh_store (IdentityPolicy (\<lambda>_. Inr True)) \<and>
   (\<exists>m. entitled sample_geth 1000 sample_policy (sample_context ''60'') fresh_store m)"
proof -
  let ?c = "Chain [AlwaysVerify, Chain [IdentityPolicy (\<lambda>_. Inr True)], MandatePolicy sample_policy]"
  have "d_action (fst (decide sample_geth 1000 ?c (sample_context ''60'') fresh_store)) = ActionApprove"
    by (simp add: always_verify_decide_def identity_decide_def Let_def)
      (simp add: sample_context_def)
  note all = chain_approval_means_every_member [OF this]
  show ?thesis using all [of "IdentityPolicy (\<lambda>_. Inr True)"] all [of "MandatePolicy sample_policy"]
    by simp
qed

theorem loaded_table_witness:
  "\<exists>t. load_table_policy (Some \<lparr>rt_default = ''reject'', rt_rules = [\<lparr>rr_amount_min = None,
       rr_amount_max = None, rr_stage_at_least = None, rr_risk_max = None, rr_asks_max = Some 3,
       rr_then = ''approve''\<rparr>]\<rparr>) = Inr t \<and> (\<forall>f. rf_asks f \<le> 3 \<longrightarrow> table_match t f = ''approve'') \<and> (\<forall>f. 3 < rf_asks f \<longrightarrow> table_match t f = ''reject'')"
proof -
  let ?raw = "\<lparr>rt_default = ''reject'', rt_rules = [\<lparr>rr_amount_min = None,
       rr_amount_max = None, rr_stage_at_least = None, rr_risk_max = None, rr_asks_max = Some 3,
       rr_then = ''approve''\<rparr>]\<rparr>"
  obtain t where t: "load_table accept_outcomes (Some ?raw) = Inr t"
    by (simp add: load_table_def accept_outcomes_def compile_rule_def parse_non_neg_big_def)
  show ?thesis using loaded_table_is_total [OF t] t by (auto simp: load_table_policy_def raw_matches_def raw_bound_def)
qed

section \<open>A refusal after the reservation\<close>

text \<open>
  A refusal by a policy later in a chain leaves the mandate policy's reservation in place:
  the payment is rejected, never settled, and its amount stays reserved against the
  delegator's budget.
\<close>

theorem later_refusal_keeps_reservation:
  assumes "fst (mandate_decide G now p pc st) = approve" and "mp_ref p = Some r"
    and "pc_stage pc = StagePreSettlement"
    and "pc_verification pc = Some v" and "reg (hex_to_address G (vr_payer v)) = Inr False"
  shows "d_action (fst (decide G now (Chain [MandatePolicy p, IdentityPolicy reg]) pc st)) = ActionReject \<and>
    (\<exists>m nonce. signed_mandate_in G p pc m \<and> payment_nonce G pc = Some nonce \<and>
       reservation_of p (snd (decide G now (Chain [MandatePolicy p, IdentityPolicy reg]) pc st)) m nonce \<noteq> None)"
proof -
  have act: "d_action (identity_decide G reg pc) = ActionReject"
    using assms(4,5) by (simp add: identity_decide_def reject_def)
  obtain st' where "mandate_decide G now p pc st = (approve, st')"
    using assms(1) by (cases "mandate_decide G now p pc st") simp
  then have dec: "decide G now (Chain [MandatePolicy p, IdentityPolicy reg]) pc st =
      (identity_decide G reg pc, snd (mandate_decide G now p pc st))"
    using act by simp
  have "\<exists>m nonce. signed_mandate_in G p pc m \<and> payment_nonce G pc = Some nonce \<and>
      reservation_of p (snd (mandate_decide G now p pc st)) m nonce \<noteq> None"
    using reservation_after_approval [of G now p pc st r] assms(1-3) by (auto simp: entitled_def)
  then show ?thesis using dec act by simp
qed

theorem later_refusal_witness:
  "d_action (fst (decide sample_geth 1000 (Chain [MandatePolicy sample_policy, IdentityPolicy (\<lambda>_. Inr False)])
      (sample_context ''60'') fresh_store)) = ActionReject"
  using later_refusal_keeps_reservation [of sample_geth 1000 sample_policy "sample_context ''60''" fresh_store 0
      "\<lparr>vr_is_valid = True, vr_invalid_reason = '''', vr_payer = address_hex sample_geth 2\<rparr>" "\<lambda>_. Inr False"]
  by (simp del: decide.simps) (simp add: sample_context_def)

section \<open>Negated limits\<close>

text \<open>
  The EIP-712 encoding \<open>u256\<close> takes the bytes of a big integer, which are those of its
  absolute value, and \<open>ToMandate\<close> accepts a minus sign; a limit that is not positive counts
  as unset. The mandate an agent can make of a signed one:
\<close>

definition negate_limit :: "int option \<Rightarrow> int option" where
  "negate_limit x = map_option (\<lambda>n. - \<bar>n\<bar>) x"

definition negate_limits :: "mandate \<Rightarrow> mandate" where
  "negate_limits m = m\<lparr>
     m_max_amount_per_payment := negate_limit (m_max_amount_per_payment m),
     m_budget_amount := negate_limit (m_budget_amount m),
     m_max_payments_per_window := negate_limit (m_max_payments_per_window m)\<rparr>"

definition with_mandate :: "geth \<Rightarrow> mandate \<Rightarrow> payment_context \<Rightarrow> payment_context" where
  "with_mandate G m pc = pc\<lparr>pc_payload := (pc_payload pc)\<lparr>pp_mandate :=
     map_option (smj_mandate_update (\<lambda>_. mandate_to_json G m)) (pp_mandate (pc_payload pc))\<rparr>\<rparr>"

lemma u256_negate_limit [simp]: "u256 G (negate_limit x) = u256 G x"
  by (cases x) (simp_all add: u256_def negate_limit_def big_bytes_def)

lemma negate_limit_unset [simp]: "\<not> limit_set (negate_limit x)" "\<not> exceeds a (negate_limit x)"
  by (cases x; simp add: limit_set_def exceeds_def negate_limit_def)+

lemma negate_limits_fields [simp]:
  "m_delegator (negate_limits m) = m_delegator m" "m_agent (negate_limits m) = m_agent m"
  "m_allowed_payees (negate_limits m) = m_allowed_payees m"
  "m_allowed_resources (negate_limits m) = m_allowed_resources m"
  "m_valid_after (negate_limits m) = m_valid_after m" "m_valid_before (negate_limits m) = m_valid_before m"
  "m_budget_window_seconds (negate_limits m) = m_budget_window_seconds m"
  "m_rate_window_seconds (negate_limits m) = m_rate_window_seconds m"
  "m_mandate_id (negate_limits m) = m_mandate_id m"
  "m_max_amount_per_payment (negate_limits m) = negate_limit (m_max_amount_per_payment m)"
  "m_budget_amount (negate_limits m) = negate_limit (m_budget_amount m)"
  "m_max_payments_per_window (negate_limits m) = negate_limit (m_max_payments_per_window m)"
  by (simp_all add: negate_limits_def)

lemma verify_negate_limits [simp]:
  "verify_mandate G (negate_limits m) s c = verify_mandate G m s c"
  by (simp add: verify_mandate_def mandate_struct_hash_def mandate_preimage_def split: sum.split)

lemma to_mandate_filled:
  "to_mandate G j = Inr m \<Longrightarrow> zero_nil (m_max_amount_per_payment m) = m_max_amount_per_payment m \<and>
    zero_nil (m_valid_after m) = m_valid_after m \<and> zero_nil (m_valid_before m) = m_valid_before m \<and>
    zero_nil (m_budget_amount m) = m_budget_amount m \<and>
    zero_nil (m_budget_window_seconds m) = m_budget_window_seconds m \<and>
    zero_nil (m_max_payments_per_window m) = m_max_payments_per_window m \<and>
    zero_nil (m_rate_window_seconds m) = m_rate_window_seconds m"
  unfolding to_mandate_def by (simp split: if_splits sum.splits option.splits) (auto simp: zero_nil_def)

lemma zero_nil_negate: "zero_nil x = x \<Longrightarrow> zero_nil (negate_limit x) = negate_limit x"
  by (cases x) (simp_all add: zero_nil_def negate_limit_def)

lemma to_mandate_normal:
  assumes "to_mandate G j = Inr m"
  shows "wire_normal (negate_limits m) = negate_limits m"
  using to_mandate_filled [OF assms] by (cases m) (simp add: wire_normal_def negate_limits_def zero_nil_negate)

text \<open>
  An agent can lift the limits of its mandate: writing the per-payment cap, the budget
  and the frequency cap with a minus sign leaves the delegator's signature valid, the policy
  parses the altered mandate as signed by the same delegator, and none of the three limits
  is set any more.
\<close>

theorem agent_can_negate_limits:
  assumes "geth_text G" and "signed_mandate_in G p pc m"
  shows "signed_mandate_in G p (with_mandate G (negate_limits m) pc) (negate_limits m) \<and>
    \<not> exceeds amount (m_max_amount_per_payment (negate_limits m)) \<and>
    \<not> limit_set (m_budget_amount (negate_limits m)) \<and>
    \<not> limit_set (m_max_payments_per_window (negate_limits m))"
proof -
  obtain sm where sm: "pp_mandate (pc_payload pc) = Some sm" "to_mandate G (smj_mandate sm) = Inr m"
      "verify_mandate G m (from_hex G (smj_signature sm)) (mp_chain_id p) = Inr (m_delegator m)"
    using assms(2) by (auto simp: signed_mandate_in_def split: option.splits)
  have "to_mandate G (mandate_to_json G (negate_limits m)) = Inr (negate_limits m)"
    using to_mandate_print [OF assms(1), of "negate_limits m"] to_mandate_normal [OF sm(2)] by simp
  with sm show ?thesis by (simp add: signed_mandate_in_def with_mandate_def)
qed

text \<open>Amount 90 under the sample mandate's cap of 80: rejected as signed, approved negated.\<close>

theorem agent_can_negate_limits_witness:
  "d_action (fst (mandate_decide sample_geth 1000 sample_policy (sample_context ''90'') fresh_store)) = ActionReject \<and>
   d_action (fst (mandate_decide sample_geth 1000 sample_policy
     (with_mandate sample_geth (negate_limits sample_mandate) (sample_context ''90'')) fresh_store)) = ActionApprove"
proof -
  let ?m = "negate_limits sample_mandate"
  let ?pc = "with_mandate sample_geth ?m (sample_context ''90'')"
  have "signed_mandate_in sample_geth sample_policy ?pc ?m"
    using agent_can_negate_limits [OF sample_geth_text sample_signed_in] by blast
  then have of: "mandate_of sample_geth sample_policy ?pc = Inr ?m" by (simp add: mandate_of_Inr)
  have ent: "entitlement_failure sample_geth 1000 sample_policy ?pc ?m fresh_store = None"
    using sample_entitled [of "''90''"]
    by (simp add: entitlement_None_iff entitled_def paid_by_agent_def within_validity_def revoked_in_def
        scope_allows_def with_mandate_def split: option.splits)
  have pc: "payment_amount ?pc = Some 90" "payment_nonce sample_geth ?pc = Some 5"
      "pc_stage ?pc = StagePreSettlement"
    using sample_nonce [of "''90''"]
    by (simp_all add: with_mandate_def payment_amount_def payment_nonce_def sample_payload_def)
  have "\<not> confirmation_approves sample_geth 1000 sample_policy ?pc ?m 90"
    by (simp add: confirmation_approves_def with_mandate_def)
  moreover have "fst (reserve Map.empty ?m 5 90 1000 False) = NoCode"
    by (simp add: reserve_def Let_def)
  then obtain a where "reserve Map.empty ?m 5 90 1000 False = (NoCode, a)"
    by (cases "reserve Map.empty ?m 5 90 1000 False") simp
  ultimately
  have "d_action (fst (mandate_decide sample_geth 1000 sample_policy ?pc fresh_store)) = ActionApprove"
    using of ent pc by (simp add: mandate_decide_def mandate_limits_def account_payment_def Let_def
        defer_or_approve_def)
  moreover have "d_action (fst (mandate_decide sample_geth 1000 sample_policy (sample_context ''90'') fresh_store))
      = ActionReject"
    by (simp add: mandate_decide_def mandate_limits_def Let_def confirmation_approves_def over_limit_def)
      (simp add: exceeds_def sample_mandate_def sample_policy_def new_mandate_policy_def reject_def)
  ultimately show ?thesis by blast
qed

end
