(* ===== verification/AppendLog.thy ===== *)
theory AppendLog
  imports Prelude
begin

text \<open>
  The append-only file both durable ledgers of the repository share: the settlement journal
  (\<open>x402/journal.go\<close>) and the reserve ledger (\<open>reserve/reserve.go\<close>) write one JSON line per
  record, fsync it, and rebuild their memory on open by reading every line that parses.

  A file is the sequence of what reached the disk: whole JSON records, torn prefixes of one,
  and newlines. A line parses exactly when it is one whole record; two records, or a torn
  prefix and a record, on one line are not valid JSON. Lines are taken to be shorter than
  the scanner's 4 MB.

  The contract is the locale \<open>durable_log\<close>, its client lemmas are in \<open>replayed_log\<close> (a
  memory that is a fold of the log), and the file interprets the first here; the journal
  and the reserve ledger interpret the second in their theories.
\<close>

section \<open>The file\<close>

datatype 'l fragment = Whole 'l | Torn | Newline

type_synonym 'l log_file = "'l fragment list"

text \<open>Where a write stops: before any byte, inside the JSON, before the newline.\<close>

datatype cut = CutNothing | CutInside | CutBeforeNewline

text \<open>The outcome of one Write and Sync. A crash in the middle is an \<open>IoShort\<close>.\<close>

datatype io = IoOk | IoShort cut | IoSyncFail

fun written :: "io \<Rightarrow> 'l \<Rightarrow> 'l fragment list" where
  "written IoOk l = [Whole l, Newline]"
| "written IoSyncFail l = [Whole l, Newline]"
| "written (IoShort CutNothing) l = []"
| "written (IoShort CutInside) l = [Torn]"
| "written (IoShort CutBeforeNewline) l = [Whole l]"

text \<open>\<open>writeLine\<close>: the file after it, and whether it returned nil.\<close>

definition file_write :: "io \<Rightarrow> 'l \<Rightarrow> 'l log_file \<Rightarrow> 'l log_file \<times> bool" where
  "file_write out l f = (f @ written out l, out = IoOk)"

text \<open>The lines \<open>bufio.Scanner\<close> yields: split at newlines, a final unterminated line too.\<close>

fun scan_lines :: "'l log_file \<Rightarrow> 'l fragment list \<Rightarrow> 'l fragment list list" where
  "scan_lines [] cur = (if cur = [] then [] else [cur])"
| "scan_lines (Newline # f) cur = cur # scan_lines f []"
| "scan_lines (x # f) cur = scan_lines f (cur @ [x])"

fun parse_line :: "'l fragment list \<Rightarrow> 'l option" where
  "parse_line [Whole l] = Some l"
| "parse_line _ = None"

definition parsed :: "'l log_file \<Rightarrow> 'l list" where
  "parsed f = concat (map (\<lambda>x. case parse_line x of None \<Rightarrow> [] | Some l \<Rightarrow> [l]) (scan_lines f []))"

definition clean_file :: "'l log_file \<Rightarrow> bool" where
  "clean_file f \<longleftrightarrow> f = [] \<or> last f = Newline"

section \<open>The contract\<close>

locale durable_log =
  fixes clean :: "'f \<Rightarrow> bool"
    and contents :: "'f \<Rightarrow> 'l list"
    and put :: "io \<Rightarrow> 'l \<Rightarrow> 'f \<Rightarrow> 'f \<times> bool"
  assumes write_acked: "snd (put out l f) \<longleftrightarrow> out = IoOk"
    and write_ok: "clean f \<Longrightarrow> contents (fst (put IoOk l f)) = contents f @ [l]"
    and write_ok_clean: "clean f \<Longrightarrow> clean (fst (put IoOk l f))"
    and write_atomic: "clean f \<Longrightarrow>
      contents (fst (put out l f)) = contents f \<or> contents (fst (put out l f)) = contents f @ [l]"
begin

fun write_all :: "'l list \<Rightarrow> 'f \<Rightarrow> 'f" where
  "write_all [] f = f"
| "write_all (l # ls) f = write_all ls (fst (put IoOk l f))"

lemma write_all_contents: "clean f \<Longrightarrow> contents (write_all ls f) = contents f @ ls"
  by (induction ls arbitrary: f) (simp_all add: write_ok write_ok_clean)

lemma write_all_clean: "clean f \<Longrightarrow> clean (write_all ls f)"
  by (induction ls arbitrary: f) (simp_all add: write_ok_clean)

end

text \<open>A component whose memory is what replaying the log's records in order gives.\<close>

locale replayed_log = durable_log clean contents put
  for clean :: "'f \<Rightarrow> bool" and contents :: "'f \<Rightarrow> 'l list"
    and put :: "io \<Rightarrow> 'l \<Rightarrow> 'f \<Rightarrow> 'f \<times> bool" +
  fixes apply_line :: "'m \<Rightarrow> 'l \<Rightarrow> 'm" and empty_mem :: 'm
begin

definition replayed :: "'f \<Rightarrow> 'm" where
  "replayed f = foldl apply_line empty_mem (contents f)"

text \<open>The in-memory state is what a restart would rebuild.\<close>

definition synced :: "'f \<Rightarrow> 'm \<Rightarrow> bool" where
  "synced f mem \<longleftrightarrow> clean f \<and> mem = replayed f"

lemma synced_write: "synced f mem \<Longrightarrow> synced (fst (put IoOk l f)) (apply_line mem l)"
  by (simp add: synced_def replayed_def write_ok write_ok_clean)

lemma synced_crash:
  "synced f mem \<Longrightarrow>
    replayed (fst (put out l f)) = mem \<or> replayed (fst (put out l f)) = apply_line mem l"
  using write_atomic [of f out l] by (auto simp: synced_def replayed_def)

end

section \<open>The file provides it\<close>

lemma scan_lines_newline:
  "scan_lines (f @ [Newline] @ g) cur = scan_lines (f @ [Newline]) cur @ scan_lines g []"
  by (induction f cur rule: scan_lines.induct) simp_all

lemma parsed_append_clean: "clean_file f \<Longrightarrow> parsed (f @ g) = parsed f @ parsed g"
proof (cases "f = []")
  case False
  assume "clean_file f"
  with False obtain f' where f: "f = f' @ [Newline]"
    by (metis append_butlast_last_id clean_file_def)
  show ?thesis using scan_lines_newline [of f' g "[]"] by (simp add: f parsed_def)
qed (simp add: parsed_def)

lemma parsed_written:
  "parsed (written out l) = (if out = IoShort CutNothing \<or> out = IoShort CutInside then [] else [l])"
  by (cases "(out, l)" rule: written.cases) (simp_all add: parsed_def)

interpretation flog: durable_log clean_file parsed file_write
proof unfold_locales
  fix f :: "'l log_file" and l :: 'l and out
  show "snd (file_write out l f) \<longleftrightarrow> out = IoOk" by (simp add: file_write_def)
  show "clean_file f \<Longrightarrow> parsed (fst (file_write IoOk l f)) = parsed f @ [l]"
    unfolding file_write_def fst_conv by (simp add: parsed_append_clean parsed_written del: written.simps)
  show "clean_file f \<Longrightarrow> clean_file (fst (file_write IoOk l f))"
    by (simp add: file_write_def clean_file_def)
  show "clean_file f \<Longrightarrow>
      parsed (fst (file_write out l f)) = parsed f \<or> parsed (fst (file_write out l f)) = parsed f @ [l]"
    unfolding file_write_def fst_conv by (simp add: parsed_append_clean parsed_written)
qed

text \<open>A record written behind a torn tail is on a line that does not parse: it is lost.\<close>

lemma parsed_after_torn:
  assumes "clean_file f"
  shows "parsed (f @ [Torn] @ written IoOk l @ g) = parsed f @ parsed g"
proof -
  have "clean_file (f @ [Torn, Whole l, Newline])" by (simp add: clean_file_def)
  moreover have "parsed [Torn, Whole l, Newline] = []" by (simp add: parsed_def)
  ultimately show ?thesis
    using parsed_append_clean [of "f @ [Torn, Whole l, Newline]" g]
      parsed_append_clean [OF assms, of "[Torn, Whole l, Newline]"]
    by simp
qed

lemma parsed_after_missing_newline:
  assumes "clean_file f"
  shows "parsed (f @ [Whole k] @ written IoOk l @ g) = parsed f @ parsed g"
proof -
  have "clean_file (f @ [Whole k, Whole l, Newline])" by (simp add: clean_file_def)
  moreover have "parsed [Whole k, Whole l, Newline] = []" by (simp add: parsed_def)
  ultimately show ?thesis
    using parsed_append_clean [of "f @ [Whole k, Whole l, Newline]" g]
      parsed_append_clean [OF assms, of "[Whole k, Whole l, Newline]"]
    by simp
qed

end
