(* ===== verification/Journal.thy ===== *)
theory Journal
  imports AppendLog Wire
begin

text \<open>
  The settlement journal (\<open>x402/journal.go\<close>) and the outbox that publishes it
  (\<open>x402/outbox.go\<close>). A journal is the file and the memory Open rebuilds from it: the
  entries in order, their index by ID and the published set. Every write takes the outcome
  of the operating system as its first argument. The sink is external: a function from its
  state and an entry to its new state and error.
\<close>

section \<open>Records\<close>

record decision_record =
  dr_nonce :: string
  dr_amount :: string
  dr_risk_score :: real
  dr_stage :: int
  dr_asks_so_far :: int
  dr_mandate_id :: string
  dr_action :: int
  dr_code :: string
  dr_settled :: bool

record revocation_record =
  rr_mandate_id :: string
  rr_delegator :: string
  rr_signature :: string

record journal_entry =
  je_id :: string
  je_payer :: string
  je_amount :: string
  je_tx_hash :: string
  je_network :: string
  je_at :: int
  je_kind :: string
  je_receipt :: "signed_receipt_json option"
  je_decision :: "decision_record option"
  je_revocation :: "revocation_record option"

text \<open>The two forms of a line: a bare entry, or a published marker.\<close>

datatype jline = LEntry journal_entry | LPublished string

record journal_mem =
  jm_entries :: "journal_entry list"
  jm_index :: "string \<rightharpoonup> nat"
  jm_published :: "string set"

record journal =
  jr_file :: "jline log_file"
  jr_mem :: journal_mem

definition empty_mem :: journal_mem where
  "empty_mem = \<lparr>jm_entries = [], jm_index = Map.empty, jm_published = {}\<rparr>"

section \<open>Operations\<close>

definition journal_record :: "journal_mem \<Rightarrow> journal_entry \<Rightarrow> journal_mem" where
  "journal_record j e =
     (if jm_index j (je_id e) \<noteq> None then j
      else j\<lparr>jm_index := (jm_index j)(je_id e \<mapsto> length (jm_entries j)),
             jm_entries := jm_entries j @ [e]\<rparr>)"

fun apply_jline :: "journal_mem \<Rightarrow> jline \<Rightarrow> journal_mem" where
  "apply_jline j (LPublished i) = j\<lparr>jm_published := insert i (jm_published j)\<rparr>"
| "apply_jline j (LEntry e) = journal_record j e"

text \<open>\<open>replay\<close>, and \<open>Open\<close> of a file (\<open>None\<close> when the operating system refuses).\<close>

definition journal_replay :: "jline log_file \<Rightarrow> journal_mem" where
  "journal_replay f = foldl apply_jline empty_mem (parsed f)"

definition journal_open :: "jline log_file option \<Rightarrow> journal result" where
  "journal_open fo =
     (case fo of
        None \<Rightarrow> Inl ''x402: open journal''
      | Some f \<Rightarrow> Inr \<lparr>jr_file = f, jr_mem = journal_replay f\<rparr>)"

text \<open>\<open>writeLine\<close>: \<open>None\<close> is a nil error.\<close>

definition write_line :: "io \<Rightarrow> jline \<Rightarrow> journal \<Rightarrow> string option \<times> journal" where
  "write_line out l j =
     (let (f, ok) = file_write out l (jr_file j) in
      (if ok then None
       else if out = IoSyncFail then Some ''x402: fsync journal'' else Some ''x402: write journal'',
       j\<lparr>jr_file := f\<rparr>))"

definition journal_append :: "io \<Rightarrow> journal_entry \<Rightarrow> journal \<Rightarrow> string option \<times> journal" where
  "journal_append out e j =
     (if jm_index (jr_mem j) (je_id e) \<noteq> None then (None, j)
      else case write_line out (LEntry e) j of
             (Some err, j') \<Rightarrow> (Some err, j')
           | (None, j') \<Rightarrow> (None, j'\<lparr>jr_mem := journal_record (jr_mem j') e\<rparr>))"

definition mark_published :: "io \<Rightarrow> string \<Rightarrow> journal \<Rightarrow> string option \<times> journal" where
  "mark_published out i j =
     (if i \<in> jm_published (jr_mem j) then (None, j)
      else case write_line out (LPublished i) j of
             (Some err, j') \<Rightarrow> (Some err, j')
           | (None, j') \<Rightarrow>
               (None, j'\<lparr>jr_mem := (jr_mem j')\<lparr>jm_published := insert i (jm_published (jr_mem j'))\<rparr>\<rparr>))"

definition unpublished :: "journal \<Rightarrow> journal_entry list" where
  "unpublished j = filter (\<lambda>e. je_id e \<notin> jm_published (jr_mem j)) (jm_entries (jr_mem j))"

definition entries :: "journal \<Rightarrow> journal_entry list" where
  "entries j = jm_entries (jr_mem j)"

section \<open>outbox.go\<close>

type_synonym 's sink = "'s \<Rightarrow> journal_entry \<Rightarrow> 's \<times> string option"

definition outbox_interval :: "int \<Rightarrow> int" where
  "outbox_interval i = (if i \<le> 0 then ns_per_second else i)"

text \<open>The loop of \<open>drain\<close> over its snapshot of the unpublished entries.\<close>

fun drain_list ::
    "'s sink \<Rightarrow> (string \<Rightarrow> io) \<Rightarrow> journal_entry list \<Rightarrow> 's \<times> journal \<Rightarrow> 's \<times> journal" where
  "drain_list publish outs [] (s, j) = (s, j)"
| "drain_list publish outs (e # es) (s, j) =
     (case publish s e of
        (s', Some err) \<Rightarrow> (s', j)
      | (s', None) \<Rightarrow> (case mark_published (outs (je_id e)) (je_id e) j of
          (Some err, j') \<Rightarrow> (s', j')
        | (None, j') \<Rightarrow> drain_list publish outs es (s', j')))"

definition drain :: "'s sink \<Rightarrow> (string \<Rightarrow> io) \<Rightarrow> 's \<times> journal \<Rightarrow> 's \<times> journal" where
  "drain publish outs sj = drain_list publish outs (unpublished (snd sj)) sj"

section \<open>The memory is well formed\<close>

definition mem_wf :: "journal_mem \<Rightarrow> bool" where
  "mem_wf m \<longleftrightarrow>
     distinct (map je_id (jm_entries m)) \<and>
     (\<forall>i k. jm_index m i = Some k \<longleftrightarrow> k < length (jm_entries m) \<and> je_id (jm_entries m ! k) = i)"

lemma mem_wf_empty [simp]: "mem_wf empty_mem"
  by (simp add: mem_wf_def empty_mem_def)

lemma mem_wf_index_None:
  assumes "mem_wf m"
  shows "jm_index m i = None \<longleftrightarrow> i \<notin> je_id ` set (jm_entries m)"
proof -
  have "jm_index m i = None \<longleftrightarrow> (\<forall>k. jm_index m i \<noteq> Some k)" by (cases "jm_index m i") simp_all
  also have "\<dots> \<longleftrightarrow> (\<forall>k<length (jm_entries m). je_id (jm_entries m ! k) \<noteq> i)"
    using assms by (simp add: mem_wf_def)
  also have "\<dots> \<longleftrightarrow> i \<notin> je_id ` set (jm_entries m)" by (fastforce simp: in_set_conv_nth)
  finally show ?thesis .
qed

lemma index_snoc:
  assumes idx: "\<And>i k. ix i = Some k \<longleftrightarrow> k < length xs \<and> f (xs ! k) = i"
    and new: "f x \<notin> f ` set xs"
  shows "(ix(f x \<mapsto> length xs)) i = Some k \<longleftrightarrow> k < length (xs @ [x]) \<and> f ((xs @ [x]) ! k) = i"
proof (cases "k < length xs")
  case True
  then have "f (xs ! k) \<in> f ` set xs" by simp
  with new have "f (xs ! k) \<noteq> f x" by metis
  with True idx [of i k] show ?thesis by (auto simp: nth_append)
next
  case False
  then have "ix i \<noteq> Some k" using idx [of i k] by blast
  with False show ?thesis by (auto simp: nth_append less_Suc_eq)
qed

lemma mem_wf_record [go_inv]:
  assumes "mem_wf m"
  shows "mem_wf (journal_record m e)"
proof (cases "jm_index m (je_id e)")
  case None
  with assms have new: "je_id e \<notin> je_id ` set (jm_entries m)" by (simp add: mem_wf_index_None)
  have idx: "jm_index m i = Some k \<longleftrightarrow> k < length (jm_entries m) \<and> je_id (jm_entries m ! k) = i" for i k
    using assms unfolding mem_wf_def by blast
  have rec: "jm_entries (journal_record m e) = jm_entries m @ [e]"
      "jm_index (journal_record m e) = (jm_index m)(je_id e \<mapsto> length (jm_entries m))"
    using None by (simp_all add: journal_record_def)
  have "distinct (map je_id (jm_entries m @ [e]))" using assms new by (simp add: mem_wf_def)
  then show ?thesis
    unfolding mem_wf_def rec using index_snoc [OF idx new] by blast
qed (use assms in \<open>simp add: journal_record_def\<close>)

lemma mem_wf_apply [go_inv]: "mem_wf m \<Longrightarrow> mem_wf (apply_jline m l)"
  by (cases l) (simp_all add: mem_wf_record, simp add: mem_wf_def)

lemma mem_wf_replay: "mem_wf (journal_replay f)"
proof -
  have "mem_wf m \<Longrightarrow> mem_wf (foldl apply_jline m ls)" for m ls
    by (induction ls arbitrary: m) (simp_all add: mem_wf_apply)
  then show ?thesis by (simp add: journal_replay_def)
qed

section \<open>The journal is a replayed log\<close>

interpretation jlog: replayed_log clean_file parsed file_write apply_jline empty_mem ..

lemma jlog_replayed: "jlog.replayed f = journal_replay f"
  by (simp add: jlog.replayed_def journal_replay_def)

definition journal_synced :: "journal \<Rightarrow> bool" where
  "journal_synced j \<longleftrightarrow> clean_file (jr_file j) \<and> jr_mem j = journal_replay (jr_file j)"

lemma journal_synced_iff: "journal_synced j \<longleftrightarrow> jlog.synced (jr_file j) (jr_mem j)"
  by (simp add: journal_synced_def jlog.synced_def jlog_replayed)

text \<open>What the two writes do to the file and the memory, together.\<close>

datatype jop = JAppend journal_entry | JMark string

fun jop_line :: "jop \<Rightarrow> jline" where
  "jop_line (JAppend e) = LEntry e"
| "jop_line (JMark i) = LPublished i"

fun jop_done :: "jop \<Rightarrow> journal_mem \<Rightarrow> bool" where
  "jop_done (JAppend e) m \<longleftrightarrow> jm_index m (je_id e) \<noteq> None"
| "jop_done (JMark i) m \<longleftrightarrow> i \<in> jm_published m"

fun jop_run :: "io \<Rightarrow> jop \<Rightarrow> journal \<Rightarrow> string option \<times> journal" where
  "jop_run out (JAppend e) j = journal_append out e j"
| "jop_run out (JMark i) j = mark_published out i j"

lemma jop_done_apply: "jop_done oper m \<Longrightarrow> apply_jline m (jop_line oper) = m"
  by (cases oper) (auto simp: journal_record_def insert_absorb)

lemma jop_run_cases:
  "jop_run out oper j =
     (if jop_done oper (jr_mem j) then (None, j)
      else if out = IoOk then
        (None, \<lparr>jr_file = fst (file_write IoOk (jop_line oper) (jr_file j)),
               jr_mem = apply_jline (jr_mem j) (jop_line oper)\<rparr>)
      else (Some (if out = IoSyncFail then ''x402: fsync journal'' else ''x402: write journal''),
            j\<lparr>jr_file := fst (file_write out (jop_line oper) (jr_file j))\<rparr>))"
  by (cases oper; cases j)
    (auto simp: journal_append_def mark_published_def write_line_def file_write_def)

definition jop_step :: "journal \<Rightarrow> jop \<Rightarrow> journal" where
  "jop_step j oper = snd (jop_run IoOk oper j)"

interpretation jmach: machine jop_step "\<lambda>_ _. True" journal_synced
proof unfold_locales
  fix j oper
  assume "journal_synced j"
  then show "journal_synced (jop_step j oper)"
    using jlog.synced_write [of "jr_file j" "jr_mem j" "jop_line oper"]
    by (auto simp: jop_step_def jop_run_cases journal_synced_iff)
qed

lemma allowed_True [simp]: "allowed step (\<lambda>_ _. True) s es"
  by (induction es arbitrary: s) simp_all

lemma synced_crash_atomic:
  assumes "journal_synced j"
  shows "journal_replay (jr_file (snd (jop_run out oper j)))
    \<in> {jr_mem j, apply_jline (jr_mem j) (jop_line oper)}"
  using jlog.synced_crash [of "jr_file j" "jr_mem j" out "jop_line oper"] assms
  by (auto simp: jop_run_cases journal_synced_iff jlog_replayed jlog.synced_def)

section \<open>Outbox: nothing is marked before it is delivered\<close>

text \<open>The lines a file could ever show, whatever was torn around them.\<close>

definition whole_lines :: "'l log_file \<Rightarrow> 'l set" where
  "whole_lines f = {l. Whole l \<in> set f}"

lemma scan_lines_sub: "x \<in> set (scan_lines f cur) \<Longrightarrow> set x \<subseteq> set f \<union> set cur"
  by (induction f cur rule: scan_lines.induct) (auto split: if_splits)

lemma parse_line_Some: "parse_line x = Some l \<Longrightarrow> x = [Whole l]"
  by (cases x rule: parse_line.cases) auto

lemma parsed_whole: "set (parsed f) \<subseteq> whole_lines f"
proof
  fix l
  assume "l \<in> set (parsed f)"
  then obtain x where "x \<in> set (scan_lines f [])" and "parse_line x = Some l"
    by (auto simp: parsed_def split: option.splits)
  then show "l \<in> whole_lines f"
    using scan_lines_sub [of x f "[]"] parse_line_Some [of x l] by (simp add: whole_lines_def)
qed

lemma whole_lines_write: "whole_lines (fst (file_write out l f)) \<subseteq> insert l (whole_lines f)"
  by (cases "(out, l)" rule: written.cases) (auto simp: file_write_def whole_lines_def)

lemma published_replay: "jm_published (journal_replay f) = {i. LPublished i \<in> set (parsed f)}"
proof -
  have "jm_published (foldl apply_jline m ls) = jm_published m \<union> {i. LPublished i \<in> set ls}" for m ls
  proof (induction ls arbitrary: m)
    case (Cons l ls)
    then show ?case by (cases l) (auto simp: journal_record_def)
  qed simp
  then show ?thesis by (simp add: journal_replay_def empty_mem_def)
qed

text \<open>
  The outbox's world: the gateway appends with any outcome of the disk, the outbox drains
  with any answers of the sink and the disk, and the process may restart at any point.
\<close>

datatype outbox_event = OAppend io journal_entry | ODrain "string \<Rightarrow> io" | ORestart

fun outbox_step :: "'s sink \<Rightarrow> 's \<times> journal \<Rightarrow> outbox_event \<Rightarrow> 's \<times> journal" where
  "outbox_step publish (s, j) (OAppend out e) = (s, snd (journal_append out e j))"
| "outbox_step publish (s, j) (ODrain outs) = drain publish outs (s, j)"
| "outbox_step publish (s, j) ORestart = (s, \<lparr>jr_file = jr_file j, jr_mem = journal_replay (jr_file j)\<rparr>)"

text \<open>What a sink is relied on for: a nil error means delivered, and delivered stays delivered.\<close>

definition sink_law :: "'s sink \<Rightarrow> ('s \<Rightarrow> string set) \<Rightarrow> bool" where
  "sink_law publish delivered \<longleftrightarrow>
     (\<forall>s e. snd (publish s e) = None \<longrightarrow> je_id e \<in> delivered (fst (publish s e))) \<and>
     (\<forall>s e. delivered s \<subseteq> delivered (fst (publish s e)))"

definition outbox_inv :: "('s \<Rightarrow> string set) \<Rightarrow> 's \<times> journal \<Rightarrow> bool" where
  "outbox_inv delivered sj \<longleftrightarrow>
     jm_published (jr_mem (snd sj)) \<subseteq> delivered (fst sj) \<and>
     {i. LPublished i \<in> whole_lines (jr_file (snd sj))} \<subseteq> delivered (fst sj)"

lemma outbox_inv_mono:
  "outbox_inv delivered (s, j) \<Longrightarrow> delivered s \<subseteq> delivered s' \<Longrightarrow> outbox_inv delivered (s', j)"
  by (auto simp: outbox_inv_def)

lemma outbox_inv_append:
  "outbox_inv delivered (s, j) \<Longrightarrow> outbox_inv delivered (s, snd (journal_append out e j))"
  using jop_run_cases [of out "JAppend e" j] whole_lines_write [of out "LEntry e" "jr_file j"]
    whole_lines_write [of IoOk "LEntry e" "jr_file j"]
  by (auto simp: outbox_inv_def journal_record_def)

lemma outbox_inv_mark:
  "outbox_inv delivered (s, j) \<Longrightarrow> i \<in> delivered s \<Longrightarrow>
    outbox_inv delivered (s, snd (mark_published out i j))"
  using jop_run_cases [of out "JMark i" j] whole_lines_write [of out "LPublished i" "jr_file j"]
    whole_lines_write [of IoOk "LPublished i" "jr_file j"]
  by (auto simp: outbox_inv_def)

lemma outbox_inv_drain_list:
  assumes law: "sink_law publish delivered"
  shows "outbox_inv delivered (s, j) \<Longrightarrow> outbox_inv delivered (drain_list publish outs es (s, j))"
proof (induction es arbitrary: s j)
  case (Cons e es)
  obtain s' er where p: "publish s e = (s', er)" by (cases "publish s e")
  obtain me j' where m: "mark_published (outs (je_id e)) (je_id e) j = (me, j')"
    by (cases "mark_published (outs (je_id e)) (je_id e) j")
  have law2: "\<forall>s e. delivered s \<subseteq> delivered (fst (publish s e))"
    and law1: "\<forall>s e. snd (publish s e) = None \<longrightarrow> je_id e \<in> delivered (fst (publish s e))"
    using law unfolding sink_law_def by blast+
  have step: "outbox_inv delivered (s', j)"
    using outbox_inv_mono [OF Cons.prems] law2 p by (metis fst_conv)
  show ?case
  proof (cases er)
    case None
    then have "je_id e \<in> delivered s'" using law1 p by (metis fst_conv snd_conv)
    then have "outbox_inv delivered (s', j')" using outbox_inv_mark [OF step] m by (metis snd_conv)
    with p m None Cons.IH show ?thesis by (auto split: option.split)
  qed (use p step in simp)
qed simp

lemma outbox_inv_step:
  assumes "sink_law publish delivered" and "outbox_inv delivered sj"
  shows "outbox_inv delivered (outbox_step publish sj ev)"
proof (cases sj)
  case (Pair s j)
  show ?thesis
  proof (cases ev)
    case ORestart
    have "{i. LPublished i \<in> set (parsed (jr_file j))} \<subseteq> delivered s"
      using assms(2) Pair parsed_whole [of "jr_file j"] by (auto simp: outbox_inv_def)
    with ORestart Pair assms show ?thesis by (simp add: outbox_inv_def published_replay)
  qed (use Pair assms in \<open>simp_all add: outbox_inv_append drain_def outbox_inv_drain_list\<close>)
qed

interpretation outbox: machine "outbox_step publish"
  "\<lambda>_ _. sink_law publish delivered" "outbox_inv delivered" for publish delivered
  by unfold_locales (rule outbox_inv_step)

lemma allowed_const: "P \<Longrightarrow> allowed step (\<lambda>_ _. P) s es"
  by (induction es arbitrary: s) simp_all

text \<open>With a healthy sink and disk, one pass delivers everything, in order.\<close>

definition log_sink :: "journal_entry list \<Rightarrow> journal_entry \<Rightarrow> journal_entry list \<times> string option" where
  "log_sink s e = (s @ [e], None)"

lemma mark_ok:
  "i \<notin> jm_published (jr_mem j) \<Longrightarrow> mark_published IoOk i j =
    (None, \<lparr>jr_file = fst (file_write IoOk (LPublished i) (jr_file j)),
            jr_mem = (jr_mem j)\<lparr>jm_published := insert i (jm_published (jr_mem j))\<rparr>\<rparr>)"
  using jop_run_cases [of IoOk "JMark i" j] by simp

lemma drain_list_healthy:
  assumes "distinct (map je_id es)" and "\<forall>e\<in>set es. je_id e \<notin> jm_published (jr_mem j)"
  shows "fst (drain_list log_sink (\<lambda>_. IoOk) es (s, j)) = s @ es \<and>
    jm_published (jr_mem (snd (drain_list log_sink (\<lambda>_. IoOk) es (s, j))))
      = jm_published (jr_mem j) \<union> je_id ` set es \<and>
    jm_entries (jr_mem (snd (drain_list log_sink (\<lambda>_. IoOk) es (s, j)))) = jm_entries (jr_mem j)"
  using assms
proof (induction es arbitrary: s j)
  case (Cons e es)
  let ?j = "\<lparr>jr_file = fst (file_write IoOk (LPublished (je_id e)) (jr_file j)),
            jr_mem = (jr_mem j)\<lparr>jm_published := insert (je_id e) (jm_published (jr_mem j))\<rparr>\<rparr>"
  have "drain_list log_sink (\<lambda>_. IoOk) (e # es) (s, j) = drain_list log_sink (\<lambda>_. IoOk) es (s @ [e], ?j)"
    using Cons.prems by (simp add: log_sink_def mark_ok)
  moreover have "\<forall>e'\<in>set es. je_id e' \<notin> jm_published (jr_mem ?j)"
    using Cons.prems by (auto simp: image_iff)
  ultimately show ?case using Cons.IH [of ?j "s @ [e]"] Cons.prems by simp
qed simp

section \<open>Properties\<close>

text \<open>
  C18. A restart restores the journal exactly: after any sequence of successful appends and
  published marks on a journal opened over a file that ends in a newline, replaying the
  file rebuilds the same entries in the same order, the same index and the same published
  set, and the index is exact with one entry per ID.
\<close>

theorem journal_restart_restores:
  assumes "clean_file f" and "journal_open (Some f) = Inr j"
  shows "journal_open (Some (jr_file (run jop_step j ops))) = Inr (run jop_step j ops) \<and>
    mem_wf (jr_mem (run jop_step j ops))"
proof -
  have "journal_synced j" using assms by (auto simp: journal_open_def journal_synced_def)
  then have "journal_synced (run jop_step j ops)" by (rule jmach.run_inv) simp
  then show ?thesis by (cases "run jop_step j ops") (simp add: journal_open_def journal_synced_def mem_wf_replay)
qed

definition sample_entry :: "string \<Rightarrow> journal_entry" where
  "sample_entry i = \<lparr>je_id = i, je_payer = '''', je_amount = ''60'', je_tx_hash = i, je_network = '''',
     je_at = 0, je_kind = '''', je_receipt = None, je_decision = None, je_revocation = None\<rparr>"

lemma sample_entry_id [simp]: "je_id (sample_entry i) = i"
  by (simp add: sample_entry_def)

definition sample_journal :: journal where
  "sample_journal = \<lparr>jr_file = [], jr_mem = journal_replay []\<rparr>"

lemma sample_journal_open [simp]: "journal_open (Some []) = Inr sample_journal"
  by (simp add: journal_open_def sample_journal_def)

theorem journal_restart_witness:
  "mem_wf (jr_mem (run jop_step sample_journal
     [JAppend (sample_entry ''t1''), JMark ''t1'', JAppend (sample_entry ''t1''), JAppend (sample_entry ''t2'')]))"
  using journal_restart_restores [of "[]" sample_journal "[JAppend (sample_entry ''t1''), JMark ''t1'',
      JAppend (sample_entry ''t1''), JAppend (sample_entry ''t2'')]"]
  by (simp add: clean_file_def del: run.simps)

text \<open>
  C19. A crash is atomic: whatever becomes of one more write after such a sequence (nothing
  written, a torn prefix, a missing newline, a failed fsync), the next open sees the
  journal either without that record or with it, never anything else.
\<close>

theorem journal_crash_is_atomic:
  assumes "clean_file f" and "journal_open (Some f) = Inr j"
    and "journal_open (Some (jr_file (snd (jop_run out oper (run jop_step j ops))))) = Inr j'"
  shows "jr_mem j' = jr_mem (run jop_step j ops) \<or> jr_mem j' = jr_mem (jop_step (run jop_step j ops) oper)"
proof -
  let ?j = "run jop_step j ops"
  have "journal_synced j" using assms by (auto simp: journal_open_def journal_synced_def)
  then have "journal_synced ?j" by (rule jmach.run_inv) simp
  from synced_crash_atomic [OF this, of out oper] assms(3)
  have "jr_mem j' = jr_mem ?j \<or> jr_mem j' = apply_jline (jr_mem ?j) (jop_line oper)"
    by (auto simp: journal_open_def)
  moreover have "jr_mem (jop_step ?j oper) = apply_jline (jr_mem ?j) (jop_line oper)"
    by (auto simp: jop_step_def jop_run_cases jop_done_apply)
  ultimately show ?thesis by simp
qed



definition torn_journal :: journal where
  "torn_journal = \<lparr>jr_file = [Torn], jr_mem = journal_replay [Torn]\<rparr>"

theorem journal_crash_witness:
  "jr_mem torn_journal = jr_mem sample_journal
   \<or> jr_mem torn_journal = jr_mem (jop_step sample_journal (JAppend (sample_entry ''t1'')))"
  using journal_crash_is_atomic [of "[]" sample_journal "IoShort CutInside" "JAppend (sample_entry ''t1'')" "[]"
      torn_journal]
  by (simp add: clean_file_def journal_open_def sample_journal_def torn_journal_def journal_append_def
      write_line_def file_write_def journal_replay_def parsed_def empty_mem_def)

text \<open>
  The outbox delivers at least once and never skips: from an empty journal, after any
  interleaving of appends, drain passes and restarts, with any failures of the disk and the
  sink, an entry that is no longer listed as unpublished has been delivered to the sink.
\<close>

theorem outbox_at_least_once:
  assumes "sink_law publish delivered"
    and "run (outbox_step publish) (s, sample_journal) evs = (s', j')"
    and "e \<in> set (entries j')" and "e \<notin> set (unpublished j')"
  shows "je_id e \<in> delivered s'"
proof -
  have "outbox_inv delivered (s, sample_journal)"
    by (simp add: outbox_inv_def sample_journal_def whole_lines_def published_replay parsed_def)
  then have "outbox_inv delivered (s', j')"
    using outbox.run_inv [where publish = publish and delivered = delivered and s = "(s, sample_journal)"
        and es = evs] assms(1,2) by (simp add: allowed_const)
  with assms(3,4) show ?thesis by (auto simp: outbox_inv_def entries_def unpublished_def)
qed

theorem outbox_at_least_once_witness:
  "''t1'' \<in> je_id ` set (fst (run (outbox_step log_sink) ([], sample_journal)
     [OAppend IoOk (sample_entry ''t1''), ODrain (\<lambda>_. IoOk), ORestart]))"
proof -
  have law: "sink_law log_sink (\<lambda>s. je_id ` set s)"
    by (auto simp: sink_law_def log_sink_def)
  obtain s' j' where r: "run (outbox_step log_sink) ([], sample_journal)
      [OAppend IoOk (sample_entry ''t1''), ODrain (\<lambda>_. IoOk), ORestart] = (s', j')"
    by (metis prod.exhaust)
  then have "sample_entry ''t1'' \<in> set (entries j')" and "sample_entry ''t1'' \<notin> set (unpublished j')"
    by (auto simp: sample_journal_def journal_append_def write_line_def file_write_def journal_replay_def
        parsed_def empty_mem_def journal_record_def drain_def unpublished_def log_sink_def
        mark_published_def entries_def)
  from outbox_at_least_once [OF law r this] show ?thesis unfolding r by simp
qed

text \<open>
  One healthy pass empties the backlog in journal order: with a sink and a disk that
  accept everything, a drain delivers exactly the unpublished entries, in order, and leaves
  none.
\<close>

theorem drain_delivers_in_order:
  assumes "mem_wf (jr_mem j)"
  shows "fst (drain log_sink (\<lambda>_. IoOk) (s, j)) = s @ unpublished j \<and>
    unpublished (snd (drain log_sink (\<lambda>_. IoOk) (s, j))) = []"
proof -
  have "distinct (map je_id (jm_entries (jr_mem j)))" using assms by (simp add: mem_wf_def)
  then have d: "distinct (map je_id (unpublished j))" by (simp add: unpublished_def distinct_map_filter)
  have n: "\<forall>e\<in>set (unpublished j). je_id e \<notin> jm_published (jr_mem j)" by (simp add: unpublished_def)
  from drain_list_healthy [OF d n, of s] show ?thesis
    by (auto simp: drain_def) (auto simp: unpublished_def filter_empty_conv)
qed

theorem drain_delivers_witness:
  "fst (drain log_sink (\<lambda>_. IoOk) ([], jop_step sample_journal (JAppend (sample_entry ''t1''))))
     = unpublished (jop_step sample_journal (JAppend (sample_entry ''t1'')))"
proof -
  have "mem_wf (jr_mem (jop_step sample_journal (JAppend (sample_entry ''t1''))))"
    by (simp add: jop_step_def jop_run_cases mem_wf_apply del: jop_run.simps)
      (simp add: sample_journal_def mem_wf_replay mem_wf_record)
  from drain_delivers_in_order [OF this, of "[]"] show ?thesis by simp
qed

text \<open>
  The record after a torn tail is lost: a journal reopened after a crash that tore its
  last line keeps that line without a newline, so the next append, although it succeeds and
  is acknowledged, lands on the torn line, and no later open will ever see it.
\<close>

theorem append_after_torn_tail_is_lost:
  assumes "clean_file f" and "journal_open (Some (f @ [Torn])) = Inr j"
    and "jm_index (jr_mem j) (je_id e) = None"
  shows "fst (journal_append IoOk e j) = None \<and>
    journal_replay (jr_file (snd (journal_append IoOk e j)) @ g) = journal_replay (f @ g)"
proof -
  have j: "j = \<lparr>jr_file = f @ [Torn], jr_mem = journal_replay (f @ [Torn])\<rparr>"
    using assms(2) by (simp add: journal_open_def)
  have "parsed (f @ [Torn] @ written IoOk (LEntry e) @ g) = parsed (f @ g)"
    using parsed_after_torn [OF assms(1)] parsed_append_clean [OF assms(1)] by simp
  then show ?thesis
    using assms(3) by (simp add: j journal_append_def write_line_def file_write_def journal_replay_def)
qed

theorem append_after_torn_tail_witness:
  "fst (journal_append IoOk (sample_entry ''t2'') torn_journal) = None \<and>
   journal_replay (jr_file (snd (journal_append IoOk (sample_entry ''t2'') torn_journal))) = journal_replay []"
  using append_after_torn_tail_is_lost [of "[]" torn_journal "sample_entry ''t2''" "[]"]
  by (simp add: clean_file_def journal_open_def torn_journal_def journal_replay_def parsed_def empty_mem_def)

end
