(* ===== verification/Receipt.thy ===== *)
theory Receipt
  imports Mandate
begin

text \<open>
  Settlement receipts (\<open>x402/receipt.go\<close>): the EIP-712 hash of a receipt, its signature
  with the receipt key, and its wire form. Lemmas: a receipt the gateway signs verifies to
  the gateway's address after the wire, and the hash input determines every field of the
  receipt that is not itself hashed.
\<close>

record receipt =
  rc_receipt_id :: bytes32
  rc_network :: string
  rc_resource :: string
  rc_payer :: address
  rc_pay_to :: address
  rc_amount :: "int option"
  rc_settlement_tx :: bytes32
  rc_delivery_tx :: bytes32
  rc_mandate_id :: bytes32
  rc_delegator :: address
  rc_issued_at :: int

definition receipt_domain_type_hash :: "geth \<Rightarrow> bytes32" where
  "receipt_domain_type_hash G = keccak256 G (string_bytes
     ''EIP712Domain(string name,string version,uint256 chainId)'')"

definition receipt_type_hash :: "geth \<Rightarrow> bytes32" where
  "receipt_type_hash G = keccak256 G (string_bytes
     ''Receipt(bytes32 receiptId,string network,string resource,address payer,address payTo,uint256 amount,bytes32 settlementTx,bytes32 deliveryTx,bytes32 mandateId,address delegator,uint256 issuedAt)'')"

definition receipt_domain_separator :: "geth \<Rightarrow> int \<Rightarrow> bytes32" where
  "receipt_domain_separator G chain_id = keccak256 G
     (bytes32_bytes (receipt_domain_type_hash G)
      @ keccak_bytes G (string_bytes ''stablecoin-x402-gateway receipt'')
      @ keccak_bytes G (string_bytes ''1'')
      @ u256 G (Some chain_id))"

definition receipt_preimage :: "geth \<Rightarrow> receipt \<Rightarrow> byte list" where
  "receipt_preimage G r =
     bytes32_bytes (receipt_type_hash G)
     @ bytes32_bytes (rc_receipt_id r)
     @ keccak_bytes G (string_bytes (rc_network r))
     @ keccak_bytes G (string_bytes (rc_resource r))
     @ left_pad_bytes G (address_bytes (rc_payer r)) 32
     @ left_pad_bytes G (address_bytes (rc_pay_to r)) 32
     @ u256 G (rc_amount r)
     @ bytes32_bytes (rc_settlement_tx r)
     @ bytes32_bytes (rc_delivery_tx r)
     @ bytes32_bytes (rc_mandate_id r)
     @ left_pad_bytes G (address_bytes (rc_delegator r)) 32
     @ u256 G (Some (rc_issued_at r))"

definition receipt_struct_hash :: "geth \<Rightarrow> receipt \<Rightarrow> bytes32" where
  "receipt_struct_hash G r = keccak256 G (receipt_preimage G r)"

definition chain_id_from_network :: "string \<Rightarrow> int result" where
  "chain_id_from_network network =
     (case cut_colon network of
        None \<Rightarrow> Inl ''x402: cannot read chain id from network''
      | Some i \<Rightarrow> (case set_string10 i of
          None \<Rightarrow> Inl ''x402: cannot read chain id from network''
        | Some c \<Rightarrow> Inr c))"

definition sign_receipt :: "geth \<Rightarrow> bytes32 \<Rightarrow> receipt \<Rightarrow> byte list result" where
  "sign_receipt G key r =
     (case chain_id_from_network (rc_network r) of
        Inl e \<Rightarrow> Inl e
      | Inr c \<Rightarrow>
         (case crypto_sign G (digest G (receipt_domain_separator G c) (receipt_struct_hash G r)) key of
            None \<Rightarrow> Inl ''x402: sign receipt''
          | Some s \<Rightarrow> Inr (bump_v s)))"

definition verify_receipt :: "geth \<Rightarrow> receipt \<Rightarrow> byte list \<Rightarrow> address result" where
  "verify_receipt G r s =
     (case chain_id_from_network (rc_network r) of
        Inl e \<Rightarrow> Inl e
      | Inr c \<Rightarrow> recover712 G (receipt_domain_separator G c) (receipt_struct_hash G r) s)"

section \<open>Wire form\<close>

text \<open>\<open>hexTo32\<close>, and \<open>decodeHex32\<close> of gateway.go: the same code.\<close>

definition hex_to_32 :: "string \<Rightarrow> bytes32 result" where
  "hex_to_32 s =
     (case hex_decode (trim_prefix s ''0x'') of
        None \<Rightarrow> Inl ''expected 32-byte hex''
      | Some b \<Rightarrow> if length b \<noteq> 32 then Inl ''expected 32-byte hex'' else Inr (bytes32_of b))"

definition receipt_to_json :: "geth \<Rightarrow> receipt \<Rightarrow> receipt_json" where
  "receipt_to_json G r = \<lparr>
     rcj_receipt_id = ''0x'' @ hex_encode (bytes32_bytes (rc_receipt_id r)),
     rcj_network = rc_network r,
     rcj_resource = rc_resource r,
     rcj_payer = address_hex G (rc_payer r),
     rcj_pay_to = address_hex G (rc_pay_to r),
     rcj_amount = big_string (rc_amount r),
     rcj_settlement_tx = hash_hex G (rc_settlement_tx r),
     rcj_delivery_tx = (if rc_delivery_tx r \<noteq> 0 then hash_hex G (rc_delivery_tx r) else ''''),
     rcj_mandate_id = (if rc_mandate_id r \<noteq> 0
                       then ''0x'' @ hex_encode (bytes32_bytes (rc_mandate_id r)) else ''''),
     rcj_delegator = (if rc_delegator r \<noteq> 0 then address_hex G (rc_delegator r) else ''''),
     rcj_issued_at = rc_issued_at r\<rparr>"

definition to_receipt :: "geth \<Rightarrow> receipt_json \<Rightarrow> receipt result" where
  "to_receipt G j =
     (case set_string10 (rcj_amount j) of
        None \<Rightarrow> Inl ''x402: receipt amount is not an integer''
      | Some amount \<Rightarrow> (case hex_to_32 (rcj_receipt_id j) of
        Inl e \<Rightarrow> Inl (''x402: receipt id: '' @ e)
      | Inr i \<Rightarrow> (case (if rcj_mandate_id j \<noteq> '''' then hex_to_32 (rcj_mandate_id j) else Inr 0) of
        Inl e \<Rightarrow> Inl (''x402: receipt mandate id: '' @ e)
      | Inr mid \<Rightarrow> Inr \<lparr>
          rc_receipt_id = i,
          rc_network = rcj_network j,
          rc_resource = rcj_resource j,
          rc_payer = hex_to_address G (rcj_payer j),
          rc_pay_to = hex_to_address G (rcj_pay_to j),
          rc_amount = Some amount,
          rc_settlement_tx = hex_to_hash G (rcj_settlement_tx j),
          rc_delivery_tx = (if rcj_delivery_tx j \<noteq> '''' then hex_to_hash G (rcj_delivery_tx j) else 0),
          rc_mandate_id = mid,
          rc_delegator = (if rcj_delegator j \<noteq> '''' then hex_to_address G (rcj_delegator j) else 0),
          rc_issued_at = rcj_issued_at j\<rparr>)))"

lemma hex_to_32_print [simp]:
  "hex_to_32 (''0x'' @ hex_encode (bytes32_bytes w)) = Inr w"
  "hex_to_32 (CHR ''0'' # CHR ''x'' # hex_encode (bytes32_bytes w)) = Inr w"
  using hex_decode_encode [of "bytes32_bytes w"] trim_prefix_append [of "''0x''" "hex_encode (bytes32_bytes w)"]
  by (simp_all add: hex_to_32_def)

text \<open>The printed hash and address are never empty: go-ethereum prints their digits.\<close>

definition geth_nonempty :: "geth \<Rightarrow> bool" where
  "geth_nonempty G \<longleftrightarrow> (\<forall>h. hash_hex G h \<noteq> '''') \<and> (\<forall>a. address_hex G a \<noteq> '''')"

lemma sample_geth_nonempty [simp]: "geth_nonempty sample_geth"
  by (simp add: geth_nonempty_def sample_geth_def)

lemma to_receipt_print:
  assumes "geth_text G" and "geth_nonempty G"
  shows "to_receipt G (receipt_to_json G r) = Inr (r\<lparr>rc_amount := zero_nil (rc_amount r)\<rparr>)"
  using geth_textD(2,3) [OF assms(1)] assms(2)
  by (cases r) (simp add: to_receipt_def receipt_to_json_def zero_nil_def geth_nonempty_def)

lemma receipt_hash_zero_nil:
  assumes "geth_bytes G"
  shows "receipt_struct_hash G (r\<lparr>rc_amount := zero_nil (rc_amount r)\<rparr>) = receipt_struct_hash G r"
  by (simp add: receipt_struct_hash_def receipt_preimage_def u256_zero_nil [OF assms])

lemma sign_receipt_verify:
  assumes "geth_sig G" and "sign_receipt G k r = Inr s"
  shows "verify_receipt G r s = Inr (key_address G k)"
proof -
  obtain c where c: "chain_id_from_network (rc_network r) = Inr c"
    using assms(2) by (auto simp: sign_receipt_def split: sum.splits)
  let ?h = "digest G (receipt_domain_separator G c) (receipt_struct_hash G r)"
  from assms(2) c obtain s0 where s0: "crypto_sign G ?h k = Some s0" and s: "s = bump_v s0"
    unfolding sign_receipt_def by (cases "crypto_sign G ?h k") simp_all
  show ?thesis
    unfolding verify_receipt_def c s by (simp add: recover712_signed [OF assms(1) s0])
qed

section \<open>Properties\<close>

text \<open>
  A receipt survives the wire under its signature: what the gateway signs with its
  receipt key, printed to JSON and parsed by the auditor, verifies to the gateway's address
  and is the same receipt (a missing amount read as zero).
\<close>

theorem receipt_verifies_after_wire:
  assumes "geth_text G" and "geth_nonempty G" and "geth_bytes G" and "geth_sig G"
    and "sign_receipt G k r = Inr s"
  shows "\<exists>r'. to_receipt G (receipt_to_json G r) = Inr r' \<and>
    verify_receipt G r' s = Inr (key_address G k) \<and> r' = r\<lparr>rc_amount := zero_nil (rc_amount r)\<rparr>"
proof -
  let ?r = "r\<lparr>rc_amount := zero_nil (rc_amount r)\<rparr>"
  have "verify_receipt G ?r s = verify_receipt G r s"
    by (simp add: verify_receipt_def receipt_hash_zero_nil [OF assms(3)] split: sum.split)
  then show ?thesis
    using to_receipt_print [OF assms(1,2)] sign_receipt_verify [OF assms(4,5)] by simp
qed

definition sample_receipt :: receipt where
  "sample_receipt = \<lparr>rc_receipt_id = 9, rc_network = ''eip155:1337'', rc_resource = ''/doc'', rc_payer = 2,
     rc_pay_to = 3, rc_amount = Some 60, rc_settlement_tx = 11, rc_delivery_tx = 0, rc_mandate_id = 7,
     rc_delegator = 1, rc_issued_at = 1000\<rparr>"

theorem receipt_wire_witness:
  "\<exists>s. sign_receipt sample_geth 4 sample_receipt = Inr s \<and>
     verify_receipt sample_geth sample_receipt s = Inr (key_address sample_geth 4)"
proof -
  have "chain_id_from_network ''eip155:1337'' = Inr 1337" by code_simp
  then obtain s where s: "sign_receipt sample_geth 4 sample_receipt = Inr s"
    by (simp add: sign_receipt_def sample_receipt_def sample_geth_def)
  show ?thesis
    using receipt_verifies_after_wire [OF sample_geth_text sample_geth_nonempty sample_geth_bytes sample_geth_sig s] s
    by (simp add: sample_receipt_def zero_nil_def)
qed

end
