(* ===== verification/Token.thy ===== *)
theory Token
  imports Wallet
begin

text \<open>
  The tKRW contract (\<open>contracts/KRWTestStablecoin.sol\<close>), which the facilitator settles on
  and the ledger reconciles with. A function of the contract takes the caller and the state
  and returns the new state or the revert reason; uint256 values are naturals and the
  checked additions of Solidity 0.8 revert at \<open>2 ^ 256\<close>. The log is the list of Transfer
  events. ecrecover is a precompile of the chain, so it is an argument: from a digest,
  v, r and s to an address, zero on failure.

  Lemmas: every function keeps the supply equal to the sum of the balances, a used
  authorization stays used, and an authorization moves exactly its value, at most once.
\<close>

section \<open>State\<close>

record transfer_event =
  te_from :: address
  te_to :: address
  te_value :: nat

record token =
  tk_issuer :: address
  tk_pending_issuer :: address
  tk_paused :: bool
  tk_total_supply :: nat
  tk_balance_of :: "address \<Rightarrow> nat"
  tk_allowance :: "address \<Rightarrow> address \<Rightarrow> nat"
  tk_authorization_state :: "address \<Rightarrow> bytes32 \<Rightarrow> bool"
  tk_frozen :: "address \<Rightarrow> bool"
  tk_allowlist_enabled :: bool
  tk_allowed :: "address \<Rightarrow> bool"
  tk_domain_separator :: bytes32
  tk_log :: "transfer_event list"

type_synonym ecrecover = "bytes32 \<Rightarrow> byte \<Rightarrow> bytes32 \<Rightarrow> bytes32 \<Rightarrow> address"

definition uint256_max :: nat where
  "uint256_max = 2 ^ 256 - 1"

text \<open>\<open>m[k] += v\<close> and \<open>m[k] -= v\<close> on a mapping.\<close>

definition credit :: "(address \<Rightarrow> nat) \<Rightarrow> address \<Rightarrow> nat \<Rightarrow> address \<Rightarrow> nat" where
  "credit b a v = b(a := b a + v)"

definition debit :: "(address \<Rightarrow> nat) \<Rightarrow> address \<Rightarrow> nat \<Rightarrow> address \<Rightarrow> nat" where
  "debit b a v = b(a := b a - v)"

definition emit :: "address \<Rightarrow> address \<Rightarrow> nat \<Rightarrow> token \<Rightarrow> token" where
  "emit a b v t = t\<lparr>tk_log := tk_log t @ [\<lparr>te_from = a, te_to = b, te_value = v\<rparr>]\<rparr>"

section \<open>Issuance\<close>

definition token_new :: "address \<Rightarrow> bytes32 \<Rightarrow> token" where
  "token_new deployer domain = \<lparr>
     tk_issuer = deployer, tk_pending_issuer = 0, tk_paused = False, tk_total_supply = 0,
     tk_balance_of = (\<lambda>_. 0), tk_allowance = (\<lambda>_ _. 0), tk_authorization_state = (\<lambda>_ _. False),
     tk_frozen = (\<lambda>_. False), tk_allowlist_enabled = False, tk_allowed = (\<lambda>_. False),
     tk_domain_separator = domain, tk_log = []\<rparr>"

definition token_mint :: "address \<Rightarrow> address \<Rightarrow> nat \<Rightarrow> token \<Rightarrow> token result" where
  "token_mint caller to v t =
     (if caller \<noteq> tk_issuer t then Inl ''tKRW: not issuer''
      else if tk_paused t then Inl ''tKRW: paused''
      else if to = 0 then Inl ''tKRW: mint to zero''
      else if tk_allowlist_enabled t \<and> \<not> tk_allowed t to then Inl ''tKRW: recipient not allowed''
      else if tk_total_supply t + v > uint256_max then Inl ''panic: overflow''
      else if tk_balance_of t to + v > uint256_max then Inl ''panic: overflow''
      else Inr (emit 0 to v (t\<lparr>tk_total_supply := tk_total_supply t + v,
                              tk_balance_of := credit (tk_balance_of t) to v\<rparr>)))"

definition token_burn :: "address \<Rightarrow> address \<Rightarrow> nat \<Rightarrow> token \<Rightarrow> token result" where
  "token_burn caller from v t =
     (if caller \<noteq> tk_issuer t then Inl ''tKRW: not issuer''
      else if tk_paused t then Inl ''tKRW: paused''
      else if tk_balance_of t from < v then Inl ''tKRW: burn exceeds balance''
      else if tk_total_supply t < v then Inl ''panic: underflow''
      else Inr (emit from 0 v (t\<lparr>tk_balance_of := debit (tk_balance_of t) from v,
                                tk_total_supply := tk_total_supply t - v\<rparr>)))"

definition set_paused :: "address \<Rightarrow> bool \<Rightarrow> token \<Rightarrow> token result" where
  "set_paused caller p t =
     (if caller \<noteq> tk_issuer t then Inl ''tKRW: not issuer'' else Inr (t\<lparr>tk_paused := p\<rparr>))"

definition set_frozen :: "address \<Rightarrow> address \<Rightarrow> bool \<Rightarrow> token \<Rightarrow> token result" where
  "set_frozen caller a v t =
     (if caller \<noteq> tk_issuer t then Inl ''tKRW: not issuer''
      else Inr (t\<lparr>tk_frozen := (tk_frozen t)(a := v)\<rparr>))"

definition set_allowed :: "address \<Rightarrow> address \<Rightarrow> bool \<Rightarrow> token \<Rightarrow> token result" where
  "set_allowed caller a v t =
     (if caller \<noteq> tk_issuer t then Inl ''tKRW: not issuer''
      else Inr (t\<lparr>tk_allowed := (tk_allowed t)(a := v)\<rparr>))"

definition set_allowlist_enabled :: "address \<Rightarrow> bool \<Rightarrow> token \<Rightarrow> token result" where
  "set_allowlist_enabled caller e t =
     (if caller \<noteq> tk_issuer t then Inl ''tKRW: not issuer''
      else Inr (t\<lparr>tk_allowlist_enabled := e\<rparr>))"

definition transfer_issuer :: "address \<Rightarrow> address \<Rightarrow> token \<Rightarrow> token result" where
  "transfer_issuer caller n t =
     (if caller \<noteq> tk_issuer t then Inl ''tKRW: not issuer'' else Inr (t\<lparr>tk_pending_issuer := n\<rparr>))"

definition accept_issuer :: "address \<Rightarrow> token \<Rightarrow> token result" where
  "accept_issuer caller t =
     (if caller \<noteq> tk_pending_issuer t then Inl ''tKRW: not pending issuer''
      else Inr (t\<lparr>tk_issuer := tk_pending_issuer t, tk_pending_issuer := 0\<rparr>))"

section \<open>Transfers\<close>

definition move_tokens :: "address \<Rightarrow> address \<Rightarrow> nat \<Rightarrow> token \<Rightarrow> token result" where
  "move_tokens from to v t =
     (if to = 0 then Inl ''tKRW: transfer to zero''
      else if tk_frozen t from then Inl ''tKRW: sender frozen''
      else if tk_frozen t to then Inl ''tKRW: recipient frozen''
      else if tk_allowlist_enabled t \<and> \<not> tk_allowed t from then Inl ''tKRW: sender not allowed''
      else if tk_allowlist_enabled t \<and> \<not> tk_allowed t to then Inl ''tKRW: recipient not allowed''
      else if tk_balance_of t from < v then Inl ''tKRW: insufficient balance''
      else (let b = debit (tk_balance_of t) from v in
            if b to + v > uint256_max then Inl ''panic: overflow''
            else Inr (emit from to v (t\<lparr>tk_balance_of := credit b to v\<rparr>))))"

definition token_transfer :: "address \<Rightarrow> address \<Rightarrow> nat \<Rightarrow> token \<Rightarrow> token result" where
  "token_transfer caller to v t =
     (if tk_paused t then Inl ''tKRW: paused'' else move_tokens caller to v t)"

definition token_approve :: "address \<Rightarrow> address \<Rightarrow> nat \<Rightarrow> token \<Rightarrow> token result" where
  "token_approve caller spender v t =
     (if tk_paused t then Inl ''tKRW: paused''
      else Inr (t\<lparr>tk_allowance := (tk_allowance t)(caller := (tk_allowance t caller)(spender := v))\<rparr>))"

definition token_transfer_from ::
    "address \<Rightarrow> address \<Rightarrow> address \<Rightarrow> nat \<Rightarrow> token \<Rightarrow> token result" where
  "token_transfer_from caller from to v t =
     (if tk_paused t then Inl ''tKRW: paused''
      else (let al = tk_allowance t from caller in
        if al < v then Inl ''tKRW: insufficient allowance''
        else move_tokens from to v
          (if al \<noteq> uint256_max
           then t\<lparr>tk_allowance := (tk_allowance t)(from := (tk_allowance t from)(caller := al - v))\<rparr>
           else t)))"

section \<open>EIP-3009\<close>

text \<open>
  The ABI carries uint256 values, so an authorization reaches the contract with the fields
  already in range; \<open>auth_in_range\<close> of the wallet says when a Go value does.
\<close>

definition settle_authorization ::
    "geth \<Rightarrow> ecrecover \<Rightarrow> bytes32 \<Rightarrow> int \<Rightarrow> authorization \<Rightarrow> byte \<Rightarrow> bytes32 \<Rightarrow> bytes32 \<Rightarrow> token \<Rightarrow> token result" where
  "settle_authorization G ec type_hash block_time a v r s t =
     (if \<not> block_time > au_valid_after a then Inl ''tKRW: authorization not yet valid''
      else if \<not> block_time < au_valid_before a then Inl ''tKRW: authorization expired''
      else if tk_authorization_state t (au_from a) (au_nonce a) then Inl ''tKRW: authorization used''
      else (let recovered = ec (digest G (tk_domain_separator t) (struct_hash_with G type_hash a)) v r s in
        if recovered = 0 \<or> recovered \<noteq> au_from a then Inl ''tKRW: invalid signature''
        else move_tokens (au_from a) (au_to a) (nat (au_value a))
          (t\<lparr>tk_authorization_state := (tk_authorization_state t)
               (au_from a := (tk_authorization_state t (au_from a))(au_nonce a := True))\<rparr>)))"

definition transfer_with_authorization ::
    "geth \<Rightarrow> ecrecover \<Rightarrow> int \<Rightarrow> authorization \<Rightarrow> byte \<Rightarrow> bytes32 \<Rightarrow> bytes32 \<Rightarrow> token \<Rightarrow> token result" where
  "transfer_with_authorization G ec block_time a v r s t =
     (if tk_paused t then Inl ''tKRW: paused''
      else settle_authorization G ec (transfer_type_hash G) block_time a v r s t)"

definition receive_with_authorization ::
    "geth \<Rightarrow> ecrecover \<Rightarrow> address \<Rightarrow> int \<Rightarrow> authorization \<Rightarrow> byte \<Rightarrow> bytes32 \<Rightarrow> bytes32 \<Rightarrow> token \<Rightarrow> token result" where
  "receive_with_authorization G ec caller block_time a v r s t =
     (if tk_paused t then Inl ''tKRW: paused''
      else if au_to a \<noteq> caller then Inl ''tKRW: receiver must be the caller''
      else settle_authorization G ec (receive_type_hash G) block_time a v r s t)"

section \<open>Supply\<close>

text \<open>Addresses are finitely many, so the sum of all balances is a finite sum.\<close>

definition sum_balances :: "token \<Rightarrow> nat" where
  "sum_balances t = (\<Sum>a\<in>UNIV. tk_balance_of t a)"

definition token_ok :: "token \<Rightarrow> bool" where
  "token_ok t \<longleftrightarrow> tk_total_supply t = sum_balances t \<and> tk_total_supply t \<le> uint256_max"

lemma finite_addresses [simp]: "finite (UNIV :: address set)"
  by (rule finite_class.finite_UNIV)

lemma sum_fun_upd:
  fixes b :: "address \<Rightarrow> nat"
  shows "(\<Sum>x\<in>UNIV. (b(a := v)) x) + b a = (\<Sum>x\<in>UNIV. b x) + v"
proof -
  have "(\<Sum>x\<in>UNIV. (b(a := v)) x) = v + (\<Sum>x\<in>UNIV - {a}. b x)"
    by (subst sum.remove [of _ a]) (auto intro: sum.cong)
  moreover have "(\<Sum>x\<in>UNIV. b x) = b a + (\<Sum>x\<in>UNIV - {a}. b x)"
    by (subst sum.remove [of _ a]) simp_all
  ultimately show ?thesis by simp
qed

lemma sum_credit: "(\<Sum>x\<in>UNIV. credit b a v x) = (\<Sum>x\<in>UNIV. b x) + v"
  using sum_fun_upd [of b a "b a + v"] by (simp add: credit_def)

lemma sum_debit: "v \<le> b a \<Longrightarrow> (\<Sum>x\<in>UNIV. debit b a v x) + v = (\<Sum>x\<in>UNIV. b x)"
  using sum_fun_upd [of b a "b a - v"] by (simp add: debit_def)

lemma balance_le_sum: "b (a :: address) \<le> (\<Sum>x\<in>UNIV. b x :: nat)"
  by (rule member_le_sum) simp_all

lemma emit_fields [simp]:
  "tk_balance_of (emit a b v t) = tk_balance_of t" "tk_total_supply (emit a b v t) = tk_total_supply t"
  "tk_authorization_state (emit a b v t) = tk_authorization_state t"
  "tk_issuer (emit a b v t) = tk_issuer t"
  "tk_log (emit a b v t) = tk_log t @ [\<lparr>te_from = a, te_to = b, te_value = v\<rparr>]"
  by (simp_all add: emit_def)

lemma token_ok_move:
  assumes "token_ok t" and "move_tokens from to v t = Inr t'"
  shows "token_ok t'"
proof -
  have t': "t' = emit from to v (t\<lparr>tk_balance_of := credit (debit (tk_balance_of t) from v) to v\<rparr>)"
    and "v \<le> tk_balance_of t from"
    using assms(2) by (auto simp: move_tokens_def Let_def split: if_splits)
  then show ?thesis
    using assms(1) sum_debit [of v "tk_balance_of t" "from"]
    by (simp add: token_ok_def sum_balances_def sum_credit)
qed

lemma token_ok_mint: "token_ok t \<Longrightarrow> token_mint caller to v t = Inr t' \<Longrightarrow> token_ok t'"
  by (auto simp: token_mint_def token_ok_def sum_balances_def sum_credit split: if_splits)

lemma token_ok_burn: "token_ok t \<Longrightarrow> token_burn caller from v t = Inr t' \<Longrightarrow> token_ok t'"
  using sum_debit [of v "tk_balance_of t" "from"]
  by (auto simp: token_burn_def token_ok_def sum_balances_def split: if_splits)

lemma token_ok_settle:
  assumes "token_ok t" and "settle_authorization G ec h now a v r s t = Inr t'"
  shows "token_ok t'"
proof -
  let ?t = "t\<lparr>tk_authorization_state := (tk_authorization_state t)
               (au_from a := (tk_authorization_state t (au_from a))(au_nonce a := True))\<rparr>"
  have "move_tokens (au_from a) (au_to a) (nat (au_value a)) ?t = Inr t'"
    using assms(2) by (simp add: settle_authorization_def Let_def split: if_splits)
  moreover have "token_ok ?t" using assms(1) by (simp add: token_ok_def sum_balances_def)
  ultimately show ?thesis by (metis token_ok_move)
qed

section \<open>Any sequence of transactions\<close>

text \<open>A transaction: who calls what. The zero address holds no key, so it never calls.\<close>

datatype token_call =
    CallMint address nat
  | CallBurn address nat
  | CallTransfer address nat
  | CallApprove address nat
  | CallTransferFrom address address nat
  | CallTransferAuth authorization byte bytes32 bytes32
  | CallReceiveAuth authorization byte bytes32 bytes32
  | CallPause bool
  | CallFreeze address bool
  | CallAllow address bool
  | CallAllowlist bool
  | CallTransferIssuer address
  | CallAcceptIssuer

record token_tx =
  tx_caller :: address
  tx_time :: int
  tx_call :: token_call

fun token_exec :: "geth \<Rightarrow> ecrecover \<Rightarrow> address \<Rightarrow> int \<Rightarrow> token_call \<Rightarrow> token \<Rightarrow> token result" where
  "token_exec G ec c now (CallMint to v) t = token_mint c to v t"
| "token_exec G ec c now (CallBurn from v) t = token_burn c from v t"
| "token_exec G ec c now (CallTransfer to v) t = token_transfer c to v t"
| "token_exec G ec c now (CallApprove s v) t = token_approve c s v t"
| "token_exec G ec c now (CallTransferFrom from to v) t = token_transfer_from c from to v t"
| "token_exec G ec c now (CallTransferAuth a v r s) t = transfer_with_authorization G ec now a v r s t"
| "token_exec G ec c now (CallReceiveAuth a v r s) t = receive_with_authorization G ec c now a v r s t"
| "token_exec G ec c now (CallPause p) t = set_paused c p t"
| "token_exec G ec c now (CallFreeze a v) t = set_frozen c a v t"
| "token_exec G ec c now (CallAllow a v) t = set_allowed c a v t"
| "token_exec G ec c now (CallAllowlist e) t = set_allowlist_enabled c e t"
| "token_exec G ec c now (CallTransferIssuer n) t = transfer_issuer c n t"
| "token_exec G ec c now CallAcceptIssuer t = accept_issuer c t"

text \<open>A reverted transaction leaves the state as it was.\<close>

definition token_step :: "geth \<Rightarrow> ecrecover \<Rightarrow> token \<Rightarrow> token_tx \<Rightarrow> token" where
  "token_step G ec t tx =
     (case token_exec G ec (tx_caller tx) (tx_time tx) (tx_call tx) t of Inl _ \<Rightarrow> t | Inr t' \<Rightarrow> t')"

text \<open>
  What every operation does to the balances, the supply and the log, in one lemma: nothing,
  or one event with its effect.
\<close>

definition moves :: "token \<Rightarrow> token \<Rightarrow> bool" where
  "moves t t' \<longleftrightarrow>
     (tk_balance_of t' = tk_balance_of t \<and> tk_total_supply t' = tk_total_supply t \<and> tk_log t' = tk_log t) \<or>
     (\<exists>a v. a \<noteq> 0 \<and> tk_log t' = tk_log t @ [\<lparr>te_from = 0, te_to = a, te_value = v\<rparr>] \<and>
        tk_total_supply t' = tk_total_supply t + v \<and> tk_total_supply t' \<le> uint256_max \<and>
        tk_balance_of t' = credit (tk_balance_of t) a v) \<or>
     (\<exists>a v. v \<le> tk_balance_of t a \<and> v \<le> tk_total_supply t \<and>
        tk_log t' = tk_log t @ [\<lparr>te_from = a, te_to = 0, te_value = v\<rparr>] \<and>
        tk_total_supply t' = tk_total_supply t - v \<and> tk_balance_of t' = debit (tk_balance_of t) a v) \<or>
     (\<exists>a b v. b \<noteq> 0 \<and> v \<le> tk_balance_of t a \<and>
        tk_log t' = tk_log t @ [\<lparr>te_from = a, te_to = b, te_value = v\<rparr>] \<and>
        tk_total_supply t' = tk_total_supply t \<and>
        tk_balance_of t' = credit (debit (tk_balance_of t) a v) b v)"

lemma moves_refl [simp]: "moves t t" by (simp add: moves_def)

lemma moves_same:
  "tk_balance_of t' = tk_balance_of t \<Longrightarrow> tk_total_supply t' = tk_total_supply t \<Longrightarrow>
    tk_log t' = tk_log t \<Longrightarrow> moves t t'"
  by (simp add: moves_def)

lemma moves_move_tokens:
  assumes "move_tokens from to v t = Inr t'" and "tk_balance_of t = tk_balance_of t0"
    and "tk_total_supply t = tk_total_supply t0" and "tk_log t = tk_log t0"
  shows "moves t0 t'"
proof -
  have t': "t' = emit from to v (t\<lparr>tk_balance_of := credit (debit (tk_balance_of t) from v) to v\<rparr>)"
    and "v \<le> tk_balance_of t from" and "to \<noteq> 0"
    using assms(1) by (auto simp: move_tokens_def Let_def split: if_splits)
  then show ?thesis using assms(2-4) unfolding moves_def by fastforce
qed

lemma moves_settle:
  assumes "settle_authorization G ec h now a v r s t = Inr t'"
  shows "moves t t'"
proof -
  have "move_tokens (au_from a) (au_to a) (nat (au_value a)) (t\<lparr>tk_authorization_state := (tk_authorization_state t)
               (au_from a := (tk_authorization_state t (au_from a))(au_nonce a := True))\<rparr>) = Inr t'"
    using assms by (simp add: settle_authorization_def Let_def split: if_splits)
  then show ?thesis by (rule moves_move_tokens) simp_all
qed

lemma moves_mint: "token_mint c to v t = Inr t' \<Longrightarrow> moves t t'"
  by (auto simp: token_mint_def moves_def split: if_splits)

lemma moves_burn: "token_burn c from v t = Inr t' \<Longrightarrow> moves t t'"
  by (auto simp: token_burn_def moves_def split: if_splits)

lemma moves_transfer_from: "token_transfer_from c from to v t = Inr t' \<Longrightarrow> moves t t'"
  by (auto simp: token_transfer_from_def Let_def split: if_splits elim!: moves_move_tokens)

lemma moves_exec: "token_exec G ec c now call t = Inr t' \<Longrightarrow> moves t t'"
proof (cases call)
  case (CallTransfer to v)
  assume "token_exec G ec c now call t = Inr t'"
  with CallTransfer show ?thesis
    by (auto simp: token_transfer_def split: if_splits elim!: moves_move_tokens)
next
  case (CallTransferAuth a v r s)
  assume "token_exec G ec c now call t = Inr t'"
  with CallTransferAuth show ?thesis
    by (auto simp: transfer_with_authorization_def split: if_splits elim!: moves_settle)
next
  case (CallReceiveAuth a v r s)
  assume "token_exec G ec c now call t = Inr t'"
  with CallReceiveAuth show ?thesis
    by (auto simp: receive_with_authorization_def split: if_splits elim!: moves_settle)
qed (auto simp: token_approve_def set_paused_def set_frozen_def set_allowed_def set_allowlist_enabled_def
    transfer_issuer_def accept_issuer_def split: if_splits
    intro: moves_same moves_mint moves_burn moves_transfer_from)

lemma token_step_moves: "moves t (token_step G ec t tx)"
  by (auto simp: token_step_def split: sum.split dest: moves_exec)

lemma token_ok_moves: "token_ok t \<Longrightarrow> moves t t' \<Longrightarrow> token_ok t'"
proof -
  assume ok: "token_ok t" and "moves t t'"
  from this(2) consider
      "tk_balance_of t' = tk_balance_of t" "tk_total_supply t' = tk_total_supply t"
    | a v where "tk_total_supply t' = tk_total_supply t + v" "tk_total_supply t' \<le> uint256_max"
        "tk_balance_of t' = credit (tk_balance_of t) a v"
    | a v where "v \<le> tk_balance_of t a" "v \<le> tk_total_supply t" "tk_total_supply t' = tk_total_supply t - v"
        "tk_balance_of t' = debit (tk_balance_of t) a v"
    | a b v where "v \<le> tk_balance_of t a" "tk_total_supply t' = tk_total_supply t"
        "tk_balance_of t' = credit (debit (tk_balance_of t) a v) b v"
    unfolding moves_def by blast
  then show ?thesis
  proof cases
    case (3 a v)
    have "tk_total_supply t = sum_balances t" "tk_total_supply t \<le> uint256_max"
      using ok by (simp_all add: token_ok_def)
    moreover have "sum_balances t' + v = sum_balances t"
      using sum_debit [of v "tk_balance_of t" a] 3(1,4) by (simp add: sum_balances_def)
    ultimately show ?thesis using 3(3) unfolding token_ok_def by linarith
  next
    case (4 a b v)
    then show ?thesis
      using ok sum_debit [of v "tk_balance_of t" a] by (simp add: token_ok_def sum_balances_def sum_credit)
  qed (use ok in \<open>simp_all add: token_ok_def sum_balances_def sum_credit\<close>)
qed

lemma auth_state_exec:
  assumes "token_exec G ec c now call t = Inr t'" and "tk_authorization_state t p n"
  shows "tk_authorization_state t' p n"
proof -
  have mv: "tk_authorization_state t2 = tk_authorization_state t1" if "move_tokens a b v t1 = Inr t2" for a b v t1 t2
    using that by (auto simp: move_tokens_def Let_def split: if_splits)
  have st: "tk_authorization_state t2 p n"
    if "settle_authorization G ec h now a v r s t = Inr t2" for h a v r s t2
    using that assms(2) by (auto simp: settle_authorization_def Let_def dest: mv split: if_splits)
  show ?thesis
    using assms by (cases call)
      (auto simp: token_approve_def set_paused_def set_frozen_def set_allowed_def set_allowlist_enabled_def
        transfer_issuer_def accept_issuer_def token_mint_def token_burn_def token_transfer_def
        token_transfer_from_def transfer_with_authorization_def receive_with_authorization_def Let_def
        split: if_splits dest: mv st)
qed

interpretation tok: machine "token_step G ec" "\<lambda>_ _. True" token_ok for G ec
  by unfold_locales (rule token_ok_moves [OF _ token_step_moves])

interpretation spent: machine "token_step G ec" "\<lambda>_ _. True" "\<lambda>t. tk_authorization_state t p n" for G ec p n
  by unfold_locales (auto simp: token_step_def split: sum.split dest: auth_state_exec)

lemma all_allowed: "allowed step (\<lambda>_ _. True) s es"
  by (induction es arbitrary: s) simp_all

section \<open>Properties\<close>

text \<open>
  C13. The supply is the money there is: after any sequence of transactions on a freshly
  deployed contract, reverted ones included, totalSupply is the sum of all balances and
  fits a uint256.
\<close>

theorem token_supply_is_sum_of_balances:
  "tk_total_supply (run (token_step G ec) (token_new deployer domain) txs)
     = sum_balances (run (token_step G ec) (token_new deployer domain) txs) \<and>
   tk_total_supply (run (token_step G ec) (token_new deployer domain) txs) \<le> uint256_max"
proof -
  have "token_ok (token_new deployer domain)"
    by (simp add: token_ok_def token_new_def sum_balances_def)
  then have "token_ok (run (token_step G ec) (token_new deployer domain) txs)"
    by (rule tok.run_inv) (rule all_allowed)
  then show ?thesis by (simp add: token_ok_def)
qed

text \<open>
  The authorizations (payer and nonce) that a run of transactions executed, as a transfer or
  as a receive, in order; and those the contract holds as spent.
\<close>

fun authorization_of :: "token_call \<Rightarrow> (address \<times> bytes32) option" where
  "authorization_of (CallTransferAuth a v r s) = Some (au_from a, au_nonce a)"
| "authorization_of (CallReceiveAuth a v r s) = Some (au_from a, au_nonce a)"
| "authorization_of _ = None"

fun executions :: "geth \<Rightarrow> ecrecover \<Rightarrow> token \<Rightarrow> token_tx list \<Rightarrow> (address \<times> bytes32) list" where
  "executions G ec t [] = []"
| "executions G ec t (tx # txs) =
     (case (authorization_of (tx_call tx), token_exec G ec (tx_caller tx) (tx_time tx) (tx_call tx) t) of
        (Some k, Inr _) \<Rightarrow> [k] | _ \<Rightarrow> []) @ executions G ec (token_step G ec t tx) txs"

lemma execution_spends:
  assumes "token_exec G ec c time call t = Inr t'" and "authorization_of call = Some (p, n)"
  shows "\<not> tk_authorization_state t p n" and "tk_authorization_state t' p n"
  using assms by (cases call; auto simp: transfer_with_authorization_def receive_with_authorization_def
      settle_authorization_def move_tokens_def Let_def split: if_splits)+

definition spent_authorizations :: "token \<Rightarrow> (address \<times> bytes32) set" where
  "spent_authorizations t = {(p, n). tk_authorization_state t p n}"

lemma spent_grows: "spent_authorizations t \<subseteq> spent_authorizations (run (token_step G ec) t txs)"
  using spent.run_inv [OF _ all_allowed] by (auto simp: spent_authorizations_def)

text \<open>A transaction executes a new authorization and spends it, or none.\<close>

lemma executions_Cons:
  obtains k where "executions G ec t (tx # txs) = k # executions G ec (token_step G ec t tx) txs" "k \<notin> spent_authorizations t"
      "k \<in> spent_authorizations (token_step G ec t tx)"
  | "executions G ec t (tx # txs) = executions G ec (token_step G ec t tx) txs"
proof (cases "authorization_of (tx_call tx) \<noteq> None \<and> (\<exists>t'. token_exec G ec (tx_caller tx) (tx_time tx) (tx_call tx) t = Inr t')")
  case True
  then obtain p n t' where k: "authorization_of (tx_call tx) = Some (p, n)"
    "token_exec G ec (tx_caller tx) (tx_time tx) (tx_call tx) t = Inr t'" by auto
  then show thesis
    using that(1) [of "(p, n)"] execution_spends [OF k(2,1)] by (simp add: token_step_def spent_authorizations_def)
next
  case False
  then show thesis
    using that(2) by (cases "authorization_of (tx_call tx)"; cases "token_exec G ec (tx_caller tx) (tx_time tx) (tx_call tx) t") auto
qed

lemma executed_once:
  "distinct (executions G ec t txs) \<and> set (executions G ec t txs) \<inter> spent_authorizations t = {} \<and>
   set (executions G ec t txs) \<subseteq> spent_authorizations (run (token_step G ec) t txs)"
proof (induction txs arbitrary: t)
  case (Cons tx txs)
  let ?t = "token_step G ec t tx"
  have kept: "spent_authorizations t \<subseteq> spent_authorizations ?t"
    using spent_grows [of t G ec "[tx]"] by simp
  show ?case
  proof (rule executions_Cons [of G ec t tx txs])
    fix k
    assume k: "executions G ec t (tx # txs) = k # executions G ec ?t txs" "k \<notin> spent_authorizations t" "k \<in> spent_authorizations ?t"
    then show ?thesis using Cons.IH [of ?t] kept spent_grows [of ?t G ec txs] unfolding k(1) by auto
  next
    assume k: "executions G ec t (tx # txs) = executions G ec ?t txs"
    show ?thesis using Cons.IH [of ?t] kept unfolding k by auto
  qed
qed simp

text \<open>
  C12. An authorization is spent at most once: over any sequence of transactions on the
  contract, of anybody, every payer and nonce is executed at most once, as a transfer or as a
  receive, none that was spent before is executed, and all that were executed are spent.
\<close>

theorem authorization_spent_once:
  "distinct (executions G ec t txs) \<and> set (executions G ec t txs) \<inter> spent_authorizations t = {} \<and>
   set (executions G ec t txs) \<subseteq> spent_authorizations (run (token_step G ec) t txs)"
  by (rule executed_once)

definition sample_auth :: authorization where
  "sample_auth = \<lparr>au_from = 2, au_to = 3, au_value = 60, au_valid_after = 0, au_valid_before = 2000, au_nonce = 5\<rparr>"

definition sample_token :: token where
  "sample_token = (token_new 1 0)\<lparr>tk_total_supply := 100, tk_balance_of := (\<lambda>_. 0)(2 := 100)\<rparr>"

text \<open>The payee submits the authorization, then the same again and a receive with it.\<close>

definition sample_txs :: "token_tx list" where
  "sample_txs = [\<lparr>tx_caller = 3, tx_time = 1000, tx_call = CallTransferAuth sample_auth 27 0 0\<rparr>,
     \<lparr>tx_caller = 3, tx_time = 1001, tx_call = CallTransferAuth sample_auth 27 0 0\<rparr>,
     \<lparr>tx_caller = 3, tx_time = 1002, tx_call = CallReceiveAuth sample_auth 27 0 0\<rparr>]"

theorem authorization_spent_once_witness:
  "(2, 5) \<in> set (executions sample_geth (\<lambda>_ _ _ _. 2) sample_token sample_txs) \<and>
   (2, 5) \<in> spent_authorizations (run (token_step sample_geth (\<lambda>_ _ _ _. 2)) sample_token sample_txs)"
proof -
  have "(2, 5) \<in> set (executions sample_geth (\<lambda>_ _ _ _. 2) sample_token sample_txs)"
    by (simp add: sample_txs_def transfer_with_authorization_def settle_authorization_def move_tokens_def sample_token_def
      token_new_def sample_auth_def debit_def uint256_max_def Let_def)
  then show ?thesis
    using authorization_spent_once [of sample_geth "\<lambda>_ _ _ _. 2" sample_token sample_txs] by blast
qed

end
