(* ===== verification/Facilitator.thy ===== *)
theory Facilitator
  imports Token
begin

text \<open>
  The local facilitator (\<open>x402/facilitator_local.go\<close>), the payload parsers of it and of
  \<open>x402/redeem.go\<close>. The token and DvP bindings and the node behind them are external: a
  record of the calls the facilitator makes on a chain state. One Verify reads the clock
  once. \<open>chain_api\<close> instantiates the record with the tKRW contract of the theory Token.

  A text the code formats with a quoted (%q) argument keeps its fixed part only.

  Lemmas: what a valid verdict means; that a verified payment settles on the contract; and
  the contract a gateway relies on, the locale \<open>payment_rail\<close>: an authorization settles at
  most once.
\<close>

section \<open>Parsing\<close>

text \<open>\<open>hex.DecodeString(strings.TrimPrefix(s, "0x"))\<close> with a length check.\<close>

definition decode_0x :: "string \<Rightarrow> nat \<Rightarrow> byte list option" where
  "decode_0x s n =
     (case hex_decode (trim_prefix s ''0x'') of
        None \<Rightarrow> None | Some b \<Rightarrow> if length b \<noteq> n then None else Some b)"

definition parse_authorization :: "geth \<Rightarrow> authorization_json \<Rightarrow> authorization result" where
  "parse_authorization G a =
     (if \<not> is_hex_address G (aj_from a) \<or> \<not> is_hex_address G (aj_to a)
      then Inl ''x402: invalid from/to address''
      else case set_string10 (aj_value a) of
        None \<Rightarrow> Inl ''x402: invalid value''
      | Some v \<Rightarrow> if v < 0 then Inl ''x402: invalid value'' else
      (case set_string10 (aj_valid_after a) of
        None \<Rightarrow> Inl ''x402: invalid validAfter''
      | Some va \<Rightarrow>
      (case set_string10 (aj_valid_before a) of
        None \<Rightarrow> Inl ''x402: invalid validBefore''
      | Some vb \<Rightarrow>
      (case decode_0x (aj_nonce a) 32 of
        None \<Rightarrow> Inl ''x402: invalid nonce''
      | Some n \<Rightarrow> Inr \<lparr>au_from = hex_to_address G (aj_from a), au_to = hex_to_address G (aj_to a),
                      au_value = v, au_valid_after = va, au_valid_before = vb, au_nonce = bytes32_of n\<rparr>))))"

text \<open>\<open>parseExactPayload\<close>: the same checks with its own texts, then the 65-byte signature.\<close>

definition parse_exact_payload :: "geth \<Rightarrow> exact_payload \<Rightarrow> (authorization \<times> byte list) result" where
  "parse_exact_payload G p =
     (let a = ep_authorization p in
      if \<not> is_hex_address G (aj_from a) \<or> \<not> is_hex_address G (aj_to a)
      then Inl ''invalid from/to address''
      else case set_string10 (aj_value a) of
        None \<Rightarrow> Inl ''invalid value''
      | Some v \<Rightarrow> if v < 0 then Inl ''invalid value'' else
      (case set_string10 (aj_valid_after a) of
        None \<Rightarrow> Inl ''invalid validAfter''
      | Some va \<Rightarrow>
      (case set_string10 (aj_valid_before a) of
        None \<Rightarrow> Inl ''invalid validBefore''
      | Some vb \<Rightarrow>
      (case decode_0x (aj_nonce a) 32 of
        None \<Rightarrow> Inl ''invalid nonce''
      | Some n \<Rightarrow>
      (case decode_0x (ep_signature p) 65 of
        None \<Rightarrow> Inl ''invalid signature encoding''
      | Some s \<Rightarrow> Inr (\<lparr>au_from = hex_to_address G (aj_from a), au_to = hex_to_address G (aj_to a),
                      au_value = v, au_valid_after = va, au_valid_before = vb, au_nonce = bytes32_of n\<rparr>, s))))))"

section \<open>The facilitator\<close>

text \<open>
  The calls on the chain: the five reads, the two submissions (the transaction's hash), the
  commit hook, and the wait for a receipt (true when it succeeded).
\<close>

record 'c chain_calls =
  cc_domain :: "'c \<Rightarrow> bytes32 result"
  cc_authorization_state :: "'c \<Rightarrow> address \<Rightarrow> bytes32 \<Rightarrow> bool result"
  cc_balance_of :: "'c \<Rightarrow> address \<Rightarrow> int result"
  cc_frozen :: "'c \<Rightarrow> address \<Rightarrow> bool result"
  cc_transfer_with_authorization :: "authorization \<Rightarrow> byte \<times> bytes32 \<times> bytes32 \<Rightarrow> 'c \<Rightarrow> bytes32 result \<times> 'c"
  cc_settle_and_deliver ::
    "address \<Rightarrow> int \<Rightarrow> authorization \<Rightarrow> byte \<times> bytes32 \<times> bytes32 \<Rightarrow> 'c \<Rightarrow> bytes32 result \<times> 'c"
  cc_commit :: "'c \<Rightarrow> 'c"
  cc_wait_mined :: "bytes32 \<Rightarrow> int \<Rightarrow> 'c \<Rightarrow> bool result \<times> 'c"

text \<open>\<open>lf_domain\<close> is the outcome the sync.Once cached, error included.\<close>

record local_facilitator =
  lf_timeout :: int
  lf_dvp :: bool
  lf_asset_amount :: int
  lf_domain :: "bytes32 result option"

definition facilitator_timeout :: "local_facilitator \<Rightarrow> int" where
  "facilitator_timeout f = (if lf_timeout f = 0 then 60 * ns_per_second else lf_timeout f)"

definition facilitator_domain ::
    "'c chain_calls \<Rightarrow> 'c \<Rightarrow> local_facilitator \<Rightarrow> bytes32 result \<times> local_facilitator" where
  "facilitator_domain api c f =
     (case lf_domain f of
        Some d \<Rightarrow> (d, f)
      | None \<Rightarrow> (cc_domain api c, f\<lparr>lf_domain := Some (cc_domain api c)\<rparr>))"

text \<open>Who the authorization must pay, and whether it must be a receive authorization.\<close>

definition expected_recipient :: "geth \<Rightarrow> payment_requirements \<Rightarrow> address \<times> bool" where
  "expected_recipient G reqs =
     (case map_of (pr_extra reqs) ''dvp'' of
        Some d \<Rightarrow> if is_hex_address G d then (hex_to_address G d, True)
                  else (hex_to_address G (pr_pay_to reqs), False)
      | None \<Rightarrow> (hex_to_address G (pr_pay_to reqs), False))"

text \<open>The protocol and payment terms: the verdict that stops Verify, or \<open>None\<close> to go on.\<close>

definition check_terms ::
    "geth \<Rightarrow> int \<Rightarrow> payment_requirements \<Rightarrow> authorization \<Rightarrow> verify_result result option" where
  "check_terms G now reqs a =
     (if \<not> is_hex_address G (pr_pay_to reqs) then Some (Inl ''requirements payTo is not an address'')
      else if au_to a \<noteq> fst (expected_recipient G reqs) then
        Some (Inr (vr_invalid (''recipient mismatch: '' @ address_hex G (au_to a) @ '' (want '' @
                               address_hex G (fst (expected_recipient G reqs)) @ '')'')))
      else case set_string10 (pr_max_amount_required reqs) of
        None \<Rightarrow> Some (Inl ''requirements maxAmountRequired is not an integer'')
      | Some price \<Rightarrow>
          if au_value a < price then
            Some (Inr (vr_invalid (''insufficient amount '' @ big_show (au_value a) @ '' (need '' @ big_show price @ '')'')))
          else if au_valid_before a \<le> unix_of now + 5 then Some (Inr (vr_invalid ''authorization expires too soon''))
          else if au_valid_after a \<ge> unix_of now then Some (Inr (vr_invalid ''authorization not yet valid''))
          else None)"

definition check_chain ::
    "geth \<Rightarrow> 'c chain_calls \<Rightarrow> 'c \<Rightarrow> authorization \<Rightarrow> verify_result result" where
  "check_chain G api c a =
     (case cc_authorization_state api c (au_from a) (au_nonce a) of
        Inl e \<Rightarrow> Inl (''authorization state: '' @ e)
      | Inr used \<Rightarrow> if used then Inr (vr_invalid ''authorization already used'') else
     (case cc_balance_of api c (au_from a) of
        Inl e \<Rightarrow> Inl (''balanceOf: '' @ e)
      | Inr bal \<Rightarrow> if bal < au_value a then 
         Inr (vr_invalid (''payer balance '' @ big_show bal @ '' < '' @ big_show (au_value a))) else
     (case cc_frozen api c (au_from a) of
        Inl e \<Rightarrow> Inl (''frozen: '' @ e)
      | Inr frozen \<Rightarrow> if frozen then Inr (vr_invalid ''payer account is frozen'')
          else Inr \<lparr>vr_is_valid = True, vr_invalid_reason = '''', vr_payer = address_hex G (au_from a)\<rparr>)))"

definition facilitator_verify ::
    "geth \<Rightarrow> 'c chain_calls \<Rightarrow> int \<Rightarrow> 'c \<Rightarrow> payment_payload \<Rightarrow> payment_requirements \<Rightarrow> local_facilitator \<Rightarrow>
     verify_result result \<times> local_facilitator" where
  "facilitator_verify G api now c p reqs f =
     (if pp_version p \<noteq> x402_version then (Inr (vr_invalid (''unsupported x402 version '' @ big_show (pp_version p))), f)
      else if pp_scheme p \<noteq> scheme_exact then (Inr (vr_invalid ''unsupported scheme''), f)
      else if pp_network p \<noteq> pr_network reqs then (Inr (vr_invalid ''wrong network''), f)
      else case parse_exact_payload G (pp_payload p) of
        Inl e \<Rightarrow> (Inr (vr_invalid e), f)
      | Inr (a, s) \<Rightarrow> (case check_terms G now reqs a of
        Some out \<Rightarrow> (out, f)
      | None \<Rightarrow> (case facilitator_domain api c f of
        (Inl e, f') \<Rightarrow> (Inl (''domain separator: '' @ e), f')
      | (Inr domain, f') \<Rightarrow>
         (case (if snd (expected_recipient G reqs) then recover_receive_signer G domain a s
                else recover_signer G domain a s) of
            Inl e \<Rightarrow> (Inr (vr_invalid (''signature recovery failed: '' @ e)), f')
          | Inr signer \<Rightarrow>
              if signer \<noteq> au_from a then 
                (Inr (vr_invalid (''signer '' @ address_hex G signer @ '' != from '' @ address_hex G (au_from a))), f')
              else (check_chain G api c a, f')))))"

definition facilitator_settle ::
    "geth \<Rightarrow> 'c chain_calls \<Rightarrow> local_facilitator \<Rightarrow> payment_payload \<Rightarrow> payment_requirements \<Rightarrow> 'c \<Rightarrow>
     settlement_response result \<times> 'c" where
  "facilitator_settle G api f p reqs c =
     (case parse_exact_payload G (pp_payload p) of
        Inl e \<Rightarrow> (Inl (''settle: parse payload: '' @ e), c)
      | Inr (a, sg) \<Rightarrow> (case split_signature sg of
        Inl e \<Rightarrow> (Inl e, c)
      | Inr vrs \<Rightarrow>
         (case (if lf_dvp f then
                  cc_settle_and_deliver api (hex_to_address G (pr_pay_to reqs)) (lf_asset_amount f) a vrs c
                else cc_transfer_with_authorization api a vrs c) of
            (Inl e, c1) \<Rightarrow> (Inl (''settlement submit failed: '' @ e), c1)
          | (Inr tx, c1) \<Rightarrow>
             (case cc_wait_mined api tx (facilitator_timeout f) (cc_commit api c1) of
                (Inl e, c2) \<Rightarrow> (Inl (''settlement wait failed: '' @ e), c2)
              | (Inr success, c2) \<Rightarrow>
                  (Inr \<lparr>sresp_success = success, sresp_transaction = hash_hex G tx,
                       sresp_network = pr_network reqs, sresp_payer = address_hex G (au_from a),
                       sresp_error_reason = (if success then '''' else ''settlement transaction reverted''),
                       sresp_delivery_transaction = '''', sresp_receipt = None\<rparr>, c2)))))"

section \<open>What a valid verdict means\<close>

lemma check_chain_valid:
  "check_chain G api c a = Inr v \<Longrightarrow> vr_is_valid v \<Longrightarrow>
    cc_authorization_state api c (au_from a) (au_nonce a) = Inr False \<and>
    (\<exists>bal. cc_balance_of api c (au_from a) = Inr bal \<and> au_value a \<le> bal) \<and>
    cc_frozen api c (au_from a) = Inr False \<and> vr_payer v = address_hex G (au_from a)"
  by (auto simp: check_chain_def vr_invalid_def not_less split: sum.splits if_splits)

lemma check_terms_None:
  "check_terms G now reqs a = None \<Longrightarrow> \<exists>price. set_string10 (pr_max_amount_required reqs) = Some price \<and>
    price \<le> au_value a \<and> au_to a = fst (expected_recipient G reqs) \<and>
    unix_of now + 5 < au_valid_before a \<and> au_valid_after a < unix_of now"
  by (auto simp: check_terms_def split: if_splits option.splits)

lemma check_terms_invalid: "check_terms G now reqs a = Some (Inr v) \<Longrightarrow> \<not> vr_is_valid v"
  by (auto simp: check_terms_def vr_invalid_def split: if_splits option.splits)

lemma facilitator_verify_valid:
  assumes "fst (facilitator_verify G api now c p reqs f) = Inr v" and "vr_is_valid v"
  obtains a s domain where "parse_exact_payload G (pp_payload p) = Inr (a, s)"
    "check_terms G now reqs a = None" "fst (facilitator_domain api c f) = Inr domain"
    "(if snd (expected_recipient G reqs) then recover_receive_signer G domain a s
      else recover_signer G domain a s) = Inr (au_from a)"
    "check_chain G api c a = Inr v" "pp_network p = pr_network reqs"
proof -
  have vi: "\<not> vr_is_valid (vr_invalid e)" for e by (simp add: vr_invalid_def)
  have pre: "pp_version p = x402_version" "pp_scheme p = scheme_exact" "pp_network p = pr_network reqs"
    using assms vi by (auto simp: facilitator_verify_def split: if_splits)
  obtain a s where p: "parse_exact_payload G (pp_payload p) = Inr (a, s)"
    using assms pre vi by (cases "parse_exact_payload G (pp_payload p)") (auto simp: facilitator_verify_def)
  have t: "check_terms G now reqs a = None"
    using assms pre p check_terms_invalid [of G now reqs a v]
    by (cases "check_terms G now reqs a") (auto simp: facilitator_verify_def)
  obtain domain f' where d: "facilitator_domain api c f = (Inr domain, f')"
    using assms pre p t by (cases "facilitator_domain api c f") (auto simp: facilitator_verify_def split: sum.splits)
  show thesis
    using assms pre p t d vi that [OF p t, of domain]
    by (auto simp: facilitator_verify_def split: sum.splits if_splits)
qed

section \<open>On the tKRW contract\<close>

text \<open>
  A chain with the contract: the time of the next block and the receipts of the mined
  transactions. A submission is mined in the next block; arguments outside uint256 are
  refused by the ABI encoder. The DvP contract is not on this chain.
\<close>

record chain =
  cn_token :: token
  cn_time :: int
  cn_receipts :: "(bytes32 \<times> bool) list"

definition tx_hash_of :: "chain \<Rightarrow> bytes32" where
  "tx_hash_of c = of_nat (Suc (length (cn_receipts c)))"

definition chain_api :: "geth \<Rightarrow> ecrecover \<Rightarrow> chain chain_calls" where
  "chain_api G ec = \<lparr>
     cc_domain = (\<lambda>c. Inr (tk_domain_separator (cn_token c))),
     cc_authorization_state = (\<lambda>c a n. Inr (tk_authorization_state (cn_token c) a n)),
     cc_balance_of = (\<lambda>c a. Inr (int (tk_balance_of (cn_token c) a))),
     cc_frozen = (\<lambda>c a. Inr (tk_frozen (cn_token c) a)),
     cc_transfer_with_authorization = (\<lambda>a (v, r, s) c.
       if \<not> auth_in_range a then (Inl ''abi: out of range'', c)
       else case transfer_with_authorization G ec (cn_time c) a v r s (cn_token c) of
         Inl e \<Rightarrow> (Inr (tx_hash_of c), c\<lparr>cn_receipts := (tx_hash_of c, False) # cn_receipts c\<rparr>)
       | Inr t \<Rightarrow> (Inr (tx_hash_of c),
                  c\<lparr>cn_token := t, cn_receipts := (tx_hash_of c, True) # cn_receipts c\<rparr>)),
     cc_settle_and_deliver = (\<lambda>_ _ _ _ c. (Inl ''no contract code'', c)),
     cc_commit = (\<lambda>c. c),
     cc_wait_mined = (\<lambda>h _ c. (case map_of (cn_receipts c) h of
                               None \<Rightarrow> Inl ''not found'' | Some st \<Rightarrow> Inr st, c))\<rparr>"

text \<open>
  The ecrecover precompile agrees with go-ethereum's recovery on the two recovery ids it
  supports.
\<close>

definition ecrecover_law :: "geth \<Rightarrow> ecrecover \<Rightarrow> bool" where
  "ecrecover_law G ec \<longleftrightarrow>
     (\<forall>h s a. length s = 65 \<longrightarrow> s ! 64 \<in> {27, 28} \<longrightarrow> sig_to_address G h (unbump_v s) = Some a \<longrightarrow>
        ec h (s ! 64) (bytes32_of (take 32 s)) (bytes32_of (take 32 (drop 32 s))) = a)"

lemma recover_ecrecover:
  assumes "ecrecover_law G ec" and "recover_signer G domain a s = Inr d" and "s ! 64 \<in> {27, 28}"
  shows "split_signature s = Inr (s ! 64, bytes32_of (take 32 s), bytes32_of (take 32 (drop 32 s))) \<and>
    ec (digest G domain (struct_hash G a)) (s ! 64) (bytes32_of (take 32 s)) (bytes32_of (take 32 (drop 32 s))) = d"
proof -
  have "length s = 65" and "sig_to_address G (digest G domain (struct_hash G a)) (unbump_v s) = Some d"
    using assms(2) by (auto simp: recover_signer_def recover_struct_def split: if_splits option.splits)
  moreover have "\<not> s ! 64 < 27" using assms(3) by (auto simp: word_less_nat_alt)
  ultimately show ?thesis
    using assms(1,3) by (auto simp: ecrecover_law_def split_signature_def)
qed

lemma recover_any_v:
  assumes "ecrecover_law G ec" and "recover_signer G domain a s = Inr d" and "s ! 64 \<in> {0, 1, 27, 28}"
  shows "\<exists>v. split_signature s = Inr (v, bytes32_of (take 32 s), bytes32_of (take 32 (drop 32 s))) \<and>
    ec (digest G domain (struct_hash G a)) v (bytes32_of (take 32 s)) (bytes32_of (take 32 (drop 32 s))) = d"
proof (cases "s ! 64 \<in> {27, 28}")
  case True
  then show ?thesis using recover_ecrecover [OF assms(1,2)] by blast
next
  case False
  then have v: "s ! 64 = 0 \<or> s ! 64 = 1" using assms(3) by auto
  have s: "length s = 65" "sig_to_address G (digest G domain (struct_hash G a)) (unbump_v s) = Some d"
    using assms(2) by (auto simp: recover_signer_def recover_struct_def split: if_splits option.splits)
  have "unbump_v s = s" "s ! 64 < 27" using v by (auto simp: unbump_v_def word_le_nat_alt word_less_nat_alt)
  then have u: "unbump_v (bump_v s) = unbump_v s" using unbump_bump [OF s(1) v] by simp
  have b: "length (bump_v s) = 65" "bump_v s ! 64 = s ! 64 + 27" "take 32 (bump_v s) = take 32 s"
      "take 32 (drop 32 (bump_v s)) = take 32 (drop 32 s)"
    using s(1) by (simp_all add: bump_v_def drop_update_swap)
  have "s ! 64 + 27 \<in> {27, 28}" using v by auto
  then have "ec (digest G domain (struct_hash G a)) (s ! 64 + 27) (bytes32_of (take 32 s)) (bytes32_of (take 32 (drop 32 s))) = d"
    using assms(1) s(2) u b unfolding ecrecover_law_def by (metis b(2-4))
  then show ?thesis using s(1) \<open>s ! 64 < 27\<close> by (simp add: split_signature_def)
qed

text \<open>What the contract asks of a transfer by authorization, beyond the signature, the nonce and the payer's account.\<close>

definition payable :: "token \<Rightarrow> authorization \<Rightarrow> int \<Rightarrow> bool" where
  "payable t a time \<longleftrightarrow> \<not> tk_paused t \<and> au_to a \<noteq> 0 \<and> \<not> tk_frozen t (au_to a) \<and>
     (tk_allowlist_enabled t \<longrightarrow> tk_allowed t (au_from a) \<and> tk_allowed t (au_to a)) \<and>
     au_valid_after a < time \<and> time < au_valid_before a"

lemma transfer_payable:
  assumes "token_ok t" and "\<not> tk_authorization_state t (au_from a) (au_nonce a)" and "au_from a \<noteq> 0"
    and "ec (digest G (tk_domain_separator t) (struct_hash G a)) v r s = au_from a"
    and "nat (au_value a) \<le> tk_balance_of t (au_from a)" and "\<not> tk_frozen t (au_from a)"
  shows "if payable t a time
    then \<exists>t'. transfer_with_authorization G ec time a v r s t = Inr t' \<and>
      tk_authorization_state t' (au_from a) (au_nonce a) \<and>
      tk_balance_of t' = credit (debit (tk_balance_of t) (au_from a) (nat (au_value a))) (au_to a) (nat (au_value a))
    else \<exists>e. transfer_with_authorization G ec time a v r s t = Inl e"
proof -
  let ?b = "debit (tk_balance_of t) (au_from a) (nat (au_value a))"
  have "?b (au_to a) + nat (au_value a) \<le> (\<Sum>x\<in>UNIV. ?b x) + nat (au_value a)"
    using balance_le_sum [of ?b "au_to a"] by simp
  also have "\<dots> \<le> uint256_max"
    using sum_debit [of "nat (au_value a)" "tk_balance_of t" "au_from a"] assms(1,5)
    by (simp add: token_ok_def sum_balances_def)
  finally have "\<not> ?b (au_to a) + nat (au_value a) > uint256_max" by simp
  with assms show ?thesis
    by (auto simp: transfer_with_authorization_def settle_authorization_def move_tokens_def payable_def
        struct_hash_def Let_def)
qed

text \<open>The state of the contract in which nothing but the payment itself could revert.\<close>

definition token_open :: "token \<Rightarrow> address \<Rightarrow> bool" where
  "token_open t to \<longleftrightarrow> token_ok t \<and> \<not> tk_paused t \<and> \<not> tk_allowlist_enabled t \<and> to \<noteq> 0 \<and> \<not> tk_frozen t to"

section \<open>The rail a gateway settles on\<close>

text \<open>
  What a client of a facilitator relies on: an authorization is identified by payer and
  nonce, a successful settlement spends one that was not spent, and a spent one stays spent.
\<close>

locale payment_rail =
  fixes settle :: "'p \<Rightarrow> 'w \<Rightarrow> settlement_response result \<times> 'w"
    and key_of :: "'p \<Rightarrow> 'k option"
    and spent :: "'w \<Rightarrow> 'k set"
  assumes settle_spends: "fst (settle p w) = Inr sr \<Longrightarrow> sresp_success sr \<Longrightarrow>
      \<exists>k. key_of p = Some k \<and> k \<notin> spent w \<and> k \<in> spent (snd (settle p w))"
    and spent_stays: "spent w \<subseteq> spent (snd (settle p w))"
begin

text \<open>A run of settlements, and the keys that settled.\<close>

fun settle_run :: "'p list \<Rightarrow> 'w \<Rightarrow> 'k list \<times> 'w" where
  "settle_run [] w = ([], w)"
| "settle_run (p # ps) w =
     (let (out, w1) = settle p w; (ks, w2) = settle_run ps w1 in
      (case out of Inl _ \<Rightarrow> ks
       | Inr sr \<Rightarrow> if sresp_success sr then the (key_of p) # ks else ks, w2))"

lemma settle_run_fresh: "set (fst (settle_run ps w)) \<inter> spent w = {} \<and> distinct (fst (settle_run ps w))"
proof (induction ps arbitrary: w)
  case (Cons p ps)
  obtain out w1 where s: "settle p w = (out, w1)" by (cases "settle p w")
  obtain ks w2 where r: "settle_run ps w1 = (ks, w2)" by (cases "settle_run ps w1")
  have mono: "spent w \<subseteq> spent w1" using spent_stays [of w p] s by simp
  have IH: "set ks \<inter> spent w1 = {}" "distinct ks" using Cons.IH [of w1] r by auto
  show ?case
  proof (cases out)
    case (Inr sr)
    show ?thesis
    proof (cases "sresp_success sr")
      case True
      then obtain k where k: "key_of p = Some k" "k \<notin> spent w" "k \<in> spent w1"
        using settle_spends [of p w sr] s Inr by auto
      then show ?thesis using s r Inr True IH mono by auto
    qed (use s r Inr IH mono in auto)
  qed (use s r IH mono in auto)
qed simp

end

text \<open>The local facilitator, without DvP, on the contract.\<close>

definition local_settle ::
    "geth \<Rightarrow> ecrecover \<Rightarrow> int \<Rightarrow> payment_payload \<times> payment_requirements \<Rightarrow> chain \<Rightarrow>
     settlement_response result \<times> chain" where
  "local_settle G ec timeout pr c = facilitator_settle G (chain_api G ec)
     \<lparr>lf_timeout = timeout, lf_dvp = False, lf_asset_amount = 0, lf_domain = None\<rparr> (fst pr) (snd pr) c"

definition authorization_key :: "geth \<Rightarrow> payment_payload \<times> payment_requirements \<Rightarrow> (address \<times> bytes32) option" where
  "authorization_key G pr =
     (case parse_exact_payload G (pp_payload (fst pr)) of
        Inl _ \<Rightarrow> None | Inr (a, _) \<Rightarrow> Some (au_from a, au_nonce a))"

definition spent_on :: "chain \<Rightarrow> (address \<times> bytes32) set" where
  "spent_on c = {(p, n). tk_authorization_state (cn_token c) p n}"

lemma transfer_spends:
  "transfer_with_authorization G ec time a v r s t = Inr t' \<Longrightarrow>
    \<not> tk_authorization_state t (au_from a) (au_nonce a) \<and> tk_authorization_state t' (au_from a) (au_nonce a) \<and>
    (\<forall>p n. tk_authorization_state t p n \<longrightarrow> tk_authorization_state t' p n)"
  by (auto simp: transfer_with_authorization_def settle_authorization_def move_tokens_def Let_def split: if_splits)

text \<open>What a local settlement is, in one step.\<close>

lemma local_settle_cases:
  "(\<exists>e. local_settle G ec timeout pr c = (Inl e, c)) \<or>
   (\<exists>a s v r q sr. parse_exact_payload G (pp_payload (fst pr)) = Inr (a, s) \<and>
      split_signature s = Inr (v, r, q) \<and> fst (local_settle G ec timeout pr c) = Inr sr \<and>
      (case transfer_with_authorization G ec (cn_time c) a v r q (cn_token c) of
         Inl _ \<Rightarrow> \<not> sresp_success sr \<and> cn_token (snd (local_settle G ec timeout pr c)) = cn_token c
       | Inr t \<Rightarrow> sresp_success sr \<and> cn_token (snd (local_settle G ec timeout pr c)) = t))"
proof -
  let ?f = "\<lparr>lf_timeout = timeout, lf_dvp = False, lf_asset_amount = 0, lf_domain = None\<rparr>"
  consider (parse) e where "parse_exact_payload G (pp_payload (fst pr)) = Inl e"
    | (sig) a s e where "parse_exact_payload G (pp_payload (fst pr)) = Inr (a, s)" "split_signature s = Inl e"
    | (ok) a s v r q where "parse_exact_payload G (pp_payload (fst pr)) = Inr (a, s)"
        "split_signature s = Inr (v, r, q)"
    by (metis old.sum.exhaust prod_cases3 surj_pair)
  then show ?thesis
  proof cases
    case (ok a s v r q)
    then show ?thesis
      by (cases "auth_in_range a"; cases "transfer_with_authorization G ec (cn_time c) a v r q (cn_token c)")
        (auto simp: local_settle_def facilitator_settle_def chain_api_def)
  qed (simp_all add: local_settle_def facilitator_settle_def)
qed

lemma local_settle_success:
  assumes "fst (local_settle G ec timeout pr c) = Inr sr" and "sresp_success sr"
  obtains a s v r q t where "parse_exact_payload G (pp_payload (fst pr)) = Inr (a, s)"
    "split_signature s = Inr (v, r, q)"
    "transfer_with_authorization G ec (cn_time c) a v r q (cn_token c) = Inr t"
    "cn_token (snd (local_settle G ec timeout pr c)) = t"
proof -
  from local_settle_cases [of G ec timeout pr c] assms(1) obtain a s v r q where
    p: "parse_exact_payload G (pp_payload (fst pr)) = Inr (a, s)" "split_signature s = Inr (v, r, q)"
    and t: "case transfer_with_authorization G ec (cn_time c) a v r q (cn_token c) of
         Inl _ \<Rightarrow> \<not> sresp_success sr \<and> cn_token (snd (local_settle G ec timeout pr c)) = cn_token c
       | Inr t \<Rightarrow> sresp_success sr \<and> cn_token (snd (local_settle G ec timeout pr c)) = t"
    by auto
  show thesis
    using p t assms(2) that
    by (cases "transfer_with_authorization G ec (cn_time c) a v r q (cn_token c)") auto
qed

lemma local_settle_token:
  "cn_token (snd (local_settle G ec timeout pr c)) = cn_token c \<or>
   (\<exists>a v r q. transfer_with_authorization G ec (cn_time c) a v r q (cn_token c)
      = Inr (cn_token (snd (local_settle G ec timeout pr c))))"
  using local_settle_cases [of G ec timeout pr c]
proof (elim disjE exE conjE)
  fix a s v r q sr
  assume "case transfer_with_authorization G ec (cn_time c) a v r q (cn_token c) of
         Inl _ \<Rightarrow> \<not> sresp_success sr \<and> cn_token (snd (local_settle G ec timeout pr c)) = cn_token c
       | Inr t \<Rightarrow> sresp_success sr \<and> cn_token (snd (local_settle G ec timeout pr c)) = t"
  then show ?thesis
    by (cases "transfer_with_authorization G ec (cn_time c) a v r q (cn_token c)") auto
qed simp

interpretation rail: payment_rail "local_settle G ec timeout" "authorization_key G" spent_on for G ec timeout
proof unfold_locales
  fix pr c sr
  assume "fst (local_settle G ec timeout pr c) = Inr sr" and "sresp_success sr"
  then show "\<exists>k. authorization_key G pr = Some k \<and> k \<notin> spent_on c \<and> k \<in> spent_on (snd (local_settle G ec timeout pr c))"
    by (rule local_settle_success) (auto simp: authorization_key_def spent_on_def dest: transfer_spends)
next
  fix c pr
  show "spent_on c \<subseteq> spent_on (snd (local_settle G ec timeout pr c))"
    using local_settle_token [of G ec timeout pr c] by (auto simp: spent_on_def dest: transfer_spends)
qed

section \<open>Properties\<close>

lemma verified_facts:
  assumes "fst (facilitator_verify G api now c p reqs f) = Inr v" and "vr_is_valid v"
  shows "\<exists>a s domain price bal. parse_exact_payload G (pp_payload p) = Inr (a, s) \<and>
    pp_network p = pr_network reqs \<and>
    set_string10 (pr_max_amount_required reqs) = Some price \<and> price \<le> au_value a \<and>
    au_to a = fst (expected_recipient G reqs) \<and>
    au_valid_after a < unix_of now \<and> unix_of now + 5 < au_valid_before a \<and>
    fst (facilitator_domain api c f) = Inr domain \<and>
    (if snd (expected_recipient G reqs) then recover_receive_signer G domain a s
     else recover_signer G domain a s) = Inr (au_from a) \<and>
    cc_authorization_state api c (au_from a) (au_nonce a) = Inr False \<and>
    cc_balance_of api c (au_from a) = Inr bal \<and> au_value a \<le> bal \<and>
    cc_frozen api c (au_from a) = Inr False \<and> vr_payer v = address_hex G (au_from a)"
  using assms(1,2)
proof (rule facilitator_verify_valid)
  fix a s domain
  assume p: "parse_exact_payload G (pp_payload p) = Inr (a, s)" and t: "check_terms G now reqs a = None"
    and d: "fst (facilitator_domain api c f) = Inr domain"
    and sg: "(if snd (expected_recipient G reqs) then recover_receive_signer G domain a s
      else recover_signer G domain a s) = Inr (au_from a)"
    and ch: "check_chain G api c a = Inr v" and nw: "pp_network p = pr_network reqs"
  from check_terms_None [OF t] check_chain_valid [OF ch assms(2)] p d sg nw show ?thesis by blast
qed

text \<open>
  A valid verdict is earned: the facilitator calls a payment valid only if its payload
  parses to an authorization for this network that pays the expected recipient at least the
  price, is valid now and for five more seconds, is signed by its payer (as a receive
  authorization in DvP mode), is unused, covered by the balance and not frozen; the payer
  it reports is the signer.
\<close>

theorem verify_valid_sound:
  assumes "fst (facilitator_verify G api now c p reqs f) = Inr v" and "vr_is_valid v"
  shows "\<exists>a s domain price bal. parse_exact_payload G (pp_payload p) = Inr (a, s) \<and>
    pp_network p = pr_network reqs \<and>
    set_string10 (pr_max_amount_required reqs) = Some price \<and> price \<le> au_value a \<and>
    au_to a = fst (expected_recipient G reqs) \<and>
    au_valid_after a < unix_of now \<and> unix_of now + 5 < au_valid_before a \<and>
    fst (facilitator_domain api c f) = Inr domain \<and>
    (if snd (expected_recipient G reqs) then recover_receive_signer G domain a s
     else recover_signer G domain a s) = Inr (au_from a) \<and>
    cc_authorization_state api c (au_from a) (au_nonce a) = Inr False \<and>
    cc_balance_of api c (au_from a) = Inr bal \<and> au_value a \<le> bal \<and>
    cc_frozen api c (au_from a) = Inr False \<and> vr_payer v = address_hex G (au_from a)"
  using assms by (rule verified_facts)

lemma verified_settle_outcome:
  assumes "ecrecover_law G ec"
    and "fst (facilitator_verify G (chain_api G ec) now c p reqs f) = Inr v" and "vr_is_valid v"
    and "parse_exact_payload G (pp_payload p) = Inr (a, s)" and "s ! 64 \<in> {0, 1, 27, 28}"
    and "\<not> snd (expected_recipient G reqs)" and "lf_domain f \<in> {None, Some (Inr (tk_domain_separator (cn_token c)))}"
    and "token_ok (cn_token c)" and "au_from a \<noteq> 0" and "auth_in_range a"
  shows "\<exists>sr c'. local_settle G ec timeout (p, reqs) c = (Inr sr, c') \<and>
    (if payable (cn_token c) a (cn_time c)
     then sresp_success sr \<and> tk_authorization_state (cn_token c') (au_from a) (au_nonce a) \<and>
       tk_balance_of (cn_token c') =
         credit (debit (tk_balance_of (cn_token c)) (au_from a) (nat (au_value a))) (au_to a) (nat (au_value a))
     else \<not> sresp_success sr \<and> cn_token c' = cn_token c) \<and>
    au_valid_after a < unix_of now \<and> unix_of now + 5 < au_valid_before a"
  using assms(2,3)
proof (rule facilitator_verify_valid)
  fix a' s' domain
  assume p: "parse_exact_payload G (pp_payload p) = Inr (a', s')" and t: "check_terms G now reqs a' = None"
    and d: "fst (facilitator_domain (chain_api G ec) c f) = Inr domain"
    and sg: "(if snd (expected_recipient G reqs) then recover_receive_signer G domain a' s'
      else recover_signer G domain a' s') = Inr (au_from a')"
    and ch: "check_chain G (chain_api G ec) c a' = Inr v"
  have eq: "a' = a" "s' = s" using p assms(4) by auto
  have dom: "domain = tk_domain_separator (cn_token c)"
    using d assms(7) by (auto simp: facilitator_domain_def chain_api_def)
  have rec: "recover_signer G domain a s = Inr (au_from a)" using sg assms(6) eq by simp
  obtain vb where sp: "split_signature s = Inr (vb, bytes32_of (take 32 s), bytes32_of (take 32 (drop 32 s)))"
    and ecv: "ec (digest G (tk_domain_separator (cn_token c)) (struct_hash G a)) vb (bytes32_of (take 32 s))
      (bytes32_of (take 32 (drop 32 s))) = au_from a"
    using recover_any_v [OF assms(1) rec assms(5)] dom by blast
  have chain: "\<not> tk_authorization_state (cn_token c) (au_from a) (au_nonce a)"
    "nat (au_value a) \<le> tk_balance_of (cn_token c) (au_from a)" "\<not> tk_frozen (cn_token c) (au_from a)"
    using check_chain_valid [OF ch assms(3)] eq by (auto simp: chain_api_def)
  note tr = transfer_payable [of "cn_token c" a ec G vb "bytes32_of (take 32 s)" "bytes32_of (take 32 (drop 32 s))" "cn_time c",
      OF assms(8) chain(1) assms(9) ecv chain(2,3)]
  have times: "au_valid_after a < unix_of now \<and> unix_of now + 5 < au_valid_before a"
    using check_terms_None [OF t] eq by auto
  show ?thesis
  proof (cases "payable (cn_token c) a (cn_time c)")
    case True
    then obtain t' where "transfer_with_authorization G ec (cn_time c) a vb (bytes32_of (take 32 s))
        (bytes32_of (take 32 (drop 32 s))) (cn_token c) = Inr t'" "tk_authorization_state t' (au_from a) (au_nonce a)"
        "tk_balance_of t' = credit (debit (tk_balance_of (cn_token c)) (au_from a) (nat (au_value a))) (au_to a) (nat (au_value a))"
      using tr by auto
    then show ?thesis
      using assms(4,10) sp times True by (auto simp: local_settle_def facilitator_settle_def chain_api_def)
  next
    case False
    then obtain e where "transfer_with_authorization G ec (cn_time c) a vb (bytes32_of (take 32 s))
        (bytes32_of (take 32 (drop 32 s))) (cn_token c) = Inl e" using tr by auto
    then show ?thesis
      using assms(4,10) sp times False by (auto simp: local_settle_def facilitator_settle_def chain_api_def)
  qed
qed

lemma verified_settles:
  assumes "ecrecover_law G ec"
    and "fst (facilitator_verify G (chain_api G ec) now c p reqs f) = Inr v" and "vr_is_valid v"
    and "parse_exact_payload G (pp_payload p) = Inr (a, s)" and "s ! 64 = 27 \<or> s ! 64 = 28"
    and "\<not> snd (expected_recipient G reqs)" and "lf_domain f \<in> {None, Some (Inr (tk_domain_separator (cn_token c)))}"
    and "token_open (cn_token c) (au_to a)" and "au_from a \<noteq> 0" and "auth_in_range a"
    and "unix_of now \<le> cn_time c" and "cn_time c \<le> unix_of now + 5"
  shows "\<exists>sr c'. local_settle G ec timeout (p, reqs) c = (Inr sr, c') \<and> sresp_success sr \<and>
    tk_balance_of (cn_token c') =
      credit (debit (tk_balance_of (cn_token c)) (au_from a) (nat (au_value a))) (au_to a) (nat (au_value a)) \<and>
    tk_authorization_state (cn_token c') (au_from a) (au_nonce a)"
proof -
  have v: "s ! 64 \<in> {0, 1, 27, 28}" and ok: "token_ok (cn_token c)" using assms(5,8) by (auto simp: token_open_def)
  obtain sr c' where o: "local_settle G ec timeout (p, reqs) c = (Inr sr, c')"
      "if payable (cn_token c) a (cn_time c)
       then sresp_success sr \<and> tk_authorization_state (cn_token c') (au_from a) (au_nonce a) \<and>
         tk_balance_of (cn_token c') =
           credit (debit (tk_balance_of (cn_token c)) (au_from a) (nat (au_value a))) (au_to a) (nat (au_value a))
       else \<not> sresp_success sr \<and> cn_token c' = cn_token c"
      "au_valid_after a < unix_of now \<and> unix_of now + 5 < au_valid_before a"
    using verified_settle_outcome [OF assms(1-4) v assms(6,7) ok assms(9,10), of timeout] by blast
  have "payable (cn_token c) a (cn_time c)" using assms(8,11,12) o(3) by (auto simp: payable_def token_open_def)
  then show ?thesis using o by auto
qed


text \<open>
  A failed first read of the domain separator is for ever: the sync.Once caches the
  error with the value, so once one verification could not read it, every later verification
  of a payment that passes the terms fails with an error, whatever the chain answers then.
\<close>

theorem domain_error_is_cached:
  assumes "cc_domain api c = Inl e" and "lf_domain f = None"
    and "fst (facilitator_verify G api now c p reqs f) = Inl (''domain separator: '' @ e)"
    and "pp_version p' = x402_version" and "pp_scheme p' = scheme_exact" and "pp_network p' = pr_network reqs'"
    and "parse_exact_payload G (pp_payload p') = Inr (a, s)" and "check_terms G now' reqs' a = None"
  shows "fst (facilitator_verify G api now' c' p' reqs' (snd (facilitator_verify G api now c p reqs f)))
    = Inl (''domain separator: '' @ e)"
proof -
  have "check_terms G now reqs b \<noteq> Some (Inl (''domain separator: '' @ e))" for b
    by (auto simp: check_terms_def split: if_splits option.splits)
  then have "lf_domain (snd (facilitator_verify G api now c p reqs f)) = Some (Inl e)"
    using assms(1-3)
    by (auto simp: facilitator_verify_def facilitator_domain_def check_chain_def vr_invalid_def
        split: if_splits sum.splits option.splits)
  then show ?thesis
    using assms(4-8) by (simp add: facilitator_verify_def facilitator_domain_def)
qed

text \<open>
  The rail is safe against double settlement: over any sequence of settlements through
  the local facilitator, the pairs of payer and nonce that settle successfully are distinct,
  and none of them had been spent on chain before.
\<close>

theorem settles_at_most_once:
  "distinct (fst (rail.settle_run G ec timeout prs c)) \<and>
   set (fst (rail.settle_run G ec timeout prs c)) \<inter> spent_on c = {}"
  using rail.settle_run_fresh by blast

section \<open>Witnesses\<close>

text \<open>The agent 2 signs 60 to the payee 3 with its key 2, on a contract where it holds 100.\<close>

definition sample_ec :: ecrecover where
  "sample_ec h v r s = ucast r"

lemma sample_ec_law [simp]: "ecrecover_law sample_geth sample_ec"
  by (auto simp: ecrecover_law_def sample_geth_def sample_ec_def unbump_v_def split: if_splits)

definition pay_auth :: authorization where
  "pay_auth = \<lparr>au_from = 2, au_to = 3, au_value = 60, au_valid_after = 0, au_valid_before = 2000, au_nonce = 5\<rparr>"

definition pay_signature :: "byte list" where
  "pay_signature = bump_v (bytes32_bytes 2 @ bytes32_bytes (digest sample_geth 0 (struct_hash sample_geth pay_auth)) @ [0])"

definition pay_payload :: payment_payload where
  "pay_payload = \<lparr>pp_version = 1, pp_scheme = ''exact'', pp_network = ''eip155:1337'',
     pp_payload = \<lparr>ep_signature = ''0x'' @ hex_encode pay_signature,
       ep_authorization = \<lparr>aj_from = address_hex sample_geth 2, aj_to = address_hex sample_geth 3,
         aj_value = ''60'', aj_valid_after = ''0'', aj_valid_before = ''2000'',
         aj_nonce = ''0x'' @ hex_encode (bytes32_bytes 5)\<rparr>,
       ep_nonce_seed = ''''\<rparr>,
     pp_mandate = None, pp_confirmation = None, pp_session = None\<rparr>"

definition pay_requirements :: payment_requirements where
  "pay_requirements = \<lparr>pr_scheme = ''exact'', pr_network = ''eip155:1337'', pr_max_amount_required = ''60'',
     pr_resource = ''/doc'', pr_description = '''', pr_mime_type = '''', pr_pay_to = address_hex sample_geth 3,
     pr_max_timeout_seconds = 60, pr_asset = '''', pr_extra = []\<rparr>"

definition pay_token :: token where
  "pay_token = (token_new 1 0)\<lparr>tk_total_supply := 100, tk_balance_of := (\<lambda>_. 0)(2 := 100)\<rparr>"

definition pay_chain :: chain where
  "pay_chain = \<lparr>cn_token = pay_token, cn_time = 1002, cn_receipts = []\<rparr>"

definition plain_facilitator :: local_facilitator where
  "plain_facilitator = \<lparr>lf_timeout = 0, lf_dvp = False, lf_asset_amount = 0, lf_domain = None\<rparr>"

lemma pay_signature_length [simp]: "length pay_signature = 65"
  by (simp add: pay_signature_def bump_v_def)

lemma pay_signature_v: "pay_signature ! 64 = 27"
  by (simp add: pay_signature_def bump_v_def nth_append)

lemma pay_parse [simp]: "parse_exact_payload sample_geth (pp_payload pay_payload) = Inr (pay_auth, pay_signature)"
proof -
  have "is_hex_address sample_geth (address_hex sample_geth a)" "hex_to_address sample_geth (address_hex sample_geth a) = a"
    for a using geth_textD(1,2) [OF sample_geth_text] by blast+
  moreover have "set_string10 ''60'' = Some 60" "set_string10 ''0'' = Some 0" "set_string10 ''2000'' = Some 2000"
    by code_simp+
  ultimately show ?thesis
    by (simp add: parse_exact_payload_def pay_payload_def decode_0x_def Let_def pay_auth_def)
qed

lemma pay_recipient [simp]: "expected_recipient sample_geth pay_requirements = (3, False)"
  using geth_textD(2) [OF sample_geth_text, of 3] by (simp add: expected_recipient_def pay_requirements_def)

lemma pay_terms [simp]: "check_terms sample_geth 1000000000000 pay_requirements pay_auth = None"
proof -
  have "is_hex_address sample_geth (address_hex sample_geth 3)" using geth_textD(1) [OF sample_geth_text] .
  moreover have "set_string10 ''60'' = Some 60" by code_simp
  moreover have "unix_of 1000000000000 = 1000" by (simp add: unix_of_def ns_per_second_def)
  ultimately show ?thesis
    by (simp add: check_terms_def) (simp add: pay_requirements_def pay_auth_def)
qed

lemma pay_recovers [simp]: "recover_signer sample_geth 0 pay_auth pay_signature = Inr 2"
proof -
  let ?h = "digest sample_geth 0 (struct_hash sample_geth pay_auth)"
  have "crypto_sign sample_geth ?h 2 = Some (bytes32_bytes 2 @ bytes32_bytes ?h @ [0])"
    by (simp add: sample_geth_def)
  from recover_crypto_sign [OF sample_geth_sig this] show ?thesis
    by (simp add: recover_signer_def pay_signature_def sample_geth_def)
qed

lemma pay_verifies:
  "fst (facilitator_verify sample_geth (chain_api sample_geth sample_ec) 1000000000000 pay_chain pay_payload
      pay_requirements plain_facilitator)
    = Inr \<lparr>vr_is_valid = True, vr_invalid_reason = '''', vr_payer = address_hex sample_geth 2\<rparr>"
proof -
  have pre: "pp_version pay_payload = x402_version" "pp_scheme pay_payload = scheme_exact"
      "pp_network pay_payload = pr_network pay_requirements"
    by (simp_all add: pay_payload_def pay_requirements_def x402_version_def scheme_exact_def)
  have dom: "facilitator_domain (chain_api sample_geth sample_ec) pay_chain plain_facilitator
      = (Inr 0, plain_facilitator\<lparr>lf_domain := Some (Inr 0)\<rparr>)"
    by (simp add: facilitator_domain_def plain_facilitator_def chain_api_def pay_chain_def pay_token_def token_new_def)
  have au: "au_from pay_auth = 2" by (simp add: pay_auth_def)
  have "check_chain sample_geth (chain_api sample_geth sample_ec) pay_chain pay_auth
      = Inr \<lparr>vr_is_valid = True, vr_invalid_reason = '''', vr_payer = address_hex sample_geth 2\<rparr>"
    by (simp add: check_chain_def chain_api_def pay_chain_def pay_token_def token_new_def pay_auth_def)
  then show ?thesis by (simp add: facilitator_verify_def pre dom au)
qed

theorem verify_valid_witness:
  "\<exists>a. au_value a \<ge> 60 \<and> recover_signer sample_geth 0 a pay_signature = Inr (au_from a)"
proof -
  have d: "fst (facilitator_domain (chain_api sample_geth sample_ec) pay_chain plain_facilitator) = Inr 0"
    by (simp add: facilitator_domain_def plain_facilitator_def chain_api_def pay_chain_def pay_token_def token_new_def)
  have "set_string10 ''60'' = Some 60" by code_simp
  then have price: "set_string10 (pr_max_amount_required pay_requirements) = Some 60"
    by (simp add: pay_requirements_def)
  have ok: "vr_is_valid \<lparr>vr_is_valid = True, vr_invalid_reason = '''', vr_payer = address_hex sample_geth 2\<rparr>"
    by simp
  from verify_valid_sound [OF pay_verifies ok] obtain a s domain p where
    "parse_exact_payload sample_geth (pp_payload pay_payload) = Inr (a, s)" "p \<le> au_value a"
    "set_string10 (pr_max_amount_required pay_requirements) = Some p"
    "fst (facilitator_domain (chain_api sample_geth sample_ec) pay_chain plain_facilitator) = Inr domain"
    "(if snd (expected_recipient sample_geth pay_requirements) then recover_receive_signer sample_geth domain a s
      else recover_signer sample_geth domain a s) = Inr (au_from a)"
    by blast
  with price d show ?thesis by (intro exI [of _ a]) simp
qed


theorem domain_error_witness:
  "fst (facilitator_verify sample_geth ((chain_api sample_geth sample_ec)\<lparr>cc_domain := (\<lambda>c. if cn_time c = 1 then Inl ''rpc'' else Inr 0)\<rparr>)
      1000000000000 pay_chain pay_payload pay_requirements
      (plain_facilitator\<lparr>lf_domain := Some (Inl ''rpc'')\<rparr>)) = Inl ''domain separator: rpc''"
proof -
  let ?api = "(chain_api sample_geth sample_ec)\<lparr>cc_domain := (\<lambda>c. if cn_time c = 1 then Inl ''rpc'' else Inr 0)\<rparr>"
  let ?c = "pay_chain\<lparr>cn_time := 1\<rparr>"
  have pre: "pp_version pay_payload = x402_version" "pp_scheme pay_payload = scheme_exact"
      "pp_network pay_payload = pr_network pay_requirements"
    by (simp_all add: pay_payload_def pay_requirements_def x402_version_def scheme_exact_def)
  have fail: "facilitator_verify sample_geth ?api 1000000000000 ?c pay_payload pay_requirements plain_facilitator
      = (Inl ''domain separator: rpc'', plain_facilitator\<lparr>lf_domain := Some (Inl ''rpc'')\<rparr>)"
    by (simp add: facilitator_verify_def pre facilitator_domain_def) (simp add: plain_facilitator_def)
  show ?thesis
    using domain_error_is_cached [of ?api ?c "''rpc''" plain_facilitator sample_geth 1000000000000 pay_payload
        pay_requirements, OF _ _ _ pre pay_parse pay_terms, of pay_chain] fail
    by (simp add: plain_facilitator_def)
qed

end
