(* ===== verification/Gateway.thy ===== *)
theory Gateway
  imports Policy Journal Receipt Facilitator
begin

text \<open>
  The payment gateway (\<open>x402/gateway.go\<close>) with its counters (\<open>x402/metrics.go\<close>): payment
  terms, the verify-decide-settle-deliver flow, deferred payments, refunds, receipts,
  revocations, and the rebuild of its state from the journal.

  A gateway is \<open>'w gateway_env\<close>, the fields that are set once, and \<open>'w gateway\<close>, the state.
  Facilitator, Deliverer, Refunder, chain head, clock, random source and disk are external:
  functions of a world \<open>'w\<close>, which the calls that can change it return anew. A handler runs
  as one step here; the code takes its locks one at a time, and the properties that depend
  on what happens in between are stated over the pieces.
\<close>

section \<open>metrics.go\<close>

record metrics =
  mt_requests :: int
  mt_refusals :: "string \<rightharpoonup> int"
  mt_settle_success :: int
  mt_settle_fail :: int
  mt_deliveries :: int
  mt_refunds :: int
  mt_sessions_opened :: int
  mt_sessions_settled :: int
  mt_settle_latency_sum :: real
  mt_settle_latency_count :: int

definition new_metrics :: metrics where
  "new_metrics = \<lparr>mt_requests = 0, mt_refusals = Map.empty, mt_settle_success = 0, mt_settle_fail = 0,
     mt_deliveries = 0, mt_refunds = 0, mt_sessions_opened = 0, mt_sessions_settled = 0,
     mt_settle_latency_sum = 0, mt_settle_latency_count = 0\<rparr>"

text \<open>Every method on a nil receiver does nothing: the methods below are mapped over an option.\<close>

definition inc_request :: "metrics \<Rightarrow> metrics" where
  "inc_request m = m\<lparr>mt_requests := mt_requests m + 1\<rparr>"

definition inc_refusal :: "string \<Rightarrow> metrics \<Rightarrow> metrics" where
  "inc_refusal code m = m\<lparr>mt_refusals := (mt_refusals m)
     (code \<mapsto> (case mt_refusals m code of None \<Rightarrow> 0 | Some n \<Rightarrow> n) + 1)\<rparr>"

definition inc_settle_success :: "metrics \<Rightarrow> metrics" where
  "inc_settle_success m = m\<lparr>mt_settle_success := mt_settle_success m + 1\<rparr>"

definition inc_settle_fail :: "metrics \<Rightarrow> metrics" where
  "inc_settle_fail m = m\<lparr>mt_settle_fail := mt_settle_fail m + 1\<rparr>"

definition inc_delivery :: "metrics \<Rightarrow> metrics" where
  "inc_delivery m = m\<lparr>mt_deliveries := mt_deliveries m + 1\<rparr>"

definition inc_refund :: "metrics \<Rightarrow> metrics" where
  "inc_refund m = m\<lparr>mt_refunds := mt_refunds m + 1\<rparr>"

definition inc_session_opened :: "metrics \<Rightarrow> metrics" where
  "inc_session_opened m = m\<lparr>mt_sessions_opened := mt_sessions_opened m + 1\<rparr>"

definition inc_session_settled :: "metrics \<Rightarrow> metrics" where
  "inc_session_settled m = m\<lparr>mt_sessions_settled := mt_sessions_settled m + 1\<rparr>"

definition observe_settle_latency :: "int \<Rightarrow> metrics \<Rightarrow> metrics" where
  "observe_settle_latency d m = m\<lparr>
     mt_settle_latency_sum := mt_settle_latency_sum m + real_of_int d / real_of_int ns_per_second,
     mt_settle_latency_count := mt_settle_latency_count m + 1\<rparr>"

section \<open>State\<close>

text \<open>A restored settlement whose amount does not parse holds a nil amount.\<close>

record settlement_record =
  st_payer :: address
  st_amount :: "int option"
  st_tx_hash :: bytes32
  st_time :: int
  st_delivery_tx :: bytes32

record deferred_settlement =
  df_record :: settlement_record
  df_submitted_block :: nat

record payment_session =
  ps_payload :: payment_payload
  ps_reqs :: payment_requirements
  ps_pc :: payment_context
  ps_payer :: address
  ps_budget :: int
  ps_spent :: int
  ps_valid_before :: int
  ps_settled :: bool

record 'w gateway_env =
  ge_geth :: geth
  ge_token_address :: address
  ge_pay_to :: address
  ge_price :: int
  ge_network :: string
  ge_timeout :: int
  ge_dvp_address :: address
  ge_require_bound_nonce :: bool
  ge_receipt_key :: "bytes32 option"
  ge_confirm_depth :: nat
  ge_sessions_enabled :: bool
  ge_policy :: "'w \<Rightarrow> policy option"
  ge_scorer :: "(payment_context \<Rightarrow> real) option"
  ge_verify :: "payment_payload \<Rightarrow> payment_requirements \<Rightarrow> 'w \<Rightarrow> verify_result option result \<times> 'w"
  ge_settle :: "payment_payload \<Rightarrow> payment_requirements \<Rightarrow> 'w \<Rightarrow> settlement_response option result \<times> 'w"
  ge_deliverer :: "(address \<Rightarrow> 'w \<Rightarrow> bytes32 result \<times> 'w) option"
  ge_refunder :: "(address \<Rightarrow> int option \<Rightarrow> 'w \<Rightarrow> bytes32 result \<times> 'w) option"
  ge_head :: "'w \<Rightarrow> nat result"
  ge_tx_block :: "bytes32 \<Rightarrow> 'w \<Rightarrow> nat option"
  ge_now :: "'w \<Rightarrow> int"
  ge_random :: "'w \<Rightarrow> bytes32 option \<times> 'w"
  ge_disk :: "journal_entry \<Rightarrow> 'w \<Rightarrow> io"

record 'w gateway =
  gw_world :: 'w
  gw_store :: policy_store
  gw_journal :: "journal option"
  gw_settlements :: "settlement_record list"
  gw_inflight :: "bytes32 \<rightharpoonup> deferred_settlement"
  gw_sessions :: "string \<rightharpoonup> payment_session"
  gw_metrics :: "metrics option"

record failure =
  fl_code :: errcode
  fl_reason :: string
  fl_ask :: "ask_request option"

definition fail :: "errcode \<Rightarrow> string \<Rightarrow> failure" where
  "fail code reason = \<lparr>fl_code = code, fl_reason = reason, fl_ask = None\<rparr>"

definition count :: "(metrics \<Rightarrow> metrics) \<Rightarrow> 'w gateway \<Rightarrow> 'w gateway" where
  "count f s = s\<lparr>gw_metrics := map_option f (gw_metrics s)\<rparr>"

definition now :: "'w gateway_env \<Rightarrow> 'w gateway \<Rightarrow> int" where
  "now E s = ge_now E (gw_world s)"

section \<open>Terms and policy\<close>

definition gateway_timeout :: "'w gateway_env \<Rightarrow> int" where
  "gateway_timeout E = (if ge_timeout E = 0 then 60 * ns_per_second else ge_timeout E)"

text \<open>\<open>int(d.Seconds())\<close>, which truncates towards zero.\<close>

definition whole_seconds :: "int \<Rightarrow> int" where
  "whole_seconds d = (if 0 \<le> d then d div ns_per_second else - ((- d) div ns_per_second))"

definition requirements :: "'w gateway_env \<Rightarrow> string \<Rightarrow> payment_requirements" where
  "requirements E resource = \<lparr>
     pr_scheme = scheme_exact,
     pr_network = ge_network E,
     pr_max_amount_required = big_show (ge_price E),
     pr_resource = resource,
     pr_description = ''x402 protected resource'',
     pr_mime_type = ''application/json'',
     pr_pay_to = address_hex (ge_geth E) (ge_pay_to E),
     pr_max_timeout_seconds = whole_seconds (gateway_timeout E),
     pr_asset = address_hex (ge_geth E) (ge_token_address E),
     pr_extra = [(''name'', ''KRW Test Stablecoin''), (''version'', ''1'')] @
       (if ge_dvp_address E \<noteq> 0 then [(''dvp'', address_hex (ge_geth E) (ge_dvp_address E))] else [])\<rparr>"

definition gateway_policy :: "'w gateway_env \<Rightarrow> 'w gateway \<Rightarrow> policy" where
  "gateway_policy E s = (case ge_policy E (gw_world s) of Some p \<Rightarrow> p | None \<Rightarrow> AlwaysVerify)"

fun chain_mandates :: "policy list \<Rightarrow> mandate_policy list" where
  "chain_mandates [] = []"
| "chain_mandates (MandatePolicy p # ps) = p # chain_mandates ps"
| "chain_mandates (_ # ps) = chain_mandates ps"

text \<open>\<open>settlers\<close>: MandatePolicy is the one policy with a Settled method; a Chain has none.\<close>

fun settlers_of :: "policy \<Rightarrow> mandate_policy list" where
  "settlers_of (Chain ps) = chain_mandates ps"
| "settlers_of (MandatePolicy p) = [p]"
| "settlers_of _ = []"

definition mandate_policy_of :: "policy \<Rightarrow> mandate_policy option" where
  "mandate_policy_of pol = (case settlers_of pol of [] \<Rightarrow> None | p # _ \<Rightarrow> Some p)"

text \<open>The \<open>notify\<close> closure of settle, and the same loop in settleSession.\<close>

definition notify :: "'w gateway_env \<Rightarrow> payment_context \<Rightarrow> bool \<Rightarrow> 'w gateway \<Rightarrow> 'w gateway" where
  "notify E pc ok s = s\<lparr>gw_store :=
     foldl (\<lambda>st p. mandate_settled (ge_geth E) (now E s) p pc ok st) (gw_store s)
       (settlers_of (gateway_policy E s))\<rparr>"

definition enrich :: "'w gateway_env \<Rightarrow> 'w gateway \<Rightarrow> payment_context \<Rightarrow> payment_context" where
  "enrich E s pc =
     (let pc1 = (case (mandate_policy_of (gateway_policy E s), pp_mandate (pc_payload pc)) of
                   (Some mp, Some sm) \<Rightarrow> pc\<lparr>pc_history := Some (mp_delegator_history mp (gw_store s)
                     (hex_to_address (ge_geth E) (mj_delegator (smj_mandate sm))))\<rparr>
                 | _ \<Rightarrow> pc) in
      case ge_scorer E of None \<Rightarrow> pc1 | Some f \<Rightarrow> pc1\<lparr>pc_risk_score := f pc1\<rparr>)"

text \<open>\<open>g.policy().Decide(ctx, pc)\<close> on the gateway's policy state.\<close>

definition gateway_decide :: "'w gateway_env \<Rightarrow> payment_context \<Rightarrow> 'w gateway \<Rightarrow> decision \<times> 'w gateway" where
  "gateway_decide E pc s =
     (let (d, st) = decide (ge_geth E) (now E s) (gateway_policy E s) pc (gw_store s) in
      (d, s\<lparr>gw_store := st\<rparr>))"

section \<open>Journal entries\<close>

definition append_entry ::
    "'w gateway_env \<Rightarrow> journal_entry \<Rightarrow> 'w gateway \<Rightarrow> string option \<times> 'w gateway" where
  "append_entry E e s =
     (case gw_journal s of
        None \<Rightarrow> (None, s)
      | Some j \<Rightarrow> (let (err, j') = journal_append (ge_disk E e (gw_world s)) e j in
                  (err, s\<lparr>gw_journal := Some j'\<rparr>)))"

definition blank_entry :: journal_entry where
  "blank_entry = \<lparr>je_id = '''', je_payer = '''', je_amount = '''', je_tx_hash = '''', je_network = '''',
     je_at = 0, je_kind = '''', je_receipt = None, je_decision = None, je_revocation = None\<rparr>"

text \<open>\<open>Amount.String()\<close>, whose nil receiver prints so.\<close>

definition amount_text :: "int option \<Rightarrow> string" where
  "amount_text x = (case x of None \<Rightarrow> ''<nil>'' | Some n \<Rightarrow> big_show n)"

definition settlement_entry :: "'w gateway_env \<Rightarrow> settlement_record \<Rightarrow> journal_entry" where
  "settlement_entry E r = blank_entry\<lparr>
     je_id := hash_hex (ge_geth E) (st_tx_hash r),
     je_payer := address_hex (ge_geth E) (st_payer r),
     je_amount := amount_text (st_amount r),
     je_tx_hash := hash_hex (ge_geth E) (st_tx_hash r),
     je_network := ge_network E,
     je_at := unix_of (st_time r)\<rparr>"

definition nonce_hex :: "'w gateway_env \<Rightarrow> payment_context \<Rightarrow> string" where
  "nonce_hex E pc = ''0x'' @ hex_encode (bytes32_bytes (fst (payload_nonce (ge_geth E) (pc_payload pc))))"

definition decision_entry ::
    "'w gateway_env \<Rightarrow> payment_context \<Rightarrow> decision \<Rightarrow> bool \<Rightarrow> 'w gateway \<Rightarrow> journal_entry" where
  "decision_entry E pc d settled s =
     (let amount = (case payment_amount pc of Some a \<Rightarrow> big_show a | None \<Rightarrow> ''0'') in
      blank_entry\<lparr>
        je_id := nonce_hex E pc @ (if settled then '':decision:settled'' else '':decision''),
        je_payer := (case pc_verification pc of None \<Rightarrow> '''' | Some v \<Rightarrow> vr_payer v),
        je_amount := amount,
        je_network := ge_network E,
        je_at := unix_of (now E s),
        je_kind := ''decision'',
        je_decision := Some \<lparr>
          dr_nonce = nonce_hex E pc,
          dr_amount = amount,
          dr_risk_score = pc_risk_score pc,
          dr_stage = stage_int (pc_stage pc),
          dr_asks_so_far = (case pc_history pc of None \<Rightarrow> 0 | Some h \<Rightarrow> dh_asks h),
          dr_mandate_id = (case pp_mandate (pc_payload pc) of None \<Rightarrow> ''''
                           | Some sm \<Rightarrow> mj_mandate_id (smj_mandate sm)),
          dr_action = action_int (d_action d),
          dr_code = errcode_string (d_code d),
          dr_settled = settled\<rparr>\<rparr>)"

definition record_decision ::
    "'w gateway_env \<Rightarrow> payment_context \<Rightarrow> decision \<Rightarrow> bool \<Rightarrow> 'w gateway \<Rightarrow> 'w gateway" where
  "record_decision E pc d settled s = snd (append_entry E (decision_entry E pc d settled s) s)"

definition record_revocation ::
    "'w gateway_env \<Rightarrow> string \<Rightarrow> address \<Rightarrow> string \<Rightarrow> 'w gateway \<Rightarrow> 'w gateway" where
  "record_revocation E mandate_id_hex delegator signature s =
     snd (append_entry E (blank_entry\<lparr>
       je_id := mandate_id_hex @ '':revocation'',
       je_network := ge_network E,
       je_at := unix_of (now E s),
       je_kind := ''revocation'',
       je_revocation := Some \<lparr>rr_mandate_id = mandate_id_hex,
         rr_delegator = address_hex (ge_geth E) delegator, rr_signature = signature\<rparr>\<rparr>) s)"

definition journal_refund :: "'w gateway_env \<Rightarrow> settlement_record \<Rightarrow> bytes32 \<Rightarrow> 'w gateway \<Rightarrow> 'w gateway" where
  "journal_refund E r refund_tx s = snd (append_entry E (blank_entry\<lparr>
     je_id := hash_hex (ge_geth E) refund_tx,
     je_payer := address_hex (ge_geth E) (st_payer r),
     je_amount := amount_text (st_amount r),
     je_tx_hash := hash_hex (ge_geth E) refund_tx,
     je_network := ge_network E,
     je_at := unix_of (now E s),
     je_kind := ''refund''\<rparr>) s)"

definition journal_refund_pending :: "'w gateway_env \<Rightarrow> settlement_record \<Rightarrow> 'w gateway \<Rightarrow> 'w gateway" where
  "journal_refund_pending E r s = snd (append_entry E (blank_entry\<lparr>
     je_id := hash_hex (ge_geth E) (st_tx_hash r) @ '':refund_pending'',
     je_payer := address_hex (ge_geth E) (st_payer r),
     je_amount := amount_text (st_amount r),
     je_tx_hash := hash_hex (ge_geth E) (st_tx_hash r),
     je_network := ge_network E,
     je_at := unix_of (now E s),
     je_kind := ''refund_pending''\<rparr>) s)"

section \<open>Resource binding and refusals\<close>

definition check_resource_binding ::
    "'w gateway_env \<Rightarrow> payment_payload \<Rightarrow> payment_requirements \<Rightarrow> failure option" where
  "check_resource_binding E p reqs =
     (if pp_confirmation p \<noteq> None then None
      else if ep_nonce_seed (pp_payload p) = '''' then
        (if ge_require_bound_nonce E
         then Some (fail ErrCodeNonceUnbound ''payment is not bound to the resource: no nonce seed'')
         else None)
      else case hex_to_32 (ep_nonce_seed (pp_payload p)) of
        Inl e \<Rightarrow> Some (fail ErrCodeNonceUnbound ''invalid nonce seed'')
      | Inr seed \<Rightarrow>
         (let (nonce, ok) = payload_nonce (ge_geth E) p in
          if \<not> ok then Some (fail ErrCodeNonceUnbound ''unreadable authorization nonce'')
          else if bound_nonce (ge_geth E) seed (pr_resource reqs) \<noteq> nonce then
            Some (fail ErrCodeNonceUnbound ''authorization nonce is not bound to this resource'')
          else None))"

definition ask_from_context :: "payment_context \<Rightarrow> ask_request" where
  "ask_from_context pc = \<lparr>
     ask_mandate_id = (case pp_mandate (pc_payload pc) of None \<Rightarrow> ''''
                       | Some sm \<Rightarrow> mj_mandate_id (smj_mandate sm)),
     ask_authorization_nonce = aj_nonce (ep_authorization (pp_payload (pc_payload pc))),
     ask_amount = aj_value (ep_authorization (pp_payload (pc_payload pc))),
     ask_resource = pr_resource (pc_requirements pc)\<rparr>"

definition decision_code :: "decision \<Rightarrow> errcode" where
  "decision_code d = (if d_code d = NoCode then code_for_action (d_action d) else d_code d)"

definition refusal :: "decision \<Rightarrow> payment_context \<Rightarrow> verify_result option \<Rightarrow> failure" where
  "refusal d pc vr = \<lparr>
     fl_code = decision_code d,
     fl_reason = (if d_reason d \<noteq> '''' then d_reason d
                  else case vr of
                    Some v \<Rightarrow> if vr_invalid_reason v \<noteq> '''' then vr_invalid_reason v
                              else ''payment verification failed''
                  | None \<Rightarrow> ''payment verification failed''),
     fl_ask = (if d_action d = ActionAsk then Some (ask_from_context pc) else None)\<rparr>"

section \<open>Settlement\<close>

definition settle ::
    "'w gateway_env \<Rightarrow> payment_payload \<Rightarrow> payment_requirements \<Rightarrow> payment_context \<Rightarrow> 'w gateway \<Rightarrow>
     (failure + settlement_record) \<times> 'w gateway" where
  "settle E p reqs pc s0 =
     (let (out, w) = ge_settle E p reqs (gw_world s0);
          s = count (observe_settle_latency (ge_now E w - now E s0)) (s0\<lparr>gw_world := w\<rparr>);
          refuse = (\<lambda>f. (Inl f, count inc_settle_fail (notify E pc False s))) in
      case out of
        Inl e \<Rightarrow> refuse (fail ErrCodeSettlementError (''settlement error: '' @ e))
      | Inr None \<Rightarrow> refuse (fail ErrCodeSettlementFailed ''settlement failed'')
      | Inr (Some sr) \<Rightarrow>
          if \<not> sresp_success sr then
            refuse (fail ErrCodeSettlementFailed
              (if sresp_error_reason sr \<noteq> '''' then sresp_error_reason sr else ''settlement failed''))
          else (case parse_exact_payload (ge_geth E) (pp_payload p) of
            Inl e \<Rightarrow> (Inl (fail ErrCodeSettlementError (''record settlement: '' @ e)), notify E pc False s)
          | Inr (auth, _) \<Rightarrow>
             (let r = \<lparr>st_payer = au_from auth, st_amount = Some (au_value auth),
                       st_tx_hash = hex_to_hash (ge_geth E) (sresp_transaction sr),
                       st_time = now E s, st_delivery_tx = 0\<rparr> in
              case append_entry E (settlement_entry E r) s of
                (Some err, s1) \<Rightarrow>
                  (Inl (fail ErrCodeSettlementError (''journal settlement: '' @ err)), notify E pc False s1)
              | (None, s1) \<Rightarrow>
                 (let s2 = notify E pc True s1;
                      s3 = s2\<lparr>gw_settlements := gw_settlements s2 @ [r]\<rparr>;
                      s4 = record_decision E pc approve True s3 in
                  (Inr r, count inc_settle_success s4)))))"

definition refund ::
    "'w gateway_env \<Rightarrow> settlement_record \<Rightarrow> string \<Rightarrow> 'w gateway \<Rightarrow> (failure + settlement_record) \<times> 'w gateway" where
  "refund E r deliver_err s0 =
     (let s = count inc_refund s0;
          prefix = ''settled in '' @ hash_hex (ge_geth E) (st_tx_hash r) @ '', delivery failed ('' @ deliver_err @ '')'';
          failed = (\<lambda>text. Inl (fail ErrCodeDeliveryFailed (prefix @ text))) in
      case ge_refunder E of
        None \<Rightarrow> (failed ''; refund pending (gateway holds no key to refund)'', journal_refund_pending E r s)
      | Some rf \<Rightarrow> (case rf (st_payer r) (st_amount r) (gw_world s) of
          (Inl e, w) \<Rightarrow> (failed ('', refund also failed ('' @ e @ ''); refund left pending''),
                       journal_refund_pending E r (s\<lparr>gw_world := w\<rparr>))
        | (Inr tx, w) \<Rightarrow> (failed (''; refunded in '' @ hash_hex (ge_geth E) tx),
                        journal_refund E r tx (s\<lparr>gw_world := w\<rparr>))))"

definition deliver ::
    "'w gateway_env \<Rightarrow> settlement_record \<Rightarrow> 'w gateway \<Rightarrow> (failure + settlement_record) \<times> 'w gateway" where
  "deliver E r s =
     (case ge_deliverer E of
        None \<Rightarrow> (Inr r, s)
      | Some dl \<Rightarrow> (case dl (st_payer r) (gw_world s) of
          (Inl e, w) \<Rightarrow> refund E r e (s\<lparr>gw_world := w\<rparr>)
        | (Inr tx, w) \<Rightarrow> (Inr (r\<lparr>st_delivery_tx := tx\<rparr>), count inc_delivery (s\<lparr>gw_world := w\<rparr>))))"

section \<open>Deferred payments\<close>

definition submitted_block :: "'w gateway_env \<Rightarrow> bytes32 \<Rightarrow> 'w gateway \<Rightarrow> nat" where
  "submitted_block E tx s = (case ge_tx_block E tx (gw_world s) of None \<Rightarrow> 0 | Some n \<Rightarrow> n)"

definition stage_of :: "'w gateway_env \<Rightarrow> nat \<Rightarrow> 'w gateway \<Rightarrow> stage result" where
  "stage_of E block s =
     (case ge_head E (gw_world s) of
        Inl e \<Rightarrow> Inl e
      | Inr head \<Rightarrow>
          if head < block then
            Inl (''settlement block '' @ show_nat block @ '' rolled back below head '' @ show_nat head)
          else if head - block \<ge> ge_confirm_depth E then Inr StageConfirmed
          else Inr StageSubmitted)"

definition inflight_get :: "bytes32 \<Rightarrow> 'w gateway \<Rightarrow> deferred_settlement option" where
  "inflight_get nonce s = gw_inflight s nonce"

definition inflight_put :: "bytes32 \<Rightarrow> deferred_settlement \<Rightarrow> 'w gateway \<Rightarrow> 'w gateway" where
  "inflight_put nonce df s = s\<lparr>gw_inflight := (gw_inflight s)(nonce \<mapsto> df)\<rparr>"

definition inflight_remove :: "bytes32 \<Rightarrow> 'w gateway \<Rightarrow> 'w gateway" where
  "inflight_remove nonce s = s\<lparr>gw_inflight := (gw_inflight s)(nonce := None)\<rparr>"

definition begin_deferred ::
    "'w gateway_env \<Rightarrow> payment_payload \<Rightarrow> payment_requirements \<Rightarrow> payment_context \<Rightarrow> bytes32 \<Rightarrow> 'w gateway \<Rightarrow>
     (failure + settlement_record) \<times> 'w gateway" where
  "begin_deferred E p reqs pc nonce s0 =
     (case settle E p reqs pc s0 of
        (Inl f, s) \<Rightarrow> (Inl f, s)
      | (Inr r, s) \<Rightarrow>
          (Inl (fail ErrCodePaymentDeferred (''settled in '' @ hash_hex (ge_geth E) (st_tx_hash r) @
                 ''; delivered after '' @ show_nat (ge_confirm_depth E) @
                 '' confirmations, retry the same payment'')),
           inflight_put nonce \<lparr>df_record = r, df_submitted_block = submitted_block E (st_tx_hash r) s\<rparr> s))"

definition resume_deferred ::
    "'w gateway_env \<Rightarrow> payment_payload \<Rightarrow> payment_requirements \<Rightarrow> bytes32 \<Rightarrow> deferred_settlement \<Rightarrow> 'w gateway \<Rightarrow>
     (failure + settlement_record) \<times> 'w gateway" where
  "resume_deferred E p reqs nonce df s0 =
     (case stage_of E (df_submitted_block df) s0 of
        Inl e \<Rightarrow> (Inl (fail ErrCodeSettlementError (''settlement stage: '' @ e)), s0)
      | Inr stage \<Rightarrow>
         (let pc = enrich E s0 \<lparr>pc_payload = p, pc_requirements = reqs,
                pc_verification = Some \<lparr>vr_is_valid = True, vr_invalid_reason = '''',
                  vr_payer = address_hex (ge_geth E) (st_payer (df_record df))\<rparr>,
                pc_history = None, pc_stage = stage, pc_risk_score = 0\<rparr>;
              (d, s) = gateway_decide E pc s0 in
          if d_action d \<noteq> ActionApprove then (Inl (fail (decision_code d) (d_reason d)), s)
          else deliver E (df_record df) (inflight_remove nonce s)))"

section \<open>The payment flow\<close>

definition verify_and_settle ::
    "'w gateway_env \<Rightarrow> payment_header \<Rightarrow> payment_requirements \<Rightarrow> 'w gateway \<Rightarrow>
     (failure + settlement_record) \<times> 'w gateway" where
  "verify_and_settle E header reqs s0 =
     (case header of
        Decoded p \<Rightarrow>
         (let nonce = fst (payload_nonce (ge_geth E) p) in
          case inflight_get nonce s0 of
            Some df \<Rightarrow> resume_deferred E p reqs nonce df s0
          | None \<Rightarrow> (case check_resource_binding E p reqs of
              Some f \<Rightarrow> (Inl f, s0)
            | None \<Rightarrow> (case ge_verify E p reqs (gw_world s0) of
                (Inl e, w) \<Rightarrow> 
                  (Inl (fail ErrCodeVerificationError (''verification error: '' @ e)), s0\<lparr>gw_world := w\<rparr>)
              | (Inr vr, w) \<Rightarrow>
                 (let s1 = s0\<lparr>gw_world := w\<rparr>;
                      pc = enrich E s1 \<lparr>pc_payload = p, pc_requirements = reqs, pc_verification = vr,
                             pc_history = None, pc_stage = StagePreSettlement, pc_risk_score = 0\<rparr>;
                      (d, s2) = gateway_decide E pc s1;
                      s = record_decision E pc d False s2 in
                  if d_action d = ActionApprove then
                    (case settle E p reqs pc s of
                       (Inl f, s') \<Rightarrow> (Inl f, s')
                     | (Inr r, s') \<Rightarrow> deliver E r s')
                  else if d_action d = ActionDefer then begin_deferred E p reqs pc nonce s
                  else (Inl (refusal d pc vr), s)))))
      | Undecodable e \<Rightarrow> (Inl (fail ErrCodeInvalidHeader (''invalid X-PAYMENT header: '' @ e)), s0)
      | NoHeader \<Rightarrow> (Inl (fail ErrCodeInvalidHeader
          ''invalid X-PAYMENT header: x402: decode header json: unexpected end of JSON input''), s0))"

definition issue_receipt ::
    "'w gateway_env \<Rightarrow> settlement_record \<Rightarrow> payment_requirements \<Rightarrow> payment_header \<Rightarrow> bytes32 \<Rightarrow> 'w gateway \<Rightarrow>
     signed_receipt_json option \<times> 'w gateway" where
  "issue_receipt E r reqs header key s0 =
     (let G = ge_geth E;
          (mandate_id, delegator) =
            (case header of
               Decoded p \<Rightarrow> (case pp_mandate p of
                 Some sm \<Rightarrow> (case to_mandate G (smj_mandate sm) of
                    Inr m \<Rightarrow> (m_mandate_id m, m_delegator m) | Inl _ \<Rightarrow> (0, 0))
               | None \<Rightarrow> (0, 0))
             | _ \<Rightarrow> (0, 0)) in
      case ge_random E (gw_world s0) of
        (None, w) \<Rightarrow> (None, s0\<lparr>gw_world := w\<rparr>)
      | (Some i, w) \<Rightarrow>
         (let s = s0\<lparr>gw_world := w\<rparr>;
              rc = \<lparr>rc_receipt_id = i, rc_network = ge_network E, rc_resource = pr_resource reqs,
                    rc_payer = st_payer r, rc_pay_to = ge_pay_to E, rc_amount = st_amount r,
                    rc_settlement_tx = st_tx_hash r, rc_delivery_tx = st_delivery_tx r,
                    rc_mandate_id = mandate_id, rc_delegator = delegator,
                    rc_issued_at = unix_of (now E s)\<rparr> in
          case sign_receipt G key rc of
            Inl e \<Rightarrow> (None, s)
          | Inr sig \<Rightarrow>
             (let signed = \<lparr>srj_receipt = receipt_to_json G rc, srj_signature = ''0x'' @ hex_encode sig\<rparr>;
                  e = blank_entry\<lparr>
                    je_id := ''0x'' @ hex_encode (bytes32_bytes i),
                    je_payer := address_hex G (st_payer r),
                    je_amount := big_string (st_amount r),
                    je_tx_hash := hash_hex G (st_tx_hash r),
                    je_network := ge_network E,
                    je_at := rc_issued_at rc,
                    je_kind := ''receipt'',
                    je_receipt := Some signed\<rparr> in
              (Some signed, snd (append_entry E e s)))))"

section \<open>Revocation and restart\<close>

definition revoke_mandate ::
    "'w gateway_env \<Rightarrow> revocation_json \<Rightarrow> 'w gateway \<Rightarrow> string option \<times> 'w gateway" where
  "revoke_mandate E rj s =
     (case mandate_policy_of (gateway_policy E s) of
        None \<Rightarrow> (Some ''x402: gateway is not enforcing mandates'', s)
      | Some mp \<Rightarrow> (case parse_bytes32 (ge_geth E) (rj_mandate_id rj) of
        Inl e \<Rightarrow> (Some (''x402: revocation mandate id: '' @ e), s)
      | Inr i \<Rightarrow>
         (case verify_revocation (ge_geth E) i (from_hex (ge_geth E) (rj_signature rj)) (mp_chain_id mp) of
            Inl e \<Rightarrow> (Some e, s)
          | Inr delegator \<Rightarrow>
              (None, record_revocation E (rj_mandate_id rj) delegator (rj_signature rj)
                       (s\<lparr>gw_store := mp_revoke mp delegator i (gw_store s)\<rparr>)))))"

definition restore_entry :: "geth \<Rightarrow> mandate_policy \<Rightarrow> policy_store \<Rightarrow> journal_entry \<Rightarrow> policy_store" where
  "restore_entry G mp st e =
     (if je_kind e = ''decision'' then
        (case je_decision e of
           None \<Rightarrow> st
         | Some d \<Rightarrow>
             if \<not> dr_settled d \<or> dr_mandate_id d = '''' then st
             else case parse_bytes32 G (dr_mandate_id d) of
               Inl _ \<Rightarrow> st
             | Inr i \<Rightarrow> (case set_string10 (dr_amount d) of
                 None \<Rightarrow> st
               | Some a \<Rightarrow> mp_restore_spend mp i (time_of_unix (je_at e)) a st))
      else if je_kind e = ''revocation'' then
        (case je_revocation e of
           None \<Rightarrow> st
         | Some r \<Rightarrow> (case parse_bytes32 G (rr_mandate_id r) of
             Inl _ \<Rightarrow> st
           | Inr i \<Rightarrow> mp_restore_revocation mp (hex_to_address G (rr_delegator r)) i st))
      else st)"

definition restore_accounting :: "'w gateway_env \<Rightarrow> journal \<Rightarrow> 'w gateway \<Rightarrow> 'w gateway" where
  "restore_accounting E j s =
     (case mandate_policy_of (gateway_policy E s) of
        None \<Rightarrow> s
      | Some mp \<Rightarrow> s\<lparr>gw_store := foldl (restore_entry (ge_geth E) mp) (gw_store s) (entries j)\<rparr>)"

definition restore_settlement :: "geth \<Rightarrow> journal_entry \<Rightarrow> settlement_record list" where
  "restore_settlement G e =
     (if je_kind e \<noteq> '''' then []
      else [\<lparr>st_payer = hex_to_address G (je_payer e), st_amount = set_string10 (je_amount e),
             st_tx_hash = hex_to_hash G (je_tx_hash e), st_time = time_of_unix (je_at e),
             st_delivery_tx = 0\<rparr>])"

definition attach_journal :: "'w gateway_env \<Rightarrow> journal \<Rightarrow> 'w gateway \<Rightarrow> 'w gateway" where
  "attach_journal E j s =
     restore_accounting E j
       (s\<lparr>gw_journal := Some j, gw_settlements := concat (map (restore_settlement (ge_geth E)) (entries j))\<rparr>)"

end
