(* ===== verification/Session.thy ===== *)
theory Session
  imports Gateway
begin

text \<open>
  Payment sessions (\<open>x402/session.go\<close>) and the HTTP face of the gateway
  (\<open>x402/gateway.go\<close>: Middleware, writeRequirements, DiscoveryHandler). A session id and a
  session are a map in the gateway's state; the mutex of a session makes a request one step.

  A reply is what the client gets: the 402 body, the protected handler's answer with the
  headers the gateway put on it, or the body of a closed session. The protected handler
  itself is external and does not touch the gateway.
\<close>

section \<open>Requests and replies\<close>

record http_request =
  rq_host :: string
  rq_path :: string
  rq_payment :: payment_header
  rq_session :: string
  rq_session_close :: string

record requirements_response =
  rqr_version :: int
  rqr_error :: string
  rqr_error_code :: errcode
  rqr_accepts :: "payment_requirements list"
  rqr_ask :: "ask_request option"

datatype reply =
    PaymentRequired requirements_response
  | Served "settlement_response option" "string option"
  | SessionClosed settlement_response

definition write_requirements ::
    "'w gateway_env \<Rightarrow> string \<Rightarrow> failure \<Rightarrow> 'w gateway \<Rightarrow> reply \<times> 'w gateway" where
  "write_requirements E resource f s =
     (PaymentRequired \<lparr>rqr_version = x402_version, rqr_error = fl_reason f, rqr_error_code = fl_code f,
        rqr_accepts = [requirements E resource], rqr_ask = fl_ask f\<rparr>,
      count (inc_refusal (errcode_string (fl_code f))) s)"

section \<open>session.go\<close>

text \<open>The 60 seconds before expiry in which a session settles.\<close>

definition session_margin :: int where
  "session_margin = 60 * ns_per_second"

definition session_put :: "string \<Rightarrow> payment_session \<Rightarrow> 'w gateway \<Rightarrow> 'w gateway" where
  "session_put i sess s = s\<lparr>gw_sessions := (gw_sessions s)(i \<mapsto> sess)\<rparr>"

definition session_get :: "string \<Rightarrow> 'w gateway \<Rightarrow> payment_session option" where
  "session_get i s = gw_sessions s i"

definition session_remove :: "string \<Rightarrow> 'w gateway \<Rightarrow> 'w gateway" where
  "session_remove i s = s\<lparr>gw_sessions := (gw_sessions s)(i := None)\<rparr>"

definition new_session_id :: "'w gateway_env \<Rightarrow> 'w gateway \<Rightarrow> string option \<times> 'w gateway" where
  "new_session_id E s =
     (let (b, w) = ge_random E (gw_world s) in
      (map_option (\<lambda>x. hex_encode (bytes32_bytes x)) b, s\<lparr>gw_world := w\<rparr>))"

definition open_session ::
    "'w gateway_env \<Rightarrow> string \<Rightarrow> payment_payload \<Rightarrow> 'w gateway \<Rightarrow> reply \<times> 'w gateway" where
  "open_session E resource p s0 =
     (if ge_refunder E = None then
        write_requirements E resource (fail ErrCodePaymentRequired
          ''sessions need a refund path; the gateway is not configured for them'') s0
      else
       (let reqs = requirements E resource in
        case check_resource_binding E p reqs of
          Some f \<Rightarrow> write_requirements E resource f s0
        | None \<Rightarrow> (case ge_verify E p reqs (gw_world s0) of
            (Inl e, w) \<Rightarrow> write_requirements E resource
              (fail ErrCodeVerificationError (''verification error: '' @ e)) (s0\<lparr>gw_world := w\<rparr>)
          | (Inr vr, w) \<Rightarrow>
             (let s1 = s0\<lparr>gw_world := w\<rparr> in
              if (case vr of None \<Rightarrow> True | Some v \<Rightarrow> \<not> vr_is_valid v) then
                write_requirements E resource (fail ErrCodeVerificationFailed
                  (case vr of None \<Rightarrow> ''payment verification failed''
                   | Some v \<Rightarrow> if vr_invalid_reason v \<noteq> '''' then vr_invalid_reason v
                              else ''payment verification failed'')) s1
              else (case parse_exact_payload (ge_geth E) (pp_payload p) of
                Inl e \<Rightarrow> write_requirements E resource (fail ErrCodeInvalidHeader e) s1
              | Inr (auth, _) \<Rightarrow>
                 (let pc = enrich E s1 \<lparr>pc_payload = p, pc_requirements = reqs, pc_verification = vr,
                        pc_history = None, pc_stage = StagePreSettlement, pc_risk_score = 0\<rparr>;
                      (d, s2) = gateway_decide E pc s1 in
                  if d_action d \<noteq> ActionApprove then write_requirements E resource (refusal d pc vr) s2
                  else (case new_session_id E s2 of
                    (None, s3) \<Rightarrow> write_requirements E resource
                      (fail ErrCodeVerificationError ''could not open a session'') s3
                  | (Some i, s3) \<Rightarrow>
                      (Served None (Some i),
                       count inc_session_opened (session_put i
                         \<lparr>ps_payload = p, ps_reqs = reqs, ps_pc = pc, ps_payer = au_from auth,
                          ps_budget = au_value auth, ps_spent = ge_price E,
                          ps_valid_before = i64 (au_valid_before auth), ps_settled = False\<rparr> s3)))))))))"

text \<open>
  The unused remainder. Refund on a nil Refunder would dereference it; a session exists only
  at a gateway that has one.
\<close>

definition refund_unused ::
    "'w gateway_env \<Rightarrow> payment_session \<Rightarrow> settlement_record \<Rightarrow> 'w gateway \<Rightarrow> 'w gateway" where
  "refund_unused E sess r s =
     (let unused = ps_budget sess - ps_spent sess in
      if unused > 0 then
        (case ge_refunder E of
           None \<Rightarrow> s
         | Some rf \<Rightarrow> (case rf (ps_payer sess) (Some unused) (gw_world s) of
             (Inl e, w) \<Rightarrow> journal_refund_pending E r (s\<lparr>gw_world := w\<rparr>)
           | (Inr tx, w) \<Rightarrow> journal_refund E
               \<lparr>st_payer = ps_payer sess, st_amount = Some unused, st_tx_hash = st_tx_hash r,
                st_time = 0, st_delivery_tx = 0\<rparr> tx (s\<lparr>gw_world := w\<rparr>)))
      else s)"

text \<open>
  \<open>settleSession\<close>: the outcome and the session it leaves. A settled session gives the zero
  record.
\<close>

definition zero_record :: settlement_record where
  "zero_record = \<lparr>st_payer = 0, st_amount = None, st_tx_hash = 0, st_time = 0, st_delivery_tx = 0\<rparr>"

definition settle_session ::
    "'w gateway_env \<Rightarrow> payment_session \<Rightarrow> 'w gateway \<Rightarrow>
     settlement_record result \<times> payment_session \<times> 'w gateway" where
  "settle_session E sess s0 =
     (if ps_settled sess then (Inr zero_record, sess, s0)
      else
       (let (out, w) = ge_settle E (ps_payload sess) (ps_reqs sess) (gw_world s0); s = s0\<lparr>gw_world := w\<rparr> in
        case out of
          Inl e \<Rightarrow> (Inl e, sess, s)
        | Inr None \<Rightarrow> (Inl ''settlement failed'', sess, s)
        | Inr (Some sr) \<Rightarrow>
            if \<not> sresp_success sr then
              (Inl (if sresp_error_reason sr \<noteq> '''' then sresp_error_reason sr else ''settlement failed''), sess, s)
            else
             (let r = \<lparr>st_payer = ps_payer sess, st_amount = Some (ps_budget sess),
                       st_tx_hash = hex_to_hash (ge_geth E) (sresp_transaction sr),
                       st_time = now E s, st_delivery_tx = 0\<rparr> in
              case append_entry E (settlement_entry E r) s of
                (Some err, s1) \<Rightarrow> (Inl (''journal session settlement: '' @ err), sess, s1)
              | (None, s1) \<Rightarrow>
                 (let s2 = notify E (ps_pc sess) True (s1\<lparr>gw_settlements := gw_settlements s1 @ [r]\<rparr>);
                      s3 = refund_unused E sess r s2 in
                  (Inr r, sess\<lparr>ps_settled := True\<rparr>, count inc_session_settled s3)))))"

definition write_session_closed :: "'w gateway_env \<Rightarrow> settlement_record \<Rightarrow> reply" where
  "write_session_closed E r = SessionClosed
     \<lparr>sresp_success = True, sresp_transaction = hash_hex (ge_geth E) (st_tx_hash r),
      sresp_network = ge_network E, sresp_payer = address_hex (ge_geth E) (st_payer r),
      sresp_error_reason = '''', sresp_delivery_transaction = '''', sresp_receipt = None\<rparr>"

definition expiring_soon :: "int \<Rightarrow> payment_session \<Rightarrow> bool" where
  "expiring_soon t sess \<longleftrightarrow>
     ps_valid_before sess \<noteq> 0 \<and> unix_of t \<ge> i64 (ps_valid_before sess - whole_seconds session_margin)"

definition handle_session ::
    "'w gateway_env \<Rightarrow> string \<Rightarrow> string \<Rightarrow> string \<Rightarrow> 'w gateway \<Rightarrow> reply \<times> 'w gateway" where
  "handle_session E resource i close s0 =
     (case session_get i s0 of
        None \<Rightarrow> write_requirements E resource
          (fail ErrCodeSessionUnknown ''unknown or already-settled session'') s0
      | Some sess \<Rightarrow>
          if ps_settled sess then
            write_requirements E resource (fail ErrCodeSessionUnknown ''session already settled'') s0
          else if close = ''1'' then
            (case settle_session E sess s0 of
               (Inl e, sess', s) \<Rightarrow> write_requirements E resource
                 (fail ErrCodeSettlementError (''session settlement failed: '' @ e)) (session_remove i s)
             | (Inr r, sess', s) \<Rightarrow> (write_session_closed E r, session_remove i s))
          else if expiring_soon (now E s0) sess \<or> ps_budget sess - ps_spent sess < ge_price E then
            (case settle_session E sess s0 of
               (Inl e, sess', s) \<Rightarrow> write_requirements E resource
                 (fail ErrCodeSettlementError (''session settlement failed: '' @ e)) (session_put i sess' s)
             | (Inr r, sess', s) \<Rightarrow> write_requirements E resource
                 (fail ErrCodeSessionExhausted
                   (if expiring_soon (now E s0) sess
                    then ''session authorization is expiring; the session settled and closed''
                    else ''session budget spent; the session settled and closed''))
                 (session_remove i s))
          else (Served None (Some i),
                session_put i (sess\<lparr>ps_spent := ps_spent sess + ge_price E\<rparr>) s0))"

section \<open>gateway.go: the handlers\<close>

definition payment_response ::
    "'w gateway_env \<Rightarrow> settlement_record \<Rightarrow> signed_receipt_json option \<Rightarrow> settlement_response" where
  "payment_response E r receipt =
     \<lparr>sresp_success = True, sresp_transaction = hash_hex (ge_geth E) (st_tx_hash r),
      sresp_network = ge_network E, sresp_payer = address_hex (ge_geth E) (st_payer r),
      sresp_error_reason = '''',
      sresp_delivery_transaction =
        (if st_delivery_tx r \<noteq> 0 then hash_hex (ge_geth E) (st_delivery_tx r) else ''''),
      sresp_receipt = receipt\<rparr>"

definition middleware :: "'w gateway_env \<Rightarrow> http_request \<Rightarrow> 'w gateway \<Rightarrow> reply \<times> 'w gateway" where
  "middleware E rq s0 =
     (let resource = ''http://'' @ rq_host rq @ rq_path rq; s = count inc_request s0 in
      if ge_sessions_enabled E \<and> rq_session rq \<noteq> '''' \<and> rq_payment rq = NoHeader then
        handle_session E resource (rq_session rq) (rq_session_close rq) s
      else if rq_payment rq = NoHeader then
        write_requirements E resource (fail ErrCodePaymentRequired ''X-PAYMENT header is required'') s
      else case (case rq_payment rq of
                   Decoded p \<Rightarrow> (case pp_session p of
                     Some q \<Rightarrow> if ge_sessions_enabled E \<and> sr_open q then Some p else None
                   | None \<Rightarrow> None)
                 | _ \<Rightarrow> None) of
        Some p \<Rightarrow> open_session E resource p s
      | None \<Rightarrow> (case verify_and_settle E (rq_payment rq) (requirements E resource) s of
          (Inl f, s1) \<Rightarrow> write_requirements E resource f s1
        | (Inr r, s1) \<Rightarrow> (case ge_receipt_key E of
            None \<Rightarrow> (Served (Some (payment_response E r None)) None, s1)
          | Some key \<Rightarrow>
             (let (receipt, s2) = issue_receipt E r (requirements E resource) (rq_payment rq) key s1 in
              (Served (Some (payment_response E r receipt)) None, s2)))))"

record discovery_item =
  di_resource :: string
  di_type :: string
  di_version :: int
  di_accepts :: "payment_requirements list"
  di_last_updated :: int

text \<open>The items of the discovery response; the path is the gateway's ResourcePath.\<close>

definition discovery :: "'w gateway_env \<Rightarrow> string \<Rightarrow> string \<Rightarrow> 'w gateway \<Rightarrow> discovery_item list" where
  "discovery E host resource_path s =
     (let resource = ''http://'' @ host @ resource_path in
      [\<lparr>di_resource = resource, di_type = ''http'', di_version = x402_version,
        di_accepts = [requirements E resource], di_last_updated = unix_of (now E s)\<rparr>])"

end
