(* ===== verification/Settlement.thy ===== *)
theory Settlement
  imports Session
begin

text \<open>
  What the gateway of \<open>x402/gateway.go\<close> promises: a served payment was approved, settled and
  journaled; a delivery failure leaves a record; a revoked mandate pays no more; a deferred
  payment is delivered only when the policy approves its stage, and what that stage does not
  check. The lemmas before them are the frame of the gateway's operations, one per field.
\<close>

section \<open>What each operation leaves alone\<close>

named_theorems gw_frame \<open>Fields of the gateway an operation leaves alone.\<close>

lemma append_entry_frame [simp, gw_frame]:
  "gw_world (snd (append_entry E e s)) = gw_world s"
  "gw_store (snd (append_entry E e s)) = gw_store s"
  "gw_settlements (snd (append_entry E e s)) = gw_settlements s"
  "gw_inflight (snd (append_entry E e s)) = gw_inflight s"
  "gw_sessions (snd (append_entry E e s)) = gw_sessions s"
  "gw_metrics (snd (append_entry E e s)) = gw_metrics s"
  by (simp_all add: append_entry_def split: option.split prod.split)

lemma count_frame [simp, gw_frame]:
  "gw_world (count f s) = gw_world s" "gw_store (count f s) = gw_store s"
  "gw_journal (count f s) = gw_journal s" "gw_settlements (count f s) = gw_settlements s"
  "gw_inflight (count f s) = gw_inflight s" "gw_sessions (count f s) = gw_sessions s"
  by (simp_all add: count_def)

lemma notify_frame [simp, gw_frame]:
  "gw_world (notify E pc ok s) = gw_world s" "gw_journal (notify E pc ok s) = gw_journal s"
  "gw_settlements (notify E pc ok s) = gw_settlements s" "gw_inflight (notify E pc ok s) = gw_inflight s"
  "gw_sessions (notify E pc ok s) = gw_sessions s"
  by (simp_all add: notify_def)

lemma gateway_decide_frame [simp, gw_frame]:
  "gw_world (snd (gateway_decide E pc s)) = gw_world s" "gw_journal (snd (gateway_decide E pc s)) = gw_journal s"
  "gw_settlements (snd (gateway_decide E pc s)) = gw_settlements s"
  "gw_inflight (snd (gateway_decide E pc s)) = gw_inflight s"
  "gw_sessions (snd (gateway_decide E pc s)) = gw_sessions s"
  by (simp_all add: gateway_decide_def split: prod.split)

lemma record_decision_frame [simp, gw_frame]:
  "gw_world (record_decision E pc d b s) = gw_world s" "gw_store (record_decision E pc d b s) = gw_store s"
  "gw_settlements (record_decision E pc d b s) = gw_settlements s"
  "gw_inflight (record_decision E pc d b s) = gw_inflight s"
  "gw_sessions (record_decision E pc d b s) = gw_sessions s"
  by (simp_all add: record_decision_def)

lemma inflight_frame [simp, gw_frame]:
  "gw_world (inflight_put n df s) = gw_world s" "gw_store (inflight_put n df s) = gw_store s"
  "gw_journal (inflight_put n df s) = gw_journal s" "gw_settlements (inflight_put n df s) = gw_settlements s"
  "gw_world (inflight_remove n s) = gw_world s" "gw_store (inflight_remove n s) = gw_store s"
  "gw_journal (inflight_remove n s) = gw_journal s" "gw_settlements (inflight_remove n s) = gw_settlements s"
  "gw_sessions (inflight_put n df s) = gw_sessions s" "gw_sessions (inflight_remove n s) = gw_sessions s"
  by (simp_all add: inflight_put_def inflight_remove_def)

lemma session_frame [simp, gw_frame]:
  "gw_world (session_put i x s) = gw_world s" "gw_store (session_put i x s) = gw_store s"
  "gw_journal (session_put i x s) = gw_journal s" "gw_settlements (session_put i x s) = gw_settlements s"
  "gw_inflight (session_put i x s) = gw_inflight s"
  "gw_world (session_remove i s) = gw_world s" "gw_store (session_remove i s) = gw_store s"
  "gw_journal (session_remove i s) = gw_journal s" "gw_settlements (session_remove i s) = gw_settlements s"
  "gw_inflight (session_remove i s) = gw_inflight s"
  by (simp_all add: session_put_def session_remove_def)

section \<open>The journal only grows\<close>

definition journal_entries :: "'w gateway \<Rightarrow> journal_entry list" where
  "journal_entries s = (case gw_journal s of None \<Rightarrow> [] | Some j \<Rightarrow> entries j)"

definition journaled :: "'w gateway \<Rightarrow> string \<Rightarrow> bool" where
  "journaled s i \<longleftrightarrow> i \<in> je_id ` set (journal_entries s)"

text \<open>The journal's memory is well formed: what Open and Append keep.\<close>

definition journal_ok :: "'w gateway \<Rightarrow> bool" where
  "journal_ok s \<longleftrightarrow> (case gw_journal s of None \<Rightarrow> True | Some j \<Rightarrow> mem_wf (jr_mem j))"

lemma journal_append_cases:
  assumes "mem_wf (jr_mem j)"
  shows "je_id e \<in> je_id ` set (entries j) \<and> journal_append out e j = (None, j)
    \<or> je_id e \<notin> je_id ` set (entries j) \<and> out = IoOk \<and> fst (journal_append out e j) = None \<and>
      entries (snd (journal_append out e j)) = entries j @ [e]
    \<or> je_id e \<notin> je_id ` set (entries j) \<and> out \<noteq> IoOk \<and> fst (journal_append out e j) \<noteq> None \<and>
      jr_mem (snd (journal_append out e j)) = jr_mem j"
  using mem_wf_index_None [OF assms, of "je_id e"]
  by (auto simp: jop_run_cases [of out "JAppend e" j, simplified] entries_def journal_record_def)

lemma append_entry_grows:
  assumes "journal_ok s"
  shows "journal_ok (snd (append_entry E e s))"
    and "\<exists>es. journal_entries (snd (append_entry E e s)) = journal_entries s @ es \<and> set es \<subseteq> {e}"
    and "fst (append_entry E e s) = None \<Longrightarrow> gw_journal s \<noteq> None \<Longrightarrow>
      journaled (snd (append_entry E e s)) (je_id e)"
    and "fst (append_entry E e s) = None \<Longrightarrow> gw_journal s \<noteq> None \<Longrightarrow> \<not> journaled s (je_id e) \<Longrightarrow>
      journal_entries (snd (append_entry E e s)) = journal_entries s @ [e]"
    and "gw_journal (snd (append_entry E e s)) = None \<longleftrightarrow> gw_journal s = None"
proof -
  have wf: "mem_wf (jr_mem j) \<Longrightarrow> mem_wf (jr_mem (snd (journal_append out e j)))" for j out
    by (auto simp: jop_run_cases [of out "JAppend e" j, simplified] mem_wf_record)
  show "journal_ok (snd (append_entry E e s))"
    using assms wf by (auto simp: journal_ok_def append_entry_def split: option.splits prod.split)
      (metis snd_conv)
  show "gw_journal (snd (append_entry E e s)) = None \<longleftrightarrow> gw_journal s = None"
    by (simp add: append_entry_def split: option.splits prod.split)
  note cases = journal_append_cases [of _ e "ge_disk E e (gw_world s)"]
  show "\<exists>es. journal_entries (snd (append_entry E e s)) = journal_entries s @ es \<and> set es \<subseteq> {e}"
    using assms cases
    by (cases "gw_journal s")
      (fastforce simp: journal_ok_def append_entry_def journal_entries_def entries_def split: prod.split)+
  show "fst (append_entry E e s) = None \<Longrightarrow> gw_journal s \<noteq> None \<Longrightarrow>
      journaled (snd (append_entry E e s)) (je_id e)"
    using assms cases
    by (cases "gw_journal s")
      (fastforce simp: journal_ok_def append_entry_def journal_entries_def journaled_def split: prod.splits)+
  show "fst (append_entry E e s) = None \<Longrightarrow> gw_journal s \<noteq> None \<Longrightarrow> \<not> journaled s (je_id e) \<Longrightarrow>
      journal_entries (snd (append_entry E e s)) = journal_entries s @ [e]"
    using assms cases
    by (cases "gw_journal s")
      (fastforce simp: journal_ok_def append_entry_def journal_entries_def journaled_def split: prod.splits)+
qed

section \<open>Annotations\<close>

text \<open>
  Every entry but a settlement has a kind: the gateway annotates its journal with decisions,
  refunds, receipts and revocations. An operation is quiet when that, or a failed write, is
  all it does to the journal and it settles nothing.
\<close>

inductive annotated :: "'w gateway_env \<Rightarrow> journal \<Rightarrow> journal \<Rightarrow> bool" for E where
  annotated_refl: "annotated E j j"
| annotated_append: "annotated E j j' \<Longrightarrow>
    je_kind e \<noteq> '''' \<or> fst (journal_append (ge_disk E e w) e j') \<noteq> None \<Longrightarrow>
    annotated E j (snd (journal_append (ge_disk E e w) e j'))"

lemma annotated_trans: "annotated E j' j'' \<Longrightarrow> annotated E j j' \<Longrightarrow> annotated E j j''"
  by (induction rule: annotated.induct) (auto intro: annotated.intros)

definition restored :: "geth \<Rightarrow> journal_entry list \<Rightarrow> settlement_record list" where
  "restored G es = concat (map (restore_settlement G) es)"

lemma restored_append [simp]: "restored G (es @ fs) = restored G es @ restored G fs"
  by (simp add: restored_def)

lemma restored_annotation [simp]: "je_kind e \<noteq> '''' \<Longrightarrow> restored G [e] = []"
  by (simp add: restored_def restore_settlement_def)

lemma annotated_journal:
  assumes "annotated E j j'" and "mem_wf (jr_mem j)"
  shows "mem_wf (jr_mem j') \<and> restored G (entries j') = restored G (entries j) \<and>
    set (entries j) \<subseteq> set (entries j')"
  using assms
proof (induction rule: annotated.induct)
  case (annotated_append j j' e w)
  then have wf: "mem_wf (jr_mem j')" by simp
  have "mem_wf (jr_mem (snd (journal_append (ge_disk E e w) e j')))"
    using wf by (auto simp: jop_run_cases [of "ge_disk E e w" "JAppend e" j', simplified] mem_wf_record)
  then show ?case
    using annotated_append journal_append_cases [OF wf, of e "ge_disk E e w"]
    by (auto simp: entries_def)
qed simp

text \<open>A disk that never fails.\<close>

definition disk_ok :: "'w gateway_env \<Rightarrow> bool" where
  "disk_ok E \<longleftrightarrow> (\<forall>e w. ge_disk E e w = IoOk)"

lemma append_synced:
  "disk_ok E \<Longrightarrow> journal_synced j \<Longrightarrow> journal_synced (snd (journal_append (ge_disk E e w) e j))"
  using jmach.step_inv [of j "JAppend e"] by (simp add: jop_step_def disk_ok_def)

lemma annotated_synced: "annotated E j j' \<Longrightarrow> disk_ok E \<Longrightarrow> journal_synced j \<Longrightarrow> journal_synced j'"
  by (induction rule: annotated.induct) (simp_all add: append_synced)

text \<open>Revocations are only ever added.\<close>

definition keeps_revocations :: "policy_store \<Rightarrow> policy_store \<Rightarrow> bool" where
  "keeps_revocations st st' \<longleftrightarrow> (\<forall>r. mps_revocations (st r) \<subseteq> mps_revocations (st' r))"

lemma keeps_revocations_refl [simp]: "keeps_revocations st st"
  by (simp add: keeps_revocations_def)

lemma keeps_revocations_trans:
  "keeps_revocations a b \<Longrightarrow> keeps_revocations b c \<Longrightarrow> keeps_revocations a c"
  unfolding keeps_revocations_def by blast

lemma keeps_revocations_same: "same_revocations st st' \<Longrightarrow> keeps_revocations st st'"
  by (simp add: keeps_revocations_def same_revocations_def)

lemma keeps_revocations_revoke: "keeps_revocations st (mp_revoke p d i st)"
  by (auto simp: keeps_revocations_def mp_revoke_def revocations_add_def split: option.split)

lemma keeps_revocations_settled: "keeps_revocations st (mandate_settled G t p pc ok st)"
  by (rule keeps_revocations_same)
    (simp add: mandate_settled_def split: option.split sum.split)

lemma keeps_revocations_notify: "keeps_revocations (gw_store s) (gw_store (notify E pc ok s))"
proof -
  have "keeps_revocations st (foldl (\<lambda>st p. mandate_settled G t p pc ok st) st ps)" for G t st ps
    by (induction ps arbitrary: st) (auto intro: keeps_revocations_trans keeps_revocations_settled)
  then show ?thesis by (simp add: notify_def)
qed

lemma keeps_revocations_decide: "keeps_revocations (gw_store s) (gw_store (snd (gateway_decide E pc s)))"
  using same_revocations_decide(1) [of "gw_store s"]
  by (auto simp: gateway_decide_def split: prod.split intro!: keeps_revocations_same) (metis snd_conv)

definition quiet :: "'w gateway_env \<Rightarrow> 'w gateway \<Rightarrow> 'w gateway \<Rightarrow> bool" where
  "quiet E s s' \<longleftrightarrow> gw_settlements s' = gw_settlements s \<and> keeps_revocations (gw_store s) (gw_store s') \<and>
     rel_option (annotated E) (gw_journal s) (gw_journal s')"

named_theorems quiet_ops \<open>Operations that settle nothing.\<close>

lemma quiet_refl [simp]: "quiet E s s"
  by (simp add: quiet_def option.rel_refl annotated_refl)

lemma quiet_trans: "quiet E s s' \<Longrightarrow> quiet E s' s'' \<Longrightarrow> quiet E s s''"
  by (auto simp: quiet_def option_rel_Some1 intro: annotated_trans keeps_revocations_trans elim!: option.rel_cases)

lemma quiet_same:
  "gw_journal s' = gw_journal s \<Longrightarrow> gw_settlements s' = gw_settlements s \<Longrightarrow>
    keeps_revocations (gw_store s) (gw_store s') \<Longrightarrow> quiet E s s'"
  by (simp add: quiet_def option.rel_refl annotated_refl)

lemma quiet_append: "je_kind e \<noteq> '''' \<or> fst (append_entry E e s) \<noteq> None \<Longrightarrow> quiet E s (snd (append_entry E e s))"
  using annotated_append [OF annotated_refl, where w = "gw_world s" and e = e and E = E]
  by (cases "gw_journal s") (auto simp: quiet_def append_entry_def split: prod.splits, (metis fst_conv snd_conv option.distinct(1))+)

lemma quiet_journal [quiet_ops]:
  "quiet E s (record_decision E pc d b s)" "quiet E s (record_revocation E i a sg s)"
  "quiet E s (journal_refund E r tx s)" "quiet E s (journal_refund_pending E r s)"
  by (simp_all add: record_decision_def decision_entry_def record_revocation_def journal_refund_def
      journal_refund_pending_def Let_def quiet_append)

lemma quiet_frame [quiet_ops]:
  "quiet E s (count f s)" "quiet E s (notify E pc ok s)" "quiet E s (snd (gateway_decide E pc s))"
  "quiet E s (inflight_put n df s)" "quiet E s (inflight_remove n s)" "quiet E s (s\<lparr>gw_world := w\<rparr>)"
  by (simp_all add: quiet_same keeps_revocations_notify keeps_revocations_decide)

lemma quiet_refund [quiet_ops]: "quiet E s (snd (refund E r e s))"
proof -
  have "quiet E s (journal_refund E r tx (count inc_refund s\<lparr>gw_world := w\<rparr>))"
    "quiet E s (journal_refund_pending E r (count inc_refund s\<lparr>gw_world := w\<rparr>))"
    "quiet E s (journal_refund_pending E r (count inc_refund s))" for tx w
    by (rule quiet_trans [OF quiet_same quiet_journal(3)] quiet_trans [OF quiet_same quiet_journal(4)]; simp)+
  then show ?thesis by (simp add: refund_def Let_def split: option.split prod.split sum.split)
qed

lemma quiet_deliver [quiet_ops]: "quiet E s (snd (deliver E r s))"
proof -
  have "quiet E s (snd (refund E r e (s\<lparr>gw_world := w\<rparr>)))" for e w
    by (rule quiet_trans [OF quiet_frame(6) quiet_refund])
  then show ?thesis
    by (auto simp: deliver_def quiet_same split: option.split prod.split sum.split)
qed

section \<open>Settling\<close>

text \<open>A settlement of the code: the facilitator succeeded and the record is durable.\<close>

definition settled_record :: "'w gateway_env \<Rightarrow> payment_payload \<Rightarrow> settlement_response \<Rightarrow> int \<Rightarrow>
    settlement_record \<Rightarrow> bool" where
  "settled_record E p sr t r \<longleftrightarrow> sresp_success sr \<and>
     (\<exists>a sig. parse_exact_payload (ge_geth E) (pp_payload p) = Inr (a, sig) \<and>
       r = \<lparr>st_payer = au_from a, st_amount = Some (au_value a),
            st_tx_hash = hex_to_hash (ge_geth E) (sresp_transaction sr), st_time = t, st_delivery_tx = 0\<rparr>)"

lemma settle_cases:
  obtains (refused) f s' where "settle E p reqs pc s = (Inl f, s')" "quiet E s s'" "gw_inflight s' = gw_inflight s"
  | (settled) r s' sr w s1 s2 where "settle E p reqs pc s = (Inr r, s')"
      "ge_settle E p reqs (gw_world s) = (Inr (Some sr), w)" "settled_record E p sr (ge_now E w) r"
      "gw_journal s1 = gw_journal s" "gw_settlements s1 = gw_settlements s" "gw_store s1 = gw_store s" "gw_world s1 = w"
      "append_entry E (settlement_entry E r) s1 = (None, s2)"
      "gw_settlements s' = gw_settlements s @ [r]" "quiet E (s2\<lparr>gw_settlements := gw_settlements s'\<rparr>) s'"
      "gw_world s' = w" "gw_inflight s' = gw_inflight s"
proof -
  obtain out w where g: "ge_settle E p reqs (gw_world s) = (out, w)" by (cases "ge_settle E p reqs (gw_world s)")
  let ?s = "count (observe_settle_latency (ge_now E w - now E s)) (s\<lparr>gw_world := w\<rparr>)"
  have q: "quiet E s ?s" by (simp add: quiet_same)
  have qn: "quiet E s (notify E pc b ?s)" "quiet E s (count f (notify E pc b ?s))" for b f
    by (blast intro: q quiet_trans quiet_frame)+
  show thesis
  proof (cases "\<exists>sr a sig. out = Inr (Some sr) \<and> sresp_success sr \<and>
      parse_exact_payload (ge_geth E) (pp_payload p) = Inr (a, sig)")
    case False
    then have "\<exists>f s'. settle E p reqs pc s = (Inl f, s') \<and> quiet E s s' \<and> gw_inflight s' = gw_inflight s"
      using qn by (auto simp: settle_def g Let_def split: sum.splits option.splits)
    then show thesis using refused by blast
  next
    case True
    then obtain sr a sig where ok: "out = Inr (Some sr)" "sresp_success sr"
      "parse_exact_payload (ge_geth E) (pp_payload p) = Inr (a, sig)" by blast
    define r where "r = \<lparr>st_payer = au_from a, st_amount = Some (au_value a),
      st_tx_hash = hex_to_hash (ge_geth E) (sresp_transaction sr), st_time = now E ?s, st_delivery_tx = 0\<rparr>"
    obtain err s2 where ap: "append_entry E (settlement_entry E r) ?s = (err, s2)"
      by (cases "append_entry E (settlement_entry E r) ?s")
    show thesis
    proof (cases err)
      case (Some x)
      then have "settle E p reqs pc s = (Inl (fail ErrCodeSettlementError (''journal settlement: '' @ x)),
          notify E pc False s2)"
        using ok ap by (simp add: settle_def g r_def [symmetric] Let_def)
      moreover have "quiet E s s2"
        using quiet_trans [OF q quiet_append [of "settlement_entry E r" E ?s]] ap Some by simp
      then have "quiet E s (notify E pc False s2)" by (rule quiet_trans) (rule quiet_frame)
      moreover have "gw_inflight s2 = gw_inflight s"
        using append_entry_frame [of E "settlement_entry E r" ?s] ap by simp
      ultimately show thesis using refused by simp
    next
      case None
      let ?s2 = "notify E pc True s2"
      let ?s' = "count inc_settle_success (record_decision E pc approve True
        (?s2\<lparr>gw_settlements := gw_settlements ?s2 @ [r]\<rparr>))"
      have e: "settle E p reqs pc s = (Inr r, ?s')"
        using ok ap None by (simp add: settle_def g r_def [symmetric] Let_def)
      have f: "gw_settlements s2 = gw_settlements s" "gw_inflight s2 = gw_inflight s" "gw_world s2 = w"
        using append_entry_frame [of E "settlement_entry E r" ?s] ap by simp_all
      have "quiet E (s2\<lparr>gw_settlements := gw_settlements ?s'\<rparr>) ?s'"
        by (rule quiet_trans [OF quiet_trans [OF _ quiet_journal(1)] quiet_frame(1)])
          (use keeps_revocations_notify [of s2] in \<open>simp add: quiet_same\<close>)
      then show thesis
        using settled [OF e, of sr w ?s s2] g ok q ap None f
        by (simp add: settled_record_def r_def now_def)
    qed
  qed
qed

text \<open>
  One step of the gateway settles at most once: it is quiet, or quiet around one settlement.
  Before the settlement it journals at most a decision, whose ID has a colon.
\<close>

definition settles_one :: "'w gateway_env \<Rightarrow> 'w gateway \<Rightarrow> 'w gateway \<Rightarrow> settlement_record \<Rightarrow> bool" where
  "settles_one E s s' r \<longleftrightarrow>
     (\<exists>sa sb. quiet E s sa \<and>
        (journal_ok s \<longrightarrow> (\<forall>i. journaled sa i \<longrightarrow> journaled s i \<or> CHR '':'' \<in> set i)) \<and>
        append_entry E (settlement_entry E r) sa = (None, sb) \<and>
        quiet E (sb\<lparr>gw_settlements := gw_settlements s @ [r]\<rparr>) s')"

definition one_step :: "'w gateway_env \<Rightarrow> 'w gateway \<Rightarrow> 'w gateway \<Rightarrow> bool" where
  "one_step E s s' \<longleftrightarrow> quiet E s s' \<or> (\<exists>r. settles_one E s s' r)"

lemma settles_one_then: "settles_one E s s' r \<Longrightarrow> quiet E s' s'' \<Longrightarrow> settles_one E s s'' r"
  unfolding settles_one_def by (blast intro: quiet_trans)

lemma one_step_then: "one_step E s s' \<Longrightarrow> quiet E s' s'' \<Longrightarrow> one_step E s s''"
  unfolding one_step_def by (blast intro: quiet_trans settles_one_then)

lemma one_step_quiet: "quiet E s s' \<Longrightarrow> one_step E s s'"
  by (simp add: one_step_def)

text \<open>The same after a prefix that leaves the journal, or only records a decision.\<close>

lemma one_step_after:
  assumes "quiet E s s1" and "journal_ok s \<Longrightarrow> journal_ok s1"
    and "journal_ok s \<Longrightarrow> \<forall>i. journaled s1 i \<longrightarrow> journaled s i \<or> CHR '':'' \<in> set i"
    and "one_step E s1 s'"
  shows "one_step E s s'"
proof (cases "quiet E s1 s'")
  case True
  with assms(1) show ?thesis by (blast intro: quiet_trans one_step_quiet)
next
  case False
  with assms(4) obtain r sa sb where "quiet E s1 sa"
    "journal_ok s1 \<longrightarrow> (\<forall>i. journaled sa i \<longrightarrow> journaled s1 i \<or> CHR '':'' \<in> set i)"
    "append_entry E (settlement_entry E r) sa = (None, sb)"
    "quiet E (sb\<lparr>gw_settlements := gw_settlements s1 @ [r]\<rparr>) s'"
    by (auto simp: one_step_def settles_one_def)
  moreover have "gw_settlements s1 = gw_settlements s" using assms(1) by (simp add: quiet_def)
  ultimately have "settles_one E s s' r"
    using assms(1-3) unfolding settles_one_def
    by (intro exI [of _ sa] exI [of _ sb]) (auto intro: quiet_trans)
  then show ?thesis by (auto simp: one_step_def)
qed

lemma one_step_same_journal:
  assumes "gw_journal s1 = gw_journal s" "gw_settlements s1 = gw_settlements s" "gw_store s1 = gw_store s"
    and "one_step E s1 s'"
  shows "one_step E s s'"
  by (rule one_step_after [OF _ _ _ assms(4)])
    (use assms(1-3) in \<open>simp_all add: quiet_same journal_ok_def journaled_def journal_entries_def\<close>)

lemma record_decision_journal:
  assumes "journal_ok s"
  shows "journal_ok (record_decision E pc d b s)"
    and "\<forall>i. journaled (record_decision E pc d b s) i \<longrightarrow> journaled s i \<or> CHR '':'' \<in> set i"
proof -
  let ?e = "decision_entry E pc d b s"
  have "CHR '':'' \<in> set (je_id ?e)" by (simp add: decision_entry_def Let_def)
  moreover obtain es where "journal_entries (record_decision E pc d b s) = journal_entries s @ es" "set es \<subseteq> {?e}"
    using append_entry_grows(2) [OF assms, of E ?e] by (auto simp: record_decision_def)
  ultimately show "\<forall>i. journaled (record_decision E pc d b s) i \<longrightarrow> journaled s i \<or> CHR '':'' \<in> set i"
    by (auto simp: journaled_def)
  show "journal_ok (record_decision E pc d b s)"
    using append_entry_grows(1) [OF assms] by (simp add: record_decision_def)
qed

lemma settle_one_step: "one_step E s (snd (settle E p reqs pc s))"
proof (cases rule: settle_cases [of E p reqs pc s])
  case (settled r s' sr w s1 s2)
  then have "settles_one E s s' r"
    unfolding settles_one_def
    by (intro exI [of _ s1] exI [of _ s2]) (auto simp: quiet_same journaled_def journal_entries_def)
  with settled(1) show ?thesis by (auto simp: one_step_def)
qed (simp add: one_step_def)

text \<open>The context a resumed payment is decided on.\<close>

definition resume_context ::
    "'w gateway_env \<Rightarrow> payment_payload \<Rightarrow> payment_requirements \<Rightarrow> deferred_settlement \<Rightarrow> stage \<Rightarrow>
     'w gateway \<Rightarrow> payment_context" where
  "resume_context E p reqs df st s = enrich E s \<lparr>pc_payload = p, pc_requirements = reqs,
     pc_verification = Some \<lparr>vr_is_valid = True, vr_invalid_reason = '''',
       vr_payer = address_hex (ge_geth E) (st_payer (df_record df))\<rparr>,
     pc_history = None, pc_stage = st, pc_risk_score = 0\<rparr>"

lemma resume_cases:
  obtains (no_stage) f where "resume_deferred E p reqs n df s = (Inl f, s)"
  | (refused) st f s1 where "stage_of E (df_submitted_block df) s = Inr st"
      "d_action (fst (gateway_decide E (resume_context E p reqs df st s) s)) \<noteq> ActionApprove"
      "s1 = snd (gateway_decide E (resume_context E p reqs df st s) s)"
      "resume_deferred E p reqs n df s = (Inl f, s1)"
  | (approved) st s1 where "stage_of E (df_submitted_block df) s = Inr st"
      "d_action (fst (gateway_decide E (resume_context E p reqs df st s) s)) = ActionApprove"
      "s1 = snd (gateway_decide E (resume_context E p reqs df st s) s)"
      "resume_deferred E p reqs n df s = deliver E (df_record df) (inflight_remove n s1)"
proof (cases "stage_of E (df_submitted_block df) s")
  case (Inl e)
  then show thesis using no_stage by (simp add: resume_deferred_def)
next
  case (Inr st)
  obtain d s1 where d: "gateway_decide E (resume_context E p reqs df st s) s = (d, s1)"
    by (cases "gateway_decide E (resume_context E p reqs df st s) s")
  show thesis
    using refused [OF Inr] approved [OF Inr] d
    by (cases "d_action d = ActionApprove")
      (simp_all add: resume_deferred_def Inr resume_context_def [symmetric] Let_def)
qed

lemma resume_quiet: "quiet E s (snd (resume_deferred E p reqs n df s))"
proof (cases rule: resume_cases [of E p reqs n df s])
  case (approved st s1)
  have "quiet E s (snd (deliver E (df_record df) (inflight_remove n s1)))"
    unfolding approved(3) by (rule quiet_trans [OF quiet_trans [OF quiet_frame(3) quiet_frame(5)] quiet_deliver])
  with approved(4) show ?thesis by simp
qed (simp_all add: quiet_frame)

lemma begin_deferred_one_step: "one_step E s (snd (begin_deferred E p reqs pc n s))"
  using settle_one_step [of E s p reqs pc] one_step_then [OF _ quiet_frame(4)]
  by (auto simp: begin_deferred_def split: prod.split sum.split)

text \<open>The context a fresh payment is decided on, and the state its decision is recorded in.\<close>

definition fresh_context ::
    "'w gateway_env \<Rightarrow> payment_payload \<Rightarrow> payment_requirements \<Rightarrow> verify_result option \<Rightarrow>
     'w gateway \<Rightarrow> payment_context" where
  "fresh_context E p reqs vr s = enrich E s \<lparr>pc_payload = p, pc_requirements = reqs, pc_verification = vr,
     pc_history = None, pc_stage = StagePreSettlement, pc_risk_score = 0\<rparr>"

definition decided :: "'w gateway_env \<Rightarrow> payment_context \<Rightarrow> 'w gateway \<Rightarrow> 'w gateway" where
  "decided E pc s = record_decision E pc (fst (gateway_decide E pc s)) False (snd (gateway_decide E pc s))"

lemma decided_frame [simp]:
  "gw_world (decided E pc s) = gw_world s" "gw_settlements (decided E pc s) = gw_settlements s"
  "gw_inflight (decided E pc s) = gw_inflight s" "gw_sessions (decided E pc s) = gw_sessions s"
  "gw_store (decided E pc s) = gw_store (snd (gateway_decide E pc s))"
  by (simp_all add: decided_def)

lemma quiet_decided [quiet_ops]: "quiet E s (decided E pc s)"
  unfolding decided_def by (rule quiet_trans [OF quiet_frame(3) quiet_journal(1)])

lemma decided_journal:
  assumes "journal_ok s"
  shows "journal_ok (decided E pc s)"
    and "\<forall>i. journaled (decided E pc s) i \<longrightarrow> journaled s i \<or> CHR '':'' \<in> set i"
proof -
  let ?s = "snd (gateway_decide E pc s)"
  have "journal_ok ?s" using assms by (simp add: journal_ok_def)
  note r = record_decision_journal [OF this, of E pc "fst (gateway_decide E pc s)" False]
  show "journal_ok (decided E pc s)" using r(1) by (simp add: decided_def)
  show "\<forall>i. journaled (decided E pc s) i \<longrightarrow> journaled s i \<or> CHR '':'' \<in> set i"
    using r(2) by (simp add: decided_def journaled_def journal_entries_def)
qed

lemma verify_and_settle_cases:
  obtains (refused) f s' where "verify_and_settle E header reqs s = (Inl f, s')" "quiet E s s'"
  | (resumed) p df where "header = Decoded p"
      "inflight_get (fst (payload_nonce (ge_geth E) p)) s = Some df"
      "verify_and_settle E header reqs s =
         resume_deferred E p reqs (fst (payload_nonce (ge_geth E) p)) df s"
  | (approved) p vr w pc s1 s2 where "header = Decoded p"
      "inflight_get (fst (payload_nonce (ge_geth E) p)) s = None"
      "check_resource_binding E p reqs = None" "ge_verify E p reqs (gw_world s) = (Inr vr, w)"
      "s1 = s\<lparr>gw_world := w\<rparr>" "pc = fresh_context E p reqs vr s1"
      "d_action (fst (gateway_decide E pc s1)) = ActionApprove" "s2 = decided E pc s1"
      "verify_and_settle E header reqs s =
         (case settle E p reqs pc s2 of (Inl f, s') \<Rightarrow> (Inl f, s') | (Inr r, s') \<Rightarrow> deliver E r s')"
  | (deferred) p vr w pc s1 s2 where "header = Decoded p"
      "inflight_get (fst (payload_nonce (ge_geth E) p)) s = None"
      "check_resource_binding E p reqs = None" "ge_verify E p reqs (gw_world s) = (Inr vr, w)"
      "s1 = s\<lparr>gw_world := w\<rparr>" "pc = fresh_context E p reqs vr s1"
      "d_action (fst (gateway_decide E pc s1)) = ActionDefer" "s2 = decided E pc s1"
      "verify_and_settle E header reqs s =
         begin_deferred E p reqs pc (fst (payload_nonce (ge_geth E) p)) s2"
proof (cases header)
  case (Decoded p)
  let ?n = "fst (payload_nonce (ge_geth E) p)"
  show thesis
  proof (cases "inflight_get ?n s")
    case (Some df)
    then show thesis using resumed Decoded by (simp add: verify_and_settle_def Let_def)
  next
    case None
    show thesis
    proof (cases "check_resource_binding E p reqs")
      case (Some f)
      with None show thesis using refused Decoded by (simp add: verify_and_settle_def Let_def)
    next
      case bound: None
      obtain out w where v: "ge_verify E p reqs (gw_world s) = (out, w)"
        by (cases "ge_verify E p reqs (gw_world s)")
      show thesis
      proof (cases out)
        case (Inl e)
        with v bound None show thesis
          using refused Decoded by (simp add: verify_and_settle_def Let_def quiet_frame)
      next
        case (Inr vr)
        let ?s1 = "s\<lparr>gw_world := w\<rparr>"
        let ?pc = "fresh_context E p reqs vr ?s1"
        obtain d s2 where d: "gateway_decide E ?pc ?s1 = (d, s2)" by (cases "gateway_decide E ?pc ?s1")
        have eq: "verify_and_settle E header reqs s =
            (if d_action d = ActionApprove then
               (case settle E p reqs ?pc (decided E ?pc ?s1) of (Inl f, s') \<Rightarrow> (Inl f, s')
                | (Inr r, s') \<Rightarrow> deliver E r s')
             else if d_action d = ActionDefer then begin_deferred E p reqs ?pc ?n (decided E ?pc ?s1)
             else (Inl (refusal d ?pc vr), decided E ?pc ?s1))"
          using d by (simp add: verify_and_settle_def Decoded None bound v Inr fresh_context_def [symmetric]
              decided_def Let_def)
        have "quiet E s (decided E ?pc ?s1)" by (rule quiet_trans [OF quiet_frame(6) quiet_decided])
        then show thesis
          using refused approved [OF Decoded None bound v [unfolded Inr] refl refl _ refl]
            deferred [OF Decoded None bound v [unfolded Inr] refl refl _ refl] d
          by (cases "d_action d") (auto simp: eq)
      qed
    qed
  qed
qed (use refused in \<open>simp_all add: verify_and_settle_def\<close>)

lemma one_step_decided:
  assumes "one_step E (decided E pc (s\<lparr>gw_world := w\<rparr>)) s'"
  shows "one_step E s s'"
  using one_step_after [OF quiet_decided _ _ assms] decided_journal [of "s\<lparr>gw_world := w\<rparr>" E pc]
    one_step_same_journal [of "s\<lparr>gw_world := w\<rparr>" s E s']
  by simp

lemma verify_and_settle_one_step: "one_step E s (snd (verify_and_settle E header reqs s))"
proof (cases rule: verify_and_settle_cases [of E header reqs s])
  case (approved p vr w pc s1 s2)
  have "one_step E s2 (snd (verify_and_settle E header reqs s))"
    using settle_one_step [of E s2 p reqs pc] one_step_then [OF _ quiet_deliver]
    by (auto simp: approved(9) split: prod.split sum.split)
  then show ?thesis unfolding approved(5,8) by (rule one_step_decided)
next
  case (deferred p vr w pc s1 s2)
  then show ?thesis using begin_deferred_one_step one_step_decided by metis
qed (simp_all add: one_step_quiet resume_quiet)

lemma issue_receipt_quiet [quiet_ops]: "quiet E s (snd (issue_receipt E r reqs header key s))"
proof -
  have "quiet E s (snd (append_entry E e (s\<lparr>gw_world := w\<rparr>)))" if "je_kind e = ''receipt''" for e w
    by (rule quiet_trans [OF quiet_frame(6) quiet_append]) (simp add: that)
  then show ?thesis
    by (simp add: issue_receipt_def Let_def quiet_frame split: prod.split option.split sum.split)
qed

lemma revoke_quiet [quiet_ops]: "quiet E s (snd (revoke_mandate E rj s))"
proof -
  have "quiet E s (record_revocation E i a sg (s\<lparr>gw_store := st\<rparr>))"
    if "keeps_revocations (gw_store s) st" for i a sg st
    by (rule quiet_trans [OF quiet_same quiet_journal(2)]) (simp_all add: that)
  then show ?thesis
    by (simp add: revoke_mandate_def keeps_revocations_revoke split: option.split sum.split)
qed

section \<open>Sessions and requests\<close>

lemma write_requirements_frame [simp]:
  "snd (write_requirements E resource f s) = count (inc_refusal (errcode_string (fl_code f))) s"
  "fst (write_requirements E resource f s) = PaymentRequired \<lparr>rqr_version = x402_version,
     rqr_error = fl_reason f, rqr_error_code = fl_code f, rqr_accepts = [requirements E resource],
     rqr_ask = fl_ask f\<rparr>"
  by (simp_all add: write_requirements_def)

lemma quiet_session [quiet_ops]:
  "quiet E s (session_put i x s)" "quiet E s (session_remove i s)"
  "quiet E s (snd (write_requirements E resource f s))" "quiet E s (snd (new_session_id E s))"
  by (simp_all add: quiet_same new_session_id_def split: prod.split)

lemma refund_unused_quiet [quiet_ops]: "quiet E s (refund_unused E sess r s)"
proof -
  have "quiet E s (journal_refund_pending E r (s\<lparr>gw_world := w\<rparr>))"
    "quiet E s (journal_refund E x tx (s\<lparr>gw_world := w\<rparr>))" for w x tx
    by (rule quiet_trans [OF quiet_frame(6) quiet_journal(4)] quiet_trans [OF quiet_frame(6) quiet_journal(3)])+
  then show ?thesis by (simp add: refund_unused_def Let_def split: option.split prod.split sum.split)
qed

text \<open>What an open session settles to.\<close>

lemma settle_session_cases:
  assumes "\<not> ps_settled sess"
  obtains (refused) e s' where "settle_session E sess s = (Inl e, sess, s')" "quiet E s s'"
      "gw_sessions s' = gw_sessions s"
  | (settled) r w sr s1 s2 where
      "ge_settle E (ps_payload sess) (ps_reqs sess) (gw_world s) = (Inr (Some sr), w)" "sresp_success sr"
      "r = \<lparr>st_payer = ps_payer sess, st_amount = Some (ps_budget sess),
            st_tx_hash = hex_to_hash (ge_geth E) (sresp_transaction sr), st_time = ge_now E w, st_delivery_tx = 0\<rparr>"
      "append_entry E (settlement_entry E r) (s\<lparr>gw_world := w\<rparr>) = (None, s1)"
      "s2 = notify E (ps_pc sess) True (s1\<lparr>gw_settlements := gw_settlements s1 @ [r]\<rparr>)"
      "settle_session E sess s = (Inr r, sess\<lparr>ps_settled := True\<rparr>,
         count inc_session_settled (refund_unused E sess r s2))"
proof -
  obtain out w where g: "ge_settle E (ps_payload sess) (ps_reqs sess) (gw_world s) = (out, w)"
    by (cases "ge_settle E (ps_payload sess) (ps_reqs sess) (gw_world s)")
  let ?s = "s\<lparr>gw_world := w\<rparr>"
  show thesis
  proof (cases "\<exists>sr. out = Inr (Some sr) \<and> sresp_success sr")
    case False
    then have "\<exists>e. settle_session E sess s = (Inl e, sess, ?s)"
      using assms by (auto simp: settle_session_def g Let_def split: sum.splits option.splits)
    then show thesis using refused quiet_frame(6) by fastforce
  next
    case True
    then obtain sr where ok: "out = Inr (Some sr)" "sresp_success sr" by blast
    define r where "r = \<lparr>st_payer = ps_payer sess, st_amount = Some (ps_budget sess),
      st_tx_hash = hex_to_hash (ge_geth E) (sresp_transaction sr), st_time = now E ?s, st_delivery_tx = 0\<rparr>"
    obtain err s1 where ap: "append_entry E (settlement_entry E r) ?s = (err, s1)"
      by (cases "append_entry E (settlement_entry E r) ?s")
    show thesis
    proof (cases err)
      case (Some x)
      have "quiet E s s1"
        using quiet_trans [OF quiet_frame(6) quiet_append [of "settlement_entry E r" E ?s]] ap Some by simp
      moreover have "gw_sessions s1 = gw_sessions s"
        using append_entry_frame(5) [of E "settlement_entry E r" ?s] ap by simp
      ultimately show thesis
        using refused ok ap Some assms by (simp add: settle_session_def g r_def [symmetric] Let_def)
    next
      case None
      then show thesis
        using settled [of sr w r s1] ok ap assms g
        by (simp add: settle_session_def r_def [symmetric] Let_def) (simp add: r_def now_def)
    qed
  qed
qed

lemma settle_session_one_step: "one_step E s (snd (snd (settle_session E sess s)))"
proof (cases "ps_settled sess")
  case False
  then show ?thesis
  proof (cases rule: settle_session_cases [of sess E s])
    case (settled r w sr s1 s2)
    have s1: "gw_settlements s1 = gw_settlements s"
      using append_entry_frame(3) [of E "settlement_entry E r" "s\<lparr>gw_world := w\<rparr>"] settled(4) by simp
    have "quiet E (s1\<lparr>gw_settlements := gw_settlements s @ [r]\<rparr>) s2"
      unfolding settled(5) s1 by (rule quiet_frame)
    then have "quiet E (s1\<lparr>gw_settlements := gw_settlements s @ [r]\<rparr>)
        (count inc_session_settled (refund_unused E sess r s2))"
      by (blast intro: quiet_trans refund_unused_quiet quiet_frame(1))
    then have "settles_one E s (snd (snd (settle_session E sess s))) r"
      unfolding settles_one_def using settled(4,6) quiet_frame(6)
      by (intro exI [of _ "s\<lparr>gw_world := w\<rparr>"] exI [of _ s1]) (auto simp: journaled_def journal_entries_def)
    then show ?thesis by (auto simp: one_step_def)
  qed (simp_all add: one_step_quiet)
qed (simp add: settle_session_def one_step_quiet)

lemma open_session_quiet [quiet_ops]: "quiet E s (snd (open_session E resource p s))"
proof -
  have id: "quiet E s' (session_put i x s2)" if "new_session_id E s' = (y, s2)" for s' i x y s2
    using quiet_trans [OF quiet_session(4) quiet_session(1)] that by (metis snd_conv)
  have id': "quiet E s' s2" if "new_session_id E s' = (y, s2)" for s' y s2
    using quiet_session(4) [of E s'] that by simp
  have dec: "quiet E s s2" if "gateway_decide E pc (s\<lparr>gw_world := w\<rparr>) = (d, s2)" for pc w d s2
    using that by (metis quiet_frame(3,6) quiet_trans snd_conv)
  have cnt: "quiet E s (count f s2)" if "quiet E s s2" for f s2
    using that quiet_trans quiet_frame(1) by blast
  show ?thesis
    by (auto simp: open_session_def Let_def quiet_same split: option.split sum.split prod.split
        intro!: cnt intro: quiet_trans [OF dec id] quiet_trans [OF dec id'] dec)
qed

lemma handle_session_one_step: "one_step E s (snd (handle_session E resource i close s))"
proof (cases "session_get i s")
  case None
  then show ?thesis by (simp add: handle_session_def one_step_quiet quiet_frame)
next
  case (Some sess)
  obtain out sess' s' where ss: "settle_session E sess s = (out, sess', s')"
    by (metis surj_pair)
  have "one_step E s s'" using settle_session_one_step [of E s sess] ss by simp
  then have "one_step E s (session_remove i s')" "one_step E s (session_put i sess' s')"
    by (blast intro: one_step_then quiet_session)+
  then have "one_step E s (count f (session_remove i s'))" "one_step E s (count f (session_put i sess' s'))"
    "one_step E s (session_remove i s')" for f
    by (blast intro: one_step_then quiet_frame)+
  then show ?thesis
    by (auto simp: handle_session_def Some ss one_step_quiet quiet_frame quiet_session Let_def split: sum.split)
qed

lemma middleware_one_step: "one_step E s (snd (middleware E rq s))"
proof -
  let ?s = "count inc_request s"
  have pre: "one_step E s s'" if "one_step E ?s s'" for s'
    using one_step_same_journal [of ?s s E s'] that by simp
  have paid: "one_step E ?s s1" if "verify_and_settle E header reqs ?s = (out, s1)" for header reqs out s1
    using verify_and_settle_one_step [of E ?s header reqs] that by simp
  have refused: "one_step E ?s (snd (write_requirements E resource f s1))"
    if "verify_and_settle E header reqs ?s = (out, s1)" for header reqs out s1 f resource
    by (rule one_step_then [OF paid [OF that] quiet_session(3)])
  have receipt: "one_step E ?s s2"
    if "issue_receipt E r reqs' header' key s1 = (x, s2)" "verify_and_settle E header reqs ?s = (out, s1)"
    for header reqs out s1 r reqs' header' key x s2
    using one_step_then [OF paid [OF that(2)] issue_receipt_quiet, of r reqs' header' key] that(1) by simp
  show ?thesis
    by (rule pre)
      (auto simp: middleware_def Let_def handle_session_one_step one_step_quiet quiet_session open_session_quiet
        simp del: write_requirements_frame split: option.split prod.split sum.split dest: paid refused receipt)
qed

end
