(* ===== verification/GatewayRuns.thy ===== *)
theory GatewayRuns
  imports Settlement
begin

text \<open>
  Runs of a gateway: requests, revocations and the passing of time in any order. What holds
  after every run (the settlements are what a restart on the journal restores; a revoked
  mandate stays revoked), what one payment that is served means, and the behaviour of the
  deferred path that the stage of a payment does not check.
\<close>

section \<open>The machine\<close>

datatype 'w gateway_event = Request http_request | Revoke revocation_json | Elapse "'w \<Rightarrow> 'w"

fun gateway_step :: "'w gateway_env \<Rightarrow> 'w gateway \<Rightarrow> 'w gateway_event \<Rightarrow> 'w gateway" where
  "gateway_step E s (Request rq) = snd (middleware E rq s)"
| "gateway_step E s (Revoke rj) = snd (revoke_mandate E rj s)"
| "gateway_step E s (Elapse f) = s\<lparr>gw_world := f (gw_world s)\<rparr>"

lemma gateway_one_step: "one_step E s (gateway_step E s e)"
  by (cases e) (simp_all add: middleware_one_step one_step_quiet revoke_quiet quiet_frame)

lemma quiet_keeps_revocations: "quiet E s s' \<Longrightarrow> keeps_revocations (gw_store s) (gw_store s')"
  by (simp add: quiet_def)

lemma one_step_keeps_revocations:
  assumes "one_step E s s'"
  shows "keeps_revocations (gw_store s) (gw_store s')"
  using assms unfolding one_step_def
proof (elim disjE exE)
  fix r
  assume "settles_one E s s' r"
  then obtain sa sb where "quiet E s sa" "append_entry E (settlement_entry E r) sa = (None, sb)"
    "quiet E (sb\<lparr>gw_settlements := gw_settlements s @ [r]\<rparr>) s'"
    by (auto simp: settles_one_def)
  then show ?thesis
    using append_entry_frame(2) [of E "settlement_entry E r" sa]
    by (auto dest!: quiet_keeps_revocations intro: keeps_revocations_trans)
qed (rule quiet_keeps_revocations)

section \<open>Restart\<close>

text \<open>What the journal keeps of a settlement: whole seconds, and no delivery.\<close>

definition durable :: "settlement_record \<Rightarrow> settlement_record" where
  "durable r = r\<lparr>st_time := time_of_unix (unix_of (st_time r)), st_delivery_tx := 0\<rparr>"

text \<open>Hash.Hex prints 0x and hexadecimal digits.\<close>

definition hash_text :: "geth \<Rightarrow> bool" where
  "hash_text G \<longleftrightarrow> geth_text G \<and> (\<forall>h. CHR '':'' \<notin> set (hash_hex G h))"

definition mirrored :: "'w gateway_env \<Rightarrow> 'w gateway \<Rightarrow> bool" where
  "mirrored E s \<longleftrightarrow> disk_ok E \<longrightarrow> hash_text (ge_geth E) \<longrightarrow>
     (\<exists>j. gw_journal s = Some j \<and> journal_synced j \<and>
        restored (ge_geth E) (entries j) = map durable (gw_settlements s))"

text \<open>A transaction hash is new: no entry of the journal has it as its ID.\<close>

definition fresh_settlement :: "'w gateway_env \<Rightarrow> 'w gateway \<Rightarrow> 'w gateway_event \<Rightarrow> bool" where
  "fresh_settlement E s e \<longleftrightarrow>
     (\<forall>r. gw_settlements (gateway_step E s e) = gw_settlements s @ [r] \<longrightarrow>
        \<not> journaled s (hash_hex (ge_geth E) (st_tx_hash r)))"

lemma synced_wf: "journal_synced j \<Longrightarrow> mem_wf (jr_mem j)"
  by (simp add: journal_synced_def mem_wf_replay)

lemma restored_settlement:
  "geth_text (ge_geth E) \<Longrightarrow> restored (ge_geth E) [settlement_entry E r] = [durable r]"
proof -
  have "set_string10 ''<nil>'' = None" by (simp add: set_string10_def read_nat_def is_digit_def)
  then have "set_string10 (amount_text x) = x" for x by (simp add: amount_text_def split: option.split)
  then show "geth_text (ge_geth E) \<Longrightarrow> ?thesis"
    by (cases r) (simp add: restored_def restore_settlement_def settlement_entry_def blank_entry_def
        durable_def geth_textD)
qed

lemma mirrored_quiet:
  assumes "mirrored E s" and "quiet E s s'"
  shows "mirrored E s'"
  unfolding mirrored_def
proof (intro impI)
  assume E: "disk_ok E" "hash_text (ge_geth E)"
  with assms(1) obtain j where j: "gw_journal s = Some j" "journal_synced j"
    "restored (ge_geth E) (entries j) = map durable (gw_settlements s)" by (auto simp: mirrored_def)
  with assms(2) obtain j' where j': "gw_journal s' = Some j'" "annotated E j j'"
    by (auto simp: quiet_def option_rel_Some1)
  have "journal_synced j'" using annotated_synced [OF j'(2) E(1) j(2)] .
  moreover have "restored (ge_geth E) (entries j') = restored (ge_geth E) (entries j)"
    using annotated_journal [OF j'(2) synced_wf [OF j(2)]] by blast
  moreover have "gw_settlements s' = gw_settlements s" using assms(2) by (simp add: quiet_def)
  ultimately show "\<exists>j. gw_journal s' = Some j \<and> journal_synced j \<and>
      restored (ge_geth E) (entries j) = map durable (gw_settlements s')"
    using j j' by simp
qed

lemma mirrored_settles:
  assumes "mirrored E s" and "settles_one E s s' r"
    and new: "\<not> journaled s (hash_hex (ge_geth E) (st_tx_hash r))"
  shows "mirrored E s'"
proof -
  from assms(2) obtain sa sb where q: "quiet E s sa"
    and jd: "journal_ok s \<Longrightarrow> \<forall>i. journaled sa i \<longrightarrow> journaled s i \<or> CHR '':'' \<in> set i"
    and ap: "append_entry E (settlement_entry E r) sa = (None, sb)"
    and q': "quiet E (sb\<lparr>gw_settlements := gw_settlements s @ [r]\<rparr>) s'"
    by (auto simp: settles_one_def)
  have "mirrored E (sb\<lparr>gw_settlements := gw_settlements s @ [r]\<rparr>)"
    unfolding mirrored_def
  proof (intro impI)
    assume E: "disk_ok E" "hash_text (ge_geth E)"
    with assms(1) obtain j where j: "gw_journal s = Some j" "journal_synced j" by (auto simp: mirrored_def)
    then have ok: "journal_ok s" by (simp add: journal_ok_def synced_wf)
    from mirrored_quiet [OF assms(1) q] E obtain ja where ja: "gw_journal sa = Some ja" "journal_synced ja"
      "restored (ge_geth E) (entries ja) = map durable (gw_settlements s)"
      using q by (auto simp: mirrored_def quiet_def)
    have id: "je_id (settlement_entry E r) = hash_hex (ge_geth E) (st_tx_hash r)"
      by (simp add: settlement_entry_def)
    have fresh: "\<not> journaled sa (je_id (settlement_entry E r))"
      using jd [OF ok] new E(2) unfolding id hash_text_def by blast
    have oka: "journal_ok sa" using ja by (simp add: journal_ok_def synced_wf)
    have es: "journal_entries sb = entries ja @ [settlement_entry E r]"
      using append_entry_grows(4) [OF oka, of E "settlement_entry E r"] ap ja fresh
      by (simp add: journal_entries_def)
    obtain jb where jb: "gw_journal sb = Some jb"
      "jb = snd (journal_append (ge_disk E (settlement_entry E r) (gw_world sa)) (settlement_entry E r) ja)"
      using ap ja by (auto simp: append_entry_def split: prod.splits)
    have "entries jb = entries ja @ [settlement_entry E r]" using es jb(1) by (simp add: journal_entries_def)
    then show "\<exists>j. gw_journal (sb\<lparr>gw_settlements := gw_settlements s @ [r]\<rparr>) = Some j \<and> journal_synced j \<and>
        restored (ge_geth E) (entries j) = map durable (gw_settlements (sb\<lparr>gw_settlements := gw_settlements s @ [r]\<rparr>))"
      using append_synced [OF E(1) ja(2)] jb ja(3) restored_settlement [of E r] E(2)
      by (simp add: hash_text_def)
  qed
  then show ?thesis using q' by (rule mirrored_quiet)
qed

lemma settles_one_settlements: "settles_one E s s' r \<Longrightarrow> gw_settlements s' = gw_settlements s @ [r]"
  by (auto simp: settles_one_def quiet_def)

interpretation restart: machine "gateway_step E" "fresh_settlement E" "mirrored E" for E
proof unfold_locales
  fix s e
  assume m: "mirrored E s" and f: "fresh_settlement E s e"
  show "mirrored E (gateway_step E s e)"
    using gateway_one_step [of E s e] unfolding one_step_def
  proof (elim disjE exE)
    fix r
    assume r: "settles_one E s (gateway_step E s e) r"
    with f have "\<not> journaled s (hash_hex (ge_geth E) (st_tx_hash r))"
      by (simp add: fresh_settlement_def settles_one_settlements)
    with m r show ?thesis by (rule mirrored_settles)
  qed (rule mirrored_quiet [OF m])
qed

lemma restore_accounting_frame [simp]:
  "gw_settlements (restore_accounting E j s) = gw_settlements s"
  "gw_journal (restore_accounting E j s) = gw_journal s"
  by (simp_all add: restore_accounting_def split: option.split)

lemma durable_restored: "map durable (restored G es) = restored G es"
  by (induction es) (auto simp: restored_def restore_settlement_def durable_def)

lemma mirrored_attach: "journal_synced j \<Longrightarrow> mirrored E (attach_journal E j s)"
  by (simp add: mirrored_def attach_journal_def restored_def [symmetric] durable_restored)

text \<open>
  C10. A restart loses no settlement: a gateway started on a journal handles any sequence of
  requests and revocations on a healthy disk, with new transaction hashes; a gateway
  restarted on the file it leaves has the same settlements, in order, with payer, amount,
  transaction and the time to the second.
\<close>

theorem restart_restores_settlements:
  assumes "disk_ok E" and "hash_text (ge_geth E)" and "journal_synced j0"
    and "s = run (gateway_step E) (attach_journal E j0 s0) events"
    and "allowed (gateway_step E) (fresh_settlement E) (attach_journal E j0 s0) events"
    and "gw_journal s = Some j" and "journal_open (Some (jr_file j)) = Inr j'"
  shows "gw_settlements (attach_journal E j' s1) = map durable (gw_settlements s)"
proof -
  have "mirrored E s" unfolding assms(4) by (rule restart.run_inv [OF mirrored_attach [OF assms(3)] assms(5)])
  with assms(1,2,6) have "journal_synced j" "restored (ge_geth E) (entries j) = map durable (gw_settlements s)"
    by (auto simp: mirrored_def)
  moreover from this(1) assms(7) have "j' = j" by (cases j) (auto simp: journal_open_def journal_synced_def)
  ultimately show ?thesis by (simp add: attach_journal_def restored_def)
qed

section \<open>What a served payment means\<close>

lemma deliver_Inr:
  assumes "deliver E r s = (Inr r', s')"
  shows "r' = r\<lparr>st_delivery_tx := st_delivery_tx r'\<rparr> \<and> gw_settlements s' = gw_settlements s \<and>
    gw_journal s' = gw_journal s \<and>
    (case ge_deliverer E of None \<Rightarrow> r' = r
     | Some dl \<Rightarrow> fst (dl (st_payer r) (gw_world s)) = Inr (st_delivery_tx r'))"
  using assms by (auto simp: deliver_def refund_def Let_def split: option.splits prod.splits sum.splits)

lemma settles_journaled:
  assumes "settle E p reqs pc s = (Inr r, s')" and "journal_ok s" and "gw_journal s \<noteq> None"
  shows "journaled s' (hash_hex (ge_geth E) (st_tx_hash r))"
proof (cases rule: settle_cases [of E p reqs pc s])
  case (settled r' s'' sr w s1 s2)
  have ok: "journal_ok s1" "gw_journal s1 \<noteq> None" using assms(2,3) settled(4) by (simp_all add: journal_ok_def)
  then have "journaled s2 (je_id (settlement_entry E r))" "journal_ok s2" "gw_journal s2 \<noteq> None"
    using append_entry_grows(1,3,5) [OF ok(1), of E "settlement_entry E r"] settled(1,8) assms(1) by auto
  moreover from settled(10) settled(1) assms(1) have "rel_option (annotated E) (gw_journal s2) (gw_journal s')"
    by (simp add: quiet_def)
  ultimately show ?thesis
    using annotated_journal
    by (fastforce simp: journaled_def journal_entries_def journal_ok_def settlement_entry_def
        split: option.splits elim!: option.rel_cases)
qed (use assms in simp)

lemma served_payment_facts:
  assumes "verify_and_settle E (Decoded p) reqs s = (Inr r, s')" and "journal_ok s"
    and "inflight_get (fst (payload_nonce (ge_geth E) p)) s = None"
  shows "\<exists>vr w sr w'. check_resource_binding E p reqs = None \<and>
    ge_verify E p reqs (gw_world s) = (Inr vr, w) \<and>
    (\<forall>leaf\<in>set (members (gateway_policy E (s\<lparr>gw_world := w\<rparr>))).
       leaf_holds (ge_geth E) (ge_now E w) (fresh_context E p reqs vr (s\<lparr>gw_world := w\<rparr>)) (gw_store s) leaf) \<and>
    ge_settle E p reqs w = (Inr (Some sr), w') \<and>
    settled_record E p sr (ge_now E w') (r\<lparr>st_delivery_tx := 0\<rparr>) \<and>
    gw_settlements s' = gw_settlements s @ [r\<lparr>st_delivery_tx := 0\<rparr>] \<and>
    (gw_journal s \<noteq> None \<longrightarrow> journaled s' (hash_hex (ge_geth E) (st_tx_hash r))) \<and>
    (case ge_deliverer E of None \<Rightarrow> st_delivery_tx r = 0
     | Some dl \<Rightarrow> fst (dl (st_payer r) w') = Inr (st_delivery_tx r))"
proof (cases rule: verify_and_settle_cases [of E "Decoded p" reqs s])
  case (approved p' vr w pc s1 s2)
  have pp: "p' = p" using approved(1) by simp
  let ?G = "ge_geth E"
  have s2: "gw_world s2 = w" "gw_settlements s2 = gw_settlements s" by (simp_all add: approved(5,8))
  obtain r0 s3 where st: "settle E p reqs pc s2 = (Inr r0, s3)" and dl: "deliver E r0 s3 = (Inr r, s')"
    using approved(9) assms(1) by (auto simp: pp split: prod.splits sum.splits)
  have j2: "journal_ok s2" "gw_journal s2 = None \<longleftrightarrow> gw_journal s = None"
  proof -
    have "journal_ok s1" using assms(2) by (simp add: approved(5) journal_ok_def)
    then show "journal_ok s2" using decided_journal(1) by (simp add: approved(8))
    show "gw_journal s2 = None \<longleftrightarrow> gw_journal s = None"
      using quiet_decided [of E s1 pc] by (auto simp: approved(5,8) quiet_def elim: option.rel_cases)
  qed
  have leaves: "\<forall>leaf\<in>set (members (gateway_policy E s1)). leaf_holds ?G (ge_now E w) pc (gw_store s) leaf"
    using approved(7) approve_leaves(1) [of ?G "ge_now E w" "gateway_policy E s1" pc "gw_store s"]
    by (simp add: gateway_decide_def now_def approved(5) split: prod.splits)
  show ?thesis
  proof (cases rule: settle_cases [of E p reqs pc s2])
    case (settled r' s'' sr w' sa sb)
    have r': "r' = r0" "s'' = s3" using settled(1) st by simp_all
    note d = deliver_Inr [OF dl]
    have z: "st_delivery_tx r0 = 0" using settled(3) by (auto simp: settled_record_def r')
    have r0: "r0 = r\<lparr>st_delivery_tx := 0\<rparr>" "st_tx_hash r = st_tx_hash r0" "st_payer r = st_payer r0"
      using d z by (metis settlement_record.surjective settlement_record.update_convs(5))
        (metis d settlement_record.simps(3) settlement_record.update_convs(5) settlement_record.surjective
          settlement_record.select_convs(3), metis d settlement_record.surjective
          settlement_record.update_convs(5) settlement_record.select_convs(1))
    have "gw_journal s \<noteq> None \<longrightarrow> journaled s' (hash_hex ?G (st_tx_hash r))"
      using settles_journaled [OF st j2(1)] j2(2) d r0(2) by (simp add: journaled_def journal_entries_def)
    moreover have "case ge_deliverer E of None \<Rightarrow> st_delivery_tx r = 0
        | Some dl \<Rightarrow> fst (dl (st_payer r) w') = Inr (st_delivery_tx r)"
      using d z r0(3) settled(11) by (auto simp: r' split: option.splits)
    ultimately show ?thesis
      using approved(3,4) leaves settled(2,3,9) s2 r0(1) d r' unfolding pp approved(5,6)
      by (intro exI [of _ vr] exI [of _ w] exI [of _ sr] exI [of _ w']) simp
  qed (use st in simp)
next
  case (deferred p' vr w pc s1 s2)
  then show ?thesis using assms(1) by (simp add: begin_deferred_def split: prod.splits sum.splits)
qed (use assms in simp_all)

text \<open>
  C6. A fresh payment is served only after everything it needs: where the gateway requires
  bound nonces or the payment states a seed, and no confirmation is attached, its nonce is the
  hash of its seed and the resource; every policy of the chain has its condition met on the
  facilitator's verdict; the facilitator settled it; the record is that of the signed
  authorization, is in the list of settlements and, when the gateway has a journal, its
  transaction is journaled before the answer; and the deliverer, where there is one, delivered
  to the payer.
\<close>

theorem served_payment_was_settled:
  assumes "verify_and_settle E (Decoded p) reqs s = (Inr r, s')" and "journal_ok s"
    and "inflight_get (fst (payload_nonce (ge_geth E) p)) s = None"
  shows "\<exists>vr w sr w'.
    (pp_confirmation p = None \<and> (ge_require_bound_nonce E \<or> ep_nonce_seed (pp_payload p) \<noteq> '''') \<longrightarrow>
       (\<exists>seed. hex_to_32 (ep_nonce_seed (pp_payload p)) = Inr seed \<and>
          payload_nonce (ge_geth E) p = (bound_nonce (ge_geth E) seed (pr_resource reqs), True))) \<and>
    ge_verify E p reqs (gw_world s) = (Inr vr, w) \<and>
    (\<forall>leaf\<in>set (members (gateway_policy E (s\<lparr>gw_world := w\<rparr>))).
       leaf_holds (ge_geth E) (ge_now E w) (fresh_context E p reqs vr (s\<lparr>gw_world := w\<rparr>)) (gw_store s) leaf) \<and>
    ge_settle E p reqs w = (Inr (Some sr), w') \<and>
    settled_record E p sr (ge_now E w') (r\<lparr>st_delivery_tx := 0\<rparr>) \<and>
    gw_settlements s' = gw_settlements s @ [r\<lparr>st_delivery_tx := 0\<rparr>] \<and>
    (gw_journal s \<noteq> None \<longrightarrow> journaled s' (hash_hex (ge_geth E) (st_tx_hash r))) \<and>
    (case ge_deliverer E of None \<Rightarrow> st_delivery_tx r = 0
     | Some dl \<Rightarrow> fst (dl (st_payer r) w') = Inr (st_delivery_tx r))"
proof -
  obtain vr w sr w' where f: "check_resource_binding E p reqs = None"
      "ge_verify E p reqs (gw_world s) = (Inr vr, w)"
      "\<forall>leaf\<in>set (members (gateway_policy E (s\<lparr>gw_world := w\<rparr>))).
         leaf_holds (ge_geth E) (ge_now E w) (fresh_context E p reqs vr (s\<lparr>gw_world := w\<rparr>)) (gw_store s) leaf"
      "ge_settle E p reqs w = (Inr (Some sr), w')" "settled_record E p sr (ge_now E w') (r\<lparr>st_delivery_tx := 0\<rparr>)"
      "gw_settlements s' = gw_settlements s @ [r\<lparr>st_delivery_tx := 0\<rparr>]"
      "gw_journal s \<noteq> None \<longrightarrow> journaled s' (hash_hex (ge_geth E) (st_tx_hash r))"
      "case ge_deliverer E of None \<Rightarrow> st_delivery_tx r = 0 | Some dl \<Rightarrow> fst (dl (st_payer r) w') = Inr (st_delivery_tx r)"
    using served_payment_facts [OF assms] by blast
  have "\<exists>seed. hex_to_32 (ep_nonce_seed (pp_payload p)) = Inr seed \<and>
      payload_nonce (ge_geth E) p = (bound_nonce (ge_geth E) seed (pr_resource reqs), True)"
    if "pp_confirmation p = None" "ge_require_bound_nonce E \<or> ep_nonce_seed (pp_payload p) \<noteq> ''''"
    using f(1) that by (auto simp: check_resource_binding_def Let_def split: if_splits sum.splits prod.splits)
  then show ?thesis by (intro exI [of _ vr] exI [of _ w] exI [of _ sr] exI [of _ w'] conjI f(2-)) blast
qed

section \<open>Mandates in force\<close>

lemma enrich_frame [simp]:
  "pc_payload (enrich E s pc) = pc_payload pc" "pc_requirements (enrich E s pc) = pc_requirements pc"
  "pc_verification (enrich E s pc) = pc_verification pc" "pc_stage (enrich E s pc) = pc_stage pc"
  by (simp_all add: enrich_def Let_def split: option.split)

fun checks_only :: "policy \<Rightarrow> bool" where
  "checks_only AlwaysVerify \<longleftrightarrow> True"
| "checks_only (IdentityPolicy _) \<longleftrightarrow> True"
| "checks_only (EligibilityPolicy _) \<longleftrightarrow> True"
| "checks_only _ \<longleftrightarrow> False"

text \<open>
  The chain cmd/gateway builds: verification, identity and eligibility, then the mandate
  policy, then whatever else.
\<close>

definition enforces :: "'w gateway_env \<Rightarrow> mandate_policy \<Rightarrow> bool" where
  "enforces E mp \<longleftrightarrow> mp_ref mp \<noteq> None \<and>
     (\<forall>w. \<exists>pre post. ge_policy E w = Some (Chain (pre @ MandatePolicy mp # post)) \<and> (\<forall>q\<in>set pre. checks_only q))"

lemma checks_only_decide:
  assumes "checks_only q"
  shows "snd (decide G t q pc st) = st"
    and "d_action (fst (decide G t q pc st)) = ActionApprove \<or> d_action (fst (decide G t q pc st)) = ActionReject"
  using assms
  by (cases q; auto simp: always_verify_decide_def identity_decide_def eligibility_decide_def reject_def
      split: option.split sum.split)+

lemma chain_mandates_prefix:
  "\<forall>q\<in>set pre. checks_only q \<Longrightarrow> chain_mandates (pre @ MandatePolicy mp # post) = mp # chain_mandates post"
proof (induction pre)
  case (Cons q pre)
  then show ?case by (cases q) simp_all
qed simp

lemma chain_refuses_unentitled:
  assumes "\<forall>q\<in>set pre. checks_only q" and "\<nexists>m. entitled G t mp pc st m"
  shows "d_action (fst (decide_chain G t (pre @ MandatePolicy mp # post) pc st)) = ActionReject"
  using assms(1)
proof (induction pre)
  case Nil
  show ?case
  proof (cases rule: mandate_decide_cases [of G t mp pc st])
    case refused
    then show ?thesis by (auto simp: Let_def split: prod.split)
  qed (use assms(2) in blast)
next
  case (Cons q pre)
  obtain d st' where d: "decide G t q pc st = (d, st')" by (cases "decide G t q pc st")
  with Cons.prems checks_only_decide [of q G t pc st] have "st' = st"
    "d_action d = ActionApprove \<or> d_action d = ActionReject" by auto
  with Cons d show ?case by auto
qed

lemma enforcesD:
  assumes "enforces E mp"
  obtains pre post where "gateway_policy E s = Chain (pre @ MandatePolicy mp # post)"
    "\<forall>q\<in>set pre. checks_only q" "mandate_policy_of (gateway_policy E s) = Some mp"
proof -
  from assms obtain pre post where "ge_policy E (gw_world s) = Some (Chain (pre @ MandatePolicy mp # post))"
    "\<forall>q\<in>set pre. checks_only q"
    by (meson enforces_def)
  then show thesis
    using that by (simp add: gateway_policy_def mandate_policy_of_def chain_mandates_prefix)
qed

lemma fst_gateway_decide:
  "fst (gateway_decide E pc s) = fst (decide (ge_geth E) (now E s) (gateway_policy E s) pc (gw_store s))"
  by (simp add: gateway_decide_def split: prod.split)

lemma enforced_refusal:
  assumes "enforces E mp" and "\<nexists>m. entitled (ge_geth E) (now E s) mp pc (gw_store s) m"
  shows "d_action (fst (gateway_decide E pc s)) = ActionReject"
proof -
  from assms(1) obtain pre post where p: "gateway_policy E s = Chain (pre @ MandatePolicy mp # post)"
    and "\<forall>q\<in>set pre. checks_only q"
    by (rule enforcesD)
  from chain_refuses_unentitled [OF this(2) assms(2)] show ?thesis
    unfolding fst_gateway_decide p decide.simps .
qed

lemma revoked_in_keeps:
  "keeps_revocations st st' \<Longrightarrow> revoked_in mp st m \<Longrightarrow> revoked_in mp st' m"
  by (auto simp: revoked_in_def keeps_revocations_def revocations_has_def split: option.splits)

interpretation revoked: machine "gateway_step E" "\<lambda>_ _. True" "\<lambda>s. revoked_in mp (gw_store s) m" for E mp m
  by unfold_locales (rule revoked_in_keeps [OF one_step_keeps_revocations [OF gateway_one_step]])

text \<open>
  After an accepted revocation no fresh payment under the mandate settles, whatever
  requests, revocations and time passed in between.
\<close>

lemma revoked_mandate_facts:
  assumes "enforces E mp" and "revoke_mandate E rj s0 = (None, s1)"
    and "parse_bytes32 (ge_geth E) (rj_mandate_id rj) = Inr i"
    and "verify_revocation (ge_geth E) i (from_hex (ge_geth E) (rj_signature rj)) (mp_chain_id mp) = Inr d"
    and "pp_mandate p = Some sm" and "to_mandate (ge_geth E) (smj_mandate sm) = Inr m"
    and "m_delegator m = d" and "m_mandate_id m = i"
    and "s = run (gateway_step E) s1 events"
    and "inflight_get (fst (payload_nonce (ge_geth E) p)) s = None"
  shows "\<exists>f s'. verify_and_settle E (Decoded p) reqs s = (Inl f, s') \<and>
    gw_settlements s' = gw_settlements s \<and>
    gw_world s' \<in> {gw_world s, snd (ge_verify E p reqs (gw_world s))}"
proof -
  from assms(1) obtain r where r: "mp_ref mp = Some r" by (auto simp: enforces_def)
  have "mandate_policy_of (gateway_policy E s0) = Some mp" using assms(1) by (rule enforcesD)
  then have "gw_store s1 = mp_revoke mp d i (gw_store s0)"
    using assms(2-4) by (auto simp: revoke_mandate_def record_revocation_def)
  then have "revoked_in mp (gw_store s1) m" using r assms(7,8) by (simp add: revoked_in_mp_revoke)
  then have rv: "revoked_in mp (gw_store s) m" unfolding assms(9) by (rule revoked.run_inv) simp
  show ?thesis
  proof -
    have dec: "d_action (fst (gateway_decide E pc s2)) = ActionReject"
      if "gw_store s2 = gw_store s" "pc_payload pc = p" for s2 pc
    proof -
      have "\<nexists>m'. entitled (ge_geth E) (now E s2) mp pc (gw_store s2) m'"
        using rv assms(5,6) that by (auto simp: entitled_def signed_mandate_in_def)
      with assms(1) show ?thesis by (rule enforced_refusal)
    qed
    obtain out w where v: "ge_verify E p reqs (gw_world s) = (out, w)"
      by (cases "ge_verify E p reqs (gw_world s)")
    show ?thesis
    proof (cases "check_resource_binding E p reqs")
      case None
      show ?thesis
      proof (cases out)
        case (Inr vr)
        let ?pc = "fresh_context E p reqs vr (s\<lparr>gw_world := w\<rparr>)"
        obtain d' s2 where gd: "gateway_decide E ?pc (s\<lparr>gw_world := w\<rparr>) = (d', s2)"
          by (cases "gateway_decide E ?pc (s\<lparr>gw_world := w\<rparr>)")
        have "d_action (fst (gateway_decide E ?pc (s\<lparr>gw_world := w\<rparr>))) = ActionReject"
          by (rule dec) (simp_all add: fresh_context_def)
        then have "verify_and_settle E (Decoded p) reqs s
            = (Inl (refusal d' ?pc vr), record_decision E ?pc d' False s2)"
          using assms(10) None v Inr gd
          by (simp add: verify_and_settle_def fresh_context_def [symmetric] Let_def)
        moreover have "gw_world s2 = w" "gw_settlements s2 = gw_settlements s"
          using gateway_decide_frame(1,3) [of E ?pc "s\<lparr>gw_world := w\<rparr>"] gd by simp_all
        ultimately show ?thesis using v by simp
      qed (use assms(10) None v in \<open>simp add: verify_and_settle_def Let_def\<close>)
    qed (use assms(10) in \<open>simp add: verify_and_settle_def Let_def\<close>)
  qed
qed

section \<open>Witnesses\<close>

text \<open>
  A gateway for the witnesses: the world is the head's height, the disk is healthy, the
  facilitator accepts and settles every payment of the payer 2 in the transaction 77.
\<close>

definition sample_response :: settlement_response where
  "sample_response = \<lparr>sresp_success = True, sresp_transaction = hash_hex sample_geth 77,
     sresp_network = ''eip155:1337'', sresp_payer = address_hex sample_geth 2, sresp_error_reason = '''',
     sresp_delivery_transaction = '''', sresp_receipt = None\<rparr>"

definition sample_env :: "policy \<Rightarrow> nat gateway_env" where
  "sample_env pol = \<lparr>
     ge_geth = sample_geth, ge_token_address = 9, ge_pay_to = 3, ge_price = 60, ge_network = ''eip155:1337'',
     ge_timeout = 0, ge_dvp_address = 0, ge_require_bound_nonce = False, ge_receipt_key = None,
     ge_confirm_depth = 2, ge_sessions_enabled = True, ge_policy = (\<lambda>_. Some pol), ge_scorer = None,
     ge_verify = (\<lambda>_ _ w. (Inr (Some \<lparr>vr_is_valid = True, vr_invalid_reason = '''',
       vr_payer = address_hex sample_geth 2\<rparr>), w)),
     ge_settle = (\<lambda>_ _ w. (Inr (Some sample_response), Suc w)),
     ge_deliverer = None, ge_refunder = Some (\<lambda>_ _ w. (Inr 99, Suc w)), ge_head = (\<lambda>w. Inr w),
     ge_tx_block = (\<lambda>_ w. Some w), ge_now = (\<lambda>_. 1000), ge_random = (\<lambda>w. (Some 5, w)),
     ge_disk = (\<lambda>_ _. IoOk)\<rparr>"

definition sample_gateway :: "journal option \<Rightarrow> nat gateway" where
  "sample_gateway j = \<lparr>gw_world = 10, gw_store = fresh_store, gw_journal = j, gw_settlements = [],
     gw_inflight = Map.empty, gw_sessions = Map.empty, gw_metrics = Some new_metrics\<rparr>"

definition new_journal :: journal where
  "new_journal = \<lparr>jr_file = [], jr_mem = empty_mem\<rparr>"

lemma new_journal_synced [simp]: "journal_synced new_journal"
  by (simp add: journal_synced_def new_journal_def clean_file_def journal_replay_def parsed_def)

lemma sample_env_sel [simp]:
  "ge_geth (sample_env pol) = sample_geth" "ge_scorer (sample_env pol) = None"
  "ge_policy (sample_env pol) w = Some pol" "ge_deliverer (sample_env pol) = None"
  "ge_now (sample_env pol) w = 1000" "ge_head (sample_env pol) w' = Inr w'"
  "ge_require_bound_nonce (sample_env pol) = False" "ge_confirm_depth (sample_env pol) = 2"
  "ge_verify (sample_env pol) p r w' = (Inr (Some \<lparr>vr_is_valid = True, vr_invalid_reason = '''',
     vr_payer = address_hex sample_geth 2\<rparr>), w')"
  "fst (ge_settle (sample_env pol) p r w') = Inr (Some sample_response)"
  "sresp_success sample_response" 
  "disk_ok (sample_env pol)"
  by (simp_all add: sample_env_def sample_response_def disk_ok_def)

lemma sample_gateway_sel [simp]:
  "gw_world (sample_gateway j) = 10" "gw_store (sample_gateway j) = fresh_store"
  "gw_journal (sample_gateway j) = j" "gw_settlements (sample_gateway j) = []"
  "gw_inflight (sample_gateway j) = Map.empty" "gw_sessions (sample_gateway j) = Map.empty"
  by (simp_all add: sample_gateway_def)

lemma sample_hash_text [simp]: "hash_text sample_geth"
proof -
  have "CHR '':'' \<notin> set (hex_encode bs)" for bs
  proof -
    have "hex_char n \<noteq> CHR '':''" if "n < 16" for n
    proof
      assume "hex_char n = CHR '':''"
      then have "of_char (hex_char n) = (58 :: nat)" by simp
      with that show False by (auto simp: hex_char_def split: if_splits)
    qed
    moreover have "unat b div 16 < 16" for b :: byte using unsigned_less [of b, where 'a = nat] by (simp add: less_mult_imp_div_less)
    ultimately have "hex_char (unat b div 16) \<noteq> CHR '':''" "hex_char (unat b mod 16) \<noteq> CHR '':''" for b :: byte
      by simp_all
    note hex = this this [symmetric]
    show ?thesis by (induction bs) (simp_all add: hex)
  qed
  then show ?thesis by (simp add: hash_text_def) (simp add: sample_geth_def)
qed

lemma append_entry_ok: "disk_ok E \<Longrightarrow> fst (append_entry E e s) = None"
  by (auto simp: append_entry_def disk_ok_def jop_run_cases [of _ "JAppend e", simplified]
      split: option.split prod.split)

lemma settle_ok:
  assumes "disk_ok E" and "fst (ge_settle E p reqs (gw_world s)) = Inr (Some sr)" and "sresp_success sr"
    and "parse_exact_payload (ge_geth E) (pp_payload p) = Inr (a, sig)"
  shows "\<exists>r s'. settle E p reqs pc s = (Inr r, s')"
proof -
  obtain w where w: "ge_settle E p reqs (gw_world s) = (Inr (Some sr), w)"
    using assms(2) by (cases "ge_settle E p reqs (gw_world s)") simp
  show ?thesis
    using append_entry_ok [OF assms(1)] assms(3,4)
    by (auto simp: settle_def w Let_def split: prod.split option.split) (metis fst_conv option.distinct(1))
qed

lemma sample_serves:
  "\<exists>r s'. verify_and_settle (sample_env AlwaysVerify) (Decoded pay_payload) reqs (sample_gateway j) = (Inr r, s')"
proof -
  let ?E = "sample_env AlwaysVerify"
  let ?v = "\<lparr>vr_is_valid = True, vr_invalid_reason = '''', vr_payer = address_hex sample_geth 2\<rparr>"
  let ?start = "sample_gateway j\<lparr>gw_world := 10\<rparr>"
  let ?pc = "fresh_context ?E pay_payload reqs (Some ?v) ?start"
  obtain d s2 where d: "gateway_decide ?E ?pc ?start = (d, s2)" by (cases "gateway_decide ?E ?pc ?start")
  then have ap: "d_action d = ActionApprove"
    by (auto simp: gateway_decide_def gateway_policy_def always_verify_decide_def fresh_context_def)
  obtain r s' where st: "settle ?E pay_payload reqs ?pc (record_decision ?E ?pc d False s2) = (Inr r, s')"
    using settle_ok [of ?E pay_payload reqs _ sample_response pay_auth pay_signature] by fastforce
  have b: "check_resource_binding ?E pay_payload reqs = None"
    by (simp add: check_resource_binding_def) (simp add: pay_payload_def)
  show ?thesis
    using d ap st by (simp add: verify_and_settle_def inflight_get_def b fresh_context_def Let_def deliver_def)
qed

theorem served_payment_witness:
  "\<exists>r s'. verify_and_settle (sample_env AlwaysVerify) (Decoded pay_payload) pay_requirements
     (sample_gateway (Some new_journal)) = (Inr r, s') \<and>
   journaled s' (hash_hex sample_geth (st_tx_hash r)) \<and> gw_settlements s' = [r\<lparr>st_delivery_tx := 0\<rparr>]"
proof -
  obtain r s' where v: "verify_and_settle (sample_env AlwaysVerify) (Decoded pay_payload) pay_requirements
      (sample_gateway (Some new_journal)) = (Inr r, s')"
    using sample_serves by blast
  have ok: "journal_ok (sample_gateway (Some new_journal))"
    by (simp add: journal_ok_def synced_wf)
  show ?thesis
    using served_payment_was_settled [OF v ok] v by (auto simp: inflight_get_def)
qed

definition sample_request :: http_request where
  "sample_request = \<lparr>rq_host = ''h'', rq_path = ''/doc'', rq_payment = Decoded pay_payload,
     rq_session = '''', rq_session_close = ''''\<rparr>"

theorem restart_witness:
  "let E = sample_env AlwaysVerify;
       s = run (gateway_step E) (attach_journal E new_journal (sample_gateway None)) [Request sample_request] in
   \<exists>j j'. gw_journal s = Some j \<and> journal_open (Some (jr_file j)) = Inr j' \<and>
     gw_settlements (attach_journal E j' (sample_gateway None)) = map durable (gw_settlements s)"
proof -
  let ?E = "sample_env AlwaysVerify"
  let ?start = "attach_journal ?E new_journal (sample_gateway None)"
  let ?s = "run (gateway_step ?E) ?start [Request sample_request]"
  have "\<not> journaled ?start i" for i
    by (simp add: journaled_def journal_entries_def attach_journal_def entries_def new_journal_def empty_mem_def)
  then have al: "allowed (gateway_step ?E) (fresh_settlement ?E) ?start [Request sample_request]"
    by (simp add: fresh_settlement_def)
  then have "mirrored ?E ?s" using restart.run_inv [OF mirrored_attach [OF new_journal_synced]] by blast
  then obtain j where j: "gw_journal ?s = Some j" by (auto simp: mirrored_def)
  obtain j' where j': "journal_open (Some (jr_file j)) = Inr j'" by (simp add: journal_open_def)
  show ?thesis
    unfolding Let_def
    using restart_restores_settlements [OF _ _ new_journal_synced refl al j j', of "sample_gateway None"] j j'
    by (intro exI [of _ j] exI [of _ j']) simp
qed

definition sample_chain_policy :: policy where
  "sample_chain_policy = Chain [AlwaysVerify, MandatePolicy sample_policy]"

lemma sample_enforces: "enforces (sample_env sample_chain_policy) sample_policy"
proof -
  have "sample_chain_policy = Chain ([AlwaysVerify] @ MandatePolicy sample_policy # [])"
    by (simp add: sample_chain_policy_def)
  then have "ge_policy (sample_env sample_chain_policy) w = Some (Chain ([AlwaysVerify] @ MandatePolicy sample_policy # []))"
    for w by simp
  moreover have "\<forall>q\<in>set [AlwaysVerify]. checks_only q" by simp
  ultimately show ?thesis unfolding enforces_def by (metis option.distinct(1) sample_context_simps(6))
qed

definition sample_revocation :: revocation_json where
  "sample_revocation = \<lparr>rj_mandate_id = ''0x'' @ hex_encode (bytes32_bytes 7),
     rj_signature = ''0x'' @ hex_encode (case sign_revocation sample_geth 1 7 (Some 1) of Inl _ \<Rightarrow> [] | Inr s \<Rightarrow> s)\<rparr>"

lemma sample_revocation_verifies:
  "verify_revocation sample_geth 7 (from_hex sample_geth (rj_signature sample_revocation)) (Some 1) = Inr 1"
proof -
  obtain sg where sg: "sign_revocation sample_geth 1 7 (Some 1) = Inr sg"
    by (simp add: sign_revocation_def) (simp add: sample_geth_def)
  have "key_address sample_geth 1 = 1" by (simp add: sample_geth_def)
  with sign_revocation_verify [OF sample_geth_sig sg] sg show ?thesis by (simp add: sample_revocation_def)
qed

end
