(* ===== verification/Deferred.thy ===== *)
theory Deferred
  imports GatewayRuns
begin

text \<open>
  The deferred path of the gateway (\<open>beginDeferred\<close> and \<open>resumeDeferred\<close> in
  \<open>x402/gateway.go\<close>): a large payment settles at once and is delivered once its settlement
  is deep enough. What the stage promises, and what the path does not check: the retried
  payload's signature and value, the policies after the one that deferred, and that another
  request has not delivered in between.
\<close>

section \<open>Depth\<close>

lemma stage_of_Inr:
  "stage_of E block s = Inr st \<Longrightarrow> \<exists>head. ge_head E (gw_world s) = Inr head \<and> block \<le> head \<and>
     (st = StageConfirmed \<longleftrightarrow> ge_confirm_depth E \<le> head - block) \<and> (st = StageConfirmed \<or> st = StageSubmitted)"
  by (auto simp: stage_of_def not_less split: sum.splits if_splits)

lemma mandate_limits_approve_stage:
  assumes "d_action (fst (mandate_limits G t mp pc m st)) = ActionApprove"
    and "mp_defer_above mp = Some d" and "0 < d" and "payment_amount pc = Some a" and "d \<le> a"
  shows "\<not> pc_stage pc < StageConfirmed"
  using assms
  by (auto simp: mandate_limits_def account_payment_def defer_or_approve_def over_limit_def reject_def Let_def
      split: option.splits if_splits prod.splits)

lemma not_below_confirmed: "\<not> st < StageConfirmed \<longleftrightarrow> st = StageConfirmed"
  by (cases st) (simp_all add: less_stage_def)

text \<open>A chain that approves has its mandate policy approve, on some state of the accounts.\<close>

lemma chain_approve_mandate:
  "d_action (fst (decide_chain G t ps pc st)) = ActionApprove \<Longrightarrow> MandatePolicy mp \<in> set ps \<Longrightarrow>
    \<exists>st'. d_action (fst (mandate_decide G t mp pc st')) = ActionApprove"
proof (induction ps arbitrary: st)
  case (Cons q ps)
  obtain d st' where d: "decide G t q pc st = (d, st')" by (cases "decide G t q pc st")
  with Cons.prems(1) have a: "d_action d = ActionApprove"
    "d_action (fst (decide_chain G t ps pc st')) = ActionApprove"
    by (auto split: if_splits)
  show ?case
  proof (cases "q = MandatePolicy mp")
    case True
    with d a(1) show ?thesis by (metis decide.simps(4) fst_conv)
  qed (use Cons a(2) in auto)
qed simp

text \<open>
  C23. What delivers a deferred payment: when the gateway enforces mandates with a deferral
  threshold, a retry of a payment in flight is answered with success only when the head is
  not below the settlement's block and either that block is at least the confirm depth below
  the head or the amount the retry states is below the threshold or unreadable; and the
  payment is then no longer in flight.
\<close>

theorem deferred_delivery_at_depth:
  assumes "enforces E mp" and "mp_defer_above mp = Some d" and "0 < d"
    and "inflight_get (fst (payload_nonce (ge_geth E) p)) s = Some df"
    and "verify_and_settle E (Decoded p) reqs s = (Inr r, s')"
  shows "inflight_get (fst (payload_nonce (ge_geth E) p)) s' = None \<and>
    (\<exists>head. ge_head E (gw_world s) = Inr head \<and> df_submitted_block df \<le> head \<and>
      (df_submitted_block df + ge_confirm_depth E \<le> head \<or>
       (case set_string10 (aj_value (ep_authorization (pp_payload p))) of None \<Rightarrow> True | Some a \<Rightarrow> a < d)))"
proof -
  let ?n = "fst (payload_nonce (ge_geth E) p)"
  have r: "resume_deferred E p reqs ?n df s = (Inr r, s')"
    using assms(4,5) by (simp add: verify_and_settle_def Let_def)
  show ?thesis
  proof (cases rule: resume_cases [of E p reqs ?n df s])
    case (approved st s1)
    let ?pc = "resume_context E p reqs df st s"
    have "gw_inflight s' = gw_inflight (inflight_remove ?n s1)"
      using r approved(4) by (auto simp: deliver_def refund_def Let_def split: option.splits prod.splits sum.splits)
    then have gone: "inflight_get ?n s' = None" by (simp add: inflight_get_def inflight_remove_def)
    have late: "st = StageConfirmed" if a: "set_string10 (aj_value (ep_authorization (pp_payload p))) = Some a" "d \<le> a" for a
    proof -
      have pay: "payment_amount ?pc = Some a" "pc_stage ?pc = st"
        using a(1) by (simp_all add: payment_amount_def resume_context_def)
      obtain pre post where pol: "gateway_policy E s = Chain (pre @ MandatePolicy mp # post)"
        using enforcesD [OF assms(1), of s] by metis
      from approved(2) obtain st' where
        "d_action (fst (mandate_decide (ge_geth E) (now E s) mp ?pc st')) = ActionApprove"
        using chain_approve_mandate [of "ge_geth E" "now E s" "pre @ MandatePolicy mp # post" ?pc "gw_store s" mp]
        by (auto simp: fst_gateway_decide pol)
      then obtain m where "d_action (fst (mandate_limits (ge_geth E) (now E s) mp ?pc m st')) = ActionApprove"
        by (cases rule: mandate_decide_cases [of "ge_geth E" "now E s" mp ?pc st']) auto
      from mandate_limits_approve_stage [OF this assms(2,3) pay(1) a(2)] show ?thesis
        using pay(2) not_below_confirmed by simp
    qed
    show ?thesis using gone late stage_of_Inr [OF approved(1)] by (fastforce split: option.split)
  qed (use r in simp_all)
qed

section \<open>What the retry is not checked for\<close>

text \<open>
  A payload of the same nonce, value, mandate and confirmation, with any other signature,
  payer, recipient, validity, seed, scheme and network.
\<close>

definition forged :: "payment_payload \<Rightarrow> payment_payload \<Rightarrow> bool" where
  "forged p' p \<longleftrightarrow>
     aj_nonce (ep_authorization (pp_payload p')) = aj_nonce (ep_authorization (pp_payload p)) \<and>
     aj_value (ep_authorization (pp_payload p')) = aj_value (ep_authorization (pp_payload p)) \<and>
     pp_mandate p' = pp_mandate p \<and> pp_confirmation p' = pp_confirmation p"

text \<open>No policy looks at anything else of the payload.\<close>

definition same_claims :: "payment_context \<Rightarrow> payment_context \<Rightarrow> bool" where
  "same_claims pc' pc \<longleftrightarrow> forged (pc_payload pc') (pc_payload pc) \<and> pc_requirements pc' = pc_requirements pc \<and>
     pc_verification pc' = pc_verification pc \<and> pc_history pc' = pc_history pc \<and> pc_stage pc' = pc_stage pc \<and>
     pc_risk_score pc' = pc_risk_score pc"

lemma same_claims_read:
  assumes "same_claims pc' pc"
  shows "payment_amount pc' = payment_amount pc" "payment_nonce G pc' = payment_nonce G pc"
    "pp_mandate (pc_payload pc') = pp_mandate (pc_payload pc)"
    "pp_confirmation (pc_payload pc') = pp_confirmation (pc_payload pc)"
    "pc_requirements pc' = pc_requirements pc" "pc_verification pc' = pc_verification pc"
    "pc_history pc' = pc_history pc" "pc_stage pc' = pc_stage pc" "pc_risk_score pc' = pc_risk_score pc"
  using assms by (simp_all add: same_claims_def forged_def payment_amount_def payment_nonce_def Let_def)

lemma mandate_decide_same_claims:
  assumes "same_claims pc' pc"
  shows "mandate_decide G t p pc' st = mandate_decide G t p pc st"
proof -
  note rd = same_claims_read [OF assms]
  have conf: "confirmation_approves G t p pc' m a = confirmation_approves G t p pc m a" for m a
    unfolding confirmation_approves_def rd ..
  have "mandate_limits G t p pc' m st = mandate_limits G t p pc m st" for m
    unfolding mandate_limits_def account_payment_def defer_or_approve_def conf rd ..
  moreover have "mandate_of G p pc' = mandate_of G p pc" unfolding mandate_of_def rd ..
  moreover have "entitlement_failure G t p pc' m st = entitlement_failure G t p pc m st" for m
    unfolding entitlement_failure_def rd ..
  ultimately show ?thesis by (simp add: mandate_decide_def split: sum.split option.split)
qed

lemma decide_same_claims:
  shows "same_claims pc' pc \<Longrightarrow> decide G t pol pc' st = decide G t pol pc st"
    and "same_claims pc' pc \<Longrightarrow> decide_chain G t ps pc' st = decide_chain G t ps pc st"
proof (induction G t pol pc st and G t ps pc st rule: decide_decide_chain.induct)
  case (1 G t pc st)
  then show ?case by (simp add: always_verify_decide_def same_claims_read)
next
  case (2 G t reg pc st)
  then show ?case by (simp add: identity_decide_def same_claims_read)
next
  case (3 G t reg pc st)
  then show ?case by (simp add: eligibility_decide_def same_claims_read)
next
  case (5 G t tb pc st)
  show ?case unfolding decide.simps table_decide_def same_claims_read [OF 5] ..
next
  case (8 G t p ps pc st)
  then show ?case by (cases "decide G t p pc st") auto
qed (simp_all add: mandate_decide_same_claims)

lemma same_claims_resume:
  assumes "forged p' p" and "ge_scorer E = None"
  shows "same_claims (resume_context E p' reqs df st s) (resume_context E p reqs df st s)"
  using assms by (auto simp: same_claims_def resume_context_def enrich_def forged_def Let_def split: option.split)

lemma forged_nonce: "forged p' p \<Longrightarrow> payload_nonce G p' = payload_nonce G p"
  by (simp add: forged_def payload_nonce_def)

text \<open>
  A payment in flight is resumed for whoever presents its nonce: the answer to a retry does
  not depend on the signature, the payer, the recipient, the validity or the network of the
  payload, under any policy, so the nonce, which the settlement made public on chain, is
  enough to take the delivery's answer and end the payer's payment.
\<close>

theorem resume_ignores_signature:
  assumes "inflight_get (fst (payload_nonce (ge_geth E) p)) s = Some df" and "ge_scorer E = None"
    and "forged p' p"
  shows "verify_and_settle E (Decoded p') reqs s = verify_and_settle E (Decoded p) reqs s"
proof -
  have "gateway_decide E (resume_context E p' reqs df st s) s = gateway_decide E (resume_context E p reqs df st s) s" for st
    using decide_same_claims(1) [OF same_claims_resume [OF assms(3,2)]] by (simp add: gateway_decide_def)
  then have "resume_deferred E p' reqs n df s = resume_deferred E p reqs n df s" for n
    unfolding resume_deferred_def resume_context_def [symmetric] Let_def by (simp split: sum.split)
  then show ?thesis
    using assms(1) forged_nonce [OF assms(3)] by (simp add: verify_and_settle_def Let_def)
qed


text \<open>The same payload stating another amount.\<close>

definition restate :: "string \<Rightarrow> payment_payload \<Rightarrow> payment_payload" where
  "restate v p = p\<lparr>pp_payload := (pp_payload p)\<lparr>ep_authorization :=
     (ep_authorization (pp_payload p))\<lparr>aj_value := v\<rparr>\<rparr>\<rparr>"

lemma restate_sel [simp]:
  "payload_nonce G (restate v p) = payload_nonce G p" "pp_mandate (restate v p) = pp_mandate p"
  "pp_confirmation (restate v p) = pp_confirmation p"
  "aj_value (ep_authorization (pp_payload (restate v p))) = v"
  by (simp_all add: restate_def payload_nonce_def)

lemma entitled_restate:
  assumes "pp_mandate (pc_payload pc') = pp_mandate (pc_payload pc)" "pc_requirements pc' = pc_requirements pc"
    "pc_verification pc' = pc_verification pc"
  shows "entitled G t mp pc' st m = entitled G t mp pc st m"
  by (simp add: entitled_def signed_mandate_in_def paid_by_agent_def scope_allows_def assms)

lemma mandate_decide_entitled:
  assumes "entitled G t mp pc st m"
  shows "mandate_decide G t mp pc st = mandate_limits G t mp pc m st"
proof -
  have "mandate_of G mp pc = Inr m" using assms by (simp add: entitled_def mandate_of_Inr)
  moreover have "entitlement_failure G t mp pc m st = None"
    using assms by (simp add: entitlement_None_iff entitled_def)
  ultimately show ?thesis by (simp add: mandate_decide_def)
qed

lemma resumed_limits:
  assumes "payment_amount pc = Some a" and "\<not> exceeds a (m_max_amount_per_payment m)"
    and "pc_stage pc = StageSubmitted" and "mp_defer_above mp = Some d" and "0 < d"
  shows "mandate_limits G t mp pc m st =
    ((if d \<le> a then \<lparr>d_action = ActionDefer, d_code = ErrCodePaymentDeferred,
        d_reason = ''large payment delivered after settlement confirmations''\<rparr> else approve), st)"
  using assms
  by (simp add: mandate_limits_def account_payment_def defer_or_approve_def less_stage_def Let_def split: option.split)

text \<open>
  The deferral is at the payer's discretion: the amount that decides whether a payment in
  flight still waits is read from the retried payload, whose signature is not checked, so the
  retry the policy would hold back is delivered at once when it states a smaller amount.
\<close>

theorem deferral_evaded:
  assumes "ge_policy E (gw_world s) = Some (Chain [AlwaysVerify, MandatePolicy mp])"
    and "mp_defer_above mp = Some d" and "0 < d"
    and "inflight_get (fst (payload_nonce (ge_geth E) p)) s = Some df"
    and "stage_of E (df_submitted_block df) s = Inr StageSubmitted"
    and "entitled (ge_geth E) (now E s) mp (resume_context E p reqs df StageSubmitted s) (gw_store s) m"
    and "set_string10 (aj_value (ep_authorization (pp_payload p))) = Some a" and "d \<le> a"
    and "\<not> exceeds a (m_max_amount_per_payment m)"
    and "set_string10 v = Some a'" and "a' < d" and "\<not> exceeds a' (m_max_amount_per_payment m)"
  shows "(\<exists>f. verify_and_settle E (Decoded p) reqs s = (Inl f, s) \<and> fl_code f = ErrCodePaymentDeferred) \<and>
    verify_and_settle E (Decoded (restate v p)) reqs s =
      deliver E (df_record df) (inflight_remove (fst (payload_nonce (ge_geth E) p)) s)"
proof -
  let ?n = "fst (payload_nonce (ge_geth E) p)"
  have dec: "gateway_decide E pc s = (fst (mandate_limits (ge_geth E) (now E s) mp pc m (gw_store s)), s)"
    if ent: "entitled (ge_geth E) (now E s) mp pc (gw_store s) m" and st: "pc_stage pc = StageSubmitted"
      and am: "payment_amount pc = Some x" "\<not> exceeds x (m_max_amount_per_payment m)"
      and v: "pc_verification pc = Some w" "vr_is_valid w" for pc x w
    using resumed_limits [OF am st assms(2,3), of "ge_geth E" "now E s" "gw_store s"]
      mandate_decide_entitled [OF ent] v
    by (simp add: gateway_decide_def gateway_policy_def assms(1) always_verify_decide_def)
  let ?pc = "resume_context E p reqs df StageSubmitted s"
  let ?pc' = "resume_context E (restate v p) reqs df StageSubmitted s"
  have ctx: "pc_stage ?pc = StageSubmitted" "pc_stage ?pc' = StageSubmitted"
    "payment_amount ?pc = Some a" "payment_amount ?pc' = Some a'"
    "pp_mandate (pc_payload ?pc') = pp_mandate (pc_payload ?pc)"
    "pc_requirements ?pc' = pc_requirements ?pc" "pc_verification ?pc' = pc_verification ?pc"
    "\<exists>w. pc_verification ?pc = Some w \<and> vr_is_valid w"
    using assms(7,10) by (simp_all add: resume_context_def payment_amount_def)
  then obtain w where w: "pc_verification ?pc = Some w" "pc_verification ?pc' = Some w" "vr_is_valid w" by auto
  have ent': "entitled (ge_geth E) (now E s) mp ?pc' (gw_store s) m"
    using assms(6) entitled_restate [OF ctx(5-7)] by simp
  have d1: "gateway_decide E ?pc s = (\<lparr>d_action = ActionDefer, d_code = ErrCodePaymentDeferred,
      d_reason = ''large payment delivered after settlement confirmations''\<rparr>, s)"
    using dec [OF assms(6) ctx(1,3) assms(9) w(1,3)] resumed_limits [OF ctx(3) assms(9) ctx(1) assms(2,3)] assms(8)
    by simp
  have d2: "gateway_decide E ?pc' s = (approve, s)"
    using dec [OF ent' ctx(2,4) assms(12) w(2,3)] resumed_limits [OF ctx(4) assms(12) ctx(2) assms(2,3)] assms(11)
    by simp
  have "resume_deferred E p reqs ?n df s = (Inl (fail ErrCodePaymentDeferred
      ''large payment delivered after settlement confirmations''), s)"
    unfolding resume_deferred_def assms(5) resume_context_def [symmetric] by (simp add: d1 decision_code_def)
  moreover have "resume_deferred E (restate v p) reqs ?n df s = deliver E (df_record df) (inflight_remove ?n s)"
    unfolding resume_deferred_def assms(5) resume_context_def [symmetric] by (simp add: d2)
  ultimately show ?thesis
    using assms(4) by (simp add: verify_and_settle_def Let_def fail_def)
qed

section \<open>A deferral settles before the later policies decide\<close>

lemma chain_prefix:
  "d_action (fst (decide_chain G t ps pc st)) \<noteq> ActionApprove \<Longrightarrow>
    decide_chain G t (ps @ qs) pc st = decide_chain G t ps pc st"
proof (induction ps arbitrary: st)
  case (Cons p ps)
  then show ?case by (cases "decide G t p pc st") auto
qed simp

text \<open>
  A deferral overrides the rest of the chain: when the policies of a prefix of the chain
  defer, the payment is settled although the policy behind them rejects every payment.
\<close>

theorem deferral_skips_later_policies:
  assumes "\<And>w. ge_policy E w = Some (Chain (ps @ [q]))"
    and "\<And>pc t st. d_action (fst (decide (ge_geth E) t q pc st)) = ActionReject"
    and "inflight_get (fst (payload_nonce (ge_geth E) p)) s = None"
    and "check_resource_binding E p reqs = None" and "ge_verify E p reqs (gw_world s) = (Inr vr, w)"
    and "d_action (fst (decide_chain (ge_geth E) (ge_now E w) ps
           (fresh_context E p reqs vr (s\<lparr>gw_world := w\<rparr>)) (gw_store s))) = ActionDefer"
    and "disk_ok E" and "fst (ge_settle E p reqs w) = Inr (Some sr)" and "sresp_success sr"
    and "parse_exact_payload (ge_geth E) (pp_payload p) = Inr (a, sig)"
  shows "\<exists>f s' r. verify_and_settle E (Decoded p) reqs s = (Inl f, s') \<and> fl_code f = ErrCodePaymentDeferred \<and>
    gw_settlements s' = gw_settlements s @ [r] \<and> st_payer r = au_from a \<and> st_amount r = Some (au_value a)"
proof -
  let ?s = "s\<lparr>gw_world := w\<rparr>"
  let ?pc = "fresh_context E p reqs vr ?s"
  have "d_action (fst (gateway_decide E ?pc ?s)) = ActionDefer"
    using assms(6) chain_prefix [where ps = ps and qs = "[q]" and G = "ge_geth E" and t = "ge_now E w" and pc = ?pc
        and st = "gw_store s"]
    by (simp add: fst_gateway_decide gateway_policy_def assms(1) now_def)
  then have v: "verify_and_settle E (Decoded p) reqs s =
      begin_deferred E p reqs ?pc (fst (payload_nonce (ge_geth E) p)) (decided E ?pc ?s)"
    by (cases "gateway_decide E ?pc ?s")
      (simp add: verify_and_settle_def assms(3-5) fresh_context_def [symmetric] decided_def Let_def)
  obtain r s' where st: "settle E p reqs ?pc (decided E ?pc ?s) = (Inr r, s')"
    using settle_ok [OF assms(7) _ assms(9,10)] assms(8) by fastforce
  show ?thesis
  proof (cases rule: settle_cases [of E p reqs ?pc "decided E ?pc ?s"])
    case (settled r' s'' sr' w' s1 s2)
    with st v assms(10) show ?thesis
      by (auto simp: begin_deferred_def settled_record_def fail_def)
  qed (use st in simp)
qed

section \<open>Two retries at once\<close>

text \<open>
  The in-flight entry is read and removed in two critical sections: two requests may both
  have read it. Each then runs \<open>resumeDeferred\<close> with the entry it read.
\<close>

text \<open>
  A deferred payment can be delivered twice, against the comment on \<open>resumeDeferred\<close>: two
  retries that both read the entry before either removed it both deliver.
\<close>

theorem concurrent_retries_deliver_twice:
  assumes "ge_deliverer E = Some dl" and "\<And>w. \<exists>tx. fst (dl (st_payer (df_record df)) w) = Inr tx"
    and "\<And>w. stage_of E (df_submitted_block df) (s\<lparr>gw_world := w\<rparr>) = Inr StageConfirmed"
    and "\<And>w. ge_policy E w = None"
    and "inflight_get n s = Some df" and "resume_deferred E p reqs n df s = (out, s1)"
  shows "\<exists>r r' s2. out = Inr r \<and> inflight_get n s1 = None \<and> resume_deferred E p reqs n df s1 = (Inr r', s2) \<and>
    fst (dl (st_payer (df_record df)) (gw_world s)) = Inr (st_delivery_tx r) \<and>
    fst (dl (st_payer (df_record df)) (gw_world s1)) = Inr (st_delivery_tx r')"
proof -
  have stage: "stage_of E (df_submitted_block df) t = Inr StageConfirmed" for t :: "'a gateway"
    using assms(3) [of "gw_world t"] by (simp add: stage_of_def)
  have dec: "gateway_decide E (resume_context E p reqs df StageConfirmed t) t = (approve, t)" for t :: "'a gateway"
    by (simp add: gateway_decide_def gateway_policy_def assms(4) always_verify_decide_def resume_context_def)
  have res: "resume_deferred E p reqs n df t = deliver E (df_record df) (inflight_remove n t)" for t :: "'a gateway"
    unfolding resume_deferred_def stage resume_context_def [symmetric] by (simp add: dec)
  have del: "\<exists>r t'. deliver E (df_record df) t = (Inr r, t') \<and> gw_inflight t' = gw_inflight t \<and>
      fst (dl (st_payer (df_record df)) (gw_world t)) = Inr (st_delivery_tx r)" for t :: "'a gateway"
    using assms(2) [of "gw_world t"] by (auto simp: deliver_def assms(1) split: prod.splits)
  show ?thesis
    using del [of "inflight_remove n s"] del [of "inflight_remove n s1"] assms(6)
    by (auto simp: res inflight_get_def) (simp add: inflight_remove_def)
qed

section \<open>Witnesses\<close>

definition deferring_policy :: mandate_policy where
  "deferring_policy = sample_policy\<lparr>mp_defer_above := Some 50\<rparr>"

definition deferring_env :: "nat gateway_env" where
  "deferring_env = sample_env (Chain [AlwaysVerify, MandatePolicy deferring_policy])"

definition sample_deferred :: "nat \<Rightarrow> deferred_settlement" where
  "sample_deferred block = \<lparr>df_record = \<lparr>st_payer = 2, st_amount = Some 60, st_tx_hash = 77, st_time = 0,
     st_delivery_tx = 0\<rparr>, df_submitted_block = block\<rparr>"

text \<open>The payment of nonce 5 is in flight since the block; the head is at 10, the depth is 2.\<close>

definition inflight_gateway :: "nat \<Rightarrow> nat gateway" where
  "inflight_gateway block = inflight_put 5 (sample_deferred block) (sample_gateway None)"

lemma inflight_gateway_sel [simp]:
  "inflight_get 5 (inflight_gateway b) = Some (sample_deferred b)" "gw_world (inflight_gateway b) = 10"
  "gw_store (inflight_gateway b) = fresh_store" "gw_settlements (inflight_gateway b) = []"
  by (simp_all add: inflight_gateway_def inflight_get_def) (simp add: inflight_put_def)

lemma sample_payload_nonce [simp]: "payload_nonce sample_geth (sample_payload a) = (5, True)"
  by (simp add: payload_nonce_def sample_payload_def)

lemma deferring_env_sel [simp]:
  "ge_geth deferring_env = sample_geth" "ge_scorer deferring_env = None" "ge_confirm_depth deferring_env = 2"
  "ge_policy deferring_env w = Some (Chain [AlwaysVerify, MandatePolicy deferring_policy])"
  "ge_head deferring_env w = Inr w" "ge_deliverer deferring_env = None" "ge_now deferring_env w = 1000"
  by (simp_all add: deferring_env_def)

lemma deferring_policy_sel [simp]: "mp_defer_above deferring_policy = Some 50" "mp_ref deferring_policy = Some 0"
  by (simp_all add: deferring_policy_def)

lemma deferring_enforces: "enforces deferring_env deferring_policy"
proof -
  have "ge_policy deferring_env w = Some (Chain ([AlwaysVerify] @ MandatePolicy deferring_policy # []))" for w by simp
  moreover have "\<forall>q\<in>set [AlwaysVerify]. checks_only q" by simp
  ultimately show ?thesis unfolding enforces_def by (metis deferring_policy_sel(2) option.distinct(1))
qed

lemma deferring_stage:
  "stage_of deferring_env (df_submitted_block (sample_deferred b)) (inflight_gateway b) =
     (if 10 < b then Inl (''settlement block '' @ show_nat b @ '' rolled back below head '' @ show_nat 10)
      else if 2 \<le> 10 - b then Inr StageConfirmed else Inr StageSubmitted)"
  unfolding stage_of_def by (simp add: sample_deferred_def del: show_nat.simps)

lemma deferring_entitled:
  "entitled sample_geth 1000 deferring_policy
     (resume_context deferring_env (sample_payload a) sample_requirements (sample_deferred b) st s) fresh_store sample_mandate"
proof -
  have "entitled sample_geth 1000 sample_policy
      (resume_context deferring_env (sample_payload a) sample_requirements (sample_deferred b) st s) fresh_store sample_mandate"
    using sample_entitled [of a]
    by (subst entitled_restate [where pc = "sample_context a"])
      (simp_all add: resume_context_def sample_deferred_def, simp add: sample_context_def)
  moreover have eq: "mp_chain_id deferring_policy = mp_chain_id sample_policy" "mp_ref deferring_policy = mp_ref sample_policy"
    by (simp_all add: deferring_policy_def)
  ultimately show ?thesis unfolding entitled_def signed_mandate_in_def revoked_in_def eq by blast
qed

lemma sample_caps [simp]:
  "\<not> exceeds 60 (m_max_amount_per_payment sample_mandate)" "\<not> exceeds 40 (m_max_amount_per_payment sample_mandate)"
  "set_string10 ''40'' = Some 40"
  by (simp_all add: exceeds_def sample_mandate_def) code_simp

theorem resume_ignores_signature_witness:
  "verify_and_settle deferring_env (Decoded (sample_payload ''60'' \<lparr>pp_network := ''elsewhere'',
       pp_payload := (pp_payload (sample_payload ''60''))\<lparr>ep_signature := ''0x00''\<rparr>\<rparr>))
     sample_requirements (inflight_gateway 3)
   = verify_and_settle deferring_env (Decoded (sample_payload ''60'')) sample_requirements (inflight_gateway 3)"
  by (rule resume_ignores_signature) (simp_all add: forged_def)

theorem deferral_evaded_witness:
  "\<exists>f. verify_and_settle deferring_env (Decoded (sample_payload ''60'')) sample_requirements (inflight_gateway 9)
       = (Inl f, inflight_gateway 9) \<and>
     fst (verify_and_settle deferring_env (Decoded (restate ''40'' (sample_payload ''60''))) sample_requirements
       (inflight_gateway 9)) = Inr (df_record (sample_deferred 9))"
proof -
  have am: "set_string10 (aj_value (ep_authorization (pp_payload (sample_payload ''60'')))) = Some 60"
    by (simp add: sample_payload_def)
  have "ge_policy deferring_env (gw_world (inflight_gateway 9)) = Some (Chain [AlwaysVerify, MandatePolicy deferring_policy])"
    by simp
  from deferral_evaded [OF this deferring_policy_sel(1), of "sample_payload ''60''" "sample_deferred 9"
      sample_requirements sample_mandate 60 "''40''" 40] show ?thesis
    using deferring_stage [of 9] am deferring_entitled by (auto simp: now_def deliver_def)
qed

theorem deferred_delivery_witness:
  "\<exists>r s'. verify_and_settle deferring_env (Decoded (sample_payload ''60'')) sample_requirements (inflight_gateway 3) = (Inr r, s') \<and>
     inflight_get 5 s' = None"
proof -
  let ?p = "sample_payload ''60''" and ?s = "inflight_gateway 3"
  let ?pc = "resume_context deferring_env ?p sample_requirements (sample_deferred 3) StageConfirmed ?s"
  have am: "set_string10 (aj_value (ep_authorization (pp_payload ?p))) = Some 60"
    by (simp add: sample_payload_def)
  have "payment_amount ?pc = Some 60" "pc_stage ?pc = StageConfirmed"
    using am by (simp_all add: payment_amount_def resume_context_def)
  then have "fst (mandate_limits sample_geth 1000 deferring_policy ?pc sample_mandate fresh_store) = approve"
    by (simp add: mandate_limits_def account_payment_def defer_or_approve_def less_stage_def Let_def)
  then have lim: "fst (mandate_decide sample_geth 1000 deferring_policy ?pc fresh_store) = approve"
    unfolding mandate_decide_entitled [OF deferring_entitled] .
  obtain w where "pc_verification ?pc = Some w" "vr_is_valid w"
    by (simp add: resume_context_def)
  with lim have "d_action (fst (gateway_decide deferring_env ?pc ?s)) = ActionApprove"
    by (cases "mandate_decide sample_geth 1000 deferring_policy ?pc fresh_store")
      (simp add: fst_gateway_decide gateway_policy_def always_verify_decide_def now_def)
  moreover obtain d s1 where d: "gateway_decide deferring_env ?pc ?s = (d, s1)"
    by (cases "gateway_decide deferring_env ?pc ?s")
  moreover have st: "stage_of deferring_env (df_submitted_block (sample_deferred 3)) ?s = Inr StageConfirmed"
    by (simp add: deferring_stage)
  ultimately have "resume_deferred deferring_env ?p sample_requirements 5 (sample_deferred 3) ?s =
      (Inr (df_record (sample_deferred 3)), inflight_remove 5 s1)"
    unfolding resume_deferred_def st resume_context_def [symmetric] by (simp add: d deliver_def)
  then obtain r s' where v: "verify_and_settle deferring_env (Decoded ?p) sample_requirements ?s = (Inr r, s')"
    by (simp add: verify_and_settle_def)
  from deferred_delivery_at_depth [OF deferring_enforces deferring_policy_sel(1) _ _ v, of "sample_deferred 3"] v show ?thesis
    by auto
qed

definition default_table :: "string \<Rightarrow> decision_table" where
  "default_table d = \<lparr>dt_rules = [], dt_def = d\<rparr>"

theorem deferral_skips_witness:
  "\<exists>f s' r. verify_and_settle
       (sample_env (Chain ([AlwaysVerify, TablePolicy (default_table ''defer'')] @ [TablePolicy (default_table ''reject'')])))
       (Decoded pay_payload) pay_requirements (sample_gateway None) = (Inl f, s') \<and>
     gw_settlements s' = [r] \<and> st_payer r = 2 \<and> st_amount r = Some 60"
proof -
  let ?ps = "[AlwaysVerify, TablePolicy (default_table ''defer'')]" and ?q = "TablePolicy (default_table ''reject'')"
  let ?E = "sample_env (Chain (?ps @ [?q]))"
  have bind: "check_resource_binding ?E pay_payload pay_requirements = None"
    by (simp add: check_resource_binding_def) (simp add: pay_payload_def)
  have def: "table_decide (default_table d) pc = accept_decision d" for d pc
    by (simp add: table_decide_def table_match_def default_table_def)
  have "\<exists>f s' r. verify_and_settle ?E (Decoded pay_payload) pay_requirements (sample_gateway None) = (Inl f, s') \<and>
      fl_code f = ErrCodePaymentDeferred \<and> gw_settlements s' = gw_settlements (sample_gateway None) @ [r] \<and>
      st_payer r = au_from pay_auth \<and> st_amount r = Some (au_value pay_auth)"
    by (rule deferral_skips_later_policies [where ps = ?ps and q = ?q and w = 10 and sr = sample_response
          and sig = pay_signature and vr = "Some \<lparr>vr_is_valid = True, vr_invalid_reason = '''',
            vr_payer = address_hex sample_geth 2\<rparr>"])
      (use bind in \<open>simp_all add: def accept_decision_def inflight_get_def always_verify_decide_def fresh_context_def\<close>)
  then show ?thesis by (simp add: pay_auth_def) blast
qed

definition delivering_env :: "nat gateway_env" where
  "delivering_env = (sample_env AlwaysVerify)\<lparr>ge_policy := (\<lambda>_. None),
     ge_deliverer := Some (\<lambda>_ w. (Inr (of_nat w), Suc w)), ge_head := (\<lambda>_. Inr 10)\<rparr>"

theorem concurrent_retries_witness:
  "\<exists>r s1 r' s2. resume_deferred delivering_env pay_payload pay_requirements 5 (sample_deferred 3) (inflight_gateway 3)
       = (Inr r, s1) \<and>
     resume_deferred delivering_env pay_payload pay_requirements 5 (sample_deferred 3) s1 = (Inr r', s2) \<and>
     st_delivery_tx r = 10"
proof -
  let ?dl = "\<lambda>(_ :: address) w. (Inr (of_nat w) :: bytes32 result, Suc w)"
  obtain out s1 where r: "resume_deferred delivering_env pay_payload pay_requirements 5 (sample_deferred 3)
      (inflight_gateway 3) = (out, s1)"
    by (cases "resume_deferred delivering_env pay_payload pay_requirements 5 (sample_deferred 3) (inflight_gateway 3)")
  have "ge_deliverer delivering_env = Some ?dl" "\<And>w. ge_policy delivering_env w = None"
    "\<And>w. stage_of delivering_env (df_submitted_block (sample_deferred 3)) (inflight_gateway 3\<lparr>gw_world := w\<rparr>)
      = Inr StageConfirmed"
    unfolding stage_of_def by (simp_all add: delivering_env_def sample_deferred_def sample_env_def)
  from concurrent_retries_deliver_twice [OF this(1) _ this(3) this(2) inflight_gateway_sel(1) r] show ?thesis
    using r by auto
qed

end
