(* ===== verification/SessionRuns.thy ===== *)
theory SessionRuns
  imports Deferred
begin

text \<open>
  Payment sessions over time: what the books of an open session hold after any run of
  requests, and what its settlement charges. The gateway draws the price once per served
  request from the budget the payer authorized; at settlement it takes the whole budget on
  chain and refunds what was not drawn.
\<close>

section \<open>Who touches the sessions\<close>

lemma refund_sessions [simp]: "gw_sessions (snd (refund E r e s)) = gw_sessions s"
  by (auto simp: refund_def journal_refund_def journal_refund_pending_def Let_def split: option.split prod.split sum.split)

lemma deliver_sessions [simp]: "gw_sessions (snd (deliver E r s)) = gw_sessions s"
  using refund_sessions [of E r _ "s\<lparr>gw_world := w\<rparr>" for w]
  by (auto simp: deliver_def split: option.split prod.split sum.split)

lemma settle_sessions [simp]: "gw_sessions (snd (settle E p reqs pc s)) = gw_sessions s"
proof -
  have app: "gw_sessions s2 = gw_sessions s'" if "append_entry E e s' = (x, s2)" for e s' x s2
    using append_entry_frame(5) [of E e s'] that by simp
  show ?thesis
    by (auto simp: settle_def Let_def dest!: app split: option.split prod.split sum.split)
qed

lemma begin_deferred_sessions [simp]: "gw_sessions (snd (begin_deferred E p reqs pc n s)) = gw_sessions s"
proof -
  have "gw_sessions s2 = gw_sessions s" if "settle E p reqs pc s = (x, s2)" for x s2
    using settle_sessions [of E p reqs pc s] that by simp
  then show ?thesis by (auto simp: begin_deferred_def Let_def split: prod.split sum.split)
qed

lemma decide_sessions: "gateway_decide E pc s = (d, s2) \<Longrightarrow> gw_sessions s2 = gw_sessions s"
  using gateway_decide_frame(5) [of E pc s] by simp

lemma resume_sessions [simp]: "gw_sessions (snd (resume_deferred E p reqs n df s)) = gw_sessions s"
  by (auto simp: resume_deferred_def Let_def dest!: decide_sessions split: prod.split sum.split)

lemma verify_and_settle_sessions [simp]: "gw_sessions (snd (verify_and_settle E header reqs s)) = gw_sessions s"
proof -
  have st: "gw_sessions s2 = gw_sessions s'" if "settle E p reqs pc s' = (x, s2)" for p pc s' x s2
    using settle_sessions [of E p reqs pc s'] that by simp
  show ?thesis
    by (auto simp: verify_and_settle_def Let_def dest!: decide_sessions st
        split: payment_header.split option.split prod.split sum.split)
qed

lemma issue_receipt_sessions [simp]: "gw_sessions (snd (issue_receipt E r reqs header key s)) = gw_sessions s"
  by (auto simp: issue_receipt_def Let_def split: option.split prod.split sum.split payment_header.split)

lemma revoke_sessions [simp]: "gw_sessions (snd (revoke_mandate E rj s)) = gw_sessions s"
  by (auto simp: revoke_mandate_def record_revocation_def Let_def split: option.split prod.split sum.split)

lemma refund_unused_sessions [simp]: "gw_sessions (refund_unused E sess r s) = gw_sessions s"
  by (auto simp: refund_unused_def journal_refund_def journal_refund_pending_def Let_def
      split: option.split prod.split sum.split)

lemma settle_session_sessions:
  assumes "settle_session E sess s = (out, sess', s')"
  shows "gw_sessions s' = gw_sessions s"
    and "sess' = (case out of Inl e \<Rightarrow> sess | Inr r \<Rightarrow> sess\<lparr>ps_settled := True\<rparr>)"
proof -
  have "gw_sessions s' = gw_sessions s \<and> sess' = (case out of Inl e \<Rightarrow> sess | Inr r \<Rightarrow> sess\<lparr>ps_settled := True\<rparr>)"
  proof (cases "ps_settled sess")
    case True
    then show ?thesis using assms by (auto simp: settle_session_def)
  next
    case False
    then show ?thesis
    proof (cases rule: settle_session_cases [of sess E s])
      case (settled r w sr s1 s2)
      have "gw_sessions s1 = gw_sessions s"
        using append_entry_frame(5) [of E "settlement_entry E r" "s\<lparr>gw_world := w\<rparr>"] settled(4) by simp
      then show ?thesis using settled(5,6) assms by auto
    qed (use assms in auto)
  qed
  then show "gw_sessions s' = gw_sessions s"
    "sess' = (case out of Inl e \<Rightarrow> sess | Inr r \<Rightarrow> sess\<lparr>ps_settled := True\<rparr>)" by auto
qed

section \<open>The books\<close>

text \<open>
  What the gateway relies on from its facilitator to open a session: a payment it calls valid
  authorizes at least the price the terms state.
\<close>

definition price_checked :: "'w gateway_env \<Rightarrow> bool" where
  "price_checked E \<longleftrightarrow> (\<forall>p resource w v w' a sig.
     ge_verify E p (requirements E resource) w = (Inr (Some v), w') \<longrightarrow> vr_is_valid v \<longrightarrow>
     parse_exact_payload (ge_geth E) (pp_payload p) = Inr (a, sig) \<longrightarrow> ge_price E \<le> au_value a)"

text \<open>
  The ghost counts the requests served under a session id since it was opened: a reply that
  carries the id counts, and one to a request with a payment opens the session.
\<close>

definition served_after :: "http_request \<Rightarrow> reply \<Rightarrow> (string \<Rightarrow> nat) \<Rightarrow> string \<Rightarrow> nat" where
  "served_after rq rep n =
     (case rep of Served _ (Some i) \<Rightarrow> n(i := if rq_payment rq = NoHeader then n i + 1 else 1) | _ \<Rightarrow> n)"

fun session_step ::
    "'w gateway_env \<Rightarrow> 'w gateway \<times> (string \<Rightarrow> nat) \<Rightarrow> 'w gateway_event \<Rightarrow> 'w gateway \<times> (string \<Rightarrow> nat)" where
  "session_step E (s, n) e =
     (gateway_step E s e,
      case e of Request rq \<Rightarrow> served_after rq (fst (middleware E rq s)) n | _ \<Rightarrow> n)"

text \<open>The books of one session: what it holds is what its payer signed, and what it drew is what it served.\<close>

definition session_books :: "'w gateway_env \<Rightarrow> nat \<Rightarrow> payment_session \<Rightarrow> bool" where
  "session_books E n sess \<longleftrightarrow>
     \<not> ps_settled sess \<and> 0 < n \<and> ps_spent sess = int n * ge_price E \<and> ps_spent sess \<le> ps_budget sess \<and>
     (\<exists>a sig. parse_exact_payload (ge_geth E) (pp_payload (ps_payload sess)) = Inr (a, sig) \<and>
        ps_payer sess = au_from a \<and> ps_budget sess = au_value a)"

definition books :: "'w gateway_env \<Rightarrow> 'w gateway \<times> (string \<Rightarrow> nat) \<Rightarrow> bool" where
  "books E sn \<longleftrightarrow> (\<forall>i sess. session_get i (fst sn) = Some sess \<longrightarrow> session_books E (snd sn i) sess)"

lemma session_get_same: "gw_sessions s' = gw_sessions s \<Longrightarrow> session_get i s' = session_get i s"
  by (simp add: session_get_def)

lemma session_get_put [simp]: "session_get j (session_put i x s) = (if j = i then Some x else session_get j s)"
  by (simp add: session_get_def session_put_def)

lemma session_get_remove [simp]: "session_get j (session_remove i s) = (if j = i then None else session_get j s)"
  by (simp add: session_get_def session_remove_def)

lemma session_get_count [simp]: "session_get j (count f s) = session_get j s"
  by (simp add: session_get_def)

text \<open>Opening: a refusal changes no session; a success opens one whose books are in order.\<close>

lemma open_session_cases:
  obtains (refused) rr where "fst (open_session E resource p s) = PaymentRequired rr"
      "gw_sessions (snd (open_session E resource p s)) = gw_sessions s"
  | (opened) i sess a sig vr w s3 where
      "open_session E resource p s = (Served None (Some i), count inc_session_opened (session_put i sess s3))"
      "gw_sessions s3 = gw_sessions s" "check_resource_binding E p (requirements E resource) = None"
      "ge_verify E p (requirements E resource) (gw_world s) = (Inr (Some vr), w)" "vr_is_valid vr"
      "parse_exact_payload (ge_geth E) (pp_payload p) = Inr (a, sig)"
      "ps_payload sess = p" "ps_reqs sess = requirements E resource" "ps_payer sess = au_from a" "ps_budget sess = au_value a"
      "ps_spent sess = ge_price E" "\<not> ps_settled sess" "ge_refunder E \<noteq> None"
      "d_action (fst (gateway_decide E (ps_pc sess) (s\<lparr>gw_world := w\<rparr>))) = ActionApprove"
      "ps_pc sess = fresh_context E p (requirements E resource) (Some vr) (s\<lparr>gw_world := w\<rparr>)"
proof -
  let ?reqs = "requirements E resource" and ?X = "open_session E resource p s"
  have id: "gw_sessions s3 = gw_sessions s2" if "new_session_id E s2 = (x, s3)" for x s2 s3
    using that by (auto simp: new_session_id_def split: prod.splits)
  have no: thesis if "?X = write_requirements E resource f s'" "gw_sessions s' = gw_sessions s" for f s'
    by (rule refused) (simp_all add: that)
  consider (early) f s' where "?X = write_requirements E resource f s'" "gw_sessions s' = gw_sessions s"
    | (verified) vr w a sig where "ge_refunder E \<noteq> None" "check_resource_binding E p ?reqs = None"
      "ge_verify E p ?reqs (gw_world s) = (Inr (Some vr), w)" "vr_is_valid vr"
      "parse_exact_payload (ge_geth E) (pp_payload p) = Inr (a, sig)"
  proof (cases "ge_refunder E = None")
    case True
    then show ?thesis using early by (simp add: open_session_def del: write_requirements_frame)
  next
    case rf: False
    show ?thesis
    proof (cases "check_resource_binding E p ?reqs")
      case (Some f)
      then show ?thesis using early [of f s] rf by (simp add: open_session_def)
    next
      case b: None
      obtain out w where v: "ge_verify E p ?reqs (gw_world s) = (out, w)"
        by (cases "ge_verify E p ?reqs (gw_world s)")
      note open_now = open_session_def rf b v Let_def
      show ?thesis
      proof (cases out)
        case (Inl e)
        then show ?thesis
          using early [of "fail ErrCodeVerificationError (''verification error: '' @ e)" "s\<lparr>gw_world := w\<rparr>"]
          by (simp add: open_now)
      next
        case (Inr vr)
        show ?thesis
        proof (cases "\<exists>v. vr = Some v \<and> vr_is_valid v")
          case False
          then have "\<exists>f. ?X = write_requirements E resource f (s\<lparr>gw_world := w\<rparr>)"
            using Inr by (cases vr) (auto simp: open_now)
          then show ?thesis using early [of _ "s\<lparr>gw_world := w\<rparr>"] by auto
        next
          case True
          then obtain v' where v': "vr = Some v'" "vr_is_valid v'" by blast
          show ?thesis
          proof (cases "parse_exact_payload (ge_geth E) (pp_payload p)")
            case (Inl e)
            then show ?thesis using early [of "fail ErrCodeInvalidHeader e" "s\<lparr>gw_world := w\<rparr>"] Inr v'
              by (simp add: open_now)
          next
            case (Inr asig)
            then show ?thesis using verified [of v' w "fst asig" "snd asig"] rf b v v' \<open>out = Inr vr\<close> by simp
          qed
        qed
      qed
    qed
  qed
  then show thesis
  proof cases
    case verified
    let ?pc = "fresh_context E p ?reqs (Some vr) (s\<lparr>gw_world := w\<rparr>)"
    obtain d s2 where d: "gateway_decide E ?pc (s\<lparr>gw_world := w\<rparr>) = (d, s2)"
      by (cases "gateway_decide E ?pc (s\<lparr>gw_world := w\<rparr>)")
    note open_now = open_session_def fresh_context_def [symmetric] Let_def verified d
    have s2: "gw_sessions s2 = gw_sessions s" using decide_sessions [OF d] by simp
    obtain x s3 where i: "new_session_id E s2 = (x, s3)" by (cases "new_session_id E s2")
    have s3: "gw_sessions s3 = gw_sessions s" using id [OF i] s2 by simp
    show thesis
    proof (cases "d_action d = ActionApprove")
      case False
      then have "?X = write_requirements E resource (refusal d ?pc (Some vr)) s2" by (simp add: open_now)
      then show thesis using s2 by (rule no)
    next
      case ap: True
      show thesis
      proof (cases x)
        case None
        then have "?X = write_requirements E resource
          (fail ErrCodeVerificationError ''could not open a session'') s3" by (simp add: open_now ap i)
        then show thesis using s3 by (rule no)
      next
        case (Some i')
        let ?sess = "\<lparr>ps_payload = p, ps_reqs = ?reqs, ps_pc = ?pc, ps_payer = au_from a,
            ps_budget = au_value a, ps_spent = ge_price E, ps_valid_before = i64 (au_valid_before a),
            ps_settled = False\<rparr>"
        have "?X = (Served None (Some i'), count inc_session_opened (session_put i' ?sess s3))"
          using Some by (simp add: open_now ap i)
        then show thesis by (rule opened [OF _ s3 verified(2-5)]) (simp_all add: verified(1) d ap)
      qed
    qed
  qed (rule no)
qed

text \<open>Drawing, settling and closing.\<close>

lemma handle_session_cases:
  obtains (refused) rr where "fst (handle_session E resource i c s) = PaymentRequired rr"
      "gw_sessions (snd (handle_session E resource i c s)) = gw_sessions s"
  | (ended) "\<And>x y. fst (handle_session E resource i c s) \<noteq> Served x y"
      "gw_sessions (snd (handle_session E resource i c s)) = (gw_sessions s)(i := None)"
  | (drawn) sess where "session_get i s = Some sess" "\<not> ps_settled sess" "c \<noteq> ''1''"
      "ps_spent sess + ge_price E \<le> ps_budget sess" "\<not> expiring_soon (now E s) sess"
      "handle_session E resource i c s =
        (Served None (Some i), session_put i (sess\<lparr>ps_spent := ps_spent sess + ge_price E\<rparr>) s)"
proof (cases "session_get i s")
  case None
  then show thesis using refused by (simp add: handle_session_def)
next
  case (Some sess)
  note get = this
  obtain out sess' s' where st: "settle_session E sess s = (out, sess', s')" by (metis surj_pair)
  note kept = settle_session_sessions [OF st]
  have rm: "gw_sessions (session_remove i s') = (gw_sessions s)(i := None)"
    by (simp add: session_remove_def kept)
  show thesis
  proof (cases "ps_settled sess")
    case True
    then show thesis using refused get by (simp add: handle_session_def)
  next
    case open_: False
    show thesis
    proof (cases "c = ''1''")
      case True
      then show thesis using ended open_ get st rm
        by (cases out) (auto simp: handle_session_def write_session_closed_def)
    next
      case c: False
      show thesis
      proof (cases "expiring_soon (now E s) sess \<or> ps_budget sess - ps_spent sess < ge_price E")
        case True
        show thesis
        proof (cases out)
          case (Inl e)
          then have "gw_sessions (session_put i sess' s') = gw_sessions s"
            using get kept by (simp add: session_put_def session_get_def map_upd_triv)
          then show thesis using refused open_ get st c True Inl by (simp add: handle_session_def)
        next
          case (Inr r)
          then show thesis using ended open_ get st c True rm by (simp add: handle_session_def)
        qed
      next
        case False
        then show thesis using drawn [OF get open_ c] open_ get c by (simp add: handle_session_def)
      qed
    qed
  qed
qed

lemma books_same:
  "books E (s, n) \<Longrightarrow> gw_sessions s' = gw_sessions s \<Longrightarrow> books E (s', n)"
  by (simp add: books_def session_get_def)

lemma books_handle:
  assumes "books E (s, n)" and "rq_payment rq = NoHeader"
  shows "books E (snd (handle_session E resource i c s), served_after rq (fst (handle_session E resource i c s)) n)"
proof (cases rule: handle_session_cases [of E resource i c s])
  case (refused rr)
  then show ?thesis using books_same [OF assms(1)] by (simp add: served_after_def)
next
  case ended
  then have "served_after rq (fst (handle_session E resource i c s)) n = n"
    by (auto simp: served_after_def split: reply.split)
  then show ?thesis using assms(1) ended(2) by (simp add: books_def session_get_def)
next
  case (drawn sess)
  then have "session_books E (n i) sess" using assms(1) by (simp add: books_def)
  then have "session_books E (n i + 1) (sess\<lparr>ps_spent := ps_spent sess + ge_price E\<rparr>)"
    using drawn(4) by (simp add: session_books_def algebra_simps)
  then show ?thesis using assms drawn(6) by (simp add: books_def served_after_def)
qed

lemma books_open:
  assumes "books E (s, n)" and "price_checked E" and "rq_payment rq \<noteq> NoHeader"
  shows "books E (snd (open_session E resource p s), served_after rq (fst (open_session E resource p s)) n)"
proof (cases rule: open_session_cases [of E resource p s])
  case (refused rr)
  then show ?thesis using books_same [OF assms(1)] by (simp add: served_after_def)
next
  case (opened i sess a sig vr w s3)
  have "ge_price E \<le> au_value a" using assms(2) opened(4-6) unfolding price_checked_def by blast
  then have "session_books E 1 sess" using opened by (simp add: session_books_def)
  moreover have "session_get j s3 = session_get j s" for j using opened(2) by (rule session_get_same)
  ultimately show ?thesis using assms(1,3) opened(1) by (simp add: books_def served_after_def)
qed

lemma books_middleware:
  assumes "books E (s, n)" and "price_checked E"
  shows "books E (snd (middleware E rq s), served_after rq (fst (middleware E rq s)) n)"
proof -
  let ?s = "count inc_request s" and ?res = "''http://'' @ rq_host rq @ rq_path rq"
  have s: "books E (?s, n)" using books_same [OF assms(1)] by simp
  consider (draw) "rq_payment rq = NoHeader"
      "middleware E rq s = handle_session E ?res (rq_session rq) (rq_session_close rq) ?s"
    | (open_) p where "rq_payment rq \<noteq> NoHeader" "middleware E rq s = open_session E ?res p ?s"
    | (other) "gw_sessions (snd (middleware E rq s)) = gw_sessions ?s" "\<nexists>x i. fst (middleware E rq s) = Served x (Some i)"
  proof (cases "ge_sessions_enabled E \<and> rq_session rq \<noteq> '''' \<and> rq_payment rq = NoHeader")
    case True
    then show ?thesis using draw by (simp add: middleware_def)
  next
    case no_session: False
    show ?thesis
    proof (cases "\<exists>p q. rq_payment rq = Decoded p \<and> pp_session p = Some q \<and> ge_sessions_enabled E \<and> sr_open q")
      case True
      then show ?thesis using open_ by (auto simp: middleware_def)
    next
      case False
      have pay: "gw_sessions s1 = gw_sessions ?s" if "verify_and_settle E h reqs ?s = (x, s1)" for h reqs x s1
        using verify_and_settle_sessions [of E h reqs ?s] that by simp
      have rec: "gw_sessions s2 = gw_sessions s1" if "issue_receipt E r reqs h k s1 = (x, s2)" for r reqs h k s1 x s2
        using issue_receipt_sessions [of E r reqs h k s1] that by simp
      show ?thesis
        by (rule other; use no_session False in
          \<open>auto simp: middleware_def Let_def dest!: pay rec split: payment_header.split option.split sum.split prod.split\<close>)
    qed
  qed
  then show ?thesis
  proof cases
    case draw
    then show ?thesis using books_handle [OF s] by simp
  next
    case open_
    then show ?thesis using books_open [OF s assms(2)] by simp
  next
    case other
    then have "served_after rq (fst (middleware E rq s)) n = n"
      by (auto simp: served_after_def split: reply.split option.split)
    then show ?thesis using books_same [OF s other(1)] by simp
  qed
qed

interpretation sessions: machine "session_step E" "\<lambda>_ _. price_checked E" "books E" for E
proof unfold_locales
  fix sn e
  assume b: "books E sn" and p: "price_checked E"
  obtain s n where sn: "sn = (s, n)" by (cases sn)
  show "books E (session_step E sn e)"
  proof (cases e)
    case (Request rq)
    then show ?thesis using books_middleware [of E s n rq] b p by (simp add: sn)
  next
    case (Revoke rj)
    then show ?thesis using books_same [of E s n] b by (simp add: sn)
  next
    case (Elapse f)
    then show ?thesis using books_same [of E s n] b by (simp add: sn)
  qed
qed

section \<open>What a session charges\<close>

lemma refund_world [simp]:
  "gw_world (journal_refund E x tx s) = gw_world s" "gw_world (journal_refund_pending E x s) = gw_world s"
  by (simp_all add: journal_refund_def journal_refund_pending_def)

text \<open>
  C9. A session charges what it served: after any run of requests, revocations and time from
  a gateway without sessions, with a facilitator that checks the price, settling an open
  session takes the whole authorized amount from its payer on chain and asks the refunder
  for exactly that amount less the price of each request served under the session's id; the
  requests served never cost more than was authorized.
\<close>

theorem session_charges_what_it_served:
  assumes "price_checked E" and "ge_refunder E = Some rf" and "gw_sessions s0 = Map.empty"
    and "(s, n) = run (session_step E) (s0, n0) events"
    and "session_get i s = Some sess" and "settle_session E sess s = (Inr r, sess', s')"
  shows "\<exists>a sig sr w. parse_exact_payload (ge_geth E) (pp_payload (ps_payload sess)) = Inr (a, sig) \<and>
    ge_settle E (ps_payload sess) (ps_reqs sess) (gw_world s) = (Inr (Some sr), w) \<and> sresp_success sr \<and>
    st_payer r = au_from a \<and> st_amount r = Some (au_value a) \<and>
    gw_settlements s' = gw_settlements s @ [r] \<and> 0 < n i \<and> int (n i) * ge_price E \<le> au_value a \<and>
    gw_world s' = (if int (n i) * ge_price E < au_value a
       then snd (rf (au_from a) (Some (au_value a - int (n i) * ge_price E)) w) else w)"
proof -
  have "books E (s0, n0)" using assms(3) by (simp add: books_def session_get_def)
  then have "books E (s, n)" unfolding assms(4) using assms(1)
    by (intro sessions.run_inv) (induction events arbitrary: s0 n0, simp_all)
  then have b: "session_books E (n i) sess" using assms(5) by (simp add: books_def)
  then obtain a sig where a: "parse_exact_payload (ge_geth E) (pp_payload (ps_payload sess)) = Inr (a, sig)"
    "ps_payer sess = au_from a" "ps_budget sess = au_value a" by (auto simp: session_books_def)
  have open_: "\<not> ps_settled sess" using b by (simp add: session_books_def)
  from open_ show ?thesis
  proof (cases rule: settle_session_cases [of sess E s])
    case (settled r' w sr s1 s2)
    have "gw_world s1 = w" "gw_settlements s1 = gw_settlements s"
      using append_entry_frame(1,3) [of E "settlement_entry E r'" "s\<lparr>gw_world := w\<rparr>"] settled(4) by simp_all
    moreover have "gw_settlements (refund_unused E sess r' s2) = gw_settlements s2"
      using refund_unused_quiet [of E s2 sess r'] by (simp add: quiet_def)
    ultimately show ?thesis
      using settled assms(2,6) a b
      by (auto simp: session_books_def refund_unused_def Let_def split: sum.split prod.split)
  qed (use assms(6) in simp)
qed

lemma settle_session_refused:
  assumes "settle_session E sess s = (Inl e, sess', s')"
  shows "gw_store s' = gw_store s \<and> gw_settlements s' = gw_settlements s \<and> gw_sessions s' = gw_sessions s \<and> sess' = sess"
proof -
  have app: "gw_store s2 = gw_store s1 \<and> gw_settlements s2 = gw_settlements s1 \<and> gw_sessions s2 = gw_sessions s1"
    if "append_entry E x s1 = (y, s2)" for x s1 y s2
    using append_entry_frame(2,3,5) [of E x s1] that by simp
  from assms show ?thesis
    by (auto simp: settle_session_def Let_def dest!: app split: if_splits prod.splits sum.splits option.splits)
qed

text \<open>
  Closing a session whose settlement fails forgets it: the session is removed although
  nothing was settled, so what it served is never paid, and the policies are not told, so a
  mandate's reservation stays. A session that ends for its budget or expiry is kept for
  another try.
\<close>

theorem failed_close_forgets_session:
  assumes "session_get i s = Some sess" and "\<not> ps_settled sess"
    and "settle_session E sess s = (Inl e, sess', s1)"
    and "expiring_soon (now E s) sess \<or> ps_budget sess - ps_spent sess < ge_price E" and "c \<noteq> ''1''"
  shows "(\<exists>rr s'. handle_session E resource i ''1'' s = (PaymentRequired rr, s') \<and>
      rqr_error_code rr = ErrCodeSettlementError \<and> session_get i s' = None \<and>
      gw_settlements s' = gw_settlements s \<and> gw_store s' = gw_store s) \<and>
    (\<exists>rr s'. handle_session E resource i c s = (PaymentRequired rr, s') \<and>
      rqr_error_code rr = ErrCodeSettlementError \<and> session_get i s' = Some sess)"
proof -
  note k = settle_session_refused [OF assms(3)]
  show ?thesis using assms k by (simp add: handle_session_def write_requirements_def fail_def)
qed

text \<open>
  When the refund of an unused remainder fails, the journal notes the whole budget as the
  amount still to refund, not the remainder.
\<close>

theorem pending_refund_names_budget:
  assumes "settle_session E sess s = (Inr r, sess', s')" and "\<not> ps_settled sess"
    and "ge_refunder E = Some rf" and "\<And>x w. \<exists>e. fst (rf (ps_payer sess) x w) = Inl e"
    and "ps_spent sess < ps_budget sess" and "disk_ok E" and "journal_ok s" and "gw_journal s \<noteq> None"
    and "\<not> journaled s (hash_hex (ge_geth E) (st_tx_hash r))"
    and "\<not> journaled s (hash_hex (ge_geth E) (st_tx_hash r) @ '':refund_pending'')"
  shows "\<exists>e. journal_entries s' = journal_entries s @ [settlement_entry E r, e] \<and>
    je_kind e = ''refund_pending'' \<and> je_payer e = address_hex (ge_geth E) (ps_payer sess) \<and>
    je_amount e = big_show (ps_budget sess)"
  using assms(2)
proof (cases rule: settle_session_cases [of sess E s])
  case (settled r' w sr s1 s2)
  have r: "r' = r" using settled(6) assms(1) by simp
  let ?s = "s\<lparr>gw_world := w\<rparr>" and ?e = "settlement_entry E r"
  have pre: "journal_ok ?s" "gw_journal ?s \<noteq> None" "\<not> journaled ?s (je_id ?e)" "journal_entries ?s = journal_entries s"
    using assms(7-9) by (simp_all add: journal_ok_def journaled_def journal_entries_def settlement_entry_def)
  have s1: "journal_entries s1 = journal_entries s @ [?e]" "journal_ok s1" "gw_journal s1 \<noteq> None"
    using append_entry_grows(1,4,5) [OF pre(1), of E ?e] settled(4) pre by (simp_all add: r)
  have s2: "gw_journal s2 = gw_journal s1" using settled(5) by simp
  obtain err w2 where rf: "rf (ps_payer sess) (Some (ps_budget sess - ps_spent sess)) (gw_world s2) = (Inl err, w2)"
    using assms(4) by (metis prod.collapse)
  let ?p = "blank_entry\<lparr>je_id := hash_hex (ge_geth E) (st_tx_hash r) @ '':refund_pending'',
     je_payer := address_hex (ge_geth E) (st_payer r), je_amount := amount_text (st_amount r),
     je_tx_hash := hash_hex (ge_geth E) (st_tx_hash r), je_network := ge_network E,
     je_at := unix_of (ge_now E w2), je_kind := ''refund_pending''\<rparr>"
  let ?t = "s2\<lparr>gw_world := w2\<rparr>"
  have t: "journal_ok ?t" "gw_journal ?t \<noteq> None" "journal_entries ?t = journal_entries s @ [?e]"
    using s1 s2 by (simp_all add: journal_ok_def journal_entries_def)
  have "\<not> journaled ?t (je_id ?p)"
    using assms(10) t(3) by (auto simp: journaled_def settlement_entry_def)
  then have "journal_entries (snd (append_entry E ?p ?t)) = journal_entries s @ [?e, ?p]"
    using append_entry_grows(4) [OF t(1) append_entry_ok [OF assms(6)] t(2)] t(3) by simp
  moreover have "s' = count inc_session_settled (snd (append_entry E ?p ?t))"
    using settled(6) assms(1,3,5) rf
    by (simp add: r refund_unused_def journal_refund_pending_def now_def Let_def)
  moreover have "journal_entries (count f x) = journal_entries x" for f and x :: "'a gateway"
    by (simp add: journal_entries_def)
  moreover have "st_payer r = ps_payer sess" "st_amount r = Some (ps_budget sess)"
    using settled(3) by (simp_all add: r)
  ultimately show ?thesis by (auto simp: amount_text_def)
qed (use assms(1) in simp)

section \<open>Witnesses\<close>

text \<open>A gateway whose price is 20 and whose facilitator accepts a payment of at least that.\<close>

definition session_env :: "nat gateway_env" where
  "session_env = (sample_env AlwaysVerify)\<lparr>ge_price := 20,
     ge_verify := (\<lambda>p _ w. (Inr (Some \<lparr>vr_is_valid =
         (case parse_exact_payload sample_geth (pp_payload p) of Inl _ \<Rightarrow> False | Inr (a, _) \<Rightarrow> 20 \<le> au_value a),
       vr_invalid_reason = '''', vr_payer = address_hex sample_geth 2\<rparr>), w))\<rparr>"

definition open_payload :: payment_payload where
  "open_payload = pay_payload\<lparr>pp_session := Some \<lparr>sr_open = True\<rparr>\<rparr>"

definition session_id :: string where
  "session_id = hex_encode (bytes32_bytes 5)"

definition open_request :: http_request where
  "open_request = \<lparr>rq_host = ''h'', rq_path = ''/doc'', rq_payment = Decoded open_payload,
     rq_session = '''', rq_session_close = ''''\<rparr>"

definition draw_request :: http_request where
  "draw_request = \<lparr>rq_host = ''h'', rq_path = ''/doc'', rq_payment = NoHeader,
     rq_session = session_id, rq_session_close = ''''\<rparr>"

lemma session_env_sel [simp]:
  "ge_geth session_env = sample_geth" "ge_price session_env = 20" "ge_policy session_env w = Some AlwaysVerify"
  "ge_refunder session_env = Some (\<lambda>_ _ w. (Inr 99, Suc w))" "ge_now session_env w = 1000"
  "ge_sessions_enabled session_env" "ge_random session_env w = (Some 5, w)" "ge_scorer session_env = None"
  "ge_settle session_env p r w = (Inr (Some sample_response), Suc w)" "ge_require_bound_nonce session_env = False"
  "disk_ok session_env"
  by (simp_all add: session_env_def sample_env_def disk_ok_def)

lemma session_env_checked: "price_checked session_env"
  by (auto simp: price_checked_def session_env_def)

lemma open_payload_sel [simp]:
  "pp_payload open_payload = pp_payload pay_payload" "pp_session open_payload = Some \<lparr>sr_open = True\<rparr>"
  "check_resource_binding session_env open_payload reqs = None"
  by (simp_all add: open_payload_def check_resource_binding_def) (simp add: pay_payload_def)

lemma session_env_verify:
  "ge_verify session_env open_payload reqs w =
     (Inr (Some \<lparr>vr_is_valid = True, vr_invalid_reason = '''', vr_payer = address_hex sample_geth 2\<rparr>), w)"
  by (simp add: session_env_def) (simp add: pay_auth_def)

lemma sample_opens:
  "\<exists>sess s1. middleware session_env open_request s = (Served None (Some session_id), s1) \<and>
     session_get session_id s1 = Some sess \<and> ps_payload sess = open_payload \<and> ps_payer sess = 2 \<and> \<not> ps_settled sess \<and>
     ps_budget sess = 60 \<and> ps_spent sess = 20 \<and> ps_valid_before sess = 2000 \<and> gw_journal s1 = gw_journal s"
proof -
  let ?s = "count inc_request s" and ?res = "''http://h/doc''"
  have mw: "middleware session_env open_request s = open_session session_env ?res open_payload ?s"
    by (simp add: middleware_def open_request_def)
  let ?v = "\<lparr>vr_is_valid = True, vr_invalid_reason = '''', vr_payer = address_hex sample_geth 2\<rparr>"
  obtain d s2 where d: "gateway_decide session_env (fresh_context session_env open_payload
      (requirements session_env ?res) (Some ?v) (?s\<lparr>gw_world := gw_world s\<rparr>)) (?s\<lparr>gw_world := gw_world s\<rparr>) = (d, s2)"
    by (rule prod.exhaust)
  then have ap: "d_action d = ActionApprove"
    by (auto simp: gateway_decide_def gateway_policy_def always_verify_decide_def fresh_context_def)
  have j: "gw_journal s2 = gw_journal s"
    using gateway_decide_frame(2) [of session_env "fresh_context session_env open_payload
      (requirements session_env ?res) (Some ?v) (?s\<lparr>gw_world := gw_world s\<rparr>)" "?s\<lparr>gw_world := gw_world s\<rparr>"] d by simp
  have i64: "i64 2000 = 2000" by code_simp
  show ?thesis
    unfolding mw open_session_def Let_def fresh_context_def [symmetric] session_env_verify count_frame
    using d ap j
    by (simp add: fresh_context_def [symmetric] session_env_verify new_session_id_def session_id_def i64)
      (simp add: pay_auth_def i64 session_put_def)
qed

lemma session_id_nonempty [simp]: "session_id \<noteq> ''''"
  by (simp add: session_id_def) code_simp

lemma not_expiring: "ps_valid_before sess = 2000 \<Longrightarrow> \<not> expiring_soon 1000 sess"
proof -
  have "i64 1940 = 1940" by code_simp
  then show "ps_valid_before sess = 2000 \<Longrightarrow> \<not> expiring_soon 1000 sess"
    by (simp add: expiring_soon_def session_margin_def whole_seconds_def unix_of_def ns_per_second_def)
qed

theorem session_charges_witness:
  "\<exists>s sess r s'. (s, (\<lambda>_. 0)(session_id := 2)) = run (session_step session_env) (sample_gateway None, \<lambda>_. 0)
       [Request open_request, Request draw_request] \<and>
     session_get session_id s = Some sess \<and> settle_session session_env sess s = (Inr r, sess\<lparr>ps_settled := True\<rparr>, s') \<and>
     st_payer r = 2 \<and> st_amount r = Some 60 \<and> gw_settlements s' = gw_settlements s @ [r]"
proof -
  obtain sess s1 where o: "middleware session_env open_request (sample_gateway None) = (Served None (Some session_id), s1)"
    "session_get session_id s1 = Some sess" "ps_payload sess = open_payload" "ps_payer sess = 2" "\<not> ps_settled sess"
    "ps_budget sess = 60" "ps_spent sess = 20" "ps_valid_before sess = 2000" "gw_journal s1 = None"
    using sample_opens [of "sample_gateway None"] by auto
  let ?sess = "sess\<lparr>ps_spent := 40\<rparr>" and ?s2 = "session_put session_id (sess\<lparr>ps_spent := 40\<rparr>) (count inc_request s1)"
  have d: "middleware session_env draw_request s1 = (Served None (Some session_id), ?s2)"
    using o(2,5-8) not_expiring [of sess]
    by (simp add: middleware_def draw_request_def handle_session_def now_def)
  have rn: "(?s2, (\<lambda>_. 0)(session_id := 2)) = run (session_step session_env) (sample_gateway None, \<lambda>_. 0)
      [Request open_request, Request draw_request]"
    by (simp add: o(1) d served_after_def) (simp add: open_request_def draw_request_def fun_eq_iff)
  have st: "\<exists>r s'. settle_session session_env ?sess ?s2 = (Inr r, ?sess\<lparr>ps_settled := True\<rparr>, s')"
    using o(5) o(9)
    by (simp add: settle_session_def append_entry_def Let_def)
  then obtain r s' where st: "settle_session session_env ?sess ?s2 = (Inr r, ?sess\<lparr>ps_settled := True\<rparr>, s')" by blast
  have "session_get session_id ?s2 = Some ?sess" by simp
  from session_charges_what_it_served [OF session_env_checked session_env_sel(4) _ rn this st] this rn st o(3)
  show ?thesis by (fastforce simp: pay_auth_def)
qed

text \<open>The same session at a gateway that cannot settle, or cannot refund.\<close>

definition sample_session :: "int \<Rightarrow> payment_session" where
  "sample_session spent = \<lparr>ps_payload = open_payload, ps_reqs = pay_requirements,
     ps_pc = fresh_context session_env open_payload pay_requirements None (sample_gateway None), ps_payer = 2,
     ps_budget = 60, ps_spent = spent, ps_valid_before = 2000, ps_settled = False\<rparr>"

definition refusing_env :: "nat gateway_env" where
  "refusing_env = session_env\<lparr>ge_settle := (\<lambda>_ _ w. (Inl ''rpc down'', Suc w))\<rparr>"

theorem failed_close_witness:
  "\<exists>rr s'. handle_session refusing_env ''/doc'' ''id'' ''1'' (session_put ''id'' (sample_session 60) (sample_gateway None))
       = (PaymentRequired rr, s') \<and>
     rqr_error_code rr = ErrCodeSettlementError \<and> session_get ''id'' s' = None"
proof -
  let ?s = "session_put ''id'' (sample_session 60) (sample_gateway None)"
  have price: "ge_price refusing_env = 20" by (simp add: refusing_env_def)
  have "settle_session refusing_env (sample_session 60) ?s =
      (Inl ''rpc down'', sample_session 60, ?s\<lparr>gw_world := 11\<rparr>)"
    by (simp add: settle_session_def sample_session_def refusing_env_def)
  moreover have "ps_budget (sample_session 60) - ps_spent (sample_session 60) < ge_price refusing_env"
    "\<not> ps_settled (sample_session 60)" "session_get ''id'' ?s = Some (sample_session 60)"
    by (simp_all add: price) (simp_all add: sample_session_def)
  ultimately show ?thesis
    using failed_close_forgets_session [of "''id''" ?s "sample_session 60" refusing_env _ _ _ "''''" "''/doc''"] by blast
qed

definition no_refund_env :: "nat gateway_env" where
  "no_refund_env = session_env\<lparr>ge_refunder := Some (\<lambda>_ _ w. (Inl ''no funds'', w))\<rparr>"

theorem pending_refund_witness:
  "\<exists>r s' e. settle_session no_refund_env (sample_session 20) (sample_gateway (Some new_journal))
       = (Inr r, sample_session 20\<lparr>ps_settled := True\<rparr>, s') \<and>
     journal_entries s' = [settlement_entry no_refund_env r, e] \<and> je_kind e = ''refund_pending'' \<and>
     je_amount e = big_show 60"
proof -
  let ?s = "sample_gateway (Some new_journal)"
  have sel: "ge_refunder no_refund_env = Some (\<lambda>_ _ w. (Inl ''no funds'', w))" "disk_ok no_refund_env"
    "ge_settle no_refund_env p q w = (Inr (Some sample_response), Suc w)" for p q w
    by (simp_all add: no_refund_env_def session_env_def sample_env_def disk_ok_def)
  have op: "\<not> ps_settled (sample_session 20)" "ps_spent (sample_session 20) = 20" "ps_budget (sample_session 20) = 60"
    by (simp_all add: sample_session_def)
  have ent: "journal_entries ?s = []"
    by (simp add: journal_entries_def new_journal_def entries_def empty_mem_def)
  have jok: "journal_ok ?s" by (simp add: journal_ok_def synced_wf)
  obtain r s' where st: "settle_session no_refund_env (sample_session 20) ?s = (Inr r, sample_session 20\<lparr>ps_settled := True\<rparr>, s')"
    using op(1)
  proof (cases rule: settle_session_cases [of "sample_session 20" no_refund_env ?s])
    case (refused e s'')
    have "fst (append_entry no_refund_env x t) = None" for x t using sel(2) by (rule append_entry_ok)
    then have False using refused(1) op(1)
      by (auto simp: settle_session_def sel(3) Let_def split: prod.splits option.splits) (metis fst_conv option.distinct(1))
    then show thesis ..
  qed blast
  from pending_refund_names_budget [OF st op(1) sel(1) _ _ sel(2) jok] st op ent show ?thesis
    by (auto simp: journaled_def)
qed

end
