(* ===== verification/Agent.thy ===== *)
theory Agent
  imports Session
begin

text \<open>
  The paying agent (\<open>x402/agent.go\<close>): it asks for a resource, reads the terms of the 402,
  lets its grant policy decide, signs an EIP-3009 authorization for them and retries; and it
  opens, draws on and closes payment sessions.

  The HTTP client, the random source and the clock are external: functions of a world. A
  response is what the agent reads of it: the status, the body with what its JSON decodes
  to, and the two x402 headers. The X-PAYMENT header is the payload it decodes to.
\<close>

section \<open>Requests and responses\<close>

text \<open>
  \<open>hr_terms\<close> and \<open>hr_discovery\<close> are the body as JSON of the two types the agent unmarshals,
  \<open>None\<close> when that fails; \<open>hr_body\<close> is \<open>Inl\<close> when reading it fails. The payment response
  header is \<open>None\<close> when it is absent or does not decode.
\<close>

record agent_request =
  ar_url :: string
  ar_payment :: "payment_payload option"
  ar_session :: string
  ar_session_close :: bool

record discovery_response =
  dsc_version :: int
  dsc_items :: "discovery_item list"

record http_response =
  hr_status :: int
  hr_body :: "string result"
  hr_terms :: "requirements_response option"
  hr_discovery :: "discovery_response option"
  hr_payment_response :: "settlement_response option"
  hr_session :: string

record 'w agent_env =
  an_geth :: geth
  an_http :: "agent_request \<Rightarrow> 'w \<Rightarrow> http_response result \<times> 'w"
  an_random :: "'w \<Rightarrow> bytes32 option \<times> 'w"
  an_now :: "'w \<Rightarrow> int"

section \<open>The agent\<close>

record agent =
  ag_wallet :: wallet
  ag_domain :: bytes32
  ag_max_amount :: "int option"
  ag_grant :: "grant_policy option"
  ag_mandate :: "signed_mandate_json option"
  ag_confirmation :: "confirmation_json option"
  ag_last_header :: "payment_payload option"
  ag_last_amount :: "int option"
  ag_last_resource :: string

record agent_result =
  rs_status :: int
  rs_body :: string
  rs_paid :: bool
  rs_amount :: "int option"
  rs_settlement :: "settlement_response option"
  rs_requirement :: "payment_requirements option"
  rs_error_code :: errcode
  rs_ask :: "ask_request option"
  rs_session :: string

definition registration_hint :: "agent_result \<Rightarrow> bool" where
  "registration_hint r \<longleftrightarrow> rs_error_code r = ErrCodeIdentityUnregistered"

definition agent_grant :: "agent \<Rightarrow> grant_policy" where
  "agent_grant a = (case ag_grant a of Some g \<Rightarrow> g | None \<Rightarrow> MaxAmountGrant (ag_max_amount a))"

definition read_body :: "http_response \<Rightarrow> string result" where
  "read_body r = (case hr_body r of Inl e \<Rightarrow> Inl (''x402 agent: read body: '' @ e) | Inr b \<Rightarrow> Inr b)"

section \<open>Nonces\<close>

definition new_nonce :: "'w agent_env \<Rightarrow> 'w \<Rightarrow> bytes32 result \<times> 'w" where
  "new_nonce A w = (case an_random A w of (None, w1) \<Rightarrow> (Inl ''wallet: nonce'', w1) | (Some n, w1) \<Rightarrow> (Inr n, w1))"

definition agent_payment_nonce :: "'w agent_env \<Rightarrow> agent \<Rightarrow> 'w \<Rightarrow> bytes32 result \<times> 'w" where
  "agent_payment_nonce A ag w =
     (case ag_confirmation ag of
        Some c \<Rightarrow> (let b = from_hex (an_geth A) (cj_authorization_nonce c) in
          if length b \<noteq> 32 then (Inl ''x402 agent: confirmation nonce is not 32 bytes'', w)
          else (Inr (bytes32_of b), w))
      | None \<Rightarrow> new_nonce A w)"

text \<open>The nonce and the seed's hex, empty when a confirmation fixes the nonce.\<close>

definition agent_bound_nonce ::
    "'w agent_env \<Rightarrow> agent \<Rightarrow> string \<Rightarrow> 'w \<Rightarrow> (bytes32 \<times> string) result \<times> 'w" where
  "agent_bound_nonce A ag resource w =
     (if ag_confirmation ag \<noteq> None then
        (case agent_payment_nonce A ag w of (Inl e, w1) \<Rightarrow> (Inl e, w1) | (Inr n, w1) \<Rightarrow> (Inr (n, ''''), w1))
      else (case new_nonce A w of
          (Inl e, w1) \<Rightarrow> (Inl e, w1)
        | (Inr seed, w1) \<Rightarrow>
            (Inr (bound_nonce (an_geth A) seed resource, ''0x'' @ hex_encode (bytes32_bytes seed)), w1)))"

section \<open>Building a payment\<close>

text \<open>The wire form both builders encode.\<close>

definition auth_payload ::
    "geth \<Rightarrow> string \<Rightarrow> authorization \<Rightarrow> byte list \<Rightarrow> string \<Rightarrow> signed_mandate_json option \<Rightarrow>
     confirmation_json option \<Rightarrow> session_request option \<Rightarrow> payment_payload" where
  "auth_payload G network a sig seed mandate confirmation sess = \<lparr>
     pp_version = x402_version, pp_scheme = scheme_exact, pp_network = network,
     pp_payload = \<lparr>ep_signature = ''0x'' @ hex_encode sig,
       ep_authorization = \<lparr>aj_from = address_hex G (au_from a), aj_to = address_hex G (au_to a),
         aj_value = big_show (au_value a), aj_valid_after = big_show (au_valid_after a),
         aj_valid_before = big_show (au_valid_before a), aj_nonce = ''0x'' @ hex_encode (bytes32_bytes (au_nonce a))\<rparr>,
       ep_nonce_seed = seed\<rparr>,
     pp_mandate = mandate, pp_confirmation = confirmation, pp_session = sess\<rparr>"

text \<open>\<open>int\<close> and \<open>int64\<close> are 64 bits wide; the sum of the expiry wraps at that width.\<close>

definition build_payment ::
    "'w agent_env \<Rightarrow> agent \<Rightarrow> payment_requirements \<Rightarrow> int \<Rightarrow> 'w \<Rightarrow> payment_payload result \<times> 'w" where
  "build_payment A ag req amount w =
     (let G = an_geth A in
      case agent_bound_nonce A ag (pr_resource req) w of
        (Inl e, w1) \<Rightarrow> (Inl e, w1)
      | (Inr (nonce, seed_hex), w1) \<Rightarrow>
         (let timeout = (if pr_max_timeout_seconds req \<le> 0 then 60 else pr_max_timeout_seconds req);
              (to, use_receive) = (case map_of (pr_extra req) ''dvp'' of
                Some d \<Rightarrow> if is_hex_address G d then (hex_to_address G d, True)
                          else (hex_to_address G (pr_pay_to req), False)
              | None \<Rightarrow> (hex_to_address G (pr_pay_to req), False));
              a = \<lparr>au_from = w_address (ag_wallet ag), au_to = to, au_value = amount, au_valid_after = 0,
                   au_valid_before = i64 (unix_of (an_now A w1) + timeout), au_nonce = nonce\<rparr> in
          (case (if use_receive then sign_receive_authorization G (ag_wallet ag) (ag_domain ag) a
                 else sign_authorization G (ag_wallet ag) (ag_domain ag) a) of
             Inl e \<Rightarrow> (Inl e, w1)
           | Inr sig \<Rightarrow> (Inr (auth_payload G (pr_network req) a sig seed_hex (ag_mandate ag) (ag_confirmation ag) None), w1))))"

definition session_validity_seconds :: int where
  "session_validity_seconds = 3600"

definition build_session_open ::
    "'w agent_env \<Rightarrow> agent \<Rightarrow> payment_requirements \<Rightarrow> int \<Rightarrow> 'w \<Rightarrow> payment_payload result \<times> 'w" where
  "build_session_open A ag req budget w =
     (let G = an_geth A in
      case new_nonce A w of
        (Inl e, w1) \<Rightarrow> (Inl e, w1)
      | (Inr seed, w1) \<Rightarrow>
         (let a = \<lparr>au_from = w_address (ag_wallet ag), au_to = hex_to_address G (pr_pay_to req), au_value = budget,
                   au_valid_after = 0, au_valid_before = i64 (unix_of (an_now A w1) + session_validity_seconds),
                   au_nonce = bound_nonce G seed (pr_resource req)\<rparr> in
          (case sign_authorization G (ag_wallet ag) (ag_domain ag) a of
             Inl e \<Rightarrow> (Inl e, w1)
           | Inr sig \<Rightarrow> (Inr (auth_payload G (pr_network req) a sig (''0x'' @ hex_encode (bytes32_bytes seed))
                                (ag_mandate ag) None (Some \<lparr>sr_open = True\<rparr>)), w1))))"

section \<open>Sending\<close>

definition build_result ::
    "http_response \<Rightarrow> int option \<Rightarrow> payment_requirements option \<Rightarrow> agent_result result" where
  "build_result r amount req =
     (case read_body r of
        Inl e \<Rightarrow> Inl e
      | Inr body \<Rightarrow>
         (let refused = (if hr_status r = 402 then hr_terms r else None) in
          Inr \<lparr>rs_status = hr_status r, rs_body = body, rs_paid = (hr_status r < 400), rs_amount = amount,
               rs_settlement = hr_payment_response r, rs_requirement = req,
               rs_error_code = (case refused of None \<Rightarrow> NoCode | Some t \<Rightarrow> rqr_error_code t),
               rs_ask = (case refused of None \<Rightarrow> None | Some t \<Rightarrow> rqr_ask t),
               rs_session = hr_session r\<rparr>))"

definition plain_get :: "string \<Rightarrow> agent_request" where
  "plain_get url = \<lparr>ar_url = url, ar_payment = None, ar_session = '''', ar_session_close = False\<rparr>"

definition paid_get :: "string \<Rightarrow> payment_payload \<Rightarrow> agent_request" where
  "paid_get url p = (plain_get url)\<lparr>ar_payment := Some p\<rparr>"

text \<open>\<open>http.NewRequest\<close> fails only for a URL that does not parse, which the client reports as well.\<close>

definition send_payment ::
    "'w agent_env \<Rightarrow> string \<Rightarrow> payment_payload \<Rightarrow> int option \<Rightarrow> payment_requirements option \<Rightarrow> 'w \<Rightarrow>
     agent_result result \<times> 'w" where
  "send_payment A url header amount req w =
     (case an_http A (paid_get url header) w of
        (Inl e, w1) \<Rightarrow> (Inl (''x402 agent: paid request: '' @ e), w1)
      | (Inr resp, w1) \<Rightarrow> (build_result resp amount req, w1))"

definition agent_get ::
    "'w agent_env \<Rightarrow> string \<Rightarrow> agent \<Rightarrow> 'w \<Rightarrow> agent_result result \<times> agent \<times> 'w" where
  "agent_get A url ag w =
     (case an_http A (plain_get url) w of
        (Inl e, w1) \<Rightarrow> (Inl (''x402 agent: request: '' @ e), ag, w1)
      | (Inr resp, w1) \<Rightarrow> (case read_body resp of
        Inl e \<Rightarrow> (Inl e, ag, w1)
      | Inr body \<Rightarrow>
          if hr_status resp \<noteq> 402 then
            (Inr \<lparr>rs_status = hr_status resp, rs_body = body, rs_paid = False, rs_amount = None, rs_settlement = None,
                  rs_requirement = None, rs_error_code = NoCode, rs_ask = None, rs_session = ''''\<rparr>, ag, w1)
          else (case hr_terms resp of
        None \<Rightarrow> (Inl ''x402 agent: parse requirements'', ag, w1)
      | Some terms \<Rightarrow> (case rqr_accepts terms of
        [] \<Rightarrow> (Inl ''x402 agent: no accepted payment methods'', ag, w1)
      | req # _ \<Rightarrow>
          if pr_scheme req \<noteq> scheme_exact then (Inl ''x402 agent: unsupported scheme'', ag, w1)
          else (case set_string10 (pr_max_amount_required req) of
        None \<Rightarrow> (Inl ''x402 agent: invalid amount'', ag, w1)
      | Some amount \<Rightarrow>
         (let gd = grant_decide (agent_grant ag)
            \<lparr>ptc_requirements = req, ptc_amount = Some amount, ptc_remaining_budget = None, ptc_asks = 0\<rparr> in
          if gd_action gd = GrantRefuse then (Inl (''x402 agent: '' @ gd_reason gd), ag, w1)
          else (case build_payment A ag req amount w1 of
        (Inl e, w2) \<Rightarrow> (Inl e, ag, w2)
      | (Inr header, w2) \<Rightarrow>
         (let ag' = ag\<lparr>ag_last_header := Some header, ag_last_amount := Some amount, ag_last_resource := url\<rparr>;
              (res, w3) = send_payment A url header (Some amount) (Some req) w2 in
          (res, ag', w3)))))))))"

definition agent_retry :: "'w agent_env \<Rightarrow> string \<Rightarrow> agent \<Rightarrow> 'w \<Rightarrow> agent_result result \<times> 'w" where
  "agent_retry A url ag w =
     (case ag_last_header ag of
        None \<Rightarrow> (Inl ''x402 agent: no prior payment to retry'', w)
      | Some header \<Rightarrow> send_payment A url header (ag_last_amount ag) None w)"

section \<open>Sessions and discovery\<close>

definition fetch_requirements :: "'w agent_env \<Rightarrow> string \<Rightarrow> 'w \<Rightarrow> payment_requirements result \<times> 'w" where
  "fetch_requirements A url w =
     (case an_http A (plain_get url) w of
        (Inl e, w1) \<Rightarrow> (Inl (''x402 agent: request: '' @ e), w1)
      | (Inr resp, w1) \<Rightarrow> (case read_body resp of
        Inl e \<Rightarrow> (Inl e, w1)
      | Inr body \<Rightarrow>
          if hr_status resp \<noteq> 402 then (Inl (''x402 agent: expected 402, got '' @ big_show (hr_status resp)), w1)
          else (case hr_terms resp of
        None \<Rightarrow> (Inl ''x402 agent: parse requirements'', w1)
      | Some terms \<Rightarrow> (case rqr_accepts terms of
        [] \<Rightarrow> (Inl ''x402 agent: no accepted payment methods'', w1)
      | req # _ \<Rightarrow> (Inr req, w1)))))"

definition agent_open_session ::
    "'w agent_env \<Rightarrow> string \<Rightarrow> int \<Rightarrow> agent \<Rightarrow> 'w \<Rightarrow> (string \<times> agent_result) result \<times> agent \<times> 'w" where
  "agent_open_session A url budget ag w =
     (case fetch_requirements A url w of
        (Inl e, w1) \<Rightarrow> (Inl e, ag, w1)
      | (Inr req, w1) \<Rightarrow> (case build_session_open A ag req budget w1 of
        (Inl e, w2) \<Rightarrow> (Inl e, ag, w2)
      | (Inr header, w2) \<Rightarrow>
         (let ag' = ag\<lparr>ag_last_header := Some header\<rparr> in
          case an_http A (paid_get url header) w2 of
            (Inl e, w3) \<Rightarrow> (Inl (''x402 agent: open session: '' @ e), ag', w3)
          | (Inr resp, w3) \<Rightarrow> (case build_result resp (Some budget) (Some req) of
              Inl e \<Rightarrow> (Inl e, ag', w3)
            | Inr res \<Rightarrow> (Inr (rs_session res, res), ag', w3)))))"

definition session_request_call ::
    "'w agent_env \<Rightarrow> string \<Rightarrow> string \<Rightarrow> bool \<Rightarrow> 'w \<Rightarrow> agent_result result \<times> 'w" where
  "session_request_call A url i close w =
     (case an_http A ((plain_get url)\<lparr>ar_session := i, ar_session_close := close\<rparr>) w of
        (Inl e, w1) \<Rightarrow> (Inl (''x402 agent: session request: '' @ e), w1)
      | (Inr resp, w1) \<Rightarrow> (build_result resp None None, w1))"

definition agent_session_get :: "'w agent_env \<Rightarrow> string \<Rightarrow> string \<Rightarrow> 'w \<Rightarrow> agent_result result \<times> 'w" where
  "agent_session_get A url i w = session_request_call A url i False w"

definition agent_close_session :: "'w agent_env \<Rightarrow> string \<Rightarrow> string \<Rightarrow> 'w \<Rightarrow> agent_result result \<times> 'w" where
  "agent_close_session A url i w = session_request_call A url i True w"

definition agent_discover :: "'w agent_env \<Rightarrow> string \<Rightarrow> 'w \<Rightarrow> discovery_response result \<times> 'w" where
  "agent_discover A url w =
     (case an_http A (plain_get url) w of
        (Inl e, w1) \<Rightarrow> (Inl (''x402 agent: discover: '' @ e), w1)
      | (Inr resp, w1) \<Rightarrow> (case read_body resp of
        Inl e \<Rightarrow> (Inl e, w1)
      | Inr body \<Rightarrow>
          if hr_status resp \<noteq> 200 then (Inl (''x402 agent: discovery returned HTTP '' @ big_show (hr_status resp)), w1)
          else (case hr_discovery resp of
        None \<Rightarrow> (Inl ''x402 agent: parse discovery'', w1)
      | Some d \<Rightarrow> (Inr d, w1))))"

section \<open>What a built payment says\<close>

text \<open>The authorization the agent signs for terms, an amount, a clock and a nonce.\<close>

definition agent_authorization ::
    "geth \<Rightarrow> agent \<Rightarrow> payment_requirements \<Rightarrow> int \<Rightarrow> int \<Rightarrow> bytes32 \<Rightarrow> authorization" where
  "agent_authorization G ag req amount t nonce = \<lparr>
     au_from = w_address (ag_wallet ag), au_to = fst (expected_recipient G req), au_value = amount, au_valid_after = 0,
     au_valid_before = i64 (unix_of t + (if pr_max_timeout_seconds req \<le> 0 then 60 else pr_max_timeout_seconds req)),
     au_nonce = nonce\<rparr>"

lemma build_payment_eq:
  assumes "agent_bound_nonce A ag (pr_resource req) w = (Inr (nonce, seed), w1)"
  shows "build_payment A ag req amount w =
    (case (if snd (expected_recipient (an_geth A) req)
      then sign_receive_authorization (an_geth A) (ag_wallet ag) (ag_domain ag)
        (agent_authorization (an_geth A) ag req amount (an_now A w1) nonce)
      else sign_authorization (an_geth A) (ag_wallet ag) (ag_domain ag)
        (agent_authorization (an_geth A) ag req amount (an_now A w1) nonce)) of
      Inl e \<Rightarrow> (Inl e, w1)
    | Inr sig \<Rightarrow> (Inr (auth_payload (an_geth A) (pr_network req)
        (agent_authorization (an_geth A) ag req amount (an_now A w1) nonce) sig seed (ag_mandate ag)
        (ag_confirmation ag) None), w1))"
  by (simp add: build_payment_def assms agent_authorization_def expected_recipient_def Let_def
      cong: sum.case_cong split: option.split)

text \<open>With a key that signs, building never fails once it has a nonce.\<close>

lemma build_payment_total:
  assumes "agent_bound_nonce A ag (pr_resource req) w = (Inr (nonce, seed), w1)"
    and "ag_wallet ag = wallet_from_key (an_geth A) k" and "\<And>h. crypto_sign (an_geth A) h k \<noteq> None"
  obtains p where "build_payment A ag req amount w = (Inr p, w1)"
proof -
  let ?a = "agent_authorization (an_geth A) ag req amount (an_now A w1) nonce"
  have "\<exists>sig. sign_struct (an_geth A) (ag_wallet ag) (ag_domain ag) ?a h = Inr sig" for h
    using assms(3) [of "digest (an_geth A) (ag_domain ag) h"]
    by (auto simp: sign_struct_def assms(2) wallet_from_key_def) (simp_all add: agent_authorization_def assms(2) wallet_from_key_def)
  then obtain sig where "(if snd (expected_recipient (an_geth A) req)
      then sign_receive_authorization (an_geth A) (ag_wallet ag) (ag_domain ag) ?a
      else sign_authorization (an_geth A) (ag_wallet ag) (ag_domain ag) ?a) = Inr sig"
    by (fastforce simp: sign_receive_authorization_def sign_authorization_def)
  then show thesis using that build_payment_eq [OF assms(1), of amount] by simp
qed

lemma build_payment_Inr:
  assumes "build_payment A ag req amount w = (Inr p, w')"
  obtains nonce seed sig where "agent_bound_nonce A ag (pr_resource req) w = (Inr (nonce, seed), w')"
    "(if snd (expected_recipient (an_geth A) req)
      then sign_receive_authorization (an_geth A) (ag_wallet ag) (ag_domain ag)
        (agent_authorization (an_geth A) ag req amount (an_now A w') nonce)
      else sign_authorization (an_geth A) (ag_wallet ag) (ag_domain ag)
        (agent_authorization (an_geth A) ag req amount (an_now A w') nonce)) = Inr sig"
    "p = auth_payload (an_geth A) (pr_network req) (agent_authorization (an_geth A) ag req amount (an_now A w') nonce)
      sig seed (ag_mandate ag) (ag_confirmation ag) None"
proof -
  obtain out w1 where n: "agent_bound_nonce A ag (pr_resource req) w = (out, w1)"
    by (cases "agent_bound_nonce A ag (pr_resource req) w")
  obtain nonce seed where out: "out = Inr (nonce, seed)"
    using assms n by (cases out) (auto simp: build_payment_def)
  from build_payment_eq [OF n [unfolded out], of amount]
  show thesis using that [of nonce seed] assms n out by (auto split: sum.splits if_splits)
qed

text \<open>The wire form reads back as the authorization and the signature it was made of.\<close>

lemma auth_payload_parses:
  assumes "geth_text G" and "0 \<le> au_value a" and "length sig = 65"
  shows "parse_exact_payload G (pp_payload (auth_payload G network a sig seed m c ss)) = Inr (a, sig)"
  using geth_textD(1,2) [OF assms(1)] assms(2,3)
  by (simp add: parse_exact_payload_def auth_payload_def decode_0x_def Let_def)

lemma auth_payload_sel [simp]:
  "pp_version (auth_payload G network a sig seed m c ss) = x402_version"
  "pp_scheme (auth_payload G network a sig seed m c ss) = scheme_exact"
  "pp_network (auth_payload G network a sig seed m c ss) = network"
  "pp_mandate (auth_payload G network a sig seed m c ss) = m"
  "pp_confirmation (auth_payload G network a sig seed m c ss) = c"
  "pp_session (auth_payload G network a sig seed m c ss) = ss"
  "ep_nonce_seed (pp_payload (auth_payload G network a sig seed m c ss)) = seed"
  by (simp_all add: auth_payload_def)

lemma sign_struct_Inr:
  assumes "geth_sig G" and "sign_struct G (wallet_from_key G k) domain a sh = Inr sig"
  shows "length sig = 65 \<and> (sig ! 64 = 27 \<or> sig ! 64 = 28) \<and> recover_struct G domain sh sig = Inr (au_from a)"
proof -
  from assms(2) obtain s0 where s0: "crypto_sign G (digest G domain sh) k = Some s0" "sig = bump_v s0"
    by (auto simp: sign_struct_def wallet_from_key_def split: if_splits option.splits)
  then show ?thesis
    using geth_sigD(1,2) [OF assms(1) s0(1)] sign_struct_recover [OF assms] by (auto simp: bump_v_def)
qed

lemma agent_signature:
  assumes "geth_sig G" and "ag_wallet ag = wallet_from_key G k"
    and "(if b then sign_receive_authorization G (ag_wallet ag) domain a
          else sign_authorization G (ag_wallet ag) domain a) = Inr sig"
  shows "length sig = 65" "sig ! 64 = 27 \<or> sig ! 64 = 28"
    "(if b then recover_receive_signer G domain a sig else recover_signer G domain a sig) = Inr (au_from a)"
  using sign_struct_Inr [OF assms(1), of k domain a _ sig] assms(2,3)
  by (auto simp: sign_receive_authorization_def sign_authorization_def recover_receive_signer_def recover_signer_def
      split: if_splits)

text \<open>What a call to Get did when it signed.\<close>

lemma agent_get_signed:
  assumes "agent_get A url ag w = (res, ag', w')" and "ag' \<noteq> ag"
  obtains resp w1 terms req rest amount p w2 where "an_http A (plain_get url) w = (Inr resp, w1)" "hr_status resp = 402"
    "hr_terms resp = Some terms" "rqr_accepts terms = req # rest" "pr_scheme req = scheme_exact"
    "set_string10 (pr_max_amount_required req) = Some amount"
    "gd_action (grant_decide (agent_grant ag) \<lparr>ptc_requirements = req, ptc_amount = Some amount,
       ptc_remaining_budget = None, ptc_asks = 0\<rparr>) \<noteq> GrantRefuse"
    "build_payment A ag req amount w1 = (Inr p, w2)"
    "ag' = ag\<lparr>ag_last_header := Some p, ag_last_amount := Some amount, ag_last_resource := url\<rparr>"
    "send_payment A url p (Some amount) (Some req) w2 = (res, w')"
proof -
  obtain out w1 where h: "an_http A (plain_get url) w = (out, w1)" by (cases "an_http A (plain_get url) w")
  obtain resp where out: "out = Inr resp" using assms h by (cases out) (auto simp: agent_get_def)
  obtain body where b: "read_body resp = Inr body"
    using assms h out by (cases "read_body resp") (auto simp: agent_get_def)
  have st: "hr_status resp = 402" using assms h out b by (auto simp: agent_get_def split: if_splits)
  obtain terms where t: "hr_terms resp = Some terms"
    using assms h out b st by (cases "hr_terms resp") (auto simp: agent_get_def)
  obtain req rest where r: "rqr_accepts terms = req # rest"
    using assms h out b st t by (cases "rqr_accepts terms") (auto simp: agent_get_def)
  note now_ = assms h out b st t r
  have sc: "pr_scheme req = scheme_exact" using now_ by (auto simp: agent_get_def split: if_splits)
  obtain amount where am: "set_string10 (pr_max_amount_required req) = Some amount"
    using now_ sc by (cases "set_string10 (pr_max_amount_required req)") (auto simp: agent_get_def)
  have gd: "gd_action (grant_decide (agent_grant ag) \<lparr>ptc_requirements = req, ptc_amount = Some amount,
      ptc_remaining_budget = None, ptc_asks = 0\<rparr>) \<noteq> GrantRefuse"
    using now_ sc am by (auto simp: agent_get_def Let_def split: if_splits)
  obtain x w2 where bp: "build_payment A ag req amount w1 = (x, w2)" by (cases "build_payment A ag req amount w1")
  obtain p where x: "x = Inr p" using now_ sc am gd bp by (cases x) (auto simp: agent_get_def Let_def)
  obtain res' w3 where sp: "send_payment A url p (Some amount) (Some req) w2 = (res', w3)"
    by (cases "send_payment A url p (Some amount) (Some req) w2")
  have "agent_get A url ag w =
      (res', ag\<lparr>ag_last_header := Some p, ag_last_amount := Some amount, ag_last_resource := url\<rparr>, w3)"
    using h out b st t r sc am gd bp x sp by (simp add: agent_get_def Let_def)
  with assms(1) have "ag' = ag\<lparr>ag_last_header := Some p, ag_last_amount := Some amount, ag_last_resource := url\<rparr>"
    "send_payment A url p (Some amount) (Some req) w2 = (res, w')"
    using sp by simp_all
  then show thesis using that [OF _ st t r sc am gd _ ] h out bp x by blast
qed

text \<open>
  C11. Get signs only what it was asked and granted: if a call to Get, whatever the server
  answers, leaves the agent with a new payment, then the server asked for it with a 402, its
  grant policy did not refuse the amount (without a policy of its own, the amount is at most
  MaxAmount), and the payment is the wallet's own signature over an authorization that pays
  the recipient of the terms exactly the amount of the terms; its nonce commits to the
  resource of the terms with the seed it sends, or, when the agent holds a confirmation, is
  the 32-byte nonce that the confirmation was given for, sent without a seed.
\<close>

theorem agent_signs_the_terms:
  assumes "agent_get A url ag w = (res, ag', w')" and "ag' \<noteq> ag"
    and "geth_sig (an_geth A)" and "ag_wallet ag = wallet_from_key (an_geth A) k"
  shows "\<exists>resp terms req rest amount a t nonce sig seed.
    fst (an_http A (plain_get url) w) = Inr resp \<and> hr_status resp = 402 \<and>
    hr_terms resp = Some terms \<and> rqr_accepts terms = req # rest \<and>
    set_string10 (pr_max_amount_required req) = Some amount \<and>
    gd_action (grant_decide (agent_grant ag) \<lparr>ptc_requirements = req, ptc_amount = Some amount,
       ptc_remaining_budget = None, ptc_asks = 0\<rparr>) \<noteq> GrantRefuse \<and>
    (\<forall>g. ag_grant ag = None \<and> ag_max_amount ag = Some g \<longrightarrow> amount \<le> g) \<and>
    a = agent_authorization (an_geth A) ag req amount t nonce \<and>
    au_to a = fst (expected_recipient (an_geth A) req) \<and> au_value a = amount \<and> au_nonce a = nonce \<and>
    ag_last_header ag' = Some (auth_payload (an_geth A) (pr_network req) a sig seed (ag_mandate ag) (ag_confirmation ag) None) \<and>
    (if snd (expected_recipient (an_geth A) req) then recover_receive_signer (an_geth A) (ag_domain ag) a sig
     else recover_signer (an_geth A) (ag_domain ag) a sig) = Inr (key_address (an_geth A) k) \<and>
    (case ag_confirmation ag of
       None \<Rightarrow> (\<exists>b. seed = ''0x'' @ hex_encode (bytes32_bytes b) \<and> nonce = bound_nonce (an_geth A) b (pr_resource req))
     | Some c \<Rightarrow> seed = '''' \<and> length (from_hex (an_geth A) (cj_authorization_nonce c)) = 32 \<and>
         nonce = bytes32_of (from_hex (an_geth A) (cj_authorization_nonce c)))"
  using assms(1,2)
proof (rule agent_get_signed)
  fix resp w1 terms req rest amount p w2
  assume http: "an_http A (plain_get url) w = (Inr resp, w1)" "hr_status resp = 402"
      "hr_terms resp = Some terms" "rqr_accepts terms = req # rest"
      "set_string10 (pr_max_amount_required req) = Some amount"
    and gd: "gd_action (grant_decide (agent_grant ag) \<lparr>ptc_requirements = req, ptc_amount = Some amount,
       ptc_remaining_budget = None, ptc_asks = 0\<rparr>) \<noteq> GrantRefuse"
    and bp: "build_payment A ag req amount w1 = (Inr p, w2)"
    and ag': "ag' = ag\<lparr>ag_last_header := Some p, ag_last_amount := Some amount, ag_last_resource := url\<rparr>"
  from bp show ?thesis
  proof (rule build_payment_Inr)
    fix nonce seed sig
    let ?a = "agent_authorization (an_geth A) ag req amount (an_now A w2) nonce"
    assume n: "agent_bound_nonce A ag (pr_resource req) w1 = (Inr (nonce, seed), w2)"
      and s: "(if snd (expected_recipient (an_geth A) req)
        then sign_receive_authorization (an_geth A) (ag_wallet ag) (ag_domain ag) ?a
        else sign_authorization (an_geth A) (ag_wallet ag) (ag_domain ag) ?a) = Inr sig"
      and p: "p = auth_payload (an_geth A) (pr_network req) ?a sig seed (ag_mandate ag) (ag_confirmation ag) None"
    have a: "au_from ?a = key_address (an_geth A) k" "au_to ?a = fst (expected_recipient (an_geth A) req)" "au_value ?a = amount"
        "au_nonce ?a = nonce"
      using assms(4) by (simp_all add: agent_authorization_def wallet_from_key_def)
    have "\<forall>g. ag_grant ag = None \<and> ag_max_amount ag = Some g \<longrightarrow> amount \<le> g"
      using gd by (auto simp: agent_grant_def split: if_splits)
    moreover have "case ag_confirmation ag of
       None \<Rightarrow> (\<exists>b. seed = ''0x'' @ hex_encode (bytes32_bytes b) \<and> nonce = bound_nonce (an_geth A) b (pr_resource req))
     | Some c \<Rightarrow> seed = '''' \<and> length (from_hex (an_geth A) (cj_authorization_nonce c)) = 32 \<and>
         nonce = bytes32_of (from_hex (an_geth A) (cj_authorization_nonce c))"
      using n by (auto simp: agent_bound_nonce_def agent_payment_nonce_def Let_def split: option.splits prod.splits sum.splits if_splits)
    moreover have "ag_last_header ag' = Some p" by (simp add: ag')
    moreover have "fst (an_http A (plain_get url) w) = Inr resp" by (simp add: http(1))
    moreover have "(if snd (expected_recipient (an_geth A) req) then recover_receive_signer (an_geth A) (ag_domain ag) ?a sig
        else recover_signer (an_geth A) (ag_domain ag) ?a sig) = Inr (key_address (an_geth A) k)"
      using agent_signature(3) [OF assms(3,4) s] a(1) by simp
    ultimately show ?thesis using http(2-5) gd p a by blast
  qed
qed

text \<open>
  What the agent signs, the facilitator accepts: a payment the agent built for terms
  that ask a non-negative amount is valid for a local facilitator, against a contract whose
  domain the agent signs for, where the payer has the balance, is not frozen and has not
  used the nonce, as long as more than five seconds of the terms' timeout are left.
\<close>

lemma built_payment_verifies:
  assumes "build_payment A ag req amount w = (Inr p, w')" and "an_geth A = G"
    and "geth_text G" and "geth_sig G" and "ag_wallet ag = wallet_from_key G k"
    and "set_string10 (pr_max_amount_required req) = Some amount" and "0 \<le> amount" and "is_hex_address G (pr_pay_to req)"
    and "fst (facilitator_domain api c f) = Inr (ag_domain ag)"
    and "timeout = (if pr_max_timeout_seconds req \<le> 0 then 60 else pr_max_timeout_seconds req)"
    and "0 < unix_of t" and "unix_of t + 5 < unix_of (an_now A w') + timeout"
    and "unix_of (an_now A w') + timeout < 2 ^ 63"
    and "agent_bound_nonce A ag (pr_resource req) w = (Inr (nonce, seed), w')"
    and "cc_authorization_state api c (key_address G k) nonce = Inr False"
    and "cc_balance_of api c (key_address G k) = Inr bal" and "amount \<le> bal"
    and "cc_frozen api c (key_address G k) = Inr False"
  shows "fst (facilitator_verify G api t c p req f) =
    Inr \<lparr>vr_is_valid = True, vr_invalid_reason = '''', vr_payer = address_hex G (key_address G k)\<rparr>"
  using assms(1)
proof (rule build_payment_Inr)
  fix nonce' seed' sig
  let ?a = "agent_authorization G ag req amount (an_now A w') nonce"
  assume n: "agent_bound_nonce A ag (pr_resource req) w = (Inr (nonce', seed'), w')"
  then have nn: "nonce' = nonce" using assms(14) by simp
  assume s: "(if snd (expected_recipient (an_geth A) req)
        then sign_receive_authorization (an_geth A) (ag_wallet ag) (ag_domain ag)
          (agent_authorization (an_geth A) ag req amount (an_now A w') nonce')
        else sign_authorization (an_geth A) (ag_wallet ag) (ag_domain ag)
          (agent_authorization (an_geth A) ag req amount (an_now A w') nonce')) = Inr sig"
    and p: "p = auth_payload (an_geth A) (pr_network req)
      (agent_authorization (an_geth A) ag req amount (an_now A w') nonce') sig seed' (ag_mandate ag) (ag_confirmation ag) None"
  note sg = agent_signature [OF assms(4,5) s [unfolded assms(2) nn]]
  have parse: "parse_exact_payload G (pp_payload p) = Inr (?a, sig)"
    using auth_payload_parses [OF assms(3) _ sg(1), of ?a] assms(7) by (simp add: p assms(2) nn agent_authorization_def)
  have vb: "au_valid_before ?a = unix_of (an_now A w') + timeout"
    using assms(10-13) by (simp add: agent_authorization_def i64_id)
  have fr: "au_from ?a = key_address G k" by (simp add: agent_authorization_def assms(5) wallet_from_key_def)
  have terms: "check_terms G t req ?a = None"
    using assms(6,8,11,12) vb by (simp add: check_terms_def) (simp add: agent_authorization_def)
  have chain: "check_chain G api c ?a =
      Inr \<lparr>vr_is_valid = True, vr_invalid_reason = '''', vr_payer = address_hex G (key_address G k)\<rparr>"
    using assms(15-18) fr by (simp add: check_chain_def) (simp add: agent_authorization_def)
  obtain f' where d: "facilitator_domain api c f = (Inr (ag_domain ag), f')"
    using assms(9) by (metis prod.collapse)
  have pre: "pp_version p = x402_version" "pp_scheme p = scheme_exact" "pp_network p = pr_network req"
    by (simp_all add: p)
  show ?thesis
    by (simp only: facilitator_verify_def pre parse terms d option.case sum.case prod.case sg(3) chain) simp
qed

end
