(* ===== verification/LocalGateway.thy ===== *)
theory LocalGateway
  imports SessionRuns Agent
begin

text \<open>
  The composed system: a gateway (\<open>x402/gateway.go\<close>) over its default facilitator
  (\<open>x402/facilitator_local.go\<close>) on the tKRW contract, and the agent (\<open>x402/agent.go\<close>) as its
  HTTP client. The world of the gateway is the chain, the facilitator's cache, the clock and
  the random source. A request that is served has moved the price on the contract; an
  agent's request for a resource is paid and served.
\<close>

section \<open>A gateway on the contract\<close>

record local_world =
  lw_chain :: chain
  lw_facilitator :: local_facilitator
  lw_now :: int
  lw_random :: "bytes32 list"

definition next_random :: "local_world \<Rightarrow> bytes32 option \<times> local_world" where
  "next_random w = (case lw_random w of [] \<Rightarrow> (None, w) | x # xs \<Rightarrow> (Some x, w\<lparr>lw_random := xs\<rparr>))"

text \<open>\<open>facilitator()\<close>: without a Facilitator, a LocalFacilitator over the gateway's own token.\<close>

definition gateway_facilitator :: "geth \<Rightarrow> ecrecover \<Rightarrow> local_world gateway_env \<Rightarrow> local_world gateway_env" where
  "gateway_facilitator G ec E = E\<lparr>
     ge_geth := G,
     ge_verify := (\<lambda>p reqs w.
       let (out, f) = facilitator_verify G (chain_api G ec) (lw_now w) (lw_chain w) p reqs (lw_facilitator w) in
       (map_sum id Some out, w\<lparr>lw_facilitator := f\<rparr>)),
     ge_settle := (\<lambda>p reqs w.
       let (out, c) = facilitator_settle G (chain_api G ec) (lw_facilitator w) p reqs (lw_chain w) in
       (map_sum id Some out, w\<lparr>lw_chain := c\<rparr>)),
     ge_now := lw_now,
     ge_random := next_random\<rparr>"

lemma gateway_facilitator_sel [simp]:
  "ge_geth (gateway_facilitator G ec E) = G" "ge_now (gateway_facilitator G ec E) = lw_now"
  "ge_random (gateway_facilitator G ec E) = next_random" "ge_price (gateway_facilitator G ec E) = ge_price E"
  "ge_policy (gateway_facilitator G ec E) = ge_policy E" "ge_deliverer (gateway_facilitator G ec E) = ge_deliverer E"
  "ge_pay_to (gateway_facilitator G ec E) = ge_pay_to E" "ge_dvp_address (gateway_facilitator G ec E) = ge_dvp_address E"
  "ge_timeout (gateway_facilitator G ec E) = ge_timeout E" "ge_network (gateway_facilitator G ec E) = ge_network E"
  "ge_scorer (gateway_facilitator G ec E) = ge_scorer E" "ge_disk (gateway_facilitator G ec E) = ge_disk E"
  "ge_receipt_key (gateway_facilitator G ec E) = ge_receipt_key E"
  "ge_sessions_enabled (gateway_facilitator G ec E) = ge_sessions_enabled E"
  "ge_require_bound_nonce (gateway_facilitator G ec E) = ge_require_bound_nonce E"
  by (simp_all add: gateway_facilitator_def)

lemma gateway_verify:
  assumes "ge_verify (gateway_facilitator G ec E) p reqs w = (Inr (Some v), w')"
  obtains "fst (facilitator_verify G (chain_api G ec) (lw_now w) (lw_chain w) p reqs (lw_facilitator w)) = Inr v"
    "w' = w\<lparr>lw_facilitator := snd (facilitator_verify G (chain_api G ec) (lw_now w) (lw_chain w) p reqs (lw_facilitator w))\<rparr>"
  using assms that
  by (cases "facilitator_verify G (chain_api G ec) (lw_now w) (lw_chain w) p reqs (lw_facilitator w)";
      cases "fst (facilitator_verify G (chain_api G ec) (lw_now w) (lw_chain w) p reqs (lw_facilitator w))")
    (auto simp: gateway_facilitator_def)

lemma gateway_verify_eq:
  assumes "facilitator_verify G (chain_api G ec) (lw_now w) (lw_chain w) p reqs (lw_facilitator w) = (out, f)"
  shows "ge_verify (gateway_facilitator G ec E) p reqs w = (map_sum id Some out, w\<lparr>lw_facilitator := f\<rparr>)"
  using assms by (simp add: gateway_facilitator_def)

text \<open>In direct mode the settlement is the rail of the local facilitator.\<close>

lemma direct_settle:
  "\<not> lf_dvp f \<Longrightarrow> facilitator_settle G (chain_api G ec) f p reqs c = local_settle G ec (lf_timeout f) (p, reqs) c"
  by (simp add: local_settle_def facilitator_settle_def facilitator_timeout_def cong: sum.case_cong)

lemma gateway_settle:
  assumes "\<not> lf_dvp (lw_facilitator w)"
  shows "ge_settle (gateway_facilitator G ec E) p reqs w =
    (map_sum id Some (fst (local_settle G ec (lf_timeout (lw_facilitator w)) (p, reqs) (lw_chain w))),
     w\<lparr>lw_chain := snd (local_settle G ec (lf_timeout (lw_facilitator w)) (p, reqs) (lw_chain w))\<rparr>)"
  using assms by (simp add: gateway_facilitator_def direct_settle split: prod.split)

lemma verify_keeps_dvp:
  "lf_dvp (snd (facilitator_verify G api t c p reqs f)) = lf_dvp f"
  "lf_timeout (snd (facilitator_verify G api t c p reqs f)) = lf_timeout f"
  by (auto simp: facilitator_verify_def facilitator_domain_def split: option.split sum.split prod.split)

text \<open>The contract's transfer, from its success.\<close>

lemma transfer_moves:
  assumes "transfer_with_authorization G ec time a v r s t = Inr t'"
  shows "tk_balance_of t' = credit (debit (tk_balance_of t) (au_from a) (nat (au_value a))) (au_to a) (nat (au_value a)) \<and>
    nat (au_value a) \<le> tk_balance_of t (au_from a)"
  using assms
  by (auto simp: transfer_with_authorization_def settle_authorization_def move_tokens_def emit_def Let_def split: if_splits)

section \<open>What a served payment moved\<close>

text \<open>The terms of a gateway without DvP: what the facilitator reads of them.\<close>

lemma direct_terms:
  assumes "geth_text (ge_geth E)" and "ge_dvp_address E = 0"
  shows "expected_recipient (ge_geth E) (requirements E resource) = (ge_pay_to E, False)"
    and "set_string10 (pr_max_amount_required (requirements E resource)) = Some (ge_price E)"
    and "is_hex_address (ge_geth E) (pr_pay_to (requirements E resource))"
  using geth_textD(1,2) [OF assms(1)] assms(2)
  by (simp_all add: requirements_def expected_recipient_def)

lemma local_price_checked: "price_checked (gateway_facilitator G ec E)"
  unfolding price_checked_def
proof (intro allI impI)
  fix p resource w v w' a sig
  let ?E = "gateway_facilitator G ec E"
  assume v: "ge_verify ?E p (requirements ?E resource) w = (Inr (Some v), w')" and ok: "vr_is_valid v"
    and a: "parse_exact_payload (ge_geth ?E) (pp_payload p) = Inr (a, sig)"
  from v have "fst (facilitator_verify G (chain_api G ec) (lw_now w) (lw_chain w) p (requirements ?E resource)
      (lw_facilitator w)) = Inr v"
    by (rule gateway_verify)
  from verified_facts [OF this ok] show "ge_price ?E \<le> au_value a"
    using a by (auto simp: requirements_def)
qed

text \<open>
  C4. Served means paid: when a gateway on the contract, in direct mode and with a policy
  that insists on the facilitator's verdict, answers a fresh payment with success, then on
  the contract the payer's unspent authorization was spent by this request, the payer's
  balance fell and the seller's rose by exactly the signed value, and that value is at least
  the price.
\<close>

theorem served_means_paid:
  assumes "E = gateway_facilitator G ec E0" and "geth_text G" and "ge_dvp_address E = 0" and "ge_deliverer E = None"
    and "\<not> lf_dvp (lw_facilitator (gw_world s))" and "\<And>w. AlwaysVerify \<in> set (members (gateway_policy E w))"
    and "inflight_get (fst (payload_nonce G p)) s = None" and "journal_ok s"
    and "verify_and_settle E (Decoded p) (requirements E resource) s = (Inr r, s')"
    and "before = cn_token (lw_chain (gw_world s))" and "after = cn_token (lw_chain (gw_world s'))"
  shows "\<exists>a sig. parse_exact_payload G (pp_payload p) = Inr (a, sig) \<and>
    st_payer r = au_from a \<and> st_amount r = Some (au_value a) \<and> ge_price E \<le> au_value a \<and> au_to a = ge_pay_to E \<and>
    \<not> tk_authorization_state before (au_from a) (au_nonce a) \<and> tk_authorization_state after (au_from a) (au_nonce a) \<and>
    nat (au_value a) \<le> tk_balance_of before (au_from a) \<and>
    tk_balance_of after = credit (debit (tk_balance_of before) (au_from a) (nat (au_value a))) (ge_pay_to E) (nat (au_value a))"
proof -
  let ?reqs = "requirements E resource"
  have g: "ge_geth E = G" by (simp add: assms(1))
  note terms = direct_terms [of E resource, unfolded g, OF assms(2,3)]
  have fresh: "inflight_get (fst (payload_nonce (ge_geth E) p)) s = None" using assms(7) g by simp
  show ?thesis
  proof (cases rule: verify_and_settle_cases [of E "Decoded p" ?reqs s])
    case (approved p' vr w pc s1 s2)
    have pp: "p' = p" using approved(1) by simp
    have "AlwaysVerify \<in> set (members (gateway_policy E s1))" using assms(6) .
    then have "leaf_holds (ge_geth E) (now E s1) pc (gw_store s1) AlwaysVerify"
      using approve_leaves(1) [OF approved(7) [unfolded fst_gateway_decide]] by blast
    then obtain v where v: "vr = Some v" "vr_is_valid v"
      by (auto simp: approved(6) fresh_context_def split: option.splits)
    from approved(4) v have "ge_verify (gateway_facilitator G ec E0) p ?reqs (gw_world s) = (Inr (Some v), w)"
      by (simp add: pp assms(1))
    then obtain ver: "fst (facilitator_verify G (chain_api G ec) (lw_now (gw_world s)) (lw_chain (gw_world s)) p ?reqs
        (lw_facilitator (gw_world s))) = Inr v"
      and w: "w = gw_world s\<lparr>lw_facilitator := snd (facilitator_verify G (chain_api G ec) (lw_now (gw_world s))
        (lw_chain (gw_world s)) p ?reqs (lw_facilitator (gw_world s)))\<rparr>"
      by (rule gateway_verify)
    from verified_facts [OF ver v(2)] obtain a sig where a: "parse_exact_payload G (pp_payload p) = Inr (a, sig)"
      "ge_price E \<le> au_value a" "au_to a = ge_pay_to E"
      using terms by auto
    obtain r0 s3 where st: "settle E p ?reqs pc s2 = (Inr r0, s3)" and dl: "deliver E r0 s3 = (Inr r, s')"
      using approved(9) assms(9) by (auto simp: pp split: prod.splits sum.splits)
    have r: "r0 = r" "s' = s3" using dl assms(4) by (simp_all add: deliver_def)
    have dvp: "\<not> lf_dvp (lw_facilitator w)" using assms(5) by (simp add: w verify_keeps_dvp)
    show ?thesis
    proof (cases rule: settle_cases [of E p ?reqs pc s2])
      case (settled r1 s4 sr w' s5 s6)
      have eq: "r1 = r" "s4 = s'" using settled(1) st r by simp_all
      let ?ls = "local_settle G ec (lf_timeout (lw_facilitator w)) (p, ?reqs) (lw_chain w)"
      have "ge_settle E p ?reqs w = (Inr (Some sr), w')" using settled(2) by (simp add: approved(5,8))
      then have ls: "fst ?ls = Inr sr" "w' = w\<lparr>lw_chain := snd ?ls\<rparr>"
        using gateway_settle [OF dvp, of G ec E0 p ?reqs] by (auto simp: assms(1) map_sum_def split: sum.splits)
      have ok: "sresp_success sr" using settled(3) by (simp add: settled_record_def)
      have af: "after = cn_token (snd ?ls)" using settled(11) by (simp add: assms(11) eq ls(2))
      from ls(1) ok show ?thesis
      proof (rule local_settle_success)
        fix a' s' v' r' q t
        assume "parse_exact_payload G (pp_payload (fst (p, ?reqs))) = Inr (a', s')"
          and tr: "transfer_with_authorization G ec (cn_time (lw_chain w)) a' v' r' q (cn_token (lw_chain w)) = Inr t"
          and t: "cn_token (snd ?ls) = t"
        then have "a' = a" using a(1) by simp
        moreover have "cn_token (lw_chain w) = before" by (simp add: w assms(10))
        ultimately show ?thesis
          using a settled(3) transfer_moves [OF tr] transfer_spends [OF tr] t af
          by (auto simp: settled_record_def eq g)
      qed
    qed (use st in simp)
  qed (use assms(9) fresh in \<open>auto simp: begin_deferred_def Let_def split: prod.splits sum.splits\<close>)
qed

section \<open>The agent at the gateway\<close>

text \<open>
  The gateway as the agent's HTTP peer: the URL gives host and path, the protected handler
  answers with a status, and \<open>body\<close> is the text of a reply's body.
\<close>

definition reply_response :: "int \<Rightarrow> (reply \<Rightarrow> string) \<Rightarrow> reply \<Rightarrow> http_response" where
  "reply_response status body rep =
     (case rep of
        PaymentRequired t \<Rightarrow> \<lparr>hr_status = 402, hr_body = Inr (body rep), hr_terms = Some t, hr_discovery = None,
          hr_payment_response = None, hr_session = ''''\<rparr>
      | Served resp sid \<Rightarrow> \<lparr>hr_status = status, hr_body = Inr (body rep), hr_terms = None, hr_discovery = None,
          hr_payment_response = resp, hr_session = (case sid of None \<Rightarrow> '''' | Some i \<Rightarrow> i)\<rparr>
      | SessionClosed resp \<Rightarrow> \<lparr>hr_status = 200, hr_body = Inr (body rep), hr_terms = None, hr_discovery = None,
          hr_payment_response = Some resp, hr_session = ''''\<rparr>)"

definition gateway_server ::
    "'w gateway_env \<Rightarrow> (string \<Rightarrow> string \<times> string) \<Rightarrow> int \<Rightarrow> (reply \<Rightarrow> string) \<Rightarrow> agent_request \<Rightarrow> 'w gateway \<Rightarrow>
     http_response result \<times> 'w gateway" where
  "gateway_server E route status body rq s =
     (let (rep, s') = middleware E \<lparr>rq_host = fst (route (ar_url rq)), rq_path = snd (route (ar_url rq)),
        rq_payment = (case ar_payment rq of None \<Rightarrow> NoHeader | Some p \<Rightarrow> Decoded p),
        rq_session = ar_session rq, rq_session_close = (if ar_session_close rq then ''1'' else '''')\<rparr> s in
      (Inr (reply_response status body rep), s'))"

definition gateway_client ::
    "'w gateway_env \<Rightarrow> (string \<Rightarrow> string \<times> string) \<Rightarrow> int \<Rightarrow> (reply \<Rightarrow> string) \<Rightarrow> 'w gateway agent_env" where
  "gateway_client E route status body = \<lparr>an_geth = ge_geth E, an_http = gateway_server E route status body,
     an_random = (\<lambda>s. let (x, w) = ge_random E (gw_world s) in (x, s\<lparr>gw_world := w\<rparr>)), an_now = now E\<rparr>"

lemma gateway_client_sel [simp]:
  "an_geth (gateway_client E route status body) = ge_geth E"
  "an_http (gateway_client E route status body) = gateway_server E route status body"
  "an_now (gateway_client E route status body) = now E"
  by (simp_all add: gateway_client_def)

text \<open>The default policy serves what verifies and settles.\<close>

lemma default_policy_serves:
  assumes "inflight_get (fst (payload_nonce (ge_geth E) p)) s = None" and "check_resource_binding E p reqs = None"
    and "ge_verify E p reqs (gw_world s) = (Inr (Some v), w)" and "vr_is_valid v" and "ge_policy E w = None"
    and "ge_settle E p reqs w = (Inr (Some sr), w')" and "sresp_success sr"
    and "parse_exact_payload (ge_geth E) (pp_payload p) = Inr (a, sig)" and "disk_ok E" and "ge_deliverer E = None"
  obtains r s' where "verify_and_settle E (Decoded p) reqs s = (Inr r, s')" "gw_world s' = w'"
    "gw_settlements s' = gw_settlements s @ [r]" "settled_record E p sr (ge_now E w') r"
proof -
  let ?s1 = "s\<lparr>gw_world := w\<rparr>"
  let ?pc = "fresh_context E p reqs (Some v) ?s1"
  obtain d s2 where d: "gateway_decide E ?pc ?s1 = (d, s2)" by (cases "gateway_decide E ?pc ?s1")
  have ap: "d_action d = ActionApprove"
    using d assms(4,5) by (auto simp: gateway_decide_def gateway_policy_def always_verify_decide_def fresh_context_def)
  have s2: "gw_world s2 = w" "gw_settlements s2 = gw_settlements s"
    using gateway_decide_frame(1,3) [of E ?pc ?s1] d by simp_all
  let ?s3 = "record_decision E ?pc d False s2"
  obtain r s' where st: "settle E p reqs ?pc ?s3 = (Inr r, s')"
    using settle_ok [OF assms(9) _ assms(7,8), of reqs ?s3 ?pc] assms(6) s2 by auto
  have v: "verify_and_settle E (Decoded p) reqs s = (Inr r, s')"
    using assms(1-3) d ap st
    by (simp add: verify_and_settle_def fresh_context_def Let_def deliver_def assms(10))
  show thesis
  proof (cases rule: settle_cases [of E p reqs ?pc ?s3])
    case (settled r1 s4 sr1 w1 s5 s6)
    then show thesis using that [OF v] st s2 assms(6) by simp
  qed (use st in simp)
qed

text \<open>The nonce of a built payment reads back, and is bound to the resource.\<close>

lemma auth_payload_nonce:
  assumes "geth_text G"
  shows "payload_nonce G (auth_payload G network a sig seed m c ss) = (au_nonce a, True)"
  using geth_textD(5) [OF assms, of "bytes32_bytes (au_nonce a)"] by (simp add: payload_nonce_def auth_payload_def)

lemma auth_payload_bound:
  assumes "geth_text (ge_geth E)" and "au_nonce a = bound_nonce (ge_geth E) seed (pr_resource reqs)"
  shows "check_resource_binding E (auth_payload (ge_geth E) network a sig (''0x'' @ hex_encode (bytes32_bytes seed)) m None ss)
    reqs = None"
  using auth_payload_nonce [OF assms(1)] assms(2)
  by (simp add: check_resource_binding_def hex_to_32_def)

text \<open>
  A gateway with the default policy, without DvP, delivery or receipts, whose timeout is
  long enough; and the chain, facilitator and clock on which a payer can pay a price now.
\<close>

definition direct_gateway :: "'w gateway_env \<Rightarrow> bool" where
  "direct_gateway E \<longleftrightarrow> ge_dvp_address E = 0 \<and> ge_deliverer E = None \<and> ge_receipt_key E = None \<and>
     (\<forall>w. ge_policy E w = None) \<and> disk_ok E \<and> 0 \<le> ge_price E \<and> 5 < whole_seconds (gateway_timeout E)"

definition ready_to_pay :: "address \<Rightarrow> bytes32 \<Rightarrow> int \<Rightarrow> address \<Rightarrow> local_world \<Rightarrow> bool" where
  "ready_to_pay payer nonce price to w \<longleftrightarrow>
     (let t = cn_token (lw_chain w) in
      token_open t to \<and> payer \<noteq> 0 \<and> \<not> tk_frozen t payer \<and> \<not> tk_authorization_state t payer nonce \<and>
      price \<le> int (tk_balance_of t payer) \<and> \<not> lf_dvp (lw_facilitator w) \<and>
      lf_domain (lw_facilitator w) \<in> {None, Some (Inr (tk_domain_separator t))} \<and>
      0 < unix_of (lw_now w) \<and> unix_of (lw_now w) \<le> cn_time (lw_chain w) \<and> cn_time (lw_chain w) \<le> unix_of (lw_now w) + 5)"

lemma balance_bound: "token_open t to \<Longrightarrow> int (tk_balance_of t a) < 2 ^ 256"
proof -
  assume "token_open t to"
  then have "tk_balance_of t a \<le> uint256_max"
    using balance_le_sum [of "tk_balance_of t" a] by (simp add: token_open_def token_ok_def sum_balances_def)
  then show ?thesis by (simp add: uint256_max_def)
qed

text \<open>The payment the agent builds for the gateway's terms, verified and settled.\<close>

lemma gateway_takes_payment:
  assumes E: "E = gateway_facilitator G ec E0" and G: "geth_text G" "geth_sig G" "ecrecover_law G ec"
    and gw: "direct_gateway E" and rd: "ready_to_pay (key_address G k) nonce (ge_price E) (ge_pay_to E) (gw_world s)"
    and wallet: "ag_wallet ag = wallet_from_key G k" "ag_confirmation ag = None"
      "ag_domain ag = tk_domain_separator (cn_token (lw_chain (gw_world s)))"
    and bp: "build_payment A ag (requirements E resource) (ge_price E) x = (Inr p, x')"
    and A: "an_geth A = G" "an_now A x' = lw_now (gw_world s)"
    and n: "agent_bound_nonce A ag resource x = (Inr (nonce, seed), x')"
    and fl: "inflight_get nonce s = None"
    and vb: "unix_of (lw_now (gw_world s)) + whole_seconds (gateway_timeout E) < 2 ^ 63"
  obtains r s' where "verify_and_settle E (Decoded p) (requirements E resource) s = (Inr r, s')"
    "gw_settlements s' = gw_settlements s @ [r]" "st_payer r = key_address G k" "st_amount r = Some (ge_price E)"
    "tk_balance_of (cn_token (lw_chain (gw_world s'))) =
      credit (debit (tk_balance_of (cn_token (lw_chain (gw_world s)))) (key_address G k) (nat (ge_price E)))
        (ge_pay_to E) (nat (ge_price E))"
    "pp_session p = None"
proof -
  let ?reqs = "requirements E resource" and ?w = "gw_world s"
  let ?c = "lw_chain ?w" and ?f = "lw_facilitator ?w" and ?t = "lw_now ?w"
  have g: "ge_geth E = G" by (simp add: E)
  note terms = direct_terms [of E resource, unfolded g, OF G(1)]
  have gw': "ge_dvp_address E = 0" "ge_deliverer E = None" "\<And>w. ge_policy E w = None" "disk_ok E" "0 \<le> ge_price E"
    "5 < whole_seconds (gateway_timeout E)" using gw by (simp_all add: direct_gateway_def)
  have rd': "token_open (cn_token ?c) (ge_pay_to E)" "key_address G k \<noteq> 0" "\<not> tk_frozen (cn_token ?c) (key_address G k)"
    "\<not> tk_authorization_state (cn_token ?c) (key_address G k) nonce"
    "ge_price E \<le> int (tk_balance_of (cn_token ?c) (key_address G k))" "\<not> lf_dvp ?f"
    "lf_domain ?f \<in> {None, Some (Inr (tk_domain_separator (cn_token ?c)))}"
    "0 < unix_of ?t" "unix_of ?t \<le> cn_time ?c" "cn_time ?c \<le> unix_of ?t + 5"
    using rd by (simp_all add: ready_to_pay_def Let_def)
  let ?a = "agent_authorization G ag ?reqs (ge_price E) ?t nonce"
  have tmo: "pr_max_timeout_seconds ?reqs = whole_seconds (gateway_timeout E)" by (simp add: requirements_def)
  have res: "pr_resource ?reqs = resource" by (simp add: requirements_def)
  from bp obtain sig where s: "length sig = 65" "sig ! 64 = 27 \<or> sig ! 64 = 28"
    and p: "p = auth_payload G (pr_network ?reqs) ?a sig seed (ag_mandate ag) None None"
  proof (rule build_payment_Inr)
    fix nonce' seed' sig
    assume "agent_bound_nonce A ag (pr_resource ?reqs) x = (Inr (nonce', seed'), x')"
      and s: "(if snd (expected_recipient (an_geth A) ?reqs)
        then sign_receive_authorization (an_geth A) (ag_wallet ag) (ag_domain ag)
          (agent_authorization (an_geth A) ag ?reqs (ge_price E) (an_now A x') nonce')
        else sign_authorization (an_geth A) (ag_wallet ag) (ag_domain ag)
          (agent_authorization (an_geth A) ag ?reqs (ge_price E) (an_now A x') nonce')) = Inr sig"
      and p: "p = auth_payload (an_geth A) (pr_network ?reqs)
        (agent_authorization (an_geth A) ag ?reqs (ge_price E) (an_now A x') nonce') sig seed' (ag_mandate ag)
        (ag_confirmation ag) None"
    then have "nonce' = nonce" "seed' = seed" using n by (simp_all add: res)
    then show thesis using that agent_signature(1,2) [OF G(2) wallet(1) s [unfolded A(1)]] p wallet(2) A by simp
  qed
  have parse: "parse_exact_payload G (pp_payload p) = Inr (?a, sig)"
    unfolding p by (rule auth_payload_parses [OF G(1) _ s(1)]) (simp add: agent_authorization_def gw'(5))
  have a: "au_from ?a = key_address G k" "au_to ?a = ge_pay_to E" "au_value ?a = ge_price E" "au_nonce ?a = nonce"
    "au_valid_after ?a = 0" "au_valid_before ?a = unix_of ?t + whole_seconds (gateway_timeout E)"
    using gw'(1,6) terms(1) rd'(8) vb
    by (simp_all add: agent_authorization_def wallet(1) wallet_from_key_def tmo i64_id)
  have rng: "auth_in_range ?a"
    using gw'(5,6) rd'(5,8) vb balance_bound [OF rd'(1), of "key_address G k"]
    by (simp add: auth_in_range_def u256_range_def a)
  let ?v = "\<lparr>vr_is_valid = True, vr_invalid_reason = '''', vr_payer = address_hex G (key_address G k)\<rparr>"
  have dom: "fst (facilitator_domain (chain_api G ec) ?c ?f) = Inr (ag_domain ag)"
    using rd'(7) wallet(3) by (auto simp: facilitator_domain_def chain_api_def)
  have ver: "fst (facilitator_verify G (chain_api G ec) ?t ?c p ?reqs ?f) = Inr ?v"
    by (rule built_payment_verifies [OF bp A(1) G(1,2) wallet(1) terms(2) gw'(5) terms(3) dom refl rd'(8)])
      (use gw' rd' n vb in \<open>simp_all add: A(2) tmo res chain_api_def\<close>)
  define f' where "f' = snd (facilitator_verify G (chain_api G ec) ?t ?c p ?reqs ?f)"
  have gv: "ge_verify E p ?reqs ?w = (Inr (Some ?v), ?w\<lparr>lw_facilitator := f'\<rparr>)"
    using gateway_verify_eq [of G ec ?w p ?reqs "Inr ?v" f' E0] ver by (simp add: E f'_def prod_eq_iff)
  have dvp: "\<not> lf_dvp f'" using rd'(6) by (simp add: f'_def verify_keeps_dvp)
  obtain sr c' where ls: "local_settle G ec (lf_timeout f') (p, ?reqs) ?c = (Inr sr, c')" "sresp_success sr"
    and bal: "tk_balance_of (cn_token c') = credit (debit (tk_balance_of (cn_token ?c)) (key_address G k)
      (nat (ge_price E))) (ge_pay_to E) (nat (ge_price E))"
    using verified_settles [OF G(3) ver _ parse s(2) _ rd'(7) _ _ rng rd'(9,10), of "lf_timeout f'"] rd'(1,2) terms(1) gw'(1)
    by (auto simp: a)
  have gs: "ge_settle E p ?reqs (?w\<lparr>lw_facilitator := f'\<rparr>) =
      (Inr (Some sr), ?w\<lparr>lw_facilitator := f', lw_chain := c'\<rparr>)"
    using gateway_settle [of "?w\<lparr>lw_facilitator := f'\<rparr>" G ec E0 p ?reqs] dvp ls(1) by (simp add: E)
  have nn: "fst (payload_nonce (ge_geth E) p) = nonce"
    using auth_payload_nonce [OF G(1)] by (simp add: p g a)
  have "check_resource_binding E p ?reqs = None"
  proof -
    from n wallet(2) obtain b where "seed = ''0x'' @ hex_encode (bytes32_bytes b)" "nonce = bound_nonce G b resource"
      by (auto simp: agent_bound_nonce_def A(1) split: prod.splits sum.splits)
    then show ?thesis
      using auth_payload_bound [of E ?a b ?reqs] G(1) a(4) res by (simp add: p g)
  qed
  then obtain r s' where vs: "verify_and_settle E (Decoded p) ?reqs s = (Inr r, s')"
    "gw_world s' = ?w\<lparr>lw_facilitator := f', lw_chain := c'\<rparr>" "gw_settlements s' = gw_settlements s @ [r]"
    "settled_record E p sr (ge_now E (gw_world s')) r"
    using default_policy_serves [OF _ _ gv _ gw'(3) gs ls(2) _ gw'(4,2)] fl nn parse g by (metis verify_result.select_convs(1))
  show thesis
    by (rule that [OF vs(1,3)]) (use vs(2,4) parse a g bal p in \<open>auto simp: settled_record_def\<close>)
qed

text \<open>
  C5. The whole exchange works: an agent whose wallet holds the price and whose grant does
  not refuse it asks a direct gateway on the contract for a resource; it reads the 402, signs,
  retries, and is served: its result is paid, with the settlement's transaction; on the
  contract exactly the price moved from its wallet to the seller; and the gateway has one
  more settlement, of the price, by this payer.
\<close>

theorem agent_pays_and_is_served:
  assumes E: "E = gateway_facilitator G ec E0" and G: "geth_text G" "geth_sig G" "ecrecover_law G ec"
    and signer: "\<And>h. crypto_sign G h k \<noteq> None"
    and gw: "direct_gateway E" and resource: "resource = ''http://'' @ fst (route url) @ snd (route url)"
    and random: "lw_random (gw_world s) = seed # rest"
    and rd: "ready_to_pay (key_address G k) (bound_nonce G seed resource) (ge_price E) (ge_pay_to E) (gw_world s)"
    and fl: "inflight_get (bound_nonce G seed resource) s = None"
    and wallet: "ag_wallet ag = wallet_from_key G k" "ag_confirmation ag = None"
      "ag_domain ag = tk_domain_separator (cn_token (lw_chain (gw_world s)))"
    and grant: "gd_action (grant_decide (agent_grant ag) \<lparr>ptc_requirements = requirements E resource,
       ptc_amount = Some (ge_price E), ptc_remaining_budget = None, ptc_asks = 0\<rparr>) \<noteq> GrantRefuse"
    and vb: "unix_of (lw_now (gw_world s)) + whole_seconds (gateway_timeout E) < 2 ^ 63" and status: "status < 400"
  shows "\<exists>res ag' s' r. agent_get (gateway_client E route status body) url ag s = (Inr res, ag', s') \<and>
    rs_status res = status \<and> rs_paid res \<and> rs_amount res = Some (ge_price E) \<and>
    rs_settlement res = Some (payment_response E r None) \<and>
    gw_settlements s' = gw_settlements s @ [r] \<and> st_payer r = key_address G k \<and> st_amount r = Some (ge_price E) \<and>
    tk_balance_of (cn_token (lw_chain (gw_world s'))) =
      credit (debit (tk_balance_of (cn_token (lw_chain (gw_world s)))) (key_address G k) (nat (ge_price E)))
        (ge_pay_to E) (nat (ge_price E))"
proof -
  let ?A = "gateway_client E route status body" and ?reqs = "requirements E resource"
  let ?nonce = "bound_nonce G seed resource" and ?seed = "''0x'' @ hex_encode (bytes32_bytes seed)"
  have g: "ge_geth E = G" by (simp add: E)
  define s1 where "s1 = count (inc_refusal (errcode_string ErrCodePaymentRequired)) (count inc_request s)"
  obtain terms where unpaid: "an_http ?A (plain_get url) s = (Inr \<lparr>hr_status = 402,
      hr_body = Inr (body (PaymentRequired terms)), hr_terms = Some terms, hr_discovery = None,
      hr_payment_response = None, hr_session = ''''\<rparr>, s1)"
    and accepts: "rqr_accepts terms = [?reqs]"
    by (simp add: gateway_server_def plain_get_def middleware_def write_requirements_def reply_response_def s1_def
        resource fail_def)
  define s2 where "s2 = s1\<lparr>gw_world := (gw_world s)\<lparr>lw_random := rest\<rparr>\<rparr>"
  have s2: "gw_settlements s2 = gw_settlements s" "gw_inflight s2 = gw_inflight s"
    "gw_world s2 = (gw_world s)\<lparr>lw_random := rest\<rparr>" by (simp_all add: s2_def s1_def)
  have nonce: "agent_bound_nonce ?A ag resource s1 = (Inr (?nonce, ?seed), s2)"
    using random by (simp add: agent_bound_nonce_def wallet(2) new_nonce_def gateway_client_def E next_random_def s2_def s1_def)
  have res: "pr_resource ?reqs = resource" "pr_scheme ?reqs = scheme_exact"
    "set_string10 (pr_max_amount_required ?reqs) = Some (ge_price E)" by (simp_all add: requirements_def)
  obtain p where bp: "build_payment ?A ag ?reqs (ge_price E) s1 = (Inr p, s2)"
    by (rule build_payment_total [of ?A ag ?reqs s1 ?nonce ?seed s2 k])
      (use nonce res wallet(1) signer g in simp_all)
  let ?s = "count inc_request s2"
  have w: "gw_world ?s = (gw_world s)\<lparr>lw_random := rest\<rparr>" by (simp add: s2)
  obtain r s3 where v: "verify_and_settle E (Decoded p) ?reqs ?s = (Inr r, s3)"
    and post: "gw_settlements s3 = gw_settlements s @ [r]" "st_payer r = key_address G k" "st_amount r = Some (ge_price E)"
      "tk_balance_of (cn_token (lw_chain (gw_world s3))) =
        credit (debit (tk_balance_of (cn_token (lw_chain (gw_world s)))) (key_address G k) (nat (ge_price E)))
          (ge_pay_to E) (nat (ge_price E))" "pp_session p = None"
  proof (rule gateway_takes_payment [OF E G gw _ wallet(1,2) _ bp _ _ nonce, of ?s])
    show "ready_to_pay (key_address G k) ?nonce (ge_price E) (ge_pay_to E) (gw_world ?s)"
      using rd by (simp add: s2 ready_to_pay_def Let_def)
    show "inflight_get ?nonce ?s = None" using fl by (simp add: inflight_get_def s2)
  qed (use wallet(3) vb g in \<open>simp_all add: w s2 now_def E\<close>)
  let ?rep = "Served (Some (payment_response E r None)) None"
  have paid: "an_http ?A (paid_get url p) s2 = (Inr (reply_response status body ?rep), s3)"
    using v [unfolded resource] post(5) gw
    by (simp add: gateway_server_def paid_get_def plain_get_def middleware_def direct_gateway_def Let_def)
  show ?thesis
    using unpaid accepts res bp paid grant status post
    by (simp add: agent_get_def read_body_def send_payment_def build_result_def reply_response_def Let_def)
qed

section \<open>Witnesses\<close>

text \<open>
  The agent with key 2 holds 100 on the contract of \<open>pay_chain\<close>; the price is 60 and the
  seller is 3; the clock is at 1000 seconds and the seed of the nonce is 4.
\<close>

definition contract_env :: "local_world gateway_env" where
  "contract_env = gateway_facilitator sample_geth sample_ec \<lparr>
     ge_geth = sample_geth, ge_token_address = 9, ge_pay_to = 3, ge_price = 60, ge_network = ''eip155:1337'',
     ge_timeout = 0, ge_dvp_address = 0, ge_require_bound_nonce = True, ge_receipt_key = None,
     ge_confirm_depth = 2, ge_sessions_enabled = True, ge_policy = (\<lambda>_. None), ge_scorer = None,
     ge_verify = (\<lambda>_ _ w. (Inl '''', w)), ge_settle = (\<lambda>_ _ w. (Inl '''', w)), ge_deliverer = None,
     ge_refunder = None, ge_head = (\<lambda>_. Inr 0), ge_tx_block = (\<lambda>_ _. None), ge_now = lw_now,
     ge_random = next_random, ge_disk = (\<lambda>_ _. IoOk)\<rparr>"

definition contract_gateway :: "local_world gateway" where
  "contract_gateway = \<lparr>gw_world = \<lparr>lw_chain = pay_chain, lw_facilitator = plain_facilitator,
       lw_now = 1000000000000, lw_random = [4]\<rparr>,
     gw_store = fresh_store, gw_journal = None, gw_settlements = [], gw_inflight = Map.empty,
     gw_sessions = Map.empty, gw_metrics = None\<rparr>"

definition sample_agent :: agent where
  "sample_agent = \<lparr>ag_wallet = wallet_from_key sample_geth 2, ag_domain = 0, ag_max_amount = Some 80, ag_grant = None,
     ag_mandate = None, ag_confirmation = None, ag_last_header = None, ag_last_amount = None, ag_last_resource = ''''\<rparr>"

lemma contract_env_sel [simp]:
  "ge_geth contract_env = sample_geth" "ge_pay_to contract_env = 3" "ge_price contract_env = 60"
  "ge_dvp_address contract_env = 0" "ge_deliverer contract_env = None" "ge_policy contract_env w = None"
  "gateway_timeout contract_env = 60 * ns_per_second"
  by (simp_all add: contract_env_def gateway_timeout_def)

lemma sample_timeout: "whole_seconds (60 * ns_per_second) = 60"
  by (simp add: whole_seconds_def ns_per_second_def)

lemma contract_direct: "direct_gateway contract_env"
  by (simp add: direct_gateway_def disk_ok_def sample_timeout) (simp add: contract_env_def)

lemma sample_unix: "unix_of 1000000000000 = 1000"
  by (simp add: unix_of_def ns_per_second_def)

lemma contract_ready: "ready_to_pay 2 n 60 3 (gw_world contract_gateway)"
proof -
  have "sum_balances pay_token = 100"
    using sum_fun_upd [of "\<lambda>_. 0" 2 100] by (simp add: sum_balances_def pay_token_def)
  then show ?thesis
    by (simp add: ready_to_pay_def token_open_def token_ok_def contract_gateway_def pay_chain_def sample_unix
        plain_facilitator_def uint256_max_def) (simp add: pay_token_def token_new_def)
qed

lemma sample_key: "key_address sample_geth 2 = 2" "crypto_sign sample_geth h 2 \<noteq> None"
  by (simp_all add: sample_geth_def)

theorem agent_pays_witness:
  "\<exists>res ag' s'. agent_get (gateway_client contract_env (\<lambda>u. (u, ''/doc'')) 200 (\<lambda>_. '''')) ''h'' sample_agent contract_gateway
     = (Inr res, ag', s') \<and> rs_paid res \<and> rs_status res = 200 \<and>
   tk_balance_of (cn_token (lw_chain (gw_world s'))) 2 = 40 \<and> tk_balance_of (cn_token (lw_chain (gw_world s'))) 3 = 60"
proof -
  obtain E0 where E: "contract_env = gateway_facilitator sample_geth sample_ec E0" by (simp add: contract_env_def)
  have tok: "cn_token (lw_chain (gw_world contract_gateway)) = pay_token"
    by (simp add: contract_gateway_def pay_chain_def)
  have dom: "tk_domain_separator pay_token = 0" by (simp add: pay_token_def token_new_def)
  have ag: "ag_wallet sample_agent = wallet_from_key sample_geth 2" "ag_confirmation sample_agent = None"
    "ag_domain sample_agent = 0" "agent_grant sample_agent = MaxAmountGrant (Some 80)"
    by (simp_all add: sample_agent_def agent_grant_def)
  have clock: "lw_now (gw_world contract_gateway) = 1000000000000" "lw_random (gw_world contract_gateway) = [4]"
    "inflight_get n contract_gateway = None" for n
    by (simp_all add: contract_gateway_def inflight_get_def)
  have "\<exists>res ag' s' r. agent_get (gateway_client contract_env (\<lambda>u. (u, ''/doc'')) 200 (\<lambda>_. '''')) ''h'' sample_agent contract_gateway
      = (Inr res, ag', s') \<and> rs_status res = 200 \<and> rs_paid res \<and> rs_amount res = Some (ge_price contract_env) \<and>
    rs_settlement res = Some (payment_response contract_env r None) \<and>
    gw_settlements s' = gw_settlements contract_gateway @ [r] \<and> st_payer r = key_address sample_geth 2 \<and>
    st_amount r = Some (ge_price contract_env) \<and>
    tk_balance_of (cn_token (lw_chain (gw_world s'))) =
      credit (debit (tk_balance_of (cn_token (lw_chain (gw_world contract_gateway)))) (key_address sample_geth 2)
        (nat (ge_price contract_env))) (ge_pay_to contract_env) (nat (ge_price contract_env))"
    by (rule agent_pays_and_is_served [OF E sample_geth_text sample_geth_sig sample_ec_law sample_key(2) contract_direct
          refl clock(2) _ clock(3) ag(1,2)])
      (use contract_ready in \<open>simp_all add: ag(3,4) tok dom clock(1) sample_key(1) sample_timeout sample_unix\<close>)
  then show ?thesis
    by (auto simp: tok sample_key(1) credit_def debit_def) (simp_all add: pay_token_def)
qed

theorem served_means_paid_witness:
  "\<exists>p r s' a sig. verify_and_settle contract_env (Decoded p) (requirements contract_env ''/doc'') contract_gateway = (Inr r, s') \<and>
     parse_exact_payload sample_geth (pp_payload p) = Inr (a, sig) \<and> 60 \<le> au_value a \<and> au_to a = 3 \<and>
     tk_authorization_state (cn_token (lw_chain (gw_world s'))) (au_from a) (au_nonce a) \<and>
     tk_balance_of (cn_token (lw_chain (gw_world s'))) 3 = 60"
proof -
  obtain E0 where E: "contract_env = gateway_facilitator sample_geth sample_ec E0" by (simp add: contract_env_def)
  let ?A = "\<lparr>an_geth = sample_geth, an_http = (\<lambda>_ w. (Inl '''', w)), an_random = (\<lambda>w. (Some 4, w)),
    an_now = (\<lambda>_. 1000000000000)\<rparr> :: unit agent_env"
  let ?seed = "''0x'' @ hex_encode (bytes32_bytes 4)" and ?n = "bound_nonce sample_geth 4 ''/doc''"
  have ag: "ag_wallet sample_agent = wallet_from_key sample_geth 2" "ag_confirmation sample_agent = None"
    "ag_domain sample_agent = tk_domain_separator (cn_token (lw_chain (gw_world contract_gateway)))"
    by (simp_all add: sample_agent_def contract_gateway_def pay_chain_def pay_token_def token_new_def)
  have n: "agent_bound_nonce ?A sample_agent ''/doc'' () = (Inr (?n, ?seed), ())"
    by (simp add: agent_bound_nonce_def ag(2) new_nonce_def)
  have res: "pr_resource (requirements contract_env ''/doc'') = ''/doc''" by (simp add: requirements_def)
  obtain p where bp: "build_payment ?A sample_agent (requirements contract_env ''/doc'') (ge_price contract_env) () = (Inr p, ())"
    by (rule build_payment_total [of ?A sample_agent "requirements contract_env ''/doc''" "()" ?n ?seed "()" 2])
      (use n ag(1) in \<open>simp_all add: res sample_geth_def\<close>)
  have clock: "lw_now (gw_world contract_gateway) = 1000000000000" "\<And>n. inflight_get n contract_gateway = None"
    "cn_token (lw_chain (gw_world contract_gateway)) = pay_token" "\<not> lf_dvp (lw_facilitator (gw_world contract_gateway))"
    by (simp_all add: contract_gateway_def inflight_get_def pay_chain_def plain_facilitator_def)
  have pol: "AlwaysVerify \<in> set (members (gateway_policy contract_env w))" for w
    by (simp add: gateway_policy_def)
  obtain r s' where v: "verify_and_settle contract_env (Decoded p) (requirements contract_env ''/doc'') contract_gateway = (Inr r, s')"
    and bal: "tk_balance_of (cn_token (lw_chain (gw_world s'))) =
      credit (debit (tk_balance_of pay_token) 2 60) 3 60"
  proof (rule gateway_takes_payment [OF E sample_geth_text sample_geth_sig sample_ec_law contract_direct _ ag bp _ _ n])
  qed (use contract_ready in \<open>simp_all add: clock sample_key(1) sample_unix sample_timeout\<close>)
  have "journal_ok contract_gateway" by (simp add: journal_ok_def contract_gateway_def)
  from served_means_paid [OF E sample_geth_text _ _ clock(4) pol clock(2) this v refl refl]
  obtain a sig where "parse_exact_payload sample_geth (pp_payload p) = Inr (a, sig)" "60 \<le> au_value a" "au_to a = 3"
    "tk_authorization_state (cn_token (lw_chain (gw_world s'))) (au_from a) (au_nonce a)"
    by auto
  moreover have "tk_balance_of (cn_token (lw_chain (gw_world s'))) 3 = 60"
    by (simp add: bal credit_def debit_def) (simp add: pay_token_def)
  ultimately show ?thesis using v by blast
qed

text \<open>A server that only ever asks for the payment of \<open>pay_requirements\<close>.\<close>

definition asking_env :: "unit agent_env" where
  "asking_env = \<lparr>an_geth = sample_geth,
     an_http = (\<lambda>_ w. (Inr \<lparr>hr_status = 402, hr_body = Inr '''',
       hr_terms = Some \<lparr>rqr_version = 1, rqr_error = '''', rqr_error_code = ErrCodePaymentRequired,
         rqr_accepts = [pay_requirements], rqr_ask = None\<rparr>, hr_discovery = None, hr_payment_response = None,
       hr_session = ''''\<rparr>, w)),
     an_random = (\<lambda>w. (Some 4, w)), an_now = (\<lambda>_. 1000000000000)\<rparr>"

theorem agent_signs_witness:
  "\<exists>res ag'. agent_get asking_env ''http://h/doc'' sample_agent () = (res, ag', ()) \<and> ag' \<noteq> sample_agent \<and>
     (\<exists>t nonce sig seed. ag_last_header ag' = Some (auth_payload sample_geth ''eip155:1337''
        (agent_authorization sample_geth sample_agent pay_requirements 60 t nonce) sig seed None None None))"
proof -
  let ?A = asking_env
  have sel: "an_geth ?A = sample_geth" "an_random ?A w = (Some 4, w)" for w by (simp_all add: asking_env_def)
  have ag: "ag_wallet sample_agent = wallet_from_key sample_geth 2" "ag_confirmation sample_agent = None"
    "ag_mandate sample_agent = None" "ag_last_header sample_agent = None" "agent_grant sample_agent = MaxAmountGrant (Some 80)"
    by (simp_all add: sample_agent_def agent_grant_def)
  have amount: "set_string10 (pr_max_amount_required pay_requirements) = Some 60"
    "pr_scheme pay_requirements = scheme_exact" "pr_network pay_requirements = ''eip155:1337''"
  proof -
    have "set_string10 ''60'' = Some 60" by code_simp
    then show "set_string10 (pr_max_amount_required pay_requirements) = Some 60" by (simp add: pay_requirements_def)
  qed (simp_all add: pay_requirements_def scheme_exact_def)
  obtain p where bp: "build_payment ?A sample_agent pay_requirements 60 () = (Inr p, ())"
    by (rule build_payment_total [of ?A sample_agent pay_requirements "()" _ _ "()" 2])
      (auto simp: agent_bound_nonce_def ag new_nonce_def sel sample_geth_def)
  have http: "an_http ?A rq w = (Inr \<lparr>hr_status = 402, hr_body = Inr '''',
       hr_terms = Some \<lparr>rqr_version = 1, rqr_error = '''', rqr_error_code = ErrCodePaymentRequired,
         rqr_accepts = [pay_requirements], rqr_ask = None\<rparr>, hr_discovery = None, hr_payment_response = None,
       hr_session = ''''\<rparr>, w)" for rq w
    by (simp add: asking_env_def)
  obtain res ag' where g: "agent_get ?A ''http://h/doc'' sample_agent () = (res, ag', ())" "ag_last_header ag' = Some p"
    using bp by (simp add: agent_get_def http read_body_def amount ag send_payment_def build_result_def Let_def)
  then have neq: "ag' \<noteq> sample_agent" using ag(4) by auto
  have laws: "geth_sig (an_geth ?A)" "ag_wallet sample_agent = wallet_from_key (an_geth ?A) 2" by (simp_all add: sel ag)
  from agent_signs_the_terms [OF g(1) neq laws] obtain resp terms req rest amt t nonce sig seed where
    s: "fst (an_http ?A (plain_get ''http://h/doc'') ()) = Inr resp" "hr_terms resp = Some terms" "rqr_accepts terms = req # rest"
      "set_string10 (pr_max_amount_required req) = Some amt"
      "ag_last_header ag' = Some (auth_payload (an_geth ?A) (pr_network req) (agent_authorization (an_geth ?A) sample_agent req amt t nonce)
        sig seed (ag_mandate sample_agent) (ag_confirmation sample_agent) None)"
    by blast
  moreover have "req = pay_requirements" using s(1-3) by (auto simp: http)
  ultimately show ?thesis using g(1) neq amount by (auto simp: sel ag)
qed

end
