(* ===== verification/Remote.thy ===== *)
theory Remote
  imports Facilitator
begin

text \<open>
  Verification and settlement over HTTP: the client a keyless gateway uses
  (\<open>x402/facilitator_remote.go\<close>) and the service it calls (\<open>cmd/facilitator\<close>), which wraps a
  local facilitator. The theorems compose the two: what the client gets is what the local
  facilitator answers, so the remote facilitator is a payment rail too.

  JSON is the standard library's: a codec, the functions json.Marshal and json.Unmarshal are
  on the three types that travel, with the round trip as its law. The HTTP client is a
  function of a world.
\<close>

section \<open>What travels\<close>

record facilitator_request =
  fq_version :: int
  fq_payload :: payment_payload
  fq_requirements :: payment_requirements

record facilitator_codec =
  enc_request :: "facilitator_request \<Rightarrow> string"
  dec_request :: "string \<Rightarrow> facilitator_request result"
  enc_verify :: "verify_result \<Rightarrow> string"
  dec_verify :: "string \<Rightarrow> verify_result result"
  enc_settle :: "settlement_response \<Rightarrow> string"
  dec_settle :: "string \<Rightarrow> settlement_response result"

definition newline :: string where
  "newline = [CHR 0x0A]"

text \<open>
  What is marshalled is read back, on the values that travel; json.Encoder ends a value with
  a newline, which json.Unmarshal skips.
\<close>

definition json_law ::
    "facilitator_codec \<Rightarrow> facilitator_request set \<Rightarrow> verify_result set \<Rightarrow> settlement_response set \<Rightarrow> bool" where
  "json_law J Q V R \<longleftrightarrow> (\<forall>q\<in>Q. dec_request J (enc_request J q) = Inr q) \<and>
     (\<forall>v\<in>V. dec_verify J (enc_verify J v @ newline) = Inr v) \<and>
     (\<forall>r\<in>R. dec_settle J (enc_settle J r @ newline) = Inr r)"

record http_post =
  hp_method :: string
  hp_path :: string
  hp_body :: string

record http_reply =
  hy_status :: int
  hy_body :: string

section \<open>cmd/facilitator: the service\<close>

definition http_error :: "string \<Rightarrow> int \<Rightarrow> http_reply" where
  "http_error msg code = \<lparr>hy_status = code, hy_body = msg @ newline\<rparr>"

definition write_json :: "string \<Rightarrow> http_reply" where
  "write_json json = \<lparr>hy_status = 200, hy_body = json @ newline\<rparr>"

definition decode_request :: "facilitator_codec \<Rightarrow> http_post \<Rightarrow> facilitator_request result" where
  "decode_request J r =
     (case dec_request J (hp_body r) of Inl e \<Rightarrow> Inl (''invalid request body: '' @ e) | Inr q \<Rightarrow> Inr q)"

text \<open>The facilitator is whatever \<open>fac.Verify\<close> and \<open>fac.Settle\<close> do to the world.\<close>

definition verify_handler ::
    "facilitator_codec \<Rightarrow> (payment_payload \<Rightarrow> payment_requirements \<Rightarrow> 'w \<Rightarrow> verify_result result \<times> 'w) \<Rightarrow>
     http_post \<Rightarrow> 'w \<Rightarrow> http_reply \<times> 'w" where
  "verify_handler J verify r w =
     (if hp_method r \<noteq> ''POST'' then (http_error ''method not allowed'' 405, w)
      else case decode_request J r of
        Inl e \<Rightarrow> (http_error e 400, w)
      | Inr q \<Rightarrow> (case verify (fq_payload q) (fq_requirements q) w of
          (Inl e, w1) \<Rightarrow> (http_error (''verify: '' @ e) 500, w1)
        | (Inr v, w1) \<Rightarrow> (write_json (enc_verify J v), w1)))"

definition settle_handler ::
    "facilitator_codec \<Rightarrow> (payment_payload \<Rightarrow> payment_requirements \<Rightarrow> 'w \<Rightarrow> settlement_response result \<times> 'w) \<Rightarrow>
     http_post \<Rightarrow> 'w \<Rightarrow> http_reply \<times> 'w" where
  "settle_handler J settle r w =
     (if hp_method r \<noteq> ''POST'' then (http_error ''method not allowed'' 405, w)
      else case decode_request J r of
        Inl e \<Rightarrow> (http_error e 400, w)
      | Inr q \<Rightarrow> (case settle (fq_payload q) (fq_requirements q) w of
          (Inl e, w1) \<Rightarrow> (http_error (''settle: '' @ e) 500, w1)
        | (Inr s, w1) \<Rightarrow> (write_json (enc_settle J s), w1)))"

definition dquote :: string where
  "dquote = [CHR 0x22]"

text \<open>One scheme on one network, as JSON; a network name has no character to escape.\<close>

definition supported_json :: "string \<Rightarrow> string" where
  "supported_json network = ''{'' @ dquote @ ''kinds'' @ dquote @ '':[{'' @ dquote @ ''scheme'' @ dquote @ '':'' @ dquote @
     scheme_exact @ dquote @ '','' @ dquote @ ''network'' @ dquote @ '':'' @ dquote @ network @ dquote @ ''}]}''"

definition supported_handler :: "string \<Rightarrow> http_post \<Rightarrow> http_reply" where
  "supported_handler network r =
     (if hp_method r \<noteq> ''GET'' then http_error ''method not allowed'' 405 else write_json (supported_json network))"

definition health_handler :: "bool \<Rightarrow> http_reply" where
  "health_handler reachable =
     (if \<not> reachable then http_error (''{'' @ dquote @ ''status'' @ dquote @ '':'' @ dquote @ ''chain unreachable'' @ dquote @ ''}'') 503
      else \<lparr>hy_status = 200, hy_body = ''{'' @ dquote @ ''status'' @ dquote @ '':'' @ dquote @ ''ok'' @ dquote @ ''}''\<rparr>)"

text \<open>The routes of the mux; \<open>sv_reachable\<close> is whether the node answers for its block number.\<close>

record 'w service =
  sv_verify :: "payment_payload \<Rightarrow> payment_requirements \<Rightarrow> 'w \<Rightarrow> verify_result result \<times> 'w"
  sv_settle :: "payment_payload \<Rightarrow> payment_requirements \<Rightarrow> 'w \<Rightarrow> settlement_response result \<times> 'w"
  sv_network :: string
  sv_reachable :: "'w \<Rightarrow> bool"

definition facilitator_service ::
    "facilitator_codec \<Rightarrow> 'w service \<Rightarrow> http_post \<Rightarrow> 'w \<Rightarrow> http_reply \<times> 'w" where
  "facilitator_service J sv r w =
     (if hp_path r = ''/verify'' then verify_handler J (sv_verify sv) r w
      else if hp_path r = ''/settle'' then settle_handler J (sv_settle sv) r w
      else if hp_path r = ''/supported'' then (supported_handler (sv_network sv) r, w)
      else if hp_path r = ''/healthz'' then (health_handler (sv_reachable sv w), w)
      else (http_error ''404 page not found'' 404, w))"

section \<open>facilitator_remote.go: the client\<close>

text \<open>\<open>rf_do\<close> is the client's Do with the reading of the body: \<open>Inl\<close> when either fails.\<close>

record 'w remote_facilitator =
  rf_base_url :: string
  rf_do :: "string \<Rightarrow> string \<Rightarrow> 'w \<Rightarrow> http_reply result \<times> 'w"

definition trim_right_slashes :: "string \<Rightarrow> string" where
  "trim_right_slashes s = rev (dropWhile (\<lambda>c. c = CHR ''/'') (rev s))"

text \<open>\<open>strings.TrimSpace\<close> on ASCII text.\<close>

definition is_space :: "char \<Rightarrow> bool" where
  "is_space c \<longleftrightarrow> c \<in> {CHR '' '', CHR 0x09, CHR 0x0A, CHR 0x0B, CHR 0x0C, CHR 0x0D}"

definition trim_space :: "string \<Rightarrow> string" where
  "trim_space s = rev (dropWhile is_space (rev (dropWhile is_space s)))"

text \<open>The body is read up to 1 MiB.\<close>

definition read_limit :: nat where
  "read_limit = 2 ^ 20"

definition remote_post ::
    "facilitator_codec \<Rightarrow> (string \<Rightarrow> 'r result) \<Rightarrow> 'w remote_facilitator \<Rightarrow> string \<Rightarrow> payment_payload \<Rightarrow>
     payment_requirements \<Rightarrow> 'w \<Rightarrow> 'r result \<times> 'w" where
  "remote_post J dec f path p reqs w =
     (let body = enc_request J \<lparr>fq_version = x402_version, fq_payload = p, fq_requirements = reqs\<rparr> in
      case rf_do f (trim_right_slashes (rf_base_url f) @ path) body w of
        (Inl e, w1) \<Rightarrow> (Inl (''facilitator '' @ path @ '': request: '' @ e), w1)
      | (Inr resp, w1) \<Rightarrow>
         (let data = take read_limit (hy_body resp) in
          if hy_status resp \<noteq> 200 then
            (Inl (''facilitator '' @ path @ '': status '' @ big_show (hy_status resp) @ '': '' @ trim_space data), w1)
          else case dec data of
            Inl e \<Rightarrow> (Inl (''facilitator '' @ path @ '': decode response: '' @ e), w1)
          | Inr out \<Rightarrow> (Inr out, w1)))"

definition remote_verify ::
    "facilitator_codec \<Rightarrow> 'w remote_facilitator \<Rightarrow> payment_payload \<Rightarrow> payment_requirements \<Rightarrow> 'w \<Rightarrow>
     verify_result result \<times> 'w" where
  "remote_verify J f p reqs w = remote_post J (dec_verify J) f ''/verify'' p reqs w"

definition remote_settle ::
    "facilitator_codec \<Rightarrow> 'w remote_facilitator \<Rightarrow> payment_payload \<Rightarrow> payment_requirements \<Rightarrow> 'w \<Rightarrow>
     settlement_response result \<times> 'w" where
  "remote_settle J f p reqs w = remote_post J (dec_settle J) f ''/settle'' p reqs w"

section \<open>Client and service together\<close>

text \<open>The client's requests reach a service at its base URL, unless the network loses them.\<close>

definition connected :: "facilitator_codec \<Rightarrow> 'w service \<Rightarrow> 'w remote_facilitator \<Rightarrow> bool" where
  "connected J sv f \<longleftrightarrow>
     (\<forall>path body w. rf_do f (trim_right_slashes (rf_base_url f) @ path) body w =
        (let (r, w1) = facilitator_service J sv \<lparr>hp_method = ''POST'', hp_path = path, hp_body = body\<rparr> w in (Inr r, w1)))"

definition status_500 :: "string \<Rightarrow> string \<Rightarrow> string \<Rightarrow> string" where
  "status_500 path what e = ''facilitator '' @ path @ '': status 500: '' @ trim_space (take read_limit (what @ '': '' @ e @ newline))"

text \<open>
  C17. A remote facilitator is the local one behind it: over a connection that loses nothing,
  with answers of less than a mebibyte, Verify and Settle of the client give exactly the
  verdict and the settlement of the facilitator the service wraps, with the same effect on
  the world; an error of that facilitator, and only that, becomes an error of the client.
\<close>

theorem remote_is_local:
  assumes "json_law J {\<lparr>fq_version = x402_version, fq_payload = p, fq_requirements = reqs\<rparr>}
      {v. fst (sv_verify sv p reqs w) = Inr v} {r. fst (sv_settle sv p reqs w) = Inr r}"
    and "connected J sv f"
    and "\<And>v. fst (sv_verify sv p reqs w) = Inr v \<Longrightarrow> length (enc_verify J v) < read_limit"
    and "\<And>r. fst (sv_settle sv p reqs w) = Inr r \<Longrightarrow> length (enc_settle J r) < read_limit"
  shows "remote_verify J f p reqs w =
      (case sv_verify sv p reqs w of (Inl e, w') \<Rightarrow> (Inl (status_500 ''/verify'' ''verify'' e), w') | (Inr v, w') \<Rightarrow> (Inr v, w')) \<and>
    remote_settle J f p reqs w =
      (case sv_settle sv p reqs w of (Inl e, w') \<Rightarrow> (Inl (status_500 ''/settle'' ''settle'' e), w') | (Inr r, w') \<Rightarrow> (Inr r, w'))"
proof -
  let ?q = "\<lparr>fq_version = x402_version, fq_payload = p, fq_requirements = reqs\<rparr>"
  have q: "dec_request J (enc_request J ?q) = Inr ?q" using assms(1) by (simp add: json_law_def)
  have do_: "rf_do f (trim_right_slashes (rf_base_url f) @ path) body w =
      (let (r, w1) = facilitator_service J sv \<lparr>hp_method = ''POST'', hp_path = path, hp_body = body\<rparr> w
       in (Inr r, w1))" for path body
    using assms(2) by (simp add: connected_def)
  have show500: "big_show 500 = ''500''" by code_simp
  note unf = remote_post_def do_ facilitator_service_def decode_request_def q http_error_def write_json_def
    status_500_def show500 Let_def
  obtain out w1 where v: "sv_verify sv p reqs w = (out, w1)" by (cases "sv_verify sv p reqs w")
  obtain out' w2 where s: "sv_settle sv p reqs w = (out', w2)" by (cases "sv_settle sv p reqs w")
  have "take read_limit (enc_verify J x @ newline) = enc_verify J x @ newline"
    "dec_verify J (enc_verify J x @ newline) = Inr x" if "out = Inr x" for x
    using assms(1,3) that v by (auto simp: json_law_def newline_def)
  then have "remote_verify J f p reqs w =
      (case sv_verify sv p reqs w of (Inl e, w') \<Rightarrow> (Inl (status_500 ''/verify'' ''verify'' e), w') | (Inr v, w') \<Rightarrow> (Inr v, w'))"
    by (cases out) (simp_all add: remote_verify_def unf verify_handler_def v)
  moreover have "take read_limit (enc_settle J x @ newline) = enc_settle J x @ newline"
    "dec_settle J (enc_settle J x @ newline) = Inr x" if "out' = Inr x" for x
    using assms(1,4) that s by (auto simp: json_law_def newline_def)
  then have "remote_settle J f p reqs w =
      (case sv_settle sv p reqs w of (Inl e, w') \<Rightarrow> (Inl (status_500 ''/settle'' ''settle'' e), w') | (Inr r, w') \<Rightarrow> (Inr r, w'))"
    by (cases out') (simp_all add: remote_settle_def unf settle_handler_def s)
  ultimately show ?thesis ..
qed

section \<open>Witness\<close>

text \<open>The service on the contract of the facilitator's witnesses, and a codec for its one payment.\<close>

definition chain_verify :: "payment_payload \<Rightarrow> payment_requirements \<Rightarrow> chain \<Rightarrow> verify_result result \<times> chain" where
  "chain_verify p reqs c = (fst (facilitator_verify sample_geth (chain_api sample_geth sample_ec) 1000000000000 c p reqs
     plain_facilitator), c)"

definition chain_settle :: "payment_payload \<Rightarrow> payment_requirements \<Rightarrow> chain \<Rightarrow> settlement_response result \<times> chain" where
  "chain_settle p reqs c = facilitator_settle sample_geth (chain_api sample_geth sample_ec) plain_facilitator p reqs c"

definition chain_service :: "chain service" where
  "chain_service = \<lparr>sv_verify = chain_verify, sv_settle = chain_settle, sv_network = ''eip155:1337'',
     sv_reachable = (\<lambda>_. True)\<rparr>"

definition one_codec :: facilitator_codec where
  "one_codec = \<lparr>enc_request = (\<lambda>_. ''q''),
     dec_request = (\<lambda>_. Inr \<lparr>fq_version = x402_version, fq_payload = pay_payload, fq_requirements = pay_requirements\<rparr>),
     enc_verify = (\<lambda>_. ''v''),
     dec_verify = (\<lambda>_. fst (chain_verify pay_payload pay_requirements pay_chain)),
     enc_settle = (\<lambda>_. ''s''),
     dec_settle = (\<lambda>_. fst (chain_settle pay_payload pay_requirements pay_chain))\<rparr>"

definition linked_client :: "chain remote_facilitator" where
  "linked_client = \<lparr>rf_base_url = ''http://facilitator/'',
     rf_do = (\<lambda>url body c. let (r, c1) = facilitator_service one_codec chain_service
       \<lparr>hp_method = ''POST'', hp_path = drop (length ''http://facilitator'') url, hp_body = body\<rparr> c in (Inr r, c1))\<rparr>"

theorem remote_is_local_witness:
  "remote_verify one_codec linked_client pay_payload pay_requirements pay_chain =
    (Inr \<lparr>vr_is_valid = True, vr_invalid_reason = '''', vr_payer = address_hex sample_geth 2\<rparr>, pay_chain)"
proof -
  have base: "trim_right_slashes (rf_base_url linked_client) = ''http://facilitator''"
    by (simp add: linked_client_def) code_simp
  have "connected one_codec chain_service linked_client"
    by (simp add: connected_def base) (simp add: linked_client_def)
  moreover have "json_law one_codec {\<lparr>fq_version = x402_version, fq_payload = pay_payload, fq_requirements = pay_requirements\<rparr>}
      {v. fst (chain_verify pay_payload pay_requirements pay_chain) = Inr v}
      {r. fst (chain_settle pay_payload pay_requirements pay_chain) = Inr r}"
    by (simp add: json_law_def one_codec_def)
  moreover have "length (enc_verify one_codec v) < read_limit" "length (enc_settle one_codec r) < read_limit" for v r
    by (simp_all add: one_codec_def read_limit_def)
  ultimately have "remote_verify one_codec linked_client pay_payload pay_requirements pay_chain =
      (case chain_verify pay_payload pay_requirements pay_chain of
         (Inl e, w') \<Rightarrow> (Inl (status_500 ''/verify'' ''verify'' e), w') | (Inr v, w') \<Rightarrow> (Inr v, w'))"
    using remote_is_local [of one_codec pay_payload pay_requirements chain_service pay_chain linked_client]
    by (simp add: chain_service_def)
  then show ?thesis by (simp add: chain_verify_def pay_verifies)
qed

end
