(* ===== verification/Auditor.thy ===== *)
theory Auditor
  imports GatewayRuns
begin

text \<open>
  The auditor (\<open>cmd/audit\<close>): from a signed receipt, the mandate and a source of events it
  checks the gateway's signature, the delegation, revocations, scope and, with a node, the
  transfers on chain. The files and the node are inputs: what reading and decoding them gave.
  The theorems: what a passed audit means, that the receipts a gateway issues pass, and what
  the search for revocations does not see.
\<close>

section \<open>Verdicts\<close>

datatype verdict = Passed | Failed | Skipped

record auditor =
  ad_failed :: bool
  ad_report :: "(string \<times> verdict \<times> string) list"

definition new_auditor :: auditor where
  "new_auditor = \<lparr>ad_failed = False, ad_report = []\<rparr>"

definition audit_step :: "string \<Rightarrow> bool \<Rightarrow> string \<Rightarrow> auditor \<Rightarrow> auditor" where
  "audit_step name ok detail a = \<lparr>ad_failed = (ad_failed a \<or> \<not> ok),
     ad_report = ad_report a @ [(name, if ok then Passed else Failed, detail)]\<rparr>"

definition audit_skip :: "string \<Rightarrow> string \<Rightarrow> auditor \<Rightarrow> auditor" where
  "audit_skip name detail a = a\<lparr>ad_report := ad_report a @ [(name, Skipped, detail)]\<rparr>"

section \<open>Inputs\<close>

definition hex_bytes :: "string \<Rightarrow> byte list result" where
  "hex_bytes s = (case hex_decode (trim_prefix s ''0x'') of None \<Rightarrow> Inl ''encoding/hex'' | Some b \<Rightarrow> Inr b)"

definition chain_id_of :: "string \<Rightarrow> int result" where
  "chain_id_of network =
     (case cut_colon network of
        None \<Rightarrow> Inl ''cannot read chain id from network''
      | Some i \<Rightarrow> (case set_string10 i of
          None \<Rightarrow> Inl ''cannot read chain id from network''
        | Some c \<Rightarrow> Inr c))"

text \<open>A log and a transaction receipt, as far as the auditor reads them.\<close>

record tx_log =
  tl_topics :: "bytes32 list"
  tl_data :: "byte list"

record tx_receipt =
  tr_success :: bool
  tr_logs :: "tx_log list"

text \<open>
  \<open>ai_receipt\<close> and \<open>ai_mandate\<close> are the files read and decoded, \<open>None\<close> for a mandate file
  that was not given; \<open>ai_events\<close> is \<open>None\<close> without a source; \<open>ai_chain\<close> is \<open>None\<close> without an
  RPC endpoint and \<open>Inl\<close> when it cannot be dialled.
\<close>

record audit_inputs =
  ai_receipt :: "signed_receipt_json result"
  ai_mandate :: "signed_mandate_json result option"
  ai_events :: "journal_entry list result option"
  ai_gateway :: string
  ai_chain :: "(bytes32 \<Rightarrow> tx_receipt result) result option"

definition load_receipt :: "geth \<Rightarrow> audit_inputs \<Rightarrow> (receipt \<times> byte list) result" where
  "load_receipt G i =
     (case ai_receipt i of
        Inl e \<Rightarrow> Inl e
      | Inr sr \<Rightarrow> (case to_receipt G (srj_receipt sr) of
        Inl e \<Rightarrow> Inl e
      | Inr r \<Rightarrow> (case hex_bytes (srj_signature sr) of
        Inl e \<Rightarrow> Inl (''receipt signature: '' @ e)
      | Inr sig \<Rightarrow> Inr (r, sig))))"

definition load_mandate :: "geth \<Rightarrow> signed_mandate_json result \<Rightarrow> (mandate \<times> byte list) result" where
  "load_mandate G f =
     (case f of
        Inl e \<Rightarrow> Inl e
      | Inr sm \<Rightarrow> (case to_mandate G (smj_mandate sm) of
        Inl e \<Rightarrow> Inl e
      | Inr m \<Rightarrow> (case hex_bytes (smj_signature sm) of
        Inl e \<Rightarrow> Inl (''mandate signature: '' @ e)
      | Inr sig \<Rightarrow> Inr (m, sig))))"

definition load_events :: "audit_inputs \<Rightarrow> (journal_entry list \<times> bool) result" where
  "load_events i =
     (case ai_events i of
        None \<Rightarrow> Inr ([], False)
      | Some (Inl e) \<Rightarrow> Inl e
      | Some (Inr es) \<Rightarrow> Inr (es, True))"

section \<open>The steps\<close>

definition mandate_id_hex :: "receipt \<Rightarrow> string" where
  "mandate_id_hex r = ''0x'' @ hex_encode (bytes32_bytes (rc_mandate_id r))"

text \<open>The loop over the events: the first matching revocation before the receipt ends it.\<close>

fun find_revocation :: "string \<Rightarrow> int \<Rightarrow> journal_entry list \<Rightarrow> int option" where
  "find_revocation mid issued [] = None"
| "find_revocation mid issued (e # es) =
     (case (if je_kind e = ''revocation'' then je_revocation e else None) of
        None \<Rightarrow> find_revocation mid issued es
      | Some rv \<Rightarrow>
          if \<not> equal_fold (rr_mandate_id rv) mid then find_revocation mid issued es
          else if je_at e < issued then Some (je_at e)
          else find_revocation mid issued es)"

definition audit_revocation :: "receipt \<Rightarrow> journal_entry list \<Rightarrow> bool \<Rightarrow> auditor \<Rightarrow> auditor" where
  "audit_revocation r events have_events a =
     (if \<not> have_events then
        audit_skip ''revocation status'' ''no event source (--journal or --broker); cannot check revocations'' a
      else case find_revocation (mandate_id_hex r) (rc_issued_at r) events of
        Some t \<Rightarrow> audit_step ''revocation status'' False (''mandate revoked at '' @ big_show t @
                    '', before the receipt at '' @ big_show (rc_issued_at r)) a
      | None \<Rightarrow> audit_step ''revocation status'' True ''no revocation before the receipt was issued'' a)"

definition scope_detail :: "string option \<Rightarrow> string" where
  "scope_detail err = (case err of None \<Rightarrow> ''amount, payee, and resource are within scope'' | Some e \<Rightarrow> e)"

text \<open>An amount that \<open>ToReceipt\<close> read is never nil.\<close>

definition audit_mandate ::
    "geth \<Rightarrow> receipt \<Rightarrow> signed_mandate_json result option \<Rightarrow> journal_entry list \<Rightarrow> bool \<Rightarrow> auditor \<Rightarrow> auditor result" where
  "audit_mandate G r mandate_file events have_events a =
     (case mandate_file of
        None \<Rightarrow> Inl ''the receipt names a mandate; --mandate is required''
      | Some f \<Rightarrow> (case load_mandate G f of
        Inl e \<Rightarrow> Inl e
      | Inr (m, sig) \<Rightarrow> (case chain_id_of (rc_network r) of
        Inl e \<Rightarrow> Inl e
      | Inr chain_id \<Rightarrow>
         (let out = verify_mandate G m sig (Some chain_id);
              delegator = (case out of Inl _ \<Rightarrow> 0 | Inr d \<Rightarrow> d);
              bind = (out = Inr delegator \<and> delegator = rc_delegator r \<and> m_delegator m = rc_delegator r \<and>
                      m_agent m = rc_payer r \<and> m_mandate_id m = rc_mandate_id r);
              a1 = audit_step ''mandate delegation chain'' bind
                     (''delegator '' @ address_hex G delegator @ '', agent '' @ address_hex G (m_agent m)) a;
              a2 = audit_revocation r events have_events a1;
              scope_err = within_scope m (rc_pay_to r) (rc_resource r) (case rc_amount r of None \<Rightarrow> 0 | Some x \<Rightarrow> x) in
          Inr (audit_step ''payment within mandate scope'' (scope_err = None) (scope_detail scope_err) a2)))))"

definition transfer_topic :: "geth \<Rightarrow> bytes32" where
  "transfer_topic G = keccak256 G (string_bytes ''Transfer(address,address,uint256)'')"

definition log_transfers :: "geth \<Rightarrow> address \<Rightarrow> int option \<Rightarrow> tx_log \<Rightarrow> bool" where
  "log_transfers G to amount lg \<longleftrightarrow>
     (case tl_topics lg of
        [t0, t1, t2] \<Rightarrow> t0 = transfer_topic G \<and> bytes_to_address G (bytes32_bytes t2) = to \<and>
          (case amount of None \<Rightarrow> True | Some x \<Rightarrow> int (bytes_nat (tl_data lg)) = x)
      | _ \<Rightarrow> False)"

definition has_transfer :: "geth \<Rightarrow> tx_receipt \<Rightarrow> address \<Rightarrow> int option \<Rightarrow> bool" where
  "has_transfer G rc to amount \<longleftrightarrow> list_ex (log_transfers G to amount) (tr_logs rc)"

definition audit_on_chain ::
    "geth \<Rightarrow> receipt \<Rightarrow> (bytes32 \<Rightarrow> tx_receipt result) \<Rightarrow> auditor \<Rightarrow> auditor" where
  "audit_on_chain G r receipts a =
     (case receipts (rc_settlement_tx r) of
        Inl e \<Rightarrow> audit_step ''settlement on chain'' False (''settlement tx not found: '' @ e) a
      | Inr rc \<Rightarrow>
         (let a1 = audit_step ''settlement on chain'' (tr_success rc \<and> has_transfer G rc (rc_pay_to r) (rc_amount r))
                (''settlement tx '' @ hash_hex G (rc_settlement_tx r) @ '' status '' @ (if tr_success rc then ''1'' else ''0'')) a in
          if rc_delivery_tx r \<noteq> 0 then
            (let ok = (case receipts (rc_delivery_tx r) of
               Inl e \<Rightarrow> False | Inr drc \<Rightarrow> tr_success drc \<and> has_transfer G drc (rc_payer r) None) in
             audit_step ''delivery on chain'' ok (''delivery tx '' @ hash_hex G (rc_delivery_tx r)) a1)
          else if has_transfer G rc (rc_payer r) None then
            audit_step ''delivery on chain'' True ''asset delivered within the settlement transaction'' a1
          else audit_skip ''delivery on chain''
            ''no separate delivery tx and no asset transfer to the payer in the settlement'' a1))"

text \<open>\<open>run\<close>, step by step: 1, then 2 to 4, then 5.\<close>

definition audit_signature :: "geth \<Rightarrow> string \<Rightarrow> receipt \<Rightarrow> byte list \<Rightarrow> auditor" where
  "audit_signature G gateway r sig =
     (let out = verify_receipt G r sig;
          signer = (case out of Inl _ \<Rightarrow> 0 | Inr s \<Rightarrow> s);
          ok = (out = Inr signer \<and> (gateway = '''' \<or> signer = hex_to_address G gateway)) in
      audit_step ''receipt signature'' ok (''signed by '' @ address_hex G signer) new_auditor)"

definition audit_delegation :: "geth \<Rightarrow> audit_inputs \<Rightarrow> receipt \<Rightarrow> journal_entry list \<Rightarrow> bool \<Rightarrow> auditor \<Rightarrow> auditor result" where
  "audit_delegation G i r events have_events a =
     (if rc_mandate_id r = 0 then Inr (audit_skip ''mandate'' ''receipt carries no mandate'' a)
      else audit_mandate G r (ai_mandate i) events have_events a)"

definition audit_node :: "geth \<Rightarrow> audit_inputs \<Rightarrow> receipt \<Rightarrow> auditor \<Rightarrow> auditor result" where
  "audit_node G i r a =
     (case ai_chain i of
        None \<Rightarrow> Inr (audit_skip ''on-chain settlement'' ''no --rpc; offline audit only'' a)
      | Some (Inl e) \<Rightarrow> Inl e
      | Some (Inr receipts) \<Rightarrow> Inr (audit_on_chain G r receipts a))"

text \<open>The error that \<open>run\<close> returns, \<open>None\<close> when the audit passed, and the printed report.\<close>

definition audit_run :: "geth \<Rightarrow> audit_inputs \<Rightarrow> string option \<times> auditor" where
  "audit_run G i =
     (case load_receipt G i of
        Inl e \<Rightarrow> (Some e, new_auditor)
      | Inr (r, sig) \<Rightarrow> (case load_events i of
        Inl e \<Rightarrow> (Some e, new_auditor)
      | Inr (events, have_events) \<Rightarrow>
         (let a1 = audit_signature G (ai_gateway i) r sig in
          case audit_delegation G i r events have_events a1 of
            Inl e \<Rightarrow> (Some e, a1)
          | Inr a2 \<Rightarrow> (case audit_node G i r a2 of
              Inl e \<Rightarrow> (Some e, a2)
            | Inr a3 \<Rightarrow> (if ad_failed a3 then Some ''audit failed'' else None, a3)))))"

section \<open>What a step says\<close>

lemma audit_step_sel [simp]:
  "ad_failed (audit_step name ok detail a) \<longleftrightarrow> ad_failed a \<or> \<not> ok"
  "ad_failed (audit_skip name detail a) = ad_failed a" "\<not> ad_failed new_auditor"
  by (simp_all add: audit_step_def audit_skip_def new_auditor_def)

lemma find_revocation_None:
  "find_revocation mid issued es = None \<longleftrightarrow>
     (\<forall>e\<in>set es. \<forall>rv. je_kind e = ''revocation'' \<and> je_revocation e = Some rv \<and> equal_fold (rr_mandate_id rv) mid
        \<longrightarrow> issued \<le> je_at e)"
  by (induction es) (auto split: option.splits)

lemma audit_revocation_failed:
  "ad_failed (audit_revocation r events b a) \<longleftrightarrow>
     ad_failed a \<or> b \<and> find_revocation (mandate_id_hex r) (rc_issued_at r) events \<noteq> None"
  by (auto simp: audit_revocation_def split: option.split)

lemma audit_mandate_passed:
  assumes "audit_mandate G r f events b a = Inr a'"
  obtains sm m sig c where "f = Some (Inr sm)" "to_mandate G (smj_mandate sm) = Inr m"
    "hex_bytes (smj_signature sm) = Inr sig" "chain_id_of (rc_network r) = Inr c"
    "ad_failed a' \<longleftrightarrow> ad_failed a \<or>
       \<not> (verify_mandate G m sig (Some c) = Inr (rc_delegator r) \<and> m_delegator m = rc_delegator r \<and>
          m_agent m = rc_payer r \<and> m_mandate_id m = rc_mandate_id r) \<or>
       b \<and> find_revocation (mandate_id_hex r) (rc_issued_at r) events \<noteq> None \<or>
       within_scope m (rc_pay_to r) (rc_resource r) (case rc_amount r of None \<Rightarrow> 0 | Some x \<Rightarrow> x) \<noteq> None"
proof -
  obtain sm where f: "f = Some (Inr sm)"
    using assms by (cases f; cases "the f") (auto simp: audit_mandate_def load_mandate_def)
  obtain m where m: "to_mandate G (smj_mandate sm) = Inr m"
    using assms f by (cases "to_mandate G (smj_mandate sm)") (auto simp: audit_mandate_def load_mandate_def)
  obtain sig where sig: "hex_bytes (smj_signature sm) = Inr sig"
    using assms f m by (cases "hex_bytes (smj_signature sm)") (auto simp: audit_mandate_def load_mandate_def)
  obtain c where c: "chain_id_of (rc_network r) = Inr c"
    using assms f m sig by (cases "chain_id_of (rc_network r)") (auto simp: audit_mandate_def load_mandate_def)
  have "ad_failed a' \<longleftrightarrow> ad_failed a \<or>
       \<not> (verify_mandate G m sig (Some c) = Inr (rc_delegator r) \<and> m_delegator m = rc_delegator r \<and>
          m_agent m = rc_payer r \<and> m_mandate_id m = rc_mandate_id r) \<or>
       b \<and> find_revocation (mandate_id_hex r) (rc_issued_at r) events \<noteq> None \<or>
       within_scope m (rc_pay_to r) (rc_resource r) (case rc_amount r of None \<Rightarrow> 0 | Some x \<Rightarrow> x) \<noteq> None"
    using assms by (cases "verify_mandate G m sig (Some c)")
      (auto simp: audit_mandate_def load_mandate_def f m sig c audit_revocation_failed Let_def)
  then show thesis by (rule that [OF f m sig c])
qed

section \<open>Properties\<close>

text \<open>
  C20. A passed audit is earned: when the audit of a receipt against an expected gateway
  address returns no error, the receipt is signed by that gateway; if it names a mandate, a
  mandate file was given that its delegator signed for the receipt's chain, whose agent is
  the payer, which allows the payee, the resource and the amount, and no revocation of its
  id, as the receipt spells it, is in the events before the receipt; and with a node, the
  settlement succeeded and moved the amount to the payee.
\<close>

theorem audit_pass_sound:
  assumes "audit_run G i = (None, a)" and "ai_gateway i \<noteq> ''''"
  shows "\<exists>r sig. load_receipt G i = Inr (r, sig) \<and> verify_receipt G r sig = Inr (hex_to_address G (ai_gateway i)) \<and>
    (rc_mandate_id r \<noteq> 0 \<longrightarrow> (\<exists>sm m msig c. ai_mandate i = Some (Inr sm) \<and> to_mandate G (smj_mandate sm) = Inr m \<and>
       chain_id_of (rc_network r) = Inr c \<and> verify_mandate G m msig (Some c) = Inr (m_delegator m) \<and>
       m_delegator m = rc_delegator r \<and> m_agent m = rc_payer r \<and> m_mandate_id m = rc_mandate_id r \<and>
       within_scope m (rc_pay_to r) (rc_resource r) (case rc_amount r of None \<Rightarrow> 0 | Some x \<Rightarrow> x) = None \<and>
       (\<forall>es. ai_events i = Some (Inr es) \<longrightarrow> (\<forall>e\<in>set es. \<forall>rv. je_kind e = ''revocation'' \<and> je_revocation e = Some rv \<and>
          equal_fold (rr_mandate_id rv) (mandate_id_hex r) \<longrightarrow> rc_issued_at r \<le> je_at e)))) \<and>
    (\<forall>receipts. ai_chain i = Some (Inr receipts) \<longrightarrow> (\<exists>rc. receipts (rc_settlement_tx r) = Inr rc \<and> tr_success rc \<and>
       has_transfer G rc (rc_pay_to r) (rc_amount r)))"
proof -
  obtain r sig where lr: "load_receipt G i = Inr (r, sig)"
    using assms(1) by (cases "load_receipt G i") (auto simp: audit_run_def)
  obtain es b where le: "load_events i = Inr (es, b)"
    using assms(1) lr by (cases "load_events i") (auto simp: audit_run_def)
  let ?a1 = "audit_signature G (ai_gateway i) r sig"
  obtain a2 where a2: "audit_delegation G i r es b ?a1 = Inr a2"
    using assms(1) lr le by (cases "audit_delegation G i r es b ?a1") (auto simp: audit_run_def)
  obtain a3 where a3: "audit_node G i r a2 = Inr a3" "\<not> ad_failed a3"
    using assms(1) lr le a2 by (cases "audit_node G i r a2") (auto simp: audit_run_def split: if_splits)
  have p2: "\<not> ad_failed a2"
    using a3 by (auto simp: audit_node_def audit_on_chain_def Let_def split: option.splits sum.splits if_splits)
  have "ad_failed ?a1 \<longrightarrow> ad_failed a2"
    using a2 by (auto simp: audit_delegation_def split: if_splits elim!: audit_mandate_passed)
  then have signed: "verify_receipt G r sig = Inr (hex_to_address G (ai_gateway i))"
    using p2 assms(2) by (auto simp: audit_signature_def Let_def)
  have "\<exists>rc. receipts (rc_settlement_tx r) = Inr rc \<and> tr_success rc \<and> has_transfer G rc (rc_pay_to r) (rc_amount r)"
    if "ai_chain i = Some (Inr receipts)" for receipts
    using a3 that by (auto simp: audit_node_def audit_on_chain_def Let_def split: sum.splits if_splits)
  moreover have "rc_mandate_id r \<noteq> 0 \<Longrightarrow> (\<exists>sm m msig c. ai_mandate i = Some (Inr sm) \<and> to_mandate G (smj_mandate sm) = Inr m \<and>
       chain_id_of (rc_network r) = Inr c \<and> verify_mandate G m msig (Some c) = Inr (m_delegator m) \<and>
       m_delegator m = rc_delegator r \<and> m_agent m = rc_payer r \<and> m_mandate_id m = rc_mandate_id r \<and>
       within_scope m (rc_pay_to r) (rc_resource r) (case rc_amount r of None \<Rightarrow> 0 | Some x \<Rightarrow> x) = None \<and>
       (\<forall>es. ai_events i = Some (Inr es) \<longrightarrow> (\<forall>e\<in>set es. \<forall>rv. je_kind e = ''revocation'' \<and> je_revocation e = Some rv \<and>
          equal_fold (rr_mandate_id rv) (mandate_id_hex r) \<longrightarrow> rc_issued_at r \<le> je_at e)))"
  proof -
    assume "rc_mandate_id r \<noteq> 0"
    then have "audit_mandate G r (ai_mandate i) es b ?a1 = Inr a2" using a2 by (simp add: audit_delegation_def)
    then show ?thesis
    proof (rule audit_mandate_passed)
      fix sm m msig c
      assume m: "ai_mandate i = Some (Inr sm)" "to_mandate G (smj_mandate sm) = Inr m"
          "chain_id_of (rc_network r) = Inr c"
        and f: "ad_failed a2 \<longleftrightarrow> ad_failed ?a1 \<or>
          \<not> (verify_mandate G m msig (Some c) = Inr (rc_delegator r) \<and> m_delegator m = rc_delegator r \<and>
             m_agent m = rc_payer r \<and> m_mandate_id m = rc_mandate_id r) \<or>
          b \<and> find_revocation (mandate_id_hex r) (rc_issued_at r) es \<noteq> None \<or>
          within_scope m (rc_pay_to r) (rc_resource r) (case rc_amount r of None \<Rightarrow> 0 | Some x \<Rightarrow> x) \<noteq> None"
      from f p2 have v: "verify_mandate G m msig (Some c) = Inr (m_delegator m)" "m_delegator m = rc_delegator r"
        "m_agent m = rc_payer r" "m_mandate_id m = rc_mandate_id r"
        "within_scope m (rc_pay_to r) (rc_resource r) (case rc_amount r of None \<Rightarrow> 0 | Some x \<Rightarrow> x) = None"
        "b \<Longrightarrow> find_revocation (mandate_id_hex r) (rc_issued_at r) es = None" by auto
      have "find_revocation (mandate_id_hex r) (rc_issued_at r) es' = None" if "ai_events i = Some (Inr es')" for es'
        using le that v(6) by (simp add: load_events_def)
      then show ?thesis using m v(1-5) by (simp add: find_revocation_None) blast
    qed
  qed
  ultimately show ?thesis using lr signed by blast
qed

lemma hex_bytes_print [simp]:
  "hex_bytes (''0x'' @ hex_encode bs) = Inr bs" "hex_bytes (CHR ''0'' # CHR ''x'' # hex_encode bs) = Inr bs"
  using hex_decode_encode [of bs] trim_prefix_append [of "''0x''" "hex_encode bs"] by (simp_all add: hex_bytes_def)

text \<open>What the receipt a gateway issued for a payment under a mandate says, read back.\<close>

lemma issued_receipt_reads:
  assumes "geth_text G" and "geth_nonempty G" and "geth_sig G" and "ge_geth E = G"
    and "issue_receipt E r reqs (Decoded p) key s = (Some srj, s')"
    and "pp_mandate p = Some sm" and "to_mandate G (smj_mandate sm) = Inr m" and "st_amount r = Some x"
  obtains rc sig where "to_receipt G (srj_receipt srj) = Inr rc" "hex_bytes (srj_signature srj) = Inr sig"
    "verify_receipt G rc sig = Inr (key_address G key)" "rc_network rc = ge_network E" "rc_resource rc = pr_resource reqs"
    "rc_payer rc = st_payer r" "rc_pay_to rc = ge_pay_to E" "rc_amount rc = Some x" "rc_mandate_id rc = m_mandate_id m"
    "rc_delegator rc = m_delegator m" "rc_issued_at rc = unix_of (now E s')"
proof -
  obtain b w where rnd: "ge_random E (gw_world s) = (b, w)" by (cases "ge_random E (gw_world s)")
  define rc where "rc n = \<lparr>rc_receipt_id = n, rc_network = ge_network E, rc_resource = pr_resource reqs,
    rc_payer = st_payer r, rc_pay_to = ge_pay_to E, rc_amount = st_amount r, rc_settlement_tx = st_tx_hash r,
    rc_delivery_tx = st_delivery_tx r, rc_mandate_id = m_mandate_id m, rc_delegator = m_delegator m,
    rc_issued_at = unix_of (ge_now E w)\<rparr>" for n
  obtain n where n: "b = Some n" using assms(5) rnd assms(7) by (cases b) (auto simp: issue_receipt_def assms(4,6))
  obtain sig where sig: "sign_receipt G key (rc n) = Inr sig"
    using assms(5,7) rnd n
    by (cases "sign_receipt G key (rc n)") (auto simp: issue_receipt_def assms(4,6) rc_def now_def Let_def)
  have signed: "srj = \<lparr>srj_receipt = receipt_to_json G (rc n), srj_signature = ''0x'' @ hex_encode sig\<rparr>"
    and w: "gw_world s' = w"
    using assms(5,7) rnd n sig by (auto simp: issue_receipt_def assms(4,6) rc_def now_def Let_def)
  have "zero_nil (rc_amount (rc n)) = rc_amount (rc n)" by (simp add: rc_def assms(8) zero_nil_def)
  then have reads: "to_receipt G (receipt_to_json G (rc n)) = Inr (rc n)"
    using to_receipt_print [OF assms(1,2), of "rc n"] by simp
  show thesis
  proof (rule that [of "rc n" sig])
    show "to_receipt G (srj_receipt srj) = Inr (rc n)" by (simp only: signed signed_receipt_json.simps reads)
    show "hex_bytes (srj_signature srj) = Inr sig" by (simp only: signed signed_receipt_json.simps hex_bytes_print)
    show "verify_receipt G (rc n) sig = Inr (key_address G key)" by (rule sign_receipt_verify [OF assms(3) sig])
  qed (simp_all add: rc_def assms(8) now_def w)
qed

text \<open>
  C21. What the audit of an honest receipt comes to: the receipt a gateway issued for a
  settlement of a payment that its mandate policy found entitled, on a network whose chain
  the policy checks signatures for, audited offline against the gateway's address with the
  mandate the payer attached and a list of events, passes exactly when the amount is within
  the mandate's per-payment limit and no event revokes its id before the receipt's time (or
  the mandate's id is zero, which the receipt shows as no mandate).
\<close>

theorem issued_receipt_passes_audit:
  assumes "geth_text G" and "geth_nonempty G" and "geth_sig G" and "ge_geth E = G"
    and "issue_receipt E r (requirements E resource) (Decoded p) key s = (Some srj, s')"
    and "entitled G t mp pc st m" and "pc_payload pc = p" and "pc_requirements pc = requirements E resource"
    and "pp_mandate p = Some sm" and "smj_signature sm = ''0x'' @ hex_encode msig"
    and "mp_chain_id mp = Some c" and "chain_id_of (ge_network E) = Inr c"
    and "st_payer r = m_agent m" and "st_amount r = Some x"
  shows "fst (audit_run G \<lparr>ai_receipt = Inr srj, ai_mandate = Some (Inr sm), ai_events = Some (Inr es),
      ai_gateway = address_hex G (key_address G key), ai_chain = None\<rparr>) = None \<longleftrightarrow>
    m_mandate_id m = 0 \<or> \<not> exceeds x (m_max_amount_per_payment m) \<and>
      find_revocation (''0x'' @ hex_encode (bytes32_bytes (m_mandate_id m))) (unix_of (now E s')) es = None"
proof -
  have m: "to_mandate G (smj_mandate sm) = Inr m" "verify_mandate G m msig (Some c) = Inr (m_delegator m)"
    using assms(6,7,9-11) geth_textD(5) [OF assms(1), of msig] by (auto simp: entitled_def signed_mandate_in_def)
  have res: "pr_resource (requirements E resource) = resource" by (simp add: requirements_def)
  let ?i = "\<lparr>ai_receipt = Inr srj, ai_mandate = Some (Inr sm), ai_events = Some (Inr es),
    ai_gateway = address_hex G (key_address G key), ai_chain = None\<rparr>"
  obtain rc sig where rc: "to_receipt G (srj_receipt srj) = Inr rc" "hex_bytes (srj_signature srj) = Inr sig"
      "verify_receipt G rc sig = Inr (key_address G key)" "rc_network rc = ge_network E" "rc_resource rc = resource"
      "rc_payer rc = m_agent m" "rc_pay_to rc = ge_pay_to E" "rc_amount rc = Some x" "rc_mandate_id rc = m_mandate_id m"
      "rc_delegator rc = m_delegator m" "rc_issued_at rc = unix_of (now E s')"
    by (rule issued_receipt_reads [OF assms(1-5,9) m(1) assms(14)], rule that) (simp_all add: res assms(13))
  have a1: "\<not> ad_failed (audit_signature G (address_hex G (key_address G key)) rc sig)"
    using rc(3) geth_textD(2) [OF assms(1)] by (simp add: audit_signature_def)
  have scope: "within_scope m (ge_pay_to E) resource x = None \<longleftrightarrow> \<not> exceeds x (m_max_amount_per_payment m)"
    using assms(6,8) geth_textD(2) [OF assms(1)]
    by (auto simp: within_scope_def entitled_def scope_allows_def prefix_allowed_iff requirements_def assms(4))
  have lm: "load_mandate G (Inr sm) = Inr (m, msig)"
    by (simp only: load_mandate_def sum.case m(1) assms(10) hex_bytes_print)
  have id: "mandate_id_hex rc = ''0x'' @ hex_encode (bytes32_bytes (m_mandate_id m))" by (simp add: mandate_id_hex_def rc(9))
  obtain a2 where a2: "audit_delegation G ?i rc es True (audit_signature G (ai_gateway ?i) rc sig) = Inr a2"
    "ad_failed a2 \<longleftrightarrow> \<not> (m_mandate_id m = 0 \<or> \<not> exceeds x (m_max_amount_per_payment m) \<and>
      find_revocation (''0x'' @ hex_encode (bytes32_bytes (m_mandate_id m))) (unix_of (now E s')) es = None)"
  proof (cases "m_mandate_id m = 0")
    case True
    then show thesis using that a1 by (simp add: audit_delegation_def rc(9))
  next
    case False
    have "\<exists>a2. audit_delegation G ?i rc es True (audit_signature G (ai_gateway ?i) rc sig) = Inr a2 \<and>
        (ad_failed a2 \<longleftrightarrow> exceeds x (m_max_amount_per_payment m) \<or>
          find_revocation (mandate_id_hex rc) (rc_issued_at rc) es \<noteq> None)"
      using False a1 scope
      by (auto simp: audit_delegation_def audit_mandate_def lm m(2) rc(4-10) assms(12) audit_revocation_failed Let_def)
    then show thesis using that False by (auto simp: id rc(11))
  qed
  show ?thesis using a2 by (simp add: audit_run_def load_receipt_def load_events_def audit_node_def rc(1,2))
qed

text \<open>
  The auditor knows a revocation by the text of its id: a revocation that the gateway
  accepted and journaled, before the receipt, under an id spelled otherwise than 0x and its
  digits (go-ethereum reads it without the prefix too), is not seen by the audit.
\<close>

theorem revocation_missed_by_audit:
  assumes "revoke_mandate E rj s = (None, s')" and "parse_bytes32 (ge_geth E) (rj_mandate_id rj) = Inr (rc_mandate_id r)"
    and "\<not> equal_fold (rj_mandate_id rj) (mandate_id_hex r)"
    and "gw_journal s \<noteq> None" and "journal_ok s" and "disk_ok E" and "\<not> journaled s (rj_mandate_id rj @ '':revocation'')"
    and "find_revocation (mandate_id_hex r) (rc_issued_at r) (journal_entries s) = None"
    and "unix_of (now E s) < rc_issued_at r"
  shows "\<exists>e rv. journal_entries s' = journal_entries s @ [e] \<and> je_kind e = ''revocation'' \<and> je_revocation e = Some rv \<and>
    parse_bytes32 (ge_geth E) (rr_mandate_id rv) = Inr (rc_mandate_id r) \<and> je_at e < rc_issued_at r \<and>
    ad_report (audit_revocation r (journal_entries s') True a) =
      ad_report a @ [(''revocation status'', Passed, ''no revocation before the receipt was issued'')]"
proof -
  obtain mp d where mp: "mandate_policy_of (gateway_policy E s) = Some mp"
    and s': "s' = record_revocation E (rj_mandate_id rj) d (rj_signature rj)
      (s\<lparr>gw_store := mp_revoke mp d (rc_mandate_id r) (gw_store s)\<rparr>)"
    using assms(1,2) by (auto simp: revoke_mandate_def split: option.splits sum.splits)
  let ?s = "s\<lparr>gw_store := mp_revoke mp d (rc_mandate_id r) (gw_store s)\<rparr>"
  let ?rv = "\<lparr>rr_mandate_id = rj_mandate_id rj, rr_delegator = address_hex (ge_geth E) d, rr_signature = rj_signature rj\<rparr>"
  let ?e = "blank_entry\<lparr>je_id := rj_mandate_id rj @ '':revocation'', je_network := ge_network E,
    je_at := unix_of (now E ?s), je_kind := ''revocation'', je_revocation := Some ?rv\<rparr>"
  have pre: "journal_ok ?s" "gw_journal ?s \<noteq> None" "\<not> journaled ?s (je_id ?e)" "journal_entries ?s = journal_entries s"
    using assms(4,5,7) by (simp_all add: journal_ok_def journaled_def journal_entries_def)
  have j: "journal_entries s' = journal_entries s @ [?e]"
    using append_entry_grows(4) [OF pre(1) append_entry_ok [OF assms(6)] pre(2,3)] pre(4)
    by (simp add: s' record_revocation_def)
  have "find_revocation (mandate_id_hex r) (rc_issued_at r) (journal_entries s') = None"
    using assms(3,8) by (auto simp: j find_revocation_None)
  then show ?thesis
    using j assms(2,9) by (intro exI [of _ ?e] exI [of _ ?rv]) (simp add: audit_revocation_def audit_step_def now_def)
qed

section \<open>Witnesses\<close>

text \<open>The receipt of the sample mandate's payment on chain 1, signed by the gateway's key 4.\<close>

definition audited_receipt :: receipt where
  "audited_receipt = sample_receipt\<lparr>rc_network := ''eip155:1''\<rparr>"

definition audited_signature :: "byte list" where
  "audited_signature = (case sign_receipt sample_geth 4 audited_receipt of Inl _ \<Rightarrow> [] | Inr s \<Rightarrow> s)"

definition audited_mandate :: signed_mandate_json where
  "audited_mandate = \<lparr>smj_mandate = mandate_to_json sample_geth sample_mandate,
     smj_signature = ''0x'' @ hex_encode sample_signature\<rparr>"

definition audited_settlement :: tx_receipt where
  "audited_settlement = \<lparr>tr_success = True, tr_logs = [\<lparr>tl_topics = [transfer_topic sample_geth, 2, 3], tl_data = [60]\<rparr>]\<rparr>"

definition audited_inputs :: audit_inputs where
  "audited_inputs = \<lparr>ai_receipt = Inr \<lparr>srj_receipt = receipt_to_json sample_geth audited_receipt,
       srj_signature = ''0x'' @ hex_encode audited_signature\<rparr>,
     ai_mandate = Some (Inr audited_mandate), ai_events = Some (Inr []),
     ai_gateway = address_hex sample_geth (key_address sample_geth 4),
     ai_chain = Some (Inr (\<lambda>tx. if tx = 11 then Inr audited_settlement else Inl ''not found''))\<rparr>"

lemma audited_chain_id:
  "chain_id_from_network ''eip155:1'' = Inr 1" "chain_id_of ''eip155:1'' = Inr 1"
  by code_simp+

lemma audited_signed: "sign_receipt sample_geth 4 audited_receipt = Inr audited_signature"
  using audited_chain_id(1)
  by (simp add: audited_signature_def sign_receipt_def audited_receipt_def) (simp add: sample_geth_def)

lemma audited_load_receipt: "load_receipt sample_geth audited_inputs = Inr (audited_receipt, audited_signature)"
  using to_receipt_print [OF sample_geth_text sample_geth_nonempty, of audited_receipt]
  by (simp add: load_receipt_def audited_inputs_def)
    (simp add: audited_receipt_def sample_receipt_def zero_nil_def)

lemma audited_load_mandate: "load_mandate sample_geth (Inr audited_mandate) = Inr (sample_mandate, sample_signature)"
  using sample_signed_in [of "''60''"]
  by (simp add: load_mandate_def audited_mandate_def signed_mandate_in_def sample_payload_def)

lemma audited_verifies: "verify_receipt sample_geth audited_receipt audited_signature = Inr (key_address sample_geth 4)"
  by (rule sign_receipt_verify [OF sample_geth_sig audited_signed])

lemma audited_transfer: "has_transfer sample_geth audited_settlement 3 (Some 60)"
  by code_simp

lemma audited_scope: "within_scope sample_mandate 3 ''/doc'' 60 = None"
  by code_simp

theorem audit_pass_witness:
  "\<exists>a. audit_run sample_geth audited_inputs = (None, a) \<and>
     verify_receipt sample_geth audited_receipt audited_signature = Inr (key_address sample_geth 4)"
proof -
  have gw: "ai_gateway audited_inputs = address_hex sample_geth (key_address sample_geth 4)"
    "ai_mandate audited_inputs = Some (Inr audited_mandate)" "load_events audited_inputs = Inr ([], True)"
    "ai_chain audited_inputs = Some (Inr (\<lambda>tx. if tx = 11 then Inr audited_settlement else Inl ''not found''))"
    by (simp_all add: audited_inputs_def load_events_def)
  have sel: "rc_network audited_receipt = ''eip155:1''" "rc_delegator audited_receipt = m_delegator sample_mandate"
    "rc_payer audited_receipt = m_agent sample_mandate" "rc_mandate_id audited_receipt = m_mandate_id sample_mandate"
    "rc_pay_to audited_receipt = 3" "rc_resource audited_receipt = ''/doc''" "rc_amount audited_receipt = Some 60"
    "rc_settlement_tx audited_receipt = 11" "rc_delivery_tx audited_receipt = 0" "m_mandate_id sample_mandate \<noteq> 0"
    by (simp_all add: audited_receipt_def sample_receipt_def sample_mandate_def)
  obtain a where a: "audit_run sample_geth audited_inputs = (None, a)"
    by (simp add: audit_run_def audited_load_receipt gw audit_signature_def audited_verifies audit_delegation_def sel
        audit_mandate_def audited_load_mandate audited_chain_id sample_verify audited_scope audit_revocation_def
        audit_node_def audit_on_chain_def audited_transfer)
      (simp add: audited_settlement_def Let_def)
  show ?thesis
    using audit_pass_sound [OF a] a gw(1) audited_load_receipt by simp
qed

text \<open>The payment of the sample mandate at a gateway on chain 1, and its settlement.\<close>

definition audited_env :: "nat gateway_env" where
  "audited_env = (sample_env AlwaysVerify)\<lparr>ge_network := ''eip155:1''\<rparr>"

definition audited_context :: payment_context where
  "audited_context = (sample_context ''60'')\<lparr>pc_requirements := requirements audited_env ''/doc''\<rparr>"

definition audited_record :: settlement_record where
  "audited_record = \<lparr>st_payer = 2, st_amount = Some 60, st_tx_hash = 11, st_time = 1000, st_delivery_tx = 0\<rparr>"

lemma audited_entitled: "entitled sample_geth 1000 sample_policy audited_context fresh_store sample_mandate"
  using sample_entitled [of "''60''"]
  by (simp add: entitled_def signed_mandate_in_def paid_by_agent_def audited_context_def scope_allows_def
      sample_context_def) (simp add: sample_mandate_def)

theorem issued_receipt_witness:
  "\<exists>srj s'. issue_receipt audited_env audited_record (requirements audited_env ''/doc'') (Decoded (sample_payload ''60''))
       4 (sample_gateway None) = (Some srj, s') \<and>
     fst (audit_run sample_geth \<lparr>ai_receipt = Inr srj, ai_mandate = Some (Inr audited_mandate), ai_events = Some (Inr []),
       ai_gateway = address_hex sample_geth (key_address sample_geth 4), ai_chain = None\<rparr>) = None"
proof -
  have sel: "ge_geth audited_env = sample_geth" "ge_network audited_env = ''eip155:1''"
    "ge_random audited_env = (\<lambda>w. (Some 5, w))" by (simp_all add: audited_env_def sample_env_def)
  have sgn: "\<exists>sg. sign_receipt sample_geth 4 rc = Inr sg" if "rc_network rc = ''eip155:1''" for rc
    using that audited_chain_id(1) by (simp add: sign_receipt_def) (simp add: sample_geth_def)
  then obtain f where f: "\<And>rc. rc_network rc = ''eip155:1'' \<Longrightarrow> sign_receipt sample_geth 4 rc = Inr (f rc)" by metis
  have ctx: "pc_payload audited_context = sample_payload ''60''"
    "pc_requirements audited_context = requirements audited_env ''/doc''"
    "pp_mandate (sample_payload ''60'') = Some audited_mandate" "mp_chain_id sample_policy = Some 1"
    "smj_signature audited_mandate = ''0x'' @ hex_encode sample_signature"
    by (simp_all add: audited_context_def sample_context_def sample_payload_def audited_mandate_def sample_policy_def
        new_mandate_policy_def)
  obtain srj s' where i: "issue_receipt audited_env audited_record (requirements audited_env ''/doc'')
      (Decoded (sample_payload ''60'')) 4 (sample_gateway None) = (Some srj, s')"
    by (simp add: issue_receipt_def sel Let_def f case_prod_beta)
  have "fst (audit_run sample_geth \<lparr>ai_receipt = Inr srj, ai_mandate = Some (Inr audited_mandate), ai_events = Some (Inr []),
       ai_gateway = address_hex sample_geth (key_address sample_geth 4), ai_chain = None\<rparr>) = None"
    by (subst issued_receipt_passes_audit [OF sample_geth_text sample_geth_nonempty sample_geth_sig sel(1) i audited_entitled
          ctx(1,2,3,5,4), where x = 60])
      (simp_all add: sel audited_chain_id audited_record_def sample_mandate_def exceeds_def limit_set_def)
  then show ?thesis using i by blast
qed

text \<open>The revocation of the sample mandate, its id written without the prefix.\<close>

definition bare_revocation :: revocation_json where
  "bare_revocation = sample_revocation\<lparr>rj_mandate_id := hex_encode (bytes32_bytes 7)\<rparr>"

lemma bare_id_read: "parse_bytes32 sample_geth (hex_encode (bytes32_bytes 7)) = Inr 7"
  by code_simp

lemma bare_id_differs: "\<not> equal_fold (hex_encode (bytes32_bytes 7)) (''0x'' @ hex_encode (bytes32_bytes 7))"
  by code_simp

theorem revocation_missed_witness:
  "\<exists>s'. revoke_mandate (sample_env sample_chain_policy) bare_revocation (sample_gateway (Some new_journal)) = (None, s') \<and>
     ad_report (audit_revocation (audited_receipt\<lparr>rc_issued_at := 2000\<rparr>) (journal_entries s') True new_auditor) =
       [(''revocation status'', Passed, ''no revocation before the receipt was issued'')]"
proof -
  let ?E = "sample_env sample_chain_policy"
  let ?s = "sample_gateway (Some new_journal) :: nat gateway"
  let ?r = "audited_receipt\<lparr>rc_issued_at := 2000\<rparr>"
  have chain: "mp_chain_id sample_policy = Some 1" by (simp add: sample_policy_def new_mandate_policy_def)
  have i: "parse_bytes32 sample_geth (rj_mandate_id bare_revocation) = Inr 7"
    using bare_id_read by (simp add: bare_revocation_def)
  have mp: "mandate_policy_of (gateway_policy ?E ?s) = Some sample_policy"
    using enforcesD [OF sample_enforces, of ?s] by blast
  have sg: "rj_signature bare_revocation = rj_signature sample_revocation" by (simp add: bare_revocation_def)
  obtain s' where s': "revoke_mandate ?E bare_revocation ?s = (None, s')"
    using mp i sample_revocation_verifies chain by (simp add: revoke_mandate_def sg)
  have id7: "rc_mandate_id ?r = 7" "rc_issued_at ?r = 2000" by (simp_all add: audited_receipt_def sample_receipt_def)
  have ne: "\<not> equal_fold (rj_mandate_id bare_revocation) (mandate_id_hex ?r)"
    using bare_id_differs by (simp add: bare_revocation_def mandate_id_hex_def id7)
  have j: "gw_journal ?s \<noteq> None" "journal_ok ?s" "journal_entries ?s = []"
    "\<not> journaled ?s (rj_mandate_id bare_revocation @ '':revocation'')"
    by (simp_all add: sample_gateway_def journal_ok_def journaled_def journal_entries_def entries_def new_journal_def
        mem_wf_def empty_mem_def)
  have "ad_report (audit_revocation ?r (journal_entries s') True new_auditor) =
      ad_report new_auditor @ [(''revocation status'', Passed, ''no revocation before the receipt was issued'')]"
    using revocation_missed_by_audit [OF s' _ ne j(1,2) _ j(4), where a = new_auditor] i
    by (auto simp: id7 j(3) now_def unix_of_def ns_per_second_def)
  then show ?thesis using s' by (simp add: new_auditor_def)
qed

end
