(* ===== verification/Reserve.thy ===== *)
theory Reserve
  imports AppendLog GoText
begin

text \<open>
  The off-chain reserve ledger (\<open>reserve/reserve.go\<close>): an append-only file of signed decimal
  amounts whose sum is restored on open. The lemmas show that a restart restores the total
  and that what an acknowledged append adds is what a restart finds.
\<close>

record reserve_entry =
  re_amount :: string
  re_reason :: string
  re_at :: int

record reserve_ledger =
  rl_file :: "reserve_entry log_file"
  rl_total :: int

text \<open>One line of \<open>replay\<close>: a bad amount is skipped.\<close>

definition add_entry :: "int \<Rightarrow> reserve_entry \<Rightarrow> int" where
  "add_entry t e = (case set_string10 (re_amount e) of None \<Rightarrow> t | Some a \<Rightarrow> t + a)"

definition reserve_replay :: "reserve_entry log_file \<Rightarrow> int" where
  "reserve_replay f = foldl add_entry 0 (parsed f)"

definition reserve_open :: "reserve_entry log_file option \<Rightarrow> reserve_ledger result" where
  "reserve_open fo =
     (case fo of
        None \<Rightarrow> Inl ''reserve: open''
      | Some f \<Rightarrow> Inr \<lparr>rl_file = f, rl_total = reserve_replay f\<rparr>)"

definition reserve_total :: "reserve_ledger \<Rightarrow> int" where
  "reserve_total l = rl_total l"

definition reserve_append ::
    "io \<Rightarrow> int \<Rightarrow> int \<Rightarrow> string \<Rightarrow> reserve_ledger \<Rightarrow> string option \<times> reserve_ledger" where
  "reserve_append out now amount reason l =
     (let (f, ok) = file_write out \<lparr>re_amount = big_show amount, re_reason = reason, re_at = unix_of now\<rparr>
                      (rl_file l) in
      if ok then (None, l\<lparr>rl_file := f, rl_total := rl_total l + amount\<rparr>)
      else (Some (if out = IoSyncFail then ''reserve: fsync'' else ''reserve: write''), l\<lparr>rl_file := f\<rparr>))"

section \<open>The ledger is a replayed log\<close>

interpretation rlog: replayed_log clean_file parsed file_write add_entry 0 ..

definition reserve_synced :: "reserve_ledger \<Rightarrow> bool" where
  "reserve_synced l \<longleftrightarrow> clean_file (rl_file l) \<and> rl_total l = reserve_replay (rl_file l)"

lemma reserve_synced_iff: "reserve_synced l \<longleftrightarrow> rlog.synced (rl_file l) (rl_total l)"
  by (simp add: reserve_synced_def rlog.synced_def rlog.replayed_def reserve_replay_def)

text \<open>A successful movement: when, how much and why.\<close>

type_synonym movement = "int \<times> int \<times> string"

definition reserve_step :: "reserve_ledger \<Rightarrow> movement \<Rightarrow> reserve_ledger" where
  "reserve_step l mv = snd (reserve_append IoOk (fst mv) (fst (snd mv)) (snd (snd mv)) l)"

interpretation rmach: machine reserve_step "\<lambda>_ _. True" reserve_synced
proof unfold_locales
  fix l mv
  assume "reserve_synced l"
  then show "reserve_synced (reserve_step l mv)"
    using rlog.synced_write [of "rl_file l" "rl_total l"
        "\<lparr>re_amount = big_show (fst (snd mv)), re_reason = snd (snd mv), re_at = unix_of (fst mv)\<rparr>"]
    by (simp add: reserve_step_def reserve_append_def reserve_synced_iff add_entry_def file_write_def)
qed

lemma reserve_allowed: "allowed reserve_step (\<lambda>_ _. True) l mvs"
  by (induction mvs arbitrary: l) simp_all

lemma reserve_run_total:
  "rl_total (run reserve_step l mvs) = rl_total l + sum_list (map (\<lambda>mv. fst (snd mv)) mvs)"
  by (induction mvs arbitrary: l) (simp_all add: reserve_step_def reserve_append_def file_write_def)

section \<open>Properties\<close>

text \<open>
  The reserve total survives restarts: opened over a file ending in a newline, after
  any successful movements the total is the opening total plus their sum, and reopening
  the file gives that same total, decimal text and negative amounts included.
\<close>

theorem reserve_total_restored:
  assumes "clean_file f" and "reserve_open (Some f) = Inr l"
  shows "reserve_total (run reserve_step l mvs)
      = reserve_total l + sum_list (map (\<lambda>mv. fst (snd mv)) mvs) \<and>
    reserve_open (Some (rl_file (run reserve_step l mvs))) = Inr (run reserve_step l mvs)"
proof -
  have "reserve_synced l" using assms by (auto simp: reserve_open_def reserve_synced_def)
  then have "reserve_synced (run reserve_step l mvs)" by (rule rmach.run_inv) (rule reserve_allowed)
  then show ?thesis
    by (cases "run reserve_step l mvs")
      (use reserve_run_total [of l mvs] in \<open>simp add: reserve_total_def reserve_open_def reserve_synced_def\<close>)
qed

theorem reserve_total_witness:
  "reserve_total (run reserve_step \<lparr>rl_file = [], rl_total = 0\<rparr> [(0, 1000, ''deposit''), (5, -300, ''redemption'')])
     = 700"
  using reserve_total_restored [of "[]" "\<lparr>rl_file = [], rl_total = 0\<rparr>"
      "[(0, 1000, ''deposit''), (5, -300, ''redemption'')]"]
  by (simp add: clean_file_def reserve_open_def reserve_replay_def parsed_def reserve_total_def)

end
