(* ===== verification/Ledger.thy ===== *)
theory Ledger
  imports Token
begin

text \<open>
  The off-chain ledger (\<open>ledger/ledger.go\<close>, \<open>ledger/incremental.go\<close>): it rebuilds supply
  and balances from the Transfer logs of a token, reconciles them with the contract, and
  follows the chain incrementally with a pending window it can rewind on a reorg.

  The RPC reader is external: a record of what it answers during one call, errors
  included. A map the code iterates over is an association list. The lemmas show that a
  reconciliation against the tKRW contract never reports a mismatch, and that the
  incremental view equals the full one, for extensions of the chain and for the reorgs the
  rewind detects.
\<close>

section \<open>Data\<close>

record raw_log =
  rlg_topics :: "bytes32 list"
  rlg_data :: "byte list"
  rlg_block :: nat
  rlg_block_hash :: bytes32

record ledger_event =
  ev_from :: address
  ev_to :: address
  ev_value :: int

record block_record =
  br_number :: nat
  br_hash :: bytes32
  br_events :: "ledger_event list"

text \<open>The finalized fields of Ledger, which are also the fields of Snapshot.\<close>

record aggregates =
  ag_minted :: int
  ag_burned :: int
  ag_balances :: "(address \<times> int) list"
  ag_events :: int

record ledger =
  lg_chain :: bool
  lg_finality_depth :: nat
  lg_agg :: aggregates
  lg_pending :: "block_record list"
  lg_last_seen :: nat
  lg_baseline :: bool
  lg_finalized_block :: nat
  lg_finalized_hash :: bytes32
  lg_has_checkpoint :: bool

text \<open>What the node answers: the head, a header's hash, and the logs of a range of blocks.\<close>

record chain_reader =
  ch_head :: "nat result"
  ch_hash :: "nat \<Rightarrow> bytes32 result"
  ch_logs :: "nat \<Rightarrow> nat option \<Rightarrow> raw_log list result"

record token_reader =
  tr_total_supply :: "int result"
  tr_balance_of :: "address \<Rightarrow> int result"

definition default_finality_depth :: nat where
  "default_finality_depth = 12"

definition empty_agg :: aggregates where
  "empty_agg = \<lparr>ag_minted = 0, ag_burned = 0, ag_balances = [], ag_events = 0\<rparr>"

definition ledger_new :: ledger where
  "ledger_new = \<lparr>lg_chain = False, lg_finality_depth = default_finality_depth, lg_agg = empty_agg,
     lg_pending = [], lg_last_seen = 0, lg_baseline = False, lg_finalized_block = 0,
     lg_finalized_hash = 0, lg_has_checkpoint = False\<rparr>"

definition ledger_new_chain :: "nat \<Rightarrow> ledger" where
  "ledger_new_chain depth =
     ledger_new\<lparr>lg_chain := True,
       lg_finality_depth := if depth > 0 then depth else default_finality_depth\<rparr>"

section \<open>ledger.go\<close>

definition parse_transfer_log :: "geth \<Rightarrow> raw_log \<Rightarrow> ledger_event option" where
  "parse_transfer_log G lg =
     (if length (rlg_topics lg) \<noteq> 3 then None
      else Some \<lparr>ev_from = bytes_to_address G (bytes32_bytes (rlg_topics lg ! 1)),
                 ev_to = bytes_to_address G (bytes32_bytes (rlg_topics lg ! 2)),
                 ev_value = int (bytes_nat (rlg_data lg))\<rparr>)"

definition balance_in :: "(address \<times> int) list \<Rightarrow> address \<Rightarrow> int" where
  "balance_in m a = (case map_of m a of None \<Rightarrow> 0 | Some b \<Rightarrow> b)"

definition add_balance :: "(address \<times> int) list \<Rightarrow> address \<Rightarrow> int \<Rightarrow> (address \<times> int) list" where
  "add_balance m a delta = AList.update a (balance_in m a + delta) m"

definition apply_transfer :: "aggregates \<Rightarrow> ledger_event \<Rightarrow> aggregates" where
  "apply_transfer g ev =
     (let g1 = (if ev_from ev = 0 then g\<lparr>ag_minted := ag_minted g + ev_value ev\<rparr>
                else g\<lparr>ag_balances := add_balance (ag_balances g) (ev_from ev) (- ev_value ev)\<rparr>) in
      if ev_to ev = 0 then g1\<lparr>ag_burned := ag_burned g1 + ev_value ev\<rparr>
      else g1\<lparr>ag_balances := add_balance (ag_balances g1) (ev_to ev) (ev_value ev)\<rparr>)"

text \<open>\<open>applyEvent\<close> with the \<open>l.Events++\<close> every caller puts after it.\<close>

definition count_event :: "aggregates \<Rightarrow> ledger_event \<Rightarrow> aggregates" where
  "count_event g ev = (apply_transfer g ev)\<lparr>ag_events := ag_events (apply_transfer g ev) + 1\<rparr>"

definition fold_logs :: "geth \<Rightarrow> aggregates \<Rightarrow> raw_log list \<Rightarrow> aggregates" where
  "fold_logs G g logs =
     foldl (\<lambda>g lg. case parse_transfer_log G lg of None \<Rightarrow> g | Some ev \<Rightarrow> count_event g ev) g logs"

definition ledger_sync :: "geth \<Rightarrow> chain_reader \<Rightarrow> ledger \<Rightarrow> string option \<times> ledger" where
  "ledger_sync G r l =
     (case ch_logs r 0 None of
        Inl e \<Rightarrow> (Some ''ledger: filter logs'', l)
      | Inr logs \<Rightarrow> (None, l\<lparr>lg_agg := fold_logs G empty_agg logs\<rparr>))"

record report =
  rp_on_chain_supply :: int
  rp_ledger_supply :: int
  rp_sum_balances :: int
  rp_minted :: int
  rp_burned :: int
  rp_accounts :: nat
  rp_events :: int
  rp_mismatches :: "string list"

definition report_ok :: "report \<Rightarrow> bool" where
  "report_ok r \<longleftrightarrow> rp_mismatches r = []"

text \<open>The per-account loop, over the sorted addresses; a failing read ends the run.\<close>

fun check_accounts :: "token_reader \<Rightarrow> (address \<times> int) list \<Rightarrow> address list \<Rightarrow> string list result" where
  "check_accounts tok m [] = Inr []"
| "check_accounts tok m (a # as) =
     (case tr_balance_of tok a of
        Inl e \<Rightarrow> Inl ''ledger: balanceOf''
      | Inr b \<Rightarrow> (case check_accounts tok m as of
          Inl e \<Rightarrow> Inl e
        | Inr ms \<Rightarrow> Inr (if b \<noteq> balance_in m a
                        then ''account ledger balance != on-chain balance'' # ms else ms)))"

definition reconcile :: "geth \<Rightarrow> chain_reader \<Rightarrow> token_reader \<Rightarrow> ledger \<Rightarrow> report result \<times> ledger" where
  "reconcile G r tok l0 =
     (case ledger_sync G r l0 of
        (Some e, l) \<Rightarrow> (Inl e, l)
      | (None, l) \<Rightarrow> (case tr_total_supply tok of
          Inl e \<Rightarrow> (Inl ''ledger: totalSupply'', l)
        | Inr onchain \<Rightarrow>
           (let g = lg_agg l;
                supply = ag_minted g - ag_burned g;
                total_bal = sum_list (map snd (ag_balances g));
                m1 = (if supply \<noteq> onchain then [''ledger supply (minted-burned) != on-chain totalSupply''] else []);
                m2 = (if total_bal \<noteq> onchain
                      then [''sum of account balances != on-chain totalSupply''] else []) in
            case check_accounts tok (ag_balances g) (sort (map fst (ag_balances g))) of
              Inl e \<Rightarrow> (Inl e, l)
            | Inr m3 \<Rightarrow> (Inr \<lparr>rp_on_chain_supply = onchain, rp_ledger_supply = supply,
                             rp_sum_balances = total_bal, rp_minted = ag_minted g, rp_burned = ag_burned g,
                             rp_accounts = length (ag_balances g), rp_events = ag_events g,
                             rp_mismatches = m1 @ m2 @ m3\<rparr>, l))))"

section \<open>incremental.go\<close>

definition finalized_target :: "nat \<Rightarrow> nat \<Rightarrow> nat" where
  "finalized_target head depth = (if head < depth then 0 else head - depth)"

definition snapshot :: "ledger \<Rightarrow> aggregates" where
  "snapshot l = foldl count_event (lg_agg l) (concat (map br_events (lg_pending l)))"

definition snapshot_supply :: "aggregates \<Rightarrow> int" where
  "snapshot_supply s = ag_minted s - ag_burned s"

definition trusted_head :: "ledger \<Rightarrow> nat" where
  "trusted_head l =
     (if lg_pending l \<noteq> [] then br_number (last (lg_pending l)) else lg_finalized_block l)"

text \<open>
  \<open>rewindReorg\<close>: the loop over the pending window, newest first, on the reversed list. It
  returns the error, if the walk stopped at a canonical block, and the ledger.
\<close>

fun rewind_pending :: "chain_reader \<Rightarrow> block_record list \<Rightarrow> ledger \<Rightarrow> (string option \<times> bool) \<times> ledger" where
  "rewind_pending r [] l = ((None, False), l)"
| "rewind_pending r (b # older) l =
     (case ch_hash r (br_number b) of
        Inl e \<Rightarrow> ((Some ''ledger: header'', False), l)
      | Inr h \<Rightarrow>
          if h = br_hash b then ((None, True), l)
          else (let l1 = l\<lparr>lg_pending := rev older\<rparr>;
                    l2 = l1\<lparr>lg_last_seen := trusted_head l1\<rparr> in
                rewind_pending r older l2))"

definition rewind_reorg :: "chain_reader \<Rightarrow> ledger \<Rightarrow> string option \<times> ledger" where
  "rewind_reorg r l0 =
     (case rewind_pending r (rev (lg_pending l0)) l0 of
        ((Some e, _), l) \<Rightarrow> (Some e, l)
      | ((None, True), l) \<Rightarrow> (None, l)
      | ((None, False), l) \<Rightarrow>
          if lg_has_checkpoint l then
            (case ch_hash r (lg_finalized_block l) of
               Inl e \<Rightarrow> (Some ''ledger: header'', l)
             | Inr h \<Rightarrow>
                 if h \<noteq> lg_finalized_hash l then (Some ''ledger: reorg deeper than finality depth'', l)
                 else (None, l\<lparr>lg_last_seen := trusted_head l\<rparr>))
          else (None, l\<lparr>lg_last_seen := trusted_head l\<rparr>))"

definition append_event :: "block_record list \<Rightarrow> nat \<Rightarrow> bytes32 \<Rightarrow> ledger_event \<Rightarrow> block_record list" where
  "append_event pending n h ev =
     (if pending \<noteq> [] \<and> br_number (last pending) = n
      then butlast pending @ [(last pending)\<lparr>br_events := br_events (last pending) @ [ev]\<rparr>]
      else pending @ [\<lparr>br_number = n, br_hash = h, br_events = [ev]\<rparr>])"

definition append_range :: "geth \<Rightarrow> chain_reader \<Rightarrow> nat \<Rightarrow> nat \<Rightarrow> ledger \<Rightarrow> string option \<times> ledger" where
  "append_range G r from to l =
     (case ch_logs r from (Some to) of
        Inl e \<Rightarrow> (Some ''ledger: filter logs'', l)
      | Inr logs \<Rightarrow> (None, l\<lparr>lg_pending :=
          foldl (\<lambda>p lg. case parse_transfer_log G lg of None \<Rightarrow> p
                       | Some ev \<Rightarrow> append_event p (rlg_block lg) (rlg_block_hash lg) ev)
                (lg_pending l) logs\<rparr>))"

definition merge_finalized :: "chain_reader \<Rightarrow> nat \<Rightarrow> ledger \<Rightarrow> string option \<times> ledger" where
  "merge_finalized r target l =
     (let done = filter (\<lambda>b. br_number b \<le> target) (lg_pending l);
          l1 = l\<lparr>lg_agg := foldl count_event (lg_agg l) (concat (map br_events done)),
                 lg_pending := filter (\<lambda>b. \<not> br_number b \<le> target) (lg_pending l)\<rparr> in
      if \<not> lg_has_checkpoint l1 \<or> target > lg_finalized_block l1 then
        (case ch_hash r target of
           Inl e \<Rightarrow> (Some ''ledger: header'', l1)
         | Inr h \<Rightarrow> (None, l1\<lparr>lg_finalized_block := target, lg_finalized_hash := h,
                            lg_has_checkpoint := True\<rparr>))
      else (None, l1))"

definition sync_incremental :: "geth \<Rightarrow> chain_reader \<Rightarrow> ledger \<Rightarrow> string option \<times> ledger" where
  "sync_incremental G r l0 =
     (if \<not> lg_chain l0 then (Some ''ledger: SyncIncremental requires a ChainReader (use NewChain)'', l0)
      else case ch_head r of
        Inl e \<Rightarrow> (Some ''ledger: head header'', l0)
      | Inr head \<Rightarrow> (case rewind_reorg r l0 of
          (Some e, l) \<Rightarrow> (Some e, l)
        | (None, l) \<Rightarrow>
           (let from = (if lg_baseline l then lg_last_seen l + 1 else 0) in
            case (if from \<le> head then append_range G r from head l else (None, l)) of
              (Some e, l') \<Rightarrow> (Some e, l')
            | (None, l') \<Rightarrow>
                merge_finalized r (finalized_target head (lg_finality_depth l'))
                  (l'\<lparr>lg_last_seen := head, lg_baseline := True\<rparr>))))"

section \<open>Reconciliation\<close>

text \<open>What one event does to the balances, the supply and the sum of the balances.\<close>

definition agg_wf :: "aggregates \<Rightarrow> bool" where
  "agg_wf g \<longleftrightarrow> distinct (map fst (ag_balances g)) \<and>
     sum_list (map snd (ag_balances g)) = ag_minted g - ag_burned g"

lemma balance_in_add [simp]:
  "balance_in (add_balance m a d) b = (if b = a then balance_in m a + d else balance_in m b)"
  by (simp add: balance_in_def add_balance_def)

lemma distinct_add_balance: "distinct (map fst m) \<Longrightarrow> distinct (map fst (add_balance m a d))"
  by (simp add: add_balance_def AList.distinct_update)

lemma sum_add_balance:
  "distinct (map fst m) \<Longrightarrow> sum_list (map snd (add_balance m a d)) = sum_list (map snd m) + d"
  using sum_list_map_AList_update [of m snd a "balance_in m a + d"]
  by (simp add: add_balance_def balance_in_def split: option.splits)

lemma agg_wf_apply [go_inv]: "agg_wf g \<Longrightarrow> agg_wf (apply_transfer g ev)"
  by (auto simp: agg_wf_def apply_transfer_def Let_def distinct_add_balance sum_add_balance)

lemma agg_wf_count [go_inv]: "agg_wf g \<Longrightarrow> agg_wf (count_event g ev)"
  using agg_wf_apply [of g ev] by (simp add: count_event_def agg_wf_def)

lemma agg_wf_empty [simp]: "agg_wf empty_agg"
  by (simp add: agg_wf_def empty_agg_def)

text \<open>The aggregates show a token: its supply and every balance.\<close>

definition shows_token :: "aggregates \<Rightarrow> token \<Rightarrow> bool" where
  "shows_token g t \<longleftrightarrow> agg_wf g \<and> ag_minted g - ag_burned g = int (tk_total_supply t) \<and>
     (\<forall>a. balance_in (ag_balances g) a = int (tk_balance_of t a)) \<and> tk_balance_of t 0 = 0 \<and>
     ag_events g = int (length (tk_log t))"

definition event_of :: "transfer_event \<Rightarrow> ledger_event" where
  "event_of e = \<lparr>ev_from = te_from e, ev_to = te_to e, ev_value = int (te_value e)\<rparr>"

lemma shows_token_step:
  assumes g: "shows_token g t" and log: "tk_log t' = tk_log t @ [e]"
    and step: "(te_from e = 0 \<and> te_to e \<noteq> 0 \<and> tk_total_supply t' = tk_total_supply t + te_value e \<and>
        tk_balance_of t' = credit (tk_balance_of t) (te_to e) (te_value e))
      \<or> (te_to e = 0 \<and> te_value e \<le> tk_balance_of t (te_from e) \<and> te_value e \<le> tk_total_supply t \<and>
        tk_total_supply t' = tk_total_supply t - te_value e \<and>
        tk_balance_of t' = debit (tk_balance_of t) (te_from e) (te_value e))
      \<or> (te_to e \<noteq> 0 \<and> te_value e \<le> tk_balance_of t (te_from e) \<and> tk_total_supply t' = tk_total_supply t \<and>
        tk_balance_of t' = credit (debit (tk_balance_of t) (te_from e) (te_value e)) (te_to e) (te_value e))"
  shows "shows_token (count_event g (event_of e)) t'"
proof -
  have wf: "agg_wf (count_event g (event_of e))" using g by (simp add: shows_token_def agg_wf_count)
  have b0: "tk_balance_of t 0 = 0" and bal: "balance_in (ag_balances g) a = int (tk_balance_of t a)"
    and sup: "ag_minted g - ag_burned g = int (tk_total_supply t)"
    and evs: "ag_events g = int (length (tk_log t))" for a
    using g by (auto simp: shows_token_def)
  have "ag_minted (count_event g (event_of e)) - ag_burned (count_event g (event_of e))
      = int (tk_total_supply t')"
    using step sup b0 by (auto simp: count_event_def apply_transfer_def event_of_def Let_def)
  moreover have "balance_in (ag_balances (count_event g (event_of e))) a = int (tk_balance_of t' a)" for a
    using step bal b0
    by (auto simp: count_event_def apply_transfer_def event_of_def Let_def credit_def debit_def)
  moreover have "tk_balance_of t' 0 = 0"
    using step b0 by (auto simp: credit_def debit_def)
  moreover have "ag_events (count_event g (event_of e)) = int (length (tk_log t'))"
    using log evs by (auto simp: count_event_def apply_transfer_def Let_def)
  ultimately show ?thesis using wf by (simp add: shows_token_def)
qed

definition log_view :: "token \<Rightarrow> aggregates" where
  "log_view t = foldl count_event empty_agg (map event_of (tk_log t))"

lemma log_view_snoc:
  "tk_log t' = tk_log t @ [e] \<Longrightarrow> log_view t' = count_event (log_view t) (event_of e)"
  by (simp add: log_view_def)

lemma log_view_moves:
  assumes "shows_token (log_view t) t" and "moves t t'"
  shows "shows_token (log_view t') t'"
  using assms(2) [unfolded moves_def]
proof (elim disjE exE conjE)
  assume "tk_balance_of t' = tk_balance_of t" "tk_total_supply t' = tk_total_supply t" "tk_log t' = tk_log t"
  then show ?thesis using assms(1) by (simp add: shows_token_def log_view_def)
next
  fix a v
  assume "tk_log t' = tk_log t @ [\<lparr>te_from = 0, te_to = a, te_value = v\<rparr>]" and "a \<noteq> 0"
    "tk_total_supply t' = tk_total_supply t + v" "tk_balance_of t' = credit (tk_balance_of t) a v"
  then show ?thesis
    using shows_token_step [OF assms(1), of t' "\<lparr>te_from = 0, te_to = a, te_value = v\<rparr>"]
    by (simp add: log_view_snoc)
next
  fix a v
  assume "tk_log t' = tk_log t @ [\<lparr>te_from = a, te_to = 0, te_value = v\<rparr>]" and "v \<le> tk_balance_of t a"
    "v \<le> tk_total_supply t" "tk_total_supply t' = tk_total_supply t - v"
    "tk_balance_of t' = debit (tk_balance_of t) a v"
  then show ?thesis
    using shows_token_step [OF assms(1), of t' "\<lparr>te_from = a, te_to = 0, te_value = v\<rparr>"]
    by (simp add: log_view_snoc)
next
  fix a b v
  assume "tk_log t' = tk_log t @ [\<lparr>te_from = a, te_to = b, te_value = v\<rparr>]" and "b \<noteq> 0"
    "v \<le> tk_balance_of t a" "tk_total_supply t' = tk_total_supply t"
    "tk_balance_of t' = credit (debit (tk_balance_of t) a v) b v"
  then show ?thesis
    using shows_token_step [OF assms(1), of t' "\<lparr>te_from = a, te_to = b, te_value = v\<rparr>"]
    by (simp add: log_view_snoc)
qed

interpretation view: machine "token_step G ec" "\<lambda>_ _. True" "\<lambda>t. shows_token (log_view t) t" for G ec
  by unfold_locales (rule log_view_moves [OF _ token_step_moves])

text \<open>
  The contract's events as the node serves them: three topics, the addresses padded to 32
  bytes, and the value as 32 big-endian bytes. \<open>geth_address\<close> is what BytesToAddress does.
\<close>

definition geth_address :: "geth \<Rightarrow> bool" where
  "geth_address G \<longleftrightarrow> (\<forall>a. bytes_to_address G (bytes32_bytes (ucast (a :: address))) = a)"

definition encodes :: "raw_log \<Rightarrow> transfer_event \<Rightarrow> bool" where
  "encodes lg e \<longleftrightarrow> (\<exists>topic. rlg_topics lg = [topic, ucast (te_from e), ucast (te_to e)]) \<and>
     rlg_data lg = replicate (32 - length (nat_bytes (te_value e))) 0 @ nat_bytes (te_value e)"

lemma parse_encoded: "geth_address G \<Longrightarrow> encodes lg e \<Longrightarrow> parse_transfer_log G lg = Some (event_of e)"
  by (auto simp: parse_transfer_log_def encodes_def geth_address_def event_of_def bytes_nat_append)

lemma fold_logs_encoded:
  assumes "geth_address G" and "list_all2 encodes logs es"
  shows "fold_logs G g logs = foldl count_event g (map event_of es)"
  using assms(2) unfolding fold_logs_def
  by (induction arbitrary: g rule: list_all2_induct) (simp_all add: parse_encoded [OF assms(1)])

lemma check_accounts_match:
  assumes "\<forall>a\<in>set as. tr_balance_of tok a = Inr (balance_in m a)"
  shows "check_accounts tok m as = Inr []"
  using assms by (induction as) simp_all

lemma reconcile_run_facts:
  assumes "geth_address G" and "t = run (token_step G ec) (token_new deployer domain) txs"
    and "ch_logs r 0 None = Inr logs" and "list_all2 encodes logs (tk_log t)"
    and "tr_total_supply tok = Inr (int (tk_total_supply t))"
    and "\<forall>a. tr_balance_of tok a = Inr (int (tk_balance_of t a))"
  shows "\<exists>rep. fst (reconcile G r tok l) = Inr rep \<and> report_ok rep \<and>
    rp_ledger_supply rep = int (tk_total_supply t) \<and> rp_sum_balances rep = int (tk_total_supply t) \<and>
    rp_events rep = int (length (tk_log t))"
proof -
  have "shows_token (log_view (token_new deployer domain)) (token_new deployer domain)"
    by (simp add: shows_token_def log_view_def token_new_def) (simp add: empty_agg_def balance_in_def)
  then have view: "shows_token (log_view t) t"
    unfolding assms(2) by (rule view.run_inv) (rule all_allowed)
  have sync: "ledger_sync G r l = (None, l\<lparr>lg_agg := log_view t\<rparr>)"
    using fold_logs_encoded [OF assms(1,4)] assms(3) by (simp add: ledger_sync_def log_view_def)
  have "check_accounts tok (ag_balances (log_view t)) as = Inr []" for as
    using view assms(6) by (intro check_accounts_match) (simp add: shows_token_def)
  then show ?thesis
    using view sync assms(5)
    by (simp add: reconcile_def Let_def report_ok_def shows_token_def agg_wf_def)
qed

text \<open>
  C14. Reconciliation never raises a false alarm: against the contract after any sequence of
  transactions, with the node serving its Transfer logs, the full rescan gives a report
  without mismatches, whose supply, sum of balances and event count are the contract's.
\<close>

theorem reconcile_matches_contract:
  assumes "geth_address G" and "t = run (token_step G ec) (token_new deployer domain) txs"
    and "ch_logs r 0 None = Inr logs" and "list_all2 encodes logs (tk_log t)"
    and "tr_total_supply tok = Inr (int (tk_total_supply t))"
    and "\<forall>a. tr_balance_of tok a = Inr (int (tk_balance_of t a))"
  shows "\<exists>rep. fst (reconcile G r tok l) = Inr rep \<and> report_ok rep \<and>
    rp_ledger_supply rep = int (tk_total_supply t) \<and> rp_sum_balances rep = int (tk_total_supply t) \<and>
    rp_events rep = int (length (tk_log t))"
  by (rule reconcile_run_facts [OF assms])

lemma sample_geth_address [simp]: "geth_address sample_geth"
proof -
  have "address_of_bytes (bytes32_bytes (ucast a)) = a" for a :: address
  proof (rule bit_word_eqI)
    fix n
    assume "n < LENGTH(160)"
    then have n: "n < 160" by simp
    then have d: "n div 8 < 32" by linarith
    then have "rev (bytes32_bytes (ucast a)) ! (n div 8) = ucast (drop_bit (8 * (n div 8)) (ucast a :: bytes32))"
      using nth_upt [of 0 "31 - n div 8" 32] by (simp add: bytes32_bytes_def rev_nth)
    with n d show "bit (address_of_bytes (bytes32_bytes (ucast a))) n = bit a n"
      by (simp add: address_of_bytes_def bit_word_rcat_bytes bit_simps)
  qed
  then show ?thesis by (simp add: geth_address_def sample_geth_def)
qed

definition sample_minted :: token where
  "sample_minted = run (token_step sample_geth (\<lambda>_ _ _ _. 0)) (token_new 1 0)
     [\<lparr>tx_caller = 1, tx_time = 0, tx_call = CallMint 2 100\<rparr>, \<lparr>tx_caller = 2, tx_time = 1, tx_call = CallTransfer 3 40\<rparr>]"

definition encode_log :: "transfer_event \<Rightarrow> raw_log" where
  "encode_log e = \<lparr>rlg_topics = [0, ucast (te_from e), ucast (te_to e)],
     rlg_data = replicate (32 - length (nat_bytes (te_value e))) 0 @ nat_bytes (te_value e),
     rlg_block = 0, rlg_block_hash = 0\<rparr>"

theorem reconcile_witness:
  "\<exists>rep. fst (reconcile sample_geth
      \<lparr>ch_head = Inr 0, ch_hash = (\<lambda>_. Inr 0), ch_logs = (\<lambda>_ _. Inr (map encode_log (tk_log sample_minted)))\<rparr>
      \<lparr>tr_total_supply = Inr (int (tk_total_supply sample_minted)),
       tr_balance_of = (\<lambda>a. Inr (int (tk_balance_of sample_minted a)))\<rparr> ledger_new) = Inr rep \<and> report_ok rep"
proof -
  have "list_all2 encodes (map encode_log es) es" for es
    by (induction es) (simp_all add: encodes_def encode_log_def)
  then show ?thesis
    using reconcile_matches_contract [OF sample_geth_address sample_minted_def, of
      "\<lparr>ch_head = Inr 0, ch_hash = (\<lambda>_. Inr 0), ch_logs = (\<lambda>_ _. Inr (map encode_log (tk_log sample_minted)))\<rparr>"
      "map encode_log (tk_log sample_minted)"
      "\<lparr>tr_total_supply = Inr (int (tk_total_supply sample_minted)),
       tr_balance_of = (\<lambda>a. Inr (int (tk_balance_of sample_minted a)))\<rparr>" ledger_new]
    by auto
qed

section \<open>Incremental sync equals the full view\<close>

text \<open>A chain, genesis first, and the node that serves it.\<close>

record lblock =
  lb_hash :: bytes32
  lb_logs :: "raw_log list"

type_synonym lchain = "lblock list"

definition reader_of :: "lchain \<Rightarrow> chain_reader" where
  "reader_of c = \<lparr>
     ch_head = (if c = [] then Inl ''no head'' else Inr (length c - 1)),
     ch_hash = (\<lambda>n. if n < length c then Inr (lb_hash (c ! n)) else Inl ''not found''),
     ch_logs = (\<lambda>a b. Inr (concat (map (\<lambda>n. lb_logs (c ! n))
                 [a..<(case b of None \<Rightarrow> length c | Some b \<Rightarrow> min (b + 1) (length c))])))\<rparr>"

text \<open>Every log carries the number and hash of its block.\<close>

definition chain_wf :: "lchain \<Rightarrow> bool" where
  "chain_wf c \<longleftrightarrow> c \<noteq> [] \<and>
     (\<forall>n<length c. \<forall>lg\<in>set (lb_logs (c ! n)). rlg_block lg = n \<and> rlg_block_hash lg = lb_hash (c ! n))"

definition events_of :: "geth \<Rightarrow> raw_log list \<Rightarrow> ledger_event list" where
  "events_of G lgs = concat (map (\<lambda>lg. case parse_transfer_log G lg of None \<Rightarrow> [] | Some ev \<Rightarrow> [ev]) lgs)"

definition block_events :: "geth \<Rightarrow> lblock \<Rightarrow> ledger_event list" where
  "block_events G b = events_of G (lb_logs b)"

definition full_view :: "geth \<Rightarrow> lchain \<Rightarrow> aggregates" where
  "full_view G c = foldl count_event empty_agg (concat (map (block_events G) c))"

text \<open>The pending records of the blocks \<open>a\<close> to \<open>b - 1\<close>: those with events.\<close>

definition records :: "geth \<Rightarrow> lchain \<Rightarrow> nat \<Rightarrow> nat \<Rightarrow> block_record list" where
  "records G c a b =
     map (\<lambda>n. \<lparr>br_number = n, br_hash = lb_hash (c ! n), br_events = block_events G (c ! n)\<rparr>)
       (filter (\<lambda>n. block_events G (c ! n) \<noteq> []) [a..<b])"

definition follows :: "geth \<Rightarrow> ledger \<Rightarrow> lchain \<Rightarrow> bool" where
  "follows G l c \<longleftrightarrow> lg_chain l \<and> lg_baseline l \<and> lg_has_checkpoint l \<and>
     lg_last_seen l = length c - 1 \<and> lg_finalized_block l < length c \<and>
     lg_finalized_hash l = lb_hash (c ! lg_finalized_block l) \<and>
     lg_agg l = full_view G (take (lg_finalized_block l + 1) c) \<and>
     lg_pending l = records G c (lg_finalized_block l + 1) (length c)"

lemma records_split: "a \<le> b \<Longrightarrow> b \<le> d \<Longrightarrow> records G c a d = records G c a b @ records G c b d"
  using upt_add_eq_append [of a b "d - b"] by (simp add: records_def)

lemma records_numbers: "b \<in> set (records G c a d) \<Longrightarrow> a \<le> br_number b \<and> br_number b < d"
  by (auto simp: records_def)

lemma records_cong:
  assumes "\<And>n. a \<le> n \<Longrightarrow> n < b \<Longrightarrow> c ! n = c' ! n"
  shows "records G c a b = records G c' a b"
proof -
  have "filter (\<lambda>n. block_events G (c ! n) \<noteq> []) [a..<b] = filter (\<lambda>n. block_events G (c' ! n) \<noteq> []) [a..<b]"
    using assms by (intro filter_cong) auto
  then show ?thesis unfolding records_def using assms by auto
qed

lemma records_empty: "records G c a b = [] \<longleftrightarrow> (\<forall>n. a \<le> n \<and> n < b \<longrightarrow> block_events G (c ! n) = [])"
  by (auto simp: records_def filter_empty_conv)

lemma records_events: "concat (map br_events (records G c a b)) = concat (map (\<lambda>n. block_events G (c ! n)) [a..<b])"
  by (induction b) (simp_all add: records_def)

lemma full_view_append: "full_view G (c @ d) = foldl count_event (full_view G c) (concat (map (block_events G) d))"
  by (simp add: full_view_def)

lemma map_nth_take: "b \<le> length c \<Longrightarrow> a \<le> b \<Longrightarrow> take a c @ map (\<lambda>n. c ! n) [a..<b] = take b c"
proof (induction b)
  case (Suc b)
  then show ?case by (cases "a = Suc b") (simp_all add: take_Suc_conv_app_nth flip: append_assoc)
qed simp

lemma full_view_records:
  assumes "a \<le> b" and "b \<le> length c"
  shows "foldl count_event (full_view G (take a c)) (concat (map br_events (records G c a b)))
    = full_view G (take b c)"
  using map_nth_take [OF assms(2,1)] full_view_append [of G "take a c" "map (\<lambda>n. c ! n) [a..<b]"]
  by (simp add: records_events comp_def)

lemma snapshot_follows:
  assumes "follows G l c"
  shows "snapshot l = full_view G c"
  using full_view_records [of "lg_finalized_block l + 1" "length c" c G] assms
  by (simp add: snapshot_def follows_def)

subsection \<open>Reading a range\<close>

text \<open>One turn of the loop of \<open>appendRange\<close>.\<close>

definition add_log :: "geth \<Rightarrow> block_record list \<Rightarrow> raw_log \<Rightarrow> block_record list" where
  "add_log G p lg = (case parse_transfer_log G lg of None \<Rightarrow> p
     | Some ev \<Rightarrow> append_event p (rlg_block lg) (rlg_block_hash lg) ev)"

lemma add_log_fun: "add_log G = (\<lambda>p lg. case parse_transfer_log G lg of None \<Rightarrow> p
     | Some ev \<Rightarrow> append_event p (rlg_block lg) (rlg_block_hash lg) ev)"
  by (simp add: add_log_def fun_eq_iff)

lemma events_of_Nil [simp]: "events_of G [] = []"
  by (simp add: events_of_def)

lemma events_of_Cons [simp]: "events_of G (lg # lgs) =
    (case parse_transfer_log G lg of None \<Rightarrow> [] | Some ev \<Rightarrow> [ev]) @ events_of G lgs"
  by (simp add: events_of_def)

lemma append_block_open:
  assumes "\<forall>lg\<in>set lgs. rlg_block lg = n"
    and "p \<noteq> []" and "br_number (last p) = n"
  shows "foldl (add_log G) p lgs
    = butlast p @ [(last p)\<lparr>br_events := br_events (last p) @
        events_of G lgs\<rparr>]"
  using assms
proof (induction lgs arbitrary: p)
  case (Cons lg lgs)
  show ?case
  proof (cases "parse_transfer_log G lg")
    case (Some ev)
    let ?p = "butlast p @ [(last p)\<lparr>br_events := br_events (last p) @ [ev]\<rparr>]"
    have "append_event p (rlg_block lg) (rlg_block_hash lg) ev = ?p"
      using Cons.prems by (simp add: append_event_def)
    then have "foldl (add_log G) p (lg # lgs) = foldl (add_log G) ?p lgs" using Some by (simp add: add_log_def)
    also have "\<dots> = butlast ?p @ [(last ?p)\<lparr>br_events := br_events (last ?p) @ events_of G lgs\<rparr>]"
      using Cons.prems by (intro Cons.IH) auto
    finally show ?thesis using Some by simp
  qed (use Cons in \<open>simp add: add_log_def\<close>)
qed simp

lemma append_block:
  assumes "\<forall>lg\<in>set lgs. rlg_block lg = n \<and> rlg_block_hash lg = h"
    and "p = [] \<or> br_number (last p) < n"
  shows "foldl (add_log G) p lgs
    = (if events_of G lgs = [] then p
       else p @ [\<lparr>br_number = n, br_hash = h, br_events = events_of G lgs\<rparr>])"
  using assms
proof (induction lgs)
  case (Cons lg lgs)
  show ?case
  proof (cases "parse_transfer_log G lg")
    case (Some ev)
    let ?p = "p @ [\<lparr>br_number = n, br_hash = h, br_events = [ev]\<rparr>]"
    have lg: "rlg_block lg = n" "rlg_block_hash lg = h" and rest: "\<forall>lg\<in>set lgs. rlg_block lg = n"
      using Cons.prems(1) by simp_all
    have "append_event p n h ev = ?p" using Cons.prems(2) by (auto simp: append_event_def)
    then have "foldl (add_log G) p (lg # lgs) = foldl (add_log G) ?p lgs" using Some lg by (simp add: add_log_def)
    also have "\<dots> = butlast ?p @ [(last ?p)\<lparr>br_events := br_events (last ?p) @ events_of G lgs\<rparr>]"
      by (rule append_block_open [where n = n]) (use rest in simp_all)
    finally show ?thesis using Some by simp
  qed (use Cons in \<open>simp add: add_log_def\<close>)
qed simp

lemma append_range_records:
  assumes "chain_wf c" and "b \<le> length c" and "p = [] \<or> br_number (last p) < a" and "a \<le> b"
  shows "foldl (add_log G) p
      (concat (map (\<lambda>n. lb_logs (c ! n)) [a..<b])) = p @ records G c a b"
  using assms(2,4)
proof (induction b)
  case 0
  then show ?case by (simp add: records_def)
next
  case (Suc b)
  show ?case
  proof (cases "a = Suc b")
    case False
    then have ab: "a \<le> b" "b < length c" using Suc.prems by auto
    let ?q = "p @ records G c a b"
    have "?q = [] \<or> br_number (last ?q) < b"
    proof (cases "records G c a b = []")
      case False
      then have "last (records G c a b) \<in> set (records G c a b)" by simp
      from records_numbers [OF this] show ?thesis using False by simp
    qed (use assms(3) ab in auto)
    moreover have "\<forall>lg\<in>set (lb_logs (c ! b)). rlg_block lg = b \<and> rlg_block_hash lg = lb_hash (c ! b)"
      using assms(1) ab by (simp add: chain_wf_def)
    ultimately show ?thesis
      using Suc.IH ab append_block [of "lb_logs (c ! b)" b "lb_hash (c ! b)" ?q G]
      by (auto simp: block_events_def records_def)
  qed (simp add: records_def)
qed

subsection \<open>Rewinding and merging\<close>

lemma rewind_pending_spec:
  assumes "\<forall>b\<in>set B. \<exists>h. ch_hash r (br_number b) = Inr h \<and> h \<noteq> br_hash b"
    and "A = [] \<or> ch_hash r (br_number (hd A)) = Inr (br_hash (hd A))"
  shows "rewind_pending r (B @ A) l = ((None, A \<noteq> []),
    if B = [] then l else l\<lparr>lg_pending := rev A, lg_last_seen := trusted_head (l\<lparr>lg_pending := rev A\<rparr>)\<rparr>)"
  using assms
proof (induction B arbitrary: l)
  case Nil
  then show ?case by (cases A) auto
next
  case (Cons b B)
  then show ?case by (cases "B = []") (auto simp: Let_def trusted_head_def)
qed

definition base :: "ledger \<Rightarrow> nat" where
  "base l = (if lg_has_checkpoint l then lg_finalized_block l + 1 else 0)"

lemma filter_records_le: "a \<le> t + 1 \<Longrightarrow> t + 1 \<le> d \<Longrightarrow>
    filter (\<lambda>b. br_number b \<le> t) (records G c a d) = records G c a (t + 1) \<and>
    filter (\<lambda>b. \<not> br_number b \<le> t) (records G c a d) = records G c (t + 1) d"
proof -
  assume ad: "a \<le> t + 1" "t + 1 \<le> d"
  have "filter (\<lambda>b. br_number b \<le> t) (records G c a (t + 1)) = records G c a (t + 1)"
    and "filter (\<lambda>b. br_number b \<le> t) (records G c (t + 1) d) = []"
    and "filter (\<lambda>b. \<not> br_number b \<le> t) (records G c a (t + 1)) = []"
    and "filter (\<lambda>b. \<not> br_number b \<le> t) (records G c (t + 1) d) = records G c (t + 1) d"
    by (auto simp: filter_id_conv filter_empty_conv dest!: records_numbers)
  then show ?thesis by (simp add: records_split [OF ad])
qed

lemma merge_spec:
  assumes "lg_agg l = full_view G (take (base l) c)" and "lg_pending l = records G c (base l) (length c)"
    and "base l \<le> length c" and "lg_has_checkpoint l \<Longrightarrow> lg_finalized_hash l = lb_hash (c ! lg_finalized_block l)"
    and "target < length c" and "lg_chain l" and "lg_baseline l" and "lg_last_seen l = length c - 1"
  shows "\<exists>l'. merge_finalized (reader_of c) target l = (None, l') \<and> follows G l' c \<and>
    lg_finality_depth l' = lg_finality_depth l"
proof (cases "\<not> lg_has_checkpoint l \<or> target > lg_finalized_block l")
  case True
  then have t: "base l \<le> target + 1" "target + 1 \<le> length c" using assms(5) by (auto simp: base_def)
  have "foldl count_event (lg_agg l) (concat (map br_events (filter (\<lambda>b. br_number b \<le> target) (lg_pending l))))
      = full_view G (take (target + 1) c)"
    using full_view_records [OF t, of G] filter_records_le [OF t, of G c] assms(1,2) by simp
  then show ?thesis
    using True filter_records_le [OF t, of G c] assms
    by (auto simp: merge_finalized_def reader_of_def follows_def Let_def)
next
  case False
  then have ck: "lg_has_checkpoint l" "target \<le> lg_finalized_block l" by auto
  have "br_number b > target" if "b \<in> set (lg_pending l)" for b
    using that assms(2) ck by (auto simp: base_def dest: records_numbers)
  then have "filter (\<lambda>b. br_number b \<le> target) (lg_pending l) = []"
    and "filter (\<lambda>b. \<not> br_number b \<le> target) (lg_pending l) = lg_pending l"
    by (auto simp: filter_empty_conv filter_id_conv not_le)
  then show ?thesis
    using ck assms by (auto simp: merge_finalized_def reader_of_def follows_def Let_def base_def)
qed

text \<open>
  After the rewind: what is pending and finalized agrees with the new chain, and no block
  between the last trusted one and the first to be read has events.
\<close>

lemma sync_from_trusted:
  assumes wf: "chain_wf c" and rw: "rewind_reorg (reader_of c) l0 = (None, l)"
    and ch: "lg_chain l0" "lg_chain l"
    and strt: "start = (if lg_baseline l then lg_last_seen l + 1 else 0)"
    and agg: "lg_agg l = full_view G (take (base l) c)"
    and pend: "lg_pending l = records G c (base l) start" and s: "base l \<le> start" "start \<le> length c"
    and hash: "lg_has_checkpoint l \<Longrightarrow> lg_finalized_hash l = lb_hash (c ! lg_finalized_block l)"
  shows "\<exists>l'. sync_incremental G (reader_of c) l0 = (None, l') \<and> follows G l' c"
proof -
  let ?l1 = "l\<lparr>lg_pending := records G c (base l) (length c)\<rparr>"
  have ne: "c \<noteq> []" using wf by (simp add: chain_wf_def)
  have last: "records G c (base l) start = [] \<or> br_number (last (records G c (base l) start)) < start"
    using records_numbers last_in_set by metis
  have "append_range G (reader_of c) start (length c - 1) l = (None, ?l1)" if "start \<le> length c - 1"
  proof -
    have "append_range G (reader_of c) start (length c - 1) l
        = (None, l\<lparr>lg_pending := foldl (add_log G) (lg_pending l) (concat (map (\<lambda>n. lb_logs (c ! n)) [start..<length c]))\<rparr>)"
      using ne by (simp add: append_range_def reader_of_def add_log_fun)
    also have "foldl (add_log G) (lg_pending l) (concat (map (\<lambda>n. lb_logs (c ! n)) [start..<length c]))
        = records G c (base l) (length c)"
      using append_range_records [OF wf le_refl last s(2), of G] records_split [OF s, of G c] pend by simp
    finally show ?thesis .
  qed
  moreover have "l = ?l1" if "\<not> start \<le> length c - 1"
  proof -
    have "start = length c" using that s by simp
    with pend show ?thesis by (cases l) simp
  qed
  ultimately have app: "(if start \<le> length c - 1 then append_range G (reader_of c) start (length c - 1) l
      else (None, l)) = (None, ?l1)"
    by auto
  let ?l2 = "?l1\<lparr>lg_last_seen := length c - 1, lg_baseline := True\<rparr>"
  have tgt: "finalized_target (length c - 1) d < length c" for d
    using ne by (auto simp: finalized_target_def)
  have b: "base ?l2 = base l" by (simp add: base_def)
  have "\<exists>l'. merge_finalized (reader_of c) (finalized_target (length c - 1) (lg_finality_depth l)) ?l2 = (None, l')
      \<and> follows G l' c \<and> lg_finality_depth l' = lg_finality_depth ?l2"
    using agg s hash ch(2) b tgt [of "lg_finality_depth l"] by (intro merge_spec) auto
  then show ?thesis
    using rw ch(1) ne app strt by (auto simp: sync_incremental_def reader_of_def [of c] Let_def)
qed

section \<open>Properties of the incremental ledger\<close>

text \<open>
  The first incremental sync reads the whole chain: a fresh ledger, synced against any
  chain whose node answers, returns no error and its snapshot is what a full rescan of every
  Transfer log would give.
\<close>

theorem first_sync_is_full:
  assumes "chain_wf c"
  shows "\<exists>l. sync_incremental G (reader_of c) (ledger_new_chain d) = (None, l) \<and> follows G l c \<and>
    snapshot l = full_view G c"
proof -
  let ?l0 = "ledger_new_chain d"
  have "rewind_reorg (reader_of c) ?l0 = (None, ?l0\<lparr>lg_last_seen := 0\<rparr>)"
    by (simp add: rewind_reorg_def ledger_new_chain_def ledger_new_def trusted_head_def)
  then have "\<exists>l'. sync_incremental G (reader_of c) ?l0 = (None, l') \<and> follows G l' c"
    by (rule sync_from_trusted [OF assms, where start = 0])
      (simp_all add: ledger_new_chain_def ledger_new_def base_def records_def full_view_def)
  then show ?thesis using snapshot_follows by blast
qed

lemma trusted_records:
  assumes "lg_pending l = records G c (lg_finalized_block l + 1) (k + 1)" and "lg_finalized_block l \<le> k"
  shows "lg_finalized_block l \<le> trusted_head l \<and> trusted_head l \<le> k \<and>
    records G c (lg_finalized_block l + 1) (k + 1) = records G c (lg_finalized_block l + 1) (trusted_head l + 1)"
proof (cases "lg_pending l = []")
  case True
  then show ?thesis using assms by (simp add: trusted_head_def) (simp add: records_def)
next
  case False
  let ?f = "lg_finalized_block l + 1" and ?t = "trusted_head l"
  have th: "?t = br_number (last (lg_pending l))" using False by (simp add: trusted_head_def)
  have mem: "last (lg_pending l) \<in> set (records G c ?f (k + 1))" using False assms(1) by (metis last_in_set)
  from records_numbers [OF this] have t: "?f \<le> ?t" "?t < k + 1" by (simp_all add: th)
  have split: "records G c ?f (k + 1) = records G c ?f (?t + 1) @ records G c (?t + 1) (k + 1)"
    using t by (intro records_split) auto
  have "records G c (?t + 1) (k + 1) = []"
  proof (rule ccontr)
    assume ne: "records G c (?t + 1) (k + 1) \<noteq> []"
    then have "last (lg_pending l) = last (records G c (?t + 1) (k + 1))" using split assms(1) by simp
    moreover have "last (records G c (?t + 1) (k + 1)) \<in> set (records G c (?t + 1) (k + 1))" using ne by simp
    ultimately show False using records_numbers th by fastforce
  qed
  with split t show ?thesis by simp
qed

text \<open>Two chains with the same blocks up to \<open>k\<close>, the second at least as long, and no common block after.\<close>

definition forks_at :: "lchain \<Rightarrow> lchain \<Rightarrow> nat \<Rightarrow> bool" where
  "forks_at c c' k \<longleftrightarrow> k < length c \<and> length c \<le> length c' \<and> take (k + 1) c' = take (k + 1) c \<and>
     (\<forall>n. k < n \<and> n < length c \<longrightarrow> lb_hash (c' ! n) \<noteq> lb_hash (c ! n))"

lemma forks_same: "forks_at c c' k \<Longrightarrow> n \<le> k \<Longrightarrow> c' ! n = c ! n"
  using nth_take [of n "k + 1" c] nth_take [of n "k + 1" c'] by (auto simp: forks_at_def)

text \<open>What the rewind leaves, when it starts from a ledger that follows the old chain.\<close>

lemma rewind_follows:
  assumes fl: "follows G l c" and fk: "forks_at c c' k" and f: "lg_finalized_block l \<le> k"
  defines "l1 \<equiv> l\<lparr>lg_pending := records G c (lg_finalized_block l + 1) (k + 1)\<rparr>"
  shows "rewind_reorg (reader_of c') l =
    (None, if lg_pending l = [] \<or> k < br_number (last (lg_pending l))
           then l1\<lparr>lg_last_seen := trusted_head l1\<rparr> else l)"
proof -
  let ?f = "lg_finalized_block l + 1" and ?r = "reader_of c'"
  define A where "A = records G c ?f (k + 1)"
  define B where "B = records G c (k + 1) (length c)"
  have kl: "k < length c" and len: "length c \<le> length c'" using fk by (simp_all add: forks_at_def)
  have pend: "lg_pending l = A @ B"
    using fl f kl records_split [of ?f "k + 1" "length c" G c] by (simp add: follows_def A_def B_def)
  have hB: "\<exists>h. ch_hash ?r (br_number b) = Inr h \<and> h \<noteq> br_hash b" if "b \<in> set (rev B)" for b
    using that fk len by (auto simp: B_def records_def reader_of_def forks_at_def)
  have hA: "rev A = [] \<or> ch_hash ?r (br_number (hd (rev A))) = Inr (br_hash (hd (rev A)))"
  proof (cases "A = []")
    case False
    then have "last A \<in> set A" by simp
    then obtain n where n: "n \<le> k" "br_number (last A) = n" "br_hash (last A) = lb_hash (c ! n)"
      unfolding A_def records_def by auto
    then show ?thesis
      using forks_same [OF fk n(1)] kl len by (simp add: hd_rev reader_of_def)
  qed simp
  have rw: "rewind_pending ?r (rev (lg_pending l)) l =
      ((None, A \<noteq> []), if B = [] then l else l1\<lparr>lg_last_seen := trusted_head l1\<rparr>)"
    using rewind_pending_spec [of "rev B" ?r "rev A" l] hB hA by (simp add: pend l1_def A_def)
  have ck: "lg_has_checkpoint l" "ch_hash ?r (lg_finalized_block l) = Inr (lg_finalized_hash l)"
    using fl f kl len forks_same [OF fk f] by (simp_all add: follows_def reader_of_def)
  have cond: "(lg_pending l = [] \<or> k < br_number (last (lg_pending l))) \<longleftrightarrow> A = [] \<or> B \<noteq> []"
  proof (cases "B = []")
    case True
    show ?thesis
    proof (cases "A = []")
      case False
      then have "last A \<in> set A" by simp
      then have "br_number (last A) \<le> k" unfolding A_def by (auto dest: records_numbers)
      with True False show ?thesis by (simp add: pend)
    qed (use True in \<open>simp add: pend\<close>)
  next
    case False
    then have "last B \<in> set B" by simp
    then have "k < br_number (last B)" unfolding B_def by (auto dest: records_numbers)
    with False show ?thesis by (simp add: pend)
  qed
  have l1: "l1 = l" if "B = []" using that pend by (simp add: l1_def A_def)
  show ?thesis
  proof (cases "A = []")
    case False
    then show ?thesis using rw cond by (auto simp: rewind_reorg_def)
  next
    case True
    then have "l1 = l\<lparr>lg_pending := []\<rparr>" by (simp add: l1_def A_def)
    moreover have "lg_pending l = B" using True pend by simp
    ultimately show ?thesis using True rw cond ck l1 by (auto simp: rewind_reorg_def trusted_head_def)
  qed
qed

lemma reorg_followed:
  assumes "chain_wf c'" and "follows G l c" and "forks_at c c' k" and "lg_finalized_block l \<le> k"
    and "lg_pending l = [] \<or> k < br_number (last (lg_pending l))"
  shows "\<exists>l'. sync_incremental G (reader_of c') l = (None, l') \<and> follows G l' c' \<and> snapshot l' = full_view G c'"
proof -
  let ?f = "lg_finalized_block l + 1"
  define l1 where "l1 = l\<lparr>lg_pending := records G c ?f (k + 1)\<rparr>"
  define l2 where "l2 = l1\<lparr>lg_last_seen := trusted_head l1\<rparr>"
  have rw: "rewind_reorg (reader_of c') l = (None, l2)"
    using rewind_follows [OF assms(2-4)] assms(5) by (simp add: l1_def l2_def)
  have kl: "k < length c" "length c \<le> length c'" using assms(3) by (simp_all add: forks_at_def)
  have same: "c' ! n = c ! n" if "n \<le> k" for n by (rule forks_same [OF assms(3) that])
  have fin: "lg_finalized_block l1 = lg_finalized_block l" by (simp add: l1_def)
  have "lg_pending l1 = records G c (lg_finalized_block l1 + 1) (k + 1)" by (simp add: l1_def)
  from trusted_records [OF this] have
    th: "lg_finalized_block l \<le> trusted_head l1" "trusted_head l1 \<le> k"
      "records G c ?f (k + 1) = records G c ?f (trusted_head l1 + 1)"
    using assms(4) fin by simp_all
  have rec: "records G c ?f (trusted_head l1 + 1) = records G c' ?f (trusted_head l1 + 1)"
    using th same by (intro records_cong) auto
  have tk: "take ?f c = take ?f c'"
    using assms(3,4) unfolding forks_at_def
    by (metis Suc_eq_plus1 Suc_le_mono min.absorb1 take_take)
  have "\<exists>l'. sync_incremental G (reader_of c') l = (None, l') \<and> follows G l' c'"
  proof (rule sync_from_trusted [OF assms(1) rw, where start = "trusted_head l1 + 1"])
    show "lg_pending l2 = records G c' (base l2) (trusted_head l1 + 1)"
      using th(3) rec assms(2) by (simp add: l2_def l1_def base_def follows_def)
  qed (use assms(2,4) th kl tk same in \<open>auto simp: l2_def l1_def base_def follows_def\<close>)
  then show ?thesis using snapshot_follows by blast
qed

text \<open>
  Incremental sync follows the chain through reorgs it can detect: when the chain the
  ledger followed is replaced above block \<open>k\<close>, not below the finality checkpoint, by a chain
  that is no shorter, and the window is empty or its newest event block was replaced, the
  sync succeeds and the snapshot equals a full rescan of the new chain.
\<close>

theorem sync_follows_reorg:
  assumes "chain_wf c'" and "follows G l c" and "forks_at c c' k" and "lg_finalized_block l \<le> k"
    and "lg_pending l = [] \<or> k < br_number (last (lg_pending l))"
  shows "\<exists>l'. sync_incremental G (reader_of c') l = (None, l') \<and> follows G l' c' \<and> snapshot l' = full_view G c'"
  using assms by (rule reorg_followed)

text \<open>
  Incremental sync follows an extension: when blocks are added to the chain the ledger
  followed and none is replaced, the sync succeeds and the snapshot equals a full rescan.
\<close>

theorem sync_follows_extension:
  assumes "chain_wf (c @ d)" and "c \<noteq> []" and "follows G l c"
  shows "\<exists>l'. sync_incremental G (reader_of (c @ d)) l = (None, l') \<and> follows G l' (c @ d) \<and>
    snapshot l' = full_view G (c @ d)"
proof (cases "lg_pending l = []")
  case True
  have "forks_at c (c @ d) (length c - 1)" using assms(2) by (auto simp: forks_at_def)
  then show ?thesis
    using reorg_followed [OF assms(1,3)] assms(2,3) True by (auto simp: follows_def)
next
  case False
  let ?f = "lg_finalized_block l + 1"
  have fk: "forks_at c (c @ d) (length c - 1)" using assms(2) by (auto simp: forks_at_def)
  have f: "lg_finalized_block l \<le> length c - 1" using assms(3) by (auto simp: follows_def)
  have "last (lg_pending l) \<in> set (records G c ?f (length c))"
    using False assms(3) by (metis follows_def last_in_set)
  from records_numbers [OF this] have "\<not> length c - 1 < br_number (last (lg_pending l))" by linarith
  then have rw: "rewind_reorg (reader_of (c @ d)) l = (None, l)"
    using rewind_follows [OF assms(3) fk f] False by simp
  have rec: "records G c ?f (length c) = records G (c @ d) ?f (length c)"
    by (intro records_cong) (simp add: nth_append)
  have "\<exists>l'. sync_incremental G (reader_of (c @ d)) l = (None, l') \<and> follows G l' (c @ d)"
    by (rule sync_from_trusted [OF assms(1) rw, where start = "length c"])
      (use assms(2,3) f rec in \<open>auto simp: base_def follows_def nth_append\<close>)
  then show ?thesis using snapshot_follows by blast
qed

text \<open>
  A reorg above the newest event block is missed: when the replaced blocks of the window
  held no transfers but their replacements do, the newest pending block is still canonical,
  so the rewind leaves the last seen block where it was and the transfers in the replaced
  range are never read. Here block 2, empty, is replaced by one with a transfer: the sync
  reports no error and its snapshot lacks the transfer.
\<close>

theorem reorg_of_empty_blocks_is_missed:
  "\<exists>c c' l l'. chain_wf c' \<and> follows sample_geth l c \<and> forks_at c c' 1 \<and> lg_finalized_block l \<le> 1 \<and>
     sync_incremental sample_geth (reader_of c') l = (None, l') \<and>
     ag_events (snapshot l') = 1 \<and> ag_events (full_view sample_geth c') = 2"
proof -
  let ?log = "\<lambda>n h. \<lparr>rlg_topics = [0, 0, 0], rlg_data = [], rlg_block = n, rlg_block_hash = h\<rparr>"
  let ?c = "[\<lparr>lb_hash = 10, lb_logs = []\<rparr>, \<lparr>lb_hash = 11, lb_logs = [?log 1 11]\<rparr>, \<lparr>lb_hash = 12, lb_logs = []\<rparr>]"
  let ?c' = "[\<lparr>lb_hash = 10, lb_logs = []\<rparr>, \<lparr>lb_hash = 11, lb_logs = [?log 1 11]\<rparr>,
    \<lparr>lb_hash = 22, lb_logs = [?log 2 22]\<rparr>]"
  define ev where "ev = the (parse_transfer_log sample_geth (?log 1 11))"
  have p: "parse_transfer_log sample_geth (?log n h) = Some ev" for n h
    by (simp add: parse_transfer_log_def ev_def)
  let ?l = "\<lparr>lg_chain = True, lg_finality_depth = 12, lg_agg = empty_agg,
     lg_pending = [\<lparr>br_number = 1, br_hash = 11, br_events = [ev]\<rparr>], lg_last_seen = 2, lg_baseline = True,
     lg_finalized_block = 0, lg_finalized_hash = 10, lg_has_checkpoint = True\<rparr>"
  have ev1: "ag_events (count_event g e) = ag_events g + 1" for g e
    by (simp add: count_event_def apply_transfer_def Let_def)
  have all_less: "(\<forall>n<3. P n) \<longleftrightarrow> P 0 \<and> P 1 \<and> P (2::nat)" for P
    by (auto simp: less_Suc_eq numeral_3_eq_3 numeral_2_eq_2)
  have only_two: "(\<forall>n. Suc 0 < n \<and> n < Suc (Suc (Suc 0)) \<longrightarrow> P n) \<longleftrightarrow> P (Suc (Suc 0))" for P
  proof -
    have "Suc 0 < n \<and> n < Suc (Suc (Suc 0)) \<longleftrightarrow> n = Suc (Suc 0)" for n by arith
    then show ?thesis by simp
  qed
  have "chain_wf ?c'" by (simp add: chain_wf_def all_less numeral_3_eq_3 less_Suc_eq)
  moreover have "follows sample_geth ?l ?c"
    by (simp add: follows_def full_view_def block_events_def records_def p upt_rec numeral_2_eq_2 numeral_3_eq_3)
  moreover have "forks_at ?c ?c' 1"
    by (simp add: forks_at_def only_two)
  moreover have "sync_incremental sample_geth (reader_of ?c') ?l = (None, ?l)"
    by (simp add: sync_incremental_def rewind_reorg_def reader_of_def merge_finalized_def finalized_target_def Let_def)
  moreover have "ag_events (snapshot ?l) = 1"
    by (simp add: snapshot_def ev1 empty_agg_def)
  moreover have "ag_events (full_view sample_geth ?c') = 2"
    by (simp add: full_view_def block_events_def p ev1 empty_agg_def)
  ultimately show ?thesis by (intro exI conjI) (assumption | simp)+
qed

text \<open>Concrete chains for the witnesses: a genesis block, then one block with a transfer.\<close>

definition sample_log :: "nat \<Rightarrow> bytes32 \<Rightarrow> raw_log" where
  "sample_log n h = \<lparr>rlg_topics = [0, 0, 0], rlg_data = [], rlg_block = n, rlg_block_hash = h\<rparr>"

definition sample_chain :: "bytes32 \<Rightarrow> lchain" where
  "sample_chain h = [\<lparr>lb_hash = 10, lb_logs = []\<rparr>, \<lparr>lb_hash = h, lb_logs = [sample_log 1 h]\<rparr>]"

definition sample_ledger :: ledger where
  "sample_ledger = \<lparr>lg_chain = True, lg_finality_depth = 12, lg_agg = empty_agg,
     lg_pending = records sample_geth (sample_chain 11) 1 2, lg_last_seen = 1, lg_baseline = True,
     lg_finalized_block = 0, lg_finalized_hash = 10, lg_has_checkpoint = True\<rparr>"

lemma sample_chain_wf: "chain_wf (sample_chain h)"
  by (simp add: chain_wf_def sample_chain_def sample_log_def less_Suc_eq)

lemma sample_follows: "follows sample_geth sample_ledger (sample_chain 11)"
  by (simp add: follows_def sample_ledger_def full_view_def)
    (simp add: sample_chain_def block_events_def numeral_2_eq_2)

theorem first_sync_witness:
  "\<exists>l. sync_incremental sample_geth (reader_of (sample_chain 11)) (ledger_new_chain 3) = (None, l) \<and>
     snapshot l = full_view sample_geth (sample_chain 11)"
  using first_sync_is_full [OF sample_chain_wf] by blast

theorem sync_reorg_witness:
  "\<exists>l'. sync_incremental sample_geth (reader_of (sample_chain 22)) sample_ledger = (None, l') \<and>
     snapshot l' = full_view sample_geth (sample_chain 22)"
proof -
  have one: "Suc 0 \<le> n \<and> n < Suc (Suc 0) \<longleftrightarrow> n = Suc 0" for n by arith
  have fk: "forks_at (sample_chain 11) (sample_chain 22) 0"
    by (simp add: forks_at_def sample_chain_def one Suc_le_eq [symmetric])
  have "records sample_geth (sample_chain 11) 1 2 \<noteq> []"
    by (simp add: records_def sample_chain_def block_events_def sample_log_def numeral_2_eq_2
        parse_transfer_log_def)
  then have "last (lg_pending sample_ledger) \<in> set (records sample_geth (sample_chain 11) 1 2)"
    by (simp add: sample_ledger_def)
  from records_numbers [OF this] have p: "lg_pending sample_ledger = [] \<or> 0 < br_number (last (lg_pending sample_ledger))"
    by simp
  have "lg_finalized_block sample_ledger \<le> 0" by (simp add: sample_ledger_def)
  from sync_follows_reorg [OF sample_chain_wf sample_follows fk this p] show ?thesis by blast
qed

theorem sync_extension_witness:
  "\<exists>l'. sync_incremental sample_geth (reader_of (sample_chain 11 @ [\<lparr>lb_hash = 12, lb_logs = []\<rparr>])) sample_ledger
     = (None, l')"
proof -
  have "chain_wf (sample_chain 11 @ [\<lparr>lb_hash = 12, lb_logs = []\<rparr>])" and "sample_chain 11 \<noteq> []"
    by (simp_all add: chain_wf_def sample_chain_def sample_log_def less_Suc_eq)
  from sync_follows_extension [OF this sample_follows] show ?thesis by blast
qed

end
