(* ===== verification/Issuer.thy ===== *)
theory Issuer
  imports Facilitator Reserve Ledger
begin

text \<open>
  The issuer's commands (\<open>cmd/issuer\<close>): minting capped by the reserve, the reserve's
  movements, redemption in three steps and reconciliation, each one run of the program over
  the contract and the reserve file. The deployments and the asset's commands only call a
  binding and are not modelled.

  What the world answers during one run is its \<open>issuer_env\<close>: connection and read errors,
  the clock, the fate of each transaction sent, and the outcome of the write to the file.
  The lemmas follow the supply and the reserve through every one of these outcomes.
\<close>

section \<open>The world of a command\<close>

text \<open>
  A transaction is refused by the binding (encoding, gas estimation, the node), mined, or
  sent while the wait for its receipt fails; then it was executed or not.
\<close>

datatype tx_fate = Refused string | Mined | Unseen string bool

datatype tx_report = SendError string | WaitError string | Receipt bool

text \<open>
  \<open>is_abi\<close> is what the ABI encoder makes of a big integer; \<open>is_read\<close> the error of a contract
  read by the method's name; \<open>is_connect\<close> the error of dialling or of reading the key.
\<close>

record issuer_env =
  is_geth :: geth
  is_ec :: ecrecover
  is_abi :: "int \<Rightarrow> nat option"
  is_address :: address
  is_connect :: "string option"
  is_read :: "string \<Rightarrow> string option"
  is_now :: int
  is_block_time :: int
  is_tx :: tx_fate
  is_tx2 :: tx_fate
  is_file_opens :: bool
  is_write :: io

definition abi_law :: "(int \<Rightarrow> nat option) \<Rightarrow> bool" where
  "abi_law abi \<longleftrightarrow> (\<forall>v. u256_range v \<longrightarrow> abi v = Some (nat v))"

record issuer_world =
  iw_token :: token
  iw_file :: "reserve_entry log_file"

definition submit :: "tx_fate \<Rightarrow> ('t \<Rightarrow> 't result) option \<Rightarrow> 't \<Rightarrow> tx_report \<times> 't" where
  "submit fate call t =
     (case call of
        None \<Rightarrow> (SendError ''abi: out of range'', t)
      | Some f \<Rightarrow>
         (let t' = (case f t of Inl _ \<Rightarrow> t | Inr t1 \<Rightarrow> t1) in
          case fate of
            Refused e \<Rightarrow> (SendError e, t)
          | Mined \<Rightarrow> (Receipt (\<not> isl (f t)), t')
          | Unseen e executed \<Rightarrow> (WaitError e, if executed then t' else t)))"

definition mint_call :: "issuer_env \<Rightarrow> address \<Rightarrow> int \<Rightarrow> (token \<Rightarrow> token result) option" where
  "mint_call E to v = map_option (\<lambda>n. token_mint (is_address E) to n) (is_abi E v)"

definition burn_call :: "issuer_env \<Rightarrow> address \<Rightarrow> int \<Rightarrow> (token \<Rightarrow> token result) option" where
  "burn_call E from v = map_option (\<lambda>n. token_burn (is_address E) from n) (is_abi E v)"

definition receive_call ::
    "issuer_env \<Rightarrow> authorization \<Rightarrow> byte \<times> bytes32 \<times> bytes32 \<Rightarrow> (token \<Rightarrow> token result) option" where
  "receive_call E a vrs =
     (case (is_abi E (au_value a), is_abi E (au_valid_after a), is_abi E (au_valid_before a), vrs) of
        (Some v, Some va, Some vb, rv, r, s) \<Rightarrow>
          Some (receive_with_authorization (is_geth E) (is_ec E) (is_address E) (is_block_time E)
                  (a\<lparr>au_value := int v, au_valid_after := int va, au_valid_before := int vb\<rparr>) rv r s)
      | _ \<Rightarrow> None)"

section \<open>Commands\<close>

definition require_hex_address :: "geth \<Rightarrow> string \<Rightarrow> string \<Rightarrow> string option" where
  "require_hex_address G flag_name value =
     (if value = '''' then Some (''--'' @ flag_name @ '' is required'')
      else if \<not> is_hex_address G value then Some (''--'' @ flag_name @ '' is not a valid address'')
      else None)"

definition issuer_hex_bytes :: "string \<Rightarrow> byte list result" where
  "issuer_hex_bytes s = (case hex_decode (trim_prefix s ''0x'') of None \<Rightarrow> Inl ''encoding/hex'' | Some b \<Rightarrow> Inr b)"

definition reserve_at :: "issuer_env \<Rightarrow> issuer_world \<Rightarrow> reserve_ledger result" where
  "reserve_at E w = reserve_open (if is_file_opens E then Some (iw_file w) else None)"

text \<open>The block under \<open>--reserve\<close>: the error that stops the mint.\<close>

definition mint_cap :: "issuer_env \<Rightarrow> string \<Rightarrow> int \<Rightarrow> issuer_world \<Rightarrow> string option" where
  "mint_cap E path v w =
     (if path = '''' then None
      else case reserve_at E w of
        Inl e \<Rightarrow> Some e
      | Inr rl \<Rightarrow> (case is_read E ''totalSupply'' of
        Some e \<Rightarrow> Some (''totalSupply: '' @ e)
      | None \<Rightarrow>
         (let supply = int (tk_total_supply (iw_token w)); after = supply + v in
          if after > reserve_total rl then
            Some (''mint refused: supply '' @ big_show supply @ '' + '' @ big_show v @ '' = '' @ big_show after @
                  '' exceeds reserve total '' @ big_show (reserve_total rl))
          else None)))"

text \<open>Sending the mint and waiting for it; the receipt's status is not looked at.\<close>

definition mint_send :: "issuer_env \<Rightarrow> address \<Rightarrow> int \<Rightarrow> issuer_world \<Rightarrow> string option \<times> issuer_world" where
  "mint_send E to v w =
     (case submit (is_tx E) (mint_call E to v) (iw_token w) of
        (SendError e, t) \<Rightarrow> (Some (''mint: '' @ e), w\<lparr>iw_token := t\<rparr>)
      | (WaitError e, t) \<Rightarrow> (Some (''wait for mint: '' @ e), w\<lparr>iw_token := t\<rparr>)
      | (Receipt _, t) \<Rightarrow> (map_option (\<lambda>e. ''balanceOf: '' @ e) (is_read E ''balanceOf''), w\<lparr>iw_token := t\<rparr>))"

definition run_mint ::
    "issuer_env \<Rightarrow> string \<Rightarrow> string \<Rightarrow> string \<Rightarrow> string \<Rightarrow> issuer_world \<Rightarrow> string option \<times> issuer_world" where
  "run_mint E tok to amount path w =
     (case require_hex_address (is_geth E) ''token'' tok of Some e \<Rightarrow> (Some e, w) | None \<Rightarrow>
     (case require_hex_address (is_geth E) ''to'' to of Some e \<Rightarrow> (Some e, w) | None \<Rightarrow>
     (case set_string10 amount of
        None \<Rightarrow> (Some ''invalid --amount'', w)
      | Some v \<Rightarrow>
          if v \<le> 0 then (Some ''invalid --amount'', w)
          else case is_connect E of Some e \<Rightarrow> (Some e, w) | None \<Rightarrow>
         (case mint_cap E path v w of
            Some e \<Rightarrow> (Some e, w)
          | None \<Rightarrow> mint_send E (hex_to_address (is_geth E) to) v w))))"

definition run_reserve ::
    "issuer_env \<Rightarrow> int \<Rightarrow> string \<Rightarrow> string \<Rightarrow> string \<Rightarrow> issuer_world \<Rightarrow> string option \<times> issuer_world" where
  "run_reserve E sg path amount reason w =
     (if path = '''' then (Some ''--reserve is required'', w)
      else case set_string10 amount of
        None \<Rightarrow> (Some ''invalid --amount'', w)
      | Some v \<Rightarrow>
          if v \<le> 0 then (Some ''invalid --amount'', w)
          else case reserve_at E w of
            Inl e \<Rightarrow> (Some e, w)
          | Inr rl \<Rightarrow>
             (case reserve_append (is_write E) (is_now E) (if sg < 0 then - v else v) reason rl of
                (e, rl') \<Rightarrow> (e, w\<lparr>iw_file := rl_file rl'\<rparr>)))"

record redemption_request =
  rd_authorization :: authorization_json
  rd_signature :: string

text \<open>The checks before the chain is touched: the authorization and its split signature.\<close>

definition check_redemption ::
    "issuer_env \<Rightarrow> redemption_request \<Rightarrow> issuer_world \<Rightarrow> (authorization \<times> byte \<times> bytes32 \<times> bytes32) result" where
  "check_redemption E req w =
     (let G = is_geth E in
      case parse_authorization G (rd_authorization req) of Inl e \<Rightarrow> Inl e | Inr a \<Rightarrow>
     (case issuer_hex_bytes (rd_signature req) of Inl e \<Rightarrow> Inl (''request signature: '' @ e) | Inr sig \<Rightarrow>
     (case is_connect E of Some e \<Rightarrow> Inl e | None \<Rightarrow>
     (case is_read E ''DOMAIN_SEPARATOR'' of Some e \<Rightarrow> Inl (''domain separator: '' @ e) | None \<Rightarrow>
     (case recover_receive_signer G (tk_domain_separator (iw_token w)) a sig of
        Inl e \<Rightarrow> Inl (''verify request: '' @ e)
      | Inr signer \<Rightarrow>
          if signer \<noteq> au_from a then Inl ''redemption signature does not match its holder''
          else if au_to a \<noteq> is_address E then
            Inl (''redemption recipient '' @ address_hex G (au_to a) @ '' is not the issuer '' @ address_hex G (is_address E))
          else if au_valid_before a \<le> unix_of (is_now E) then Inl ''redemption request has expired''
          else map_sum id (Pair a) (split_signature sig))))))"

text \<open>The three steps; \<open>h1\<close> stands for the text of the first transaction's hash.\<close>

definition redeem_reserve :: "issuer_env \<Rightarrow> authorization \<Rightarrow> issuer_world \<Rightarrow> string option \<times> issuer_world" where
  "redeem_reserve E a w =
     (case reserve_at E w of
        Inl e \<Rightarrow> (Some (''redemption step 3 (reserve) failed to open; collected and burned but reserve not updated: '' @ e), w)
      | Inr rl \<Rightarrow>
         (case reserve_append (is_write E) (is_now E) (- au_value a)
                 (''redemption of '' @ address_hex (is_geth E) (au_from a)) rl of
            (Some e, rl') \<Rightarrow>
              (Some (''redemption step 3 (reserve) failed; collected and burned but reserve not updated: '' @ e),
               w\<lparr>iw_file := rl_file rl'\<rparr>)
          | (None, rl') \<Rightarrow> (None, w\<lparr>iw_file := rl_file rl'\<rparr>)))"

definition redeem_burn :: "issuer_env \<Rightarrow> authorization \<Rightarrow> issuer_world \<Rightarrow> string option \<times> issuer_world" where
  "redeem_burn E a w =
     (case submit (is_tx2 E) (burn_call E (is_address E) (au_value a)) (iw_token w) of
        (SendError e, t) \<Rightarrow> (Some (''redemption step 2 (burn) failed; tokens collected but not burned: '' @ e), w\<lparr>iw_token := t\<rparr>)
      | (Receipt True, t) \<Rightarrow> redeem_reserve E a (w\<lparr>iw_token := t\<rparr>)
      | (_, t) \<Rightarrow> (Some ''redemption step 2 (burn) reverted; tokens collected but not burned'', w\<lparr>iw_token := t\<rparr>))"

definition redeem_steps ::
    "issuer_env \<Rightarrow> authorization \<Rightarrow> byte \<times> bytes32 \<times> bytes32 \<Rightarrow> issuer_world \<Rightarrow> string option \<times> issuer_world" where
  "redeem_steps E a vrs w =
     (case submit (is_tx E) (receive_call E a vrs) (iw_token w) of
        (SendError e, t) \<Rightarrow> (Some (''redemption step 1 (collect) failed, nothing changed: '' @ e), w\<lparr>iw_token := t\<rparr>)
      | (Receipt True, t) \<Rightarrow> redeem_burn E a (w\<lparr>iw_token := t\<rparr>)
      | (_, t) \<Rightarrow> (Some ''redemption step 1 (collect) reverted, nothing changed'', w\<lparr>iw_token := t\<rparr>))"

text \<open>The request file, read and decoded, is the argument.\<close>

definition run_redeem ::
    "issuer_env \<Rightarrow> string \<Rightarrow> redemption_request result option \<Rightarrow> string \<Rightarrow> issuer_world \<Rightarrow> string option \<times> issuer_world" where
  "run_redeem E tok request_file path w =
     (case require_hex_address (is_geth E) ''token'' tok of Some e \<Rightarrow> (Some e, w) | None \<Rightarrow>
     (case request_file of
        None \<Rightarrow> (Some ''--request and --reserve are required'', w)
      | Some f \<Rightarrow>
          if path = '''' then (Some ''--request and --reserve are required'', w)
          else case f of Inl e \<Rightarrow> (Some e, w) | Inr req \<Rightarrow>
         (case check_redemption E req w of
            Inl e \<Rightarrow> (Some e, w)
          | Inr (a, vrs) \<Rightarrow> redeem_steps E a vrs w)))"

text \<open>
  Reconciliation: \<open>Inr ok\<close> is the return of \<open>nil\<close>, with exit status 1 unless \<open>ok\<close>. Each ledger
  is fresh and reads its contract's logs and state through the two readers.
\<close>

definition reconcile_one :: "geth \<Rightarrow> chain_reader \<times> token_reader \<Rightarrow> report option \<times> bool" where
  "reconcile_one G readers =
     (case fst (reconcile G (fst readers) (snd readers) ledger_new) of
        Inl e \<Rightarrow> (None, False)
      | Inr rep \<Rightarrow> (Some rep, report_ok rep))"

definition run_reconcile ::
    "issuer_env \<Rightarrow> string \<Rightarrow> string \<Rightarrow> string \<Rightarrow> chain_reader \<times> token_reader \<Rightarrow> chain_reader \<times> token_reader \<Rightarrow>
     issuer_world \<Rightarrow> bool result" where
  "run_reconcile E tok asset path tkrw trwa w =
     (let G = is_geth E in
      case require_hex_address G ''token'' tok of Some e \<Rightarrow> Inl e | None \<Rightarrow>
     (case (if asset \<noteq> '''' then require_hex_address G ''asset'' asset else None) of Some e \<Rightarrow> Inl e | None \<Rightarrow>
     (case is_connect E of Some e \<Rightarrow> Inl e | None \<Rightarrow>
     (let (rep, ok) = reconcile_one G tkrw;
          ok2 = (ok \<and> (asset \<noteq> '''' \<longrightarrow> snd (reconcile_one G trwa))) in
      case (if path \<noteq> '''' then rep else None) of
        None \<Rightarrow> Inr ok2
      | Some r \<Rightarrow> (case reserve_at E w of
          Inl e \<Rightarrow> Inl e
        | Inr rl \<Rightarrow> Inr (ok2 \<and> \<not> rp_ledger_supply r > reserve_total rl))))))"

section \<open>What a step does\<close>

lemma submit_cases:
  assumes "submit fate call t = (rep, t')"
  shows "t' = t \<or> (\<exists>f. call = Some f \<and> f t = Inr t')"
    and "rep = Receipt True \<Longrightarrow> \<exists>f. call = Some f \<and> f t = Inr t'"
    and "rep = Receipt False \<or> (\<exists>e. rep = SendError e) \<Longrightarrow> t' = t"
  using assms by (auto simp: submit_def Let_def isl_def split: option.splits tx_fate.splits sum.splits if_splits)

lemma mint_call_supply:
  assumes "abi_law (is_abi E)" and "0 < v" and "mint_call E to v = Some f" and "f t = Inr t'"
  shows "int (tk_total_supply t') \<le> int (tk_total_supply t) + v"
proof -
  obtain n where n: "is_abi E v = Some n" and f: "f = token_mint (is_address E) to n"
    using assms(3) by (auto simp: mint_call_def)
  have s: "tk_total_supply t' = tk_total_supply t + n" "tk_total_supply t' \<le> uint256_max"
    using assms(4) by (auto simp: f token_mint_def split: if_splits)
  show ?thesis
  proof (cases "u256_range v")
    case True
    then show ?thesis using assms(1,2) n s(1) by (auto simp: abi_law_def)
  next
    case False
    then have "int uint256_max < v" using assms(2) by (simp add: u256_range_def uint256_max_def)
    then show ?thesis using s(2) by linarith
  qed
qed

lemma receive_supply:
  assumes "receive_with_authorization G ec c now a v r s t = Inr t'"
  shows "tk_total_supply t' = tk_total_supply t"
  using assms by (auto simp: receive_with_authorization_def settle_authorization_def move_tokens_def Let_def
      split: if_splits)

lemma receive_call_effect:
  assumes "abi_law (is_abi E)" and "auth_in_range a" and "receive_call E a (v, r, s) = Some f"
  shows "f = receive_with_authorization (is_geth E) (is_ec E) (is_address E) (is_block_time E) a v r s"
  using assms by (auto simp: receive_call_def abi_law_def auth_in_range_def u256_range_def)

lemma receive_call_supply: "receive_call E a vrs = Some f \<Longrightarrow> f t = Inr t' \<Longrightarrow> tk_total_supply t' = tk_total_supply t"
  by (auto simp: receive_call_def split: option.splits prod.splits dest: receive_supply)

lemma burn_call_effect:
  assumes "abi_law (is_abi E)" and "u256_range v" and "burn_call E from v = Some f"
  shows "f = token_burn (is_address E) from (nat v)"
  using assms by (auto simp: burn_call_def abi_law_def)

lemma burn_supply:
  "token_burn c from n t = Inr t' \<Longrightarrow> tk_total_supply t' = tk_total_supply t - n \<and> n \<le> tk_total_supply t"
  by (auto simp: token_burn_def split: if_splits)

lemma burn_call_supply: "burn_call E from v = Some f \<Longrightarrow> f t = Inr t' \<Longrightarrow> tk_total_supply t' \<le> tk_total_supply t"
  by (auto simp: burn_call_def dest!: burn_supply)

lemma calls_keep_token_ok:
  "mint_call E to v = Some f \<Longrightarrow> f t = Inr t' \<Longrightarrow> token_ok t \<Longrightarrow> token_ok t'"
  "receive_call E a vrs = Some f \<Longrightarrow> f t = Inr t' \<Longrightarrow> token_ok t \<Longrightarrow> token_ok t'"
  "burn_call E to v = Some f \<Longrightarrow> f t = Inr t' \<Longrightarrow> token_ok t \<Longrightarrow> token_ok t'"
  by (auto simp: mint_call_def burn_call_def receive_call_def receive_with_authorization_def
      split: option.splits prod.splits if_splits intro: token_ok_mint token_ok_burn token_ok_settle)

lemma reserve_append_total:
  assumes "clean_file f" and "reserve_open (Some f) = Inr rl" and "reserve_append out now v reason rl = (e, rl')"
  shows "reserve_replay (rl_file rl') = reserve_replay f \<or> reserve_replay (rl_file rl') = reserve_replay f + v"
    and "e = None \<Longrightarrow> reserve_replay (rl_file rl') = reserve_replay f + v"
proof -
  let ?e = "\<lparr>re_amount = big_show v, re_reason = reason, re_at = unix_of now\<rparr>"
  have rl: "rl_file rl = f" using assms(2) by (auto simp: reserve_open_def)
  have rl': "rl_file rl' = f @ written out ?e" "e = None \<longleftrightarrow> out = IoOk"
    using assms(3) by (auto simp: reserve_append_def file_write_def rl Let_def split: if_splits)
  have p: "parsed (rl_file rl') = parsed f \<or> parsed (rl_file rl') = parsed f @ [?e]"
    using flog.write_atomic [OF assms(1), of out ?e] by (simp add: file_write_def rl'(1))
  then show "reserve_replay (rl_file rl') = reserve_replay f \<or> reserve_replay (rl_file rl') = reserve_replay f + v"
    by (auto simp: reserve_replay_def add_entry_def)
  show "reserve_replay (rl_file rl') = reserve_replay f + v" if "e = None"
    using flog.write_ok [OF assms(1), of ?e] that rl' by (simp add: file_write_def reserve_replay_def add_entry_def)
qed

lemma reserve_at_open: "reserve_at E w = Inr rl \<Longrightarrow> reserve_open (Some (iw_file w)) = Inr rl \<and> reserve_total rl = reserve_replay (iw_file w)"
  by (auto simp: reserve_at_def reserve_open_def reserve_total_def split: if_splits)

section \<open>The supply is backed\<close>

definition backed :: "issuer_world \<Rightarrow> bool" where
  "backed w \<longleftrightarrow> token_ok (iw_token w) \<and>
     int (tk_total_supply (iw_token w)) \<le> reserve_replay (iw_file w)"

lemma mint_send_backed:
  assumes "abi_law (is_abi E)" and "0 < v" and "backed w"
    and "int (tk_total_supply (iw_token w)) + v \<le> reserve_replay (iw_file w)"
  shows "backed (snd (mint_send E to v w))"
proof -
  obtain rep t where s: "submit (is_tx E) (mint_call E to v) (iw_token w) = (rep, t)" by fastforce
  have "t = iw_token w \<or> (token_ok t \<and> int (tk_total_supply t) \<le> int (tk_total_supply (iw_token w)) + v)"
    using submit_cases(1) [OF s] mint_call_supply [OF assms(1,2)] calls_keep_token_ok(1) assms(3)
    by (auto simp: backed_def)
  then have "backed (w\<lparr>iw_token := t\<rparr>)" using assms(3,4) by (auto simp: backed_def)
  then show ?thesis by (simp add: mint_send_def s split: tx_report.split)
qed

lemma run_mint_backed:
  assumes "abi_law (is_abi E)" and "path \<noteq> ''''" and "backed w"
  shows "backed (snd (run_mint E tok to amount path w))"
proof -
  have cap: "int (tk_total_supply (iw_token w)) + v \<le> reserve_replay (iw_file w)" if "mint_cap E path v w = None" for v
    using that assms(2)
    by (auto simp: mint_cap_def Let_def split: sum.splits option.splits if_splits dest: reserve_at_open)
  show ?thesis
    using assms cap by (auto simp: run_mint_def not_le split: option.split intro: mint_send_backed)
qed

lemma run_reserve_backed:
  assumes "backed w" and "clean_file (iw_file w)"
    and "\<And>v. sg < 0 \<Longrightarrow> set_string10 amount = Some v \<Longrightarrow> int (tk_total_supply (iw_token w)) + v \<le> reserve_replay (iw_file w)"
  shows "backed (snd (run_reserve E sg path amount reason w))"
proof -
  have "backed (w\<lparr>iw_file := rl_file rl'\<rparr>)"
    if "set_string10 amount = Some x" "0 < x" "reserve_at E w = Inr rl"
      "reserve_append (is_write E) (is_now E) (if sg < 0 then - x else x) reason rl = (e, rl')" for x rl e rl'
  proof -
    have o: "reserve_open (Some (iw_file w)) = Inr rl" using reserve_at_open [OF that(3)] by simp
    show ?thesis
      using reserve_append_total(1) [OF assms(2) o that(4)] assms(1) assms(3) [OF _ that(1)] that(2) by (auto simp: backed_def split: if_splits)
  qed
  then show ?thesis
    using assms(1) by (auto simp: run_reserve_def not_le split: option.split sum.split prod.split)
qed

lemma redeem_reserve_effect:
  assumes "clean_file (iw_file w)" and "redeem_reserve E a w = (e, w')"
  shows "iw_token w' = iw_token w"
    and "reserve_replay (iw_file w') = reserve_replay (iw_file w) \<or>
      reserve_replay (iw_file w') = reserve_replay (iw_file w) - au_value a"
    and "e = None \<Longrightarrow> reserve_replay (iw_file w') = reserve_replay (iw_file w) - au_value a"
proof -
  show "iw_token w' = iw_token w"
    using assms(2) by (auto simp: redeem_reserve_def split: sum.splits prod.splits option.splits)
  show "reserve_replay (iw_file w') = reserve_replay (iw_file w) \<or>
      reserve_replay (iw_file w') = reserve_replay (iw_file w) - au_value a"
    "e = None \<Longrightarrow> reserve_replay (iw_file w') = reserve_replay (iw_file w) - au_value a"
    using assms reserve_append_total [OF assms(1)] reserve_at_open
    by (auto simp: redeem_reserve_def split: sum.splits prod.splits option.splits) fastforce+
qed

text \<open>What the three steps made of the world, in the order they were reached.\<close>

lemma redeem_steps_effect:
  assumes "redeem_steps E a vrs w = (e, w')"
  obtains (unchanged) "w' = w" "e \<noteq> None"
  | (collected) f t1 where "receive_call E a vrs = Some f" "f (iw_token w) = Inr t1" "w' = w\<lparr>iw_token := t1\<rparr>" "e \<noteq> None"
  | (burned) f t1 g t2 where "receive_call E a vrs = Some f" "f (iw_token w) = Inr t1"
      "burn_call E (is_address E) (au_value a) = Some g" "g t1 = Inr t2" "w' = w\<lparr>iw_token := t2\<rparr>" "e \<noteq> None"
  | (recorded) f t1 g t2 where "receive_call E a vrs = Some f" "f (iw_token w) = Inr t1"
      "burn_call E (is_address E) (au_value a) = Some g" "g t1 = Inr t2"
      "redeem_reserve E a (w\<lparr>iw_token := t2\<rparr>) = (e, w')"
proof -
  obtain rep t where s: "submit (is_tx E) (receive_call E a vrs) (iw_token w) = (rep, t)" by fastforce
  show thesis
  proof (cases "rep = Receipt True")
    case False
    then have w': "w' = w\<lparr>iw_token := t\<rparr>" and e: "e \<noteq> None"
      using assms by (auto simp: redeem_steps_def s split: tx_report.splits bool.splits)
    consider "t = iw_token w" | f where "receive_call E a vrs = Some f" "f (iw_token w) = Inr t"
      using submit_cases(1) [OF s] by blast
    then show thesis
    proof cases
      case 1
      then show thesis by (intro unchanged) (use w' e in simp_all)
    next
      case 2
      then show thesis using collected w' e by blast
    qed
  next
    case True
    then obtain f where f: "receive_call E a vrs = Some f" "f (iw_token w) = Inr t" using submit_cases(2) [OF s] by blast
    have b: "redeem_burn E a (w\<lparr>iw_token := t\<rparr>) = (e, w')" using assms True by (simp add: redeem_steps_def s)
    obtain rep2 t2 where s2: "submit (is_tx2 E) (burn_call E (is_address E) (au_value a)) t = (rep2, t2)" by fastforce
    show thesis
    proof (cases "rep2 = Receipt True")
      case False
      then have "w' = w\<lparr>iw_token := t2\<rparr>" "e \<noteq> None"
        using b by (auto simp: redeem_burn_def s2 split: tx_report.splits bool.splits)
      then show thesis using submit_cases(1) [OF s2] f collected burned by auto
    next
      case True
      then show thesis using b submit_cases(2) [OF s2] f recorded by (auto simp: redeem_burn_def s2)
    qed
  qed
qed

lemma redeem_steps_backed:
  assumes "abi_law (is_abi E)" and "u256_range (au_value a)" and "clean_file (iw_file w)" and "backed w"
    and "redeem_steps E a vrs w = (e, w')"
  shows "backed w'"
  using assms(5)
proof (cases rule: redeem_steps_effect)
  case (recorded f t1 g t2)
  have ok: "token_ok t2" using calls_keep_token_ok(2,3) recorded assms(4) by (meson backed_def)
  have "g = token_burn (is_address E) (is_address E) (nat (au_value a))"
    using burn_call_effect [OF assms(1,2)] recorded(3) .
  then have s: "int (tk_total_supply t2) = int (tk_total_supply (iw_token w)) - au_value a"
    using burn_supply recorded(4) receive_call_supply [OF recorded(1,2)] assms(2)
    by (fastforce simp: u256_range_def of_nat_diff)
  have c: "clean_file (iw_file (w\<lparr>iw_token := t2\<rparr>))" using assms(3) by simp
  show ?thesis
    using redeem_reserve_effect(1,2) [OF c recorded(5)] ok s assms(2-4)
    by (auto simp: backed_def u256_range_def)
next
  case (burned f t1 g t2)
  have "tk_total_supply t2 \<le> tk_total_supply (iw_token w)"
    using receive_call_supply [OF burned(1,2)] burn_call_supply [OF burned(3,4)] by simp
  then show ?thesis
    using calls_keep_token_ok(2) [OF burned(1,2)] calls_keep_token_ok(3) [OF burned(3,4)] assms(4)
    by (auto simp: backed_def burned(5))
next
  case (collected f t1)
  then show ?thesis
    using receive_call_supply [OF collected(1,2)] calls_keep_token_ok(2) [OF collected(1,2)] assms(4)
    by (auto simp: backed_def)
qed (use assms(4) in simp)

lemma map_sum_Pair_Inr [simp]: "map_sum id (Pair x) r = Inr y \<longleftrightarrow> (\<exists>v. r = Inr v \<and> y = (x, v))"
  by (cases r) auto

lemma check_redemption_Inr:
  assumes "check_redemption E req w = Inr (a, vrs)"
  obtains sig where "parse_authorization (is_geth E) (rd_authorization req) = Inr a"
    "issuer_hex_bytes (rd_signature req) = Inr sig"
    "recover_receive_signer (is_geth E) (tk_domain_separator (iw_token w)) a sig = Inr (au_from a)"
    "au_to a = is_address E" "unix_of (is_now E) < au_valid_before a" "split_signature sig = Inr vrs"
  using assms by (auto simp: check_redemption_def Let_def not_le split: sum.splits option.splits if_splits)

lemma run_redeem_steps:
  assumes "run_redeem E tok req path w = (e, w')"
  obtains "w' = w" "e \<noteq> None"
  | q a vrs where "req = Some (Inr q)" "check_redemption E q w = Inr (a, vrs)" "redeem_steps E a vrs w = (e, w')"
proof -
  have "(w' = w \<and> e \<noteq> None) \<or> (\<exists>q a vrs. req = Some (Inr q) \<and> check_redemption E q w = Inr (a, vrs) \<and>
      redeem_steps E a vrs w = (e, w'))"
    using assms by (auto simp: run_redeem_def split: option.splits sum.splits if_splits)
  then show thesis using that by blast
qed

lemma receive_effect:
  assumes "receive_with_authorization G ec c now a v r s t = Inr t'"
  shows "tk_balance_of t' = credit (debit (tk_balance_of t) (au_from a) (nat (au_value a))) (au_to a) (nat (au_value a))"
    and "\<not> tk_authorization_state t (au_from a) (au_nonce a)" and "tk_authorization_state t' (au_from a) (au_nonce a)"
    and "nat (au_value a) \<le> tk_balance_of t (au_from a)"
  using assms by (auto simp: receive_with_authorization_def settle_authorization_def move_tokens_def Let_def
      split: if_splits)

lemma burn_effect:
  assumes "token_burn c from n t = Inr t'"
  shows "tk_balance_of t' = debit (tk_balance_of t) from n" "tk_authorization_state t' = tk_authorization_state t"
  using assms by (auto simp: token_burn_def split: if_splits)

lemma debit_credit: "v \<le> b a \<Longrightarrow> debit (credit (debit b a v) c v) c v = debit b a v"
  by (auto simp: debit_def credit_def)

lemma redeem_steps_settle:
  assumes "abi_law (is_abi E)" and "auth_in_range a" and "clean_file (iw_file w)" and "redeem_steps E a vrs w = (e, w')"
    and "au_to a = is_address E"
  shows "e = None \<Longrightarrow>
      tk_balance_of (iw_token w') = debit (tk_balance_of (iw_token w)) (au_from a) (nat (au_value a)) \<and>
      int (tk_total_supply (iw_token w')) = int (tk_total_supply (iw_token w)) - au_value a \<and>
      \<not> tk_authorization_state (iw_token w) (au_from a) (au_nonce a) \<and>
      tk_authorization_state (iw_token w') (au_from a) (au_nonce a) \<and>
      reserve_replay (iw_file w') = reserve_replay (iw_file w) - au_value a"
    and "reserve_replay (iw_file w) - int (tk_total_supply (iw_token w))
      \<le> reserve_replay (iw_file w') - int (tk_total_supply (iw_token w'))"
proof -
  have v: "u256_range (au_value a)" using assms(2) by (simp add: auth_in_range_def)
  obtain rv r s where vrs: "vrs = (rv, r, s)" by (cases vrs)
  have coll: "tk_total_supply t1 = tk_total_supply (iw_token w)"
      "tk_balance_of t1 = credit (debit (tk_balance_of (iw_token w)) (au_from a) (nat (au_value a))) (is_address E) (nat (au_value a))"
      "\<not> tk_authorization_state (iw_token w) (au_from a) (au_nonce a)" "tk_authorization_state t1 (au_from a) (au_nonce a)"
      "nat (au_value a) \<le> tk_balance_of (iw_token w) (au_from a)"
    if "receive_call E a vrs = Some f" "f (iw_token w) = Inr t1" for f t1
  proof -
    have "receive_with_authorization (is_geth E) (is_ec E) (is_address E) (is_block_time E) a rv r s (iw_token w) = Inr t1"
      using receive_call_effect [OF assms(1,2), of rv r s f] that vrs by simp
    note receive_effect [OF this] receive_supply [OF this]
    then show "tk_total_supply t1 = tk_total_supply (iw_token w)"
      "tk_balance_of t1 = credit (debit (tk_balance_of (iw_token w)) (au_from a) (nat (au_value a))) (is_address E) (nat (au_value a))"
      "\<not> tk_authorization_state (iw_token w) (au_from a) (au_nonce a)" "tk_authorization_state t1 (au_from a) (au_nonce a)"
      "nat (au_value a) \<le> tk_balance_of (iw_token w) (au_from a)"
      using assms(5) by simp_all
  qed
  have brn: "int (tk_total_supply t2) = int (tk_total_supply t1) - au_value a"
      "tk_balance_of t2 = debit (tk_balance_of t1) (is_address E) (nat (au_value a))"
      "tk_authorization_state t2 = tk_authorization_state t1"
    if "burn_call E (is_address E) (au_value a) = Some g" "g t1 = Inr t2" for g t1 t2
  proof -
    have "token_burn (is_address E) (is_address E) (nat (au_value a)) t1 = Inr t2"
      using burn_call_effect [OF assms(1) v that(1)] that(2) by simp
    note burn_effect [OF this] burn_supply [OF this]
    then show "int (tk_total_supply t2) = int (tk_total_supply t1) - au_value a"
      "tk_balance_of t2 = debit (tk_balance_of t1) (is_address E) (nat (au_value a))"
      "tk_authorization_state t2 = tk_authorization_state t1"
      using v by (auto simp: u256_range_def of_nat_diff)
  qed
  have pos: "0 \<le> au_value a" using v by (simp add: u256_range_def)
  show "e = None \<Longrightarrow>
      tk_balance_of (iw_token w') = debit (tk_balance_of (iw_token w)) (au_from a) (nat (au_value a)) \<and>
      int (tk_total_supply (iw_token w')) = int (tk_total_supply (iw_token w)) - au_value a \<and>
      \<not> tk_authorization_state (iw_token w) (au_from a) (au_nonce a) \<and>
      tk_authorization_state (iw_token w') (au_from a) (au_nonce a) \<and>
      reserve_replay (iw_file w') = reserve_replay (iw_file w) - au_value a"
    using assms(4)
  proof (cases rule: redeem_steps_effect)
    case (recorded f t1 g t2)
    assume "e = None"
    have c: "clean_file (iw_file (w\<lparr>iw_token := t2\<rparr>))" using assms(3) by simp
    show ?thesis
      using redeem_reserve_effect(1,3) [OF c recorded(5)] coll [OF recorded(1,2)] brn [OF recorded(3,4)] \<open>e = None\<close>
      by (simp add: debit_credit)
  qed simp_all
  show "reserve_replay (iw_file w) - int (tk_total_supply (iw_token w))
      \<le> reserve_replay (iw_file w') - int (tk_total_supply (iw_token w'))"
    using assms(4)
  proof (cases rule: redeem_steps_effect)
    case (collected f t1)
    then show ?thesis using coll(1) by simp
  next
    case (burned f t1 g t2)
    then show ?thesis using coll(1) [OF burned(1,2)] brn(1) [OF burned(3,4)] pos by simp
  next
    case (recorded f t1 g t2)
    have c: "clean_file (iw_file (w\<lparr>iw_token := t2\<rparr>))" using assms(3) by simp
    show ?thesis
      using redeem_reserve_effect(1,2) [OF c recorded(5)] coll(1) [OF recorded(1,2)] brn(1) [OF recorded(3,4)] pos by auto
  qed simp
qed

section \<open>The issuer as a machine\<close>

text \<open>
  Runs of the commands, each with what the world answers it, between transactions of
  anybody on the contract.
\<close>

datatype issuer_event =
    RunMint issuer_env string string string string
  | RunReserve issuer_env int string string string
  | RunRedeem issuer_env string "redemption_request result option" string
  | OnChain geth ecrecover token_tx

fun issuer_step :: "issuer_world \<Rightarrow> issuer_event \<Rightarrow> issuer_world" where
  "issuer_step w (RunMint E tok to amount path) = snd (run_mint E tok to amount path w)"
| "issuer_step w (RunReserve E sg path amount reason) = snd (run_reserve E sg path amount reason w)"
| "issuer_step w (RunRedeem E tok req path) = snd (run_redeem E tok req path w)"
| "issuer_step w (OnChain G ec tx) = w\<lparr>iw_token := token_step G ec (iw_token w) tx\<rparr>"

text \<open>
  The discipline: mints name the reserve, nobody mints but by the command, a withdrawal
  leaves the supply covered, a redemption is for a uint256, and no command appends to a file
  whose last line a failed write left torn.
\<close>

fun disciplined :: "issuer_world \<Rightarrow> issuer_event \<Rightarrow> bool" where
  "disciplined w (RunMint E tok to amount path) \<longleftrightarrow> abi_law (is_abi E) \<and> path \<noteq> ''''"
| "disciplined w (RunReserve E sg path amount reason) \<longleftrightarrow> clean_file (iw_file w) \<and>
     (sg < 0 \<longrightarrow> (case set_string10 amount of None \<Rightarrow> True
        | Some v \<Rightarrow> int (tk_total_supply (iw_token w)) + v \<le> reserve_replay (iw_file w)))"
| "disciplined w (RunRedeem E tok req path) \<longleftrightarrow> clean_file (iw_file w) \<and> abi_law (is_abi E) \<and>
     (case req of Some (Inr q) \<Rightarrow> (case parse_authorization (is_geth E) (rd_authorization q) of
        Inr a \<Rightarrow> u256_range (au_value a) | Inl _ \<Rightarrow> True) | _ \<Rightarrow> True)"
| "disciplined w (OnChain G ec tx) \<longleftrightarrow> (\<forall>to v. tx_call tx \<noteq> CallMint to v)"

lemma exec_supply:
  assumes "token_exec G ec c now call t = Inr t'" and "\<forall>to v. call \<noteq> CallMint to v"
  shows "tk_total_supply t' \<le> tk_total_supply t"
proof -
  have mv: "tk_total_supply t2 = tk_total_supply t1" if "move_tokens a b v t1 = Inr t2" for a b v t1 t2
    using that by (auto simp: move_tokens_def Let_def split: if_splits)
  have st: "tk_total_supply t2 = tk_total_supply t1" if "settle_authorization G ec h now a v r s t1 = Inr t2"
    for h a v r s t1 t2
    using that by (auto simp: settle_authorization_def Let_def dest: mv split: if_splits)
  show ?thesis
    using assms by (cases call)
      (auto simp: token_approve_def set_paused_def set_frozen_def set_allowed_def set_allowlist_enabled_def
        transfer_issuer_def accept_issuer_def token_transfer_def
        token_transfer_from_def transfer_with_authorization_def receive_with_authorization_def Let_def
        split: if_splits dest: mv st burn_supply)
qed

interpretation issuer: machine issuer_step disciplined backed
proof unfold_locales
  fix w ev
  assume b: "backed w" and d: "disciplined w ev"
  show "backed (issuer_step w ev)"
  proof (cases ev)
    case (RunMint E tok to amount path)
    then show ?thesis using b d by (simp add: run_mint_backed)
  next
    case (RunReserve E sg path amount reason)
    have "int (tk_total_supply (iw_token w)) + v \<le> reserve_replay (iw_file w)"
      if "sg < 0" "set_string10 amount = Some v" for v
      using d that RunReserve by simp
    then show ?thesis using b d RunReserve by (simp add: run_reserve_backed)
  next
    case (RunRedeem E tok req path)
    obtain e w' where r: "run_redeem E tok req path w = (e, w')" by fastforce
    have "backed w'"
      using r
    proof (cases rule: run_redeem_steps)
      case (2 q a vrs)
      then have "u256_range (au_value a)" using d RunRedeem by (auto elim!: check_redemption_Inr)
      then show ?thesis using redeem_steps_backed [OF _ _ _ b 2(3)] d RunRedeem by simp
    qed (use b in simp)
    then show ?thesis by (simp add: RunRedeem r)
  next
    case (OnChain G ec tx)
    have "tk_total_supply (token_step G ec (iw_token w) tx) \<le> tk_total_supply (iw_token w)"
      using d OnChain by (auto simp: token_step_def split: sum.split dest: exec_supply)
    then show ?thesis
      using b token_ok_moves [OF _ token_step_moves, of "iw_token w" G ec tx] by (auto simp: OnChain backed_def)
  qed
qed

text \<open>
  What the commands do not check: a withdrawal does not look at the supply, a mint does not
  look at its receipt, and a collection whose receipt was not seen is reported as reverted.
\<close>

lemma withdrawal_ignores_supply:
  assumes "path \<noteq> ''''" and "set_string10 amount = Some v" and "0 < v" and "is_file_opens E" and "is_write E = IoOk"
    and "clean_file (iw_file w)"
  shows "\<exists>f. run_reserve E (-1) path amount reason w = (None, w\<lparr>iw_file := f\<rparr>) \<and>
    reserve_replay f = reserve_replay (iw_file w) - v"
proof -
  obtain rl where rl: "reserve_at E w = Inr rl" "reserve_open (Some (iw_file w)) = Inr rl"
    using assms(4) by (simp add: reserve_at_def reserve_open_def)
  obtain rl' where rl': "reserve_append IoOk (is_now E) (- v) reason rl = (None, rl')"
    by (simp add: reserve_append_def file_write_def)
  show ?thesis
    using reserve_append_total(2) [OF assms(6) rl(2) rl'] assms(1-3) rl(1) rl'
    by (intro exI [of _ "rl_file rl'"]) (simp add: run_reserve_def assms(5))
qed

lemma reverted_mint_reports_success:
  assumes "is_tx E = Mined" and "mint_call E to v = Some f" and "f (iw_token w) = Inl e" and "is_read E ''balanceOf'' = None"
  shows "mint_send E to v w = (None, w)"
  using assms by (simp add: mint_send_def submit_def)

lemma hidden_collection_reported_unchanged:
  assumes "is_tx E = Unseen e True" and "receive_call E a vrs = Some f" and "f (iw_token w) = Inr t1"
  shows "redeem_steps E a vrs w = (Some ''redemption step 1 (collect) reverted, nothing changed'', w\<lparr>iw_token := t1\<rparr>)"
  using assms by (simp add: redeem_steps_def submit_def)

section \<open>Properties\<close>

text \<open>
  C3. The supply stays backed: over any run of the issuer's commands and of anybody's
  transactions, whatever the node refuses, reverts or hides and whichever write fails, torn
  lines included, the contract's supply never exceeds what the reserve file adds up to,
  provided tokens are minted by the command only and with the reserve named, withdrawals leave
  the supply covered, redemptions are for a uint256, and nothing is appended to a file whose
  last line is torn.
\<close>

theorem supply_stays_backed:
  assumes "token_ok (iw_token w)"
    and "int (tk_total_supply (iw_token w)) \<le> reserve_replay (iw_file w)"
    and "allowed issuer_step disciplined w events"
  shows "int (tk_total_supply (iw_token (run issuer_step w events)))
    \<le> reserve_replay (iw_file (run issuer_step w events))"
proof -
  have "backed w" using assms(1,2) by (simp add: backed_def)
  then show ?thesis using issuer.run_inv [OF _ assms(3)] by (auto simp: backed_def)
qed


text \<open>
  Reconciling with the reserve decides the backing: on a node that serves the contract's
  logs and state, \<open>issuer reconcile --reserve\<close> finds no mismatch between ledger and chain and
  succeeds exactly when the supply is within the reserve file's total.
\<close>

theorem reconcile_decides_backing:
  assumes "geth_address (is_geth E)" and "iw_token w = run (token_step (is_geth E) ec) (token_new deployer domain) txs"
    and "ch_logs r 0 None = Inr logs" and "list_all2 encodes logs (tk_log (iw_token w))"
    and "tr_total_supply tr = Inr (int (tk_total_supply (iw_token w)))"
    and "\<forall>a. tr_balance_of tr a = Inr (int (tk_balance_of (iw_token w) a))"
    and "is_hex_address (is_geth E) tok" and "tok \<noteq> ''''" and "is_connect E = None"
    and "is_file_opens E" and "path \<noteq> ''''"
  shows "run_reconcile E tok '''' path (r, tr) trwa w
    = Inr (int (tk_total_supply (iw_token w)) \<le> reserve_replay (iw_file w))"
proof -
  obtain rep where rep: "fst (reconcile (is_geth E) r tr ledger_new) = Inr rep" "report_ok rep"
    "rp_ledger_supply rep = int (tk_total_supply (iw_token w))"
    using reconcile_run_facts [OF assms(1-6)] by blast
  have rl: "reserve_at E w = Inr \<lparr>rl_file = iw_file w, rl_total = reserve_replay (iw_file w)\<rparr>"
    using assms(10) by (simp add: reserve_at_def reserve_open_def)
  show ?thesis
    using assms(7-9,11) rep
    by (simp add: run_reconcile_def require_hex_address_def reconcile_one_def rl reserve_total_def not_less)
qed

text \<open>
  The cap is checked, then acted on: two mints that both read the supply before either
  is mined both pass the reserve check and both report success, and together leave the
  supply above the reserve.
\<close>

theorem concurrent_mints_exceed_reserve:
  assumes "mint_cap E1 path v1 w = None" and "mint_cap E2 path v2 w = None"
    and "is_tx E1 = Mined" and "is_tx E2 = Mined" and "is_read E1 ''balanceOf'' = None" and "is_read E2 ''balanceOf'' = None"
    and "abi_law (is_abi E1)" and "abi_law (is_abi E2)" and "0 < v1" and "0 < v2"
    and "is_address E1 = tk_issuer (iw_token w)" and "is_address E2 = tk_issuer (iw_token w)"
    and "\<not> tk_paused (iw_token w)" and "\<not> tk_allowlist_enabled (iw_token w)" and "to \<noteq> 0" and "token_ok (iw_token w)"
    and "int (tk_total_supply (iw_token w)) + v1 + v2 \<le> int uint256_max"
    and "reserve_replay (iw_file w) < int (tk_total_supply (iw_token w)) + v1 + v2"
    and "mint_send E1 to v1 w = (e1, w1)" and "mint_send E2 to v2 w1 = (e2, w2)"
  shows "e1 = None \<and> e2 = None \<and> iw_file w2 = iw_file w \<and>
    reserve_replay (iw_file w2) < int (tk_total_supply (iw_token w2))"
proof -
  have mint: "\<exists>t'. mint_send E to v u = (None, u\<lparr>iw_token := t'\<rparr>) \<and> token_ok t' \<and>
      int (tk_total_supply t') = int (tk_total_supply (iw_token u)) + v \<and> tk_issuer t' = tk_issuer (iw_token u) \<and>
      tk_paused t' = tk_paused (iw_token u) \<and> tk_allowlist_enabled t' = tk_allowlist_enabled (iw_token u)"
    if "is_tx E = Mined" "is_read E ''balanceOf'' = None" "abi_law (is_abi E)" "0 < v" "is_address E = tk_issuer (iw_token u)"
      "\<not> tk_paused (iw_token u)" "\<not> tk_allowlist_enabled (iw_token u)" "token_ok (iw_token u)"
      "int (tk_total_supply (iw_token u)) + v \<le> int uint256_max" for E v u
  proof -
    let ?t = "iw_token u"
    let ?t' = "emit 0 to (nat v) (?t\<lparr>tk_total_supply := tk_total_supply ?t + nat v,
      tk_balance_of := credit (tk_balance_of ?t) to (nat v)\<rparr>)"
    have "u256_range v" using that(4,9) by (simp add: u256_range_def uint256_max_def)
    then have c: "mint_call E to v = Some (token_mint (is_address E) to (nat v))"
      using that(3) by (simp add: mint_call_def abi_law_def)
    have s: "tk_total_supply ?t + nat v \<le> uint256_max" using that(4,9) by linarith
    then have "tk_balance_of ?t to + nat v \<le> uint256_max"
      using balance_le_sum [of "tk_balance_of ?t" to] that(8) by (simp add: token_ok_def sum_balances_def)
    with s have m: "token_mint (is_address E) to (nat v) ?t = Inr ?t'"
      using that(5-7) assms(15) by (simp add: token_mint_def)
    have "submit Mined (Some (token_mint (is_address E) to (nat v))) ?t = (Receipt True, ?t')"
      using m by (simp add: submit_def)
    then have "mint_send E to v u = (None, u\<lparr>iw_token := ?t'\<rparr>)"
      by (simp add: mint_send_def c that(1,2))
    then show ?thesis
      using token_ok_mint [OF that(8) m] that(4) by (intro exI [of _ ?t']) (simp add: emit_def)
  qed
  obtain t1 where t1: "mint_send E1 to v1 w = (None, w\<lparr>iw_token := t1\<rparr>)" "token_ok t1"
      "int (tk_total_supply t1) = int (tk_total_supply (iw_token w)) + v1" "tk_issuer t1 = tk_issuer (iw_token w)"
      "tk_paused t1 = tk_paused (iw_token w)" "tk_allowlist_enabled t1 = tk_allowlist_enabled (iw_token w)"
    using mint [of E1 v1 w] assms by auto
  obtain t2 where t2: "mint_send E2 to v2 w1 = (None, w1\<lparr>iw_token := t2\<rparr>)"
      "int (tk_total_supply t2) = int (tk_total_supply (iw_token w1)) + v2"
    using mint [of E2 v2 w1] assms t1 by auto
  show ?thesis using assms(18-20) t1(1,3) t2 by auto
qed

section \<open>Witnesses\<close>

text \<open>An issuer of key address 1 on a healthy node: 1000 in the reserve, 100 minted to 2.\<close>

definition sample_issuer :: issuer_env where
  "sample_issuer = \<lparr>is_geth = sample_geth, is_ec = (\<lambda>_ _ _ _. 2),
     is_abi = (\<lambda>v. if u256_range v then Some (nat v) else None), is_address = 1, is_connect = None,
     is_read = (\<lambda>_. None), is_now = 1000000000000, is_block_time = 1000, is_tx = Mined, is_tx2 = Mined,
     is_file_opens = True, is_write = IoOk\<rparr>"

definition sample_issued :: issuer_world where
  "sample_issued = \<lparr>iw_token = sample_token,
     iw_file = [Whole \<lparr>re_amount = ''1000'', re_reason = ''deposit'', re_at = 0\<rparr>, Newline]\<rparr>"

lemma sample_issued_total [simp]: "reserve_replay (iw_file sample_issued) = 1000"
  by code_simp

lemma sample_issued_clean [simp]: "clean_file (iw_file sample_issued)"
  by (simp add: sample_issued_def clean_file_def)

lemma sample_issued_sel [simp]:
  "iw_token sample_issued = sample_token" "tk_total_supply sample_token = 100" "tk_issuer sample_token = 1"
  "\<not> tk_paused sample_token" "\<not> tk_allowlist_enabled sample_token" "tk_domain_separator sample_token = 0"
  by (simp_all add: sample_issued_def sample_token_def token_new_def)

lemma sample_token_ok [simp]: "token_ok sample_token"
proof -
  have "sum_balances sample_token = 100"
    using sum_fun_upd [of "\<lambda>_. 0" 2 100] by (simp add: sum_balances_def sample_token_def)
  then show ?thesis by (simp add: token_ok_def uint256_max_def)
qed

lemma sample_issuer_sel [simp]:
  "is_tx sample_issuer = Mined" "is_tx2 sample_issuer = Mined" "is_read sample_issuer m = None" "is_address sample_issuer = 1"
  "is_geth sample_issuer = sample_geth" "is_connect sample_issuer = None" "is_file_opens sample_issuer"
  "is_write sample_issuer = IoOk" "is_now sample_issuer = 1000000000000" "is_block_time sample_issuer = 1000"
  by (simp_all add: sample_issuer_def)

lemma sample_issuer_abi [simp]: "abi_law (is_abi sample_issuer)"
  by (simp add: abi_law_def sample_issuer_def)

theorem supply_stays_backed_witness:
  "let w' = run issuer_step sample_issued
     [RunMint sample_issuer (address_hex sample_geth 9) (address_hex sample_geth 3) ''800'' ''reserve.jsonl'',
      RunMint sample_issuer (address_hex sample_geth 9) (address_hex sample_geth 3) ''800'' ''reserve.jsonl'',
      OnChain sample_geth (\<lambda>_ _ _ _. 2) \<lparr>tx_caller = 3, tx_time = 1000, tx_call = CallTransfer 4 50\<rparr>] in
   int (tk_total_supply (iw_token w')) \<le> reserve_replay (iw_file w')"
  unfolding Let_def
  by (rule supply_stays_backed) simp_all

theorem concurrent_mints_witness:
  "\<exists>w1 w2. mint_send sample_issuer 3 800 sample_issued = (None, w1) \<and> mint_send sample_issuer 3 900 w1 = (None, w2) \<and>
     reserve_replay (iw_file w2) < int (tk_total_supply (iw_token w2))"
proof -
  have cap: "mint_cap sample_issuer ''reserve.jsonl'' v sample_issued = None" if "v \<le> 900" for v
    using that by (simp add: mint_cap_def reserve_at_def reserve_open_def reserve_total_def)
  obtain e1 w1 where w1: "mint_send sample_issuer 3 800 sample_issued = (e1, w1)" by fastforce
  obtain e2 w2 where w2: "mint_send sample_issuer 3 900 w1 = (e2, w2)" by fastforce
  have "e1 = None \<and> e2 = None \<and> iw_file w2 = iw_file sample_issued \<and>
      reserve_replay (iw_file w2) < int (tk_total_supply (iw_token w2))"
    by (rule concurrent_mints_exceed_reserve [OF cap cap _ _ _ _ sample_issuer_abi sample_issuer_abi _ _ _ _ _ _ _ _ _ _ w1 w2])
      (simp_all add: uint256_max_def)
  then show ?thesis using w1 w2 by auto
qed

text \<open>The holder 2 redeems 60 with the issuer 1.\<close>

definition redeem_auth :: authorization where
  "redeem_auth = \<lparr>au_from = 2, au_to = 1, au_value = 60, au_valid_after = 0, au_valid_before = 2000, au_nonce = 5\<rparr>"

definition redeem_signature :: "byte list" where
  "redeem_signature = bump_v (bytes32_bytes 2 @ bytes32_bytes (digest sample_geth 0 (receive_struct_hash sample_geth redeem_auth)) @ [0])"

definition redeem_request :: redemption_request where
  "redeem_request = \<lparr>rd_authorization = \<lparr>aj_from = address_hex sample_geth 2, aj_to = address_hex sample_geth 1,
       aj_value = ''60'', aj_valid_after = ''0'', aj_valid_before = ''2000'', aj_nonce = ''0x'' @ hex_encode (bytes32_bytes 5)\<rparr>,
     rd_signature = ''0x'' @ hex_encode redeem_signature\<rparr>"

lemma redeem_parse: "parse_authorization sample_geth (rd_authorization redeem_request) = Inr redeem_auth"
proof -
  have "is_hex_address sample_geth (address_hex sample_geth a)" "hex_to_address sample_geth (address_hex sample_geth a) = a"
    for a using geth_textD(1,2) [OF sample_geth_text] by blast+
  moreover have "set_string10 ''60'' = Some 60" "set_string10 ''0'' = Some 0" "set_string10 ''2000'' = Some 2000"
    by code_simp+
  ultimately show ?thesis by (simp add: parse_authorization_def redeem_request_def decode_0x_def redeem_auth_def)
qed

lemma redeem_recovers: "recover_receive_signer sample_geth 0 redeem_auth redeem_signature = Inr 2"
proof -
  let ?h = "digest sample_geth 0 (receive_struct_hash sample_geth redeem_auth)"
  have "crypto_sign sample_geth ?h 2 = Some (bytes32_bytes 2 @ bytes32_bytes ?h @ [0])"
    by (simp add: sample_geth_def)
  from recover_crypto_sign [OF sample_geth_sig this] show ?thesis
    by (simp add: recover_receive_signer_def redeem_signature_def sample_geth_def)
qed

lemma sample_address_nonempty: "address_hex sample_geth a \<noteq> ''''"
  by (simp add: sample_geth_def)

lemma token_flag: "require_hex_address sample_geth ''token'' (address_hex sample_geth a) = None"
  using geth_textD(1) [OF sample_geth_text] sample_address_nonempty by (simp add: require_hex_address_def)

lemma redeem_checked: "\<exists>vrs. check_redemption sample_issuer redeem_request sample_issued = Inr (redeem_auth, vrs)"
proof -
  have "issuer_hex_bytes (rd_signature redeem_request) = Inr redeem_signature"
    by (simp add: issuer_hex_bytes_def redeem_request_def)
  moreover have "length redeem_signature = 65" by (simp add: redeem_signature_def bump_v_def)
  ultimately show ?thesis
    using redeem_recovers
    by (simp add: check_redemption_def redeem_parse split_signature_def)
      (simp add: redeem_auth_def unix_of_def ns_per_second_def)
qed


definition issued_readers :: "chain_reader \<times> token_reader" where
  "issued_readers =
     (\<lparr>ch_head = Inr 0, ch_hash = (\<lambda>_. Inr 0), ch_logs = (\<lambda>_ _. Inr (map encode_log (tk_log sample_minted)))\<rparr>,
      \<lparr>tr_total_supply = Inr (int (tk_total_supply sample_minted)),
       tr_balance_of = (\<lambda>a. Inr (int (tk_balance_of sample_minted a)))\<rparr>)"

theorem reconcile_decides_witness:
  "run_reconcile sample_issuer (address_hex sample_geth 9) '''' ''reserve.jsonl'' issued_readers issued_readers
     (sample_issued\<lparr>iw_token := sample_minted\<rparr>) = Inr (int (tk_total_supply sample_minted) \<le> 1000)"
proof -
  have "list_all2 encodes (map encode_log es) es" for es
    by (induction es) (simp_all add: encodes_def encode_log_def)
  then show ?thesis
    using reconcile_decides_backing [where E = sample_issuer and w = "sample_issued\<lparr>iw_token := sample_minted\<rparr>"
        and logs = "map encode_log (tk_log sample_minted)" and tok = "address_hex sample_geth 9" and path = "''reserve.jsonl''"
        and r = "fst issued_readers" and tr = "snd issued_readers" and trwa = issued_readers
        and txs = "[\<lparr>tx_caller = 1, tx_time = 0, tx_call = CallMint 2 100\<rparr>, \<lparr>tx_caller = 2, tx_time = 1, tx_call = CallTransfer 3 40\<rparr>]"
        and ec = "\<lambda>_ _ _ _. 0" and deployer = 1 and domain = 0]
      geth_textD(1) [OF sample_geth_text] sample_address_nonempty
    by (simp add: sample_minted_def [unfolded run.simps, symmetric] issued_readers_def)
qed

end
