(* ===== verification/GatewayStart.thy ===== *)
theory GatewayStart
  imports GatewayRuns
begin

text \<open>
  Starting a gateway (\<open>cmd/gateway\<close>): the flags are checked, a gateway is built in local or
  remote mode, and the policies, delivery, sessions, table and journal the flags ask for are
  attached, in this order. What the start meets outside (the node, keys, files, bindings) is
  the record \<open>start_env\<close>. The theorems say which policies a started gateway applies, what a
  payment it serves has passed, and which combinations of flags never start.
\<close>

section \<open>Flags and surroundings\<close>

record gateway_flags =
  fg_token :: string
  fg_identity_registry :: string
  fg_eligibility_registry :: string
  fg_require_mandate :: bool
  fg_ask_on_exceed :: bool
  fg_defer_above :: int
  fg_confirm_depth :: nat
  fg_accept_table :: string
  fg_asset :: string
  fg_asset_amount :: int
  fg_dvp :: string
  fg_sessions :: bool
  fg_require_bound_nonce :: bool
  fg_receipt_key :: string
  fg_price :: int
  fg_pay_to :: string
  fg_facilitator_url :: string
  fg_network :: string
  fg_journal :: string
  fg_kafka_brokers :: string

type_synonym 'w facilitator_calls =
  "(payment_payload \<Rightarrow> payment_requirements \<Rightarrow> 'w \<Rightarrow> verify_result option result \<times> 'w) \<times>
   (payment_payload \<Rightarrow> payment_requirements \<Rightarrow> 'w \<Rightarrow> settlement_response option result \<times> 'w)"

text \<open>
  The node's chain id and the key's address (or the error), the receipt key by the name of
  its variable, the registries by their address, the files, and the parts of a gateway that
  call outside: facilitators, deliverer, refunder, node reads, clock, randomness, disk.
\<close>

record 'w start_env =
  sx_geth :: geth
  sx_dial :: "int result"
  sx_key :: "address result"
  sx_receipt_key :: "string \<Rightarrow> bytes32 result"
  sx_identity :: "address \<Rightarrow> 'w \<Rightarrow> registry"
  sx_eligibility :: "address \<Rightarrow> 'w \<Rightarrow> registry"
  sx_table :: "string \<Rightarrow> raw_table option result"
  sx_journal :: "string \<Rightarrow> journal result"
  sx_sink_error :: "string option"
  sx_local :: "address \<Rightarrow> 'w facilitator_calls"
  sx_remote :: "string \<Rightarrow> 'w facilitator_calls"
  sx_dvp :: "address \<Rightarrow> int \<Rightarrow> 'w facilitator_calls"
  sx_deliverer :: "address \<Rightarrow> int \<Rightarrow> address \<Rightarrow> 'w \<Rightarrow> bytes32 result \<times> 'w"
  sx_refunder :: "address \<Rightarrow> int option \<Rightarrow> 'w \<Rightarrow> bytes32 result \<times> 'w"
  sx_head :: "'w \<Rightarrow> nat result"
  sx_tx_block :: "bytes32 \<Rightarrow> 'w \<Rightarrow> nat option"
  sx_now :: "'w \<Rightarrow> int"
  sx_random :: "'w \<Rightarrow> bytes32 option \<times> 'w"
  sx_disk :: "journal_entry \<Rightarrow> 'w \<Rightarrow> io"

text \<open>
  The gateway under construction. Its policy is the chain's members, each what it is in a
  world (a registry is read when a payment is decided), \<open>None\<close> for nil; \<open>su_client\<close> is whether
  there is a client of the node, so local mode.
\<close>

record 'w assembly =
  su_gateway :: "'w gateway_env"
  su_client :: bool
  su_policy :: "('w \<Rightarrow> policy) list option"
  su_mandate :: "mandate_policy option"
  su_journal :: "journal option"
  su_publishing :: bool

section \<open>Building the gateway\<close>

definition new_gateway :: "'w start_env \<Rightarrow> 'w facilitator_calls \<Rightarrow> address \<Rightarrow> address \<Rightarrow> int \<Rightarrow> string \<Rightarrow> 'w gateway_env" where
  "new_gateway S fac tok pay_to price network = \<lparr>
     ge_geth = sx_geth S, ge_token_address = tok, ge_pay_to = pay_to, ge_price = price, ge_network = network,
     ge_timeout = 0, ge_dvp_address = 0, ge_require_bound_nonce = False, ge_receipt_key = None,
     ge_confirm_depth = 0, ge_sessions_enabled = False, ge_policy = (\<lambda>_. None), ge_scorer = None,
     ge_verify = fst fac, ge_settle = snd fac, ge_deliverer = None, ge_refunder = None,
     ge_head = sx_head S, ge_tx_block = sx_tx_block S, ge_now = sx_now S, ge_random = sx_random S, ge_disk = sx_disk S\<rparr>"

definition bare_assembly :: "bool \<Rightarrow> 'w gateway_env \<Rightarrow> 'w assembly" where
  "bare_assembly client g = \<lparr>su_gateway = g, su_client = client, su_policy = None, su_mandate = None,
     su_journal = None, su_publishing = False\<rparr>"

definition local_gateway :: "'w start_env \<Rightarrow> gateway_flags \<Rightarrow> 'w assembly result" where
  "local_gateway S F =
     and_then (sx_dial S) (\<lambda>chain_id. and_then (sx_key S) (\<lambda>addr.
       if fg_pay_to F \<noteq> '''' \<and> \<not> is_hex_address (sx_geth S) (fg_pay_to F) then Inl ''--pay-to is not a valid address''
       else (let tok = hex_to_address (sx_geth S) (fg_token F);
                 pay_to = (if fg_pay_to F \<noteq> '''' then hex_to_address (sx_geth S) (fg_pay_to F) else addr) in
             Inr (bare_assembly True (new_gateway S (sx_local S tok) tok pay_to (fg_price F) (''eip155:'' @ big_show chain_id))))))"

definition remote_gateway :: "'w start_env \<Rightarrow> gateway_flags \<Rightarrow> 'w assembly result" where
  "remote_gateway S F =
     (if fg_network F = '''' then Inl ''--network is required with --facilitator-url''
      else if fg_pay_to F = '''' \<or> \<not> is_hex_address (sx_geth S) (fg_pay_to F) then
        Inl ''--pay-to must be a valid address with --facilitator-url''
      else Inr (bare_assembly False (new_gateway S (sx_remote S (fg_facilitator_url F))
                  (hex_to_address (sx_geth S) (fg_token F)) (hex_to_address (sx_geth S) (fg_pay_to F)) (fg_price F) (fg_network F))))"

section \<open>What the flags attach\<close>

definition policy_base :: "'w assembly \<Rightarrow> ('w \<Rightarrow> policy) list" where
  "policy_base u = (case su_policy u of None \<Rightarrow> [\<lambda>_. AlwaysVerify] | Some ps \<Rightarrow> ps)"

text \<open>A remote gateway dials the node for the lookups; a local one has its client.\<close>

definition attach_identity :: "'w start_env \<Rightarrow> string \<Rightarrow> 'w assembly \<Rightarrow> 'w assembly result" where
  "attach_identity S reg u =
     (if \<not> is_hex_address (sx_geth S) reg then Inl ''--identity-registry must be a valid address''
      else case (if su_client u then Inr 0 else sx_dial S) of
        Inl e \<Rightarrow> Inl (''identity lookups need a reachable --rpc: '' @ e)
      | Inr _ \<Rightarrow> Inr (u\<lparr>su_policy := Some [\<lambda>_. AlwaysVerify,
                        \<lambda>w. IdentityPolicy (sx_identity S (hex_to_address (sx_geth S) reg) w)]\<rparr>))"

definition attach_eligibility :: "'w start_env \<Rightarrow> string \<Rightarrow> 'w assembly \<Rightarrow> 'w assembly result" where
  "attach_eligibility S reg u =
     (if \<not> is_hex_address (sx_geth S) reg then Inl ''--eligibility-registry must be a valid address''
      else case (if su_client u then Inr 0 else sx_dial S) of
        Inl e \<Rightarrow> Inl (''eligibility lookups need a reachable --rpc: '' @ e)
      | Inr _ \<Rightarrow> Inr (u\<lparr>su_policy := Some (policy_base u @
                        [\<lambda>w. EligibilityPolicy (sx_eligibility S (hex_to_address (sx_geth S) reg) w)])\<rparr>))"

definition gateway_chain_id :: "string \<Rightarrow> int result" where
  "gateway_chain_id network =
     (case cut_colon network of
        None \<Rightarrow> Inl ''cannot read chain id from network''
      | Some i \<Rightarrow> (case set_string10 i of
          None \<Rightarrow> Inl ''cannot read chain id from network''
        | Some c \<Rightarrow> Inr c))"

text \<open>The new mandate policy keeps its state at the reference 0 of the policy store.\<close>

definition attach_mandate :: "bool \<Rightarrow> int \<Rightarrow> 'w assembly \<Rightarrow> 'w assembly result" where
  "attach_mandate ask defer_above u =
     (case gateway_chain_id (ge_network (su_gateway u)) of
        Inl e \<Rightarrow> Inl e
      | Inr chain_id \<Rightarrow>
         (let mp = (fst (new_mandate_policy (Some chain_id) 0 (\<lambda>_. new_mp_state)))
                     \<lparr>mp_ask_on_exceed := ask, mp_defer_above := (if defer_above > 0 then Some defer_above else None)\<rparr> in
          Inr (u\<lparr>su_policy := Some (policy_base u @ [\<lambda>_. MandatePolicy mp]), su_mandate := Some mp\<rparr>)))"

definition attach_delivery :: "'w start_env \<Rightarrow> string \<Rightarrow> int \<Rightarrow> 'w assembly \<Rightarrow> 'w assembly result" where
  "attach_delivery S addr amount u =
     (if \<not> su_client u then Inl ''--asset requires local mode (no --facilitator-url)''
      else if \<not> is_hex_address (sx_geth S) addr then Inl ''--asset must be a valid address''
      else Inr (u\<lparr>su_gateway := (su_gateway u)\<lparr>ge_deliverer := Some (sx_deliverer S (hex_to_address (sx_geth S) addr) amount)\<rparr>\<rparr>))"

definition attach_dvp :: "'w start_env \<Rightarrow> string \<Rightarrow> int \<Rightarrow> 'w assembly \<Rightarrow> 'w assembly result" where
  "attach_dvp S addr amount u =
     (if \<not> su_client u then Inl ''--dvp requires local mode (no --facilitator-url)''
      else if \<not> is_hex_address (sx_geth S) addr then Inl ''--dvp must be a valid address''
      else (let d = hex_to_address (sx_geth S) addr in
            Inr (u\<lparr>su_gateway := (su_gateway u)\<lparr>ge_dvp_address := d, ge_verify := fst (sx_dvp S d amount),
                   ge_settle := snd (sx_dvp S d amount)\<rparr>\<rparr>)))"

definition attach_sessions :: "'w start_env \<Rightarrow> 'w assembly \<Rightarrow> 'w assembly result" where
  "attach_sessions S u =
     (if \<not> su_client u then Inl ''--sessions requires local mode (no --facilitator-url)''
      else (let g = su_gateway u in
            Inr (u\<lparr>su_gateway := g\<lparr>ge_sessions_enabled := True,
                   ge_refunder := (case ge_refunder g of None \<Rightarrow> Some (sx_refunder S) | Some r \<Rightarrow> Some r)\<rparr>\<rparr>)))"

definition attach_accept_table :: "'w start_env \<Rightarrow> string \<Rightarrow> 'w assembly \<Rightarrow> 'w assembly result" where
  "attach_accept_table S path u =
     (case sx_table S path of
        Inl e \<Rightarrow> Inl (''read accept table: '' @ e)
      | Inr raw \<Rightarrow> (case load_table_policy raw of
          Inl e \<Rightarrow> Inl e
        | Inr t \<Rightarrow> Inr (u\<lparr>su_policy := Some (policy_base u @ [\<lambda>_. TablePolicy t])\<rparr>)))"

text \<open>The journal is attached to the gateway when it starts; here it is opened.\<close>

definition attach_journal_file :: "'w start_env \<Rightarrow> string \<Rightarrow> string \<Rightarrow> 'w assembly \<Rightarrow> 'w assembly result" where
  "attach_journal_file S path brokers u =
     (case sx_journal S path of
        Inl e \<Rightarrow> Inl e
      | Inr j \<Rightarrow>
          if brokers = '''' then Inr (u\<lparr>su_journal := Some j\<rparr>)
          else (case sx_sink_error S of
            Some e \<Rightarrow> Inl e
          | None \<Rightarrow> Inr (u\<lparr>su_journal := Some j, su_publishing := True\<rparr>)))"

section \<open>run\<close>

definition attach_receipts :: "'w start_env \<Rightarrow> gateway_flags \<Rightarrow> 'w assembly \<Rightarrow> 'w assembly result" where
  "attach_receipts S F u =
     (let g = (su_gateway u)\<lparr>ge_require_bound_nonce := fg_require_bound_nonce F\<rparr> in
      if fg_receipt_key F = '''' then Inr (u\<lparr>su_gateway := g\<rparr>)
      else case sx_receipt_key S (fg_receipt_key F) of
        Inl e \<Rightarrow> Inl e
      | Inr k \<Rightarrow> Inr (u\<lparr>su_gateway := g\<lparr>ge_receipt_key := Some k\<rparr>\<rparr>))"

definition attach_mandates :: "gateway_flags \<Rightarrow> 'w assembly \<Rightarrow> 'w assembly result" where
  "attach_mandates F u =
     (if fg_require_mandate F then
        and_then (attach_mandate (fg_ask_on_exceed F) (fg_defer_above F) u) (\<lambda>u1.
          Inr (u1\<lparr>su_gateway := (su_gateway u1)\<lparr>ge_confirm_depth := fg_confirm_depth F\<rparr>\<rparr>))
      else if fg_ask_on_exceed F \<or> fg_defer_above F > 0 then
        Inl ''--ask-on-exceed and --defer-above require --require-mandate''
      else Inr u)"

definition attach_assets :: "'w start_env \<Rightarrow> gateway_flags \<Rightarrow> 'w assembly \<Rightarrow> 'w assembly result" where
  "attach_assets S F u =
     (if fg_asset F \<noteq> '''' \<and> fg_dvp F \<noteq> '''' then Inl ''--asset and --dvp are mutually exclusive''
      else if (fg_asset F \<noteq> '''' \<or> fg_dvp F \<noteq> '''') \<and> fg_facilitator_url F \<noteq> '''' then
        Inl ''--asset and --dvp are local-mode only; configure delivery on the facilitator service in remote mode''
      else if fg_dvp F \<noteq> '''' then attach_dvp S (fg_dvp F) (fg_asset_amount F) u
      else if fg_asset F \<noteq> '''' then attach_delivery S (fg_asset F) (fg_asset_amount F) u
      else Inr u)"

definition gateway_run :: "'w start_env \<Rightarrow> gateway_flags \<Rightarrow> 'w assembly result" where
  "gateway_run S F =
     (if fg_token F = '''' \<or> \<not> is_hex_address (sx_geth S) (fg_token F) then Inl ''--token must be a valid address''
      else if fg_price F \<le> 0 then Inl ''--price must be positive''
      else if fg_kafka_brokers F \<noteq> '''' \<and> fg_journal F = '''' then
        Inl ''--kafka-brokers requires --journal (the outbox publishes from the journal)''
      else
        and_then (if fg_facilitator_url F \<noteq> '''' then remote_gateway S F else local_gateway S F) (\<lambda>u0.
        and_then (attach_receipts S F u0) (\<lambda>u1.
        and_then (if fg_identity_registry F \<noteq> '''' then attach_identity S (fg_identity_registry F) u1 else Inr u1) (\<lambda>u2.
        and_then (if fg_eligibility_registry F \<noteq> '''' then attach_eligibility S (fg_eligibility_registry F) u2 else Inr u2) (\<lambda>u3.
        and_then (attach_mandates F u3) (\<lambda>u4.
        and_then (attach_assets S F u4) (\<lambda>u5.
        and_then (if fg_sessions F then attach_sessions S u5 else Inr u5) (\<lambda>u6.
        and_then (if fg_accept_table F \<noteq> '''' then attach_accept_table S (fg_accept_table F) u6 else Inr u6) (\<lambda>u7.
        if fg_journal F \<noteq> '''' then attach_journal_file S (fg_journal F) (fg_kafka_brokers F) u7 else Inr u7)))))))))"

text \<open>The gateway that serves, and its state when it starts.\<close>

definition started :: "'w assembly \<Rightarrow> 'w gateway_env" where
  "started u = (su_gateway u)\<lparr>ge_policy := (\<lambda>w. map_option (\<lambda>ps. Chain (map (\<lambda>q. q w) ps)) (su_policy u))\<rparr>"

definition started_state :: "'w assembly \<Rightarrow> 'w \<Rightarrow> 'w gateway" where
  "started_state u w =
     (let s = \<lparr>gw_world = w, gw_store = (\<lambda>_. new_mp_state), gw_journal = None, gw_settlements = [],
                gw_inflight = Map.empty, gw_sessions = Map.empty, gw_metrics = Some new_metrics\<rparr> in
      case su_journal u of None \<Rightarrow> s | Some j \<Rightarrow> attach_journal (started u) j s)"

text \<open>\<open>serve\<close>: the listener fails, or a signal comes and the server is shut down, with or without an error.\<close>

datatype serve_wake = ListenFailed string | Signalled "string option"

definition serve :: "serve_wake \<Rightarrow> string option" where
  "serve wake =
     (case wake of
        ListenFailed e \<Rightarrow> Some (''serve: '' @ e)
      | Signalled shutdown \<Rightarrow> map_option (\<lambda>e. ''shutdown: '' @ e) shutdown)"

text \<open>\<open>POST /mandates/revoke\<close>: the body as decoded, \<open>None\<close> when it is not a revocation.\<close>

definition revoke_handler ::
    "'w gateway_env \<Rightarrow> string \<Rightarrow> revocation_json option \<Rightarrow> 'w gateway \<Rightarrow> (int \<times> string) \<times> 'w gateway" where
  "revoke_handler E verb body s =
     (if verb \<noteq> ''POST'' then ((405, ''method not allowed''), s)
      else case body of
        None \<Rightarrow> ((400, ''invalid revocation body''), s)
      | Some rj \<Rightarrow> (case revoke_mandate E rj s of
          (Some e, s') \<Rightarrow> ((400, e), s')
        | (None, s') \<Rightarrow> ((204, ''''), s')))"

datatype gateway_reply =
    PaidReply reply
  | Resources "discovery_item list"
  | Healthy
  | RevokeReply int string
  | Counters "metrics option"
  | NotFound

text \<open>The routes of the mux; \<open>/metrics\<close> serves the counters, whose text is in Observe.\<close>

definition gateway_mux ::
    "gateway_flags \<Rightarrow> 'w gateway_env \<Rightarrow> http_request \<Rightarrow> string \<Rightarrow> revocation_json option \<Rightarrow> 'w gateway \<Rightarrow>
     gateway_reply \<times> 'w gateway" where
  "gateway_mux F E rq verb body s =
     (if rq_path rq = ''/premium/report'' then (let (r, s') = middleware E rq s in (PaidReply r, s'))
      else if rq_path rq = ''/resources'' then (Resources (discovery E (rq_host rq) ''/premium/report'' s), s)
      else if rq_path rq = ''/healthz'' then (Healthy, s)
      else if rq_path rq = ''/metrics'' then (Counters (gw_metrics s), s)
      else if rq_path rq = ''/mandates/revoke'' \<and> fg_require_mandate F then
        (let ((code, msg), s') = revoke_handler E verb body s in (RevokeReply code msg, s'))
      else (NotFound, s))"

section \<open>What a start produced\<close>

lemma if_Inl_Inr: "(if b then Inl e else r) = Inr y \<longleftrightarrow> \<not> b \<and> r = Inr y"
  by simp

lemma gateway_run_stages:
  assumes "gateway_run S F = Inr u"
  obtains u0 u1 u2 u3 u4 u5 u6 u7 where
    "(if fg_facilitator_url F \<noteq> '''' then remote_gateway S F else local_gateway S F) = Inr u0"
    "attach_receipts S F u0 = Inr u1"
    "(if fg_identity_registry F \<noteq> '''' then attach_identity S (fg_identity_registry F) u1 else Inr u1) = Inr u2"
    "(if fg_eligibility_registry F \<noteq> '''' then attach_eligibility S (fg_eligibility_registry F) u2 else Inr u2) = Inr u3"
    "attach_mandates F u3 = Inr u4" "attach_assets S F u4 = Inr u5"
    "(if fg_sessions F then attach_sessions S u5 else Inr u5) = Inr u6"
    "(if fg_accept_table F \<noteq> '''' then attach_accept_table S (fg_accept_table F) u6 else Inr u6) = Inr u7"
    "(if fg_journal F \<noteq> '''' then attach_journal_file S (fg_journal F) (fg_kafka_brokers F) u7 else Inr u7) = Inr u"
  using assms unfolding gateway_run_def if_Inl_Inr and_then_Inr by (elim exE conjE)

text \<open>What each stage leaves alone: \<open>same\<close> is everything but the policy and the mandate.\<close>

definition keeps :: "'w assembly \<Rightarrow> 'w assembly \<Rightarrow> bool" where
  "keeps u u' \<longleftrightarrow> su_client u' = su_client u \<and> ge_geth (su_gateway u') = ge_geth (su_gateway u) \<and>
     ge_network (su_gateway u') = ge_network (su_gateway u)"

lemma first_stage:
  assumes "(if fg_facilitator_url F \<noteq> '''' then remote_gateway S F else local_gateway S F) = Inr u"
  shows "su_policy u = None" "su_mandate u = None" "su_client u \<longleftrightarrow> fg_facilitator_url F = ''''"
    "ge_geth (su_gateway u) = sx_geth S" "su_journal u = None" "\<not> su_publishing u"
  using assms by (auto simp: remote_gateway_def local_gateway_def bare_assembly_def new_gateway_def Let_def split: if_splits)

lemma receipts_stage:
  "attach_receipts S F u = Inr u' \<Longrightarrow> keeps u u' \<and> su_policy u' = su_policy u \<and> su_mandate u' = su_mandate u"
  by (auto simp: attach_receipts_def keeps_def Let_def split: if_splits sum.splits)

lemma identity_stage:
  "(if reg \<noteq> '''' then attach_identity S reg u else Inr u) = Inr u' \<Longrightarrow> keeps u u' \<and> su_mandate u' = su_mandate u \<and>
     su_policy u' = (if reg = '''' then su_policy u
       else Some [\<lambda>_. AlwaysVerify, \<lambda>w. IdentityPolicy (sx_identity S (hex_to_address (sx_geth S) reg) w)])"
  by (auto simp: attach_identity_def keeps_def split: if_splits sum.splits)

lemma eligibility_stage:
  "(if reg \<noteq> '''' then attach_eligibility S reg u else Inr u) = Inr u' \<Longrightarrow> keeps u u' \<and> su_mandate u' = su_mandate u \<and>
     su_policy u' = (if reg = '''' then su_policy u
       else Some (policy_base u @ [\<lambda>w. EligibilityPolicy (sx_eligibility S (hex_to_address (sx_geth S) reg) w)]))"
  by (auto simp: attach_eligibility_def keeps_def split: if_splits sum.splits)

text \<open>The mandate policy the flags describe.\<close>

definition flag_mandate :: "gateway_flags \<Rightarrow> int \<Rightarrow> mandate_policy" where
  "flag_mandate F chain_id = \<lparr>mp_chain_id = Some chain_id, mp_ask_on_exceed = fg_ask_on_exceed F,
     mp_defer_above = (if fg_defer_above F > 0 then Some (fg_defer_above F) else None), mp_ref = Some 0\<rparr>"

lemma mandates_stage:
  "attach_mandates F u = Inr u' \<Longrightarrow> keeps u u' \<and>
     (if fg_require_mandate F then \<exists>c. gateway_chain_id (ge_network (su_gateway u)) = Inr c \<and>
        su_mandate u' = Some (flag_mandate F c) \<and>
        su_policy u' = Some (policy_base u @ [\<lambda>_. MandatePolicy (flag_mandate F c)])
      else su_mandate u' = su_mandate u \<and> su_policy u' = su_policy u \<and> \<not> fg_ask_on_exceed F \<and> fg_defer_above F \<le> 0)"
  by (auto simp: attach_mandates_def attach_mandate_def keeps_def flag_mandate_def new_mandate_policy_def Let_def
      split: if_splits sum.splits)

lemma assets_stage:
  "attach_assets S F u = Inr u' \<Longrightarrow> keeps u u' \<and> su_policy u' = su_policy u \<and> su_mandate u' = su_mandate u \<and>
     \<not> (fg_asset F \<noteq> '''' \<and> fg_dvp F \<noteq> '''') \<and> (fg_asset F \<noteq> '''' \<or> fg_dvp F \<noteq> '''' \<longrightarrow> su_client u)"
  by (auto simp: attach_assets_def attach_dvp_def attach_delivery_def keeps_def Let_def split: if_splits)

lemma sessions_stage:
  "(if fg_sessions F then attach_sessions S u else Inr u) = Inr u' \<Longrightarrow> keeps u u' \<and> su_policy u' = su_policy u \<and>
     su_mandate u' = su_mandate u \<and> (fg_sessions F \<longrightarrow> su_client u)"
  by (auto simp: attach_sessions_def keeps_def Let_def split: if_splits)

lemma table_stage:
  "(if path \<noteq> '''' then attach_accept_table S path u else Inr u) = Inr u' \<Longrightarrow> keeps u u' \<and> su_mandate u' = su_mandate u \<and>
     (if path = '''' then su_policy u' = su_policy u
      else \<exists>raw t. sx_table S path = Inr raw \<and> load_table_policy raw = Inr t \<and>
        su_policy u' = Some (policy_base u @ [\<lambda>_. TablePolicy t]))"
  by (auto simp: attach_accept_table_def keeps_def split: if_splits sum.splits)

lemma journal_stage:
  "(if path \<noteq> '''' then attach_journal_file S path brokers u else Inr u) = Inr u' \<Longrightarrow> keeps u u' \<and>
     su_policy u' = su_policy u \<and> su_mandate u' = su_mandate u \<and>
     (path \<noteq> '''' \<longrightarrow> (\<exists>j. sx_journal S path = Inr j \<and> su_journal u' = Some j))"
  by (auto simp: attach_journal_file_def keeps_def split: if_splits sum.splits option.splits)

text \<open>The chain the flags describe, with the loaded table and the mandate policy.\<close>

definition flag_policies ::
    "'w start_env \<Rightarrow> gateway_flags \<Rightarrow> mandate_policy \<Rightarrow> decision_table \<Rightarrow> 'w \<Rightarrow> policy list" where
  "flag_policies S F mp t w = AlwaysVerify #
     (if fg_identity_registry F = '''' then []
      else [IdentityPolicy (sx_identity S (hex_to_address (sx_geth S) (fg_identity_registry F)) w)]) @
     (if fg_eligibility_registry F = '''' then []
      else [EligibilityPolicy (sx_eligibility S (hex_to_address (sx_geth S) (fg_eligibility_registry F)) w)]) @
     (if fg_require_mandate F then [MandatePolicy mp] else []) @
     (if fg_accept_table F = '''' then [] else [TablePolicy t])"

definition no_policy_flags :: "gateway_flags \<Rightarrow> bool" where
  "no_policy_flags F \<longleftrightarrow> fg_identity_registry F = '''' \<and> fg_eligibility_registry F = '''' \<and>
     \<not> fg_require_mandate F \<and> fg_accept_table F = ''''"

lemma started_policies:
  assumes "gateway_run S F = Inr u"
  obtains c t where
    "\<And>w. ge_policy (started u) w = (if no_policy_flags F then None else Some (Chain (flag_policies S F (flag_mandate F c) t w)))"
    "fg_require_mandate F \<Longrightarrow> gateway_chain_id (ge_network (started u)) = Inr c"
    "su_mandate u = (if fg_require_mandate F then Some (flag_mandate F c) else None)"
    "fg_accept_table F \<noteq> '''' \<Longrightarrow> \<exists>raw. sx_table S (fg_accept_table F) = Inr raw \<and> load_table_policy raw = Inr t"
    "ge_geth (started u) = sx_geth S"
proof -
  obtain u0 u1 u2 u3 u4 u5 u6 u7 where st:
    "(if fg_facilitator_url F \<noteq> '''' then remote_gateway S F else local_gateway S F) = Inr u0"
    "attach_receipts S F u0 = Inr u1"
    "(if fg_identity_registry F \<noteq> '''' then attach_identity S (fg_identity_registry F) u1 else Inr u1) = Inr u2"
    "(if fg_eligibility_registry F \<noteq> '''' then attach_eligibility S (fg_eligibility_registry F) u2 else Inr u2) = Inr u3"
    "attach_mandates F u3 = Inr u4" "attach_assets S F u4 = Inr u5"
    "(if fg_sessions F then attach_sessions S u5 else Inr u5) = Inr u6"
    "(if fg_accept_table F \<noteq> '''' then attach_accept_table S (fg_accept_table F) u6 else Inr u6) = Inr u7"
    "(if fg_journal F \<noteq> '''' then attach_journal_file S (fg_journal F) (fg_kafka_brokers F) u7 else Inr u7) = Inr u"
    using assms by (rule gateway_run_stages)
  note e0 = first_stage [OF st(1)] and e1 = receipts_stage [OF st(2)] and e2 = identity_stage [OF st(3)]
    and e3 = eligibility_stage [OF st(4)] and e4 = mandates_stage [OF st(5)] and e5 = assets_stage [OF st(6)]
    and e6 = sessions_stage [OF st(7)] and e7 = table_stage [OF st(8)] and e8 = journal_stage [OF st(9)]
  have frame: "ge_geth (su_gateway u) = sx_geth S" "ge_network (su_gateway u) = ge_network (su_gateway u3)"
    using e0 e1 e2 e3 e4 e5 e6 e7 e8 by (simp_all add: keeps_def)
  obtain c where c: "fg_require_mandate F \<Longrightarrow> gateway_chain_id (ge_network (su_gateway u3)) = Inr c"
    "su_mandate u4 = (if fg_require_mandate F then Some (flag_mandate F c) else None)"
    "su_policy u4 = (if fg_require_mandate F then Some (policy_base u3 @ [\<lambda>_. MandatePolicy (flag_mandate F c)]) else su_policy u3)"
    using e4 e0(2) e1 e2 e3 by (cases "fg_require_mandate F") auto
  obtain t where t: "fg_accept_table F \<noteq> '''' \<Longrightarrow> \<exists>raw. sx_table S (fg_accept_table F) = Inr raw \<and> load_table_policy raw = Inr t"
    "su_policy u7 = (if fg_accept_table F = '''' then su_policy u6 else Some (policy_base u6 @ [\<lambda>_. TablePolicy t]))"
    using e7 by (cases "fg_accept_table F = ''''") auto
  have sp: "su_policy u1 = None" "su_policy u6 = su_policy u4" "su_policy u = su_policy u7" "su_mandate u = su_mandate u4"
    using e0(1) e1 e5 e6 e7 e8 by simp_all
  have p2: "su_policy u2 = (if fg_identity_registry F = '''' then None
       else Some [\<lambda>_. AlwaysVerify, \<lambda>w. IdentityPolicy (sx_identity S (hex_to_address (sx_geth S) (fg_identity_registry F)) w)])"
    using e2 sp(1) by simp
  have p3: "su_policy u3 = (if fg_eligibility_registry F = '''' then su_policy u2
       else Some (policy_base u2 @ [\<lambda>w. EligibilityPolicy (sx_eligibility S (hex_to_address (sx_geth S) (fg_eligibility_registry F)) w)]))"
    using e3 by simp
  have "ge_policy (started u) w = (if no_policy_flags F then None else Some (Chain (flag_policies S F (flag_mandate F c) t w)))" for w
    by (simp add: started_def sp(3) t(2) sp(2) c(3) p3 p2 policy_base_def flag_policies_def no_policy_flags_def)
  then show thesis using that c t(1) frame sp(4) by (simp add: started_def)
qed

lemma flag_policies_members:
  "members (Chain (flag_policies S F mp t w)) = flag_policies S F mp t w"
  by (simp add: flag_policies_def)

lemma flag_policies_mem:
  "fg_identity_registry F \<noteq> '''' \<Longrightarrow>
    IdentityPolicy (sx_identity S (hex_to_address (sx_geth S) (fg_identity_registry F)) w) \<in> set (flag_policies S F mp t w)"
  "fg_eligibility_registry F \<noteq> '''' \<Longrightarrow>
    EligibilityPolicy (sx_eligibility S (hex_to_address (sx_geth S) (fg_eligibility_registry F)) w) \<in> set (flag_policies S F mp t w)"
  "fg_require_mandate F \<Longrightarrow> MandatePolicy mp \<in> set (flag_policies S F mp t w)"
  "fg_accept_table F \<noteq> '''' \<Longrightarrow> TablePolicy t \<in> set (flag_policies S F mp t w)"
  by (simp_all add: flag_policies_def)

text \<open>A start with \<open>--require-mandate\<close> enforces its mandate policy in every world.\<close>

lemma started_enforces:
  assumes "gateway_run S F = Inr u" and "su_mandate u = Some mp"
  shows "enforces (started u) mp"
  using assms(1)
proof (rule started_policies)
  fix c t
  assume pol: "\<And>w. ge_policy (started u) w
      = (if no_policy_flags F then None else Some (Chain (flag_policies S F (flag_mandate F c) t w)))"
    and "su_mandate u = (if fg_require_mandate F then Some (flag_mandate F c) else None)"
  with assms(2) have req: "fg_require_mandate F" and mp: "mp = flag_mandate F c" by (auto split: if_splits)
  define pre where "pre w = AlwaysVerify #
      (if fg_identity_registry F = '''' then []
       else [IdentityPolicy (sx_identity S (hex_to_address (sx_geth S) (fg_identity_registry F)) w)]) @
      (if fg_eligibility_registry F = '''' then []
       else [EligibilityPolicy (sx_eligibility S (hex_to_address (sx_geth S) (fg_eligibility_registry F)) w)])" for w
  have "ge_policy (started u) w = Some (Chain (pre w @ MandatePolicy mp # (if fg_accept_table F = '''' then [] else [TablePolicy t])))
      \<and> (\<forall>q\<in>set (pre w). checks_only q)" for w
    using req by (simp add: pol no_policy_flags_def flag_policies_def mp pre_def)
  then show ?thesis unfolding enforces_def mp flag_mandate_def by (metis mandate_policy.select_convs(4) option.distinct(1))
qed

section \<open>Properties\<close>

text \<open>
  Flags that cannot work never start: a gateway that started has a valid token and a
  positive price; it publishes only from a journal; asking and deferring come with a mandate
  policy; asset delivery and DvP exclude each other; delivery, DvP and sessions are in local
  mode; a remote one was told its network and a valid payee.
\<close>

theorem started_flags_are_consistent:
  assumes "gateway_run S F = Inr u"
  shows "is_hex_address (sx_geth S) (fg_token F) \<and> 0 < fg_price F \<and>
    (fg_kafka_brokers F \<noteq> '''' \<longrightarrow> fg_journal F \<noteq> '''' \<and> su_journal u \<noteq> None) \<and>
    (fg_ask_on_exceed F \<or> 0 < fg_defer_above F \<longrightarrow> su_mandate u \<noteq> None) \<and>
    \<not> (fg_asset F \<noteq> '''' \<and> fg_dvp F \<noteq> '''') \<and>
    (fg_asset F \<noteq> '''' \<or> fg_dvp F \<noteq> '''' \<or> fg_sessions F \<longrightarrow> fg_facilitator_url F = '''') \<and>
    (fg_facilitator_url F \<noteq> '''' \<longrightarrow> fg_network F \<noteq> '''' \<and> is_hex_address (sx_geth S) (fg_pay_to F))"
proof -
  obtain u0 u1 u2 u3 u4 u5 u6 u7 where st:
    "(if fg_facilitator_url F \<noteq> '''' then remote_gateway S F else local_gateway S F) = Inr u0"
    "attach_receipts S F u0 = Inr u1"
    "(if fg_identity_registry F \<noteq> '''' then attach_identity S (fg_identity_registry F) u1 else Inr u1) = Inr u2"
    "(if fg_eligibility_registry F \<noteq> '''' then attach_eligibility S (fg_eligibility_registry F) u2 else Inr u2) = Inr u3"
    "attach_mandates F u3 = Inr u4" "attach_assets S F u4 = Inr u5"
    "(if fg_sessions F then attach_sessions S u5 else Inr u5) = Inr u6"
    "(if fg_accept_table F \<noteq> '''' then attach_accept_table S (fg_accept_table F) u6 else Inr u6) = Inr u7"
    "(if fg_journal F \<noteq> '''' then attach_journal_file S (fg_journal F) (fg_kafka_brokers F) u7 else Inr u7) = Inr u"
    using assms by (rule gateway_run_stages)
  have pre: "is_hex_address (sx_geth S) (fg_token F)" "0 < fg_price F" "fg_kafka_brokers F \<noteq> '''' \<longrightarrow> fg_journal F \<noteq> ''''"
    using assms by (simp_all only: gateway_run_def if_Inl_Inr) auto
  have client: "su_client u3 \<longleftrightarrow> fg_facilitator_url F = ''''" "su_client u4 \<longleftrightarrow> fg_facilitator_url F = ''''"
    "su_client u5 \<longleftrightarrow> fg_facilitator_url F = ''''"
    using first_stage(3) [OF st(1)] receipts_stage [OF st(2)] identity_stage [OF st(3)] eligibility_stage [OF st(4)]
      mandates_stage [OF st(5)] assets_stage [OF st(6)] by (simp_all add: keeps_def)
  have "su_mandate u = su_mandate u4"
    using assets_stage [OF st(6)] sessions_stage [OF st(7)] table_stage [OF st(8)] journal_stage [OF st(9)] by simp
  moreover have "fg_ask_on_exceed F \<or> 0 < fg_defer_above F \<Longrightarrow> su_mandate u4 \<noteq> None"
    using mandates_stage [OF st(5)] by (auto split: if_splits)
  moreover have "fg_facilitator_url F \<noteq> '''' \<longrightarrow> fg_network F \<noteq> '''' \<and> is_hex_address (sx_geth S) (fg_pay_to F)"
    using st(1) by (auto simp: remote_gateway_def split: if_splits)
  ultimately show ?thesis
    using pre assets_stage [OF st(6)] sessions_stage [OF st(7)] journal_stage [OF st(9)] client by auto
qed

text \<open>
  C8. What the flags promise is enforced: a fresh payment that a started gateway serves was
  verified valid and, as far as the flags ask, its payer was registered and eligible when it
  was decided, it was entitled by a mandate under the policy the flags describe, and the
  loaded table approved it.
\<close>

theorem started_gateway_enforces_flags:
  assumes "gateway_run S F = Inr u" and "\<not> no_policy_flags F"
    and "verify_and_settle (started u) (Decoded p) reqs s = (Inr r, s')" and "journal_ok s"
    and "inflight_get (fst (payload_nonce (sx_geth S) p)) s = None"
  shows "\<exists>v w. ge_verify (started u) p reqs (gw_world s) = (Inr (Some v), w) \<and> vr_is_valid v \<and>
    (fg_identity_registry F \<noteq> '''' \<longrightarrow>
       sx_identity S (hex_to_address (sx_geth S) (fg_identity_registry F)) w (hex_to_address (sx_geth S) (vr_payer v)) = Inr True) \<and>
    (fg_eligibility_registry F \<noteq> '''' \<longrightarrow>
       sx_eligibility S (hex_to_address (sx_geth S) (fg_eligibility_registry F)) w (hex_to_address (sx_geth S) (vr_payer v)) = Inr True) \<and>
    (fg_require_mandate F \<longrightarrow> (\<exists>c m. gateway_chain_id (ge_network (started u)) = Inr c \<and>
       entitled (sx_geth S) (ge_now (started u) w) (flag_mandate F c)
         (fresh_context (started u) p reqs (Some v) (s\<lparr>gw_world := w\<rparr>)) (gw_store s) m)) \<and>
    (fg_accept_table F \<noteq> '''' \<longrightarrow> (\<exists>raw t. sx_table S (fg_accept_table F) = Inr raw \<and> load_table_policy raw = Inr t \<and>
       table_decide t (fresh_context (started u) p reqs (Some v) (s\<lparr>gw_world := w\<rparr>)) = approve))"
  using assms(1)
proof (rule started_policies)
  fix c t
  assume pol: "\<And>w. ge_policy (started u) w
      = (if no_policy_flags F then None else Some (Chain (flag_policies S F (flag_mandate F c) t w)))"
    and cid: "fg_require_mandate F \<Longrightarrow> gateway_chain_id (ge_network (started u)) = Inr c"
    and tab: "fg_accept_table F \<noteq> '''' \<Longrightarrow> \<exists>raw. sx_table S (fg_accept_table F) = Inr raw \<and> load_table_policy raw = Inr t"
    and G: "ge_geth (started u) = sx_geth S"
  have fl: "inflight_get (fst (payload_nonce (ge_geth (started u)) p)) s = None" using assms(5) G by simp
  obtain vr w where vr: "ge_verify (started u) p reqs (gw_world s) = (Inr vr, w)"
    and leaves: "\<forall>leaf\<in>set (members (gateway_policy (started u) (s\<lparr>gw_world := w\<rparr>))).
       leaf_holds (ge_geth (started u)) (ge_now (started u) w)
         (fresh_context (started u) p reqs vr (s\<lparr>gw_world := w\<rparr>)) (gw_store s) leaf"
    using served_payment_facts [OF assms(3,4) fl] by blast
  have ctx: "pc_verification (fresh_context (started u) p reqs vr (s\<lparr>gw_world := w\<rparr>)) = vr"
    by (simp add: fresh_context_def)
  have "gateway_policy (started u) (s\<lparr>gw_world := w\<rparr>) = Chain (flag_policies S F (flag_mandate F c) t w)"
    using pol assms(2) by (simp add: gateway_policy_def)
  then have all: "leaf_holds (sx_geth S) (ge_now (started u) w)
      (fresh_context (started u) p reqs vr (s\<lparr>gw_world := w\<rparr>)) (gw_store s) leaf"
    if "leaf \<in> set (flag_policies S F (flag_mandate F c) t w)" for leaf
    using leaves that by (simp only: flag_policies_members G)
  have "AlwaysVerify \<in> set (flag_policies S F (flag_mandate F c) t w)" by (simp add: flag_policies_def)
  from all [OF this] obtain v where v: "vr = Some v" "vr_is_valid v" by (auto simp: ctx split: option.splits)
  let ?pc = "fresh_context (started u) p reqs (Some v) (s\<lparr>gw_world := w\<rparr>)"
  note mem = flag_policies_mem [where F = F and S = S and w = w and mp = "flag_mandate F c" and t = t] and all' = all [unfolded v(1)] and ctx' = ctx [unfolded v(1)]
  have "sx_identity S (hex_to_address (sx_geth S) (fg_identity_registry F)) w (hex_to_address (sx_geth S) (vr_payer v)) = Inr True"
    if "fg_identity_registry F \<noteq> ''''"
    using all' [OF mem(1) [OF that]] by (simp add: ctx')
  moreover have "sx_eligibility S (hex_to_address (sx_geth S) (fg_eligibility_registry F)) w (hex_to_address (sx_geth S) (vr_payer v)) = Inr True"
    if "fg_eligibility_registry F \<noteq> ''''"
    using all' [OF mem(2) [OF that]] by (simp add: ctx')
  moreover have "\<exists>m. entitled (sx_geth S) (ge_now (started u) w) (flag_mandate F c) ?pc (gw_store s) m" if "fg_require_mandate F"
    using all' [OF mem(3) [OF that]] by simp
  moreover have "table_decide t ?pc = approve" if "fg_accept_table F \<noteq> ''''"
    using all' [OF mem(4) [OF that]] by simp
  ultimately show ?thesis using vr v cid tab by (intro exI [of _ v] exI [of _ w]) blast
qed

text \<open>
  C7. A revocation accepted over HTTP holds: once \<open>POST /mandates/revoke\<close> of a gateway
  started with \<open>--require-mandate\<close> answered 204, no later fresh payment under that
  delegator's mandate settles, whatever was requested, revoked and waited in between: it is
  refused after at most the facilitator's verification.
\<close>

theorem revoked_over_http:
  assumes "gateway_run S F = Inr u" and "su_mandate u = Some mp"
    and "gateway_mux F (started u) rq verb (Some rj) s0 = (RevokeReply 204 msg, s1)"
    and "parse_bytes32 (sx_geth S) (rj_mandate_id rj) = Inr i"
    and "verify_revocation (sx_geth S) i (from_hex (sx_geth S) (rj_signature rj)) (mp_chain_id mp) = Inr d"
    and "pp_mandate p = Some sm" and "to_mandate (sx_geth S) (smj_mandate sm) = Inr m"
    and "m_delegator m = d" and "m_mandate_id m = i"
    and "s = run (gateway_step (started u)) s1 events"
    and "inflight_get (fst (payload_nonce (sx_geth S) p)) s = None"
  shows "\<exists>f s'. verify_and_settle (started u) (Decoded p) reqs s = (Inl f, s') \<and> gw_settlements s' = gw_settlements s \<and>
    gw_world s' \<in> {gw_world s, snd (ge_verify (started u) p reqs (gw_world s))}"
proof -
  have G: "ge_geth (started u) = sx_geth S" using assms(1) by (rule started_policies)
  have "revoke_mandate (started u) rj s0 = (None, s1)"
    using assms(3) by (auto simp: gateway_mux_def revoke_handler_def split: if_splits prod.splits option.splits)
  from revoked_mandate_facts [OF started_enforces [OF assms(1,2)] this] show ?thesis
    using assms(4-11) unfolding G by blast
qed

section \<open>Witnesses\<close>

text \<open>
  A local gateway on chain 1 whose registries know every address, its surroundings those of
  the sample gateway; with the identity and eligibility flags, or with a mandate policy.
\<close>

definition sample_start :: "nat start_env" where
  "sample_start = \<lparr>sx_geth = sample_geth, sx_dial = Inr 1, sx_key = Inr 3, sx_receipt_key = (\<lambda>_. Inr 4),
     sx_identity = (\<lambda>_ _ _. Inr True), sx_eligibility = (\<lambda>_ _ _. Inr True), sx_table = (\<lambda>_. Inl ''no file''),
     sx_journal = (\<lambda>_. Inr new_journal), sx_sink_error = None,
     sx_local = (\<lambda>_. (ge_verify (sample_env AlwaysVerify), ge_settle (sample_env AlwaysVerify))),
     sx_remote = (\<lambda>_. (ge_verify (sample_env AlwaysVerify), ge_settle (sample_env AlwaysVerify))),
     sx_dvp = (\<lambda>_ _. (ge_verify (sample_env AlwaysVerify), ge_settle (sample_env AlwaysVerify))),
     sx_deliverer = (\<lambda>_ _ _ w. (Inr 98, w)), sx_refunder = (\<lambda>_ _ w. (Inr 99, Suc w)),
     sx_head = (\<lambda>w. Inr w), sx_tx_block = (\<lambda>_ w. Some w), sx_now = (\<lambda>_. 1000), sx_random = (\<lambda>w. (Some 5, w)),
     sx_disk = (\<lambda>_ _. IoOk)\<rparr>"

definition sample_flags :: gateway_flags where
  "sample_flags = \<lparr>fg_token = address_hex sample_geth 9, fg_identity_registry = address_hex sample_geth 20,
     fg_eligibility_registry = address_hex sample_geth 21, fg_require_mandate = False, fg_ask_on_exceed = False,
     fg_defer_above = 0, fg_confirm_depth = 0, fg_accept_table = '''', fg_asset = '''', fg_asset_amount = 1,
     fg_dvp = '''', fg_sessions = True, fg_require_bound_nonce = False, fg_receipt_key = '''', fg_price = 60,
     fg_pay_to = '''', fg_facilitator_url = '''', fg_network = '''', fg_journal = ''journal.jsonl'', fg_kafka_brokers = ''''\<rparr>"

definition mandate_flags :: gateway_flags where
  "mandate_flags = sample_flags\<lparr>fg_require_mandate := True, fg_ask_on_exceed := True\<rparr>"

lemma sample_start_sel [simp]:
  "sx_geth sample_start = sample_geth" "sx_dial sample_start = Inr 1" "sx_key sample_start = Inr 3"
  "sx_identity sample_start a w b = Inr True" "sx_eligibility sample_start a w b = Inr True"
  "sx_journal sample_start path = Inr new_journal" "sx_head sample_start = (\<lambda>w. Inr w)" "sx_now sample_start = (\<lambda>_. 1000)"
  "sx_disk sample_start e w = IoOk"
  "sx_local sample_start tok = (ge_verify (sample_env AlwaysVerify), ge_settle (sample_env AlwaysVerify))"
  by (simp_all add: sample_start_def)

lemma sample_print: "is_hex_address sample_geth (address_hex sample_geth a)" "address_hex sample_geth a \<noteq> ''''"
  using geth_textD(1) [OF sample_geth_text] by (simp_all add: sample_payer)

lemma mandate_network: "gateway_chain_id (CHR ''e'' # ''ip155:'' @ big_show 1) = Inr 1"
  by code_simp

lemmas start_defs = gateway_run_def local_gateway_def and_then_def attach_receipts_def attach_identity_def
  bare_assembly_def attach_eligibility_def attach_mandates_def attach_mandate_def attach_assets_def attach_sessions_def
  attach_journal_file_def new_gateway_def

text \<open>The started gateway, but for its registries the sample gateway on chain 1.\<close>

definition registry_chain :: policy where
  "registry_chain = Chain [AlwaysVerify, IdentityPolicy (\<lambda>_. Inr True), EligibilityPolicy (\<lambda>_. Inr True)]"

lemma sample_run:
  "\<exists>u. gateway_run sample_start sample_flags = Inr u \<and> started u =
     (sample_env registry_chain)\<lparr>ge_network := ''eip155:'' @ big_show 1, ge_confirm_depth := 0\<rparr>"
proof -
  have "\<exists>u. gateway_run sample_start sample_flags = Inr u \<and> started u =
      (sample_env AlwaysVerify)\<lparr>ge_network := ''eip155:'' @ big_show 1, ge_confirm_depth := 0, ge_policy := (\<lambda>w. Some registry_chain)\<rparr>"
    using sample_print
    by (simp add: start_defs sample_flags_def Let_def started_def policy_base_def registry_chain_def)
      (simp add: sample_start_def sample_env_def)
  then show ?thesis by (simp add: sample_env_def)
qed

lemma mandate_run:
  "\<exists>u mp. gateway_run sample_start mandate_flags = Inr u \<and> su_mandate u = Some mp \<and> mp_chain_id mp = Some 1"
  using sample_print mandate_network
  by (simp add: start_defs mandate_flags_def sample_flags_def Let_def new_mandate_policy_def)

theorem started_flags_witness:
  "\<exists>u. gateway_run sample_start mandate_flags = Inr u \<and> su_mandate u \<noteq> None \<and> 0 < fg_price mandate_flags"
proof -
  obtain u mp where u: "gateway_run sample_start mandate_flags = Inr u" using mandate_run by blast
  have "fg_ask_on_exceed mandate_flags" by (simp add: mandate_flags_def)
  then show ?thesis using started_flags_are_consistent [OF u] u by blast
qed

theorem enforces_flags_witness:
  "\<exists>u r s' v w. gateway_run sample_start sample_flags = Inr u \<and>
     verify_and_settle (started u) (Decoded pay_payload) pay_requirements (sample_gateway None) = (Inr r, s') \<and>
     ge_verify (started u) pay_payload pay_requirements 10 = (Inr (Some v), w) \<and> vr_is_valid v"
proof -
  obtain u where u: "gateway_run sample_start sample_flags = Inr u" and E: "started u =
     (sample_env registry_chain)\<lparr>ge_network := ''eip155:'' @ big_show 1, ge_confirm_depth := 0\<rparr>"
    using sample_run by blast
  let ?E = "started u"
  have sel: "ge_geth ?E = sample_geth" "ge_policy ?E w = Some registry_chain" "ge_scorer ?E = None" "ge_deliverer ?E = None"
    "ge_verify ?E p r w = (Inr (Some \<lparr>vr_is_valid = True, vr_invalid_reason = '''', vr_payer = address_hex sample_geth 2\<rparr>), w)"
    "fst (ge_settle ?E p r w) = Inr (Some sample_response)" "ge_require_bound_nonce ?E = False" "disk_ok ?E" for p r w
    by (simp_all add: E) (simp_all add: sample_env_def disk_ok_def)
  let ?v = "\<lparr>vr_is_valid = True, vr_invalid_reason = '''', vr_payer = address_hex sample_geth 2\<rparr>"
  let ?start = "sample_gateway None\<lparr>gw_world := 10\<rparr> :: nat gateway"
  let ?pc = "fresh_context ?E pay_payload pay_requirements (Some ?v) ?start"
  have pc: "pc_verification ?pc = Some ?v" by (simp add: fresh_context_def)
  obtain d s2 where d: "gateway_decide ?E ?pc ?start = (d, s2)" by (cases "gateway_decide ?E ?pc ?start")
  then have ap: "d_action d = ActionApprove"
    using pc by (auto simp: gateway_decide_def gateway_policy_def sel registry_chain_def always_verify_decide_def
        identity_decide_def eligibility_decide_def)
  obtain r s' where st: "settle ?E pay_payload pay_requirements ?pc (record_decision ?E ?pc d False s2) = (Inr r, s')"
    using settle_ok [of ?E pay_payload pay_requirements _ sample_response pay_auth pay_signature] sel by fastforce
  have b: "check_resource_binding ?E pay_payload pay_requirements = None"
    by (simp add: check_resource_binding_def sel) (simp add: pay_payload_def)
  have served: "verify_and_settle ?E (Decoded pay_payload) pay_requirements (sample_gateway None) = (Inr r, s')"
    using d ap st by (simp add: verify_and_settle_def inflight_get_def b fresh_context_def Let_def deliver_def sel)
  have "\<not> no_policy_flags sample_flags" using sample_print by (simp add: no_policy_flags_def sample_flags_def)
  moreover have "journal_ok (sample_gateway None)" by (simp add: journal_ok_def)
  ultimately show ?thesis
    using started_gateway_enforces_flags [OF u _ served] u served by (simp add: inflight_get_def) blast
qed

theorem revoked_over_http_witness:
  "\<exists>u msg s1 f s'. gateway_run sample_start mandate_flags = Inr u \<and>
     gateway_mux mandate_flags (started u) (sample_request\<lparr>rq_path := ''/mandates/revoke''\<rparr>) ''POST'' (Some sample_revocation)
       (sample_gateway None) = (RevokeReply 204 msg, s1) \<and>
     verify_and_settle (started u) (Decoded (sample_payload ''60'')) sample_requirements s1 = (Inl f, s') \<and>
     gw_settlements s' = gw_settlements s1"
proof -
  obtain u mp where u: "gateway_run sample_start mandate_flags = Inr u" "su_mandate u = Some mp" "mp_chain_id mp = Some 1"
    using mandate_run by blast
  have G: "ge_geth (started u) = sample_geth" using u(1) by (rule started_policies) simp
  have i: "parse_bytes32 sample_geth (rj_mandate_id sample_revocation) = Inr 7"
    using parse_bytes32_print(2) [OF sample_geth_text, of 7] by (simp add: sample_revocation_def)
  have mp: "mandate_policy_of (gateway_policy (started u) (sample_gateway None)) = Some mp"
    using enforcesD [OF started_enforces [OF u(1,2)], of "sample_gateway None"] by blast
  obtain s1 where s1: "revoke_mandate (started u) sample_revocation (sample_gateway None) = (None, s1)"
    using mp i sample_revocation_verifies u(3) by (simp add: revoke_mandate_def G)
  have fl: "gw_inflight s1 = Map.empty"
    using s1 mp i sample_revocation_verifies u(3) by (auto simp: revoke_mandate_def record_revocation_def G)
  have m: "to_mandate sample_geth (mandate_to_json sample_geth sample_mandate) = Inr sample_mandate"
    using sample_signed_in [of "''60''"] by (simp add: signed_mandate_in_def sample_payload_def)
  have x: "gateway_mux mandate_flags (started u) (sample_request\<lparr>rq_path := ''/mandates/revoke''\<rparr>) ''POST'' (Some sample_revocation)
       (sample_gateway None) = (RevokeReply 204 '''', s1)"
    by (simp add: gateway_mux_def revoke_handler_def s1 mandate_flags_def)
  show ?thesis
    using revoked_over_http [OF u(1,2) x, where i = 7 and d = 1 and m = sample_mandate and p = "sample_payload ''60''"
        and s = s1 and events = "[]" and reqs = sample_requirements]
      i sample_revocation_verifies u m fl x by (fastforce simp: sample_payload_def inflight_get_def sample_mandate_def)
qed

end
