(* ===== verification/Contracts.thy ===== *)
theory Contracts
  imports Token
begin

text \<open>
  The other contracts under \<open>contracts/\<close>: the eligibility and identity registries, the asset
  tRWA, delivery versus payment, and the on-chain spending of a mandate. As for the token, a
  function takes the caller and the state and returns the new state or the reason of the
  revert; uint256 values are naturals and checked arithmetic reverts at \<open>2 ^ 256\<close>. A call of
  one contract by another is a call of its function with the contract's address as the
  caller. \<open>contracts\<close> is the state of all of them on one chain, \<open>contract_step\<close> one transaction.

  Theorems: delivery versus payment is atomic; the spending contract holds the sum of its
  deposits, enforces the mandate registered with it, and lets at most twice the budget
  through in any span of a window's length.
\<close>

section \<open>EligibilityRegistry.sol, IdentityRegistry.sol\<close>

record eligibility =
  el_registrar :: address
  el_eligible :: "address \<Rightarrow> bool"
  el_delegated_by :: "address \<Rightarrow> address"

definition eligibility_new :: "address \<Rightarrow> eligibility" where
  "eligibility_new deployer = \<lparr>el_registrar = deployer, el_eligible = (\<lambda>_. False), el_delegated_by = (\<lambda>_. 0)\<rparr>"

definition set_eligible :: "address \<Rightarrow> address \<Rightarrow> bool \<Rightarrow> eligibility \<Rightarrow> eligibility result" where
  "set_eligible caller a v r =
     (if caller \<noteq> el_registrar r then Inl ''eligibility: not registrar''
      else Inr (r\<lparr>el_eligible := (el_eligible r)(a := v)\<rparr>))"

definition delegate_eligibility :: "address \<Rightarrow> address \<Rightarrow> eligibility \<Rightarrow> eligibility result" where
  "delegate_eligibility caller agent r =
     (let current = el_delegated_by r agent in
      if current = caller then Inr (r\<lparr>el_delegated_by := (el_delegated_by r)(agent := 0)\<rparr>)
      else if current \<noteq> 0 then Inl ''eligibility: agent already delegated''
      else Inr (r\<lparr>el_delegated_by := (el_delegated_by r)(agent := caller)\<rparr>))"

definition is_eligible :: "eligibility \<Rightarrow> address \<Rightarrow> bool" where
  "is_eligible r a =
     (if el_eligible r a then True
      else (let d = el_delegated_by r a in d \<noteq> 0 \<and> el_eligible r d))"

record identity =
  id_cards :: "address \<Rightarrow> string"
  id_registered :: "address \<Rightarrow> bool"

definition identity_new :: identity where
  "identity_new = \<lparr>id_cards = (\<lambda>_. ''''), id_registered = (\<lambda>_. False)\<rparr>"

definition identity_register :: "address \<Rightarrow> string \<Rightarrow> identity \<Rightarrow> identity" where
  "identity_register caller url r =
     \<lparr>id_cards = (id_cards r)(caller := url), id_registered = (id_registered r)(caller := True)\<rparr>"

section \<open>RWATestAsset.sol\<close>

text \<open>\<open>elig\<close> is what the registry's \<open>isEligible\<close> answers; a zero registry asks nothing.\<close>

record asset =
  as_issuer :: address
  as_registry :: address
  as_total_supply :: nat
  as_balance_of :: "address \<Rightarrow> nat"
  as_allowance :: "address \<Rightarrow> address \<Rightarrow> nat"
  as_log :: "transfer_event list"

definition asset_new :: "address \<Rightarrow> address \<Rightarrow> asset" where
  "asset_new deployer registry = \<lparr>as_issuer = deployer, as_registry = registry, as_total_supply = 0,
     as_balance_of = (\<lambda>_. 0), as_allowance = (\<lambda>_ _. 0), as_log = []\<rparr>"

definition asset_emit :: "address \<Rightarrow> address \<Rightarrow> nat \<Rightarrow> asset \<Rightarrow> asset" where
  "asset_emit a b v s = s\<lparr>as_log := as_log s @ [\<lparr>te_from = a, te_to = b, te_value = v\<rparr>]\<rparr>"

definition asset_allows :: "(address \<Rightarrow> bool) \<Rightarrow> asset \<Rightarrow> address \<Rightarrow> bool" where
  "asset_allows elig s to \<longleftrightarrow> as_registry s = 0 \<or> elig to"

definition asset_mint :: "(address \<Rightarrow> bool) \<Rightarrow> address \<Rightarrow> address \<Rightarrow> nat \<Rightarrow> asset \<Rightarrow> asset result" where
  "asset_mint elig caller to v s =
     (if caller \<noteq> as_issuer s then Inl ''tRWA: not issuer''
      else if to = 0 then Inl ''tRWA: mint to zero''
      else if \<not> asset_allows elig s to then Inl ''tRWA: recipient not eligible''
      else if as_total_supply s + v > uint256_max then Inl ''panic: overflow''
      else if as_balance_of s to + v > uint256_max then Inl ''panic: overflow''
      else Inr (asset_emit 0 to v (s\<lparr>as_total_supply := as_total_supply s + v,
                                    as_balance_of := credit (as_balance_of s) to v\<rparr>)))"

definition asset_burn :: "address \<Rightarrow> address \<Rightarrow> nat \<Rightarrow> asset \<Rightarrow> asset result" where
  "asset_burn caller from v s =
     (if caller \<noteq> as_issuer s then Inl ''tRWA: not issuer''
      else if as_balance_of s from < v then Inl ''tRWA: burn exceeds balance''
      else if as_total_supply s < v then Inl ''panic: underflow''
      else Inr (asset_emit from 0 v (s\<lparr>as_balance_of := debit (as_balance_of s) from v,
                                      as_total_supply := as_total_supply s - v\<rparr>)))"

definition asset_move :: "(address \<Rightarrow> bool) \<Rightarrow> address \<Rightarrow> address \<Rightarrow> nat \<Rightarrow> asset \<Rightarrow> asset result" where
  "asset_move elig from to v s =
     (if to = 0 then Inl ''tRWA: transfer to zero''
      else if \<not> asset_allows elig s to then Inl ''tRWA: recipient not eligible''
      else if as_balance_of s from < v then Inl ''tRWA: insufficient balance''
      else (let b = debit (as_balance_of s) from v in
            if b to + v > uint256_max then Inl ''panic: overflow''
            else Inr (asset_emit from to v (s\<lparr>as_balance_of := credit b to v\<rparr>))))"

definition asset_transfer :: "(address \<Rightarrow> bool) \<Rightarrow> address \<Rightarrow> address \<Rightarrow> nat \<Rightarrow> asset \<Rightarrow> asset result" where
  "asset_transfer elig caller to v s = asset_move elig caller to v s"

definition asset_approve :: "address \<Rightarrow> address \<Rightarrow> nat \<Rightarrow> asset \<Rightarrow> asset" where
  "asset_approve caller spender v s =
     s\<lparr>as_allowance := (as_allowance s)(caller := (as_allowance s caller)(spender := v))\<rparr>"

definition asset_transfer_from ::
    "(address \<Rightarrow> bool) \<Rightarrow> address \<Rightarrow> address \<Rightarrow> address \<Rightarrow> nat \<Rightarrow> asset \<Rightarrow> asset result" where
  "asset_transfer_from elig caller from to v s =
     (let al = as_allowance s from caller in
      if al < v then Inl ''tRWA: insufficient allowance''
      else asset_move elig from to v
        (if al \<noteq> uint256_max
         then s\<lparr>as_allowance := (as_allowance s)(from := (as_allowance s from)(caller := al - v))\<rparr>
         else s))"

section \<open>DvPSettlement.sol\<close>

text \<open>\<open>self\<close> is the contract's address; the payment's recipient is \<open>address(this)\<close>.\<close>

definition settle_and_deliver ::
    "geth \<Rightarrow> ecrecover \<Rightarrow> (address \<Rightarrow> bool) \<Rightarrow> address \<Rightarrow> int \<Rightarrow> address \<Rightarrow> nat \<Rightarrow> authorization \<Rightarrow>
     byte \<Rightarrow> bytes32 \<Rightarrow> bytes32 \<Rightarrow> token \<times> asset \<Rightarrow> (token \<times> asset) result" where
  "settle_and_deliver G ec elig self block_time seller asset_amount a v r s st =
     (case receive_with_authorization G ec self block_time (a\<lparr>au_to := self\<rparr>) v r s (fst st) of
        Inl e \<Rightarrow> Inl e
      | Inr t1 \<Rightarrow> (case token_transfer self seller (nat (au_value a)) t1 of
        Inl e \<Rightarrow> Inl e
      | Inr t2 \<Rightarrow> (case asset_transfer_from elig self seller (au_from a) asset_amount (snd st) of
        Inl e \<Rightarrow> Inl e
      | Inr s1 \<Rightarrow> Inr (t2, s1))))"

section \<open>DelegatedSpend.sol\<close>

record onchain_mandate =
  om_delegator :: address
  om_agent :: address
  om_max_amount :: nat
  om_valid_after :: nat
  om_valid_before :: nat
  om_budget :: nat
  om_window :: nat
  om_revoked :: bool
  om_window_start :: nat
  om_window_spent :: nat
  om_payees :: "address list"

record spend =
  sp_deposits :: "address \<Rightarrow> nat"
  sp_mandates :: "bytes32 \<Rightarrow> onchain_mandate"

definition zero_mandate :: onchain_mandate where
  "zero_mandate = \<lparr>om_delegator = 0, om_agent = 0, om_max_amount = 0, om_valid_after = 0, om_valid_before = 0,
     om_budget = 0, om_window = 0, om_revoked = False, om_window_start = 0, om_window_spent = 0, om_payees = []\<rparr>"

definition spend_new :: spend where
  "spend_new = \<lparr>sp_deposits = (\<lambda>_. 0), sp_mandates = (\<lambda>_. zero_mandate)\<rparr>"

definition spend_deposit :: "address \<Rightarrow> address \<Rightarrow> nat \<Rightarrow> token \<times> spend \<Rightarrow> (token \<times> spend) result" where
  "spend_deposit self caller v st =
     (case token_transfer_from self caller self v (fst st) of
        Inl e \<Rightarrow> Inl e
      | Inr t \<Rightarrow>
          if sp_deposits (snd st) caller + v > uint256_max then Inl ''panic: overflow''
          else Inr (t, (snd st)\<lparr>sp_deposits := credit (sp_deposits (snd st)) caller v\<rparr>))"

definition spend_withdraw :: "address \<Rightarrow> address \<Rightarrow> nat \<Rightarrow> token \<times> spend \<Rightarrow> (token \<times> spend) result" where
  "spend_withdraw self caller v st =
     (if sp_deposits (snd st) caller < v then Inl ''spend: insufficient deposit''
      else case token_transfer self caller v (fst st) of
        Inl e \<Rightarrow> Inl e
      | Inr t \<Rightarrow> Inr (t, (snd st)\<lparr>sp_deposits := debit (sp_deposits (snd st)) caller v\<rparr>))"

record mandate_terms =
  mt_agent :: address
  mt_max_amount :: nat
  mt_valid_after :: nat
  mt_valid_before :: nat
  mt_budget :: nat
  mt_window :: nat
  mt_payees :: "address list"

definition spend_set_mandate :: "address \<Rightarrow> nat \<Rightarrow> bytes32 \<Rightarrow> mandate_terms \<Rightarrow> spend \<Rightarrow> spend result" where
  "spend_set_mandate caller time i d s =
     (let m = sp_mandates s i in
      if om_delegator m \<noteq> 0 \<and> om_delegator m \<noteq> caller then Inl ''spend: not mandate delegator''
      else Inr (s\<lparr>sp_mandates := (sp_mandates s)(i := \<lparr>om_delegator = caller, om_agent = mt_agent d,
        om_max_amount = mt_max_amount d, om_valid_after = mt_valid_after d, om_valid_before = mt_valid_before d,
        om_budget = mt_budget d, om_window = mt_window d, om_revoked = False, om_window_start = time,
        om_window_spent = 0, om_payees = mt_payees d\<rparr>)\<rparr>))"

definition spend_revoke :: "address \<Rightarrow> bytes32 \<Rightarrow> spend \<Rightarrow> spend result" where
  "spend_revoke caller i s =
     (let m = sp_mandates s i in
      if om_delegator m \<noteq> caller then Inl ''spend: not mandate delegator''
      else Inr (s\<lparr>sp_mandates := (sp_mandates s)(i := m\<lparr>om_revoked := True\<rparr>)\<rparr>))"

definition allowed_payee :: "onchain_mandate \<Rightarrow> address \<Rightarrow> bool" where
  "allowed_payee m to \<longleftrightarrow> om_payees m = [] \<or> list_ex (\<lambda>p. p = to) (om_payees m)"

text \<open>The fixed window: once elapsed it starts again whole, at this payment's time.\<close>

definition roll_window :: "nat \<Rightarrow> onchain_mandate \<Rightarrow> onchain_mandate" where
  "roll_window time m =
     (if om_window m > 0 \<and> time \<ge> om_window_start m + om_window m
      then m\<lparr>om_window_start := time, om_window_spent := 0\<rparr> else m)"

definition pay_mandate :: "address \<Rightarrow> nat \<Rightarrow> address \<Rightarrow> nat \<Rightarrow> onchain_mandate \<Rightarrow> onchain_mandate result" where
  "pay_mandate caller time to v m =
     (if om_agent m \<noteq> caller then Inl ''spend: caller is not the mandated agent''
      else if om_revoked m then Inl ''spend: mandate revoked''
      else if \<not> time > om_valid_after m then Inl ''spend: mandate not yet valid''
      else if \<not> time < om_valid_before m then Inl ''spend: mandate expired''
      else if \<not> allowed_payee m to then Inl ''spend: payee not allowed''
      else if \<not> v \<le> om_max_amount m then Inl ''spend: over per-payment limit''
      else if om_window m > 0 \<and> om_window_start m + om_window m > uint256_max then Inl ''panic: overflow''
      else (let m1 = roll_window time m in
            if om_window_spent m1 + v > uint256_max then Inl ''panic: overflow''
            else if \<not> om_window_spent m1 + v \<le> om_budget m1 then Inl ''spend: over cumulative budget''
            else Inr (m1\<lparr>om_window_spent := om_window_spent m1 + v\<rparr>)))"

definition spend_pay ::
    "address \<Rightarrow> address \<Rightarrow> nat \<Rightarrow> bytes32 \<Rightarrow> address \<Rightarrow> nat \<Rightarrow> token \<times> spend \<Rightarrow> (token \<times> spend) result" where
  "spend_pay self caller time i to v st =
     (let s = snd st; m = sp_mandates s i in
      case pay_mandate caller time to v m of
        Inl e \<Rightarrow> Inl e
      | Inr m1 \<Rightarrow>
          if sp_deposits s (om_delegator m) < v then Inl ''spend: insufficient deposit''
          else (case token_transfer self to v (fst st) of
            Inl e \<Rightarrow> Inl e
          | Inr t \<Rightarrow> Inr (t, s\<lparr>sp_mandates := (sp_mandates s)(i := m1),
                                sp_deposits := debit (sp_deposits s) (om_delegator m) v\<rparr>)))"

section \<open>One chain\<close>

record contracts =
  co_token :: token
  co_asset :: asset
  co_eligibility :: eligibility
  co_identity :: identity
  co_spend :: spend
  co_dvp_address :: address
  co_spend_address :: address

datatype contract_call =
    TokenCall token_call
  | AssetMint address nat
  | AssetBurn address nat
  | AssetTransfer address nat
  | AssetApprove address nat
  | AssetTransferFrom address address nat
  | SetEligible address bool
  | DelegateEligibility address
  | RegisterAgent string
  | SettleAndDeliver address nat authorization byte bytes32 bytes32
  | SpendDeposit nat
  | SpendWithdraw nat
  | SpendSetMandate bytes32 mandate_terms
  | SpendRevoke bytes32
  | SpendPay bytes32 address nat

fun contract_exec ::
    "geth \<Rightarrow> ecrecover \<Rightarrow> address \<Rightarrow> nat \<Rightarrow> contract_call \<Rightarrow> contracts \<Rightarrow> contracts result" where
  "contract_exec G ec c time (TokenCall call) w =
     map_sum id (\<lambda>t. w\<lparr>co_token := t\<rparr>) (token_exec G ec c (int time) call (co_token w))"
| "contract_exec G ec c time (AssetMint to v) w =
     map_sum id (\<lambda>s. w\<lparr>co_asset := s\<rparr>) (asset_mint (is_eligible (co_eligibility w)) c to v (co_asset w))"
| "contract_exec G ec c time (AssetBurn from v) w =
     map_sum id (\<lambda>s. w\<lparr>co_asset := s\<rparr>) (asset_burn c from v (co_asset w))"
| "contract_exec G ec c time (AssetTransfer to v) w =
     map_sum id (\<lambda>s. w\<lparr>co_asset := s\<rparr>) (asset_transfer (is_eligible (co_eligibility w)) c to v (co_asset w))"
| "contract_exec G ec c time (AssetApprove a v) w = Inr (w\<lparr>co_asset := asset_approve c a v (co_asset w)\<rparr>)"
| "contract_exec G ec c time (AssetTransferFrom from to v) w =
     map_sum id (\<lambda>s. w\<lparr>co_asset := s\<rparr>) (asset_transfer_from (is_eligible (co_eligibility w)) c from to v (co_asset w))"
| "contract_exec G ec c time (SetEligible a v) w =
     map_sum id (\<lambda>r. w\<lparr>co_eligibility := r\<rparr>) (set_eligible c a v (co_eligibility w))"
| "contract_exec G ec c time (DelegateEligibility a) w =
     map_sum id (\<lambda>r. w\<lparr>co_eligibility := r\<rparr>) (delegate_eligibility c a (co_eligibility w))"
| "contract_exec G ec c time (RegisterAgent url) w =
     Inr (w\<lparr>co_identity := identity_register c url (co_identity w)\<rparr>)"
| "contract_exec G ec c time (SettleAndDeliver seller n a v r s) w =
     map_sum id (\<lambda>(t, s'). w\<lparr>co_token := t, co_asset := s'\<rparr>)
       (settle_and_deliver G ec (is_eligible (co_eligibility w)) (co_dvp_address w) (int time) seller n a v r s
         (co_token w, co_asset w))"
| "contract_exec G ec c time (SpendDeposit v) w =
     map_sum id (\<lambda>(t, s). w\<lparr>co_token := t, co_spend := s\<rparr>) (spend_deposit (co_spend_address w) c v (co_token w, co_spend w))"
| "contract_exec G ec c time (SpendWithdraw v) w =
     map_sum id (\<lambda>(t, s). w\<lparr>co_token := t, co_spend := s\<rparr>) (spend_withdraw (co_spend_address w) c v (co_token w, co_spend w))"
| "contract_exec G ec c time (SpendSetMandate i d) w =
     map_sum id (\<lambda>s. w\<lparr>co_spend := s\<rparr>) (spend_set_mandate c time i d (co_spend w))"
| "contract_exec G ec c time (SpendRevoke i) w =
     map_sum id (\<lambda>s. w\<lparr>co_spend := s\<rparr>) (spend_revoke c i (co_spend w))"
| "contract_exec G ec c time (SpendPay i to v) w =
     map_sum id (\<lambda>(t, s). w\<lparr>co_token := t, co_spend := s\<rparr>)
       (spend_pay (co_spend_address w) c time i to v (co_token w, co_spend w))"

record contract_tx =
  ct_caller :: address
  ct_time :: nat
  ct_call :: contract_call

definition contract_step :: "geth \<Rightarrow> ecrecover \<Rightarrow> contracts \<Rightarrow> contract_tx \<Rightarrow> contracts" where
  "contract_step G ec w tx =
     (case contract_exec G ec (ct_caller tx) (ct_time tx) (ct_call tx) w of Inl _ \<Rightarrow> w | Inr w' \<Rightarrow> w')"
section \<open>What a contract relies on in a token\<close>

text \<open>
  The two contracts that hold tokens call \<open>transfer\<close> and \<open>transferFrom\<close> and rely on one law
  of each: the value moves, out of what was there.
\<close>

locale ledger_token =
  fixes balance :: "'t \<Rightarrow> address \<Rightarrow> nat"
    and send :: "address \<Rightarrow> address \<Rightarrow> nat \<Rightarrow> 't \<Rightarrow> 't result"
    and send_from :: "address \<Rightarrow> address \<Rightarrow> address \<Rightarrow> nat \<Rightarrow> 't \<Rightarrow> 't result"
  assumes send_moves: "send c to v t = Inr t' \<Longrightarrow>
      v \<le> balance t c \<and> balance t' = credit (debit (balance t) c v) to v"
    and send_from_moves: "send_from c from to v t = Inr t' \<Longrightarrow>
      v \<le> balance t from \<and> balance t' = credit (debit (balance t) from v) to v"
begin

lemma send_keeps: "send c to v t = Inr t' \<Longrightarrow> a \<noteq> c \<Longrightarrow> balance t a \<le> balance t' a"
  by (drule send_moves) (auto simp: credit_def debit_def)

lemma send_from_keeps: "send_from c from to v t = Inr t' \<Longrightarrow> a \<noteq> from \<Longrightarrow> balance t a \<le> balance t' a"
  by (drule send_from_moves) (auto simp: credit_def debit_def)

lemma send_pays: "send c to v t = Inr t' \<Longrightarrow> balance t c \<le> balance t' c + v"
  by (drule send_moves) (auto simp: credit_def debit_def)

lemma send_from_receives: "send_from c from to v t = Inr t' \<Longrightarrow> to \<noteq> from \<Longrightarrow> balance t' to = balance t to + v"
  by (drule send_from_moves) (auto simp: credit_def debit_def)

end

lemma move_tokens_Inr:
  assumes "move_tokens from to v t = Inr t'"
  shows "v \<le> tk_balance_of t from \<and> tk_balance_of t' = credit (debit (tk_balance_of t) from v) to v \<and>
    tk_allowance t' = tk_allowance t \<and> tk_authorization_state t' = tk_authorization_state t"
  using assms by (auto simp: move_tokens_def Let_def emit_def split: if_splits)

lemma asset_move_Inr:
  assumes "asset_move elig from to v s = Inr s'"
  shows "v \<le> as_balance_of s from \<and> as_balance_of s' = credit (debit (as_balance_of s) from v) to v \<and>
    asset_allows elig s to \<and> to \<noteq> 0"
  using assms by (auto simp: asset_move_def asset_emit_def Let_def split: if_splits)

interpretation tkrw: ledger_token tk_balance_of token_transfer token_transfer_from
proof
  show "v \<le> tk_balance_of t c \<and> tk_balance_of t' = credit (debit (tk_balance_of t) c v) to v"
    if "token_transfer c to v t = Inr t'" for c to v t t'
    using that by (auto simp: token_transfer_def dest: move_tokens_Inr split: if_splits)
  show "v \<le> tk_balance_of t from \<and> tk_balance_of t' = credit (debit (tk_balance_of t) from v) to v"
    if "token_transfer_from c from to v t = Inr t'" for c "from" to v t t'
    using that by (auto simp: token_transfer_from_def Let_def dest: move_tokens_Inr split: if_splits)
qed

interpretation trwa: ledger_token as_balance_of "asset_transfer elig" "asset_transfer_from elig"
  for elig :: "address \<Rightarrow> bool"
proof
  show "v \<le> as_balance_of s c \<and> as_balance_of s' = credit (debit (as_balance_of s) c v) to v"
    if "asset_transfer elig c to v s = Inr s'" for c to v s s'
    using that by (auto simp: asset_transfer_def dest: asset_move_Inr)
  show "v \<le> as_balance_of s from \<and> as_balance_of s' = credit (debit (as_balance_of s) from v) to v"
    if "asset_transfer_from elig c from to v s = Inr s'" for c "from" to v s s'
    using that by (auto simp: asset_transfer_from_def Let_def dest: asset_move_Inr split: if_splits)
qed

section \<open>Delivery versus payment\<close>

lemma receive_with_authorization_Inr:
  assumes "receive_with_authorization G ec c time a v r s t = Inr t'"
  shows "au_to a = c" "\<not> tk_authorization_state t (au_from a) (au_nonce a)"
    "tk_authorization_state t' (au_from a) (au_nonce a)"
    "ec (digest G (tk_domain_separator t) (receive_struct_hash G a)) v r s = au_from a" "au_from a \<noteq> 0"
    "nat (au_value a) \<le> tk_balance_of t (au_from a)" "tk_allowance t' = tk_allowance t"
    "tk_balance_of t' = credit (debit (tk_balance_of t) (au_from a) (nat (au_value a))) c (nat (au_value a))"
    "au_valid_after a < time" "time < au_valid_before a"
  using assms move_tokens_Inr
  by (fastforce simp: receive_with_authorization_def settle_authorization_def receive_struct_hash_def Let_def split: if_splits)+

lemma pass_through: "credit (debit (credit b d v) d v) s v = credit b s (v :: nat)"
  by (auto simp: credit_def debit_def fun_eq_iff)

text \<open>
  C26. Delivery versus payment happens whole or not at all: a transaction calling
  \<open>settleAndDeliver\<close> leaves the chain as it was, or the buyer signed this payment to the DvP
  contract, the value went from the buyer to the seller through it, the asset from the seller
  to the buyer, who is eligible, and the authorization, unused before, is used up.
\<close>

theorem dvp_is_atomic:
  assumes "ct_call tx = SettleAndDeliver seller n a v r s" and "w' = contract_step G ec w tx"
  shows "w' = w \<or>
    (let b = au_from a; p = nat (au_value a) in
     ec (digest G (tk_domain_separator (co_token w)) (receive_struct_hash G (a\<lparr>au_to := co_dvp_address w\<rparr>))) v r s = b \<and>
     p \<le> tk_balance_of (co_token w) b \<and>
     tk_balance_of (co_token w') = credit (debit (tk_balance_of (co_token w)) b p) seller p \<and>
     n \<le> as_balance_of (co_asset w) seller \<and>
     as_balance_of (co_asset w') = credit (debit (as_balance_of (co_asset w)) seller n) b n \<and>
     asset_allows (is_eligible (co_eligibility w)) (co_asset w) b \<and>
     \<not> tk_authorization_state (co_token w) b (au_nonce a) \<and> tk_authorization_state (co_token w') b (au_nonce a) \<and>
     co_spend w' = co_spend w)"
proof (cases "contract_exec G ec (ct_caller tx) (ct_time tx) (ct_call tx) w")
  case (Inl e)
  then show ?thesis by (simp add: assms contract_step_def)
next
  case (Inr w1)
  let ?D = "co_dvp_address w"
  let ?a = "a\<lparr>au_to := ?D\<rparr>"
  let ?p = "nat (au_value a)"
  have w': "w' = w1" using Inr by (simp add: assms contract_step_def)
  from Inr obtain t1 t2 s1 where
    t1: "receive_with_authorization G ec ?D (int (ct_time tx)) ?a v r s (co_token w) = Inr t1"
    and t2: "token_transfer ?D seller ?p t1 = Inr t2"
    and s1: "asset_transfer_from (is_eligible (co_eligibility w)) ?D seller (au_from a) n (co_asset w) = Inr s1"
    and w1: "w1 = w\<lparr>co_token := t2, co_asset := s1\<rparr>"
    by (auto simp: assms settle_and_deliver_def split: sum.splits)
  note rc = receive_with_authorization_Inr [OF t1, simplified]
  have "tk_balance_of t2 = credit (debit (tk_balance_of t1) ?D ?p) seller ?p"
    using tkrw.send_moves [OF t2] by blast
  then have bal: "tk_balance_of t2 = credit (debit (tk_balance_of (co_token w)) (au_from a) ?p) seller ?p"
    by (simp add: rc pass_through)
  have au: "tk_authorization_state t2 = tk_authorization_state t1"
    using t2 by (auto simp: token_transfer_def dest: move_tokens_Inr split: if_splits)
  have el: "asset_allows (is_eligible (co_eligibility w)) (co_asset w) (au_from a)"
    using s1 by (auto simp: asset_transfer_from_def asset_allows_def Let_def dest!: asset_move_Inr split: if_splits)
  show ?thesis using rc bal au el trwa.send_from_moves [OF s1] by (simp add: w' w1 Let_def)
qed

section \<open>The spending contract holds its deposits\<close>

lemma map_sum_Inr: "map_sum id f x = Inr y \<longleftrightarrow> (\<exists>z. x = Inr z \<and> y = f z)"
  by (cases x) auto

text \<open>
  The contract's own address holds no key: it never signs, so the chain's ecrecover never
  answers it and it sends no transaction; and it approves nobody. Burning is the issuer's
  power over any balance, excluded for this one.
\<close>

definition solvent :: "contracts \<Rightarrow> bool" where
  "solvent w \<longleftrightarrow> (\<Sum>a\<in>UNIV. sp_deposits (co_spend w) a) \<le> tk_balance_of (co_token w) (co_spend_address w) \<and>
     (\<forall>b. tk_allowance (co_token w) (co_spend_address w) b = 0) \<and> co_dvp_address w \<noteq> co_spend_address w"

definition keyless :: "contracts \<Rightarrow> contract_tx \<Rightarrow> bool" where
  "keyless w tx \<longleftrightarrow> ct_caller tx \<noteq> co_spend_address w \<and>
     (\<forall>v. ct_call tx \<noteq> TokenCall (CallBurn (co_spend_address w) v))"

text \<open>What an address that neither signs nor sends loses by a call of the token: nothing.\<close>

lemma settle_keeps:
  assumes "settle_authorization G ec th time a v r s t = Inr t'" and "\<And>h v r s. ec h v r s \<noteq> S"
  shows "tk_balance_of t S \<le> tk_balance_of t' S \<and> tk_allowance t' = tk_allowance t"
proof -
  have "S \<noteq> au_from a" using assms by (auto simp: settle_authorization_def Let_def split: if_splits)
  then show ?thesis using assms(1)
    by (auto simp: settle_authorization_def Let_def credit_def debit_def dest!: move_tokens_Inr split: if_splits)
qed

lemma token_exec_keeps:
  assumes "token_exec G ec c time call t = Inr t'" and "\<And>h v r s. ec h v r s \<noteq> S" and "c \<noteq> S"
    and "\<forall>v. call \<noteq> CallBurn S v" and "\<forall>b. tk_allowance t S b = 0"
  shows "tk_balance_of t S \<le> tk_balance_of t' S \<and> tk_allowance t' S = tk_allowance t S"
proof (cases call)
  case (CallTransferFrom "from" to v)
  with assms show ?thesis
    by (cases "from = S")
      (auto simp: token_transfer_from_def Let_def credit_def debit_def dest!: move_tokens_Inr split: if_splits)
next
  case (CallTransferAuth a v r s)
  with assms show ?thesis
    using settle_keeps [OF _ assms(2)] by (fastforce simp: transfer_with_authorization_def split: if_splits)
next
  case (CallReceiveAuth a v r s)
  with assms show ?thesis
    using settle_keeps [OF _ assms(2)] by (fastforce simp: receive_with_authorization_def split: if_splits)
next
  case (CallTransfer to v)
  with assms show ?thesis
    by (auto simp: token_transfer_def credit_def debit_def dest!: move_tokens_Inr split: if_splits)
qed (use assms in \<open>auto simp: token_mint_def token_burn_def token_approve_def set_paused_def set_frozen_def set_allowed_def
    set_allowlist_enabled_def transfer_issuer_def accept_issuer_def emit_def credit_def debit_def split: if_splits\<close>)

lemma transfer_allowance:
  "token_transfer c to v t = Inr t' \<Longrightarrow> tk_allowance t' = tk_allowance t"
  by (auto simp: token_transfer_def dest: move_tokens_Inr split: if_splits)

lemma transfer_from_allowance:
  "token_transfer_from c from to v t = Inr t' \<Longrightarrow> S \<noteq> from \<Longrightarrow> tk_allowance t' S = tk_allowance t S"
  by (auto simp: token_transfer_from_def Let_def dest!: move_tokens_Inr split: if_splits)

lemma solvent_deposit:
  assumes "solvent w" and "spend_deposit (co_spend_address w) c v (co_token w, co_spend w) = Inr (t, s)" and "c \<noteq> co_spend_address w"
  shows "solvent (w\<lparr>co_token := t, co_spend := s\<rparr>)"
proof -
  let ?S = "co_spend_address w"
  from assms(2) have t: "token_transfer_from ?S c ?S v (co_token w) = Inr t"
    and s: "s = (co_spend w)\<lparr>sp_deposits := credit (sp_deposits (co_spend w)) c v\<rparr>"
    by (auto simp: spend_deposit_def split: sum.splits if_splits)
  show ?thesis
    using tkrw.send_from_receives [OF t] transfer_from_allowance [OF t] assms(1,3)
    by (simp add: solvent_def s sum_credit)
qed

lemma solvent_paid_out:
  assumes "solvent w" and "token_transfer (co_spend_address w) to v (co_token w) = Inr t"
    and "v \<le> sp_deposits (co_spend w) d" and "sp_deposits s = debit (sp_deposits (co_spend w)) d v"
  shows "solvent (w\<lparr>co_token := t, co_spend := s\<rparr>)"
  using tkrw.send_pays [OF assms(2)] transfer_allowance [OF assms(2)] sum_debit [of v "sp_deposits (co_spend w)" d] assms(1,3)
  by (simp add: solvent_def assms(4))

text \<open>Any other call takes nothing from the contract and leaves its deposits alone.\<close>

lemma solvent_token:
  "solvent w \<Longrightarrow> tk_balance_of (co_token w) (co_spend_address w) \<le> tk_balance_of t (co_spend_address w) \<Longrightarrow>
   tk_allowance t (co_spend_address w) = tk_allowance (co_token w) (co_spend_address w) \<Longrightarrow> solvent (w\<lparr>co_token := t\<rparr>)"
  by (simp add: solvent_def)

lemma solvent_fields [simp]:
  "solvent (w\<lparr>co_asset := a\<rparr>) = solvent w" "solvent (w\<lparr>co_eligibility := e\<rparr>) = solvent w"
  "solvent (w\<lparr>co_identity := i\<rparr>) = solvent w"
  by (simp_all add: solvent_def)

lemma solvent_mandates:
  "sp_deposits s = sp_deposits (co_spend w) \<Longrightarrow> solvent (w\<lparr>co_spend := s\<rparr>) = solvent w"
  by (simp add: solvent_def)

lemma solvent_dvp:
  assumes "solvent w" and "\<And>h v r s. ec h v r s \<noteq> co_spend_address w"
    and "settle_and_deliver G ec elig (co_dvp_address w) time seller n a v r s (co_token w, as) = Inr (t, s')"
  shows "solvent (w\<lparr>co_token := t\<rparr>)"
proof -
  let ?S = "co_spend_address w"
  from assms(3) obtain t1 where
    t1: "receive_with_authorization G ec (co_dvp_address w) time (a\<lparr>au_to := co_dvp_address w\<rparr>) v r s (co_token w) = Inr t1"
    and t2: "token_transfer (co_dvp_address w) seller (nat (au_value a)) t1 = Inr t"
    by (auto simp: settle_and_deliver_def split: sum.splits)
  have "tk_balance_of (co_token w) ?S \<le> tk_balance_of t1 ?S \<and> tk_allowance t1 = tk_allowance (co_token w)"
    using t1 settle_keeps [OF _ assms(2)] by (fastforce simp: receive_with_authorization_def split: if_splits)
  moreover have "tk_balance_of t1 ?S \<le> tk_balance_of t ?S"
    using tkrw.send_keeps [OF t2] assms(1) by (auto simp: solvent_def)
  ultimately show ?thesis
    using solvent_token [OF assms(1), of t] transfer_allowance [OF t2] by (simp add: solvent_def)
qed

lemma solvent_exec:
  assumes "solvent w" and "contract_exec G ec c time call w = Inr w'" and "\<And>h v r s. ec h v r s \<noteq> co_spend_address w"
    and "c \<noteq> co_spend_address w" and "\<forall>v. call \<noteq> TokenCall (CallBurn (co_spend_address w) v)"
  shows "solvent w' \<and> co_spend_address w' = co_spend_address w"
proof (cases call)
  case (TokenCall tc)
  with assms(2) obtain t where t: "token_exec G ec c (int time) tc (co_token w) = Inr t" "w' = w\<lparr>co_token := t\<rparr>"
    by (auto simp: map_sum_Inr)
  with TokenCall assms show ?thesis
    using token_exec_keeps [OF t(1) assms(3,4)] by (auto simp: solvent_def)
next
  case (SettleAndDeliver seller n a v r s)
  with assms(2) obtain t s' where d: "settle_and_deliver G ec (is_eligible (co_eligibility w)) (co_dvp_address w) (int time)
      seller n a v r s (co_token w, co_asset w) = Inr (t, s')" "w' = w\<lparr>co_token := t, co_asset := s'\<rparr>"
    by (auto simp: map_sum_Inr)
  then show ?thesis using solvent_dvp [OF assms(1,3) d(1)] by simp
next
  case (SpendDeposit v)
  with assms show ?thesis by (auto simp: map_sum_Inr intro: solvent_deposit)
next
  case (SpendWithdraw v)
  with assms(1,2) show ?thesis
    by (auto simp: map_sum_Inr spend_withdraw_def split: if_splits sum.splits intro!: solvent_paid_out)
next
  case (SpendPay i to v)
  with assms(1,2) show ?thesis
    by (auto simp: map_sum_Inr spend_pay_def Let_def split: if_splits sum.splits intro!: solvent_paid_out)
next
  case (SpendSetMandate i d)
  with assms(1,2) show ?thesis
    by (auto simp: map_sum_Inr spend_set_mandate_def Let_def solvent_mandates split: if_splits)
next
  case (SpendRevoke i)
  with assms(1,2) show ?thesis
    by (auto simp: map_sum_Inr spend_revoke_def Let_def solvent_mandates split: if_splits)
qed (use assms(1,2) in \<open>auto simp: map_sum_Inr\<close>)

interpretation escrow: machine "contract_step G ec" keyless
    "\<lambda>w. solvent w \<and> (\<forall>h v r s. ec h v r s \<noteq> co_spend_address w)" for G ec
proof
  show "solvent (contract_step G ec w tx) \<and> (\<forall>h v r s. ec h v r s \<noteq> co_spend_address (contract_step G ec w tx))"
    if "solvent w \<and> (\<forall>h v r s. ec h v r s \<noteq> co_spend_address w)" and "keyless w tx" for w tx
    using that solvent_exec [of w G ec "ct_caller tx" "ct_time tx" "ct_call tx"]
    by (cases "contract_exec G ec (ct_caller tx) (ct_time tx) (ct_call tx) w")
      (auto simp: contract_step_def keyless_def)
qed

text \<open>
  C27. The spending contract can always pay its deposits back: whatever transactions arrive,
  in whatever order, its tKRW balance is at least the sum of all delegators' deposits, as
  long as the issuer burns nothing of it.
\<close>

theorem deposits_stay_backed:
  assumes "solvent w" and "\<And>h v r s. ec h v r s \<noteq> co_spend_address w"
    and "allowed (contract_step G ec) keyless w txs"
  shows "solvent (run (contract_step G ec) w txs)"
  using escrow.run_inv [of w ec G txs] assms by simp

section \<open>The fixed window\<close>

text \<open>What a mandate has paid: the time and the amount of its payments, in order.\<close>

type_synonym paid_log = "(nat \<times> nat) list"

definition paid_in :: "nat \<Rightarrow> nat \<Rightarrow> paid_log \<Rightarrow> nat" where
  "paid_in t u paid = sum_list (map snd (filter (\<lambda>p. t \<le> fst p \<and> fst p < u) paid))"

lemma paid_in_append [simp]: "paid_in t u (xs @ ys) = paid_in t u xs + paid_in t u ys"
  by (simp add: paid_in_def)

lemma paid_in_le: "paid_in t u xs \<le> sum_list (map snd xs)"
  by (induction xs) (auto simp: paid_in_def)

lemma paid_in_none:
  assumes "\<And>p. p \<in> set xs \<Longrightarrow> fst p < t \<or> u \<le> fst p"
  shows "paid_in t u xs = 0"
proof -
  have "filter (\<lambda>p. t \<le> fst p \<and> fst p < u) xs = []"
    using assms by (fastforce simp: filter_empty_conv)
  then show ?thesis by (simp add: paid_in_def)
qed

lemma paid_in_mono: "u \<le> u' \<Longrightarrow> paid_in t u xs \<le> paid_in t u' xs"
  by (induction xs) (auto simp: paid_in_def)

text \<open>
  The payments of the current window after those of the earlier ones: an interval of the
  window's length that reaches into the current window meets at most one earlier window.
\<close>

definition window_inv :: "nat \<Rightarrow> nat \<Rightarrow> onchain_mandate \<times> nat \<times> paid_log \<Rightarrow> bool" where
  "window_inv W B = (\<lambda>(m, now, paid). om_window m = W \<and> om_budget m = B \<and> om_window_start m \<le> now \<and>
     (\<exists>old cur. paid = old @ cur \<and> om_window_spent m = sum_list (map snd cur) \<and> om_window_spent m \<le> B \<and>
       (\<forall>p\<in>set cur. om_window_start m \<le> fst p \<and> fst p < om_window_start m + W) \<and>
       (\<forall>p\<in>set old. fst p < om_window_start m) \<and>
       (\<forall>t u. om_window_start m < t + W \<longrightarrow> paid_in t u old \<le> B) \<and>
       (\<forall>t. paid_in t (t + W) old \<le> 2 * B)))"

lemma window_invI:
  assumes "om_window m = W" "om_budget m = B" "om_window_start m \<le> now" "paid = old @ cur"
    "om_window_spent m = sum_list (map snd cur)" "om_window_spent m \<le> B"
    "\<And>p. p \<in> set cur \<Longrightarrow> om_window_start m \<le> fst p \<and> fst p < om_window_start m + W"
    "\<And>p. p \<in> set old \<Longrightarrow> fst p < om_window_start m"
    "\<And>t u. om_window_start m < t + W \<Longrightarrow> paid_in t u old \<le> B" "\<And>t. paid_in t (t + W) old \<le> 2 * B"
  shows "window_inv W B (m, now, paid)"
  unfolding window_inv_def prod.case using assms by (intro conjI exI [of _ old] exI [of _ cur]) blast+

lemma window_invE:
  assumes "window_inv W B (m, now, paid)"
  obtains old cur where "om_window m = W" "om_budget m = B" "om_window_start m \<le> now" "paid = old @ cur"
    "om_window_spent m = sum_list (map snd cur)" "om_window_spent m \<le> B"
    "\<And>p. p \<in> set cur \<Longrightarrow> om_window_start m \<le> fst p \<and> fst p < om_window_start m + W"
    "\<And>p. p \<in> set old \<Longrightarrow> fst p < om_window_start m"
    "\<And>t u. om_window_start m < t + W \<Longrightarrow> paid_in t u old \<le> B" "\<And>t. paid_in t (t + W) old \<le> 2 * B"
  using assms unfolding window_inv_def prod.case by blast

lemma window_inv_bound:
  assumes "window_inv W B (m, now, paid)"
  shows "paid_in t (t + W) paid \<le> 2 * B"
  using assms
proof (rule window_invE)
  fix old cur
  assume s: "paid = old @ cur" "om_window_spent m = sum_list (map snd cur)" "om_window_spent m \<le> B"
    "\<And>p. p \<in> set cur \<Longrightarrow> om_window_start m \<le> fst p \<and> fst p < om_window_start m + W"
    "\<And>t u. om_window_start m < t + W \<Longrightarrow> paid_in t u old \<le> B" "\<And>t. paid_in t (t + W) old \<le> 2 * B"
  show ?thesis
  proof (cases "om_window_start m < t + W")
    case True
    then have "paid_in t (t + W) old \<le> B" by (rule s(5))
    then show ?thesis using s(1-3) paid_in_le [of t "t + W" cur] by simp
  next
    case False
    have "paid_in t (t + W) cur = 0"
    proof (rule paid_in_none)
      fix p
      assume "p \<in> set cur"
      from s(4) [OF this] False show "fst p < t \<or> t + W \<le> fst p" by linarith
    qed
    then show ?thesis using s(1) s(6) [of t] by simp
  qed
qed

lemma roll_window_budget [simp]: "om_budget (roll_window time m) = om_budget m"
  by (simp add: roll_window_def)

lemma pay_mandate_Inr:
  assumes "pay_mandate c time to v m = Inr m'"
  shows "om_agent m = c" "\<not> om_revoked m" "om_valid_after m < time" "time < om_valid_before m" "allowed_payee m to"
    "v \<le> om_max_amount m" "m' = (roll_window time m)\<lparr>om_window_spent := om_window_spent (roll_window time m) + v\<rparr>"
    "om_window_spent (roll_window time m) + v \<le> om_budget m"
  using assms unfolding pay_mandate_def Let_def by (simp_all split: if_split_asm)

text \<open>A payment that starts the next window, and one within the current window.\<close>

lemma window_inv_next:
  assumes "window_inv W B (m, now, paid)" and "0 < W" and "om_window_start m + W \<le> time" and "v \<le> B"
  shows "window_inv W B (m\<lparr>om_window_start := time, om_window_spent := v\<rparr>, time, paid @ [(time, v)])"
proof (rule window_invE [OF assms(1)])
  fix old cur
  assume s: "om_window m = W" "om_budget m = B" "paid = old @ cur" "om_window_spent m = sum_list (map snd cur)"
    "om_window_spent m \<le> B" "\<And>p. p \<in> set cur \<Longrightarrow> om_window_start m \<le> fst p \<and> fst p < om_window_start m + W"
    "\<And>p. p \<in> set old \<Longrightarrow> fst p < om_window_start m"
  have before: "fst p < time" if "p \<in> set paid" for p
  proof (cases "p \<in> set cur")
    case True
    then show ?thesis using s(6) [of p] assms(3) by linarith
  next
    case False
    then have "p \<in> set old" using that s(3) by simp
    then show ?thesis using s(7) [of p] assms(3) by linarith
  qed
  have late: "paid_in t u paid \<le> B" if "time < t + W" for t u
  proof -
    have "paid_in t u old = 0"
    proof (rule paid_in_none)
      fix p
      assume "p \<in> set old"
      from s(7) [OF this] that assms(3) show "fst p < t \<or> u \<le> fst p" by linarith
    qed
    then show ?thesis using paid_in_le [of t u cur] s(3-5) by simp
  qed
  show ?thesis
    by (rule window_invI [where old = paid and cur = "[(time, v)]"])
      (use s(1,2) assms(2,4) before late window_inv_bound [OF assms(1)] in simp_all)
qed

lemma window_inv_same:
  assumes "window_inv W B (m, now, paid)" and "now \<le> time" and "time < om_window_start m + W"
    and "om_window_spent m + v \<le> B"
  shows "window_inv W B (m\<lparr>om_window_spent := om_window_spent m + v\<rparr>, time, paid @ [(time, v)])"
proof (rule window_invE [OF assms(1)])
  fix old cur
  assume s: "om_window m = W" "om_budget m = B" "om_window_start m \<le> now" "paid = old @ cur"
    "om_window_spent m = sum_list (map snd cur)"
    "\<And>p. p \<in> set cur \<Longrightarrow> om_window_start m \<le> fst p \<and> fst p < om_window_start m + W"
    "\<And>p. p \<in> set old \<Longrightarrow> fst p < om_window_start m"
    "\<And>t u. om_window_start m < t + W \<Longrightarrow> paid_in t u old \<le> B" "\<And>t. paid_in t (t + W) old \<le> 2 * B"
  have cur: "om_window_start m \<le> fst p \<and> fst p < om_window_start m + W" if "p \<in> set (cur @ [(time, v)])" for p
    using that s(3,6) assms(2,3) by fastforce
  show ?thesis
    by (rule window_invI [where old = old and cur = "cur @ [(time, v)]"])
      (use s(1-5,7-9) assms(2,4) cur in simp_all)
qed

lemma window_inv_pay:
  assumes "window_inv W B (m, now, paid)" and "0 < W" and "now \<le> time" and "pay_mandate c time to v m = Inr m'"
  shows "window_inv W B (m', time, paid @ [(time, v)])"
proof -
  have m: "om_window m = W" "om_budget m = B" using assms(1) by (auto simp: window_inv_def)
  note p = pay_mandate_Inr(7,8) [OF assms(4)]
  show ?thesis
  proof (cases "om_window_start m + W \<le> time")
    case True
    then show ?thesis using window_inv_next [OF assms(1,2) True] p m assms(2) by (simp add: roll_window_def)
  next
    case False
    then show ?thesis using window_inv_same [OF assms(1,3)] p m by (simp add: roll_window_def)
  qed
qed

lemma window_inv_revoke: "window_inv W B (m, now, paid) \<Longrightarrow> window_inv W B (m\<lparr>om_revoked := True\<rparr>, now, paid)"
  by (simp add: window_inv_def)

text \<open>
  The payments a mandate made along a run of the chain's transactions: every \<open>pay\<close> on its id
  that did not revert, with its block time and amount.
\<close>

definition payment_of :: "geth \<Rightarrow> ecrecover \<Rightarrow> bytes32 \<Rightarrow> contracts \<Rightarrow> contract_tx \<Rightarrow> paid_log" where
  "payment_of G ec i w tx =
     (case (ct_call tx, contract_exec G ec (ct_caller tx) (ct_time tx) (ct_call tx) w) of
        (SpendPay j to v, Inr _) \<Rightarrow> if j = i then [(ct_time tx, v)] else []
      | _ \<Rightarrow> [])"

definition chain_step ::
    "geth \<Rightarrow> ecrecover \<Rightarrow> bytes32 \<Rightarrow> contracts \<times> nat \<times> paid_log \<Rightarrow> contract_tx \<Rightarrow> contracts \<times> nat \<times> paid_log" where
  "chain_step G ec i s tx = (contract_step G ec (fst s) tx, ct_time tx, snd (snd s) @ payment_of G ec i (fst s) tx)"

text \<open>Block times do not go back, and the mandate is not registered again.\<close>

definition chain_ok :: "bytes32 \<Rightarrow> contracts \<times> nat \<times> paid_log \<Rightarrow> contract_tx \<Rightarrow> bool" where
  "chain_ok i s tx \<longleftrightarrow> fst (snd s) \<le> ct_time tx \<and> (\<forall>d. ct_call tx \<noteq> SpendSetMandate i d)"

definition mandate_at :: "bytes32 \<Rightarrow> contracts \<Rightarrow> onchain_mandate" where
  "mandate_at i w = sp_mandates (co_spend w) i"

text \<open>A transaction is, for the mandate, a payment, its revocation, or nothing.\<close>

lemma chain_simulates:
  assumes "chain_ok i (w, now, paid) tx"
  obtains (pay) to v m' where "pay_mandate (ct_caller tx) (ct_time tx) to v (mandate_at i w) = Inr m'"
      "mandate_at i (contract_step G ec w tx) = m'" "payment_of G ec i w tx = [(ct_time tx, v)]"
  | (revoked) "mandate_at i (contract_step G ec w tx) = (mandate_at i w)\<lparr>om_revoked := True\<rparr>" "payment_of G ec i w tx = []"
  | (same) "mandate_at i (contract_step G ec w tx) = mandate_at i w" "payment_of G ec i w tx = []"
proof (cases "contract_exec G ec (ct_caller tx) (ct_time tx) (ct_call tx) w")
  case (Inl e)
  then show thesis using same by (simp add: contract_step_def payment_of_def split: contract_call.splits)
next
  case (Inr w')
  have step: "contract_step G ec w tx = w'" using Inr by (simp add: contract_step_def)
  show thesis
  proof (cases "ct_call tx")
    case (SpendPay j to v)
    obtain m' where m': "pay_mandate (ct_caller tx) (ct_time tx) to v (mandate_at j w) = Inr m'"
      "mandate_at i w' = (if i = j then m' else mandate_at i w)"
      using Inr by (auto simp: SpendPay spend_pay_def Let_def mandate_at_def split: sum.splits if_splits)
    show thesis
    proof (cases "j = i")
      case True
      then show thesis using pay m' Inr SpendPay step by (auto simp: payment_of_def)
    next
      case False
      then show thesis using same m' Inr SpendPay step by (auto simp: payment_of_def)
    qed
  next
    case (SpendRevoke j)
    then show thesis using revoked [unfolded step] same [unfolded step] Inr
      by (cases "j = i") (auto simp: payment_of_def spend_revoke_def Let_def mandate_at_def split: if_splits)
  next
    case (SpendSetMandate j d)
    then show thesis using same [unfolded step] Inr assms
      by (auto simp: payment_of_def spend_set_mandate_def Let_def mandate_at_def chain_ok_def split: if_splits)
  qed (use same [unfolded step] Inr in \<open>auto simp: map_sum_Inr payment_of_def mandate_at_def spend_deposit_def spend_withdraw_def
      split: sum.splits if_splits prod.splits\<close>)
qed

lemma window_inv_later: "window_inv W B (m, now, paid) \<Longrightarrow> now \<le> time \<Longrightarrow> window_inv W B (m, time, paid)"
  by (auto simp: window_inv_def)

interpretation spending: machine "chain_step G ec i" "chain_ok i"
  "\<lambda>s. 0 < W \<and> window_inv W B (mandate_at i (fst s), snd s)" for G ec i W B
proof
  show "0 < W \<and> window_inv W B (mandate_at i (fst (chain_step G ec i s tx)), snd (chain_step G ec i s tx))"
    if "0 < W \<and> window_inv W B (mandate_at i (fst s), snd s)" and "chain_ok i s tx" for s tx
  proof -
    obtain w now paid where s: "s = (w, now, paid)" by (cases s)
    have inv: "0 < W" "window_inv W B (mandate_at i w, now, paid)" and time: "now \<le> ct_time tx"
      using that by (simp_all add: s chain_ok_def)
    have "chain_ok i (w, now, paid) tx" using that(2) by (simp add: s)
    then show ?thesis
    proof (cases rule: chain_simulates [where G = G and ec = ec])
      case (pay to v m')
      then show ?thesis using window_inv_pay [OF inv(2,1) time pay(1)] inv(1) by (simp add: chain_step_def s)
    next
      case revoked
      then show ?thesis using window_inv_revoke [OF window_inv_later [OF inv(2) time]] inv(1) by (simp add: chain_step_def s)
    next
      case same
      then show ?thesis using window_inv_later [OF inv(2) time] inv(1) by (simp add: chain_step_def s)
    qed
  qed
qed

lemma window_inv_current:
  assumes "window_inv W B (m, now, paid)"
  shows "paid_in (om_window_start m) (om_window_start m + W) paid \<le> B"
  using assms
proof (rule window_invE)
  fix old cur
  assume s: "paid = old @ cur" "om_window_spent m = sum_list (map snd cur)" "om_window_spent m \<le> B"
    "\<And>p. p \<in> set old \<Longrightarrow> fst p < om_window_start m"
  have "paid_in (om_window_start m) (om_window_start m + W) old = 0"
    by (rule paid_in_none) (use s(4) in blast)
  then show ?thesis using s(1-3) paid_in_le [of "om_window_start m" "om_window_start m + W" cur] by simp
qed

text \<open>
  C28. The fixed window bounds every span: after a mandate with a window was registered, over any
  transactions of anybody on the chain's contracts, with block times that do not go back and
  no new registration of the id, the payments made on it in any interval of the window's
  length sum to at most twice the budget - the price of the fixed window, where the
  gateway's sliding window keeps them within the budget - and those since its current window
  began to at most the budget.
\<close>

theorem fixed_window_bounds_any_span:
  assumes "contract_exec G ec c time (SpendSetMandate i d) w0 = Inr w" and "0 < mt_window d"
    and "allowed (chain_step G ec i) (chain_ok i) (w, time, []) txs"
    and "run (chain_step G ec i) (w, time, []) txs = (w', now, paid)"
  shows "paid_in t (t + mt_window d) paid \<le> 2 * mt_budget d \<and>
    paid_in (om_window_start (mandate_at i w')) (om_window_start (mandate_at i w') + mt_window d) paid \<le> mt_budget d"
proof -
  have "window_inv (mt_window d) (mt_budget d) (mandate_at i w, time, [])"
    using assms(1) by (auto simp: window_inv_def spend_set_mandate_def paid_in_def mandate_at_def Let_def split: if_splits)
  then have "window_inv (mt_window d) (mt_budget d) (mandate_at i w', now, paid)"
    using spending.run_inv [of "mt_window d" "mt_budget d" i "(w, time, [])" G ec txs] assms(2-4) by simp
  then show ?thesis using window_inv_bound window_inv_current by blast
qed

section \<open>Witnesses\<close>

text \<open>
  Buyer and agent 2 with 100 tKRW, the seller 3 with 10 of the asset approved for the DvP
  contract 30, the spending contract 40, which the delegator 1 let take 60. The chain's
  ecrecover answers 2.
\<close>

definition sample_contracts :: contracts where
  "sample_contracts = \<lparr>
     co_token = (token_new 1 0)\<lparr>tk_total_supply := 200, tk_balance_of := (\<lambda>_. 0)(1 := 100, 2 := 100),
       tk_allowance := (\<lambda>_ _. 0)(1 := (\<lambda>_. 0)(40 := 60))\<rparr>,
     co_asset = (asset_new 1 50)\<lparr>as_total_supply := 10, as_balance_of := (\<lambda>_. 0)(3 := 10),
       as_allowance := (\<lambda>_ _. 0)(3 := (\<lambda>_. 0)(30 := 10))\<rparr>,
     co_eligibility = (eligibility_new 1)\<lparr>el_eligible := (\<lambda>_. False)(2 := True)\<rparr>,
     co_identity = identity_new, co_spend = spend_new, co_dvp_address = 30, co_spend_address = 40\<rparr>"

definition dvp_auth :: authorization where
  "dvp_auth = \<lparr>au_from = 2, au_to = 30, au_value = 60, au_valid_after = 0, au_valid_before = 2000, au_nonce = 5\<rparr>"

definition dvp_tx :: contract_tx where
  "dvp_tx = \<lparr>ct_caller = 9, ct_time = 1000, ct_call = SettleAndDeliver 3 4 dvp_auth 27 0 0\<rparr>"

lemmas chain_defs = contract_step_def settle_and_deliver_def receive_with_authorization_def settle_authorization_def
  move_tokens_def token_transfer_def asset_transfer_from_def asset_move_def asset_allows_def is_eligible_def token_new_def
  asset_new_def eligibility_new_def asset_emit_def emit_def credit_def debit_def uint256_max_def

lemma dvp_tx_runs: "as_balance_of (co_asset (contract_step sample_geth (\<lambda>_ _ _ _. 2) sample_contracts dvp_tx)) 2 = 4"
  by (simp add: dvp_tx_def chain_defs dvp_auth_def sample_contracts_def Let_def)

theorem dvp_is_atomic_witness:
  "\<exists>w'. w' = contract_step sample_geth (\<lambda>_ _ _ _. 2) sample_contracts dvp_tx \<and>
     tk_balance_of (co_token w') 3 = 60 \<and> tk_balance_of (co_token w') 2 = 40 \<and> as_balance_of (co_asset w') 2 = 4"
proof -
  let ?w' = "contract_step sample_geth (\<lambda>_ _ _ _. 2) sample_contracts dvp_tx"
  have "as_balance_of (co_asset sample_contracts) 2 = 0" by (simp add: sample_contracts_def)
  then have "?w' \<noteq> sample_contracts" using dvp_tx_runs by auto
  moreover have c: "ct_call dvp_tx = SettleAndDeliver 3 4 dvp_auth 27 0 0" by (simp add: dvp_tx_def)
  ultimately show ?thesis
    using dvp_is_atomic [OF c refl, of sample_geth "\<lambda>_ _ _ _. 2" sample_contracts] dvp_tx_runs
    by (simp add: Let_def dvp_auth_def credit_def debit_def) (simp add: sample_contracts_def)
qed

definition deposit_tx :: contract_tx where
  "deposit_tx = \<lparr>ct_caller = 1, ct_time = 1000, ct_call = SpendDeposit 60\<rparr>"

lemma sample_contracts_solvent: "solvent sample_contracts"
  by (simp add: solvent_def sample_contracts_def spend_new_def)

theorem deposits_stay_backed_witness:
  "solvent (run (contract_step sample_geth (\<lambda>_ _ _ _. 2)) sample_contracts [deposit_tx]) \<and>
   sp_deposits (co_spend (run (contract_step sample_geth (\<lambda>_ _ _ _. 2)) sample_contracts [deposit_tx])) 1 = 60"
proof -
  have "allowed (contract_step sample_geth (\<lambda>_ _ _ _. 2)) keyless sample_contracts [deposit_tx]"
    by (simp add: keyless_def deposit_tx_def sample_contracts_def)
  moreover have "(2 :: address) \<noteq> co_spend_address sample_contracts" by (simp add: sample_contracts_def)
  moreover have "sp_deposits (co_spend (contract_step sample_geth (\<lambda>_ _ _ _. 2) sample_contracts deposit_tx)) 1 = 60"
    by (simp add: deposit_tx_def sample_contracts_def chain_defs spend_deposit_def token_transfer_from_def spend_new_def Let_def)
  ultimately show ?thesis
    using deposits_stay_backed [OF sample_contracts_solvent, of "\<lambda>_ _ _ _. 2" sample_geth "[deposit_tx]"] by simp
qed

definition sample_terms :: mandate_terms where
  "sample_terms = \<lparr>mt_agent = 2, mt_max_amount = 80, mt_valid_after = 0, mt_valid_before = 2000000000, mt_budget = 100,
     mt_window = 3600, mt_payees = []\<rparr>"

text \<open>100 just before the window ends and 100 just after: 200 within 3600 seconds.\<close>

definition window_chain :: contracts where
  "window_chain = sample_contracts\<lparr>co_token := (token_new 1 0)\<lparr>tk_total_supply := 300, tk_balance_of := (\<lambda>_. 0)(40 := 300)\<rparr>,
     co_spend := spend_new\<lparr>sp_deposits := (\<lambda>_. 0)(1 := 300)\<rparr>\<rparr>"

definition window_payments :: "contract_tx list" where
  "window_payments = map (\<lambda>(t, v). \<lparr>ct_caller = 2, ct_time = t, ct_call = SpendPay 7 3 v\<rparr>)
     [(4500, 80), (4500, 20), (4500, 1), (4600, 80), (4600, 20)]"

theorem fixed_window_witness:
  "\<exists>w w' now paid. contract_exec sample_geth (\<lambda>_ _ _ _. 2) 1 1000 (SpendSetMandate 7 sample_terms) window_chain = Inr w \<and>
     run (chain_step sample_geth (\<lambda>_ _ _ _. 2) 7) (w, 1000, []) window_payments = (w', now, paid) \<and>
     paid_in 4500 (4500 + mt_window sample_terms) paid = 2 * mt_budget sample_terms \<and>
     paid_in 0 (0 + mt_window sample_terms) paid \<le> 2 * mt_budget sample_terms"
proof -
  let ?ec = "\<lambda>_ _ _ _. 2 :: address"
  obtain w where w: "contract_exec sample_geth ?ec 1 1000 (SpendSetMandate 7 sample_terms) window_chain = Inr w"
    by (simp add: spend_set_mandate_def window_chain_def spend_new_def zero_mandate_def Let_def)
  then have wd: "w = window_chain\<lparr>co_spend := (co_spend window_chain)\<lparr>sp_mandates := (\<lambda>_. zero_mandate)(7 :=
      \<lparr>om_delegator = 1, om_agent = 2, om_max_amount = 80, om_valid_after = 0, om_valid_before = 2000000000, om_budget = 100,
        om_window = 3600, om_revoked = False, om_window_start = 1000, om_window_spent = 0, om_payees = []\<rparr>)\<rparr>\<rparr>"
    by (auto simp: spend_set_mandate_def window_chain_def spend_new_def zero_mandate_def sample_terms_def Let_def)
  let ?paid = "[(4500, 80), (4500, 20), (4600, 80), (4600, 20)] :: paid_log"
  let ?r = "run (chain_step sample_geth ?ec 7) (w, 1000, []) window_payments"
  have "snd (snd ?r) = ?paid"
    by (simp add: wd window_payments_def window_chain_def chain_step_def payment_of_def contract_step_def spend_pay_def
        pay_mandate_def roll_window_def allowed_payee_def uint256_max_def token_transfer_def move_tokens_def emit_def
        credit_def debit_def token_new_def spend_new_def sample_contracts_def Let_def)
  moreover have a: "allowed (chain_step sample_geth ?ec 7) (chain_ok 7) (w, 1000, []) window_payments"
    by (simp add: window_payments_def chain_ok_def chain_step_def)
  moreover obtain w' now paid where r: "?r = (w', now, paid)" by (metis prod.collapse)
  moreover have p: "0 < mt_window sample_terms" by (simp add: sample_terms_def)
  moreover have "paid_in 4500 (4500 + mt_window sample_terms) ?paid = 2 * mt_budget sample_terms"
    by (simp add: paid_in_def sample_terms_def)
  ultimately show ?thesis using w fixed_window_bounds_any_span [OF w p a r, of 0] by auto
qed

end
