(* ===== verification/Operators.thy ===== *)
theory Operators
  imports Agent GatewayStart Issuer Remote
begin

text \<open>
  The commands of the two people a payment involves: the delegator who signs mandates,
  confirmations and revocations (\<open>cmd/delegator\<close>), and the agent's holder who pays, draws on a
  session and asks for a redemption (\<open>cmd/agent\<close>). A run of a command is a function of what
  it meets: the key, the node's chain id, the clock, the random source, the files.

  The theorems close the loops these commands are made for: what the delegator signs the
  gateway's policy accepts, an answered ask is not asked again, a revocation takes effect,
  a redemption request is one the issuer settles.
\<close>

section \<open>What a run meets\<close>

text \<open>
  \<open>oe_key\<close> is the key of the environment variable, \<open>oe_chain\<close> the chain id of the node,
  \<open>oe_domain\<close> the token's domain separator, \<open>oe_write\<close> the error of writing the output.
\<close>

record operator_env =
  oe_geth :: geth
  oe_key :: "bytes32 result"
  oe_chain :: "int result"
  oe_domain :: "bytes32 result"
  oe_random :: "bytes32 result"
  oe_now :: int
  oe_write :: "string option"

definition written_out :: "operator_env \<Rightarrow> string \<Rightarrow> 'a \<Rightarrow> 'a result" where
  "written_out E what x = (case oe_write E of None \<Rightarrow> Inr x | Some e \<Rightarrow> Inl (what @ e))"

section \<open>cmd/delegator\<close>

fun split_comma :: "string \<Rightarrow> string list" where
  "split_comma [] = [[]]"
| "split_comma (c # cs) =
     (if c = CHR '','' then [] # split_comma cs
      else case split_comma cs of [] \<Rightarrow> [[c]] | p # ps \<Rightarrow> (c # p) # ps)"

definition split_non_empty :: "string \<Rightarrow> string list" where
  "split_non_empty csv = filter (\<lambda>s. s \<noteq> '''') (map trim_space (split_comma csv))"

fun parse_address_list :: "geth \<Rightarrow> string list \<Rightarrow> address list result" where
  "parse_address_list G [] = Inr []"
| "parse_address_list G (p # ps) =
     (if \<not> is_hex_address G p then Inl ''--payees entry is not an address''
      else case parse_address_list G ps of Inl e \<Rightarrow> Inl e | Inr as \<Rightarrow> Inr (hex_to_address G p # as))"

definition parse_addresses :: "geth \<Rightarrow> string \<Rightarrow> address list result" where
  "parse_addresses G csv = parse_address_list G (split_non_empty csv)"

record sign_flags =
  sf_agent :: string
  sf_max_amount :: int
  sf_payees :: string
  sf_resources :: string
  sf_valid_for :: int
  sf_budget :: int
  sf_budget_window :: int
  sf_max_payments :: int
  sf_rate_window :: int

text \<open>The mandate the flags describe; the expiry is an int64 sum.\<close>

definition flagged_mandate :: "operator_env \<Rightarrow> sign_flags \<Rightarrow> address \<Rightarrow> address list \<Rightarrow> bytes32 \<Rightarrow> mandate" where
  "flagged_mandate E f delegator payees i = \<lparr>
     m_delegator = delegator, m_agent = hex_to_address (oe_geth E) (sf_agent f),
     m_max_amount_per_payment = Some (sf_max_amount f),
     m_allowed_payees = payees, m_allowed_resources = split_non_empty (sf_resources f),
     m_valid_after = Some 0, m_valid_before = Some (i64 (unix_of (oe_now E) + sf_valid_for f)),
     m_budget_amount = Some (sf_budget f), m_budget_window_seconds = Some (sf_budget_window f),
     m_max_payments_per_window = Some (sf_max_payments f), m_rate_window_seconds = Some (sf_rate_window f),
     m_mandate_id = i\<rparr>"

definition run_sign :: "operator_env \<Rightarrow> sign_flags \<Rightarrow> signed_mandate_json result" where
  "run_sign E f =
     (let G = oe_geth E in
      if \<not> is_hex_address G (sf_agent f) then Inl ''--agent must be a valid address''
      else and_then (parse_addresses G (sf_payees f)) (\<lambda>payees.
        and_then (oe_key E) (\<lambda>key. and_then (oe_chain E) (\<lambda>chain_id. and_then (oe_random E) (\<lambda>i.
          let m = flagged_mandate E f (key_address G key) payees i in
          and_then (sign_mandate G key m (Some chain_id)) (\<lambda>sig.
            written_out E ''write mandate: ''
              \<lparr>smj_mandate = mandate_to_json G m, smj_signature = ''0x'' @ hex_encode sig\<rparr>))))))"

text \<open>The ask is the file read and decoded.\<close>

definition run_confirm :: "operator_env \<Rightarrow> ask_request result option \<Rightarrow> int \<Rightarrow> confirmation_json result" where
  "run_confirm E ask_file valid_for =
     (let G = oe_geth E in
      case ask_file of None \<Rightarrow> Inl ''--ask is required'' | Some f \<Rightarrow>
      and_then f (\<lambda>ask.
      case parse_bytes32 G (ask_mandate_id ask) of Inl e \<Rightarrow> Inl (''ask mandate id: '' @ e) | Inr i \<Rightarrow>
     (case parse_bytes32 G (ask_authorization_nonce ask) of Inl e \<Rightarrow> Inl (''ask nonce: '' @ e) | Inr n \<Rightarrow>
     (case set_string10 (ask_amount ask) of None \<Rightarrow> Inl ''ask amount is not an integer'' | Some amount \<Rightarrow>
      and_then (oe_key E) (\<lambda>key. and_then (oe_chain E) (\<lambda>chain_id.
        let c = \<lparr>c_mandate_id = i, c_authorization_nonce = n, c_amount = Some amount, c_resource = ask_resource ask,
                 c_valid_before = Some (i64 (unix_of (oe_now E) + valid_for))\<rparr> in
        and_then (sign_confirmation G key c (Some chain_id)) (\<lambda>sig.
          written_out E ''write confirmation: '' ((confirmation_to_json G c)\<lparr>cj_signature := ''0x'' @ hex_encode sig\<rparr>))))))))"

text \<open>\<open>post\<close> is the HTTP client: the status of the answer to a revocation sent to a URL.\<close>

definition run_revoke ::
    "operator_env \<Rightarrow> string \<Rightarrow> signed_mandate_json result option \<Rightarrow>
     (string \<Rightarrow> revocation_json \<Rightarrow> 'w \<Rightarrow> int result \<times> 'w) \<Rightarrow> 'w \<Rightarrow> string option \<times> 'w" where
  "run_revoke E url mandate_file post w =
     (let G = oe_geth E in
      if url = '''' then (Some ''--gateway is required'', w)
      else case mandate_file of None \<Rightarrow> (Some ''--mandate is required'', w) | Some f \<Rightarrow>
     (case f of Inl e \<Rightarrow> (Some e, w) | Inr sm \<Rightarrow>
     (case parse_bytes32 G (mj_mandate_id (smj_mandate sm)) of Inl e \<Rightarrow> (Some (''mandate id: '' @ e), w) | Inr i \<Rightarrow>
     (case and_then (oe_key E) (\<lambda>key. and_then (oe_chain E) (\<lambda>chain_id. sign_revocation G key i (Some chain_id))) of
        Inl e \<Rightarrow> (Some e, w)
      | Inr sig \<Rightarrow>
         (case post (trim_right_slashes url @ ''/mandates/revoke'')
                 \<lparr>rj_mandate_id = mj_mandate_id (smj_mandate sm), rj_signature = ''0x'' @ hex_encode sig\<rparr> w of
            (Inl e, w1) \<Rightarrow> (Some (''post revocation: '' @ e), w1)
          | (Inr status, w1) \<Rightarrow>
              if status \<noteq> 204 then (Some (''gateway rejected the revocation: HTTP '' @ big_show status), w1)
              else (None, w1))))))"

section \<open>cmd/agent\<close>

definition run_redeem_request ::
    "operator_env \<Rightarrow> string \<Rightarrow> string \<Rightarrow> string \<Rightarrow> int \<Rightarrow> redemption_request result" where
  "run_redeem_request E tok to amount valid_for =
     (let G = oe_geth E in
      if tok = '''' \<or> \<not> is_hex_address G tok then Inl ''--token must be a valid address''
      else if \<not> is_hex_address G to then Inl ''--to must be the issuer address''
      else case set_string10 amount of
        None \<Rightarrow> Inl ''invalid --amount''
      | Some v \<Rightarrow>
          if v \<le> 0 then Inl ''invalid --amount''
          else and_then (oe_chain E) (\<lambda>_.
            case oe_domain E of Inl e \<Rightarrow> Inl (''read domain separator: '' @ e) | Inr domain \<Rightarrow>
            and_then (oe_key E) (\<lambda>key. and_then (oe_random E) (\<lambda>n.
              let a = \<lparr>au_from = key_address G key, au_to = hex_to_address G to, au_value = v, au_valid_after = 0,
                       au_valid_before = i64 (unix_of (oe_now E) + valid_for), au_nonce = n\<rparr> in
              and_then (sign_receive_authorization G (wallet_from_key G key) domain a) (\<lambda>sig.
                written_out E ''write request: ''
                  \<lparr>rd_authorization = \<lparr>aj_from = address_hex G (au_from a), aj_to = address_hex G (au_to a),
                     aj_value = big_show (au_value a), aj_valid_after = big_show (au_valid_after a),
                     aj_valid_before = big_show (au_valid_before a), aj_nonce = ''0x'' @ hex_encode (bytes32_bytes n)\<rparr>,
                   rd_signature = ''0x'' @ hex_encode sig\<rparr>)))))"

text \<open>
  \<open>get\<close>: the agent the flags make, then a session or one payment. The files are read and
  decoded; a session budget of 0 is none.
\<close>

record get_flags =
  gf_token :: string
  gf_max :: int
  gf_mandate :: "signed_mandate_json result option"
  gf_confirmation :: "confirmation_json result option"
  gf_grant_table :: "raw_table option result option"
  gf_session_budget :: int
  gf_session_requests :: int
  gf_url :: string

definition optional_file :: "'a result option \<Rightarrow> 'a option result" where
  "optional_file f = (case f of None \<Rightarrow> Inr None | Some (Inl e) \<Rightarrow> Inl e | Some (Inr x) \<Rightarrow> Inr (Some x))"

definition load_grant_file :: "raw_table option result option \<Rightarrow> grant_policy option result" where
  "load_grant_file f =
     (case f of
        None \<Rightarrow> Inr None
      | Some (Inl e) \<Rightarrow> Inl (''read grant table: '' @ e)
      | Some (Inr raw) \<Rightarrow> (case load_table_grant raw of Inl e \<Rightarrow> Inl e | Inr t \<Rightarrow> Inr (Some (TableGrant t))))"

definition flagged_agent :: "operator_env \<Rightarrow> get_flags \<Rightarrow> agent result" where
  "flagged_agent E f =
     (let G = oe_geth E in
      if gf_token f = '''' \<or> \<not> is_hex_address G (gf_token f) then Inl ''--token must be a valid address''
      else and_then (oe_chain E) (\<lambda>_.
        case oe_domain E of Inl e \<Rightarrow> Inl (''read domain separator: '' @ e) | Inr domain \<Rightarrow>
        and_then (oe_key E) (\<lambda>key. and_then (optional_file (gf_mandate f)) (\<lambda>m.
        and_then (optional_file (gf_confirmation f)) (\<lambda>c. and_then (load_grant_file (gf_grant_table f)) (\<lambda>g.
          Inr \<lparr>ag_wallet = wallet_from_key G key, ag_domain = domain, ag_max_amount = Some (gf_max f), ag_grant = g,
               ag_mandate = m, ag_confirmation = c, ag_last_header = None, ag_last_amount = None, ag_last_resource = ''''\<rparr>))))))"

text \<open>How \<open>get\<close> ends: with an error, the ask to confirm (exit status 2), a refusal and its
  hint (exit status 1), a payment, or a closed session.\<close>

datatype get_end =
    GetError string
  | GetAsk ask_request
  | GetRefused string bool
  | GetPaid agent_result
  | SessionEnd agent_result

text \<open>The draws of a session after the first: the loop stops at an answer other than 200.\<close>

fun session_draws :: "'w agent_env \<Rightarrow> string \<Rightarrow> string \<Rightarrow> nat \<Rightarrow> 'w \<Rightarrow> string option \<times> 'w" where
  "session_draws A url i 0 w = (None, w)"
| "session_draws A url i (Suc n) w =
     (case agent_session_get A url i w of
        (Inl e, w1) \<Rightarrow> (Some e, w1)
      | (Inr r, w1) \<Rightarrow> if rs_status r \<noteq> 200 then (None, w1) else session_draws A url i n w1)"

definition run_session :: "'w agent_env \<Rightarrow> string \<Rightarrow> int \<Rightarrow> int \<Rightarrow> agent \<Rightarrow> 'w \<Rightarrow> get_end \<times> 'w" where
  "run_session A url budget requests ag w =
     (case agent_open_session A url budget ag w of
        (Inl e, _, w1) \<Rightarrow> (GetError e, w1)
      | (Inr (i, res), _, w1) \<Rightarrow>
          if i = '''' then (GetError ''session was not opened'', w1)
          else (case session_draws A url i (nat (requests - 1)) w1 of
            (Some e, w2) \<Rightarrow> (GetError e, w2)
          | (None, w2) \<Rightarrow> (case agent_close_session A url i w2 of
              (Inl e, w3) \<Rightarrow> (GetError e, w3)
            | (Inr ended, w3) \<Rightarrow> (SessionEnd ended, w3))))"

definition run_get :: "operator_env \<Rightarrow> 'w agent_env \<Rightarrow> get_flags \<Rightarrow> 'w \<Rightarrow> get_end \<times> 'w" where
  "run_get E A f w =
     (case flagged_agent E f of
        Inl e \<Rightarrow> (GetError e, w)
      | Inr ag \<Rightarrow>
          if gf_session_budget f > 0 then run_session A (gf_url f) (gf_session_budget f) (gf_session_requests f) ag w
          else (case agent_get A (gf_url f) ag w of
            (Inl e, _, w1) \<Rightarrow> (GetError e, w1)
          | (Inr r, _, w1) \<Rightarrow>
              if rs_paid r then (GetPaid r, w1)
              else (case (rs_error_code r = ErrCodeConfirmationRequired, rs_ask r) of
                (True, Some ask) \<Rightarrow> (GetAsk ask, w1)
              | _ \<Rightarrow> (GetRefused (rs_body r) (registration_hint r), w1))))"

text \<open>\<open>discover\<close>: the listing, and with \<open>--buy\<close> one payment for its first resource.\<close>

datatype discover_end =
    DiscoverError string
  | Listed "discovery_item list"
  | Bought agent_result

definition run_discover ::
    "operator_env \<Rightarrow> 'w agent_env \<Rightarrow> string \<Rightarrow> int \<Rightarrow> bool \<Rightarrow> string \<Rightarrow> 'w \<Rightarrow> discover_end \<times> 'w" where
  "run_discover E A tok mx buy url w =
     (case agent_discover A url w of
        (Inl e, w1) \<Rightarrow> (DiscoverError e, w1)
      | (Inr disc, w1) \<Rightarrow>
          if \<not> buy then (Listed (dsc_items disc), w1)
          else (case dsc_items disc of
            [] \<Rightarrow> (DiscoverError ''nothing to buy: no resources listed'', w1)
          | item # _ \<Rightarrow>
             (case flagged_agent E \<lparr>gf_token = tok, gf_max = mx, gf_mandate = None, gf_confirmation = None,
                     gf_grant_table = None, gf_session_budget = 0, gf_session_requests = 0, gf_url = di_resource item\<rparr> of
                Inl e \<Rightarrow> (DiscoverError e, w1)
              | Inr ag \<Rightarrow> (case agent_get A (di_resource item) ag w1 of
                  (Inl e, _, w2) \<Rightarrow> (DiscoverError e, w2)
                | (Inr r, _, w2) \<Rightarrow> (Bought r, w2)))))"

section \<open>A signed mandate\<close>

lemma written_out_Inr [simp]: "written_out E what x = Inr y \<longleftrightarrow> oe_write E = None \<and> y = x"
  by (auto simp: written_out_def split: option.split)

lemma wire_normal_flagged [simp]: "wire_normal (flagged_mandate E f d payees i) = flagged_mandate E f d payees i"
  by (simp add: wire_normal_def zero_nil_def flagged_mandate_def)

lemma run_sign_Inr:
  assumes "run_sign E f = Inr sm"
  obtains payees key chain i sig where "parse_addresses (oe_geth E) (sf_payees f) = Inr payees"
    "oe_key E = Inr key" "oe_chain E = Inr chain"
    "sign_mandate (oe_geth E) key (flagged_mandate E f (key_address (oe_geth E) key) payees i) (Some chain) = Inr sig"
    "sm = \<lparr>smj_mandate = mandate_to_json (oe_geth E) (flagged_mandate E f (key_address (oe_geth E) key) payees i),
           smj_signature = ''0x'' @ hex_encode sig\<rparr>"
  using assms by (auto simp: run_sign_def Let_def split: if_splits)

lemma run_sign_signed_in:
  assumes "geth_text (oe_geth E)" and "geth_sig (oe_geth E)" and "run_sign E f = Inr sm"
    and "pp_mandate (pc_payload pc) = Some sm" and "oe_chain E = Inr chain" and "mp_chain_id p = Some chain"
  obtains payees key i where "parse_addresses (oe_geth E) (sf_payees f) = Inr payees" "oe_key E = Inr key"
    "signed_mandate_in (oe_geth E) p pc (flagged_mandate E f (key_address (oe_geth E) key) payees i)"
  using assms(3)
proof (rule run_sign_Inr)
  fix payees key c i sig
  let ?m = "flagged_mandate E f (key_address (oe_geth E) key) payees i"
  assume s: "parse_addresses (oe_geth E) (sf_payees f) = Inr payees" "oe_key E = Inr key" "oe_chain E = Inr c"
    "sign_mandate (oe_geth E) key ?m (Some c) = Inr sig"
    "sm = \<lparr>smj_mandate = mandate_to_json (oe_geth E) ?m, smj_signature = ''0x'' @ hex_encode sig\<rparr>"
  have "verify_mandate (oe_geth E) ?m sig (Some c) = Inr (m_delegator ?m)"
    by (rule sign_mandate_verify [OF assms(2) s(4)]) (simp add: flagged_mandate_def)
  then have "signed_mandate_in (oe_geth E) p pc ?m"
    using s(3,5) assms(4-6) to_mandate_print [OF assms(1), of ?m] geth_textD(5) [OF assms(1), of sig]
    by (simp add: signed_mandate_in_def)
  then show thesis using s(1,2) that by blast
qed

text \<open>
  C24. \<open>delegator sign\<close> grants what its flags say: the file it wrote reads back as a mandate
  signed by its delegator, the key's address, with the flags' caps; attached to a payment
  under a mandate policy of the same chain, that mandate entitles the payment exactly when
  the payer is \<open>--agent\<close>, the time is before the expiry, it is not revoked, and payee and
  resource are among those listed (any, for an empty list).
\<close>

theorem signed_mandate_entitles:
  assumes "geth_text (oe_geth E)" and "geth_sig (oe_geth E)" and "run_sign E f = Inr sm"
    and "pp_mandate (pc_payload pc) = Some sm" and "oe_chain E = Inr chain" and "mp_chain_id p = Some chain"
  shows "\<exists>m payees key. to_mandate (oe_geth E) (smj_mandate sm) = Inr m \<and>
    verify_mandate (oe_geth E) m (from_hex (oe_geth E) (smj_signature sm)) (Some chain) = Inr (m_delegator m) \<and>
    oe_key E = Inr key \<and> parse_addresses (oe_geth E) (sf_payees f) = Inr payees \<and>
    m_delegator m = key_address (oe_geth E) key \<and> m_max_amount_per_payment m = Some (sf_max_amount f) \<and>
    m_budget_amount m = Some (sf_budget f) \<and> m_max_payments_per_window m = Some (sf_max_payments f) \<and>
    (entitled (oe_geth E) t p pc st m \<longleftrightarrow>
      (\<exists>v. pc_verification pc = Some v \<and> vr_payer v \<noteq> '''' \<and>
        hex_to_address (oe_geth E) (vr_payer v) = hex_to_address (oe_geth E) (sf_agent f)) \<and>
      0 \<le> unix_of t \<and> unix_of t < i64 (unix_of (oe_now E) + sf_valid_for f) \<and> \<not> revoked_in p st m \<and>
      (payees = [] \<or> hex_to_address (oe_geth E) (pr_pay_to (pc_requirements pc)) \<in> set payees) \<and>
      (split_non_empty (sf_resources f) = [] \<or>
        (\<exists>r\<in>set (split_non_empty (sf_resources f)). has_prefix (pr_resource (pc_requirements pc)) r)))"
  using assms
proof (rule run_sign_signed_in)
  fix payees key i
  let ?m = "flagged_mandate E f (key_address (oe_geth E) key) payees i"
  assume s: "parse_addresses (oe_geth E) (sf_payees f) = Inr payees" "oe_key E = Inr key"
    "signed_mandate_in (oe_geth E) p pc ?m"
  have w: "to_mandate (oe_geth E) (smj_mandate sm) = Inr ?m"
    "verify_mandate (oe_geth E) ?m (from_hex (oe_geth E) (smj_signature sm)) (Some chain) = Inr (m_delegator ?m)"
    using s(3) assms(4,6) by (auto simp: signed_mandate_in_def)
  have "paid_by_agent (oe_geth E) pc ?m \<longleftrightarrow> (\<exists>v. pc_verification pc = Some v \<and> vr_payer v \<noteq> '''' \<and>
      hex_to_address (oe_geth E) (vr_payer v) = hex_to_address (oe_geth E) (sf_agent f))"
    by (simp add: paid_by_agent_def flagged_mandate_def split: option.split)
  moreover have "within_validity ?m t \<longleftrightarrow> 0 \<le> unix_of t \<and> unix_of t < i64 (unix_of (oe_now E) + sf_valid_for f)"
    by (simp add: within_validity_def flagged_mandate_def)
  ultimately show ?thesis using s w
    by (intro exI [of _ ?m] exI [of _ payees] exI [of _ key] conjI w)
      (simp_all add: entitled_def scope_allows_def, simp_all add: flagged_mandate_def)
qed

section \<open>An answered ask\<close>



lemma bytes32_print [simp]:
  assumes "geth_text G"
  shows "from_hex G (''0x'' @ bytes2hex G (bytes32_bytes w)) = bytes32_bytes w"
  using geth_textD(4,5) [OF assms, of "bytes32_bytes w"] by simp

lemma to_mandate_id: "to_mandate G j = Inr m \<Longrightarrow> parse_bytes32 G (mj_mandate_id j) = Inr (m_mandate_id m)"
  by (auto simp: to_mandate_def split: if_splits sum.splits option.splits)

lemma run_confirm_Inr:
  assumes "run_confirm E (Some (Inr ask)) vf = Inr cj"
  obtains i n amount key chain c sig where "parse_bytes32 (oe_geth E) (ask_mandate_id ask) = Inr i"
    "parse_bytes32 (oe_geth E) (ask_authorization_nonce ask) = Inr n" "set_string10 (ask_amount ask) = Some amount"
    "oe_key E = Inr key" "oe_chain E = Inr chain"
    "c = \<lparr>c_mandate_id = i, c_authorization_nonce = n, c_amount = Some amount, c_resource = ask_resource ask,
          c_valid_before = Some (i64 (unix_of (oe_now E) + vf))\<rparr>"
    "sign_confirmation (oe_geth E) key c (Some chain) = Inr sig"
    "cj = (confirmation_to_json (oe_geth E) c)\<lparr>cj_signature := ''0x'' @ hex_encode sig\<rparr>"
  using assms by (auto simp: run_confirm_def Let_def and_then_def split: sum.splits option.splits)

lemma to_confirmation_signature [simp]: "to_confirmation G (cj\<lparr>cj_signature := s\<rparr>) = to_confirmation G cj"
  by (simp add: to_confirmation_def cong: sum.case_cong option.case_cong)

lemma confirmed_limits:
  assumes "confirmed_by_delegator G t p pc m amount" and "payment_amount pc = Some amount"
  shows "d_action (fst (mandate_limits G t p pc m st)) \<in> {ActionApprove, ActionDefer}
    \<or> fst (mandate_limits G t p pc m st) = reject ErrCodeMandateRate ''payment exceeds the mandate's rate limit''"
proof -
  have acc: "d_action (fst (account_payment G t p pc m amount True att s)) \<in> {ActionApprove, ActionDefer}
    \<or> fst (account_payment G t p pc m amount True att s) = reject ErrCodeMandateRate ''payment exceeds the mandate's rate limit''"
    for att s
  proof -
    obtain n where n: "payment_nonce G pc = Some n" using assms(1) by (auto simp: confirmed_by_delegator_def)
    show ?thesis
    proof (cases "mp_ref p")
      case None
      then show ?thesis using defer_or_approve_action [of p pc amount] by (simp add: account_payment_def)
    next
      case (Some r)
      obtain code a where ra: "reserve (mps_accounts (s r)) m n amount t True = (code, a)"
        by (cases "reserve (mps_accounts (s r)) m n amount t True")
      then have "code = NoCode \<or> code = ErrCodeMandateRate"
        using reserve_skip_codes [of "mps_accounts (s r)" m n amount t] by simp
      then show ?thesis using defer_or_approve_action [of p pc amount] Some n ra
        by (auto simp: account_payment_def Let_def)
    qed
  qed
  show ?thesis
    using assms(2) confirmation_approves_iff [of G t p pc m amount] assms(1) acc
    by (simp add: mandate_limits_def Let_def)
qed

text \<open>What the retry claims, whatever else is in it.\<close>

lemma confirmed_retry_claims:
  assumes "geth_text (an_geth A)" and "ag_confirmation ag = Some cj"
    and "cj_authorization_nonce cj = ''0x'' @ bytes2hex (an_geth A) (bytes32_bytes n)"
    and "build_payment A ag req amount w = (Inr p, w')" and "pc_payload pc = p"
  shows "payment_nonce (an_geth A) pc = Some n" "payment_amount pc = Some amount" "pp_confirmation (pc_payload pc) = Some cj"
    "pp_mandate (pc_payload pc) = ag_mandate ag"
proof -
  from assms(4) obtain nonce seed sig where b: "agent_bound_nonce A ag (pr_resource req) w = (Inr (nonce, seed), w')"
      and p: "p = auth_payload (an_geth A) (pr_network req)
        (agent_authorization (an_geth A) ag req amount (an_now A w') nonce) sig seed (ag_mandate ag) (ag_confirmation ag) None"
    by (rule build_payment_Inr)
  have "nonce = n"
    using b assms(2,3) bytes32_print [OF assms(1), of n] by (simp add: agent_bound_nonce_def agent_payment_nonce_def Let_def)
  then have a: "ep_authorization (pp_payload p) = \<lparr>aj_from = address_hex (an_geth A) (w_address (ag_wallet ag)),
      aj_to = address_hex (an_geth A) (fst (expected_recipient (an_geth A) req)), aj_value = big_show amount,
      aj_valid_after = big_show 0, aj_valid_before = big_show (au_valid_before (agent_authorization (an_geth A) ag req amount (an_now A w') n)),
      aj_nonce = ''0x'' @ hex_encode (bytes32_bytes n)\<rparr>"
    by (simp add: p auth_payload_def, simp add: agent_authorization_def)
  show "payment_nonce (an_geth A) pc = Some n" "payment_amount pc = Some amount"
    using geth_textD(5) [OF assms(1), of "bytes32_bytes n"] by (simp_all add: payment_nonce_def payment_amount_def assms(5) a)
  show "pp_confirmation (pc_payload pc) = Some cj" "pp_mandate (pc_payload pc) = ag_mandate ag"
    by (simp_all add: assms(2,5) p)
qed

text \<open>
  C25. An answered ask is not asked again: the delegator confirms the ask the gateway sent back
  for a payment, the agent attaches the confirmation and pays the same amount for the same
  resource; then, until the confirmation's expiry, the retry carries the asked nonce, counts
  as confirmed by the delegator, and if it is entitled the policy approves or defers it - or
  refuses it for the mandate's rate limit, which no confirmation lifts.
\<close>

theorem confirmation_answers_ask:
  assumes "geth_text G" and "geth_sig G" and "oe_geth E = G" and "an_geth A = G"
    and "signed_mandate_in G p pc m" and "run_confirm E (Some (Inr (ask_from_context pc))) vf = Inr cj"
    and "oe_key E = Inr key" and "m_delegator m = key_address G key" and "oe_chain E = Inr chain" and "mp_chain_id p = Some chain"
    and "ag_confirmation ag = Some cj" and "payment_amount pc = Some amount"
    and "build_payment A ag req amount w = (Inr pay, w')" and "pc_payload pc' = pay"
    and "pr_resource (pc_requirements pc') = pr_resource (pc_requirements pc)"
    and "unix_of t < i64 (unix_of (oe_now E) + vf)"
  shows "payment_nonce G pc' = payment_nonce G pc \<and> confirmed_by_delegator G t p pc' m amount \<and>
    (entitled G t p pc' st m \<longrightarrow>
      d_action (fst (mandate_decide G t p pc' st)) \<in> {ActionApprove, ActionDefer} \<or>
      fst (mandate_decide G t p pc' st) = reject ErrCodeMandateRate ''payment exceeds the mandate's rate limit'')"
  using assms(6)
proof (rule run_confirm_Inr)
  fix i n x k ch c sig
  assume s: "parse_bytes32 (oe_geth E) (ask_mandate_id (ask_from_context pc)) = Inr i"
    "parse_bytes32 (oe_geth E) (ask_authorization_nonce (ask_from_context pc)) = Inr n"
    "set_string10 (ask_amount (ask_from_context pc)) = Some x" "oe_key E = Inr k" "oe_chain E = Inr ch"
    "c = \<lparr>c_mandate_id = i, c_authorization_nonce = n, c_amount = Some x, c_resource = ask_resource (ask_from_context pc),
          c_valid_before = Some (i64 (unix_of (oe_now E) + vf))\<rparr>"
    "sign_confirmation (oe_geth E) k c (Some ch) = Inr sig"
    "cj = (confirmation_to_json (oe_geth E) c)\<lparr>cj_signature := ''0x'' @ hex_encode sig\<rparr>"
  have x: "x = amount" using s(3) assms(12) by (simp add: ask_from_context_def payment_amount_def)
  have i: "i = m_mandate_id m"
    using s(1) assms(3,5) to_mandate_id by (fastforce simp: ask_from_context_def signed_mandate_in_def split: option.splits)
  have n: "payment_nonce G pc = Some n"
    using s(2) assms(3) by (auto simp: ask_from_context_def parse_bytes32_def payment_nonce_def Let_def split: if_splits)
  have cn: "cj_authorization_nonce cj = ''0x'' @ bytes2hex G (bytes32_bytes n)"
    by (simp add: s(8) confirmation_to_json_def, simp add: s(6) assms(3))
  note retry = confirmed_retry_claims [where A = A and pc = pc', unfolded assms(4), OF assms(1) assms(11) cn assms(13,14)]
  have conf: "to_confirmation G cj = Inr c"
    using to_confirmation_print [OF assms(1), of c] by (simp add: s(8) assms(3), simp add: s(6) zero_nil_def)
  have "verify_confirmation G c (from_hex G (cj_signature cj)) (mp_chain_id p) = Inr (m_delegator m)"
    using sign_confirmation_verify [OF assms(2), of k c "Some ch" sig] s(4,5,7) assms(3,7-10)
      geth_textD(5) [OF assms(1), of sig] by (simp add: s(8))
  then have ok: "confirmed_by_delegator G t p pc' m amount"
    unfolding confirmed_by_delegator_def
    using retry(1,3) conf assms(15,16) i x by (simp add: s(6) ask_from_context_def)
  moreover have "d_action (fst (mandate_decide G t p pc' st)) \<in> {ActionApprove, ActionDefer} \<or>
      fst (mandate_decide G t p pc' st) = reject ErrCodeMandateRate ''payment exceeds the mandate's rate limit''"
    if e: "entitled G t p pc' st m"
  proof (cases rule: mandate_decide_cases [of G t p pc' st])
    case refused
    with e show ?thesis by blast
  next
    case (entitled m')
    then have "m' = m" using e signed_mandate_in_unique unfolding entitled_def by blast
    with entitled(2) confirmed_limits [OF ok retry(2)] show ?thesis by simp
  qed
  ultimately show ?thesis using retry(1) n by simp
qed

section \<open>A revocation sent\<close>

text \<open>
  The HTTP server of a started gateway as the client sees it: \<open>host_url\<close> is its URL, the path of
  a request is what follows it.
\<close>

definition post_to ::
    "string \<Rightarrow> gateway_flags \<Rightarrow> 'w assembly \<Rightarrow> http_request \<Rightarrow> string \<Rightarrow> revocation_json \<Rightarrow> 'w gateway \<Rightarrow> int result \<times> 'w gateway" where
  "post_to host_url F u rq url rj s =
     (if take (length host_url) url \<noteq> host_url then (Inl ''no such host'', s)
      else case gateway_mux F (started u) (rq\<lparr>rq_path := drop (length host_url) url\<rparr>) ''POST'' (Some rj) s of
        (RevokeReply code msg, s1) \<Rightarrow> (Inr code, s1)
      | (NotFound, s1) \<Rightarrow> (Inr 404, s1)
      | (_, s1) \<Rightarrow> (Inr 200, s1))"

lemma mandate_started:
  assumes "gateway_run S F = Inr u" and "su_mandate u = Some mp"
  shows "mandate_policy_of (gateway_policy (started u) s) = Some mp" "ge_geth (started u) = sx_geth S"
proof -
  show "mandate_policy_of (gateway_policy (started u) s) = Some mp"
    by (rule enforcesD [OF started_enforces [OF assms], of s]) simp
  show "ge_geth (started u) = sx_geth S" using assms(1) by (rule started_policies)
qed

lemma record_revocation_store [simp]: "gw_store (record_revocation E i d sig s) = gw_store s"
  by (simp add: record_revocation_def)

text \<open>
  \<open>delegator revoke\<close> against a started gateway with \<open>--require-mandate\<close> on the same chain
  reports success, and afterwards that gateway's policy has the mandate revoked exactly if it
  had before or the key is its delegator's: with any other key the command reports success
  as well, and nothing of the mandate is revoked.
\<close>

theorem revoke_command_revokes:
  assumes "geth_text (sx_geth S)" and "geth_sig (sx_geth S)" and "oe_geth E = sx_geth S"
    and "gateway_run S F = Inr u" and "su_mandate u = Some mp" and "fg_require_mandate F"
    and "oe_chain E = Inr chain" and "mp_chain_id mp = Some chain" and "oe_key E = Inr key"
    and "\<And>h. crypto_sign (sx_geth S) h key \<noteq> None"
    and "to_mandate (sx_geth S) (smj_mandate sm) = Inr m" and "trim_right_slashes url = host_url" and "url \<noteq> ''''"
  shows "\<exists>s'. run_revoke E url (Some (Inr sm)) (post_to host_url F u rq) s = (None, s') \<and>
    (revoked_in mp (gw_store s') m \<longleftrightarrow> revoked_in mp (gw_store s) m \<or> m_delegator m = key_address (sx_geth S) key)"
proof -
  let ?G = "sx_geth S"
  let ?i = "m_mandate_id m"
  have i: "parse_bytes32 ?G (mj_mandate_id (smj_mandate sm)) = Inr ?i" by (rule to_mandate_id [OF assms(11)])
  obtain sig where sig: "sign_revocation ?G key ?i (Some chain) = Inr sig"
    using assms(10) [of "digest ?G (mandate_domain_separator ?G (Some chain)) (revocation_struct_hash ?G ?i)"]
    by (auto simp: sign_revocation_def)
  let ?rj = "\<lparr>rj_mandate_id = mj_mandate_id (smj_mandate sm), rj_signature = ''0x'' @ hex_encode sig\<rparr>"
  have v: "verify_revocation ?G ?i (from_hex ?G (rj_signature ?rj)) (mp_chain_id mp) = Inr (key_address ?G key)"
    using sign_revocation_verify [OF assms(2) sig] geth_textD(5) [OF assms(1), of sig] assms(8) by simp
  obtain r where r: "mp_ref mp = Some r" using started_enforces [OF assms(4,5)] by (auto simp: enforces_def)
  let ?s' = "record_revocation (started u) (rj_mandate_id ?rj) (key_address ?G key) (rj_signature ?rj)
      (s\<lparr>gw_store := mp_revoke mp (key_address ?G key) ?i (gw_store s)\<rparr>)"
  have "revoke_mandate (started u) ?rj s = (None, ?s')"
    using i v by (simp add: revoke_mandate_def mandate_started [OF assms(4,5)])
  then have "post_to host_url F u rq (host_url @ ''/mandates/revoke'') ?rj s = (Inr 204, ?s')"
    using assms(6) by (simp add: post_to_def gateway_mux_def revoke_handler_def)
  then have "run_revoke E url (Some (Inr sm)) (post_to host_url F u rq) s = (None, ?s')"
    using assms(3,7,9,12,13) i sig by (simp add: run_revoke_def and_then_def Let_def)
  moreover have "revoked_in mp (gw_store ?s') m \<longleftrightarrow> revoked_in mp (gw_store s) m \<or> m_delegator m = key_address ?G key"
    using revoked_in_mp_revoke [OF r, of "key_address ?G key" ?i "gw_store s" m] by auto
  ultimately show ?thesis by blast
qed

section \<open>A redemption request\<close>

lemma run_redeem_request_Inr:
  assumes "run_redeem_request E tok to amount vf = Inr req"
  obtains v domain key n sig a where "set_string10 amount = Some v" "0 < v" "oe_domain E = Inr domain" "oe_key E = Inr key"
    "a = \<lparr>au_from = key_address (oe_geth E) key, au_to = hex_to_address (oe_geth E) to, au_value = v, au_valid_after = 0,
          au_valid_before = i64 (unix_of (oe_now E) + vf), au_nonce = n\<rparr>"
    "sign_receive_authorization (oe_geth E) (wallet_from_key (oe_geth E) key) domain a = Inr sig"
    "req = \<lparr>rd_authorization = \<lparr>aj_from = address_hex (oe_geth E) (au_from a), aj_to = address_hex (oe_geth E) (au_to a),
                     aj_value = big_show (au_value a), aj_valid_after = big_show (au_valid_after a),
                     aj_valid_before = big_show (au_valid_before a), aj_nonce = ''0x'' @ hex_encode (bytes32_bytes (au_nonce a))\<rparr>,
            rd_signature = ''0x'' @ hex_encode sig\<rparr>"
proof -
  from assms obtain v where v: "set_string10 amount = Some v" "0 < v"
    by (auto simp: run_redeem_request_def Let_def not_le split: if_splits option.splits)
  with assms obtain domain where d: "oe_domain E = Inr domain"
    by (cases "oe_domain E") (auto simp: run_redeem_request_def Let_def and_then_def split: if_splits sum.splits)
  from assms have "and_then (oe_chain E) (\<lambda>_. and_then (oe_key E) (\<lambda>key. and_then (oe_random E) (\<lambda>n.
      let a = \<lparr>au_from = key_address (oe_geth E) key, au_to = hex_to_address (oe_geth E) to, au_value = v,
               au_valid_after = 0, au_valid_before = i64 (unix_of (oe_now E) + vf), au_nonce = n\<rparr> in
      and_then (sign_receive_authorization (oe_geth E) (wallet_from_key (oe_geth E) key) domain a) (\<lambda>sig.
        written_out E ''write request: ''
          \<lparr>rd_authorization = \<lparr>aj_from = address_hex (oe_geth E) (au_from a), aj_to = address_hex (oe_geth E) (au_to a),
             aj_value = big_show (au_value a), aj_valid_after = big_show (au_valid_after a),
             aj_valid_before = big_show (au_valid_before a), aj_nonce = ''0x'' @ hex_encode (bytes32_bytes n)\<rparr>,
           rd_signature = ''0x'' @ hex_encode sig\<rparr>)))) = Inr req"
    using v d by (simp add: run_redeem_request_def Let_def del: and_then_Inr split: if_splits)
  then obtain key n sig where k: "oe_key E = Inr key"
    and sig: "sign_receive_authorization (oe_geth E) (wallet_from_key (oe_geth E) key) domain
      \<lparr>au_from = key_address (oe_geth E) key, au_to = hex_to_address (oe_geth E) to, au_value = v,
       au_valid_after = 0, au_valid_before = i64 (unix_of (oe_now E) + vf), au_nonce = n\<rparr> = Inr sig"
    and req: "req = \<lparr>rd_authorization = \<lparr>aj_from = address_hex (oe_geth E) (key_address (oe_geth E) key),
        aj_to = address_hex (oe_geth E) (hex_to_address (oe_geth E) to), aj_value = big_show v, aj_valid_after = big_show 0,
        aj_valid_before = big_show (i64 (unix_of (oe_now E) + vf)), aj_nonce = ''0x'' @ hex_encode (bytes32_bytes n)\<rparr>,
      rd_signature = ''0x'' @ hex_encode sig\<rparr>"
    unfolding Let_def and_then_Inr written_out_Inr authorization.simps by blast
  show thesis by (rule that [OF v d k refl sig]) (simp add: req)
qed

text \<open>
  What \<open>agent redeem-request\<close> writes the issuer accepts: signed against the token's domain
  for the issuer's address, it passes every check of \<open>issuer redeem\<close> before its expiry, as a
  receive authorization of the agent's whole requested amount.
\<close>

theorem redeem_request_is_redeemable:
  assumes "geth_text G" and "geth_sig G" and "oe_geth E = G" and "is_geth I = G"
    and "run_redeem_request E tok to amount vf = Inr req" and "oe_domain E = Inr (tk_domain_separator (iw_token w))"
    and "hex_to_address G to = is_address I" and "is_connect I = None" and "is_read I ''DOMAIN_SEPARATOR'' = None"
    and "unix_of (is_now I) < i64 (unix_of (oe_now E) + vf)"
  shows "\<exists>a vrs key. check_redemption I req w = Inr (a, vrs) \<and> oe_key E = Inr key \<and> au_from a = key_address G key \<and>
    au_to a = is_address I \<and> set_string10 amount = Some (au_value a) \<and> 0 < au_value a"
  using assms(5)
proof (rule run_redeem_request_Inr)
  fix v domain key n sig a
  assume s: "set_string10 amount = Some v" "0 < v" "oe_domain E = Inr domain" "oe_key E = Inr key"
    "a = \<lparr>au_from = key_address (oe_geth E) key, au_to = hex_to_address (oe_geth E) to, au_value = v, au_valid_after = 0,
          au_valid_before = i64 (unix_of (oe_now E) + vf), au_nonce = n\<rparr>"
    "sign_receive_authorization (oe_geth E) (wallet_from_key (oe_geth E) key) domain a = Inr sig"
    "req = \<lparr>rd_authorization = \<lparr>aj_from = address_hex (oe_geth E) (au_from a), aj_to = address_hex (oe_geth E) (au_to a),
                     aj_value = big_show (au_value a), aj_valid_after = big_show (au_valid_after a),
                     aj_valid_before = big_show (au_valid_before a), aj_nonce = ''0x'' @ hex_encode (bytes32_bytes (au_nonce a))\<rparr>,
            rd_signature = ''0x'' @ hex_encode sig\<rparr>"
  have G: "oe_geth E = G" by (rule assms(3))
  have dom: "domain = tk_domain_separator (iw_token w)" using s(3) assms(6) by simp
  have rec: "length sig = 65" "recover_receive_signer G domain a sig = Inr (au_from a)"
    using sign_struct_Inr [OF assms(2), of key domain a _ sig] s(6)
    by (auto simp: sign_receive_authorization_def recover_receive_signer_def G)
  have p: "parse_authorization G (rd_authorization req) = Inr a"
    using geth_textD(1,2) [OF assms(1)] s(2) by (simp add: parse_authorization_def s(7) G decode_0x_def, simp add: s(5) G)
  have h: "issuer_hex_bytes (rd_signature req) = Inr sig"
    by (simp add: issuer_hex_bytes_def s(7))
  obtain vrs where vrs: "split_signature sig = Inr vrs" using rec(1) by (simp add: split_signature_def)
  have "au_to a = is_address I" "unix_of (is_now I) < au_valid_before a" "au_value a = v" "au_from a = key_address G key"
    using assms(7,10) by (simp_all add: s(5) G)
  moreover from this have "check_redemption I req w = Inr (a, vrs)"
    using p h rec(2) vrs assms(4,8,9) dom by (simp add: check_redemption_def Let_def)
  ultimately show ?thesis using s(1,2,4) by (cases vrs) auto
qed

section \<open>A confirmation that is only attached\<close>

text \<open>
  The gateway takes any attached confirmation for the resource binding of the payment and
  does not verify it there: with \<open>--require-bound-nonce\<close> and no mandate policy, a payment
  that is bound to nothing passes with an arbitrary confirmation.
\<close>

lemma confirmation_skips_binding:
  assumes "ge_require_bound_nonce E" and "ep_nonce_seed (pp_payload p) = ''''"
  shows "check_resource_binding E p reqs = None \<longleftrightarrow> pp_confirmation p \<noteq> None"
  using assms by (simp add: check_resource_binding_def)

section \<open>Witnesses\<close>

text \<open>The delegator's key 1, the agent's 2, on chain 1, at second 1000.\<close>

definition sample_operator :: "bytes32 \<Rightarrow> operator_env" where
  "sample_operator key = \<lparr>oe_geth = sample_geth, oe_key = Inr key, oe_chain = Inr 1, oe_domain = Inr 0, oe_random = Inr 7,
     oe_now = 1000000000000, oe_write = None\<rparr>"

lemma sample_operator_sel [simp]:
  "oe_geth (sample_operator k) = sample_geth" "oe_key (sample_operator k) = Inr k" "oe_chain (sample_operator k) = Inr 1"
  "oe_domain (sample_operator k) = Inr 0" "oe_random (sample_operator k) = Inr 7" "oe_write (sample_operator k) = None"
  "unix_of (oe_now (sample_operator k)) = 1000"
  by (simp_all add: sample_operator_def unix_of_def ns_per_second_def)

lemma sample_crypto: "crypto_sign sample_geth h k \<noteq> None" "key_address sample_geth 1 = 1" "key_address sample_geth 2 = 2"
  by (simp_all add: sample_geth_def)

definition sample_sign_flags :: sign_flags where
  "sample_sign_flags = \<lparr>sf_agent = address_hex sample_geth 2, sf_max_amount = 80, sf_payees = '''', sf_resources = '''',
     sf_valid_for = 3600, sf_budget = 0, sf_budget_window = 0, sf_max_payments = 0, sf_rate_window = 0\<rparr>"

lemma split_empty [simp]: "split_non_empty '''' = []"
  by code_simp

lemma sample_run_sign: "\<exists>sm. run_sign (sample_operator 1) sample_sign_flags = Inr sm"
proof -
  let ?m = "flagged_mandate (sample_operator 1) sample_sign_flags (key_address sample_geth 1) [] 7"
  obtain sig where "sign_mandate sample_geth 1 ?m (Some 1) = Inr sig"
    using sample_crypto(1) [of "digest sample_geth (mandate_domain_separator sample_geth (Some 1)) (mandate_struct_hash sample_geth ?m)" 1]
    by (auto simp: sign_mandate_def)
  moreover have "is_hex_address sample_geth (address_hex sample_geth 2)" by (rule geth_textD [OF sample_geth_text])
  ultimately have "run_sign (sample_operator 1) sample_sign_flags = Inr
      \<lparr>smj_mandate = mandate_to_json sample_geth ?m, smj_signature = ''0x'' @ hex_encode sig\<rparr>"
    by (simp add: run_sign_def parse_addresses_def Let_def) (simp add: sample_sign_flags_def parse_addresses_def)
  then show ?thesis by blast
qed

theorem signed_mandate_witness:
  "\<exists>sm m. run_sign (sample_operator 1) sample_sign_flags = Inr sm \<and>
     entitled sample_geth 2000000000000 sample_policy
       (sample_context ''60''\<lparr>pc_payload := (sample_payload ''60'')\<lparr>pp_mandate := Some sm\<rparr>\<rparr>) fresh_store m \<and>
     m_max_amount_per_payment m = Some 80"
proof -
  obtain sm where sm: "run_sign (sample_operator 1) sample_sign_flags = Inr sm" using sample_run_sign by blast
  let ?pc = "sample_context ''60''\<lparr>pc_payload := (sample_payload ''60'')\<lparr>pp_mandate := Some sm\<rparr>\<rparr>"
  have p: "mp_chain_id sample_policy = Some 1" by (simp add: sample_policy_def new_mandate_policy_def)
  have f: "parse_addresses sample_geth (sf_payees sample_sign_flags) = Inr []" "split_non_empty (sf_resources sample_sign_flags) = []"
    "sf_agent sample_sign_flags = address_hex sample_geth 2" "sf_valid_for sample_sign_flags = 3600" "sf_max_amount sample_sign_flags = 80"
    by (simp_all add: sample_sign_flags_def parse_addresses_def)
  have u: "unix_of 2000000000000 = 2000" by (simp add: unix_of_def ns_per_second_def)
  have v: "pc_verification ?pc = Some \<lparr>vr_is_valid = True, vr_invalid_reason = '''', vr_payer = address_hex sample_geth 2\<rparr>"
    by (simp add: sample_context_def)
  have r: "\<not> revoked_in sample_policy fresh_store m" for m
    by (simp add: revoked_in_def new_mp_state_def revocations_has_def)
  show ?thesis
    using signed_mandate_entitles [of "sample_operator 1" sample_sign_flags sm ?pc 1 sample_policy 2000000000000 fresh_store]
      sm p f u v r by (auto simp: i64_id)
qed

definition unit_agent_env :: "unit agent_env" where
  "unit_agent_env = \<lparr>an_geth = sample_geth, an_http = (\<lambda>_ w. (Inl ''offline'', w)), an_random = (\<lambda>w. (Some 3, w)),
     an_now = (\<lambda>_. 1000000000000)\<rparr>"

definition confirmed_agent :: "confirmation_json \<Rightarrow> agent" where
  "confirmed_agent cj = \<lparr>ag_wallet = wallet_from_key sample_geth 2, ag_domain = 0, ag_max_amount = None, ag_grant = None,
     ag_mandate = pp_mandate (sample_payload ''90''), ag_confirmation = Some cj, ag_last_header = None, ag_last_amount = None,
     ag_last_resource = ''''\<rparr>"

lemma sample_run_confirm: "\<exists>cj. run_confirm (sample_operator 1) (Some (Inr (ask_from_context (sample_context ''90'')))) 600 = Inr cj"
proof -
  let ?c = "\<lparr>c_mandate_id = 7, c_authorization_nonce = 5, c_amount = Some 90, c_resource = pr_resource sample_requirements,
    c_valid_before = Some (i64 1600)\<rparr>"
  obtain sig where "sign_confirmation sample_geth 1 ?c (Some 1) = Inr sig"
    using sample_crypto(1) [of "digest sample_geth (mandate_domain_separator sample_geth (Some 1)) (confirmation_struct_hash sample_geth ?c)" 1]
    by (auto simp: sign_confirmation_def)
  moreover have "parse_bytes32 sample_geth (ask_mandate_id (ask_from_context (sample_context ''90''))) = Inr 7"
    using parse_bytes32_print(1) [OF sample_geth_text, of 7]
    by (simp add: ask_from_context_def sample_payload_def mandate_to_json_def) (simp add: sample_mandate_def)
  moreover have "parse_bytes32 sample_geth (ask_authorization_nonce (ask_from_context (sample_context ''90''))) = Inr 5"
    using parse_bytes32_print(2) [OF sample_geth_text, of 5] by (simp add: ask_from_context_def sample_payload_def)
  moreover have "set_string10 (ask_amount (ask_from_context (sample_context ''90''))) = Some 90"
    "ask_resource (ask_from_context (sample_context ''90'')) = pr_resource sample_requirements"
    by (simp_all add: ask_from_context_def sample_payload_def)
  ultimately show ?thesis by (simp add: run_confirm_def and_then_def)
qed

theorem confirmation_answers_witness:
  "\<exists>cj pay w'. run_confirm (sample_operator 1) (Some (Inr (ask_from_context (sample_context ''90'')))) 600 = Inr cj \<and>
     build_payment unit_agent_env (confirmed_agent cj) sample_requirements 90 () = (Inr pay, w') \<and>
     confirmed_by_delegator sample_geth 1000 asking_policy (sample_context ''90''\<lparr>pc_payload := pay\<rparr>) sample_mandate 90"
proof -
  let ?pc = "sample_context ''90''"
  obtain cj where cj: "run_confirm (sample_operator 1) (Some (Inr (ask_from_context ?pc))) 600 = Inr cj"
    using sample_run_confirm by blast
  have A: "an_geth unit_agent_env = sample_geth" by (simp add: unit_agent_env_def)
  have ag: "ag_wallet (confirmed_agent cj) = wallet_from_key sample_geth 2" "ag_confirmation (confirmed_agent cj) = Some cj"
    by (simp_all add: confirmed_agent_def)
  have "length (from_hex sample_geth (cj_authorization_nonce cj)) = 32"
    using cj by (rule run_confirm_Inr) (simp add: confirmation_to_json_def, simp add: sample_geth_def)
  then have n: "agent_bound_nonce unit_agent_env (confirmed_agent cj) (pr_resource sample_requirements) () =
      (Inr (bytes32_of (from_hex sample_geth (cj_authorization_nonce cj)), ''''), ())"
    by (simp add: agent_bound_nonce_def agent_payment_nonce_def ag A)
  obtain pay where pay: "build_payment unit_agent_env (confirmed_agent cj) sample_requirements 90 () = (Inr pay, ())"
    using build_payment_total [OF n, of 2 90] ag sample_crypto(1) by (auto simp: A)
  let ?pc' = "?pc\<lparr>pc_payload := pay\<rparr>"
  have s: "signed_mandate_in sample_geth asking_policy ?pc sample_mandate"
    by (simp flip: mandate_of_Inr)
  have m: "m_delegator sample_mandate = key_address sample_geth 1" by (simp add: sample_mandate_def sample_crypto)
  have c: "mp_chain_id asking_policy = Some 1" by (simp add: asking_policy_def sample_policy_def new_mandate_policy_def)
  have u: "unix_of 1000 < i64 (unix_of (oe_now (sample_operator 1)) + 600)"
    by (simp add: i64_id, simp add: unix_of_def ns_per_second_def)
  have a: "payment_amount ?pc = Some 90" by simp
  have q: "pc_payload ?pc' = pay" "pr_resource (pc_requirements ?pc') = pr_resource (pc_requirements ?pc)" by simp_all
  show ?thesis
    using confirmation_answers_ask [OF sample_geth_text sample_geth_sig sample_operator_sel(1) A s cj _ m _ c ag(2) a pay q u]
      cj pay by (auto simp: m)
qed

lemma sample_url: "trim_right_slashes ''http://gw/'' = ''http://gw''"
  by code_simp

theorem revoke_command_witness:
  "\<exists>u mp s'. gateway_run sample_start mandate_flags = Inr u \<and> su_mandate u = Some mp \<and>
     run_revoke (sample_operator 1) ''http://gw/''
       (Some (Inr \<lparr>smj_mandate = mandate_to_json sample_geth sample_mandate, smj_signature = ''''\<rparr>))
       (post_to ''http://gw'' mandate_flags u sample_request) (sample_gateway None) = (None, s') \<and>
     revoked_in mp (gw_store s') sample_mandate"
proof -
  obtain u mp where u: "gateway_run sample_start mandate_flags = Inr u" "su_mandate u = Some mp" "mp_chain_id mp = Some 1"
    using mandate_run by blast
  have t: "geth_text (sx_geth sample_start)" "geth_sig (sx_geth sample_start)" "oe_geth (sample_operator 1) = sx_geth sample_start"
    "oe_key (sample_operator 1) = Inr 1" "oe_chain (sample_operator 1) = Inr 1" "fg_require_mandate mandate_flags"
    by (simp_all add: mandate_flags_def)
  let ?sm = "\<lparr>smj_mandate = mandate_to_json sample_geth sample_mandate, smj_signature = ''''\<rparr>"
  have m: "to_mandate (sx_geth sample_start) (smj_mandate ?sm) = Inr sample_mandate"
    using to_mandate_print [OF sample_geth_text, of sample_mandate]
    by (simp add: wire_normal_def zero_nil_def) (simp add: sample_mandate_def)
  have k: "crypto_sign (sx_geth sample_start) h 1 \<noteq> None" for h using sample_crypto(1) by simp
  show ?thesis
    using revoke_command_revokes [OF t(1-3) u(1,2) t(6,5) u(3) t(4) k m sample_url, of sample_request "sample_gateway None"] u(1,2)
    by (auto simp: sample_crypto sample_mandate_def [THEN arg_cong [where f = m_delegator]])
qed

theorem redeem_request_witness:
  "\<exists>req a vrs. run_redeem_request (sample_operator 2) (address_hex sample_geth 9) (address_hex sample_geth 1) ''60'' 3600 = Inr req \<and>
     check_redemption sample_issuer req sample_issued = Inr (a, vrs) \<and> au_value a = 60"
proof -
  let ?a = "\<lparr>au_from = key_address sample_geth 2, au_to = 1, au_value = 60, au_valid_after = 0,
    au_valid_before = i64 (1000 + 3600), au_nonce = 7\<rparr>"
  obtain sig where "sign_receive_authorization sample_geth (wallet_from_key sample_geth 2) 0 ?a = Inr sig"
    using sample_crypto(1) [of "digest sample_geth 0 (receive_struct_hash sample_geth ?a)" 2]
    by (auto simp: sign_receive_authorization_def sign_struct_def wallet_from_key_def)
  then have "\<exists>req. run_redeem_request (sample_operator 2) (address_hex sample_geth 9) (address_hex sample_geth 1) ''60'' 3600 = Inr req"
    using geth_textD(1) [OF sample_geth_text] sample_address_nonempty
    by (simp add: run_redeem_request_def and_then_def)
  then obtain req where r: "run_redeem_request (sample_operator 2) (address_hex sample_geth 9) (address_hex sample_geth 1) ''60'' 3600 = Inr req"
    by blast
  have i: "is_geth sample_issuer = sample_geth" "is_address sample_issuer = 1" "is_connect sample_issuer = None"
    "is_read sample_issuer ''DOMAIN_SEPARATOR'' = None" "unix_of (is_now sample_issuer) = 1000"
    "tk_domain_separator (iw_token sample_issued) = 0"
    by (simp_all add: sample_issuer_def unix_of_def ns_per_second_def)
  show ?thesis
    using redeem_request_is_redeemable [where w = sample_issued, OF sample_geth_text sample_geth_sig sample_operator_sel(1) i(1) r] r i
    by (fastforce simp: i64_id)
qed

end
