(* ===== verification/OnChain.thy ===== *)
theory OnChain
  imports Contracts Operators
begin

text \<open>
  What the Go code does on the chain beyond settling: the delivery of the asset and the
  refund (\<open>x402/delivery.go\<close>), and the delegator's deposit, mandate and revocation on the
  spending contract (\<open>cmd/delegator\<close>). The world is the contracts and what is about to
  happen to the next transactions (\<open>tx_fate\<close>); a sent transaction uses up one fate.

  Theorems: a delivery that fails is refunded or leaves a pending refund; the mandate that
  was registered is enforced as the gateway's policy would, for the limits that are set; a
  limit that is not set blocks every payment on the chain.
\<close>

section \<open>Sending a transaction\<close>

record chain_world =
  cw_contracts :: contracts
  cw_fates :: "tx_fate list"
  cw_time :: nat

record chain_env =
  ce_geth :: geth
  ce_ec :: ecrecover
  ce_abi :: "int \<Rightarrow> nat option"
  ce_hash :: "chain_world \<Rightarrow> bytes32"

text \<open>A node that is gone refuses.\<close>

definition next_fate :: "chain_world \<Rightarrow> tx_fate" where
  "next_fate w = (case cw_fates w of [] \<Rightarrow> Refused ''connection refused'' | f # _ \<Rightarrow> f)"

definition transact ::
    "chain_env \<Rightarrow> address \<Rightarrow> contract_call option \<Rightarrow> chain_world \<Rightarrow> tx_report \<times> chain_world" where
  "transact E sender call w =
     (case submit (next_fate w) (map_option (contract_exec (ce_geth E) (ce_ec E) sender (cw_time w)) call) (cw_contracts w) of
        (rep, c) \<Rightarrow> (rep, w\<lparr>cw_contracts := c, cw_fates := tl (cw_fates w)\<rparr>))"

section \<open>delivery.go\<close>

definition asset_deliver :: "chain_env \<Rightarrow> address \<Rightarrow> int \<Rightarrow> address \<Rightarrow> chain_world \<Rightarrow> bytes32 result \<times> chain_world" where
  "asset_deliver E seller amount payer w =
     (case transact E seller (map_option (AssetTransfer payer) (ce_abi E amount)) w of
        (SendError e, w1) \<Rightarrow> (Inl (''asset transfer: '' @ e), w1)
      | (WaitError e, w1) \<Rightarrow> (Inl (''delivery wait: '' @ e), w1)
      | (Receipt ok, w1) \<Rightarrow> if \<not> ok then (Inl ''delivery transaction reverted'', w1) else (Inr (ce_hash E w), w1))"

definition token_refund ::
    "chain_env \<Rightarrow> address \<Rightarrow> address \<Rightarrow> int option \<Rightarrow> chain_world \<Rightarrow> bytes32 result \<times> chain_world" where
  "token_refund E sender payer amount w =
     (case transact E sender (case amount of None \<Rightarrow> None
               | Some v \<Rightarrow> map_option (\<lambda>n. TokenCall (CallTransfer payer n)) (ce_abi E v)) w of
        (SendError e, w1) \<Rightarrow> (Inl (''refund transfer: '' @ e), w1)
      | (WaitError e, w1) \<Rightarrow> (Inl (''refund wait: '' @ e), w1)
      | (Receipt ok, w1) \<Rightarrow> if \<not> ok then (Inl ''refund transaction reverted'', w1) else (Inr (ce_hash E w), w1))"

section \<open>cmd/delegator: the on-chain commands\<close>

text \<open>\<open>oe_chain\<close> and \<open>oe_key\<close> are the dial and the transactor; the flags name this world's
  contracts. Go's \<open>WaitMined\<close> returns the receipt, which these commands do not look at.\<close>

definition run_deposit ::
    "operator_env \<Rightarrow> chain_env \<Rightarrow> string \<Rightarrow> string \<Rightarrow> int \<Rightarrow> chain_world \<Rightarrow> string option \<times> chain_world" where
  "run_deposit D E spend_flag token_flag amount w =
     (let G = oe_geth D in
      if \<not> is_hex_address G spend_flag \<or> \<not> is_hex_address G token_flag then
        (Some ''--spend and --token must be valid addresses'', w)
      else if amount \<le> 0 then (Some ''--amount must be positive'', w)
      else case oe_chain D of Inl e \<Rightarrow> (Some e, w) | Inr _ \<Rightarrow> (case oe_key D of Inl e \<Rightarrow> (Some e, w) | Inr key \<Rightarrow>
     (let me = key_address G key; S = co_spend_address (cw_contracts w) in
      case transact E me (map_option (\<lambda>v. TokenCall (CallApprove S v)) (ce_abi E amount)) w of
        (SendError e, w1) \<Rightarrow> (Some (''approve: '' @ e), w1)
      | (WaitError e, w1) \<Rightarrow> (Some (''wait approve: '' @ e), w1)
      | (Receipt _, w1) \<Rightarrow> (case transact E me (map_option SpendDeposit (ce_abi E amount)) w1 of
          (SendError e, w2) \<Rightarrow> (Some (''deposit: '' @ e), w2)
        | (WaitError e, w2) \<Rightarrow> (Some (''wait deposit: '' @ e), w2)
        | (Receipt _, w2) \<Rightarrow> (None, w2)))))"

definition or_zero :: "int option \<Rightarrow> int" where
  "or_zero v = (case v of None \<Rightarrow> 0 | Some n \<Rightarrow> n)"

definition onchain_terms :: "(int \<Rightarrow> nat option) \<Rightarrow> mandate \<Rightarrow> mandate_terms option" where
  "onchain_terms abi m =
     (case (abi (or_zero (m_max_amount_per_payment m)), abi (or_zero (m_valid_after m)), abi (or_zero (m_valid_before m)),
            abi (or_zero (m_budget_amount m)), abi (or_zero (m_budget_window_seconds m))) of
        (Some mx, Some va, Some vb, Some b, Some wd) \<Rightarrow>
          Some \<lparr>mt_agent = m_agent m, mt_max_amount = mx, mt_valid_after = va, mt_valid_before = vb,
                mt_budget = b, mt_window = wd, mt_payees = m_allowed_payees m\<rparr>
      | _ \<Rightarrow> None)"

definition run_mandate_onchain ::
    "operator_env \<Rightarrow> chain_env \<Rightarrow> string \<Rightarrow> signed_mandate_json result option \<Rightarrow> chain_world \<Rightarrow> string option \<times> chain_world" where
  "run_mandate_onchain D E spend_flag mandate_file w =
     (let G = oe_geth D in
      if \<not> is_hex_address G spend_flag then (Some ''--spend must be a valid address'', w)
      else case mandate_file of None \<Rightarrow> (Some ''--mandate is required'', w) | Some f \<Rightarrow>
     (case f of Inl e \<Rightarrow> (Some e, w) | Inr sm \<Rightarrow>
     (case to_mandate G (smj_mandate sm) of Inl e \<Rightarrow> (Some (''mandate fields: '' @ e), w) | Inr m \<Rightarrow>
     (case oe_chain D of Inl e \<Rightarrow> (Some e, w) | Inr _ \<Rightarrow> (case oe_key D of Inl e \<Rightarrow> (Some e, w) | Inr key \<Rightarrow>
     (case transact E (key_address G key) (map_option (SpendSetMandate (m_mandate_id m)) (onchain_terms (ce_abi E) m)) w of
        (SendError e, w1) \<Rightarrow> (Some (''setMandate: '' @ e), w1)
      | (WaitError e, w1) \<Rightarrow> (Some (''wait setMandate: '' @ e), w1)
      | (Receipt _, w1) \<Rightarrow> (None, w1)))))))"

definition parse_mandate_id :: "string \<Rightarrow> bytes32 result" where
  "parse_mandate_id s =
     (case hex_decode (trim_prefix s ''0x'') of
        None \<Rightarrow> Inl ''--id must be 0x-prefixed 32-byte hex''
      | Some b \<Rightarrow> if length b \<noteq> 32 then Inl ''--id must be 0x-prefixed 32-byte hex'' else Inr (bytes32_of b))"

definition run_revoke_onchain ::
    "operator_env \<Rightarrow> chain_env \<Rightarrow> string \<Rightarrow> string \<Rightarrow> chain_world \<Rightarrow> string option \<times> chain_world" where
  "run_revoke_onchain D E spend_flag id_flag w =
     (let G = oe_geth D in
      if \<not> is_hex_address G spend_flag then (Some ''--spend must be a valid address'', w)
      else case parse_mandate_id id_flag of Inl e \<Rightarrow> (Some e, w) | Inr i \<Rightarrow>
     (case oe_chain D of Inl e \<Rightarrow> (Some e, w) | Inr _ \<Rightarrow> (case oe_key D of Inl e \<Rightarrow> (Some e, w) | Inr key \<Rightarrow>
     (case transact E (key_address G key) (Some (SpendRevoke i)) w of
        (SendError e, w1) \<Rightarrow> (Some (''revoke: '' @ e), w1)
      | (WaitError e, w1) \<Rightarrow> (Some (''wait revoke: '' @ e), w1)
      | (Receipt _, w1) \<Rightarrow> (None, w1)))))"

section \<open>What a sent transaction did\<close>

lemma transact_cases:
  assumes "transact E sender call w = (rep, w')"
  shows "cw_time w' = cw_time w" "cw_fates w' = tl (cw_fates w)"
    and "rep = Receipt True \<Longrightarrow> \<exists>f. call = Some f \<and>
           contract_exec (ce_geth E) (ce_ec E) sender (cw_time w) f (cw_contracts w) = Inr (cw_contracts w')"
    and "rep = Receipt False \<or> (\<exists>e. rep = SendError e) \<Longrightarrow> cw_contracts w' = cw_contracts w"
    and "\<forall>e b. next_fate w \<noteq> Unseen e b \<Longrightarrow> \<forall>e. rep \<noteq> WaitError e"
    and "next_fate w = Mined \<Longrightarrow> call = Some f \<Longrightarrow>
           contract_exec (ce_geth E) (ce_ec E) sender (cw_time w) f (cw_contracts w) = Inr c \<Longrightarrow> rep = Receipt True \<and> cw_contracts w' = c"
proof -
  obtain rep' c' where s: "submit (next_fate w)
      (map_option (contract_exec (ce_geth E) (ce_ec E) sender (cw_time w)) call) (cw_contracts w) = (rep', c')" by fastforce
  then have w': "rep' = rep" "w' = w\<lparr>cw_contracts := c', cw_fates := tl (cw_fates w)\<rparr>"
    using assms by (auto simp: transact_def)
  show "cw_time w' = cw_time w" "cw_fates w' = tl (cw_fates w)" by (simp_all add: w')
  show "\<exists>f. call = Some f \<and>
      contract_exec (ce_geth E) (ce_ec E) sender (cw_time w) f (cw_contracts w) = Inr (cw_contracts w')"
    if "rep = Receipt True"
    using submit_cases(2) [OF s] that by (auto simp: w')
  show "cw_contracts w' = cw_contracts w" if "rep = Receipt False \<or> (\<exists>e. rep = SendError e)"
    using submit_cases(3) [OF s] that by (auto simp: w')
  show "\<forall>e. rep \<noteq> WaitError e" if "\<forall>e b. next_fate w \<noteq> Unseen e b"
    using s that by (auto simp: w' submit_def Let_def split: option.splits tx_fate.splits)
  show "rep = Receipt True \<and> cw_contracts w' = c"
    if "next_fate w = Mined" and "call = Some f"
      and "contract_exec (ce_geth E) (ce_ec E) sender (cw_time w) f (cw_contracts w) = Inr c"
    using s that by (auto simp: w' submit_def)
qed

section \<open>Delivered, refunded or pending\<close>

lemma asset_deliver_Inr:
  assumes "asset_deliver E seller amount payer w = (Inr h, w')"
  obtains n where "ce_abi E amount = Some n" "cw_fates w' = tl (cw_fates w)" "cw_time w' = cw_time w"
    "contract_exec (ce_geth E) (ce_ec E) seller (cw_time w) (AssetTransfer payer n) (cw_contracts w) = Inr (cw_contracts w')"
proof -
  obtain rep w1 where s: "transact E seller (map_option (AssetTransfer payer) (ce_abi E amount)) w = (rep, w1)" by fastforce
  then have "rep = Receipt True" "w1 = w'"
    using assms by (auto simp: asset_deliver_def split: tx_report.splits if_splits)
  then show thesis using that transact_cases(1-3) [OF s] by auto
qed

lemma asset_deliver_Inl:
  assumes "asset_deliver E seller amount payer w = (Inl e, w')" and "\<forall>e b. next_fate w \<noteq> Unseen e b"
  shows "cw_contracts w' = cw_contracts w" "cw_fates w' = tl (cw_fates w)" "cw_time w' = cw_time w"
proof -
  obtain rep w1 where s: "transact E seller (map_option (AssetTransfer payer) (ce_abi E amount)) w = (rep, w1)" by fastforce
  then have "(rep = Receipt False \<or> (\<exists>e. rep = SendError e)) \<and> w1 = w'"
    using assms(1) transact_cases(5) [OF s assms(2)]
    by (auto simp: asset_deliver_def split: tx_report.splits if_splits)
  then show "cw_contracts w' = cw_contracts w" "cw_fates w' = tl (cw_fates w)" "cw_time w' = cw_time w"
    using transact_cases(1,2,4) [OF s] by auto
qed

lemma token_refund_Inr:
  assumes "token_refund E sender payer (Some v) w = (Inr h, w')"
  obtains n where "ce_abi E v = Some n" "token_transfer sender payer n (co_token (cw_contracts w)) = Inr (co_token (cw_contracts w'))"
    "co_asset (cw_contracts w') = co_asset (cw_contracts w)"
proof -
  obtain rep w1 where s: "transact E sender (map_option (\<lambda>n. TokenCall (CallTransfer payer n)) (ce_abi E v)) w = (rep, w1)"
    by fastforce
  then have "rep = Receipt True" "w1 = w'"
    using assms by (auto simp: token_refund_def split: tx_report.splits if_splits)
  then show thesis using that transact_cases(3) [OF s] by (auto simp: map_sum_Inr)
qed

lemma token_refund_Inl:
  assumes "token_refund E sender payer (Some v) w = (Inl e, w')" and "\<forall>e b. next_fate w \<noteq> Unseen e b"
  shows "cw_contracts w' = cw_contracts w"
proof -
  obtain rep w1 where s: "transact E sender (map_option (\<lambda>n. TokenCall (CallTransfer payer n)) (ce_abi E v)) w = (rep, w1)"
    by fastforce
  then have "(rep = Receipt False \<or> (\<exists>e. rep = SendError e)) \<and> w1 = w'"
    using assms(1) transact_cases(5) [OF s assms(2)]
    by (auto simp: token_refund_def split: tx_report.splits if_splits)
  then show ?thesis using transact_cases(4) [OF s] by auto
qed

lemma append_entry_world [simp]: "gw_world (snd (append_entry E e s)) = gw_world s"
  by (simp add: append_entry_def Let_def split: option.split prod.split)

lemma deliver_failed:
  assumes "ge_deliverer E = Some dl" and "dl (st_payer r) (gw_world s) = (Inl e, w1)" and "ge_refunder E = Some rf"
    and "rf (st_payer r) (st_amount r) w1 = (f, w2)" and "deliver E r s = (out, s')"
  shows "\<exists>fl. out = Inl fl \<and> fl_code fl = ErrCodeDeliveryFailed \<and> gw_world s' = w2 \<and>
    (isl f \<longrightarrow> (\<exists>s0. s' = journal_refund_pending E r s0 \<and> gw_journal s0 = gw_journal s))"
proof (cases f)
  case (Inl e')
  let ?s0 = "(count inc_refund (s\<lparr>gw_world := w1\<rparr>))\<lparr>gw_world := w2\<rparr>"
  have j: "gw_journal ?s0 = gw_journal s" by (simp add: count_def)
  have w: "gw_world (journal_refund_pending E r ?s0) = w2" by (simp add: journal_refund_pending_def)
  obtain fl where "deliver E r s = (Inl fl, journal_refund_pending E r ?s0)" "fl_code fl = ErrCodeDeliveryFailed"
    using assms(1-4) Inl by (simp add: deliver_def refund_def fail_def Let_def)
  then show ?thesis using assms(5) j w by (intro exI [of _ fl] conjI impI exI [of _ ?s0]) simp_all
next
  case (Inr h)
  then show ?thesis using assms by (auto simp: deliver_def refund_def fail_def Let_def count_def journal_refund_def split: option.splits)
qed

text \<open>A refund left pending is on record: an entry of the journal that names payer, amount and transaction.\<close>

definition pending_on_record :: "'w gateway_env \<Rightarrow> settlement_record \<Rightarrow> 'w gateway \<Rightarrow> 'w gateway \<Rightarrow> bool" where
  "pending_on_record E r s s' \<longleftrightarrow> (let i = hash_hex (ge_geth E) (st_tx_hash r) @ '':refund_pending'' in
     journaled s' i \<and> (journaled s i \<or> (\<exists>e. journal_entries s' = journal_entries s @ [e] \<and> je_id e = i \<and>
       je_kind e = ''refund_pending'' \<and> je_payer e = address_hex (ge_geth E) (st_payer r) \<and>
       je_amount e = amount_text (st_amount r) \<and> je_tx_hash e = hash_hex (ge_geth E) (st_tx_hash r))))"

lemma pending_entry:
  assumes "disk_ok E" and "journal_ok s" and "gw_journal s = Some j"
  shows "pending_on_record E r s (journal_refund_pending E r s)"
proof -
  have ok: "fst (append_entry E e s) = None" for e
    using journal_append_cases [of j e "ge_disk E e (gw_world s)"] assms
    by (auto simp: append_entry_def journal_ok_def disk_ok_def split: prod.split)
  define e where "e = blank_entry\<lparr>je_id := hash_hex (ge_geth E) (st_tx_hash r) @ '':refund_pending'',
     je_payer := address_hex (ge_geth E) (st_payer r), je_amount := amount_text (st_amount r),
     je_tx_hash := hash_hex (ge_geth E) (st_tx_hash r), je_network := ge_network E, je_at := unix_of (now E s),
     je_kind := ''refund_pending''\<rparr>"
  have s': "journal_refund_pending E r s = snd (append_entry E e s)" by (simp only: journal_refund_pending_def e_def)
  have i: "je_id e = hash_hex (ge_geth E) (st_tx_hash r) @ '':refund_pending''" "je_kind e = ''refund_pending''"
    "je_payer e = address_hex (ge_geth E) (st_payer r)" "je_amount e = amount_text (st_amount r)"
    "je_tx_hash e = hash_hex (ge_geth E) (st_tx_hash r)" by (simp_all add: e_def)
  show ?thesis
    using append_entry_grows(3,4) [OF assms(2) ok, of e] assms(3) i unfolding s' pending_on_record_def Let_def by auto
qed

text \<open>A gateway that delivers the asset and refunds from its own account.\<close>

definition delivers_on_chain :: "chain_env \<Rightarrow> address \<Rightarrow> int \<Rightarrow> chain_world gateway_env \<Rightarrow> bool" where
  "delivers_on_chain C seller amount E \<longleftrightarrow>
     ge_deliverer E = Some (asset_deliver C seller amount) \<and> ge_refunder E = Some (token_refund C seller)"

text \<open>
  C29. After settlement the payer has the asset, or the money back, or a pending refund on
  record and nothing moved: with a journal on a disk that works and transactions whose
  outcome the gateway learns, \<open>deliver\<close> succeeds exactly after the asset moved from the
  gateway to an eligible payer; otherwise it fails with delivery_failed, the asset has not
  moved, and either the refund moved the settled amount back from the gateway's account or
  the token has not moved either and the journal holds the refund as pending, with payer,
  amount and transaction.
\<close>

theorem delivery_or_refund:
  assumes "delivers_on_chain C seller amount E" and "abi_law (ce_abi C)" and "st_amount r = Some v" and "u256_range v"
    and "u256_range amount" and "\<forall>f\<in>set (cw_fates (gw_world s)). \<forall>e b. f \<noteq> Unseen e b"
    and "disk_ok E" and "journal_ok s" and "gw_journal s = Some j"
    and "deliver E r s = (out, s')"
  shows "let c = cw_contracts (gw_world s); c' = cw_contracts (gw_world s') in
    case out of
      Inr r' \<Rightarrow> as_balance_of (co_asset c') =
          credit (debit (as_balance_of (co_asset c)) seller (nat amount)) (st_payer r) (nat amount) \<and>
        nat amount \<le> as_balance_of (co_asset c) seller \<and> co_token c' = co_token c \<and>
        asset_allows (is_eligible (co_eligibility c)) (co_asset c) (st_payer r)
    | Inl fl \<Rightarrow> fl_code fl = ErrCodeDeliveryFailed \<and> co_asset c' = co_asset c \<and>
        (co_token c' = co_token c \<and> pending_on_record E r s s' \<or>
         tk_balance_of (co_token c') =
           credit (debit (tk_balance_of (co_token c)) seller (nat v)) (st_payer r) (nat v) \<and>
         nat v \<le> tk_balance_of (co_token c) seller)"
proof -
  have known: "\<forall>e b. next_fate w \<noteq> Unseen e b" if "set (cw_fates w) \<subseteq> set (cw_fates (gw_world s))" for w
    using that assms(6) by (cases "cw_fates w") (auto simp: next_fate_def)
  have rec: "pending_on_record E r s (journal_refund_pending E r s0)" if "gw_journal s0 = gw_journal s" for s0
  proof -
    have same: "journal_ok s0" "gw_journal s0 = Some j" "journaled s0 = journaled s" "journal_entries s0 = journal_entries s"
      using that assms(8,9) by (simp_all add: journal_ok_def journaled_def journal_entries_def fun_eq_iff)
    show ?thesis using pending_entry [OF assms(7) same(1,2), of r] by (simp add: pending_on_record_def same(3,4))
  qed
  obtain d w1 where d: "asset_deliver C seller amount (st_payer r) (gw_world s) = (d, w1)" by fastforce
  show ?thesis
  proof (cases d)
    case (Inr h)
    obtain n where n: "ce_abi C amount = Some n"
      "contract_exec (ce_geth C) (ce_ec C) seller (cw_time (gw_world s)) (AssetTransfer (st_payer r) n) (cw_contracts (gw_world s))
        = Inr (cw_contracts w1)"
      using d [unfolded Inr] by (rule asset_deliver_Inr)
    then have "n = nat amount" using assms(2,5) by (simp add: abi_law_def)
    with n obtain a where a: "asset_transfer (is_eligible (co_eligibility (cw_contracts (gw_world s)))) seller (st_payer r) (nat amount)
        (co_asset (cw_contracts (gw_world s))) = Inr a" "cw_contracts w1 = (cw_contracts (gw_world s))\<lparr>co_asset := a\<rparr>"
      by (auto simp: map_sum_Inr)
    have "out = Inr (r\<lparr>st_delivery_tx := h\<rparr>)" "gw_world s' = w1"
      using assms(1,10) d Inr by (auto simp: deliver_def delivers_on_chain_def)
    then show ?thesis using a trwa.send_moves [OF a(1)] by (auto simp: Let_def asset_transfer_def dest: asset_move_Inr)
  next
    case (Inl e)
    note un = asset_deliver_Inl [OF d [unfolded Inl] known [OF subset_refl]]
    obtain f w2 where f: "token_refund C seller (st_payer r) (Some v) w1 = (f, w2)" by fastforce
    have k1: "\<forall>e b. next_fate w1 \<noteq> Unseen e b"
      using un(2) by (intro known) (cases "cw_fates (gw_world s)"; auto)
    obtain fl where out: "out = Inl fl" "fl_code fl = ErrCodeDeliveryFailed" "gw_world s' = w2"
        "isl f \<Longrightarrow> pending_on_record E r s s'"
      using deliver_failed [of E "asset_deliver C seller amount" r s e w1 "token_refund C seller" f w2 out s'] assms(1,3,10) d Inl f rec
      by (auto simp: delivers_on_chain_def)
    show ?thesis
    proof (cases f)
      case (Inl e')
      then show ?thesis using out un(1) token_refund_Inl [OF f [unfolded Inl] k1] by (auto simp: Let_def)
    next
      case (Inr h)
      obtain n where n: "ce_abi C v = Some n" "token_transfer seller (st_payer r) n (co_token (cw_contracts w1)) = Inr (co_token (cw_contracts w2))"
        "co_asset (cw_contracts w2) = co_asset (cw_contracts w1)"
        using f [unfolded Inr] by (rule token_refund_Inr)
      then have "n = nat v" using assms(2,4) by (simp add: abi_law_def)
      then show ?thesis using out n un(1) tkrw.send_moves [OF n(2)] by (auto simp: Let_def)
    qed
  qed
qed

text \<open>
  A delivery whose receipt the gateway failed to read counts as failed: with the transfer
  mined all the same, the payer gets both the asset and the refund.
\<close>

lemma unseen_delivery_is_refunded:
  assumes "delivers_on_chain C seller amount E" and "abi_law (ce_abi C)" and "st_amount r = Some v" and "u256_range v"
    and "u256_range amount" and "cw_fates (gw_world s) = [Unseen e True, Mined]" and "c = cw_contracts (gw_world s)"
    and "asset_transfer (is_eligible (co_eligibility c)) seller (st_payer r) (nat amount) (co_asset c) = Inr a"
    and "token_transfer seller (st_payer r) (nat v) (co_token c) = Inr t"
    and "deliver E r s = (out, s')"
  shows "isl out \<and> co_asset (cw_contracts (gw_world s')) = a \<and> co_token (cw_contracts (gw_world s')) = t"
proof -
  have n: "ce_abi C amount = Some (nat amount)" "ce_abi C v = Some (nat v)" using assms(2,4,5) by (simp_all add: abi_law_def)
  let ?w = "gw_world s"
  let ?w1 = "?w\<lparr>cw_contracts := c\<lparr>co_asset := a\<rparr>, cw_fates := [Mined]\<rparr>"
  have d: "asset_deliver C seller amount (st_payer r) ?w = (Inl (''delivery wait: '' @ e), ?w1)"
    using assms(6-8) n by (simp add: asset_deliver_def transact_def next_fate_def submit_def)
  have f: "token_refund C seller (st_payer r) (Some v) ?w1 = (Inr (ce_hash C ?w1), ?w1\<lparr>cw_contracts := c\<lparr>co_asset := a, co_token := t\<rparr>, cw_fates := []\<rparr>)"
    using assms(9) n by (simp add: token_refund_def transact_def next_fate_def submit_def)
  show ?thesis
    using deliver_failed [of E "asset_deliver C seller amount" r s _ ?w1 "token_refund C seller"] assms(1,3,10) d f
    by (fastforce simp: delivers_on_chain_def)
qed

section \<open>The registered mandate\<close>

text \<open>The terms a registered mandate keeps until it is registered again.\<close>

definition keeps_terms :: "mandate_terms \<Rightarrow> onchain_mandate \<Rightarrow> bool" where
  "keeps_terms d m \<longleftrightarrow> om_agent m = mt_agent d \<and> om_max_amount m = mt_max_amount d \<and> om_valid_after m = mt_valid_after d \<and>
     om_valid_before m = mt_valid_before d \<and> om_budget m = mt_budget d \<and> om_window m = mt_window d \<and> om_payees m = mt_payees d"

lemma keeps_terms_set:
  "spend_set_mandate c time i d s = Inr s' \<Longrightarrow> keeps_terms d (sp_mandates s' i)"
  by (auto simp: spend_set_mandate_def keeps_terms_def Let_def split: if_splits)

lemma keeps_terms_pay: "pay_mandate c time to v m = Inr m' \<Longrightarrow> keeps_terms d m \<Longrightarrow> keeps_terms d m'"
  by (drule pay_mandate_Inr(7)) (simp add: keeps_terms_def roll_window_def)

lemma other_calls_keep_spend:
  "contract_exec G ec c time call w = Inr w' \<Longrightarrow>
   (\<And>v. call \<noteq> SpendDeposit v) \<Longrightarrow> (\<And>v. call \<noteq> SpendWithdraw v) \<Longrightarrow> (\<And>j d. call \<noteq> SpendSetMandate j d) \<Longrightarrow>
   (\<And>j. call \<noteq> SpendRevoke j) \<Longrightarrow> (\<And>j to v. call \<noteq> SpendPay j to v) \<Longrightarrow> co_spend w' = co_spend w"
  by (cases call) (auto simp: map_sum_Inr)

lemma keeps_terms_exec:
  assumes "contract_exec G ec c time call w = Inr w'" and "\<And>d'. call \<noteq> SpendSetMandate i d'"
    and "keeps_terms d (sp_mandates (co_spend w) i)"
  shows "keeps_terms d (sp_mandates (co_spend w') i)"
proof (cases call)
  case (SpendDeposit v)
  with assms show ?thesis by (auto simp: map_sum_Inr spend_deposit_def split: sum.splits if_splits)
next
  case (SpendWithdraw v)
  with assms show ?thesis by (auto simp: map_sum_Inr spend_withdraw_def split: sum.splits if_splits)
next
  case (SpendSetMandate j d')
  with assms show ?thesis by (auto simp: map_sum_Inr spend_set_mandate_def Let_def split: if_splits)
next
  case (SpendRevoke j)
  with assms show ?thesis by (auto simp: map_sum_Inr spend_revoke_def Let_def keeps_terms_def split: if_splits)
next
  case (SpendPay j to v)
  with assms show ?thesis
    by (auto simp: map_sum_Inr spend_pay_def Let_def split: sum.splits if_splits intro: keeps_terms_pay)
qed (use assms other_calls_keep_spend [OF assms(1)] in auto)

definition not_registered_again :: "bytes32 \<Rightarrow> contracts \<Rightarrow> contract_tx \<Rightarrow> bool" where
  "not_registered_again i w tx \<longleftrightarrow> (\<forall>d. ct_call tx \<noteq> SpendSetMandate i d)"

interpretation terms: machine "contract_step G ec" "not_registered_again i"
    "\<lambda>w. keeps_terms d (sp_mandates (co_spend w) i)" for G ec i d
proof
  show "keeps_terms d (sp_mandates (co_spend (contract_step G ec w tx)) i)"
    if "keeps_terms d (sp_mandates (co_spend w) i)" and "not_registered_again i w tx" for w tx
    using that keeps_terms_exec [of G ec "ct_caller tx" "ct_time tx" "ct_call tx" w _ i d]
    by (auto simp: contract_step_def not_registered_again_def split: sum.split)
qed

text \<open>The Go integers that reach the chain as they are.\<close>

definition mandate_in_range :: "mandate \<Rightarrow> bool" where
  "mandate_in_range m \<longleftrightarrow> u256_range (or_zero (m_max_amount_per_payment m)) \<and> u256_range (or_zero (m_valid_after m)) \<and>
     u256_range (or_zero (m_valid_before m)) \<and> u256_range (or_zero (m_budget_amount m)) \<and>
     u256_range (or_zero (m_budget_window_seconds m))"

lemma onchain_terms_law:
  assumes "abi_law abi" and "mandate_in_range m"
  shows "onchain_terms abi m = Some \<lparr>mt_agent = m_agent m, mt_max_amount = nat (or_zero (m_max_amount_per_payment m)),
    mt_valid_after = nat (or_zero (m_valid_after m)), mt_valid_before = nat (or_zero (m_valid_before m)),
    mt_budget = nat (or_zero (m_budget_amount m)), mt_window = nat (or_zero (m_budget_window_seconds m)),
    mt_payees = m_allowed_payees m\<rparr>"
  using assms by (simp add: onchain_terms_def abi_law_def mandate_in_range_def)

lemma allowed_payee_iff: "allowed_payee m to \<longleftrightarrow> om_payees m = [] \<or> to \<in> set (om_payees m)"
  by (auto simp: allowed_payee_def list_ex_iff)

lemma pay_mandate_iff:
  assumes "om_window_start m + om_window m \<le> uint256_max" and "om_budget m \<le> uint256_max"
  shows "(\<exists>m'. pay_mandate c time to v m = Inr m') \<longleftrightarrow> om_agent m = c \<and> \<not> om_revoked m \<and> om_valid_after m < time \<and>
    time < om_valid_before m \<and> (om_payees m = [] \<or> to \<in> set (om_payees m)) \<and> v \<le> om_max_amount m \<and>
    om_window_spent (roll_window time m) + v \<le> om_budget m"
  using assms by (auto simp: pay_mandate_def Let_def allowed_payee_iff)

text \<open>
  C30. On the chain and in the gateway the same mandate allows the same payments: with its
  limits set and no resources listed, the contract's checks pass exactly if the payer is the
  agent, the mandate is not revoked, the payment is within its validity and scope as the
  gateway and the auditor read them, and the budget of the fixed window has room - except
  that the second of \<open>validAfter\<close> itself counts off the chain only.
\<close>

theorem onchain_checks_match_gateway:
  assumes "abi_law abi" and "mandate_in_range m" and "onchain_terms abi m = Some d" and "keeps_terms d om"
    and "limit_set (m_max_amount_per_payment m)" and "m_valid_before m \<noteq> None"
    and "m_allowed_resources m = []" and "om_window_start om + om_window om \<le> uint256_max" and "unix_of t = int time"
  shows "(\<exists>om'. pay_mandate c time to v om = Inr om') \<longleftrightarrow>
    c = m_agent m \<and> \<not> om_revoked om \<and> within_validity m t \<and> or_zero (m_valid_after m) \<noteq> unix_of t \<and>
    within_scope m to resource (int v) = None \<and>
    int (om_window_spent (roll_window time om) + v) \<le> or_zero (m_budget_amount m)"
proof -
  note d = assms(3) [unfolded onchain_terms_law [OF assms(1,2)], simplified]
  note k = assms(4) [unfolded keeps_terms_def d [symmetric], simplified]
  have rng: "0 \<le> or_zero (m_max_amount_per_payment m)" "0 \<le> or_zero (m_valid_after m)" "0 \<le> or_zero (m_valid_before m)"
    "0 \<le> or_zero (m_budget_amount m)" "nat (or_zero (m_budget_amount m)) \<le> uint256_max"
    using assms(2) by (auto simp: mandate_in_range_def u256_range_def uint256_max_def nat_le_iff)
  have valid: "within_validity m t \<and> or_zero (m_valid_after m) \<noteq> unix_of t \<longleftrightarrow>
      nat (or_zero (m_valid_after m)) < time \<and> time < nat (or_zero (m_valid_before m))"
    using assms(6,9) rng by (cases "m_valid_after m") (auto simp: within_validity_def or_zero_def nat_less_iff zless_nat_eq_int_zless)
  have scope: "within_scope m to resource (int v) = None \<longleftrightarrow>
      (m_allowed_payees m = [] \<or> to \<in> set (m_allowed_payees m)) \<and> v \<le> nat (or_zero (m_max_amount_per_payment m))"
    using assms(5,7) by (auto simp: within_scope_def exceeds_def limit_set_def or_zero_def le_nat_iff split: option.splits)
  have "(\<exists>om'. pay_mandate c time to v om = Inr om') \<longleftrightarrow> om_agent om = c \<and> \<not> om_revoked om \<and> om_valid_after om < time \<and>
      time < om_valid_before om \<and> (om_payees om = [] \<or> to \<in> set (om_payees om)) \<and> v \<le> om_max_amount om \<and>
      om_window_spent (roll_window time om) + v \<le> om_budget om"
    using pay_mandate_iff [of om c time to v] k rng(5) assms(8) by simp
  then show ?thesis using valid scope k rng(4) by (auto simp: le_nat_iff)
qed

text \<open>
  The chain enforces what was registered: once \<open>mandate-onchain\<close> registered a mandate, and
  whatever transactions follow short of registering that id again, a payment out of it is its
  agent's, within the mandate's validity, payees and per-payment limit and not after a
  revocation, and it takes exactly the amount from the delegator's deposit and the contract's
  balance to the payee.
\<close>

theorem onchain_payment_within_mandate:
  assumes "abi_law abi" and "mandate_in_range m" and "onchain_terms abi m = Some d"
    and "spend_set_mandate delegator time0 i d s0 = Inr (co_spend w)"
    and "allowed (contract_step G ec) (not_registered_again i) w txs" and "w1 = run (contract_step G ec) w txs"
    and "contract_exec G ec c time (SpendPay i to v) w1 = Inr w2" and "unix_of t = int time" and "m_allowed_resources m = []"
  shows "c = m_agent m \<and> within_validity m t \<and> within_scope m to resource (int v) = None \<and>
    \<not> om_revoked (sp_mandates (co_spend w1) i) \<and>
    int v \<le> or_zero (m_budget_amount m) \<and>
    sp_deposits (co_spend w2) =
      debit (sp_deposits (co_spend w1)) (om_delegator (sp_mandates (co_spend w1) i)) v \<and>
    tk_balance_of (co_token w2) =
      credit (debit (tk_balance_of (co_token w1)) (co_spend_address w1) v) to v"
proof -
  let ?om = "sp_mandates (co_spend w1) i"
  have k1: "keeps_terms d ?om"
    using terms.run_inv [of d w i G ec txs] keeps_terms_set [OF assms(4)] assms(5,6) by simp
  note d = assms(3) [unfolded onchain_terms_law [OF assms(1,2)], simplified]
  note k = k1 [unfolded keeps_terms_def d [symmetric], simplified]
  obtain om' tk where p: "pay_mandate c time to v ?om = Inr om'"
    and tk: "token_transfer (co_spend_address w1) to v (co_token w1) = Inr tk"
    and w2: "w2 = w1\<lparr>co_token := tk, co_spend := (co_spend w1)\<lparr>sp_mandates := (sp_mandates (co_spend w1))(i := om'),
      sp_deposits := debit (sp_deposits (co_spend w1)) (om_delegator ?om) v\<rparr>\<rparr>"
    using assms(7) by (auto simp: map_sum_Inr spend_pay_def Let_def split: sum.splits if_splits)
  note pm = pay_mandate_Inr [OF p]
  have rng: "0 \<le> or_zero (m_max_amount_per_payment m)" "0 \<le> or_zero (m_valid_after m)" "0 \<le> or_zero (m_valid_before m)"
    "0 \<le> or_zero (m_budget_amount m)"
    using assms(2) by (auto simp: mandate_in_range_def u256_range_def)
  have "within_validity m t"
    using pm(3,4) k rng assms(8)
    by (cases "m_valid_after m"; cases "m_valid_before m")
      (auto simp: within_validity_def or_zero_def nat_less_iff zless_nat_eq_int_zless)
  moreover have "within_scope m to resource (int v) = None"
    using pm(5,6) k rng(1) assms(9)
    by (auto simp: within_scope_def exceeds_def or_zero_def allowed_payee_iff le_nat_iff split: option.splits)
  moreover have "int v \<le> or_zero (m_budget_amount m)" using pm(8) k rng(4) by (simp add: le_nat_iff)
  ultimately show ?thesis using pm(1,2) k tkrw.send_moves [OF tk] by (simp add: w2)
qed

text \<open>
  A limit that is not set blocks the mandate on the chain: the gateway reads a per-payment
  cap or a budget of zero as no limit, the contract as a limit of zero. After
  \<open>delegator mandate-onchain\<close> has registered such a mandate (the default of
  \<open>delegator sign\<close> has no budget) and reported success, every payment of a positive amount
  reverts, although the policy has no limit to hold against it.
\<close>

theorem unset_limit_blocks_onchain:
  assumes "abi_law (ce_abi C)" and "mandate_in_range m" and "to_mandate (oe_geth D) (smj_mandate sm) = Inr m"
    and "\<not> limit_set (m_budget_amount m) \<or> \<not> limit_set (m_max_amount_per_payment m)"
    and "next_fate w = Mined" and "om_delegator (sp_mandates (co_spend (cw_contracts w)) (m_mandate_id m)) = 0"
    and "run_mandate_onchain D C spend_flag (Some (Inr sm)) w = (None, w')" and "0 < v"
  shows "isl (spend_pay self c time (m_mandate_id m) to v (t, co_spend (cw_contracts w'))) \<and>
    (\<not> limit_set (m_max_amount_per_payment m) \<longrightarrow> m_allowed_payees m = [] \<longrightarrow> m_allowed_resources m = [] \<longrightarrow>
      within_scope m to resource (int v) = None)"
proof -
  let ?G = "oe_geth D"
  let ?i = "m_mandate_id m"
  from assms(7,3) obtain key rep where
    tx: "transact C (key_address ?G key) (map_option (SpendSetMandate ?i) (onchain_terms (ce_abi C) m)) w = (rep, w')"
    by (auto simp: run_mandate_onchain_def Let_def split: if_splits sum.splits prod.splits tx_report.splits)
  note d = onchain_terms_law [OF assms(1,2)]
  let ?d = "the (onchain_terms (ce_abi C) m)"
  obtain s' where s': "spend_set_mandate (key_address ?G key) (cw_time w) ?i ?d (co_spend (cw_contracts w)) = Inr s'"
    using assms(6) by (simp add: spend_set_mandate_def Let_def)
  then have "cw_contracts w' = (cw_contracts w)\<lparr>co_spend := s'\<rparr>"
    using transact_cases(6) [OF tx assms(5), of "SpendSetMandate ?i ?d"] d by simp
  then have k: "keeps_terms ?d (sp_mandates (co_spend (cw_contracts w')) ?i)"
    using keeps_terms_set [OF s'] by simp
  have z: "nat (or_zero (m_budget_amount m)) = 0 \<or> nat (or_zero (m_max_amount_per_payment m)) = 0"
    using assms(4) by (auto simp: limit_set_def or_zero_def split: option.splits)
  have "pay_mandate c time to v (sp_mandates (co_spend (cw_contracts w')) ?i) \<noteq> Inr om'" for om'
  proof
    assume "pay_mandate c time to v (sp_mandates (co_spend (cw_contracts w')) ?i) = Inr om'"
    from pay_mandate_Inr(6,8) [OF this] show False using k z assms(8) by (auto simp: keeps_terms_def d)
  qed
  then have "isl (spend_pay self c time ?i to v (t, co_spend (cw_contracts w')))"
    by (auto simp: spend_pay_def Let_def split: sum.split)
  then show ?thesis by (auto simp: within_scope_def exceeds_def limit_set_def split: option.splits)
qed

section \<open>Witnesses\<close>

definition sample_chain_env :: chain_env where
  "sample_chain_env = \<lparr>ce_geth = sample_geth, ce_ec = (\<lambda>_ _ _ _. 2),
     ce_abi = (\<lambda>v. if u256_range v then Some (nat v) else None), ce_hash = (\<lambda>_. 99)\<rparr>"

lemma sample_chain_env_abi: "abi_law (ce_abi sample_chain_env)"
  by (simp add: abi_law_def sample_chain_env_def)

definition chain_at :: "tx_fate list \<Rightarrow> chain_world" where
  "chain_at fates = \<lparr>cw_contracts = sample_contracts, cw_fates = fates, cw_time = 1000\<rparr>"

text \<open>The mandate of the sample, whose budget is 100 in an hour, registered at second 500.\<close>

lemma sample_in_range: "mandate_in_range sample_mandate"
  by (simp add: mandate_in_range_def sample_mandate_def or_zero_def u256_range_def)

lemma sample_onchain: "onchain_terms (ce_abi sample_chain_env) sample_mandate = Some sample_terms"
  using onchain_terms_law [OF sample_chain_env_abi sample_in_range]
  by (simp add: sample_terms_def sample_mandate_def or_zero_def)

lemma sample_registered: "\<exists>s. spend_set_mandate 1 500 7 sample_terms spend_new = Inr s \<and>
    sp_mandates s 7 = \<lparr>om_delegator = 1, om_agent = 2, om_max_amount = 80, om_valid_after = 0,
      om_valid_before = 2000000000, om_budget = 100, om_window = 3600, om_revoked = False, om_window_start = 500,
      om_window_spent = 0, om_payees = []\<rparr> \<and> sp_deposits s = (\<lambda>_. 0)"
  by (simp add: spend_set_mandate_def spend_new_def zero_mandate_def sample_terms_def Let_def)

lemma unix_seconds: "unix_of 1000000000000 = int 1000"
  by (simp add: unix_of_def ns_per_second_def)

theorem onchain_matches_witness:
  "\<exists>om. keeps_terms sample_terms om \<and> (\<exists>om'. pay_mandate 2 1000 3 80 om = Inr om') \<and>
     \<not> (\<exists>om'. pay_mandate 2 1000 3 81 om = Inr om')"
proof -
  obtain s where s: "spend_set_mandate 1 500 7 sample_terms spend_new = Inr s"
    and m: "sp_mandates s 7 = \<lparr>om_delegator = 1, om_agent = 2, om_max_amount = 80, om_valid_after = 0,
      om_valid_before = 2000000000, om_budget = 100, om_window = 3600, om_revoked = False, om_window_start = 500,
      om_window_spent = 0, om_payees = []\<rparr>"
    using sample_registered by blast
  note k = keeps_terms_set [OF s]
  have l: "limit_set (m_max_amount_per_payment sample_mandate)" "m_valid_before sample_mandate \<noteq> None"
    "m_allowed_resources sample_mandate = []" "om_window_start (sp_mandates s 7) + om_window (sp_mandates s 7) \<le> uint256_max"
    by (simp_all add: limit_set_def m uint256_max_def) (simp_all add: sample_mandate_def)
  note iff = onchain_checks_match_gateway [OF sample_chain_env_abi sample_in_range sample_onchain k l unix_seconds]
  have "(\<exists>om'. pay_mandate 2 1000 3 80 (sp_mandates s 7) = Inr om')" "\<not> (\<exists>om'. pay_mandate 2 1000 3 81 (sp_mandates s 7) = Inr om')"
    unfolding iff [where resource = "''''"]
    by (simp_all add: m roll_window_def)
      (simp_all add: sample_mandate_def within_validity_def or_zero_def within_scope_def exceeds_def unix_of_def ns_per_second_def)
  then show ?thesis using k by blast
qed

definition funded_spend :: spend where
  "funded_spend = spend_new\<lparr>sp_deposits := (\<lambda>_. 0)(1 := 90)\<rparr>"

theorem onchain_payment_witness:
  "\<exists>w w2. spend_set_mandate 1 500 7 sample_terms funded_spend = Inr (co_spend w) \<and>
     contract_exec sample_geth (\<lambda>_ _ _ _. 2) 2 1000 (SpendPay 7 3 60) w = Inr w2 \<and>
     tk_balance_of (co_token w2) 3 = 60 \<and> sp_deposits (co_spend w2) 1 = 30"
proof -
  obtain s where s: "spend_set_mandate 1 500 7 sample_terms funded_spend = Inr s"
    by (simp add: spend_set_mandate_def funded_spend_def spend_new_def zero_mandate_def Let_def)
  then have m: "sp_mandates s 7 = \<lparr>om_delegator = 1, om_agent = 2, om_max_amount = 80, om_valid_after = 0,
      om_valid_before = 2000000000, om_budget = 100, om_window = 3600, om_revoked = False, om_window_start = 500,
      om_window_spent = 0, om_payees = []\<rparr>" and dep: "sp_deposits s = (\<lambda>_. 0)(1 := 90)"
    by (auto simp: spend_set_mandate_def funded_spend_def spend_new_def zero_mandate_def sample_terms_def Let_def)
  let ?w = "sample_contracts\<lparr>co_spend := s, co_token := (co_token sample_contracts)\<lparr>tk_balance_of := (\<lambda>_. 0)(40 := 90)\<rparr>\<rparr>"
  obtain w2 where w2: "contract_exec sample_geth (\<lambda>_ _ _ _. 2) 2 1000 (SpendPay 7 3 60) ?w = Inr w2"
    by (simp add: spend_pay_def m dep pay_mandate_def roll_window_def allowed_payee_def Let_def sample_contracts_def chain_defs)
  have sw: "spend_set_mandate 1 500 7 sample_terms funded_spend = Inr (co_spend ?w)" using s by simp
  have "tk_balance_of (co_token w2) 3 = 60 \<and> sp_deposits (co_spend w2) 1 = 30"
    using onchain_payment_within_mandate [where delegator = 1 and ?time0.0 = 500 and ?s0.0 = funded_spend and w = ?w and txs = "[]"
        and resource = "''''", OF sample_chain_env_abi sample_in_range sample_onchain _ _ _ w2 unix_seconds] w2 s
    by (simp add: m dep credit_def debit_def sample_contracts_def sample_mandate_def [THEN arg_cong [where f = m_allowed_resources]])
  with sw w2 show ?thesis by blast
qed

definition unlimited_mandate :: mandate where
  "unlimited_mandate = flagged_mandate (sample_operator 1) sample_sign_flags 1 [] 7"

theorem unset_limit_witness:
  "\<exists>w'. run_mandate_onchain (sample_operator 1) sample_chain_env (address_hex sample_geth 40)
       (Some (Inr \<lparr>smj_mandate = mandate_to_json sample_geth unlimited_mandate, smj_signature = ''''\<rparr>)) (chain_at [Mined]) = (None, w') \<and>
     isl (spend_pay 40 2 1000 7 3 1 (co_token (cw_contracts w'), co_spend (cw_contracts w')))"
proof -
  let ?sm = "\<lparr>smj_mandate = mandate_to_json sample_geth unlimited_mandate, smj_signature = ''''\<rparr>"
  have m: "to_mandate sample_geth (mandate_to_json sample_geth unlimited_mandate) = Inr unlimited_mandate"
    using to_mandate_print [OF sample_geth_text, of unlimited_mandate] by (simp add: unlimited_mandate_def)
  have r: "mandate_in_range unlimited_mandate"
    by (simp add: mandate_in_range_def unlimited_mandate_def flagged_mandate_def or_zero_def u256_range_def i64_id)
      (simp add: sample_sign_flags_def i64_id)
  have u: "\<not> limit_set (m_budget_amount unlimited_mandate)" "m_mandate_id unlimited_mandate = 7"
    by (simp_all add: unlimited_mandate_def flagged_mandate_def limit_set_def sample_sign_flags_def)
  have f: "next_fate (chain_at [Mined]) = Mined" "om_delegator (sp_mandates (co_spend (cw_contracts (chain_at [Mined]))) 7) = 0"
    by (simp_all add: next_fate_def chain_at_def sample_contracts_def spend_new_def zero_mandate_def)
  obtain rep w' where tx: "transact sample_chain_env (key_address sample_geth 1)
      (map_option (SpendSetMandate 7) (onchain_terms (ce_abi sample_chain_env) unlimited_mandate)) (chain_at [Mined]) = (rep, w')"
    by fastforce
  have "\<exists>b. rep = Receipt b"
    using tx onchain_terms_law [OF sample_chain_env_abi r] f(1) by (auto simp: transact_def submit_def)
  then have run: "run_mandate_onchain (sample_operator 1) sample_chain_env (address_hex sample_geth 40) (Some (Inr ?sm)) (chain_at [Mined]) = (None, w')"
    using m u(2) tx geth_textD(1) [OF sample_geth_text] by (auto simp: run_mandate_onchain_def Let_def)
  show ?thesis
    using unset_limit_blocks_onchain [where v = 1 and self = 40 and c = 2 and time = 1000 and to = 3
        and t = "co_token (cw_contracts w')", OF sample_chain_env_abi r _ _ f(1) _ run] m u f(2) run by auto
qed

definition delivering_env :: "chain_world gateway_env" where
  "delivering_env = \<lparr>
     ge_geth = sample_geth, ge_token_address = 9, ge_pay_to = 3, ge_price = 60, ge_network = ''eip155:1337'',
     ge_timeout = 0, ge_dvp_address = 0, ge_require_bound_nonce = False, ge_receipt_key = None,
     ge_confirm_depth = 0, ge_sessions_enabled = False, ge_policy = (\<lambda>_. None), ge_scorer = None,
     ge_verify = (\<lambda>_ _ w. (Inr None, w)), ge_settle = (\<lambda>_ _ w. (Inr None, w)),
     ge_deliverer = Some (asset_deliver sample_chain_env 3 4), ge_refunder = Some (token_refund sample_chain_env 3),
     ge_head = (\<lambda>_. Inr 0), ge_tx_block = (\<lambda>_ _. None), ge_now = (\<lambda>_. 1000), ge_random = (\<lambda>w. (Some 5, w)),
     ge_disk = (\<lambda>_ _. IoOk)\<rparr>"

definition delivering_gateway :: "tx_fate list \<Rightarrow> chain_world gateway" where
  "delivering_gateway fates = \<lparr>gw_world = chain_at fates, gw_store = fresh_store, gw_journal = None, gw_settlements = [],
     gw_inflight = Map.empty, gw_sessions = Map.empty, gw_metrics = None\<rparr>"

definition settled_record :: settlement_record where
  "settled_record = \<lparr>st_payer = 2, st_amount = Some 60, st_tx_hash = 7, st_time = 1000, st_delivery_tx = 0\<rparr>"

lemma delivering_gateway_journal:
  "journal_ok ((delivering_gateway fates)\<lparr>gw_journal := Some new_journal\<rparr>)"
  "gw_journal ((delivering_gateway fates)\<lparr>gw_journal := Some new_journal\<rparr>) = Some new_journal"
  "disk_ok delivering_env" "delivers_on_chain sample_chain_env 3 4 delivering_env"
  "\<not> journaled ((delivering_gateway fates)\<lparr>gw_journal := Some new_journal\<rparr>) i"
  by (simp_all add: journal_ok_def synced_wf disk_ok_def delivering_env_def delivers_on_chain_def journaled_def
      journal_entries_def entries_def new_journal_def empty_mem_def mem_wf_def)

text \<open>The delivery is mined; and both transactions are refused.\<close>

theorem delivery_or_refund_witness:
  "(\<exists>r' s'. deliver delivering_env settled_record ((delivering_gateway [Mined])\<lparr>gw_journal := Some new_journal\<rparr>) = (Inr r', s') \<and>
     as_balance_of (co_asset (cw_contracts (gw_world s'))) 2 = 4) \<and>
   (\<exists>fl s' e. deliver delivering_env settled_record
       ((delivering_gateway [Refused ''gas'', Refused ''gas''])\<lparr>gw_journal := Some new_journal\<rparr>) = (Inl fl, s') \<and>
     e \<in> set (journal_entries s') \<and> je_kind e = ''refund_pending'')"
proof
  have am: "st_amount settled_record = Some 60" "u256_range 60" "u256_range 4"
    by (simp_all add: settled_record_def u256_range_def)
  let ?s = "\<lambda>fates. (delivering_gateway fates)\<lparr>gw_journal := Some new_journal\<rparr>"
  have seen: "\<forall>f\<in>set (cw_fates (gw_world (?s [Mined]))). \<forall>e b. f \<noteq> Unseen e b"
    "\<forall>f\<in>set (cw_fates (gw_world (?s [Refused ''gas'', Refused ''gas'']))). \<forall>e b. f \<noteq> Unseen e b"
    by (simp_all add: delivering_gateway_def chain_at_def)
  note settle = delivery_or_refund [OF delivering_gateway_journal(4) sample_chain_env_abi am]
  obtain out s' where d: "deliver delivering_env settled_record (?s [Mined]) = (out, s')" by fastforce
  have "\<exists>a. asset_transfer (is_eligible (co_eligibility sample_contracts)) 3 2 4 (co_asset sample_contracts) = Inr a"
    by (simp add: asset_transfer_def chain_defs sample_contracts_def Let_def)
  then have "\<exists>h w. asset_deliver sample_chain_env 3 4 2 (chain_at [Mined]) = (Inr h, w)"
    by (auto simp: asset_deliver_def transact_def next_fate_def submit_def chain_at_def sample_chain_env_def u256_range_def)
  then have "\<exists>r'. out = Inr r'"
    using d by (auto simp: deliver_def delivering_env_def delivering_gateway_def settled_record_def)
  then show "\<exists>r' s'. deliver delivering_env settled_record (?s [Mined]) = (Inr r', s') \<and>
     as_balance_of (co_asset (cw_contracts (gw_world s'))) 2 = 4"
    using settle [OF seen(1) delivering_gateway_journal(3,1,2) d] d
    by (auto simp: Let_def delivering_gateway_def chain_at_def settled_record_def credit_def debit_def)
      (auto simp: sample_contracts_def)
  obtain out' t' where d': "deliver delivering_env settled_record (?s [Refused ''gas'', Refused ''gas'']) = (out', t')" by fastforce
  have w: "cw_contracts (gw_world t') = sample_contracts" and o: "\<exists>fl. out' = Inl fl"
    using d' by (auto simp: deliver_def refund_def fail_def delivering_env_def delivering_gateway_def settled_record_def Let_def
      asset_deliver_def token_refund_def transact_def next_fate_def submit_def chain_at_def sample_chain_env_def u256_range_def
      journal_refund_pending_def)
  have "tk_balance_of (co_token sample_contracts) \<noteq>
      credit (debit (tk_balance_of (co_token sample_contracts)) 3 60) 2 60"
    by (simp add: sample_contracts_def credit_def debit_def fun_eq_iff) (rule exI [of _ 2], simp)
  then have "pending_on_record delivering_env settled_record (?s [Refused ''gas'', Refused ''gas'']) t'"
    using settle [OF seen(2) delivering_gateway_journal(3,1,2) d'] o w
    by (auto simp: Let_def delivering_gateway_def chain_at_def) (simp add: settled_record_def)
  then obtain e where "journal_entries t' = journal_entries (?s [Refused ''gas'', Refused ''gas'']) @ [e]" "je_kind e = ''refund_pending''"
    using delivering_gateway_journal(5) by (auto simp: pending_on_record_def Let_def)
  then show "\<exists>fl s' e. deliver delivering_env settled_record (?s [Refused ''gas'', Refused ''gas'']) = (Inl fl, s') \<and>
     e \<in> set (journal_entries s') \<and> je_kind e = ''refund_pending''"
    using d' o by auto
qed

end
