(* ===== verification/Bindings.thy ===== *)
theory Bindings
  imports OnChain
begin

text \<open>
  The Go bindings of the contracts (\<open>token\<close>, \<open>asset\<close>, \<open>spend\<close>, \<open>eligibility\<close>, \<open>registry\<close>,
  \<open>dvp\<close>), the key helpers of \<open>internal/nodeutil\<close>, and the commands that deploy and set up the
  contracts (\<open>cmd/issuer\<close>, \<open>cmd/agent register\<close>).

  A binding turns a Go call into a method name and a list of arguments, which go-ethereum
  packs by the ABI and the contract's entry point takes apart again. An argument keeps its
  Go type on one side (\<open>go_arg\<close>) and its Solidity type on the other (\<open>abi_value\<close>); what the
  encoder makes of a big integer is the parameter \<open>ce_abi\<close>. \<open>deployment\<close> says at which
  addresses the chain's contracts stand.

  Theorems: every binding reaches its contract function with the arguments in their places;
  the registries read by the gateway through the bindings follow the transactions that set
  them, and an account that loses its eligibility takes it from the agent it sponsors.
\<close>

section \<open>Packing\<close>

datatype go_arg =
    GoAddress address
  | GoBig int
  | GoBytes32 bytes32
  | GoBool bool
  | GoUint8 byte
  | GoString string
  | GoAddresses "address list"

datatype abi_value =
    AbiAddress address
  | AbiUint nat
  | AbiBytes32 bytes32
  | AbiBool bool
  | AbiUint8 byte
  | AbiString string
  | AbiAddresses "address list"

fun pack_arg :: "(int \<Rightarrow> nat option) \<Rightarrow> go_arg \<Rightarrow> abi_value option" where
  "pack_arg abi (GoAddress a) = Some (AbiAddress a)"
| "pack_arg abi (GoBig v) = map_option AbiUint (abi v)"
| "pack_arg abi (GoBytes32 b) = Some (AbiBytes32 b)"
| "pack_arg abi (GoBool b) = Some (AbiBool b)"
| "pack_arg abi (GoUint8 b) = Some (AbiUint8 b)"
| "pack_arg abi (GoString s) = Some (AbiString s)"
| "pack_arg abi (GoAddresses as) = Some (AbiAddresses as)"

fun pack_args :: "(int \<Rightarrow> nat option) \<Rightarrow> go_arg list \<Rightarrow> abi_value list option" where
  "pack_args abi [] = Some []"
| "pack_args abi (a # as) =
     (case (pack_arg abi a, pack_args abi as) of (Some v, Some vs) \<Rightarrow> Some (v # vs) | _ \<Rightarrow> None)"

section \<open>The contracts' entry points\<close>

record deployment =
  dp_token :: address
  dp_asset :: address
  dp_eligibility :: address
  dp_identity :: address
  dp_spend :: address
  dp_dvp :: address

text \<open>The authorization of a call, as the three functions that take one name its fields.\<close>

definition auth_args :: "address \<Rightarrow> address \<Rightarrow> nat \<Rightarrow> nat \<Rightarrow> nat \<Rightarrow> bytes32 \<Rightarrow> authorization" where
  "auth_args from to v va vb n = \<lparr>au_from = from, au_to = to, au_value = int v, au_valid_after = int va,
     au_valid_before = int vb, au_nonce = n\<rparr>"

definition token_entry :: "string \<Rightarrow> abi_value list \<Rightarrow> token_call option" where
  "token_entry m vs =
     (if m = ''mint'' then (case vs of [AbiAddress a, AbiUint n] \<Rightarrow> Some (CallMint a n) | _ \<Rightarrow> None)
      else if m = ''burn'' then (case vs of [AbiAddress a, AbiUint n] \<Rightarrow> Some (CallBurn a n) | _ \<Rightarrow> None)
      else if m = ''transfer'' then (case vs of [AbiAddress a, AbiUint n] \<Rightarrow> Some (CallTransfer a n) | _ \<Rightarrow> None)
      else if m = ''approve'' then (case vs of [AbiAddress a, AbiUint n] \<Rightarrow> Some (CallApprove a n) | _ \<Rightarrow> None)
      else if m = ''setFrozen'' then (case vs of [AbiAddress a, AbiBool b] \<Rightarrow> Some (CallFreeze a b) | _ \<Rightarrow> None)
      else if m = ''setAllowed'' then (case vs of [AbiAddress a, AbiBool b] \<Rightarrow> Some (CallAllow a b) | _ \<Rightarrow> None)
      else if m = ''setAllowlistEnabled'' then (case vs of [AbiBool b] \<Rightarrow> Some (CallAllowlist b) | _ \<Rightarrow> None)
      else if m = ''transferWithAuthorization'' then
        (case vs of [AbiAddress f, AbiAddress t, AbiUint x, AbiUint va, AbiUint vb, AbiBytes32 n, AbiUint8 v, AbiBytes32 r, AbiBytes32 s]
           \<Rightarrow> Some (CallTransferAuth (auth_args f t x va vb n) v r s) | _ \<Rightarrow> None)
      else if m = ''receiveWithAuthorization'' then
        (case vs of [AbiAddress f, AbiAddress t, AbiUint x, AbiUint va, AbiUint vb, AbiBytes32 n, AbiUint8 v, AbiBytes32 r, AbiBytes32 s]
           \<Rightarrow> Some (CallReceiveAuth (auth_args f t x va vb n) v r s) | _ \<Rightarrow> None)
      else None)"

definition asset_entry :: "string \<Rightarrow> abi_value list \<Rightarrow> contract_call option" where
  "asset_entry m vs =
     (if m = ''mint'' then (case vs of [AbiAddress a, AbiUint n] \<Rightarrow> Some (AssetMint a n) | _ \<Rightarrow> None)
      else if m = ''burn'' then (case vs of [AbiAddress a, AbiUint n] \<Rightarrow> Some (AssetBurn a n) | _ \<Rightarrow> None)
      else if m = ''transfer'' then (case vs of [AbiAddress a, AbiUint n] \<Rightarrow> Some (AssetTransfer a n) | _ \<Rightarrow> None)
      else if m = ''approve'' then (case vs of [AbiAddress a, AbiUint n] \<Rightarrow> Some (AssetApprove a n) | _ \<Rightarrow> None)
      else if m = ''transferFrom'' then
        (case vs of [AbiAddress f, AbiAddress t, AbiUint n] \<Rightarrow> Some (AssetTransferFrom f t n) | _ \<Rightarrow> None)
      else None)"

definition spend_entry :: "string \<Rightarrow> abi_value list \<Rightarrow> contract_call option" where
  "spend_entry m vs =
     (if m = ''deposit'' then (case vs of [AbiUint n] \<Rightarrow> Some (SpendDeposit n) | _ \<Rightarrow> None)
      else if m = ''withdraw'' then (case vs of [AbiUint n] \<Rightarrow> Some (SpendWithdraw n) | _ \<Rightarrow> None)
      else if m = ''setMandate'' then
        (case vs of [AbiBytes32 i, AbiAddress a, AbiUint mx, AbiUint va, AbiUint vb, AbiUint b, AbiUint wd, AbiAddresses ps]
           \<Rightarrow> Some (SpendSetMandate i \<lparr>mt_agent = a, mt_max_amount = mx, mt_valid_after = va, mt_valid_before = vb,
                mt_budget = b, mt_window = wd, mt_payees = ps\<rparr>) | _ \<Rightarrow> None)
      else if m = ''revoke'' then (case vs of [AbiBytes32 i] \<Rightarrow> Some (SpendRevoke i) | _ \<Rightarrow> None)
      else if m = ''pay'' then (case vs of [AbiBytes32 i, AbiAddress a, AbiUint n] \<Rightarrow> Some (SpendPay i a n) | _ \<Rightarrow> None)
      else None)"

definition dvp_entry :: "string \<Rightarrow> abi_value list \<Rightarrow> contract_call option" where
  "dvp_entry m vs =
     (if m = ''settleAndDeliver'' then
        (case vs of [AbiAddress q, AbiUint k, AbiAddress f, AbiUint x, AbiUint va, AbiUint vb, AbiBytes32 n, AbiUint8 v, AbiBytes32 r, AbiBytes32 s]
           \<Rightarrow> Some (SettleAndDeliver q k (auth_args f 0 x va vb n) v r s) | _ \<Rightarrow> None)
      else None)"

definition eligibility_entry :: "string \<Rightarrow> abi_value list \<Rightarrow> contract_call option" where
  "eligibility_entry m vs =
     (if m = ''setEligible'' then (case vs of [AbiAddress a, AbiBool b] \<Rightarrow> Some (SetEligible a b) | _ \<Rightarrow> None)
      else if m = ''delegateEligibility'' then (case vs of [AbiAddress a] \<Rightarrow> Some (DelegateEligibility a) | _ \<Rightarrow> None)
      else None)"

definition identity_entry :: "string \<Rightarrow> abi_value list \<Rightarrow> contract_call option" where
  "identity_entry m vs =
     (if m = ''register'' then (case vs of [AbiString u] \<Rightarrow> Some (RegisterAgent u) | _ \<Rightarrow> None) else None)"

definition contract_entry :: "deployment \<Rightarrow> address \<Rightarrow> string \<Rightarrow> abi_value list \<Rightarrow> contract_call option" where
  "contract_entry D at_address m vs =
     (if at_address = dp_token D then map_option TokenCall (token_entry m vs)
      else if at_address = dp_asset D then asset_entry m vs
      else if at_address = dp_spend D then spend_entry m vs
      else if at_address = dp_eligibility D then eligibility_entry m vs
      else if at_address = dp_identity D then identity_entry m vs
      else if at_address = dp_dvp D then dvp_entry m vs
      else None)"

text \<open>The public variables and view functions.\<close>

definition token_view :: "token \<Rightarrow> string \<Rightarrow> abi_value list \<Rightarrow> abi_value option" where
  "token_view t m vs =
     (if m = ''balanceOf'' then (case vs of [AbiAddress a] \<Rightarrow> Some (AbiUint (tk_balance_of t a)) | _ \<Rightarrow> None)
      else if m = ''totalSupply'' then Some (AbiUint (tk_total_supply t))
      else if m = ''DOMAIN_SEPARATOR'' then Some (AbiBytes32 (tk_domain_separator t))
      else if m = ''authorizationState'' then
        (case vs of [AbiAddress a, AbiBytes32 n] \<Rightarrow> Some (AbiBool (tk_authorization_state t a n)) | _ \<Rightarrow> None)
      else if m = ''issuer'' then Some (AbiAddress (tk_issuer t))
      else if m = ''frozen'' then (case vs of [AbiAddress a] \<Rightarrow> Some (AbiBool (tk_frozen t a)) | _ \<Rightarrow> None)
      else if m = ''allowed'' then (case vs of [AbiAddress a] \<Rightarrow> Some (AbiBool (tk_allowed t a)) | _ \<Rightarrow> None)
      else if m = ''allowlistEnabled'' then Some (AbiBool (tk_allowlist_enabled t))
      else None)"

definition asset_view :: "asset \<Rightarrow> string \<Rightarrow> abi_value list \<Rightarrow> abi_value option" where
  "asset_view s m vs =
     (if m = ''balanceOf'' then (case vs of [AbiAddress a] \<Rightarrow> Some (AbiUint (as_balance_of s a)) | _ \<Rightarrow> None)
      else if m = ''totalSupply'' then Some (AbiUint (as_total_supply s))
      else if m = ''issuer'' then Some (AbiAddress (as_issuer s))
      else if m = ''registry'' then Some (AbiAddress (as_registry s))
      else None)"

definition spend_view :: "spend \<Rightarrow> string \<Rightarrow> abi_value list \<Rightarrow> abi_value option" where
  "spend_view s m vs =
     (if m = ''deposits'' then (case vs of [AbiAddress a] \<Rightarrow> Some (AbiUint (sp_deposits s a)) | _ \<Rightarrow> None)
      else if m = ''windowSpent'' then
        (case vs of [AbiBytes32 i] \<Rightarrow> Some (AbiUint (om_window_spent (sp_mandates s i))) | _ \<Rightarrow> None)
      else if m = ''mandateRevoked'' then
        (case vs of [AbiBytes32 i] \<Rightarrow> Some (AbiBool (om_revoked (sp_mandates s i))) | _ \<Rightarrow> None)
      else None)"

definition eligibility_view :: "eligibility \<Rightarrow> string \<Rightarrow> abi_value list \<Rightarrow> abi_value option" where
  "eligibility_view r m vs =
     (if m = ''isEligible'' then (case vs of [AbiAddress a] \<Rightarrow> Some (AbiBool (is_eligible r a)) | _ \<Rightarrow> None)
      else if m = ''delegatedBy'' then (case vs of [AbiAddress a] \<Rightarrow> Some (AbiAddress (el_delegated_by r a)) | _ \<Rightarrow> None)
      else None)"

definition identity_view :: "identity \<Rightarrow> string \<Rightarrow> abi_value list \<Rightarrow> abi_value option" where
  "identity_view r m vs =
     (if m = ''isRegistered'' then (case vs of [AbiAddress a] \<Rightarrow> Some (AbiBool (id_registered r a)) | _ \<Rightarrow> None)
      else if m = ''agentCard'' then (case vs of [AbiAddress a] \<Rightarrow> Some (AbiString (id_cards r a)) | _ \<Rightarrow> None)
      else None)"

definition contract_view :: "deployment \<Rightarrow> contracts \<Rightarrow> address \<Rightarrow> string \<Rightarrow> abi_value list \<Rightarrow> abi_value option" where
  "contract_view D c at_address m vs =
     (if at_address = dp_token D then token_view (co_token c) m vs
      else if at_address = dp_asset D then asset_view (co_asset c) m vs
      else if at_address = dp_spend D then spend_view (co_spend c) m vs
      else if at_address = dp_eligibility D then eligibility_view (co_eligibility c) m vs
      else if at_address = dp_identity D then identity_view (co_identity c) m vs
      else None)"

section \<open>bind.BoundContract\<close>

text \<open>\<open>lost\<close> is the error of a node that does not answer a read.\<close>

record binding_env =
  be_chain :: chain_env
  be_at :: deployment
  be_lost :: "string option"

definition bound_transact ::
    "binding_env \<Rightarrow> address \<Rightarrow> address \<Rightarrow> string \<Rightarrow> go_arg list \<Rightarrow> chain_world \<Rightarrow> tx_report \<times> chain_world" where
  "bound_transact B handle opts m args w =
     transact (be_chain B) opts
       (case pack_args (ce_abi (be_chain B)) args of None \<Rightarrow> None | Some vs \<Rightarrow> contract_entry (be_at B) handle m vs) w"

definition bound_call :: "binding_env \<Rightarrow> address \<Rightarrow> string \<Rightarrow> go_arg list \<Rightarrow> chain_world \<Rightarrow> abi_value result" where
  "bound_call B handle m args w =
     (case be_lost B of
        Some e \<Rightarrow> Inl e
      | None \<Rightarrow> (case pack_args (ce_abi (be_chain B)) args of
          None \<Rightarrow> Inl ''abi: out of range''
        | Some vs \<Rightarrow> (case contract_view (be_at B) (cw_contracts w) handle m vs of
            None \<Rightarrow> Inl ''no contract code at given address''
          | Some v \<Rightarrow> Inr v)))"

text \<open>The type assertions on a read's first value; a failed one is a panic.\<close>

definition out_big :: "abi_value \<Rightarrow> int result" where
  "out_big v = (case v of AbiUint n \<Rightarrow> Inr (int n) | _ \<Rightarrow> Inl ''panic: interface conversion'')"

definition out_bool :: "abi_value \<Rightarrow> bool result" where
  "out_bool v = (case v of AbiBool b \<Rightarrow> Inr b | _ \<Rightarrow> Inl ''panic: interface conversion'')"

definition out_address :: "abi_value \<Rightarrow> address result" where
  "out_address v = (case v of AbiAddress a \<Rightarrow> Inr a | _ \<Rightarrow> Inl ''panic: interface conversion'')"

definition out_bytes32 :: "abi_value \<Rightarrow> bytes32 result" where
  "out_bytes32 v = (case v of AbiBytes32 b \<Rightarrow> Inr b | _ \<Rightarrow> Inl ''panic: interface conversion'')"

definition out_string :: "abi_value \<Rightarrow> string result" where
  "out_string v = (case v of AbiString s \<Rightarrow> Inr s | _ \<Rightarrow> Inl ''panic: interface conversion'')"

section \<open>token.go\<close>

text \<open>\<open>opts\<close> is the account that sends; a handle is the contract's address.\<close>

definition token_BalanceOf :: "binding_env \<Rightarrow> address \<Rightarrow> address \<Rightarrow> chain_world \<Rightarrow> int result" where
  "token_BalanceOf B h a w = and_then (bound_call B h ''balanceOf'' [GoAddress a] w) out_big"

definition token_TotalSupply :: "binding_env \<Rightarrow> address \<Rightarrow> chain_world \<Rightarrow> int result" where
  "token_TotalSupply B h w = and_then (bound_call B h ''totalSupply'' [] w) out_big"

definition token_DomainSeparator :: "binding_env \<Rightarrow> address \<Rightarrow> chain_world \<Rightarrow> bytes32 result" where
  "token_DomainSeparator B h w = and_then (bound_call B h ''DOMAIN_SEPARATOR'' [] w) out_bytes32"

definition token_AuthorizationState :: "binding_env \<Rightarrow> address \<Rightarrow> address \<Rightarrow> bytes32 \<Rightarrow> chain_world \<Rightarrow> bool result" where
  "token_AuthorizationState B h a n w =
     and_then (bound_call B h ''authorizationState'' [GoAddress a, GoBytes32 n] w) out_bool"

definition token_Issuer :: "binding_env \<Rightarrow> address \<Rightarrow> chain_world \<Rightarrow> address result" where
  "token_Issuer B h w = and_then (bound_call B h ''issuer'' [] w) out_address"

definition token_Frozen :: "binding_env \<Rightarrow> address \<Rightarrow> address \<Rightarrow> chain_world \<Rightarrow> bool result" where
  "token_Frozen B h a w = and_then (bound_call B h ''frozen'' [GoAddress a] w) out_bool"

definition token_Allowed :: "binding_env \<Rightarrow> address \<Rightarrow> address \<Rightarrow> chain_world \<Rightarrow> bool result" where
  "token_Allowed B h a w = and_then (bound_call B h ''allowed'' [GoAddress a] w) out_bool"

definition token_AllowlistEnabled :: "binding_env \<Rightarrow> address \<Rightarrow> chain_world \<Rightarrow> bool result" where
  "token_AllowlistEnabled B h w = and_then (bound_call B h ''allowlistEnabled'' [] w) out_bool"

definition token_Mint :: "binding_env \<Rightarrow> address \<Rightarrow> address \<Rightarrow> address \<Rightarrow> int \<Rightarrow> chain_world \<Rightarrow> tx_report \<times> chain_world" where
  "token_Mint B h opts to v = bound_transact B h opts ''mint'' [GoAddress to, GoBig v]"

definition token_Burn :: "binding_env \<Rightarrow> address \<Rightarrow> address \<Rightarrow> address \<Rightarrow> int \<Rightarrow> chain_world \<Rightarrow> tx_report \<times> chain_world" where
  "token_Burn B h opts from v = bound_transact B h opts ''burn'' [GoAddress from, GoBig v]"

definition token_Transfer :: "binding_env \<Rightarrow> address \<Rightarrow> address \<Rightarrow> address \<Rightarrow> int \<Rightarrow> chain_world \<Rightarrow> tx_report \<times> chain_world" where
  "token_Transfer B h opts to v = bound_transact B h opts ''transfer'' [GoAddress to, GoBig v]"

definition token_Approve :: "binding_env \<Rightarrow> address \<Rightarrow> address \<Rightarrow> address \<Rightarrow> int \<Rightarrow> chain_world \<Rightarrow> tx_report \<times> chain_world" where
  "token_Approve B h opts spender v = bound_transact B h opts ''approve'' [GoAddress spender, GoBig v]"

definition token_SetFrozen :: "binding_env \<Rightarrow> address \<Rightarrow> address \<Rightarrow> address \<Rightarrow> bool \<Rightarrow> chain_world \<Rightarrow> tx_report \<times> chain_world" where
  "token_SetFrozen B h opts a b = bound_transact B h opts ''setFrozen'' [GoAddress a, GoBool b]"

definition token_SetAllowed :: "binding_env \<Rightarrow> address \<Rightarrow> address \<Rightarrow> address \<Rightarrow> bool \<Rightarrow> chain_world \<Rightarrow> tx_report \<times> chain_world" where
  "token_SetAllowed B h opts a b = bound_transact B h opts ''setAllowed'' [GoAddress a, GoBool b]"

definition token_SetAllowlistEnabled :: "binding_env \<Rightarrow> address \<Rightarrow> address \<Rightarrow> bool \<Rightarrow> chain_world \<Rightarrow> tx_report \<times> chain_world" where
  "token_SetAllowlistEnabled B h opts b = bound_transact B h opts ''setAllowlistEnabled'' [GoBool b]"

text \<open>The nine arguments of an authorization's execution, in Go's order.\<close>

definition auth_call_args :: "authorization \<Rightarrow> byte \<Rightarrow> bytes32 \<Rightarrow> bytes32 \<Rightarrow> go_arg list" where
  "auth_call_args a v r s = [GoAddress (au_from a), GoAddress (au_to a), GoBig (au_value a), GoBig (au_valid_after a),
     GoBig (au_valid_before a), GoBytes32 (au_nonce a), GoUint8 v, GoBytes32 r, GoBytes32 s]"

definition token_TransferWithAuthorization ::
    "binding_env \<Rightarrow> address \<Rightarrow> address \<Rightarrow> authorization \<Rightarrow> byte \<Rightarrow> bytes32 \<Rightarrow> bytes32 \<Rightarrow> chain_world \<Rightarrow> tx_report \<times> chain_world" where
  "token_TransferWithAuthorization B h opts a v r s =
     bound_transact B h opts ''transferWithAuthorization'' (auth_call_args a v r s)"

definition token_ReceiveWithAuthorization ::
    "binding_env \<Rightarrow> address \<Rightarrow> address \<Rightarrow> authorization \<Rightarrow> byte \<Rightarrow> bytes32 \<Rightarrow> bytes32 \<Rightarrow> chain_world \<Rightarrow> tx_report \<times> chain_world" where
  "token_ReceiveWithAuthorization B h opts a v r s =
     bound_transact B h opts ''receiveWithAuthorization'' (auth_call_args a v r s)"

section \<open>asset.go\<close>

definition asset_BalanceOf :: "binding_env \<Rightarrow> address \<Rightarrow> address \<Rightarrow> chain_world \<Rightarrow> int result" where
  "asset_BalanceOf B h a w = and_then (bound_call B h ''balanceOf'' [GoAddress a] w) out_big"

definition asset_TotalSupply :: "binding_env \<Rightarrow> address \<Rightarrow> chain_world \<Rightarrow> int result" where
  "asset_TotalSupply B h w = and_then (bound_call B h ''totalSupply'' [] w) out_big"

definition asset_Issuer :: "binding_env \<Rightarrow> address \<Rightarrow> chain_world \<Rightarrow> address result" where
  "asset_Issuer B h w = and_then (bound_call B h ''issuer'' [] w) out_address"

definition asset_Registry :: "binding_env \<Rightarrow> address \<Rightarrow> chain_world \<Rightarrow> address result" where
  "asset_Registry B h w = and_then (bound_call B h ''registry'' [] w) out_address"

definition asset_Mint :: "binding_env \<Rightarrow> address \<Rightarrow> address \<Rightarrow> address \<Rightarrow> int \<Rightarrow> chain_world \<Rightarrow> tx_report \<times> chain_world" where
  "asset_Mint B h opts to v = bound_transact B h opts ''mint'' [GoAddress to, GoBig v]"

definition asset_Burn :: "binding_env \<Rightarrow> address \<Rightarrow> address \<Rightarrow> address \<Rightarrow> int \<Rightarrow> chain_world \<Rightarrow> tx_report \<times> chain_world" where
  "asset_Burn B h opts from v = bound_transact B h opts ''burn'' [GoAddress from, GoBig v]"

definition asset_Transfer :: "binding_env \<Rightarrow> address \<Rightarrow> address \<Rightarrow> address \<Rightarrow> int \<Rightarrow> chain_world \<Rightarrow> tx_report \<times> chain_world" where
  "asset_Transfer B h opts to v = bound_transact B h opts ''transfer'' [GoAddress to, GoBig v]"

definition asset_Approve :: "binding_env \<Rightarrow> address \<Rightarrow> address \<Rightarrow> address \<Rightarrow> int \<Rightarrow> chain_world \<Rightarrow> tx_report \<times> chain_world" where
  "asset_Approve B h opts spender v = bound_transact B h opts ''approve'' [GoAddress spender, GoBig v]"

definition asset_TransferFrom ::
    "binding_env \<Rightarrow> address \<Rightarrow> address \<Rightarrow> address \<Rightarrow> address \<Rightarrow> int \<Rightarrow> chain_world \<Rightarrow> tx_report \<times> chain_world" where
  "asset_TransferFrom B h opts from to v = bound_transact B h opts ''transferFrom'' [GoAddress from, GoAddress to, GoBig v]"

section \<open>spend.go, dvp.go\<close>

definition spend_Deposit :: "binding_env \<Rightarrow> address \<Rightarrow> address \<Rightarrow> int \<Rightarrow> chain_world \<Rightarrow> tx_report \<times> chain_world" where
  "spend_Deposit B h opts v = bound_transact B h opts ''deposit'' [GoBig v]"

definition spend_Withdraw :: "binding_env \<Rightarrow> address \<Rightarrow> address \<Rightarrow> int \<Rightarrow> chain_world \<Rightarrow> tx_report \<times> chain_world" where
  "spend_Withdraw B h opts v = bound_transact B h opts ''withdraw'' [GoBig v]"

definition spend_SetMandate ::
    "binding_env \<Rightarrow> address \<Rightarrow> address \<Rightarrow> bytes32 \<Rightarrow> address \<Rightarrow> int \<Rightarrow> int \<Rightarrow> int \<Rightarrow> int \<Rightarrow> int \<Rightarrow> address list \<Rightarrow>
     chain_world \<Rightarrow> tx_report \<times> chain_world" where
  "spend_SetMandate B h opts i agent mx va vb b wd payees = bound_transact B h opts ''setMandate''
     [GoBytes32 i, GoAddress agent, GoBig mx, GoBig va, GoBig vb, GoBig b, GoBig wd, GoAddresses payees]"

definition spend_Revoke :: "binding_env \<Rightarrow> address \<Rightarrow> address \<Rightarrow> bytes32 \<Rightarrow> chain_world \<Rightarrow> tx_report \<times> chain_world" where
  "spend_Revoke B h opts i = bound_transact B h opts ''revoke'' [GoBytes32 i]"

definition spend_Pay :: "binding_env \<Rightarrow> address \<Rightarrow> address \<Rightarrow> bytes32 \<Rightarrow> address \<Rightarrow> int \<Rightarrow> chain_world \<Rightarrow> tx_report \<times> chain_world" where
  "spend_Pay B h opts i to v = bound_transact B h opts ''pay'' [GoBytes32 i, GoAddress to, GoBig v]"

definition spend_Deposits :: "binding_env \<Rightarrow> address \<Rightarrow> address \<Rightarrow> chain_world \<Rightarrow> int result" where
  "spend_Deposits B h a w = and_then (bound_call B h ''deposits'' [GoAddress a] w) out_big"

definition spend_WindowSpent :: "binding_env \<Rightarrow> address \<Rightarrow> bytes32 \<Rightarrow> chain_world \<Rightarrow> int result" where
  "spend_WindowSpent B h i w = and_then (bound_call B h ''windowSpent'' [GoBytes32 i] w) out_big"

definition spend_MandateRevoked :: "binding_env \<Rightarrow> address \<Rightarrow> bytes32 \<Rightarrow> chain_world \<Rightarrow> bool result" where
  "spend_MandateRevoked B h i w = and_then (bound_call B h ''mandateRevoked'' [GoBytes32 i] w) out_bool"

definition dvp_SettleAndDeliver ::
    "binding_env \<Rightarrow> address \<Rightarrow> address \<Rightarrow> address \<Rightarrow> int \<Rightarrow> authorization \<Rightarrow> byte \<Rightarrow> bytes32 \<Rightarrow> bytes32 \<Rightarrow>
     chain_world \<Rightarrow> tx_report \<times> chain_world" where
  "dvp_SettleAndDeliver B h opts seller amount a v r s = bound_transact B h opts ''settleAndDeliver''
     [GoAddress seller, GoBig amount, GoAddress (au_from a), GoBig (au_value a), GoBig (au_valid_after a),
      GoBig (au_valid_before a), GoBytes32 (au_nonce a), GoUint8 v, GoBytes32 r, GoBytes32 s]"

section \<open>eligibility.go, registry.go\<close>

definition eligibility_SetEligible ::
    "binding_env \<Rightarrow> address \<Rightarrow> address \<Rightarrow> address \<Rightarrow> bool \<Rightarrow> chain_world \<Rightarrow> tx_report \<times> chain_world" where
  "eligibility_SetEligible B h opts a b = bound_transact B h opts ''setEligible'' [GoAddress a, GoBool b]"

definition eligibility_Delegate :: "binding_env \<Rightarrow> address \<Rightarrow> address \<Rightarrow> address \<Rightarrow> chain_world \<Rightarrow> tx_report \<times> chain_world" where
  "eligibility_Delegate B h opts a = bound_transact B h opts ''delegateEligibility'' [GoAddress a]"

definition eligibility_IsEligible :: "binding_env \<Rightarrow> address \<Rightarrow> chain_world \<Rightarrow> registry" where
  "eligibility_IsEligible B h w a = and_then (bound_call B h ''isEligible'' [GoAddress a] w) out_bool"

definition eligibility_DelegatedBy :: "binding_env \<Rightarrow> address \<Rightarrow> address \<Rightarrow> chain_world \<Rightarrow> address result" where
  "eligibility_DelegatedBy B h a w = and_then (bound_call B h ''delegatedBy'' [GoAddress a] w) out_address"

definition registry_Register :: "binding_env \<Rightarrow> address \<Rightarrow> address \<Rightarrow> string \<Rightarrow> chain_world \<Rightarrow> tx_report \<times> chain_world" where
  "registry_Register B h opts url = bound_transact B h opts ''register'' [GoString url]"

definition registry_IsRegistered :: "binding_env \<Rightarrow> address \<Rightarrow> chain_world \<Rightarrow> registry" where
  "registry_IsRegistered B h w a = and_then (bound_call B h ''isRegistered'' [GoAddress a] w) out_bool"

definition registry_AgentCard :: "binding_env \<Rightarrow> address \<Rightarrow> address \<Rightarrow> chain_world \<Rightarrow> string result" where
  "registry_AgentCard B h a w = and_then (bound_call B h ''agentCard'' [GoAddress a] w) out_string"

section \<open>internal/nodeutil: keys from the environment\<close>

text \<open>\<open>ecdsa\<close> is \<open>crypto.HexToECDSA\<close> as far as it matters: the key of a hexadecimal text.\<close>

definition key_from_env :: "geth \<Rightarrow> (string \<Rightarrow> bytes32 option) \<Rightarrow> (string \<Rightarrow> string) \<Rightarrow> string \<Rightarrow> (bytes32 \<times> address) result" where
  "key_from_env G ecdsa getenv var =
     (let raw = trim_space (getenv var) in
      if raw = '''' then Inl (''nodeutil: environment variable '' @ var @ '' is not set'')
      else case ecdsa (trim_prefix raw ''0x'') of
        None \<Rightarrow> Inl (''nodeutil: parse key from '' @ var)
      | Some key \<Rightarrow> Inr (key, key_address G key))"

text \<open>The transactor is the key and its address; building it for a chain id cannot fail.\<close>

definition transactor_from_env :: "geth \<Rightarrow> (string \<Rightarrow> bytes32 option) \<Rightarrow> (string \<Rightarrow> string) \<Rightarrow> string \<Rightarrow> address result" where
  "transactor_from_env G ecdsa getenv var = map_sum id snd (key_from_env G ecdsa getenv var)"

definition dial :: "(string \<Rightarrow> (int result) result) \<Rightarrow> string \<Rightarrow> int result" where
  "dial node url =
     (case node url of
        Inl e \<Rightarrow> Inl (''nodeutil: dial '' @ url @ '': '' @ e)
      | Inr (Inl e) \<Rightarrow> Inl (''nodeutil: read chain id from '' @ url @ '': '' @ e)
      | Inr (Inr c) \<Rightarrow> Inr c)"

section \<open>Deploying\<close>

text \<open>
  \<open>created\<close> is the address the node gives a new contract. The world follows the contracts
  that stand at the deployment's addresses; one deployed elsewhere is not among them.
\<close>

datatype contract_init =
    InitToken bytes32
  | InitAsset address
  | InitEligibility
  | InitIdentity
  | InitDvP address address
  | InitSpend address

fun init_contract :: "deployment \<Rightarrow> address \<Rightarrow> address \<Rightarrow> contract_init \<Rightarrow> contracts \<Rightarrow> contracts" where
  "init_contract D sender a (InitToken domain) c = (if a = dp_token D then c\<lparr>co_token := token_new sender domain\<rparr> else c)"
| "init_contract D sender a (InitAsset reg) c = (if a = dp_asset D then c\<lparr>co_asset := asset_new sender reg\<rparr> else c)"
| "init_contract D sender a InitEligibility c =
     (if a = dp_eligibility D then c\<lparr>co_eligibility := eligibility_new sender\<rparr> else c)"
| "init_contract D sender a InitIdentity c = (if a = dp_identity D then c\<lparr>co_identity := identity_new\<rparr> else c)"
| "init_contract D sender a (InitDvP t s) c =
     (if a = dp_dvp D \<and> t = dp_token D \<and> s = dp_asset D then c\<lparr>co_dvp_address := a\<rparr> else c)"
| "init_contract D sender a (InitSpend t) c =
     (if a = dp_spend D \<and> t = dp_token D then c\<lparr>co_spend := spend_new, co_spend_address := a\<rparr> else c)"

definition bound_deploy ::
    "binding_env \<Rightarrow> (address \<Rightarrow> chain_world \<Rightarrow> address) \<Rightarrow> address \<Rightarrow> contract_init \<Rightarrow> chain_world \<Rightarrow>
     (tx_report \<times> address) \<times> chain_world" where
  "bound_deploy B created opts init w =
     (let a = created opts w in
      case submit (next_fate w) (Some (\<lambda>c. Inr (init_contract (be_at B) opts a init c))) (cw_contracts w) of
        (rep, c) \<Rightarrow> ((rep, a), w\<lparr>cw_contracts := c, cw_fates := tl (cw_fates w)\<rparr>))"

definition deploy_contract ::
    "operator_env \<Rightarrow> binding_env \<Rightarrow> (address \<Rightarrow> chain_world \<Rightarrow> address) \<Rightarrow> string \<Rightarrow> string \<Rightarrow> contract_init \<Rightarrow> chain_world \<Rightarrow>
     address result \<times> chain_world" where
  "deploy_contract O1 B created package waiting init w =
     (case oe_chain O1 of Inl e \<Rightarrow> (Inl e, w) | Inr _ \<Rightarrow> (case oe_key O1 of Inl e \<Rightarrow> (Inl e, w) | Inr key \<Rightarrow>
     (case bound_deploy B created (key_address (oe_geth O1) key) init w of
        ((SendError e, _), w1) \<Rightarrow> (Inl (package @ '': deploy: '' @ e), w1)
      | ((WaitError e, _), w1) \<Rightarrow> (Inl (waiting @ e), w1)
      | ((Receipt _, a), w1) \<Rightarrow> (Inr a, w1))))"

definition run_deploy where
  "run_deploy O1 B created domain = deploy_contract O1 B created ''token'' ''wait for deployment: '' (InitToken domain)"

definition run_deploy_registry where
  "run_deploy_registry O1 B created =
     deploy_contract O1 B created ''registry'' ''wait for registry deployment: '' InitIdentity"

definition run_deploy_eligibility where
  "run_deploy_eligibility O1 B created =
     deploy_contract O1 B created ''eligibility'' ''wait for deployment: '' InitEligibility"

definition run_deploy_asset ::
    "operator_env \<Rightarrow> binding_env \<Rightarrow> (address \<Rightarrow> chain_world \<Rightarrow> address) \<Rightarrow> string \<Rightarrow> chain_world \<Rightarrow> address result \<times> chain_world" where
  "run_deploy_asset O1 B created reg_flag w =
     (let G = oe_geth O1 in
      if reg_flag \<noteq> '''' \<and> \<not> is_hex_address G reg_flag then (Inl ''--registry must be a valid address'', w)
      else deploy_contract O1 B created ''asset'' ''wait for deployment: ''
        (InitAsset (if reg_flag = '''' then 0 else hex_to_address G reg_flag)) w)"

definition run_deploy_dvp ::
    "operator_env \<Rightarrow> binding_env \<Rightarrow> (address \<Rightarrow> chain_world \<Rightarrow> address) \<Rightarrow> string \<Rightarrow> string \<Rightarrow> chain_world \<Rightarrow>
     address result \<times> chain_world" where
  "run_deploy_dvp O1 B created token_flag asset_flag w =
     (let G = oe_geth O1 in
      case require_hex_address G ''token'' token_flag of Some e \<Rightarrow> (Inl e, w) | None \<Rightarrow>
     (case require_hex_address G ''asset'' asset_flag of Some e \<Rightarrow> (Inl e, w) | None \<Rightarrow>
      deploy_contract O1 B created ''dvp'' ''wait for deployment: ''
        (InitDvP (hex_to_address G token_flag) (hex_to_address G asset_flag)) w))"

definition run_deploy_spend ::
    "operator_env \<Rightarrow> binding_env \<Rightarrow> (address \<Rightarrow> chain_world \<Rightarrow> address) \<Rightarrow> string \<Rightarrow> chain_world \<Rightarrow> address result \<times> chain_world" where
  "run_deploy_spend O1 B created token_flag w =
     (let G = oe_geth O1 in
      case require_hex_address G ''token'' token_flag of Some e \<Rightarrow> (Inl e, w) | None \<Rightarrow>
      deploy_contract O1 B created ''spend'' ''wait for deployment: '' (InitSpend (hex_to_address G token_flag)) w)"

section \<open>Setting up: mint-asset, set-eligible, register\<close>

text \<open>What every such command does around its one transaction, whose receipt is not looked at.\<close>

definition send_and_wait ::
    "operator_env \<Rightarrow> string \<Rightarrow> string \<Rightarrow> (address \<Rightarrow> chain_world \<Rightarrow> tx_report \<times> chain_world) \<Rightarrow> chain_world \<Rightarrow>
     string option \<times> chain_world" where
  "send_and_wait O1 sending waiting tx w =
     (case oe_chain O1 of Inl e \<Rightarrow> (Some e, w) | Inr _ \<Rightarrow> (case oe_key O1 of Inl e \<Rightarrow> (Some e, w) | Inr key \<Rightarrow>
     (case tx (key_address (oe_geth O1) key) w of
        (SendError e, w1) \<Rightarrow> (Some (sending @ e), w1)
      | (WaitError e, w1) \<Rightarrow> (Some (waiting @ e), w1)
      | (Receipt _, w1) \<Rightarrow> (None, w1))))"

definition run_mint_asset ::
    "operator_env \<Rightarrow> binding_env \<Rightarrow> string \<Rightarrow> string \<Rightarrow> string \<Rightarrow> chain_world \<Rightarrow> string option \<times> chain_world" where
  "run_mint_asset O1 B asset_flag to_flag amount w =
     (let G = oe_geth O1 in
      case require_hex_address G ''asset'' asset_flag of Some e \<Rightarrow> (Some e, w) | None \<Rightarrow>
     (case require_hex_address G ''to'' to_flag of Some e \<Rightarrow> (Some e, w) | None \<Rightarrow>
     (case set_string10 amount of None \<Rightarrow> (Some ''invalid --amount'', w) | Some v \<Rightarrow>
      if v \<le> 0 then (Some ''invalid --amount'', w)
      else send_and_wait O1 ''mint asset: '' ''wait for mint: ''
        (\<lambda>me. asset_Mint B (hex_to_address G asset_flag) me (hex_to_address G to_flag) v) w)))"

definition run_set_eligible ::
    "operator_env \<Rightarrow> binding_env \<Rightarrow> string \<Rightarrow> string \<Rightarrow> bool \<Rightarrow> chain_world \<Rightarrow> string option \<times> chain_world" where
  "run_set_eligible O1 B reg_flag account_flag clear w =
     (let G = oe_geth O1 in
      case require_hex_address G ''registry'' reg_flag of Some e \<Rightarrow> (Some e, w) | None \<Rightarrow>
     (case require_hex_address G ''account'' account_flag of Some e \<Rightarrow> (Some e, w) | None \<Rightarrow>
      send_and_wait O1 ''setEligible: '' ''wait for setEligible: ''
        (\<lambda>me. eligibility_SetEligible B (hex_to_address G reg_flag) me (hex_to_address G account_flag) (\<not> clear)) w))"

definition run_register ::
    "operator_env \<Rightarrow> binding_env \<Rightarrow> string \<Rightarrow> string \<Rightarrow> chain_world \<Rightarrow> string option \<times> chain_world" where
  "run_register O1 B reg_flag url w =
     (let G = oe_geth O1 in
      if reg_flag = '''' \<or> \<not> is_hex_address G reg_flag then (Some ''--registry must be a valid address'', w)
      else if url = '''' then (Some ''--card is required'', w)
      else send_and_wait O1 ''submit register: '' ''await register: ''
        (\<lambda>me. registry_Register B (hex_to_address G reg_flag) me url) w)"

section \<open>Every binding reaches its function\<close>

definition apart :: "deployment \<Rightarrow> bool" where
  "apart D \<longleftrightarrow> distinct [dp_token D, dp_asset D, dp_eligibility D, dp_identity D, dp_spend D, dp_dvp D]"

lemma contract_entry_at:
  assumes "apart D"
  shows "contract_entry D (dp_token D) m vs = map_option TokenCall (token_entry m vs)"
    "contract_entry D (dp_asset D) m vs = asset_entry m vs" "contract_entry D (dp_spend D) m vs = spend_entry m vs"
    "contract_entry D (dp_eligibility D) m vs = eligibility_entry m vs"
    "contract_entry D (dp_identity D) m vs = identity_entry m vs" "contract_entry D (dp_dvp D) m vs = dvp_entry m vs"
  using assms by (auto simp: apart_def contract_entry_def)

lemma contract_view_at:
  assumes "apart D"
  shows "contract_view D c (dp_token D) m vs = token_view (co_token c) m vs"
    "contract_view D c (dp_asset D) m vs = asset_view (co_asset c) m vs"
    "contract_view D c (dp_spend D) m vs = spend_view (co_spend c) m vs"
    "contract_view D c (dp_eligibility D) m vs = eligibility_view (co_eligibility c) m vs"
    "contract_view D c (dp_identity D) m vs = identity_view (co_identity c) m vs"
  using assms by (auto simp: apart_def contract_view_def)

lemma auth_args_back:
  assumes "auth_in_range a"
  shows "auth_args (au_from a) to (nat (au_value a)) (nat (au_valid_after a)) (nat (au_valid_before a)) (au_nonce a) = a\<lparr>au_to := to\<rparr>"
  using assms by (simp add: auth_args_def auth_in_range_def u256_range_def)

lemmas send_defs = token_Mint_def token_Burn_def token_Transfer_def token_Approve_def token_SetFrozen_def token_SetAllowed_def
  token_SetAllowlistEnabled_def token_TransferWithAuthorization_def token_ReceiveWithAuthorization_def auth_call_args_def
  asset_Mint_def asset_Burn_def asset_Transfer_def asset_Approve_def asset_TransferFrom_def spend_Deposit_def spend_Withdraw_def
  spend_SetMandate_def spend_Revoke_def spend_Pay_def dvp_SettleAndDeliver_def eligibility_SetEligible_def
  eligibility_Delegate_def registry_Register_def

lemmas entry_defs = token_entry_def asset_entry_def spend_entry_def dvp_entry_def eligibility_entry_def identity_entry_def

definition deployed :: "deployment \<Rightarrow> address set" where
  "deployed D = {dp_token D, dp_asset D, dp_eligibility D, dp_identity D, dp_spend D, dp_dvp D}"

lemma no_contract_no_effect:
  assumes "h \<notin> deployed (be_at B)"
  shows "cw_contracts (snd (bound_transact B h me m args w)) = cw_contracts w"
proof -
  have n: "(case pack_args (ce_abi (be_chain B)) args of None \<Rightarrow> None | Some vs \<Rightarrow> contract_entry (be_at B) h m vs) = None"
    using assms by (auto simp: contract_entry_def deployed_def split: option.split)
  show ?thesis unfolding bound_transact_def n
    by (cases "next_fate w") (simp_all add: transact_def submit_def)
qed

lemma send_worlds:
  assumes "h \<notin> deployed (be_at B)"
  shows "\<forall>w'\<in>{snd (token_Mint B h me x n w), snd (token_Burn B h me x n w), snd (token_Transfer B h me x n w),
      snd (token_Approve B h me x n w), snd (token_SetFrozen B h me x f w), snd (token_SetAllowed B h me x f w),
      snd (token_SetAllowlistEnabled B h me f w), snd (token_TransferWithAuthorization B h me a v r s w),
      snd (token_ReceiveWithAuthorization B h me a v r s w), snd (asset_Mint B h me x n w), snd (asset_Burn B h me x n w),
      snd (asset_Transfer B h me x n w), snd (asset_Approve B h me x n w), snd (asset_TransferFrom B h me x y n w),
      snd (spend_Deposit B h me n w), snd (spend_Withdraw B h me n w),
      snd (spend_SetMandate B h me i x mx va vb b wd ps w), snd (spend_Revoke B h me i w), snd (spend_Pay B h me i x n w),
      snd (dvp_SettleAndDeliver B h me x n a v r s w), snd (eligibility_SetEligible B h me x f w),
      snd (eligibility_Delegate B h me x w), snd (registry_Register B h me url w)}. cw_contracts w' = cw_contracts w"
  by (simp add: send_defs no_contract_no_effect [OF assms])

text \<open>
  Every transacting binding is the transaction it names: with the contracts at their
  addresses and integers in the range of a uint256, the call the contract executes has the
  binding's arguments, each in its place and unchanged through packing and unpacking; and on
  a handle where none of the deployment's contracts stands it leaves all of them as they are.
\<close>

theorem bindings_reach_contracts:
  assumes "apart D" and "be_at B = D" and "be_chain B = C" and "abi_law (ce_abi C)" and "auth_in_range a"
    and "u256_range n" and "u256_range mx" and "u256_range va" and "u256_range vb" and "u256_range b" and "u256_range wd"
  shows "token_Mint B (dp_token D) me x n w = transact C me (Some (TokenCall (CallMint x (nat n)))) w \<and>
    token_Burn B (dp_token D) me x n w = transact C me (Some (TokenCall (CallBurn x (nat n)))) w \<and>
    token_Transfer B (dp_token D) me x n w = transact C me (Some (TokenCall (CallTransfer x (nat n)))) w \<and>
    token_Approve B (dp_token D) me x n w = transact C me (Some (TokenCall (CallApprove x (nat n)))) w \<and>
    token_SetFrozen B (dp_token D) me x f w = transact C me (Some (TokenCall (CallFreeze x f))) w \<and>
    token_SetAllowed B (dp_token D) me x f w = transact C me (Some (TokenCall (CallAllow x f))) w \<and>
    token_SetAllowlistEnabled B (dp_token D) me f w = transact C me (Some (TokenCall (CallAllowlist f))) w \<and>
    token_TransferWithAuthorization B (dp_token D) me a v r s w = transact C me (Some (TokenCall (CallTransferAuth a v r s))) w \<and>
    token_ReceiveWithAuthorization B (dp_token D) me a v r s w = transact C me (Some (TokenCall (CallReceiveAuth a v r s))) w \<and>
    asset_Mint B (dp_asset D) me x n w = transact C me (Some (AssetMint x (nat n))) w \<and>
    asset_Burn B (dp_asset D) me x n w = transact C me (Some (AssetBurn x (nat n))) w \<and>
    asset_Transfer B (dp_asset D) me x n w = transact C me (Some (AssetTransfer x (nat n))) w \<and>
    asset_Approve B (dp_asset D) me x n w = transact C me (Some (AssetApprove x (nat n))) w \<and>
    asset_TransferFrom B (dp_asset D) me x y n w = transact C me (Some (AssetTransferFrom x y (nat n))) w \<and>
    spend_Deposit B (dp_spend D) me n w = transact C me (Some (SpendDeposit (nat n))) w \<and>
    spend_Withdraw B (dp_spend D) me n w = transact C me (Some (SpendWithdraw (nat n))) w \<and>
    spend_SetMandate B (dp_spend D) me i x mx va vb b wd ps w = transact C me (Some (SpendSetMandate i
      \<lparr>mt_agent = x, mt_max_amount = nat mx, mt_valid_after = nat va, mt_valid_before = nat vb, mt_budget = nat b,
       mt_window = nat wd, mt_payees = ps\<rparr>)) w \<and>
    spend_Revoke B (dp_spend D) me i w = transact C me (Some (SpendRevoke i)) w \<and>
    spend_Pay B (dp_spend D) me i x n w = transact C me (Some (SpendPay i x (nat n))) w \<and>
    dvp_SettleAndDeliver B (dp_dvp D) me x n a v r s w =
      transact C me (Some (SettleAndDeliver x (nat n) (a\<lparr>au_to := 0\<rparr>) v r s)) w \<and>
    eligibility_SetEligible B (dp_eligibility D) me x f w = transact C me (Some (SetEligible x f)) w \<and>
    eligibility_Delegate B (dp_eligibility D) me x w = transact C me (Some (DelegateEligibility x)) w \<and>
    registry_Register B (dp_identity D) me url w = transact C me (Some (RegisterAgent url)) w \<and>
    (h \<notin> deployed D \<longrightarrow> (\<forall>w'\<in>{snd (token_Mint B h me x n w), snd (token_Burn B h me x n w), snd (token_Transfer B h me x n w),
      snd (token_Approve B h me x n w), snd (token_SetFrozen B h me x f w), snd (token_SetAllowed B h me x f w),
      snd (token_SetAllowlistEnabled B h me f w), snd (token_TransferWithAuthorization B h me a v r s w),
      snd (token_ReceiveWithAuthorization B h me a v r s w), snd (asset_Mint B h me x n w), snd (asset_Burn B h me x n w),
      snd (asset_Transfer B h me x n w), snd (asset_Approve B h me x n w), snd (asset_TransferFrom B h me x y n w),
      snd (spend_Deposit B h me n w), snd (spend_Withdraw B h me n w),
      snd (spend_SetMandate B h me i x mx va vb b wd ps w), snd (spend_Revoke B h me i w), snd (spend_Pay B h me i x n w),
      snd (dvp_SettleAndDeliver B h me x n a v r s w), snd (eligibility_SetEligible B h me x f w),
      snd (eligibility_Delegate B h me x w), snd (registry_Register B h me url w)}. cw_contracts w' = cw_contracts w))"
proof -
  have r: "u256_range (au_value a)" "u256_range (au_valid_after a)" "u256_range (au_valid_before a)"
    using assms(5) by (simp_all add: auth_in_range_def)
  have abi: "u256_range k \<Longrightarrow> ce_abi C k = Some (nat k)" for k using assms(4) by (simp add: abi_law_def)
  have self: "a\<lparr>au_to := au_to a\<rparr> = a" by simp
  note eqs = send_defs bound_transact_def contract_entry_at [OF assms(1)] entry_defs auth_args_back [OF assms(5)] assms(2,3)
    abi [OF r(1)] abi [OF r(2)] abi [OF r(3)] abi [OF assms(6)] abi [OF assms(7)] abi [OF assms(8)] abi [OF assms(9)]
    abi [OF assms(10)] abi [OF assms(11)]
  have "h \<notin> deployed (be_at B)" if "h \<notin> deployed D" using that assms(2) by simp
  note other = send_worlds [OF this]
  show ?thesis by (intro conjI impI; (rule other, assumption)?) (simp_all add: eqs)
qed

text \<open>The gateway calls the library's bindings in \<open>x402/delivery.go\<close> and the delegator's commands.\<close>

lemma deliver_by_binding:
  assumes "apart D" and "be_at B = D"
  shows "transact (be_chain B) seller (map_option (AssetTransfer payer) (ce_abi (be_chain B) amount)) w
      = asset_Transfer B (dp_asset D) seller payer amount w"
    and "transact (be_chain B) me (map_option (\<lambda>n. TokenCall (CallTransfer payer n)) (ce_abi (be_chain B) amount)) w
      = token_Transfer B (dp_token D) me payer amount w"
  using assms contract_entry_at [OF assms(1)]
  by (cases "ce_abi (be_chain B) amount"; simp add: asset_Transfer_def token_Transfer_def bound_transact_def entry_defs)+

lemma onchain_terms_by_binding:
  assumes "apart D" and "be_at B = D"
  shows "transact (be_chain B) me (map_option (SpendSetMandate (m_mandate_id m)) (onchain_terms (ce_abi (be_chain B)) m)) w
      = spend_SetMandate B (dp_spend D) me (m_mandate_id m) (m_agent m) (or_zero (m_max_amount_per_payment m))
          (or_zero (m_valid_after m)) (or_zero (m_valid_before m)) (or_zero (m_budget_amount m))
          (or_zero (m_budget_window_seconds m)) (m_allowed_payees m) w"
  using assms(2) contract_entry_at [OF assms(1)]
  by (simp add: spend_SetMandate_def bound_transact_def onchain_terms_def entry_defs split: option.split)

section \<open>Reads\<close>

lemmas read_defs = token_BalanceOf_def token_TotalSupply_def token_DomainSeparator_def token_AuthorizationState_def token_Issuer_def
  token_Frozen_def token_Allowed_def token_AllowlistEnabled_def asset_BalanceOf_def asset_TotalSupply_def asset_Issuer_def
  asset_Registry_def spend_Deposits_def spend_WindowSpent_def spend_MandateRevoked_def eligibility_IsEligible_def
  eligibility_DelegatedBy_def registry_IsRegistered_def registry_AgentCard_def

lemma reads_are_state:
  assumes "apart D" and "be_at B = D" and "be_lost B = None" and "c = cw_contracts w"
  shows "token_BalanceOf B (dp_token D) x w = Inr (int (tk_balance_of (co_token c) x))"
    "token_TotalSupply B (dp_token D) w = Inr (int (tk_total_supply (co_token c)))"
    "token_DomainSeparator B (dp_token D) w = Inr (tk_domain_separator (co_token c))"
    "token_AuthorizationState B (dp_token D) x i w = Inr (tk_authorization_state (co_token c) x i)"
    "token_Issuer B (dp_token D) w = Inr (tk_issuer (co_token c))"
    "token_Frozen B (dp_token D) x w = Inr (tk_frozen (co_token c) x)"
    "token_Allowed B (dp_token D) x w = Inr (tk_allowed (co_token c) x)"
    "token_AllowlistEnabled B (dp_token D) w = Inr (tk_allowlist_enabled (co_token c))"
    "asset_BalanceOf B (dp_asset D) x w = Inr (int (as_balance_of (co_asset c) x))"
    "asset_TotalSupply B (dp_asset D) w = Inr (int (as_total_supply (co_asset c)))"
    "asset_Issuer B (dp_asset D) w = Inr (as_issuer (co_asset c))"
    "asset_Registry B (dp_asset D) w = Inr (as_registry (co_asset c))"
    "spend_Deposits B (dp_spend D) x w = Inr (int (sp_deposits (co_spend c) x))"
    "spend_WindowSpent B (dp_spend D) i w = Inr (int (om_window_spent (sp_mandates (co_spend c) i)))"
    "spend_MandateRevoked B (dp_spend D) i w = Inr (om_revoked (sp_mandates (co_spend c) i))"
    "eligibility_IsEligible B (dp_eligibility D) w x = Inr (is_eligible (co_eligibility c) x)"
    "eligibility_DelegatedBy B (dp_eligibility D) x w = Inr (el_delegated_by (co_eligibility c) x)"
    "registry_IsRegistered B (dp_identity D) w x = Inr (id_registered (co_identity c) x)"
    "registry_AgentCard B (dp_identity D) x w = Inr (id_cards (co_identity c) x)"
  using assms(2-4) contract_view_at [OF assms(1)]
  by (simp_all add: read_defs bound_call_def token_view_def asset_view_def spend_view_def eligibility_view_def identity_view_def
      out_big_def out_bool_def out_address_def out_bytes32_def out_string_def and_then_def)

lemma reads_lost: "be_lost B = Some e \<Longrightarrow> eligibility_IsEligible B h w x = Inl e \<and> registry_IsRegistered B h w x = Inl e"
  by (simp add: eligibility_IsEligible_def registry_IsRegistered_def bound_call_def and_then_def)

section \<open>The registries the gateway asks\<close>

definition verified_as :: "geth \<Rightarrow> payment_context \<Rightarrow> address \<Rightarrow> bool" where
  "verified_as G pc x \<longleftrightarrow> (\<exists>v. pc_verification pc = Some v \<and> vr_payer v \<noteq> '''' \<and> hex_to_address G (vr_payer v) = x)"

lemma identity_decide_verified:
  "verified_as G pc x \<Longrightarrow> reg x = Inr True \<Longrightarrow> identity_decide G reg pc = approve"
  by (auto simp: verified_as_def identity_decide_def)

lemma eligibility_decide_verified:
  "verified_as G pc x \<Longrightarrow> reg x = Inr b \<Longrightarrow> eligibility_decide G reg pc =
     (if b then approve else reject ErrCodeNotEligible ''payer is not eligible to receive the asset'')"
  by (auto simp: verified_as_def eligibility_decide_def)

lemma send_and_wait_None:
  assumes "send_and_wait O1 s e tx w = (None, w')"
  obtains key b where "oe_key O1 = Inr key" "tx (key_address (oe_geth O1) key) w = (Receipt b, w')"
  using assms by (auto simp: send_and_wait_def split: sum.splits prod.splits tx_report.splits)

lemma transact_Receipt:
  assumes "transact E sender (Some f) w = (Receipt b, w')"
  shows "cw_contracts w' = (case contract_exec (ce_geth E) (ce_ec E) sender (cw_time w) f (cw_contracts w) of
    Inl _ \<Rightarrow> cw_contracts w | Inr c \<Rightarrow> c)"
  using assms by (auto simp: transact_def submit_def Let_def split: tx_fate.splits prod.splits)

lemma exec_identity:
  "contract_exec G ec c time call w = Inr w' \<Longrightarrow>
    co_identity w' = (case call of RegisterAgent u \<Rightarrow> identity_register c u (co_identity w) | _ \<Rightarrow> co_identity w)"
  by (cases call) (auto simp: map_sum_Inr split: prod.splits)

lemma exec_eligibility:
  "contract_exec G ec c time call w = Inr w' \<Longrightarrow> (\<forall>a b. call \<noteq> SetEligible a b) \<Longrightarrow> (\<forall>a. call \<noteq> DelegateEligibility a) \<Longrightarrow>
    co_eligibility w' = co_eligibility w"
  by (cases call) (auto simp: map_sum_Inr split: prod.splits)

text \<open>The card an agent shows after more transactions: the last one it registered.\<close>

fun last_card :: "address \<Rightarrow> string \<Rightarrow> contract_tx list \<Rightarrow> string" where
  "last_card a u [] = u"
| "last_card a u (tx # txs) =
     last_card a (case ct_call tx of RegisterAgent v \<Rightarrow> if ct_caller tx = a then v else u | _ \<Rightarrow> u) txs"

lemma registered_run:
  assumes "id_registered (co_identity c) a" and "id_cards (co_identity c) a = u"
  shows "id_registered (co_identity (run (contract_step G ec) c txs)) a \<and>
    id_cards (co_identity (run (contract_step G ec) c txs)) a = last_card a u txs"
  using assms
proof (induction txs arbitrary: c u)
  case (Cons tx txs)
  show ?case
  proof (cases "contract_exec G ec (ct_caller tx) (ct_time tx) (ct_call tx) c")
    case (Inl e)
    then have "\<forall>v. ct_call tx \<noteq> RegisterAgent v" by auto
    then have "last_card a u (tx # txs) = last_card a u txs" by (auto split: contract_call.split)
    then show ?thesis using Inl Cons by (simp add: contract_step_def)
  next
    case (Inr c')
    have "id_registered (co_identity c') a"
      "id_cards (co_identity c') a = (case ct_call tx of RegisterAgent v \<Rightarrow> if ct_caller tx = a then v else u | _ \<Rightarrow> u)"
      using exec_identity [OF Inr] Cons.prems by (auto simp: identity_register_def split: contract_call.splits)
    then show ?thesis using Inr Cons.IH by (simp add: contract_step_def)
  qed
qed simp

text \<open>
  An agent that ran \<open>agent register\<close> with success passes the gateway's identity policy,
  asked through the registry's binding, from then on: whatever transactions anyone sends
  afterwards, its payments are approved by the policy, and the card on record is the last one
  the agent itself registered.
\<close>

theorem registration_lasts:
  assumes "apart D" and "be_at B = D" and "be_lost B = None" and "run_register O1 B flag url w = (None, w1)"
    and "hex_to_address (oe_geth O1) flag = dp_identity D" and "oe_key O1 = Inr key"
    and "a = key_address (oe_geth O1) key" and "cw_contracts w2 = run (contract_step G ec) (cw_contracts w1) txs"
    and "verified_as G' pc a"
  shows "identity_decide G' (registry_IsRegistered B (dp_identity D) w2) pc = approve \<and>
    registry_AgentCard B (dp_identity D) a w2 = Inr (last_card a url txs)"
proof -
  have "send_and_wait O1 ''submit register: '' ''await register: '' (\<lambda>me. registry_Register B (dp_identity D) me url) w = (None, w1)"
    using assms(4,5) by (simp add: run_register_def Let_def split: if_splits)
  then obtain b where "registry_Register B (dp_identity D) a url w = (Receipt b, w1)"
    using assms(6,7) by (auto elim: send_and_wait_None)
  then have "transact (be_chain B) a (Some (RegisterAgent url)) w = (Receipt b, w1)"
    using assms(2) by (simp add: registry_Register_def bound_transact_def contract_entry_at(5) [OF assms(1)] identity_entry_def)
  from transact_Receipt [OF this] have "co_identity (cw_contracts w1) = identity_register a url (co_identity (cw_contracts w))"
    by simp
  then have "id_registered (co_identity (cw_contracts w2)) a \<and> id_cards (co_identity (cw_contracts w2)) a = last_card a url txs"
    unfolding assms(8) by (intro registered_run) (simp_all add: identity_register_def)
  then show ?thesis
    using assms(9) reads_are_state(18,19) [OF assms(1-3) refl] by (auto intro: identity_decide_verified)
qed

section \<open>Eligibility through a sponsor\<close>

lemma asset_barred:
  assumes "\<not> asset_allows elig s x"
  shows "asset_mint elig c to v s = Inr s' \<Longrightarrow> as_balance_of s' x \<le> as_balance_of s x \<and> as_registry s' = as_registry s"
    and "asset_burn c from v s = Inr s' \<Longrightarrow> as_balance_of s' x \<le> as_balance_of s x \<and> as_registry s' = as_registry s"
    and "asset_move elig from to v s = Inr s' \<Longrightarrow> as_balance_of s' x \<le> as_balance_of s x \<and> as_registry s' = as_registry s"
    and "asset_transfer elig c to v s = Inr s' \<Longrightarrow> as_balance_of s' x \<le> as_balance_of s x \<and> as_registry s' = as_registry s"
    and "asset_transfer_from elig c from to v s = Inr s' \<Longrightarrow> as_balance_of s' x \<le> as_balance_of s x \<and> as_registry s' = as_registry s"
proof -
  have move: "as_balance_of s' x \<le> as_balance_of s x \<and> as_registry s' = as_registry s"
    if "asset_move elig from to v t = Inr s'" and "as_balance_of t = as_balance_of s" and "as_registry t = as_registry s"
    for "from" to v t
    using that assms by (auto simp: asset_move_def asset_emit_def asset_allows_def credit_def debit_def Let_def split: if_splits)
  show "asset_mint elig c to v s = Inr s' \<Longrightarrow> as_balance_of s' x \<le> as_balance_of s x \<and> as_registry s' = as_registry s"
    using assms by (auto simp: asset_mint_def asset_emit_def asset_allows_def credit_def split: if_splits)
  show "asset_burn c from v s = Inr s' \<Longrightarrow> as_balance_of s' x \<le> as_balance_of s x \<and> as_registry s' = as_registry s"
    by (auto simp: asset_burn_def asset_emit_def debit_def split: if_splits)
  show "asset_move elig from to v s = Inr s' \<Longrightarrow> as_balance_of s' x \<le> as_balance_of s x \<and> as_registry s' = as_registry s"
    using move by blast
  show "asset_transfer elig c to v s = Inr s' \<Longrightarrow> as_balance_of s' x \<le> as_balance_of s x \<and> as_registry s' = as_registry s"
    using move by (simp add: asset_transfer_def)
  show "asset_transfer_from elig c from to v s = Inr s' \<Longrightarrow> as_balance_of s' x \<le> as_balance_of s x \<and> as_registry s' = as_registry s"
    using move by (auto simp: asset_transfer_from_def Let_def split: if_splits)
qed

definition barred :: "address \<Rightarrow> nat \<Rightarrow> contracts \<Rightarrow> bool" where
  "barred x k c \<longleftrightarrow> \<not> asset_allows (is_eligible (co_eligibility c)) (co_asset c) x \<and> as_balance_of (co_asset c) x \<le> k"

definition keeps_eligibility :: "contracts \<Rightarrow> contract_tx \<Rightarrow> bool" where
  "keeps_eligibility c tx \<longleftrightarrow> (case ct_call tx of SetEligible _ _ \<Rightarrow> False | DelegateEligibility _ \<Rightarrow> False | _ \<Rightarrow> True)"

lemma barred_exec:
  assumes "contract_exec G ec caller time call c = Inr c'" and "barred x k c"
    and "\<forall>a b. call \<noteq> SetEligible a b" and "\<forall>a. call \<noteq> DelegateEligibility a"
  shows "barred x k c'"
proof -
  let ?el = "is_eligible (co_eligibility c)"
  have "\<not> asset_allows ?el (co_asset c) x" using assms(2) by (simp add: barred_def)
  note b = asset_barred [OF this]
  have "as_balance_of (co_asset c') x \<le> as_balance_of (co_asset c) x \<and> as_registry (co_asset c') = as_registry (co_asset c)"
    using assms(1,3,4)
    by (cases call)
      (auto simp: map_sum_Inr asset_approve_def settle_and_deliver_def split: prod.splits sum.splits dest: b)
  then show ?thesis
    using assms(2) exec_eligibility [OF assms(1,3,4)] by (auto simp: barred_def asset_allows_def)
qed

interpretation bar: machine "contract_step G ec" keeps_eligibility "barred x k" for G ec x k
proof
  show "barred x k (contract_step G ec c tx)" if "barred x k c" and "keeps_eligibility c tx" for c tx
    using that barred_exec [of G ec "ct_caller tx" "ct_time tx" "ct_call tx" c _ x k]
    by (cases "contract_exec G ec (ct_caller tx) (ct_time tx) (ct_call tx) c")
      (auto simp: contract_step_def keeps_eligibility_def split: contract_call.splits)
qed

text \<open>
  C32. An agent's inherited eligibility follows its sponsor at once: after the registrar ran
  \<open>issuer set-eligible\<close> for the sponsor, the gateway's eligibility policy, asked through the
  binding, approves the agent's payments exactly when the command set the flag; and after
  \<open>--off\<close> no sequence of transactions raises the agent's holding of the asset, by delivery,
  by delivery versus payment or by minting, until eligibility is changed again.
\<close>

theorem eligibility_follows_sponsor:
  assumes "apart D" and "be_at B = D" and "be_lost B = None" and "run_set_eligible O1 B flag account clear w = (None, w1)"
    and "hex_to_address (oe_geth O1) flag = dp_eligibility D" and "oe_key O1 = Inr key"
    and "key_address (oe_geth O1) key = el_registrar (co_eligibility (cw_contracts w))"
    and "sponsor = hex_to_address (oe_geth O1) account" and "sponsor \<noteq> 0" and "sponsor \<noteq> agent"
    and "el_delegated_by (co_eligibility (cw_contracts w)) agent = sponsor"
    and "\<not> el_eligible (co_eligibility (cw_contracts w)) agent" and "as_registry (co_asset (cw_contracts w)) \<noteq> 0"
    and "verified_as G' pc agent"
  shows "eligibility_decide G' (eligibility_IsEligible B (dp_eligibility D) w1) pc =
      (if clear then reject ErrCodeNotEligible ''payer is not eligible to receive the asset'' else approve) \<and>
    (\<forall>txs. clear \<and> allowed (contract_step G ec) keeps_eligibility (cw_contracts w1) txs \<longrightarrow>
      as_balance_of (co_asset (run (contract_step G ec) (cw_contracts w1) txs)) agent
        \<le> as_balance_of (co_asset (cw_contracts w)) agent)"
proof -
  let ?me = "key_address (oe_geth O1) key"
  have "send_and_wait O1 ''setEligible: '' ''wait for setEligible: ''
      (\<lambda>me. eligibility_SetEligible B (dp_eligibility D) me sponsor (\<not> clear)) w = (None, w1)"
    using assms(4,5,8) by (simp add: run_set_eligible_def Let_def split: option.splits)
  then obtain b where "eligibility_SetEligible B (dp_eligibility D) ?me sponsor (\<not> clear) w = (Receipt b, w1)"
    using assms(6) by (auto elim: send_and_wait_None)
  then have "transact (be_chain B) ?me (Some (SetEligible sponsor (\<not> clear))) w = (Receipt b, w1)"
    using assms(2) by (simp add: eligibility_SetEligible_def bound_transact_def contract_entry_at(4) [OF assms(1)] eligibility_entry_def)
  from transact_Receipt [OF this] have w1: "cw_contracts w1 = (cw_contracts w)\<lparr>co_eligibility := (co_eligibility (cw_contracts w))
      \<lparr>el_eligible := (el_eligible (co_eligibility (cw_contracts w)))(sponsor := \<not> clear)\<rparr>\<rparr>"
    by (simp add: set_eligible_def assms(7))
  then have el: "is_eligible (co_eligibility (cw_contracts w1)) agent = (\<not> clear)"
    using assms(9-12) by (simp add: is_eligible_def Let_def)
  then have "barred agent (as_balance_of (co_asset (cw_contracts w)) agent) (cw_contracts w1)" if clear
    using that w1 assms(13) by (simp add: barred_def asset_allows_def)
  then have "\<forall>txs. clear \<and> allowed (contract_step G ec) keeps_eligibility (cw_contracts w1) txs \<longrightarrow>
      as_balance_of (co_asset (run (contract_step G ec) (cw_contracts w1) txs)) agent \<le> as_balance_of (co_asset (cw_contracts w)) agent"
    using bar.run_inv by (auto simp: barred_def)
  moreover have "eligibility_IsEligible B (dp_eligibility D) w1 agent = Inr (\<not> clear)"
    using reads_are_state(16) [OF assms(1-3) refl] el by simp
  ultimately show ?thesis using eligibility_decide_verified [OF assms(14)] by simp
qed

section \<open>Deployments\<close>

text \<open>A deployment that reports an address put the new contract there, owned by the issuer's key.\<close>

lemma deploy_contract_Inr:
  assumes "deploy_contract O1 B created p q init w = (Inr a, w')"
  obtains key where "oe_key O1 = Inr key" "a = created (key_address (oe_geth O1) key) w"
    "cw_contracts w' = init_contract (be_at B) (key_address (oe_geth O1) key) a init (cw_contracts w)"
  using assms
  by (auto simp: deploy_contract_def bound_deploy_def submit_def Let_def split: sum.splits prod.splits tx_report.splits tx_fate.splits)

lemma deployed_token_is_backed:
  assumes "run_deploy O1 B created domain w = (Inr a, w')" and "a = dp_token (be_at B)"
  shows "token_ok (co_token (cw_contracts w')) \<and> tk_total_supply (co_token (cw_contracts w')) = 0"
  using assms by (auto simp: run_deploy_def token_new_def token_ok_def sum_balances_def elim!: deploy_contract_Inr)

lemma deployed_spend_is_solvent:
  assumes "run_deploy_spend O1 B created flag w = (Inr a, w')" and "a = dp_spend (be_at B)"
    and "hex_to_address (oe_geth O1) flag = dp_token (be_at B)"
    and "tk_allowance (co_token (cw_contracts w)) a = (\<lambda>_. 0)" and "co_dvp_address (cw_contracts w) \<noteq> a"
  shows "solvent (cw_contracts w')"
  using assms
  by (auto simp: run_deploy_spend_def Let_def solvent_def spend_new_def split: option.splits elim!: deploy_contract_Inr)

section \<open>Witnesses\<close>

definition sample_binding :: binding_env where
  "sample_binding = \<lparr>be_chain = sample_chain_env, be_at = \<lparr>dp_token = 9, dp_asset = 20, dp_eligibility = 50,
     dp_identity = 21, dp_spend = 40, dp_dvp = 30\<rparr>, be_lost = None\<rparr>"

lemma sample_binding_sel [simp]:
  "apart (be_at sample_binding)" "be_chain sample_binding = sample_chain_env" "be_lost sample_binding = None"
  "dp_token (be_at sample_binding) = 9" "dp_spend (be_at sample_binding) = 40" "dp_eligibility (be_at sample_binding) = 50"
  "dp_identity (be_at sample_binding) = 21"
  by (simp_all add: sample_binding_def apart_def)

theorem bindings_reach_contracts_witness:
  "token_Transfer sample_binding 9 1 3 60 (chain_at [Mined])
     = transact sample_chain_env 1 (Some (TokenCall (CallTransfer 3 60))) (chain_at [Mined]) \<and>
   spend_SetMandate sample_binding 40 1 7 2 80 0 5000 100 3600 [3] (chain_at [Mined])
     = transact sample_chain_env 1 (Some (SpendSetMandate 7 \<lparr>mt_agent = 2, mt_max_amount = 80, mt_valid_after = 0,
         mt_valid_before = 5000, mt_budget = 100, mt_window = 3600, mt_payees = [3]\<rparr>)) (chain_at [Mined])"
proof -
  have r: "auth_in_range dvp_auth" "u256_range 60" "u256_range 80" "u256_range 0" "u256_range 5000" "u256_range 100" "u256_range 3600"
    by (simp_all add: auth_in_range_def dvp_auth_def u256_range_def)
  show ?thesis
    using bindings_reach_contracts [OF sample_binding_sel(1) refl sample_binding_sel(2) sample_chain_env_abi r(1-7)]
    by simp
qed

lemma sample_flag: "address_hex sample_geth a \<noteq> ''''" "is_hex_address sample_geth (address_hex sample_geth a)"
    "hex_to_address sample_geth (address_hex sample_geth a) = a" "require_hex_address sample_geth n (address_hex sample_geth a) = None"
  using geth_textD(1,2) [OF sample_geth_text, of a] by (auto simp: require_hex_address_def sample_geth_def)

definition agent_context :: "address \<Rightarrow> payment_context" where
  "agent_context a = (sample_context ''60'')\<lparr>pc_verification := Some \<lparr>vr_is_valid = True, vr_invalid_reason = '''',
     vr_payer = address_hex sample_geth a\<rparr>\<rparr>"

lemma agent_context_verified: "verified_as sample_geth (agent_context a) a"
  by (simp add: verified_as_def agent_context_def sample_flag)

theorem registration_lasts_witness:
  "\<exists>w1 w2. run_register (sample_operator 2) sample_binding (address_hex sample_geth 21) ''card'' (chain_at [Mined]) = (None, w1) \<and>
     identity_decide sample_geth (registry_IsRegistered sample_binding 21 w2) (agent_context 2) = approve \<and>
     registry_AgentCard sample_binding 21 2 w2 = Inr ''new''"
proof -
  let ?txs = "[\<lparr>ct_caller = 3, ct_time = 1000, ct_call = RegisterAgent ''x''\<rparr>, \<lparr>ct_caller = 2, ct_time = 1001, ct_call = RegisterAgent ''new''\<rparr>]"
  obtain w1 where r: "run_register (sample_operator 2) sample_binding (address_hex sample_geth 21) ''card'' (chain_at [Mined]) = (None, w1)"
    by (simp add: run_register_def Let_def sample_flag send_and_wait_def registry_Register_def bound_transact_def transact_def
        next_fate_def submit_def chain_at_def contract_entry_at(5) [OF sample_binding_sel(1), simplified] identity_entry_def)
  let ?w2 = "w1\<lparr>cw_contracts := run (contract_step sample_geth (\<lambda>_ _ _ _. 2)) (cw_contracts w1) ?txs\<rparr>"
  have "identity_decide sample_geth (registry_IsRegistered sample_binding 21 ?w2) (agent_context 2) = approve \<and>
      registry_AgentCard sample_binding 21 2 ?w2 = Inr (last_card 2 ''card'' ?txs)"
    using registration_lasts [OF sample_binding_sel(1) refl sample_binding_sel(3) r, of 2 2 ?w2 sample_geth "\<lambda>_ _ _ _. 2" ?txs
        sample_geth "agent_context 2"] sample_crypto(3) agent_context_verified by (simp add: sample_flag)
  then show ?thesis using r by auto
qed

definition sponsored :: contracts where
  "sponsored = sample_contracts\<lparr>co_eligibility := (co_eligibility sample_contracts)\<lparr>el_delegated_by := (\<lambda>_. 0)(5 := 2)\<rparr>\<rparr>"

theorem eligibility_follows_sponsor_witness:
  "\<exists>w1. run_set_eligible (sample_operator 1) sample_binding (address_hex sample_geth 50) (address_hex sample_geth 2) True
       ((chain_at [Mined])\<lparr>cw_contracts := sponsored\<rparr>) = (None, w1) \<and>
     d_action (eligibility_decide sample_geth (eligibility_IsEligible sample_binding 50 w1) (agent_context 5)) = ActionReject \<and>
     as_balance_of (co_asset (contract_step sample_geth (\<lambda>_ _ _ _. 2) (cw_contracts w1)
       \<lparr>ct_caller = 3, ct_time = 1000, ct_call = AssetTransfer 5 4\<rparr>)) 5 = 0"
proof -
  let ?w = "(chain_at [Mined])\<lparr>cw_contracts := sponsored\<rparr>"
  let ?tx = "\<lparr>ct_caller = 3, ct_time = 1000, ct_call = AssetTransfer 5 4\<rparr>"
  obtain w1 where r: "run_set_eligible (sample_operator 1) sample_binding (address_hex sample_geth 50) (address_hex sample_geth 2) True ?w
      = (None, w1)"
    by (simp add: run_set_eligible_def Let_def sample_flag send_and_wait_def eligibility_SetEligible_def bound_transact_def transact_def
        next_fate_def submit_def chain_at_def contract_entry_at(4) [OF sample_binding_sel(1), simplified] eligibility_entry_def)
  have s: "key_address sample_geth 1 = el_registrar (co_eligibility sponsored)" "el_delegated_by (co_eligibility sponsored) 5 = 2"
    "\<not> el_eligible (co_eligibility sponsored) 5" "as_registry (co_asset sponsored) \<noteq> 0" "as_balance_of (co_asset sponsored) 5 = 0"
    using sample_crypto(2) by (simp_all add: sponsored_def sample_contracts_def eligibility_new_def asset_new_def)
  have a: "allowed (contract_step sample_geth (\<lambda>_ _ _ _. 2)) keeps_eligibility (cw_contracts w1) [?tx]"
    by (simp add: keeps_eligibility_def)
  have "eligibility_decide sample_geth (eligibility_IsEligible sample_binding 50 w1) (agent_context 5) =
      reject ErrCodeNotEligible ''payer is not eligible to receive the asset'' \<and>
    as_balance_of (co_asset (run (contract_step sample_geth (\<lambda>_ _ _ _. 2)) (cw_contracts w1) [?tx])) 5 \<le> 0"
    using eligibility_follows_sponsor [OF sample_binding_sel(1) refl sample_binding_sel(3) r, of 1 2 5 sample_geth "agent_context 5"
        sample_geth "\<lambda>_ _ _ _. 2"] s a agent_context_verified by (fastforce simp: sample_flag)
  then show ?thesis using r by (auto simp: reject_def)
qed

end
