(* ===== verification/Profile.thy ===== *)
theory Profile
  imports Operators Contracts
begin

text \<open>
  The chain profiler (\<open>cmd/chainprofile\<close>): it records the blocks of a range and samples the
  head to see which blocks were replaced. Block numbers are uint64, so they are 64-bit words
  and the loops \<open>for n := low; n <= high; n++\<close> run over words: such a loop does not end by
  itself when \<open>high\<close> is the largest word, because \<open>n\<close> wraps around to 0. The loops are
  therefore partial functions, \<open>None\<close> being a run that does not return.

  Theorems: when the profiler returns, and that what it returns is the range asked for; the
  rewinds reported are exactly the replaced blocks among those two samples both saw.
\<close>

section \<open>profile.go: data\<close>

type_synonym uint64 = "64 word"

record trace_block =
  tb_number :: uint64
  tb_time :: uint64
  tb_hash :: string

record trace_rewind =
  tr_at_block :: uint64
  tr_depth :: int

record chain_trace_file =
  ct_from :: uint64
  ct_to :: uint64
  ct_depths :: "int list"
  ct_blocks :: "trace_block list"
  ct_rewinds :: "trace_rewind list"

record head_sample =
  sn_head :: uint64
  sn_hashes :: "uint64 \<rightharpoonup> bytes32"

text \<open>The node at one moment: its head, and of each header the time and the hash.\<close>

record node_view =
  nv_head :: "uint64 result"
  nv_header :: "uint64 \<Rightarrow> (uint64 \<times> bytes32) result"

section \<open>The loop over blocks\<close>

partial_function (option) each_block ::
    "(uint64 \<Rightarrow> 'a \<Rightarrow> 'a result) \<Rightarrow> uint64 \<Rightarrow> uint64 \<Rightarrow> 'a \<Rightarrow> 'a result option" where
  "each_block body n high acc =
     (if n \<le> high then
        (case body n acc of Inl e \<Rightarrow> Some (Inl e) | Inr acc' \<Rightarrow> each_block body (n + 1) high acc')
      else Some (Inr acc))"

section \<open>main.go, profile.go: functions\<close>

definition record_blocks ::
    "geth \<Rightarrow> (uint64 \<Rightarrow> (uint64 \<times> bytes32) result) \<Rightarrow> uint64 \<Rightarrow> uint64 \<Rightarrow> trace_block list result option" where
  "record_blocks G header from last_block = each_block
     (\<lambda>n bs. case header n of
        Inl e \<Rightarrow> Inl (''header: '' @ e)
      | Inr (t, h) \<Rightarrow> Inr (bs @ [\<lparr>tb_number = n, tb_time = t, tb_hash = hash_hex G h\<rparr>])) from last_block []"

definition low_block :: "uint64 \<Rightarrow> int \<Rightarrow> uint64" where
  "low_block head deepest = (if word_of_int deepest < head then head - word_of_int deepest else 0)"

definition snapshot_at ::
    "(uint64 \<Rightarrow> (uint64 \<times> bytes32) result) \<Rightarrow> uint64 \<Rightarrow> int \<Rightarrow> head_sample result option" where
  "snapshot_at header head deepest = map_option (map_sum id (\<lambda>hs. \<lparr>sn_head = head, sn_hashes = hs\<rparr>))
     (each_block (\<lambda>n hs. case header n of Inl e \<Rightarrow> Inl e | Inr (t, h) \<Rightarrow> Inr (hs(n \<mapsto> h))) (low_block head deepest) head Map.empty)"

definition max_depth :: "int list \<Rightarrow> int" where
  "max_depth ds = fold (\<lambda>d m. if d > m then d else m) ds 0"

definition rewind_between :: "head_sample \<Rightarrow> head_sample \<Rightarrow> int \<Rightarrow> trace_rewind list" where
  "rewind_between prev cur d =
     (if word_of_int d > sn_head cur then []
      else (let n = sn_head cur - word_of_int d in
        case (sn_hashes prev n, sn_hashes cur n) of
          (Some ph, Some ch) \<Rightarrow> if ph \<noteq> ch then [\<lparr>tr_at_block = n, tr_depth = d\<rparr>] else []
        | _ \<Rightarrow> []))"

fun detect_rewinds :: "head_sample list \<Rightarrow> int list \<Rightarrow> trace_rewind list" where
  "detect_rewinds (prev # cur # snaps) ds =
     concat (map (rewind_between prev cur) ds) @ detect_rewinds (cur # snaps) ds"
| "detect_rewinds _ ds = []"

text \<open>\<open>strconv.Atoi\<close>: a signed decimal in the range of an int64.\<close>

definition atoi :: "string \<Rightarrow> int option" where
  "atoi s = (case set_string10 s of Some v \<Rightarrow> if i64 v = v then Some v else None | None \<Rightarrow> None)"

fun parse_depth_list :: "string list \<Rightarrow> int list result" where
  "parse_depth_list [] = Inr []"
| "parse_depth_list (p # ps) =
     (case atoi (trim_space p) of
        None \<Rightarrow> Inl ''invalid depth''
      | Some d \<Rightarrow> if d \<le> 0 then Inl ''invalid depth''
          else (case parse_depth_list ps of Inl e \<Rightarrow> Inl e | Inr ds \<Rightarrow> Inr (d # ds)))"

definition parse_depths :: "string \<Rightarrow> int list result" where
  "parse_depths s = parse_depth_list (split_comma s)"

section \<open>main.go: run\<close>

text \<open>The samples, one view of the node for each.\<close>

fun take_samples :: "int \<Rightarrow> node_view list \<Rightarrow> head_sample list result option" where
  "take_samples deepest [] = Some (Inr [])"
| "take_samples deepest (v # vs) =
     (case nv_head v of
        Inl e \<Rightarrow> Some (Inl (''head sample: '' @ e))
      | Inr h \<Rightarrow> (case snapshot_at (nv_header v) h deepest of
          None \<Rightarrow> None
        | Some (Inl e) \<Rightarrow> Some (Inl e)
        | Some (Inr s) \<Rightarrow> map_option (map_sum id ((#) s)) (take_samples deepest vs)))"

text \<open>
  \<open>dialled\<close> is the node as the run finds it; the samples see it at later moments.
  \<open>write\<close> is the error of writing the trace.
\<close>

definition profile_run ::
    "geth \<Rightarrow> node_view result \<Rightarrow> node_view list \<Rightarrow> string option \<Rightarrow> uint64 \<Rightarrow> uint64 \<Rightarrow> string \<Rightarrow>
     chain_trace_file result option" where
  "profile_run G dialled views write from to depths_flag =
     (case parse_depths depths_flag of Inl e \<Rightarrow> Some (Inl e) | Inr ds \<Rightarrow>
     (case dialled of Inl e \<Rightarrow> Some (Inl e) | Inr v \<Rightarrow>
     (case nv_head v of Inl e \<Rightarrow> Some (Inl (''head: '' @ e)) | Inr head \<Rightarrow>
     (let last_block = (if to = 0 \<or> to > head then head else to) in
      case record_blocks G (nv_header v) from last_block of
        None \<Rightarrow> None
      | Some (Inl e) \<Rightarrow> Some (Inl e)
      | Some (Inr bs) \<Rightarrow>
         (case (if length views > 1 then take_samples (max_depth ds) views else Some (Inr [])) of
            None \<Rightarrow> None
          | Some (Inl e) \<Rightarrow> Some (Inl e)
          | Some (Inr snaps) \<Rightarrow>
             (case write of Some e \<Rightarrow> Some (Inl (''write trace: '' @ e)) | None \<Rightarrow>
              Some (Inr \<lparr>ct_from = from, ct_to = last_block, ct_depths = ds, ct_blocks = bs,
                ct_rewinds = detect_rewinds snaps ds\<rparr>)))))))"

section \<open>When the loop over blocks ends\<close>

text \<open>The loop as a recursion over the numbers it visits.\<close>

fun walk :: "('n \<Rightarrow> 'a \<Rightarrow> 'a result) \<Rightarrow> 'n list \<Rightarrow> 'a \<Rightarrow> 'a result" where
  "walk body [] acc = Inr acc"
| "walk body (n # ns) acc = (case body n acc of Inl e \<Rightarrow> Inl e | Inr acc' \<Rightarrow> walk body ns acc')"

definition numbers :: "uint64 \<Rightarrow> uint64 \<Rightarrow> uint64 list" where
  "numbers n high = map of_nat [unat n..<Suc (unat high)]"

lemma numbers_empty: "\<not> n \<le> high \<Longrightarrow> numbers n high = []"
  by (simp add: numbers_def word_le_nat_alt)

lemma numbers_step:
  assumes "n \<le> high" and "high \<noteq> -1"
  shows "numbers n high = n # numbers (n + 1) high"
proof -
  have "unat high \<noteq> 2 ^ 64 - 1"
  proof
    assume "unat high = 2 ^ 64 - 1"
    then show False
      using assms(2) word_unat_eq_iff [of high "-1"] by (simp add: unsigned_minus_1_eq_mask mask_eq_exp_minus_1)
  qed
  moreover have "unat high < 2 ^ 64" using unsigned_less [of high, where 'a = nat] by simp
  ultimately have "unat n + 1 < 2 ^ 64" using assms(1) unfolding word_le_nat_alt by linarith
  then have "unat (n + 1) = Suc (unat n)" by (simp add: unat_word_ariths)
  then show ?thesis
    using assms(1) by (auto simp: numbers_def word_le_nat_alt upt_conv_Cons word_unat_eq_iff)
qed

lemma mem_numbers: "m \<in> set (numbers n high) \<longleftrightarrow> n \<le> m \<and> m \<le> high"
proof
  assume "m \<in> set (numbers n high)"
  then obtain k where k: "m = of_nat k" "unat n \<le> k" "k \<le> unat high" by (auto simp: numbers_def)
  then have "unat m = k" using unsigned_less [of high, where 'a = nat] by (simp add: unsigned_of_nat take_bit_nat_eq_self)
  then show "n \<le> m \<and> m \<le> high" using k by (simp add: word_le_nat_alt)
next
  assume "n \<le> m \<and> m \<le> high"
  then have "unat m \<in> set [unat n..<Suc (unat high)]" by (auto simp: word_le_nat_alt)
  then have "(of_nat (unat m) :: uint64) \<in> of_nat ` set [unat n..<Suc (unat high)]" by (rule imageI)
  then have "of_nat (unat m) \<in> set (numbers n high)" by (simp only: numbers_def set_map)
  then show "m \<in> set (numbers n high)" by simp
qed

lemma each_block_ends:
  assumes "high \<noteq> -1"
  shows "each_block body n high acc = Some (walk body (numbers n high) acc)"
proof (induction "numbers n high" arbitrary: n acc)
  case Nil
  then have "\<not> n \<le> high" using numbers_step assms by (metis list.distinct(1))
  then show ?case by (simp add: numbers_empty each_block.simps [of body n])
next
  case (Cons m ms)
  then have "n \<le> high" using numbers_empty by fastforce
  with Cons numbers_step [OF this assms] show ?case
    by (simp add: each_block.simps [of body n] split: sum.split)
qed

text \<open>
  Up to the largest word the loop goes round through all numbers: it ends only by an error,
  and it does end at the first one that fails.
\<close>

lemma each_block_result:
  assumes "each_block body n high acc = Some r"
  shows "high = -1 \<Longrightarrow> isl r \<and> (\<exists>m a. isl (body m a))"
proof (rule each_block.raw_induct [where P = "\<lambda>body n high acc r. high = -1 \<longrightarrow> isl r \<and> (\<exists>m a. isl (body m a))", THEN mp, OF _ assms])
  fix f :: "(uint64 \<Rightarrow> 'a \<Rightarrow> 'a result) \<Rightarrow> uint64 \<Rightarrow> uint64 \<Rightarrow> 'a \<Rightarrow> 'a result option"
  fix body n high acc r
  assume IH: "\<And>body n high acc r. f body n high acc = Some r \<Longrightarrow> high = -1 \<longrightarrow> isl r \<and> (\<exists>m a. isl (body m a))"
    and eq: "(if n \<le> high then case body n acc of Inl e \<Rightarrow> Some (Inl e) | Inr acc' \<Rightarrow> f body (n + 1) high acc'
      else Some (Inr acc)) = Some r"
  show "high = -1 \<longrightarrow> isl r \<and> (\<exists>m a. isl (body m a))"
  proof
    assume top: "high = -1"
    then have "(case body n acc of Inl e \<Rightarrow> Some (Inl e) | Inr acc' \<Rightarrow> f body (n + 1) high acc') = Some r" using eq by simp
    moreover have "isl (body n acc) \<Longrightarrow> \<exists>m a. isl (body m a)" by blast
    ultimately show "isl r \<and> (\<exists>m a. isl (body m a))"
      using IH top by (cases "body n acc") (simp, metis sum.disc(1), simp)
  qed
qed

lemma each_block_fails:
  assumes "\<And>a. isl (body m a)"
  shows "each_block body n (-1) acc \<noteq> None"
proof (induction "unat (m - n)" arbitrary: n acc)
  case 0
  then have "n = m" by (simp add: unat_eq_0)
  then show ?case using assms [of acc] by (auto simp: each_block.simps [of body m] split: sum.split)
next
  case (Suc k)
  then have "m - n \<noteq> 0" by auto
  then have "unat (m - (n + 1)) = k" using Suc.hyps(2) unat_minus_one [of "m - n"] by (simp add: algebra_simps)
  then show ?case using Suc.hyps(1) by (simp add: each_block.simps [of body n] split: sum.split)
qed

text \<open>When the loop does not return, for a body whose failing depends on the number alone.\<close>

lemma each_block_None:
  assumes "\<And>n a. isl (body n a) = bad n"
  shows "each_block body n high acc = None \<longleftrightarrow> high = -1 \<and> (\<forall>m. \<not> bad m)"
proof (cases "high = -1")
  case True
  then show ?thesis
    using each_block_result [of body n high acc] each_block_fails [of body _ n acc] assms by (metis option.exhaust)
qed (simp add: each_block_ends)

lemma walk_fails:
  assumes "\<And>n acc. n \<in> set ns \<Longrightarrow> isl (body n acc) = bad n"
  shows "isl (walk body ns acc) \<longleftrightarrow> (\<exists>n\<in>set ns. bad n)"
  using assms
proof (induction ns arbitrary: acc)
  case (Cons m ms)
  have m: "isl (body m acc) = bad m" using Cons.prems by simp
  show ?case
  proof (cases "body m acc")
    case (Inr acc')
    then show ?thesis using m Cons.IH [of acc'] Cons.prems by simp
  qed (use m in simp)
qed simp

section \<open>What the profiler records\<close>

lemma walk_record:
  "walk (\<lambda>n bs. case header n of Inl e \<Rightarrow> Inl (''header: '' @ e)
      | Inr (t, h) \<Rightarrow> Inr (bs @ [\<lparr>tb_number = n, tb_time = t, tb_hash = hash_hex G h\<rparr>])) ns acc = Inr bs \<longleftrightarrow>
    (\<forall>n\<in>set ns. \<not> isl (header n)) \<and>
    bs = acc @ map (\<lambda>n. \<lparr>tb_number = n, tb_time = fst (projr (header n)), tb_hash = hash_hex G (snd (projr (header n)))\<rparr>) ns"
proof (induction ns arbitrary: acc)
  case (Cons n ns)
  then show ?case by (cases "header n") auto
qed auto

lemma walk_sample:
  "walk (\<lambda>n hs. case header n of Inl e \<Rightarrow> Inl e | Inr (t, h) \<Rightarrow> Inr (hs(n \<mapsto> h))) ns hs0 = Inr hs \<Longrightarrow>
    hs m = (if m \<in> set ns then Some (snd (projr (header m))) else hs0 m)"
proof (induction ns arbitrary: hs0)
  case (Cons n ns)
  then show ?case by (cases "header n") auto
qed auto

text \<open>
  Recording a range does not return exactly when the range runs up to the largest uint64
  and the node has every header: the counter wraps around to 0 and starts again. In every
  other case it returns: with the blocks of the range in order, each with its header's time
  and hash, or with an error when a header in the range is missing.
\<close>

lemma record_blocks_returns:
  "(record_blocks G header from last_block = None \<longleftrightarrow> last_block = -1 \<and> (\<forall>n. \<not> isl (header n))) \<and>
   (\<forall>bs. record_blocks G header from last_block = Some (Inr bs) \<longleftrightarrow> last_block \<noteq> -1 \<and>
      (\<forall>n\<in>set (numbers from last_block). \<not> isl (header n)) \<and>
      bs = map (\<lambda>n. \<lparr>tb_number = n, tb_time = fst (projr (header n)), tb_hash = hash_hex G (snd (projr (header n)))\<rparr>)
        (numbers from last_block))"
proof -
  let ?body = "\<lambda>n bs. case header n of Inl e \<Rightarrow> Inl (''header: '' @ e)
      | Inr (t, h) \<Rightarrow> Inr (bs @ [\<lparr>tb_number = n, tb_time = t, tb_hash = hash_hex G h\<rparr>])"
  have bad: "isl (?body n bs) = isl (header n)" for n bs by (auto split: sum.split)
  have "(record_blocks G header from last_block = Some (Inr bs)) = (last_block \<noteq> -1 \<and> walk ?body (numbers from last_block) [] = Inr bs)" for bs
    using each_block_result [of ?body "from" last_block "[]" "Inr bs"]
    by (cases "last_block = -1") (auto simp: record_blocks_def each_block_ends)
  then show ?thesis
    using each_block_None [of ?body "isl \<circ> header", of "from" last_block "[]"] bad by (simp add: record_blocks_def walk_record)
qed

section \<open>Which rewinds are reported\<close>

lemma snapshot_at_Inr:
  assumes "snapshot_at header head deepest = Some (Inr s)"
  shows "sn_head s = head \<and> head \<noteq> -1 \<and>
    sn_hashes s = (\<lambda>n. if low_block head deepest \<le> n \<and> n \<le> head then Some (snd (projr (header n))) else None)"
proof -
  let ?body = "\<lambda>n hs. case header n of Inl e \<Rightarrow> Inl e | Inr (t, h) \<Rightarrow> Inr (hs(n \<mapsto> h))"
  obtain hs where e: "each_block ?body (low_block head deepest) head Map.empty = Some (Inr hs)"
    and s: "s = \<lparr>sn_head = head, sn_hashes = hs\<rparr>"
    using assms by (auto simp: snapshot_at_def map_sum_Inr)
  have top: "head \<noteq> -1" using each_block_result [OF e] by auto
  then have "walk ?body (numbers (low_block head deepest) head) Map.empty = Inr hs" using e by (simp add: each_block_ends)
  then show ?thesis using s top walk_sample [of header _ Map.empty hs] by (auto simp: mem_numbers fun_eq_iff)
qed

lemma take_samples_Inr:
  assumes "take_samples deepest vs = Some (Inr snaps)"
  shows "list_all2 (\<lambda>v s. nv_head v = Inr (sn_head s) \<and> snapshot_at (nv_header v) (sn_head s) deepest = Some (Inr s)) vs snaps"
  using assms
proof (induction vs arbitrary: snaps)
  case (Cons v vs)
  then obtain h s ss where h: "nv_head v = Inr h" and s: "snapshot_at (nv_header v) h deepest = Some (Inr s)"
    and ss: "take_samples deepest vs = Some (Inr ss)" "snaps = s # ss"
    by (auto simp: map_sum_Inr split: sum.splits option.splits)
  then show ?case using Cons.IH [OF ss(1)] snapshot_at_Inr [OF s] by simp
qed simp

lemma mem_detect:
  "r \<in> set (detect_rewinds snaps ds) \<longleftrightarrow>
    (\<exists>i d. Suc i < length snaps \<and> d \<in> set ds \<and> r \<in> set (rewind_between (snaps ! i) (snaps ! Suc i) d))"
proof (induction snaps ds rule: detect_rewinds.induct)
  case (1 prev cur snaps ds)
  show ?case
  proof
    assume "r \<in> set (detect_rewinds (prev # cur # snaps) ds)"
    then consider d where "d \<in> set ds" "r \<in> set (rewind_between prev cur d)" | "r \<in> set (detect_rewinds (cur # snaps) ds)" by auto
    then show "\<exists>i d. Suc i < length (prev # cur # snaps) \<and> d \<in> set ds \<and>
        r \<in> set (rewind_between ((prev # cur # snaps) ! i) ((prev # cur # snaps) ! Suc i) d)"
    proof cases
      case 1
      then show ?thesis by (intro exI [of _ 0] exI [of _ d]) simp
    next
      case 2
      then obtain i d where "Suc i < length (cur # snaps)" "d \<in> set ds" "r \<in> set (rewind_between ((cur # snaps) ! i) ((cur # snaps) ! Suc i) d)"
        using "1.IH" by blast
      then show ?thesis by (intro exI [of _ "Suc i"] exI [of _ d]) simp
    qed
  next
    assume "\<exists>i d. Suc i < length (prev # cur # snaps) \<and> d \<in> set ds \<and>
        r \<in> set (rewind_between ((prev # cur # snaps) ! i) ((prev # cur # snaps) ! Suc i) d)"
    then obtain i d where i: "Suc i < length (prev # cur # snaps)" "d \<in> set ds"
      "r \<in> set (rewind_between ((prev # cur # snaps) ! i) ((prev # cur # snaps) ! Suc i) d)" by blast
    show "r \<in> set (detect_rewinds (prev # cur # snaps) ds)"
    proof (cases i)
      case 0
      then show ?thesis using i by auto
    next
      case (Suc j)
      then have "\<exists>i d. Suc i < length (cur # snaps) \<and> d \<in> set ds \<and> r \<in> set (rewind_between ((cur # snaps) ! i) ((cur # snaps) ! Suc i) d)"
        using i by (intro exI [of _ j] exI [of _ d]) simp
      then show ?thesis using "1.IH" by simp
    qed
  qed
qed auto

text \<open>The block \<open>n\<close> is among those a sample of view \<open>v\<close> reads.\<close>

definition sampled :: "int \<Rightarrow> node_view \<Rightarrow> uint64 \<Rightarrow> bool" where
  "sampled deepest v n \<longleftrightarrow> (\<exists>h. nv_head v = Inr h \<and> low_block h deepest \<le> n \<and> n \<le> h)"

lemma rewind_iff:
  assumes "take_samples deepest vs = Some (Inr snaps)"
  shows "\<lparr>tr_at_block = n, tr_depth = d\<rparr> \<in> set (detect_rewinds snaps ds) \<longleftrightarrow>
    d \<in> set ds \<and> (\<exists>i h. Suc i < length vs \<and> nv_head (vs ! Suc i) = Inr h \<and> word_of_int d \<le> h \<and> n = h - word_of_int d \<and>
      sampled deepest (vs ! i) n \<and> sampled deepest (vs ! Suc i) n \<and>
      snd (projr (nv_header (vs ! i) n)) \<noteq> snd (projr (nv_header (vs ! Suc i) n)))"
proof -
  note l = take_samples_Inr [OF assms]
  have len: "length vs = length snaps" using l by (rule list_all2_lengthD)
  have s: "nv_head (vs ! i) = Inr (sn_head (snaps ! i))"
    "sn_hashes (snaps ! i) = (\<lambda>n. if sampled deepest (vs ! i) n then Some (snd (projr (nv_header (vs ! i) n))) else None)"
    if "i < length vs" for i
    using list_all2_nthD [OF l that] snapshot_at_Inr [of "nv_header (vs ! i)" "sn_head (snaps ! i)" deepest "snaps ! i"]
    by (auto simp: sampled_def fun_eq_iff)
  have "\<lparr>tr_at_block = n, tr_depth = d\<rparr> \<in> set (rewind_between (snaps ! i) (snaps ! Suc i) d') \<longleftrightarrow>
      d' = d \<and> word_of_int d \<le> sn_head (snaps ! Suc i) \<and> n = sn_head (snaps ! Suc i) - word_of_int d \<and>
      sampled deepest (vs ! i) n \<and> sampled deepest (vs ! Suc i) n \<and>
      snd (projr (nv_header (vs ! i) n)) \<noteq> snd (projr (nv_header (vs ! Suc i) n))"
    if "Suc i < length vs" for i d'
    using s [of i] s [of "Suc i"] that by (auto simp: rewind_between_def Let_def split: if_splits)
  then show ?thesis using len s(1) by (auto simp: mem_detect)
qed

text \<open>
  The rewinds of a trace are exactly the blocks seen replaced: a rewind of block \<open>n\<close> at
  depth \<open>d\<close> is reported if and only if \<open>d\<close> is a configured depth, \<open>n\<close> lay \<open>d\<close> below the later
  head of two consecutive samples, both samples read block \<open>n\<close>, and the node gave it
  different hashes.
\<close>

theorem rewinds_are_the_replaced_blocks:
  assumes "take_samples deepest vs = Some (Inr snaps)"
  shows "\<lparr>tr_at_block = n, tr_depth = d\<rparr> \<in> set (detect_rewinds snaps ds) \<longleftrightarrow>
    d \<in> set ds \<and> (\<exists>i h. Suc i < length vs \<and> nv_head (vs ! Suc i) = Inr h \<and> word_of_int d \<le> h \<and> n = h - word_of_int d \<and>
      sampled deepest (vs ! i) n \<and> sampled deepest (vs ! Suc i) n \<and>
      snd (projr (nv_header (vs ! i) n)) \<noteq> snd (projr (nv_header (vs ! Suc i) n)))"
  by (rule rewind_iff [OF assms])

text \<open>A chain whose blocks stay what they are gives no rewinds.\<close>

lemma steady_chain_no_rewinds:
  assumes "take_samples deepest vs = Some (Inr snaps)" and "\<forall>v\<in>set vs. nv_header v = header"
  shows "detect_rewinds snaps ds = []"
proof -
  have "r \<notin> set (detect_rewinds snaps ds)" for r
    using rewind_iff [OF assms(1), of "tr_at_block r" "tr_depth r" ds] assms(2) by (cases r) (auto dest: nth_mem)
  then show ?thesis by (cases "detect_rewinds snaps ds") (auto simp: list.set_intros(1))
qed

section \<open>When the profiler returns\<close>

lemma snapshot_at_None:
  "snapshot_at header head deepest = None \<longleftrightarrow> head = -1 \<and> (\<forall>n. \<not> isl (header n))"
proof -
  have "isl (case header n of Inl e \<Rightarrow> Inl e | Inr (t, h) \<Rightarrow> Inr (hs(n \<mapsto> h))) = isl (header n)" for n and hs :: "uint64 \<rightharpoonup> bytes32"
    by (auto split: sum.split)
  then show ?thesis
    using each_block_None [of "\<lambda>n hs. case header n of Inl e \<Rightarrow> Inl e | Inr (t, h) \<Rightarrow> Inr (hs(n \<mapsto> h))" "isl \<circ> header"]
    by (simp add: snapshot_at_def)
qed

lemma take_samples_None:
  assumes "take_samples deepest vs = None"
  shows "\<exists>v\<in>set vs. nv_head v = Inr (-1) \<and> (\<forall>n. \<not> isl (nv_header v n))"
  using assms
proof (induction vs)
  case (Cons v vs)
  then obtain h where h: "nv_head v = Inr h" by (auto split: sum.splits)
  then consider "snapshot_at (nv_header v) h deepest = None" | "take_samples deepest vs = None"
    using Cons.prems by (auto split: option.splits sum.splits)
  then show ?case using Cons.IH h by cases (auto simp: snapshot_at_None)
qed simp

lemma profile_run_cases:
  assumes "dialled = Inr v" and "nv_head v = Inr head" and "parse_depths flag = Inr ds"
    and "lb = (if to = 0 \<or> to > head then head else to)"
  shows "profile_run G dialled views write from to flag = None \<Longrightarrow>
      record_blocks G (nv_header v) from lb = None \<or> take_samples (max_depth ds) views = None"
    and "profile_run G dialled views write from to flag = Some (Inr t) \<Longrightarrow>
      \<exists>bs snaps. record_blocks G (nv_header v) from lb = Some (Inr bs) \<and>
        t = \<lparr>ct_from = from, ct_to = lb, ct_depths = ds, ct_blocks = bs, ct_rewinds = detect_rewinds snaps ds\<rparr> \<and>
        (if length views > 1 then take_samples (max_depth ds) views = Some (Inr snaps) else snaps = [])"
proof -
  let ?samples = "if length views > 1 then take_samples (max_depth ds) views else Some (Inr [])"
  have run: "profile_run G dialled views write from to flag =
      (case record_blocks G (nv_header v) from lb of
        None \<Rightarrow> None
      | Some (Inl e) \<Rightarrow> Some (Inl e)
      | Some (Inr bs) \<Rightarrow> (case ?samples of
            None \<Rightarrow> None
          | Some (Inl e) \<Rightarrow> Some (Inl e)
          | Some (Inr snaps) \<Rightarrow> (case write of Some e \<Rightarrow> Some (Inl (''write trace: '' @ e)) | None \<Rightarrow>
              Some (Inr \<lparr>ct_from = from, ct_to = lb, ct_depths = ds, ct_blocks = bs, ct_rewinds = detect_rewinds snaps ds\<rparr>))))"
    by (simp add: profile_run_def assms(1-3) Let_def assms(4) [symmetric])
  show "profile_run G dialled views write from to flag = None \<Longrightarrow>
      record_blocks G (nv_header v) from lb = None \<or> take_samples (max_depth ds) views = None"
    unfolding run by (auto split: option.splits sum.splits if_splits)
  show "profile_run G dialled views write from to flag = Some (Inr t) \<Longrightarrow>
      \<exists>bs snaps. record_blocks G (nv_header v) from lb = Some (Inr bs) \<and>
        t = \<lparr>ct_from = from, ct_to = lb, ct_depths = ds, ct_blocks = bs, ct_rewinds = detect_rewinds snaps ds\<rparr> \<and>
        (if length views > 1 then take_samples (max_depth ds) views = Some (Inr snaps) else snaps = [])"
    unfolding run by (auto split: option.splits sum.splits if_splits)
qed

text \<open>
  C33. The profiler returns: the only run that does not is one that met a head at the largest
  uint64 on a node serving every header. What it returns is an error or the trace asked for:
  the configured depths, the blocks from \<open>--from\<close> to the last block (\<open>--to\<close>, but at most the
  head) one by one in order, and the rewinds between the samples taken down to the deepest
  depth.
\<close>

theorem profiler_returns:
  "(profile_run G dialled views write from to flag = None \<longrightarrow>
     (\<exists>v. (dialled = Inr v \<or> v \<in> set views) \<and> nv_head v = Inr (-1) \<and> (\<forall>n. \<not> isl (nv_header v n)))) \<and>
   (\<forall>t. profile_run G dialled views write from to flag = Some (Inr t) \<longrightarrow>
     (\<exists>v head ds snaps. dialled = Inr v \<and> nv_head v = Inr head \<and> parse_depths flag = Inr ds \<and>
        ct_from t = from \<and> ct_to t = (if to = 0 \<or> head < to then head else to) \<and> ct_depths t = ds \<and>
        map tb_number (ct_blocks t) = numbers from (ct_to t) \<and>
        (\<forall>b\<in>set (ct_blocks t). \<exists>h. nv_header v (tb_number b) = Inr (tb_time b, h) \<and> tb_hash b = hash_hex G h) \<and>
        ct_rewinds t = detect_rewinds snaps ds \<and>
        (if length views > 1 then take_samples (max_depth ds) views = Some (Inr snaps) else snaps = [])))"
proof (intro conjI impI allI)
  assume none: "profile_run G dialled views write from to flag = None"
  then obtain v head ds where v: "dialled = Inr v" "nv_head v = Inr head" "parse_depths flag = Inr ds"
    by (auto simp: profile_run_def Let_def split: sum.splits)
  define lb where "lb = (if to = 0 \<or> to > head then head else to)"
  note cases = profile_run_cases [OF v lb_def]
  consider "record_blocks G (nv_header v) from lb = None" | "take_samples (max_depth ds) views = None"
    using cases(1) [OF none] by auto
  then show "\<exists>v. (dialled = Inr v \<or> v \<in> set views) \<and> nv_head v = Inr (-1) \<and> (\<forall>n. \<not> isl (nv_header v n))"
  proof cases
    case 1
    then have "lb = -1" "\<forall>n. \<not> isl (nv_header v n)" using record_blocks_returns by blast+
    moreover have "lb \<le> head" by (simp add: lb_def not_less)
    ultimately show ?thesis using v by (metis word_order.extremum_unique)
  next
    case 2
    then show ?thesis using take_samples_None by blast
  qed
next
  fix t
  assume some: "profile_run G dialled views write from to flag = Some (Inr t)"
  then obtain v head ds where v: "dialled = Inr v" "nv_head v = Inr head" "parse_depths flag = Inr ds"
    by (auto simp: profile_run_def Let_def split: sum.splits)
  define lb where "lb = (if to = 0 \<or> to > head then head else to)"
  obtain bs snaps where bs: "record_blocks G (nv_header v) from lb = Some (Inr bs)"
    and t: "t = \<lparr>ct_from = from, ct_to = lb, ct_depths = ds, ct_blocks = bs, ct_rewinds = detect_rewinds snaps ds\<rparr>"
    and snaps: "if length views > 1 then take_samples (max_depth ds) views = Some (Inr snaps) else snaps = []"
    using profile_run_cases(2) [OF v lb_def some] by blast
  have ok: "\<forall>n\<in>set (numbers from lb). \<not> isl (nv_header v n)"
    and blocks: "bs = map (\<lambda>n. \<lparr>tb_number = n, tb_time = fst (projr (nv_header v n)), tb_hash = hash_hex G (snd (projr (nv_header v n)))\<rparr>)
      (numbers from lb)"
    using bs record_blocks_returns by blast+
  have "\<exists>h. nv_header v (tb_number b) = Inr (tb_time b, h) \<and> tb_hash b = hash_hex G h" if mem: "b \<in> set bs" for b
  proof -
    obtain n where n: "n \<in> set (numbers from lb)"
      and b: "b = \<lparr>tb_number = n, tb_time = fst (projr (nv_header v n)), tb_hash = hash_hex G (snd (projr (nv_header v n)))\<rparr>"
      using mem by (auto simp: blocks)
    then have "nv_header v n = Inr (projr (nv_header v n))" using ok by simp
    then show ?thesis by (simp add: b) (metis prod.collapse)
  qed
  then show "\<exists>v head ds snaps. dialled = Inr v \<and> nv_head v = Inr head \<and> parse_depths flag = Inr ds \<and>
        ct_from t = from \<and> ct_to t = (if to = 0 \<or> head < to then head else to) \<and> ct_depths t = ds \<and>
        map tb_number (ct_blocks t) = numbers from (ct_to t) \<and>
        (\<forall>b\<in>set (ct_blocks t). \<exists>h. nv_header v (tb_number b) = Inr (tb_time b, h) \<and> tb_hash b = hash_hex G h) \<and>
        ct_rewinds t = detect_rewinds snaps ds \<and>
        (if length views > 1 then take_samples (max_depth ds) views = Some (Inr snaps) else snaps = [])"
    using v snaps by (intro exI [of _ v] exI [of _ head] exI [of _ ds] exI [of _ snaps]) (simp add: t lb_def [symmetric], simp add: blocks o_def)
qed

section \<open>Witnesses\<close>

text \<open>Two looks at a node: the head went from 10 to 11 and block 8 was replaced.\<close>

definition first_look :: node_view where
  "first_look = \<lparr>nv_head = Inr 10, nv_header = (\<lambda>n. Inr (100, ucast n))\<rparr>"

definition second_look :: node_view where
  "second_look = \<lparr>nv_head = Inr 11, nv_header = (\<lambda>n. Inr (100, if n = 8 then 99 else ucast n))\<rparr>"

lemma take_samples_total:
  assumes "\<forall>v\<in>set vs. \<exists>h. nv_head v = Inr h \<and> h \<noteq> -1 \<and> (\<forall>n. \<not> isl (nv_header v n))"
  shows "\<exists>snaps. take_samples deepest vs = Some (Inr snaps)"
  using assms
proof (induction vs)
  case (Cons v vs)
  then obtain h where h: "nv_head v = Inr h" "h \<noteq> -1" "\<forall>n. \<not> isl (nv_header v n)" by auto
  let ?body = "\<lambda>n hs. case nv_header v n of Inl e \<Rightarrow> Inl e | Inr (t, h) \<Rightarrow> Inr (hs(n \<mapsto> h))"
  have "isl (?body n hs) = isl (nv_header v n)" for n and hs :: "uint64 \<rightharpoonup> bytes32" by (auto split: sum.split)
  then have "\<not> isl (walk ?body (numbers (low_block h deepest) h) Map.empty)"
    using walk_fails [of _ ?body "isl \<circ> nv_header v" Map.empty] h(3) by simp
  then obtain hs where "walk ?body (numbers (low_block h deepest) h) Map.empty = Inr hs"
    by (cases "walk ?body (numbers (low_block h deepest) h) Map.empty") auto
  then have "snapshot_at (nv_header v) h deepest = Some (Inr \<lparr>sn_head = h, sn_hashes = hs\<rparr>)"
    using h(2) by (simp add: snapshot_at_def each_block_ends)
  then show ?case using Cons h(1) by auto
qed simp

lemma looks_sampled: "\<exists>snaps. take_samples 6 [first_look, second_look] = Some (Inr snaps)"
  by (rule take_samples_total) (simp add: first_look_def second_look_def)

theorem rewinds_witness:
  "\<exists>snaps. take_samples 6 [first_look, second_look] = Some (Inr snaps) \<and>
     \<lparr>tr_at_block = 8, tr_depth = 3\<rparr> \<in> set (detect_rewinds snaps [1, 3, 6])"
proof -
  obtain snaps where s: "take_samples 6 [first_look, second_look] = Some (Inr snaps)" using looks_sampled by blast
  have "sampled 6 first_look 8" "sampled 6 second_look 8"
    by (simp_all add: sampled_def first_look_def second_look_def low_block_def)
  then have "\<lparr>tr_at_block = 8, tr_depth = 3\<rparr> \<in> set (detect_rewinds snaps [1, 3, 6])"
    using rewinds_are_the_replaced_blocks [OF s, of 8 3 "[1, 3, 6]"]
    by simp (simp add: first_look_def second_look_def)
  then show ?thesis using s by blast
qed

theorem profiler_returns_witness:
  "profile_run sample_geth (Inr first_look) [first_look, second_look] None 1 0 ''1,3,6'' \<noteq> None"
proof
  assume "profile_run sample_geth (Inr first_look) [first_look, second_look] None 1 0 ''1,3,6'' = None"
  then obtain v where "v = first_look \<or> v = second_look" "nv_head v = Inr (-1)"
    using profiler_returns [of sample_geth "Inr first_look" "[first_look, second_look]" None 1 0 "''1,3,6''", THEN conjunct1]
    by auto
  then show False by (auto simp: first_look_def second_look_def)
qed

end
