(* ===== verification/SimulationRuns.thy ===== *)
theory SimulationRuns
  imports Simulation GatewayRuns
begin

text \<open>
  What a simulation cannot get through a protected gateway: the modelled agent against the
  modelled middleware, every attempt, whatever the responder answers. An attack that redirects
  the payment fails because no mandate entitles it; one that inflates the price above the
  grant fails at the agent.
\<close>

section \<open>Redirected payments\<close>

text \<open>A gateway whose chain enforces mandates serves no payment that no mandate entitles.\<close>

definition unentitled :: "'w gateway_env \<Rightarrow> mandate_policy \<Rightarrow> payment_payload \<Rightarrow> payment_requirements \<Rightarrow> bool" where
  "unentitled E mp p reqs \<longleftrightarrow> (\<forall>pc st t m. pc_payload pc = p \<longrightarrow> pc_requirements pc = reqs \<longrightarrow> \<not> entitled (ge_geth E) t mp pc st m)"

lemma unentitled_refused:
  assumes "enforces E mp" and "unentitled E mp p reqs"
  shows "\<exists>f s'. verify_and_settle E (Decoded p) reqs s = (Inl f, s')"
proof -
  have dec: "d_action (fst (gateway_decide E pc s2)) = ActionReject" if "pc_payload pc = p" "pc_requirements pc = reqs" for s2 pc
    using enforced_refusal [OF assms(1), of s2 pc] assms(2) that by (auto simp: unentitled_def)
  show ?thesis
  proof (cases rule: verify_and_settle_cases [of E "Decoded p" reqs s])
    case (refused f s')
    then show ?thesis by blast
  next
    case (resumed p' df)
    then have p': "p' = p" by simp
    show ?thesis
    proof (cases rule: resume_cases [of E p reqs "fst (payload_nonce (ge_geth E) p)" df s])
      case (approved st s1)
      then show ?thesis using dec [of "resume_context E p reqs df st s"] by (simp add: resume_context_def)
    qed (use resumed(3) p' in auto)
  next
    case (approved p' vr w pc s1 s2)
    then show ?thesis using dec [of pc s1] by (simp add: fresh_context_def)
  next
    case (deferred p' vr w pc s1 s2)
    then show ?thesis using dec [of pc s1] by (simp add: fresh_context_def)
  qed
qed

lemma unentitled_answer:
  assumes "enforces E mp" and "unentitled E mp p (requirements E (''http://'' @ fst (route url) @ snd (route url)))"
    and "\<not> ge_sessions_enabled E"
  shows "\<exists>resp s'. gateway_server E route status body (paid_get url p) s = (Inr resp, s') \<and> hr_status resp = 402"
proof -
  let ?reqs = "requirements E (''http://'' @ fst (route url) @ snd (route url))"
  obtain f s' where v: "verify_and_settle E (Decoded p) ?reqs (count inc_request s) = (Inl f, s')"
    using unentitled_refused [OF assms(1,2)] by blast
  then show ?thesis
    using assms(3) v by (auto simp: gateway_server_def middleware_def paid_get_def plain_get_def Let_def write_requirements_def
        reply_response_def split: option.split)
qed

lemma first_answer:
  assumes "\<not> ge_sessions_enabled E"
  shows "\<exists>resp s'. gateway_server E route status body (plain_get url) s = (Inr resp, s') \<and> hr_status resp = 402 \<and>
    hr_body resp = Inr (body (PaymentRequired (the (hr_terms resp)))) \<and>
    (\<exists>t. hr_terms resp = Some t \<and> rqr_accepts t = [requirements E (''http://'' @ fst (route url) @ snd (route url))])"
  using assms by (auto simp: gateway_server_def middleware_def plain_get_def Let_def write_requirements_def reply_response_def)

lemma agent_get_mandate: "agent_get A url ag w = (out, ag', w') \<Longrightarrow> ag_mandate ag' = ag_mandate ag"
  by (auto simp: agent_get_def Let_def split: prod.splits sum.splits option.splits list.splits if_splits)

text \<open>The mandate an agent carries does not name the payee a gateway asks for.\<close>

definition wrong_payee :: "'w gateway_env \<Rightarrow> signed_mandate_json \<Rightarrow> bool" where
  "wrong_payee E sm \<longleftrightarrow> (\<exists>m. to_mandate (ge_geth E) (smj_mandate sm) = Inr m \<and> m_allowed_payees m \<noteq> [] \<and>
     ge_pay_to E \<notin> set (m_allowed_payees m))"

lemma wrong_payee_unentitled:
  assumes "geth_text (ge_geth E)" and "wrong_payee E sm" and "pp_mandate p = Some sm"
  shows "unentitled E mp p (requirements E resource)"
  using assms geth_textD(2) [OF assms(1), of "ge_pay_to E"]
  by (auto simp: unentitled_def wrong_payee_def entitled_def signed_mandate_in_def scope_allows_def requirements_def)

lemma agent_get_wrong_payee:
  assumes "geth_text (ge_geth E)" and "enforces E mp" and "\<not> ge_sessions_enabled E" and "wrong_payee E sm" and "ag_mandate ag = Some sm"
    and "agent_get (gateway_client E route status body) url ag s = (Inr res, ag', s')"
  shows "rs_status res = 402 \<and> (\<exists>p. ag_last_header ag' = Some p \<and> pp_mandate p = Some sm)"
proof -
  let ?A = "gateway_client E route status body" and ?reqs = "requirements E (''http://'' @ fst (route url) @ snd (route url))"
  obtain resp s1 t where first: "gateway_server E route status body (plain_get url) s = (Inr resp, s1)" "hr_status resp = 402"
      "hr_body resp = Inr (body (PaymentRequired (the (hr_terms resp))))" "hr_terms resp = Some t" "rqr_accepts t = [?reqs]"
    using first_answer [OF assms(3)] by metis
  obtain amount w2 header where b: "build_payment ?A ag ?reqs amount s1 = (Inr header, w2)"
      and sent: "send_payment ?A url header (Some amount) (Some ?reqs) w2 = (Inr res, s')"
      and ag': "ag_last_header ag' = Some header"
    using assms(6) first
    by (auto simp: agent_get_def read_body_def Let_def split: prod.splits sum.splits option.splits if_splits)
  from b have "pp_mandate header = Some sm" using assms(5) by (auto elim!: build_payment_Inr)
  then obtain resp2 s2 where "gateway_server E route status body (paid_get url header) w2 = (Inr resp2, s2)" "hr_status resp2 = 402"
    using unentitled_answer [OF assms(2) wrong_payee_unentitled [OF assms(1,4)] assms(3)] by metis
  then have "rs_status res = 402" using sent by (auto simp: send_payment_def build_result_def Let_def split: sum.splits)
  then show ?thesis using ag' \<open>pp_mandate header = Some sm\<close> by blast
qed

lemma agent_retry_wrong_payee:
  assumes "geth_text (ge_geth E)" and "enforces E mp" and "\<not> ge_sessions_enabled E" and "wrong_payee E sm"
    and "ag_last_header ag = Some p" and "pp_mandate p = Some sm"
    and "agent_retry (gateway_client E route status body) url ag s = (Inr res, s')"
  shows "rs_status res = 402"
proof -
  obtain resp s2 where "gateway_server E route status body (paid_get url p) s = (Inr resp, s2)" "hr_status resp = 402"
    using unentitled_answer [OF assms(2) wrong_payee_unentitled [OF assms(1,4,6)] assms(3)] by metis
  then show ?thesis using assms(5,7) by (auto simp: agent_retry_def send_payment_def build_result_def Let_def split: sum.splits)
qed

text \<open>The ways an attempt goes, after the agent's first request.\<close>

lemma attempt_cases:
  assumes "attempt R H item s = (ok, s')" and "agent_get (hn_serve H item) (hn_url H) (sm_agent s) (sm_world s) = (out, ag, w)"
  obtains (failed) "\<not> ok" "sm_agent s' = ag"
  | (paid) res where "out = Inr res" "rs_status res = 200" "sm_agent s' = ag"
  | (retried) res d x y where "out = Inr res" "agent_retry (hn_serve H item) (hn_url H) ag x = (d, y)"
      "ok \<longleftrightarrow> (\<exists>r. d = Inr r \<and> rs_status r = 200)" "sm_agent s' = ag"
  | (asked) res t where "out = Inr res" "confirm_and_retry R H item (rs_ask res) t = (ok, s')" "sm_agent t = ag"
proof (cases out)
  case (Inl e)
  then show ?thesis using assms by (intro failed) (auto simp: attempt_def Let_def)
next
  case (Inr res)
  consider "rs_status res = 200 \<and> rs_paid res"
    | "\<not> (rs_status res = 200 \<and> rs_paid res)" "rs_error_code res = ErrCodePaymentDeferred"
    | "\<not> (rs_status res = 200 \<and> rs_paid res)" "rs_error_code res = ErrCodeConfirmationRequired"
    | "\<not> (rs_status res = 200 \<and> rs_paid res)" "rs_error_code res \<noteq> ErrCodePaymentDeferred" "rs_error_code res \<noteq> ErrCodeConfirmationRequired"
    by blast
  then show ?thesis
  proof cases
    case 1
    then show ?thesis using assms Inr by (intro paid) (auto simp: attempt_def Let_def)
  next
    case 2
    show ?thesis
    proof (cases "delivery_rewound (hn_trace H) (sm_deferred s) (hn_confirm_depth H)")
      case True
      then show ?thesis using assms Inr 2 by (intro failed) (auto simp: attempt_def Let_def)
    next
      case False
      obtain d y where r: "agent_retry (hn_serve H item) (hn_url H) ag ((hn_commit H ^^ unat (hn_confirm_depth H)) w) = (d, y)"
        by fastforce
      show ?thesis by (rule retried [OF Inr r]) (use assms Inr 2 False r in \<open>auto simp: attempt_def Let_def split: sum.splits\<close>)
    qed
  next
    case 3
    then show ?thesis using assms Inr
      by (intro asked [of res "s\<lparr>sm_agent := ag, sm_world := w,
        sm_report := (sm_report s)\<lparr>sr_escalations := sr_escalations (sm_report s) + 1\<rparr>\<rparr>"]) (auto simp: attempt_def Let_def)
  next
    case 4
    then show ?thesis using assms Inr by (intro failed) (auto simp: attempt_def Let_def)
  qed
qed

text \<open>An attempt at such a gateway fails, deferred, confirmed by the responder or not.\<close>

lemma attempt_wrong_payee:
  assumes "geth_text (ge_geth E)" and "enforces E mp" and "\<not> ge_sessions_enabled E" and "wrong_payee E sm"
    and "hn_serve H item = gateway_client E route 200 body" and "ag_mandate (sm_agent s) = Some sm"
    and "attempt R H item s = (ok, s')"
  shows "\<not> ok"
proof -
  note never = agent_get_wrong_payee [OF assms(1-4)] agent_retry_wrong_payee [OF assms(1-4)]
  obtain out ag w where g: "agent_get (gateway_client E route 200 body) (hn_url H) (sm_agent s) (sm_world s) = (out, ag, w)"
    by (metis prod_cases3)
  have m: "ag_mandate ag = Some sm" using agent_get_mandate [OF g] assms(6) by simp
  have confirm: "\<not> k" if "confirm_and_retry R H item ask s1 = (k, s2)" and "ag_mandate (sm_agent s1) = Some sm"
    for k ask and s1 s2 :: "('a gateway, 'b) sim_state"
  proof
    assume k
    with that(1) obtain cj out2 ag2 w2 where r: "agent_get (gateway_client E route 200 body) (hn_url H)
        ((sm_agent s1)\<lparr>ag_confirmation := Some cj\<rparr>) (sm_world s1) = (out2, ag2, w2)" "paid_ok out2"
      by (auto simp: confirm_and_retry_def assms(5) Let_def split: option.splits prod.splits sum.splits if_splits)
    from r(2) obtain res where res: "out2 = Inr res" "rs_status res = 200" by (auto simp: paid_ok_def split: sum.splits)
    have "ag_mandate ((sm_agent s1)\<lparr>ag_confirmation := Some cj\<rparr>) = Some sm" using that(2) by simp
    from never(1) [OF this r(1) [unfolded res(1)]] res(2) show False by simp
  qed
  have first: "rs_status res = 402 \<and> (\<exists>p. ag_last_header ag = Some p \<and> pp_mandate p = Some sm)" if "out = Inr res" for res
    by (rule never(1) [OF assms(6)]) (use g that in simp)
  from assms(7) g [folded assms(5)] show ?thesis
  proof (cases rule: attempt_cases)
    case (retried res d x y)
    from first [OF retried(1)] obtain p where p: "ag_last_header ag = Some p" "pp_mandate p = Some sm" by blast
    have "rs_status r = 402" if "d = Inr r" for r
      by (rule never(2) [OF p]) (use retried(2) that assms(5) in simp)
    then show ?thesis using retried(3) by auto
  next
    case (asked res t)
    from confirm [OF asked(2)] m asked(3) show ?thesis by simp
  qed (use first in auto)
qed

text \<open>Nor does the agent pay what its grant refuses.\<close>

definition granted :: "grant_policy option \<Rightarrow> int \<Rightarrow> bool" where
  "granted gp amount \<longleftrightarrow> (case gp of Some (MaxAmountGrant (Some mx)) \<Rightarrow> amount \<le> mx | _ \<Rightarrow> True)"

lemma not_granted: "\<not> granted gp amount \<Longrightarrow> \<exists>mx. gp = Some (MaxAmountGrant (Some mx)) \<and> mx < amount"
  by (auto simp: granted_def split: option.splits grant_policy.splits)

lemma agent_get_over_grant:
  assumes "\<not> ge_sessions_enabled E" and "agent_grant ag = MaxAmountGrant (Some mx)" and "mx < ge_price E"
  shows "\<exists>e ag' s'. agent_get (gateway_client E route status body) url ag s = (Inl e, ag', s')"
proof -
  obtain resp s1 t where "gateway_server E route status body (plain_get url) s = (Inr resp, s1)" "hr_status resp = 402"
      "hr_body resp = Inr (body (PaymentRequired (the (hr_terms resp))))" "hr_terms resp = Some t"
      "rqr_accepts t = [requirements E (''http://'' @ fst (route url) @ snd (route url))]"
    using first_answer [OF assms(1)] by metis
  then show ?thesis using assms(2,3) by (simp add: agent_get_def read_body_def Let_def requirements_def)
qed

lemma attempt_over_grant:
  assumes "\<not> ge_sessions_enabled E" and "hn_serve H item = gateway_client E route 200 body"
    and "agent_grant (sm_agent s) = MaxAmountGrant (Some mx)" and "mx < ge_price E" and "attempt R H item s = (ok, s')"
  shows "\<not> ok"
proof -
  obtain e ag' w where "agent_get (gateway_client E route 200 body) (hn_url H) (sm_agent s) (sm_world s) = (Inl e, ag', w)"
    using agent_get_over_grant [OF assms(1,3,4)] by metis
  then show ?thesis using assms(2,5) by (simp add: attempt_def Let_def)
qed

text \<open>What the agent was given for the run stays with it.\<close>

lemma agent_get_grant: "agent_get A url ag w = (out, ag', w') \<Longrightarrow> ag_grant ag' = ag_grant ag"
  by (auto simp: agent_get_def Let_def split: prod.splits sum.splits option.splits list.splits if_splits)

lemma confirm_and_retry_agent:
  assumes "confirm_and_retry R H item ask s = (ok, s')"
  shows "ag_mandate (sm_agent s') = ag_mandate (sm_agent s) \<and> ag_grant (sm_agent s') = ag_grant (sm_agent s)"
  using assms
  by (auto simp: confirm_and_retry_def Let_def
      split: option.splits prod.splits sum.splits if_splits dest: agent_get_mandate agent_get_grant)

lemma attempt_agent:
  assumes "attempt R H item s = (ok, s')"
  shows "ag_mandate (sm_agent s') = ag_mandate (sm_agent s) \<and> ag_grant (sm_agent s') = ag_grant (sm_agent s)"
proof -
  obtain out ag w where g: "agent_get (hn_serve H item) (hn_url H) (sm_agent s) (sm_world s) = (out, ag, w)" by (metis prod_cases3)
  note kept = agent_get_mandate [OF g] agent_get_grant [OF g]
  from assms g show ?thesis
  proof (cases rule: attempt_cases)
    case (asked res t)
    then show ?thesis using confirm_and_retry_agent [OF asked(2)] kept by simp
  qed (use kept in simp_all)
qed

text \<open>
  The attacks that are not redirections and that the agent's grant lets through: nothing
  else can cost the delegator anything.
\<close>

definition exposed :: "grant_policy option \<Rightarrow> work_item \<Rightarrow> bool" where
  "exposed gp item \<longleftrightarrow> wi_kind item \<noteq> Benign \<and> \<not> wi_spoof_payee item \<and> granted gp (wi_served_amount item)"

definition contained :: "signed_mandate_json \<Rightarrow> grant_policy option \<Rightarrow> work_item list \<Rightarrow> ('w, 'r) sim_state \<Rightarrow> bool" where
  "contained sm gp xs s \<longleftrightarrow> ag_mandate (sm_agent s) = Some sm \<and> ag_grant (sm_agent s) = gp \<and>
     sr_attacks_settled (sm_report s) \<le> int (length (filter (exposed gp) xs)) \<and>
     sr_attack_loss (sm_report s) \<le> sum_list (map wi_loss (filter (exposed gp) xs))"

lemma sim_gateway_sel [simp]:
  "ge_geth (sim_gateway cfg E item) = ge_geth E" "\<not> ge_sessions_enabled (sim_gateway cfg E item)"
  "ge_price (sim_gateway cfg E item) = wi_served_amount item"
  "ge_pay_to (sim_gateway cfg E item) = (if wi_spoof_payee item then spoof_payee else ge_pay_to E)"
  "ge_policy (sim_gateway cfg E item) = (\<lambda>_. cf_accept cfg)"
  by (simp_all add: sim_gateway_def)

lemma sim_gateway_enforces:
  assumes "cf_accept cfg = Some (Chain (pre @ MandatePolicy mp # post))" and "\<forall>q\<in>set pre. checks_only q" and "mp_ref mp \<noteq> None"
  shows "enforces (sim_gateway cfg E item) mp"
  using assms by (auto simp: enforces_def)

lemma tried_attacks:
  assumes "tried H ok s s'"
  shows "sr_attacks_settled (sm_report s') = sr_attacks_settled (sm_report s)"
    and "sr_attack_loss (sm_report s') = sr_attack_loss (sm_report s)"
proof -
  obtain f e w where r: "sm_report s' = (sm_report s)\<lparr>sr_refused := sr_refused (sm_report s) + f,
      sr_escalations := sr_escalations (sm_report s) + e, sr_rewound_deliveries := sr_rewound_deliveries (sm_report s) + w\<rparr>"
    using assms unfolding tried_def by blast
  show "sr_attacks_settled (sm_report s') = sr_attacks_settled (sm_report s)" by (simp only: r) simp
  show "sr_attack_loss (sm_report s') = sr_attack_loss (sm_report s)" by (simp only: r) simp
qed

lemma contained_item:
  assumes "geth_text (ge_geth E)" and "cf_accept cfg = Some (Chain (pre @ MandatePolicy mp # post))"
    and "\<forall>q\<in>set pre. checks_only q" and "mp_ref mp \<noteq> None"
    and "wrong_payee (E\<lparr>ge_pay_to := spoof_payee\<rparr>) sm" and "contained sm gp xs s" and "0 \<le> wi_loss item"
  shows "contained sm gp (xs @ [item]) (run_item R (sim_harness cfg E route body url commit key chain) item s)"
proof -
  let ?H = "sim_harness cfg E route body url commit key chain" and ?E = "sim_gateway cfg E item"
  let ?s0 = "s\<lparr>sm_report := count_item item (sm_report s), sm_agent := (sm_agent s)\<lparr>ag_confirmation := None\<rparr>\<rparr>"
  obtain ok s1 where a: "attempt R ?H item ?s0 = (ok, s1)" by fastforce
  have serve: "hn_serve ?H item = gateway_client ?E route 200 body" by (simp add: sim_harness_def)
  have agent: "ag_mandate (sm_agent ?s0) = Some sm" "ag_grant (sm_agent ?s0) = gp"
    using assms(6) by (simp_all add: contained_def)
  have safe: "\<not> ok" if "wi_spoof_payee item"
  proof (rule attempt_wrong_payee [OF _ sim_gateway_enforces [OF assms(2-4)] _ _ serve agent(1) a])
    show "wrong_payee ?E sm" using assms(5) that by (simp add: wrong_payee_def)
  qed (use assms(1) in simp_all)
  have grant: "\<not> ok" if "\<not> granted gp (wi_served_amount item)"
  proof -
    from not_granted [OF that] obtain mx where mx: "gp = Some (MaxAmountGrant (Some mx))" "mx < wi_served_amount item" by blast
    then have "agent_grant (sm_agent ?s0) = MaxAmountGrant (Some mx)" using agent(2) by (simp add: agent_grant_def)
    from attempt_over_grant [OF _ serve this _ a] mx(2) show ?thesis by simp
  qed
  have exp: "exposed gp item" if "ok" "wi_kind item \<noteq> Benign"
    using safe grant that by (auto simp: exposed_def)
  have kept: "sr_attacks_settled (sm_report s1) = sr_attacks_settled (sm_report s)"
    "sr_attack_loss (sm_report s1) = sr_attack_loss (sm_report s)"
    using tried_attacks [OF attempt_tried [OF a]] by (simp_all add: count_item_def Let_def)
  have run: "run_item R ?H item s = (if ok then s1\<lparr>sm_report := count_settled item (sm_report s1)\<rparr> else s1)"
    using a by (simp add: run_item_def)
  have same: "ag_mandate (sm_agent s1) = Some sm" "ag_grant (sm_agent s1) = gp"
    using attempt_agent [OF a] agent by metis+
  have before: "sr_attacks_settled (sm_report s) \<le> int (length (filter (exposed gp) xs))"
    "sr_attack_loss (sm_report s) \<le> sum_list (map wi_loss (filter (exposed gp) xs))"
    using assms(6) by (simp_all add: contained_def)
  show ?thesis
  proof (cases "ok \<and> wi_kind item \<noteq> Benign")
    case True
    then show ?thesis using exp same before kept by (simp add: run contained_def count_settled_def Let_def)
  next
    case False
    then show ?thesis using same before kept assms(7) by (cases ok) (simp_all add: run contained_def count_settled_def Let_def)
  qed
qed

lemma contained_items:
  assumes "geth_text (ge_geth E)" and "cf_accept cfg = Some (Chain (pre @ MandatePolicy mp # post))"
    and "\<forall>q\<in>set pre. checks_only q" and "mp_ref mp \<noteq> None"
    and "wrong_payee (E\<lparr>ge_pay_to := spoof_payee\<rparr>) sm" and "contained sm gp xs s" and "\<forall>i\<in>set items. 0 \<le> wi_loss i"
  shows "contained sm gp (xs @ items) (run_items R (sim_harness cfg E route body url commit key chain) items s)"
  using assms(6,7)
proof (induction items arbitrary: xs s)
  case (Cons i items)
  from Cons.IH [OF contained_item [OF assms(1-5) Cons.prems(1)]] Cons.prems(2) show ?case by simp
qed simp

text \<open>
  What settles of a run with a mandate, a grant and a chain that enforces the mandate: at
  most the exposed attacks.
\<close>

lemma run_contained:
  assumes "geth_text (ge_geth E)" and "rng_law R" and "cf_accept cfg = Some (Chain (pre @ MandatePolicy mp # post))"
    and "\<forall>q\<in>set pre. checks_only q" and "mp_ref mp \<noteq> None"
    and "cf_mandate cfg = Some m" and "spoof_payee \<notin> set (m_allowed_payees m)" and "ge_pay_to E \<noteq> spoof_payee"
    and "sim_run R cfg E route body url commit key chain wal domain g = Inr rep"
  shows "let left_open = filter (exposed (cf_grant cfg)) (workload R (cf_seed cfg) (cf_payments cfg) (cf_attack_mix cfg)) in
    sr_attacks_settled rep \<le> int (length left_open) \<and> sr_attack_loss rep \<le> sum_list (map wi_loss left_open)"
proof -
  let ?items = "workload R (cf_seed cfg) (cf_payments cfg) (cf_attack_mix cfg)"
  let ?m = "m\<lparr>m_delegator := key_address (ge_geth E) key, m_agent := w_address wal,
     m_allowed_payees := (if m_allowed_payees m = [] then [ge_pay_to E] else m_allowed_payees m)\<rparr>"
  obtain ag sm where ag: "sim_agent (ge_geth E) key chain (ge_pay_to E) wal domain cfg = Inr ag"
      "ag_mandate ag = Some sm" "smj_mandate sm = mandate_to_json (ge_geth E) ?m" "ag_grant ag = cf_grant cfg"
    using assms(6,9) by (auto simp: sim_run_def sim_agent_def Let_def split: sum.splits)
  let ?s = "\<lparr>sm_agent = ag, sm_world = g, sm_responder = cf_responder cfg, sm_deferred = 0, sm_report = new_report (cf_label cfg)\<rparr>"
  have rep: "rep = sm_report (run_items R (sim_harness cfg E route body url commit key chain) ?items ?s)"
    using assms(9) ag(1) by (simp add: sim_run_def)
  have "wrong_payee (E\<lparr>ge_pay_to := spoof_payee\<rparr>) sm"
    using assms(7,8) by (simp add: wrong_payee_def ag(3) to_mandate_print [OF assms(1)] wire_normal_def)
  moreover have "contained sm (cf_grant cfg) [] ?s" by (simp add: contained_def ag(2,4) new_report_def)
  ultimately have "contained sm (cf_grant cfg) ?items (run_items R (sim_harness cfg E route body url commit key chain) ?items ?s)"
    using contained_items [OF assms(1,3-5), where xs = "[]" and items = ?items and s = ?s] workload_ok [OF assms(2)] by auto
  then show ?thesis by (simp add: rep contained_def Let_def)
qed

end
