(* ===== verification/SimCommand.thy ===== *)
theory SimCommand
  imports SimulationRuns
begin

text \<open>
  The replay of logged decisions (\<open>sim/replay.go\<close>) and the simulation command
  (\<open>cmd/sim/main.go\<close>): which policy combinations it runs over the workload, and which logged
  decisions it replays against which tables. Files are read through a record of functions.

  Theorems: a replay counts exactly what the other table would have decided on the payments
  the gateway logged; replaying the gateway's own table agrees everywhere; the command's
  protected combinations settle no redirected payment.
\<close>

section \<open>replay.go\<close>

record replay_report =
  rp_label :: string
  rp_decisions :: int
  rp_agreements :: int
  rp_now_approve :: int
  rp_now_rejected :: int
  rp_other_changes :: int
  rp_recorded_escalat :: int
  rp_new_escalations :: int

definition agreement_rate :: "replay_report \<Rightarrow> real" where
  "agreement_rate r = rate (rp_agreements r) (rp_decisions r)"

definition is_escalation :: "int \<Rightarrow> bool" where
  "is_escalation a \<longleftrightarrow> a = action_int ActionAsk \<or> a = action_int ActionDefer"

text \<open>
  \<open>Stage(d.Stage)\<close>: a policy only compares stages with the two later ones or with the first,
  so a logged stage outside the three counts as the nearest.
\<close>

definition stage_logged :: "int \<Rightarrow> stage" where
  "stage_logged n = (if n \<le> 0 then StagePreSettlement else if n = 1 then StageSubmitted else StageConfirmed)"

definition context_from_decision :: "decision_record \<Rightarrow> payment_context" where
  "context_from_decision d = \<lparr>
     pc_payload = \<lparr>pp_version = 0, pp_scheme = '''', pp_network = '''',
       pp_payload = \<lparr>ep_signature = '''', ep_authorization = \<lparr>aj_from = '''', aj_to = '''', aj_value = dr_amount d,
         aj_valid_after = '''', aj_valid_before = '''', aj_nonce = dr_nonce d\<rparr>, ep_nonce_seed = ''''\<rparr>,
       pp_mandate = None, pp_confirmation = None, pp_session = None\<rparr>,
     pc_requirements = \<lparr>pr_scheme = '''', pr_network = '''', pr_max_amount_required = dr_amount d, pr_resource = '''',
       pr_description = '''', pr_mime_type = '''', pr_pay_to = '''', pr_max_timeout_seconds = 0, pr_asset = '''', pr_extra = []\<rparr>,
     pc_verification = Some \<lparr>vr_is_valid = True, vr_invalid_reason = '''', vr_payer = ''''\<rparr>,
     pc_history = Some (no_history\<lparr>dh_asks := dr_asks_so_far d\<rparr>), pc_stage = stage_logged (dr_stage d),
     pc_risk_score = dr_risk_score d\<rparr>"

definition count_replayed :: "int \<Rightarrow> int \<Rightarrow> replay_report \<Rightarrow> replay_report" where
  "count_replayed recorded got rep =
     (let r1 = (if got = recorded then rep\<lparr>rp_agreements := rp_agreements rep + 1\<rparr>
                else if recorded \<noteq> action_int ActionApprove \<and> got = action_int ActionApprove then
                  rep\<lparr>rp_now_approve := rp_now_approve rep + 1\<rparr>
                else if recorded = action_int ActionApprove \<and> got \<noteq> action_int ActionApprove then
                  rep\<lparr>rp_now_rejected := rp_now_rejected rep + 1\<rparr>
                else rep\<lparr>rp_other_changes := rp_other_changes rep + 1\<rparr>);
          r2 = (if is_escalation recorded then r1\<lparr>rp_recorded_escalat := rp_recorded_escalat r1 + 1\<rparr> else r1) in
      if is_escalation got then r2\<lparr>rp_new_escalations := rp_new_escalations r2 + 1\<rparr> else r2)"

fun replay_from ::
    "geth \<Rightarrow> int \<Rightarrow> policy \<Rightarrow> decision_record list \<Rightarrow> policy_store \<Rightarrow> replay_report \<Rightarrow> replay_report" where
  "replay_from G t accept [] st rep = rep"
| "replay_from G t accept (d # ds) st rep =
     (let (got, st1) = decide G t accept (context_from_decision d) st in
      replay_from G t accept ds st1 (count_replayed (dr_action d) (action_int (d_action got)) rep))"

definition new_replay :: "string \<Rightarrow> decision_record list \<Rightarrow> replay_report" where
  "new_replay label recs = \<lparr>rp_label = label, rp_decisions = int (length recs), rp_agreements = 0, rp_now_approve = 0,
     rp_now_rejected = 0, rp_other_changes = 0, rp_recorded_escalat = 0, rp_new_escalations = 0\<rparr>"

definition replay :: "geth \<Rightarrow> int \<Rightarrow> string \<Rightarrow> decision_record list \<Rightarrow> policy \<Rightarrow> policy_store \<Rightarrow> replay_report" where
  "replay G t label recs accept st = replay_from G t accept recs st (new_replay label recs)"

section \<open>cmd/sim\<close>

text \<open>
  What the command reads: a file's bytes, and \<open>encoding/json\<close> on the bytes of a decision
  table and of a chain trace.
\<close>

record sim_files =
  fi_read :: "string \<Rightarrow> string result"
  fi_table :: "string \<Rightarrow> raw_table option"
  fi_trace :: "string \<Rightarrow> trace_rewind list result"
  fi_write :: "string \<Rightarrow> string option"

text \<open>\<open>sim.LoadChainTrace\<close>.\<close>

definition load_chain_trace :: "sim_files \<Rightarrow> string \<Rightarrow> trace_rewind list result" where
  "load_chain_trace F path =
     (case fi_read F path of
        Inl e \<Rightarrow> Inl (''sim: read chain trace: '' @ e)
      | Inr content \<Rightarrow> map_sum (\<lambda>e. ''sim: parse chain trace: '' @ e) id (fi_trace F content))"

record sim_options =
  op_seed :: int
  op_payments :: nat
  op_attack_mix :: real
  op_confirm_depth :: uint64
  op_responder_errors :: real
  op_responder_fatigue :: real
  op_accept_table :: string
  op_grant_table :: string
  op_compare :: "string list"
  op_chain_trace :: "trace_rewind list option"

text \<open>\<open>strings.Cut\<close> at a byte.\<close>

fun string_cut :: "char \<Rightarrow> string \<Rightarrow> string \<times> string \<times> bool" where
  "string_cut c [] = ([], [], False)"
| "string_cut c (x # xs) =
     (if x = c then ([], xs, True) else (let (a, b, ok) = string_cut c xs in (x # a, b, ok)))"

definition parse_compare :: "string \<Rightarrow> (string \<times> string \<times> string) result" where
  "parse_compare spec =
     (let (label, files, ok) = string_cut (CHR ''='') spec in
      if \<not> ok then Inl ''--compare must be label=accept.json:grant.json''
      else (let (accept, grant, ok2) = string_cut (CHR '':'') files in
        if \<not> ok2 then Inl ''--compare must be label=accept.json:grant.json''
        else Inr (label, accept, grant)))"

definition mandate_template :: mandate where
  "mandate_template = \<lparr>m_delegator = 0, m_agent = 0, m_max_amount_per_payment = Some 2000, m_allowed_payees = [],
     m_allowed_resources = [], m_valid_after = Some 0, m_valid_before = Some (2 ^ 40), m_budget_amount = Some 1000000000,
     m_budget_window_seconds = None, m_max_payments_per_window = None, m_rate_window_seconds = None,
     m_mandate_id = push_bit 248 0x44\<rparr>"

definition options_responder :: "'r rng \<Rightarrow> sim_options \<Rightarrow> 'r responder option" where
  "options_responder R op =
     (if op_responder_errors op = 0 \<and> op_responder_fatigue op = 0 then None
      else Some (new_responder R (op_seed op) (op_responder_errors op) 0 (op_responder_fatigue op)))"

definition options_base :: "'r rng \<Rightarrow> sim_options \<Rightarrow> string \<Rightarrow> 'r sim_config" where
  "options_base R op label = \<lparr>cf_label = label, cf_seed = op_seed op, cf_payments = op_payments op,
     cf_attack_mix = op_attack_mix op, cf_accept = None, cf_grant = None, cf_mandate = None,
     cf_confirm_depth = op_confirm_depth op, cf_responder = options_responder R op, cf_chain_trace = op_chain_trace op\<rparr>"

text \<open>The mandate policy of a combination, at its place in the run's store.\<close>

definition sim_mandate_policy :: "int \<Rightarrow> mandate_policy" where
  "sim_mandate_policy chain_id = fst (new_mandate_policy (Some chain_id) 0 (\<lambda>_. new_mp_state))"

definition load_accept_table :: "sim_files \<Rightarrow> string \<Rightarrow> decision_table result" where
  "load_accept_table F path =
     (case fi_read F path of
        Inl e \<Rightarrow> Inl (''read accept table: '' @ e)
      | Inr content \<Rightarrow> load_table_policy (fi_table F content))"

definition table_combo ::
    "'r rng \<Rightarrow> sim_files \<Rightarrow> int \<Rightarrow> sim_options \<Rightarrow> string \<Rightarrow> string \<Rightarrow> string \<Rightarrow> 'r sim_config result" where
  "table_combo R F chain_id op label accept_file grant_file =
     (case fi_read F accept_file of Inl e \<Rightarrow> Inl (''read accept table: '' @ e) | Inr accept_data \<Rightarrow>
     (case load_table_policy (fi_table F accept_data) of Inl e \<Rightarrow> Inl e | Inr tp \<Rightarrow>
     (case fi_read F grant_file of Inl e \<Rightarrow> Inl (''read grant table: '' @ e) | Inr grant_data \<Rightarrow>
     (case load_table_grant (fi_table F grant_data) of Inl e \<Rightarrow> Inl e | Inr tg \<Rightarrow>
       Inr ((options_base R op label)\<lparr>
         cf_accept := Some (Chain [AlwaysVerify, MandatePolicy (sim_mandate_policy chain_id), TablePolicy tp]),
         cf_grant := Some (TableGrant tg), cf_mandate := Some mandate_template\<rparr>)))))"

definition baseline_combo :: "'r rng \<Rightarrow> sim_options \<Rightarrow> 'r sim_config" where
  "baseline_combo R op = options_base R op ''baseline''"

definition builtin_combo :: "'r rng \<Rightarrow> int \<Rightarrow> sim_options \<Rightarrow> 'r sim_config" where
  "builtin_combo R chain_id op = (options_base R op ''built-in'')\<lparr>
     cf_accept := Some (Chain [AlwaysVerify, MandatePolicy ((sim_mandate_policy chain_id)\<lparr>mp_ask_on_exceed := True\<rparr>)]),
     cf_grant := Some (MaxAmountGrant (Some 2000)), cf_mandate := Some mandate_template\<rparr>"

fun compare_combos :: "'r rng \<Rightarrow> sim_files \<Rightarrow> int \<Rightarrow> sim_options \<Rightarrow> string list \<Rightarrow> 'r sim_config list result" where
  "compare_combos R F chain_id op [] = Inr []"
| "compare_combos R F chain_id op (spec # specs) =
     (case parse_compare spec of Inl e \<Rightarrow> Inl e | Inr (label, accept, grant) \<Rightarrow>
     (case table_combo R F chain_id op label accept grant of Inl e \<Rightarrow> Inl e | Inr c \<Rightarrow>
     (case compare_combos R F chain_id op specs of Inl e \<Rightarrow> Inl e | Inr cs \<Rightarrow> Inr (c # cs))))"

definition build_combos :: "'r rng \<Rightarrow> sim_files \<Rightarrow> int \<Rightarrow> sim_options \<Rightarrow> 'r sim_config list result" where
  "build_combos R F chain_id op =
     (case (if op_accept_table op \<noteq> '''' \<and> op_grant_table op \<noteq> '''' then
              map_sum id (\<lambda>c. [c]) (table_combo R F chain_id op ''table'' (op_accept_table op) (op_grant_table op))
            else Inr []) of
        Inl e \<Rightarrow> Inl e
      | Inr tables \<Rightarrow>
          map_sum id (\<lambda>cs. [baseline_combo R op, builtin_combo R chain_id op] @ tables @ cs)
            (compare_combos R F chain_id op (op_compare op)))"

text \<open>The decision-time entries of a journal.\<close>

definition logged_decisions :: "journal_entry list \<Rightarrow> decision_record list" where
  "logged_decisions es =
     concat (map (\<lambda>e. case je_decision e of
       None \<Rightarrow> []
     | Some d \<Rightarrow> if je_kind e = ''decision'' \<and> \<not> dr_settled d then [d] else []) es)"

fun replay_compare ::
    "geth \<Rightarrow> int \<Rightarrow> sim_files \<Rightarrow> decision_record list \<Rightarrow> string list \<Rightarrow> replay_report list result" where
  "replay_compare G t F recs [] = Inr []"
| "replay_compare G t F recs (spec # specs) =
     (case parse_compare spec of Inl e \<Rightarrow> Inl e | Inr (label, accept_file, _) \<Rightarrow>
      if accept_file = '''' then replay_compare G t F recs specs
      else (case load_accept_table F accept_file of Inl e \<Rightarrow> Inl e | Inr p \<Rightarrow>
        map_sum id (\<lambda>rs. replay G t label recs (TablePolicy p) (\<lambda>_. new_mp_state) # rs)
          (replay_compare G t F recs specs)))"

text \<open>The journal the command opens is the file, as \<open>None\<close> when the operating system refuses it.\<close>

definition run_replay ::
    "geth \<Rightarrow> int \<Rightarrow> sim_files \<Rightarrow> string \<Rightarrow> jline log_file option \<Rightarrow> sim_options \<Rightarrow> string \<Rightarrow> replay_report list result" where
  "run_replay G t F path fo op out_path =
     (case journal_open fo of Inl e \<Rightarrow> Inl e | Inr j \<Rightarrow>
     (let recs = logged_decisions (entries j) in
      if recs = [] then Inl (''no logged decisions in '' @ path)
      else (case (if op_accept_table op \<noteq> '''' then
                    map_sum id (\<lambda>p. [replay G t ''accept-table'' recs (TablePolicy p) (\<lambda>_. new_mp_state)])
                      (load_accept_table F (op_accept_table op))
                  else Inr []) of
        Inl e \<Rightarrow> Inl e
      | Inr first_reports \<Rightarrow> (case replay_compare G t F recs (op_compare op) of
        Inl e \<Rightarrow> Inl e
      | Inr others \<Rightarrow>
         (let reports = first_reports @ others in
          if reports = [] then Inl ''replay needs an alternative policy: pass --accept-table or --compare''
          else if out_path = '''' then Inr reports
          else (case fi_write F out_path of Some e \<Rightarrow> Inl (''write report: '' @ e) | None \<Rightarrow> Inr reports))))))"

text \<open>\<open>run\<close>: what \<open>sim.Run\<close> makes of each combination, in order.\<close>

fun run_combos :: "('r sim_config \<Rightarrow> sim_report result) \<Rightarrow> 'r sim_config list \<Rightarrow> sim_report list result" where
  "run_combos runner [] = Inr []"
| "run_combos runner (c # cs) =
     (case runner c of
        Inl e \<Rightarrow> Inl (''run '' @ cf_label c @ '': '' @ e)
      | Inr rep \<Rightarrow> map_sum id (\<lambda>rs. rep # rs) (run_combos runner cs))"

definition sim_command ::
    "'r rng \<Rightarrow> geth \<Rightarrow> int \<Rightarrow> sim_files \<Rightarrow> int \<Rightarrow> ('r sim_config \<Rightarrow> sim_report result) \<Rightarrow> (string \<Rightarrow> jline log_file option) \<Rightarrow>
     sim_options \<Rightarrow> string \<Rightarrow> string \<Rightarrow> string \<Rightarrow> (replay_report list + sim_report list) result" where
  "sim_command R G t F chain_id runner disk op0 trace_path replay_path out_path =
     (case (if trace_path = '''' then Inr op0
            else map_sum id (\<lambda>tr. op0\<lparr>op_chain_trace := Some tr\<rparr>) (load_chain_trace F trace_path)) of
        Inl e \<Rightarrow> Inl e
      | Inr op \<Rightarrow>
          if replay_path \<noteq> '''' then map_sum id Inl (run_replay G t F replay_path (disk replay_path) op out_path)
          else (case build_combos R F chain_id op of Inl e \<Rightarrow> Inl e | Inr combos \<Rightarrow>
               (case run_combos runner combos of Inl e \<Rightarrow> Inl e | Inr reports \<Rightarrow>
                  if out_path = '''' then Inr (Inr reports)
                  else (case fi_write F out_path of Some e \<Rightarrow> Inl (''write report: '' @ e) | None \<Rightarrow> Inr (Inr reports)))))"

section \<open>A replay counts what the table decides\<close>

text \<open>A decision the gateway took: the payment, the decision, whether it was settlement, the state.\<close>

type_synonym 'w logged = "payment_context \<times> decision \<times> bool \<times> 'w gateway"

definition entry_of :: "'w gateway_env \<Rightarrow> 'w logged \<Rightarrow> journal_entry" where
  "entry_of E = (\<lambda>(pc, d, settled, s). decision_entry E pc d settled s)"

definition decided_on :: "'w logged \<Rightarrow> payment_context" where "decided_on = (\<lambda>(pc, d, settled, s). pc)"
definition action_on :: "'w logged \<Rightarrow> action" where "action_on = (\<lambda>(pc, d, settled, s). d_action d)"
definition at_decision :: "'w logged \<Rightarrow> bool" where "at_decision = (\<lambda>(pc, d, settled, s). \<not> settled)"

lemma logged_sel [simp]:
  "decided_on (pc, d, settled, s) = pc" "action_on (pc, d, settled, s) = d_action d" "at_decision (pc, d, settled, s) \<longleftrightarrow> \<not> settled"
  by (simp_all add: decided_on_def action_on_def at_decision_def)

lemma stage_logged_int [simp]: "stage_logged (stage_int x) = x"
  by (cases x) (simp_all add: stage_logged_def)

lemma action_int_eq [simp]: "action_int a = action_int b \<longleftrightarrow> a = b"
  by (cases a; cases b) simp_all

lemma replayed_context:
  assumes "payment_amount pc \<noteq> None" and "je_decision (decision_entry E pc d b s) = Some r"
  shows "table_decide t (context_from_decision r) = table_decide t pc"
  using assms by (auto simp: table_decide_def decision_entry_def context_from_decision_def payment_amount_def Let_def no_history_def)

text \<open>What one replayed decision adds to each counter.\<close>

lemma count_replayed_sel:
  "rp_label (count_replayed a b r) = rp_label r" "rp_decisions (count_replayed a b r) = rp_decisions r"
  "rp_agreements (count_replayed a b r) = rp_agreements r + (if b = a then 1 else 0)"
  "rp_now_approve (count_replayed a b r) = rp_now_approve r +
     (if a \<noteq> action_int ActionApprove \<and> b = action_int ActionApprove then 1 else 0)"
  "rp_now_rejected (count_replayed a b r) = rp_now_rejected r +
     (if a = action_int ActionApprove \<and> b \<noteq> action_int ActionApprove then 1 else 0)"
  "rp_other_changes (count_replayed a b r) = rp_other_changes r +
     (if a \<noteq> b \<and> a \<noteq> action_int ActionApprove \<and> b \<noteq> action_int ActionApprove then 1 else 0)"
  "rp_recorded_escalat (count_replayed a b r) = rp_recorded_escalat r + (if is_escalation a then 1 else 0)"
  "rp_new_escalations (count_replayed a b r) = rp_new_escalations r + (if is_escalation b then 1 else 0)"
  by (simp_all add: count_replayed_def Let_def)

definition tally :: "('a \<Rightarrow> bool) \<Rightarrow> 'a list \<Rightarrow> int" where
  "tally P xs = int (length (filter P xs))"

lemma tally_simps [simp]: "tally P [] = 0" "tally P (x # xs) = (if P x then 1 else 0) + tally P xs"
  by (simp_all add: tally_def)

text \<open>The counters of a replay of the decisions \<open>lg\<close> by the table \<open>t\<close>, from those of \<open>r0\<close>.\<close>

definition tallied :: "decision_table \<Rightarrow> 'w logged list \<Rightarrow> replay_report \<Rightarrow> replay_report \<Rightarrow> bool" where
  "tallied t lg r0 r \<longleftrightarrow> (let new = (\<lambda>x. d_action (table_decide t (decided_on x))) in
     rp_agreements r = rp_agreements r0 + tally (\<lambda>x. new x = action_on x) lg \<and>
     rp_now_approve r = rp_now_approve r0 + tally (\<lambda>x. action_on x \<noteq> ActionApprove \<and> new x = ActionApprove) lg \<and>
     rp_now_rejected r = rp_now_rejected r0 + tally (\<lambda>x. action_on x = ActionApprove \<and> new x \<noteq> ActionApprove) lg \<and>
     rp_other_changes r = rp_other_changes r0 +
       tally (\<lambda>x. new x \<noteq> action_on x \<and> action_on x \<noteq> ActionApprove \<and> new x \<noteq> ActionApprove) lg \<and>
     rp_recorded_escalat r = rp_recorded_escalat r0 + tally (\<lambda>x. action_on x \<in> {ActionAsk, ActionDefer}) lg \<and>
     rp_new_escalations r = rp_new_escalations r0 + tally (\<lambda>x. new x \<in> {ActionAsk, ActionDefer}) lg \<and>
     rp_decisions r = rp_decisions r0 \<and> rp_label r = rp_label r0)"

lemma escalation_int [simp]: "is_escalation (action_int a) \<longleftrightarrow> a \<in> {ActionAsk, ActionDefer}"
  by (cases a) (simp_all add: is_escalation_def)

lemma tallied_Cons:
  assumes "tallied t lg (count_replayed (action_int (d_action d)) (action_int (d_action (table_decide t pc))) r0) r"
  shows "tallied t ((pc, d, b, s) # lg) r0 r"
  using assms by (simp add: tallied_def Let_def count_replayed_sel eq_commute del: action_int.simps)

lemma replay_tallied:
  assumes "\<forall>x\<in>set lg. payment_amount (decided_on x) \<noteq> None"
  shows "tallied t lg r0 (replay_from G clk (TablePolicy t) (map (\<lambda>x. the (je_decision (entry_of E x))) lg) st r0)"
  using assms
proof (induction lg arbitrary: r0)
  case (Cons x lg)
  obtain pc d b s where x: "x = (pc, d, b, s)" by (cases x) auto
  obtain r where r: "je_decision (decision_entry E pc d b s) = Some r" "dr_action r = action_int (d_action d)"
    by (simp add: decision_entry_def Let_def)
  have same: "table_decide t (context_from_decision r) = table_decide t pc"
    using replayed_context [OF _ r(1)] Cons.prems by (simp add: x)
  let ?r1 = "count_replayed (action_int (d_action d)) (action_int (d_action (table_decide t pc))) r0"
  have step: "replay_from G clk (TablePolicy t) (map (\<lambda>x. the (je_decision (entry_of E x))) (x # lg)) st r0 =
      replay_from G clk (TablePolicy t) (map (\<lambda>x. the (je_decision (entry_of E x))) lg) st ?r1"
    by (simp add: x entry_of_def r same)
  show ?case unfolding step unfolding x by (rule tallied_Cons) (use Cons in auto)
qed (simp add: tallied_def)

lemma tally_split:
  "int (length lg) = tally (\<lambda>x. new x = a x) lg + tally (\<lambda>x. a x \<noteq> b \<and> new x = b) lg +
     tally (\<lambda>x. a x = b \<and> new x \<noteq> b) lg + tally (\<lambda>x. new x \<noteq> a x \<and> a x \<noteq> b \<and> new x \<noteq> b) lg"
  by (induction lg) auto

lemma logged_decisions_entries:
  assumes "filter (\<lambda>e. je_kind e = ''decision'') es = map (entry_of E) lg"
  shows "logged_decisions es = map (\<lambda>x. the (je_decision (entry_of E x))) (filter at_decision lg)"
proof -
  have "logged_decisions es = logged_decisions (filter (\<lambda>e. je_kind e = ''decision'') es)"
    by (induction es) (auto simp: logged_decisions_def split: option.split)
  also have "\<dots> = logged_decisions (map (entry_of E) lg)" using assms by simp
  also have "\<dots> = map (\<lambda>x. the (je_decision (entry_of E x))) (filter at_decision lg)"
    by (induction lg) (auto simp: logged_decisions_def entry_of_def decision_entry_def Let_def)
  finally show ?thesis .
qed

text \<open>
  C36. A replay reports what the alternative table would have done: over the decisions a
  gateway logged, whatever policy took them, the report for an accept table counts exactly
  the payments on which that table, at the time, with the gateway's own view of the payment,
  decides as logged, newly approves, newly refuses, or changes otherwise; the four counts add
  up to the decisions; and a table replayed over decisions it took itself agrees with all of
  them. The payments must have readable amounts.
\<close>

theorem replay_reports_the_tables_decisions:
  assumes "journal_open fo = Inr j" and "filter (\<lambda>e. je_kind e = ''decision'') (entries j) = map (entry_of E) lg"
    and "\<forall>x\<in>set lg. payment_amount (decided_on x) \<noteq> None"
    and "op_accept_table op \<noteq> ''''" and "load_accept_table F (op_accept_table op) = Inr t" and "op_compare op = []"
    and "run_replay G clk F path fo op out_path = Inr reports"
  shows "let logged = filter at_decision lg; new = (\<lambda>x. d_action (table_decide t (decided_on x))) in
    \<exists>r. reports = [r] \<and> rp_decisions r = int (length logged) \<and>
      rp_agreements r = tally (\<lambda>x. new x = action_on x) logged \<and>
      rp_now_approve r = tally (\<lambda>x. action_on x \<noteq> ActionApprove \<and> new x = ActionApprove) logged \<and>
      rp_now_rejected r = tally (\<lambda>x. action_on x = ActionApprove \<and> new x \<noteq> ActionApprove) logged \<and>
      rp_new_escalations r = tally (\<lambda>x. new x \<in> {ActionAsk, ActionDefer}) logged \<and>
      rp_agreements r + rp_now_approve r + rp_now_rejected r + rp_other_changes r = rp_decisions r \<and>
      ((\<forall>x\<in>set logged. action_on x = new x) \<longrightarrow> rp_agreements r = rp_decisions r)"
proof -
  let ?logged = "filter at_decision lg" and ?new = "\<lambda>x. d_action (table_decide t (decided_on x))"
  let ?recs = "map (\<lambda>x. the (je_decision (entry_of E x))) ?logged"
  let ?r = "replay G clk ''accept-table'' ?recs (TablePolicy t) (\<lambda>_. new_mp_state)"
  have "tallied t ?logged (new_replay ''accept-table'' ?recs) ?r"
    unfolding replay_def by (rule replay_tallied) (use assms(3) in auto)
  then have counts: "rp_decisions ?r = int (length ?logged)" "rp_agreements ?r = tally (\<lambda>x. ?new x = action_on x) ?logged"
      "rp_now_approve ?r = tally (\<lambda>x. action_on x \<noteq> ActionApprove \<and> ?new x = ActionApprove) ?logged"
      "rp_now_rejected ?r = tally (\<lambda>x. action_on x = ActionApprove \<and> ?new x \<noteq> ActionApprove) ?logged"
      "rp_other_changes ?r = tally (\<lambda>x. ?new x \<noteq> action_on x \<and> action_on x \<noteq> ActionApprove \<and> ?new x \<noteq> ActionApprove) ?logged"
      "rp_new_escalations ?r = tally (\<lambda>x. ?new x \<in> {ActionAsk, ActionDefer}) ?logged"
    by (simp_all add: tallied_def new_replay_def Let_def)
  have sum: "rp_agreements ?r + rp_now_approve ?r + rp_now_rejected ?r + rp_other_changes ?r = rp_decisions ?r"
    unfolding counts by (rule tally_split [symmetric])
  have all: "rp_agreements ?r = rp_decisions ?r" if "\<forall>x\<in>set ?logged. action_on x = ?new x"
    unfolding counts tally_def using that by (metis (mono_tags, lifting) filter_True)
  have "reports = [?r]"
    using assms(1,4-7) by (auto simp: run_replay_def logged_decisions_entries [OF assms(2)] Let_def
        split: if_splits option.splits)
  then show ?thesis unfolding Let_def using counts sum all by blast
qed

text \<open>A logged approval of 60, replayed against a table that refuses everything over 50.\<close>

definition sample_files :: sim_files where
  "sample_files = \<lparr>fi_read = (\<lambda>_. Inr ''table''), fi_table = (\<lambda>_. Some \<lparr>rt_default = ''reject'', rt_rules = [\<lparr>
     rr_amount_min = None, rr_amount_max = Some (big_show 50), rr_stage_at_least = None, rr_risk_max = None, rr_asks_max = None,
     rr_then = ''approve''\<rparr>]\<rparr>), fi_trace = (\<lambda>_. Inr []), fi_write = (\<lambda>_. None)\<rparr>"

definition sample_options :: sim_options where
  "sample_options = \<lparr>op_seed = 1, op_payments = 5, op_attack_mix = 1, op_confirm_depth = 2, op_responder_errors = 0,
     op_responder_fatigue = 0, op_accept_table = ''accept.json'', op_grant_table = '''', op_compare = [], op_chain_trace = None\<rparr>"

definition sample_logged :: "nat logged" where
  "sample_logged = (sample_context (big_show 60), approve, False, sample_gateway None)"

definition sample_compiled :: decision_table where
  "sample_compiled = \<lparr>dt_rules = [\<lparr>cr_amount_min = None, cr_amount_max = Some 50, cr_stage_at_least = None, cr_risk_max = None,
     cr_asks_max = None, cr_then = ''approve''\<rparr>], dt_def = ''reject''\<rparr>"

lemma sample_accept_table: "load_accept_table sample_files p = Inr sample_compiled"
  by (simp add: load_accept_table_def sample_files_def load_table_policy_def load_table_def accept_outcomes_def compile_rule_def
      parse_non_neg_big_def sample_compiled_def)

lemma sample_logged_amount: "payment_amount (decided_on sample_logged) = Some 60"
  by (simp add: sample_logged_def payment_amount_def sample_context_def sample_payload_def)

definition sample_log_file :: "jline log_file" where
  "sample_log_file = [Whole (LEntry (entry_of (sample_env AlwaysVerify) sample_logged)), Newline]"

lemma sample_log_open:
  "\<exists>j. journal_open (Some sample_log_file) = Inr j \<and> entries j = [entry_of (sample_env AlwaysVerify) sample_logged]"
  by (simp add: journal_open_def sample_log_file_def journal_replay_def parsed_def empty_mem_def journal_record_def entries_def)

lemma replay_reports_the_tables_decisions_witness:
  "\<exists>r. run_replay sample_geth 0 sample_files ''journal'' (Some sample_log_file) sample_options '''' = Inr [r] \<and>
     rp_decisions r = 1 \<and> rp_now_rejected r = 1 \<and> rp_agreements r = 0"
proof -
  let ?run = "run_replay sample_geth 0 sample_files ''journal'' (Some sample_log_file) sample_options ''''"
  obtain j where j: "journal_open (Some sample_log_file) = Inr j" "entries j = [entry_of (sample_env AlwaysVerify) sample_logged]"
    using sample_log_open by blast
  have kept: "filter (\<lambda>e. je_kind e = ''decision'') (entries j) = map (entry_of (sample_env AlwaysVerify)) [sample_logged]"
    by (simp add: j(2) entry_of_def sample_logged_def decision_entry_def Let_def)
  have op: "op_accept_table sample_options \<noteq> ''''" "op_compare sample_options = []" by (simp_all add: sample_options_def)
  obtain reports where run: "?run = Inr reports"
    using op by (simp add: run_replay_def j(1) logged_decisions_entries [OF kept] sample_accept_table Let_def sample_logged_def)
  have new: "d_action (table_decide sample_compiled (decided_on sample_logged)) = ActionReject"
    using sample_logged_amount
    by (simp add: table_decide_def sample_compiled_def table_match_def rule_matches_def accept_decision_def Let_def)
  have "filter at_decision [sample_logged] = [sample_logged]" "action_on sample_logged = ActionApprove"
    by (simp_all add: sample_logged_def)
  then show ?thesis
    using replay_reports_the_tables_decisions [OF j(1) kept _ op(1) sample_accept_table op(2) run] run sample_logged_amount new
    by (auto simp: Let_def)
qed

section \<open>The combinations the command compares\<close>

definition from_options :: "sim_options \<Rightarrow> 'r sim_config \<Rightarrow> bool" where
  "from_options op c \<longleftrightarrow> cf_seed c = op_seed op \<and> cf_payments c = op_payments op \<and> cf_attack_mix c = op_attack_mix op"

definition guarded :: "'r sim_config \<Rightarrow> bool" where
  "guarded c \<longleftrightarrow> (\<exists>pre mp post m. cf_accept c = Some (Chain (pre @ MandatePolicy mp # post)) \<and> (\<forall>q\<in>set pre. checks_only q) \<and>
     mp_ref mp \<noteq> None \<and> cf_mandate c = Some m \<and> spoof_payee \<notin> set (m_allowed_payees m))"

lemma guarded_chain:
  assumes "cf_accept c = Some (Chain (AlwaysVerify # MandatePolicy mp # post))" and "mp_ref mp \<noteq> None"
    and "cf_mandate c = Some mandate_template"
  shows "guarded c"
proof -
  have "cf_accept c = Some (Chain ([AlwaysVerify] @ MandatePolicy mp # post))" "\<forall>q\<in>set [AlwaysVerify]. checks_only q"
    using assms(1) by simp_all
  moreover have "spoof_payee \<notin> set (m_allowed_payees mandate_template)" by (simp add: mandate_template_def)
  ultimately show ?thesis unfolding guarded_def using assms(2,3) by blast
qed

lemma sim_mandate_policy_ref [simp]: "mp_ref (sim_mandate_policy chain) = Some 0"
  by (simp add: sim_mandate_policy_def new_mandate_policy_def)

lemma builtin_combo_guarded:
  "guarded (builtin_combo R chain op)" "from_options op (builtin_combo R chain op)"
  "cf_grant (builtin_combo R chain op) = Some (MaxAmountGrant (Some 2000))"
  "from_options op (baseline_combo R op)"
  by (rule guarded_chain [where mp = "(sim_mandate_policy chain)\<lparr>mp_ask_on_exceed := True\<rparr>" and post = "[]"])
    (simp_all add: builtin_combo_def baseline_combo_def options_base_def from_options_def)

lemma table_combo_guarded:
  assumes "table_combo R F chain op label accept grant = Inr c"
  shows "guarded c \<and> from_options op c"
  using assms
  by (auto simp: table_combo_def options_base_def from_options_def split: sum.splits intro!: guarded_chain)

lemma compare_combos_guarded:
  "compare_combos R F chain op specs = Inr cs \<Longrightarrow> \<forall>c\<in>set cs. guarded c \<and> from_options op c"
proof (induction specs arbitrary: cs)
  case (Cons spec specs)
  then show ?case using table_combo_guarded by (fastforce split: sum.splits prod.splits)
qed simp

lemma build_combos_guarded:
  assumes "build_combos R F chain op = Inr combos"
  obtains others where "combos = baseline_combo R op # builtin_combo R chain op # others" "\<forall>c\<in>set others. guarded c \<and> from_options op c"
proof -
  obtain tables cs where c: "combos = [baseline_combo R op, builtin_combo R chain op] @ tables @ cs"
      "compare_combos R F chain op (op_compare op) = Inr cs"
      "tables = [] \<or> (\<exists>c. tables = [c] \<and> table_combo R F chain op ''table'' (op_accept_table op) (op_grant_table op) = Inr c)"
  proof (cases "compare_combos R F chain op (op_compare op)"; cases "op_accept_table op \<noteq> '''' \<and> op_grant_table op \<noteq> ''''")
    fix cs
    assume cs: "compare_combos R F chain op (op_compare op) = Inr cs" and on: "op_accept_table op \<noteq> '''' \<and> op_grant_table op \<noteq> ''''"
    obtain c where "table_combo R F chain op ''table'' (op_accept_table op) (op_grant_table op) = Inr c"
      using assms cs on by (cases "table_combo R F chain op ''table'' (op_accept_table op) (op_grant_table op)") (auto simp: build_combos_def)
    then show thesis using that [of "[c]" cs] assms cs on by (simp add: build_combos_def)
  next
    fix cs
    assume cs: "compare_combos R F chain op (op_compare op) = Inr cs" and "\<not> (op_accept_table op \<noteq> '''' \<and> op_grant_table op \<noteq> '''')"
    then show thesis using that [of "[]" cs] assms by (auto simp: build_combos_def)
  qed (use assms in \<open>auto simp: build_combos_def split: sum.splits\<close>)
  show thesis by (rule that [of "tables @ cs"]) (use c compare_combos_guarded [OF c(2)] in \<open>auto dest: table_combo_guarded\<close>)
qed

text \<open>A stack for every combination: \<open>sim.Run\<close> makes its own keys, chain and gateway.\<close>

record 'w sim_stack =
  sk_env :: "'w gateway_env"
  sk_route :: "string \<Rightarrow> string \<times> string"
  sk_body :: "reply \<Rightarrow> string"
  sk_url :: string
  sk_commit :: "'w \<Rightarrow> 'w"
  sk_delegator_key :: bytes32
  sk_wallet :: wallet
  sk_domain :: bytes32
  sk_gateway :: "'w gateway"

definition run_on :: "'r rng \<Rightarrow> int \<Rightarrow> ('r sim_config \<Rightarrow> 'w sim_stack) \<Rightarrow> 'r sim_config \<Rightarrow> sim_report result" where
  "run_on R chain_id stack c =
     (let k = stack c in sim_run R c (sk_env k) (sk_route k) (sk_body k) (sk_url k) (sk_commit k) (sk_delegator_key k) chain_id
        (sk_wallet k) (sk_domain k) (sk_gateway k))"

lemma run_combos_all:
  "run_combos runner cs = Inr reps \<Longrightarrow> list_all2 (\<lambda>c rep. runner c = Inr rep) cs reps"
proof (induction cs arbitrary: reps)
  case (Cons c cs)
  then show ?case by (cases "run_combos runner cs") (auto split: sum.splits)
qed simp

text \<open>What settled of the workload is at most the exposed attacks under the grant.\<close>

definition within_exposure :: "grant_policy option \<Rightarrow> work_item list \<Rightarrow> sim_report \<Rightarrow> bool" where
  "within_exposure gp items rep \<longleftrightarrow> sr_attacks_settled rep \<le> int (length (filter (exposed gp) items)) \<and>
     sr_attack_loss rep \<le> sum_list (map wi_loss (filter (exposed gp) items))"

lemma run_on_within_exposure:
  assumes "rng_law R" and "geth_text (ge_geth (sk_env (stack c)))" and "ge_pay_to (sk_env (stack c)) \<noteq> spoof_payee"
    and "guarded c" and "from_options op c" and "run_on R chain stack c = Inr rep"
  shows "within_exposure (cf_grant c) (workload R (op_seed op) (op_payments op) (op_attack_mix op)) rep"
proof -
  from assms(4) obtain pre mp post m where g: "cf_accept c = Some (Chain (pre @ MandatePolicy mp # post))"
      "\<forall>q\<in>set pre. checks_only q" "mp_ref mp \<noteq> None" "cf_mandate c = Some m" "spoof_payee \<notin> set (m_allowed_payees m)"
    unfolding guarded_def by blast
  from run_contained [OF assms(2,1) g assms(3)] assms(5,6) show ?thesis
    by (simp add: run_on_def within_exposure_def from_options_def Let_def)
qed

lemma exposed_no_grant:
  "within_exposure gp items rep \<Longrightarrow> \<forall>i\<in>set items. 0 \<le> wi_loss i \<Longrightarrow> within_exposure None items rep"
proof -
  assume w: "within_exposure gp items rep" and pos: "\<forall>i\<in>set items. 0 \<le> wi_loss i"
  have some: "exposed None i" if "exposed gp i" for i using that by (simp add: exposed_def granted_def)
  have "length (filter (exposed gp) items) \<le> length (filter (exposed None) items) \<and>
    sum_list (map wi_loss (filter (exposed gp) items)) \<le> sum_list (map wi_loss (filter (exposed None) items))"
    using pos
  proof (induction items)
    case (Cons i items)
    then show ?case using some [of i] by auto
  qed simp
  with w show ?thesis unfolding within_exposure_def by linarith
qed

text \<open>
  C35. The simulation command compares an unprotected baseline with protected combinations
  over one workload, and no protected combination lets a redirected payment through: in every
  report after the first, what attacks settled and what they cost is at most that of the
  attacks that do not redirect the payment, deferred, confirmed by a mistaken delegator or
  not; and under the built-in combination, no attack that inflates the price above the grant
  of 2000 settles either.
\<close>

theorem protected_combinations_stop_redirected_payments:
  assumes "rng_law R" and "\<And>c. geth_text (ge_geth (sk_env (stack c)))" and "\<And>c. ge_pay_to (sk_env (stack c)) \<noteq> spoof_payee"
    and "sim_command R G clk F chain (run_on R chain stack) disk op trace_path '''' out_path = Inr (Inr reports)"
  shows "let items = workload R (op_seed op) (op_payments op) (op_attack_mix op) in
    \<exists>baseline builtin others. reports = baseline # builtin # others \<and>
      within_exposure (Some (MaxAmountGrant (Some 2000))) items builtin \<and>
      (\<forall>rep\<in>set (builtin # others). within_exposure None items rep)"
proof -
  let ?items = "workload R (op_seed op) (op_payments op) (op_attack_mix op)" and ?run = "run_on R chain stack"
  define op' where "op' = (if trace_path = '''' then op else op\<lparr>op_chain_trace := Some (projr (load_chain_trace F trace_path))\<rparr>)"
  have op': "op_seed op' = op_seed op" "op_payments op' = op_payments op" "op_attack_mix op' = op_attack_mix op"
    by (simp_all add: op'_def)
  obtain combos where b: "build_combos R F chain op' = Inr combos" and r: "run_combos ?run combos = Inr reports"
    using assms(4) unfolding op'_def by (cases "trace_path = ''''"; cases "load_chain_trace F trace_path")
      (auto simp: sim_command_def split: sum.splits if_splits option.splits)
  obtain rest where rest: "combos = baseline_combo R op' # builtin_combo R chain op' # rest" "\<forall>c\<in>set rest. guarded c \<and> from_options op' c"
    using build_combos_guarded [OF b] by blast
  from run_combos_all [OF r] obtain b0 b1 others where reports: "reports = b0 # b1 # others"
      "?run (builtin_combo R chain op') = Inr b1" "list_all2 (\<lambda>c rep. ?run c = Inr rep) rest others"
    unfolding rest(1) by (auto simp: list_all2_Cons1)
  note within = run_on_within_exposure [OF assms(1-3), of _ op' chain, unfolded op']
  have pos: "\<forall>i\<in>set ?items. 0 \<le> wi_loss i" using workload_ok [OF assms(1)] by blast
  have "within_exposure (Some (MaxAmountGrant (Some 2000))) ?items b1"
    using within [OF builtin_combo_guarded(1,2) reports(2)] by (simp add: builtin_combo_guarded(3))
  moreover have "within_exposure None ?items rep" if "rep \<in> set others" for rep
  proof -
    from that obtain i where i: "i < length others" "rep = others ! i" by (auto simp: in_set_conv_nth)
    have c: "rest ! i \<in> set rest" "?run (rest ! i) = Inr rep"
      using reports(3) i by (simp_all add: list_all2_conv_all_nth)
    have "guarded (rest ! i)" "from_options op' (rest ! i)" using rest(2) c(1) by simp_all
    from exposed_no_grant [OF within [OF this c(2)] pos] show ?thesis .
  qed
  ultimately show ?thesis using reports(1) exposed_no_grant [OF _ pos] by (auto simp: Let_def)
qed

text \<open>The command on redirected payments only, every combination at the token contract.\<close>

definition sample_stack :: "unit sim_config \<Rightarrow> local_world sim_stack" where
  "sample_stack c = \<lparr>sk_env = contract_env, sk_route = sample_route, sk_body = (\<lambda>_. ''''), sk_url = ''http://gateway'',
     sk_commit = id, sk_delegator_key = 1, sk_wallet = \<lparr>w_key = 7, w_address = 7\<rparr>, sk_domain = 0, sk_gateway = contract_gateway\<rparr>"

lemma protected_combinations_stop_redirected_payments_witness:
  "\<exists>baseline builtin. sim_command sample_rng sample_geth 0 sample_files 1337 (run_on sample_rng 1337 sample_stack) (\<lambda>_. None)
     sample_options '''' '''' '''' = Inr (Inr [baseline, builtin]) \<and> sr_attacks_settled builtin \<le> 0 \<and> sr_attack_loss builtin \<le> 0"
proof -
  let ?command = "sim_command sample_rng sample_geth 0 sample_files 1337 (run_on sample_rng 1337 sample_stack) (\<lambda>_. None)
     sample_options '''' '''' ''''"
  have sign: "crypto_sign (ge_geth (sk_env (sample_stack c))) h k \<noteq> None" for c h k
    by (simp add: sample_stack_def sample_geth_def)
  have "\<exists>rep. run_on sample_rng 1337 sample_stack c = Inr rep" for c
    unfolding run_on_def Let_def using sim_run_returns [OF sign] by metis
  then obtain b0 b1 where run: "run_on sample_rng 1337 sample_stack (baseline_combo sample_rng sample_options) = Inr b0"
      "run_on sample_rng 1337 sample_stack (builtin_combo sample_rng 1337 sample_options) = Inr b1" by blast
  have op: "op_grant_table sample_options = ''''" "op_compare sample_options = []" by (simp_all add: sample_options_def)
  have command: "?command = Inr (Inr [b0, b1])"
    using run by (simp add: sim_command_def build_combos_def op)
  have env: "geth_text (ge_geth (sk_env (sample_stack c)))" "ge_pay_to (sk_env (sample_stack c)) \<noteq> spoof_payee" for c
    by (simp_all add: sample_stack_def sample_geth_text spoof_payee_def)
  have "filter (exposed gp) (workload sample_rng (op_seed sample_options) (op_payments sample_options)
      (op_attack_mix sample_options)) = []" for gp
    by (simp add: sample_workload sample_options_def exposed_def)
  then show ?thesis
    using protected_combinations_stop_redirected_payments [OF sample_rng_law env command] command
    by (auto simp: Let_def within_exposure_def)
qed

end
