(* ===== verification/Conform.thy ===== *)
theory Conform
  imports LocalGateway
begin

text \<open>
  The conformance probe (\<open>cmd/conform\<close>): a gateway on its own chain, a payer who signs for it,
  and four checks of what the protocol requires: no replay, one settlement under concurrent
  requests, no payment for another resource, and nothing delivered when the settlement fails.

  The concurrent requests of the second check run in any order the gateway allows:
  verification of one request may fall anywhere between the others, settlement is one at a
  time (\<open>serializingFacilitator\<close>). A request is two events, its verification and the rest; a
  schedule is any sequence of the events of all requests.

  Theorem: the modelled gateway on the modelled contract passes every check, under every
  schedule.
\<close>

section \<open>harness.go\<close>

text \<open>The two wrappers of the facilitator: mutual exclusion is how the settlements are scheduled.\<close>

definition serializing_facilitator :: "'w gateway_env \<Rightarrow> 'w gateway_env" where
  "serializing_facilitator E = E"

definition failing_settle_facilitator :: "'w gateway_env \<Rightarrow> 'w gateway_env" where
  "failing_settle_facilitator E = E\<lparr>ge_settle := (\<lambda>p reqs w.
     (Inr (Some \<lparr>sresp_success = False, sresp_transaction = '''', sresp_network = '''', sresp_payer = '''',
        sresp_error_reason = ''injected settlement failure'', sresp_delivery_transaction = '''', sresp_receipt = None\<rparr>), w))\<rparr>"

record 'w conform_harness =
  ch_env :: "'w gateway_env"
  ch_payer :: wallet
  ch_domain :: bytes32
  ch_pay_to :: address
  ch_network :: string
  ch_price :: int
  ch_host :: string
  ch_protect :: bool

record 'w conform_state =
  cs_gateway :: "'w gateway"
  cs_served :: int

text \<open>\<open>buildHarness\<close>, from the environment of the chain it has set up.\<close>

definition conform_env :: "bool \<Rightarrow> 'w gateway_env \<Rightarrow> 'w gateway_env" where
  "conform_env bound E = E\<lparr>ge_price := 1, ge_timeout := 0, ge_dvp_address := 0, ge_require_bound_nonce := bound,
     ge_receipt_key := None, ge_confirm_depth := 0, ge_sessions_enabled := False, ge_policy := (\<lambda>_. None), ge_scorer := None,
     ge_deliverer := None, ge_refunder := None\<rparr>"

definition build_harness ::
    "bool \<Rightarrow> bool \<Rightarrow> ('w gateway_env \<Rightarrow> 'w gateway_env) \<Rightarrow> 'w gateway_env \<Rightarrow> wallet \<Rightarrow> bytes32 \<Rightarrow> string \<Rightarrow> 'w conform_harness" where
  "build_harness bound protect wrap E payer domain host = \<lparr>ch_env = wrap (conform_env bound E), ch_payer = payer,
     ch_domain = domain, ch_pay_to = ge_pay_to E, ch_network = ge_network E, ch_price = 1, ch_host = host, ch_protect = protect\<rparr>"

definition conform_start :: "'w \<Rightarrow> 'w conform_state" where
  "conform_start w = \<lparr>cs_gateway = \<lparr>gw_world = w, gw_store = (\<lambda>_. new_mp_state), gw_journal = None, gw_settlements = [],
     gw_inflight = Map.empty, gw_sessions = Map.empty, gw_metrics = None\<rparr>, cs_served = 0\<rparr>"

definition self_harness :: "'w gateway_env \<Rightarrow> wallet \<Rightarrow> bytes32 \<Rightarrow> string \<Rightarrow> 'w conform_harness" where
  "self_harness = build_harness True True serializing_facilitator"

definition failing_harness :: "'w gateway_env \<Rightarrow> wallet \<Rightarrow> bytes32 \<Rightarrow> string \<Rightarrow> 'w conform_harness" where
  "failing_harness = build_harness True True failing_settle_facilitator"

definition conform_url :: "'w conform_harness \<Rightarrow> string \<Rightarrow> string" where
  "conform_url H path = ''http://'' @ ch_host H @ path"

definition conform_settlements :: "'w conform_state \<Rightarrow> int" where
  "conform_settlements s = int (length (gw_settlements (cs_gateway s)))"

definition conform_authorization :: "'w conform_harness \<Rightarrow> int \<Rightarrow> bytes32 \<Rightarrow> authorization" where
  "conform_authorization H t nonce = \<lparr>au_from = w_address (ch_payer H), au_to = ch_pay_to H, au_value = ch_price H,
     au_valid_after = 0, au_valid_before = i64 (unix_of t + 300), au_nonce = nonce\<rparr>"

definition conform_sign ::
    "'w conform_harness \<Rightarrow> string \<Rightarrow> bool \<Rightarrow> 'w conform_state \<Rightarrow> payment_payload result \<times> 'w conform_state" where
  "conform_sign H url bound s =
     (let E = ch_env H; G = ge_geth E; g = cs_gateway s; (r, w) = ge_random E (gw_world g);
          s1 = s\<lparr>cs_gateway := g\<lparr>gw_world := w\<rparr>\<rparr> in
      case r of
        None \<Rightarrow> (Inl ''wallet: nonce'', s1)
      | Some x \<Rightarrow>
         (let nonce = (if bound then bound_nonce G x url else x);
              seed = (if bound then ''0x'' @ hex_encode (bytes32_bytes x) else '''');
              a = conform_authorization H (now E (cs_gateway s1)) nonce in
          case sign_authorization G (ch_payer H) (ch_domain H) a of
            Inl e \<Rightarrow> (Inl e, s1)
          | Inr sig \<Rightarrow> (Inr (auth_payload G (ch_network H) a sig seed None None None), s1)))"

text \<open>\<open>post\<close>: the status of the reply; the resource counts what it serves.\<close>

definition conform_post :: "'w conform_harness \<Rightarrow> string \<Rightarrow> payment_payload \<Rightarrow> 'w conform_state \<Rightarrow> int \<times> 'w conform_state" where
  "conform_post H path p s =
     (if \<not> ch_protect H then (200, s\<lparr>cs_served := cs_served s + 1\<rparr>)
      else (case middleware (ch_env H) \<lparr>rq_host = ch_host H, rq_path = path, rq_payment = Decoded p, rq_session = '''',
          rq_session_close = ''''\<rparr> (cs_gateway s) of
        (PaymentRequired t, g) \<Rightarrow> (402, s\<lparr>cs_gateway := g\<rparr>)
      | (Served r i, g) \<Rightarrow> (200, s\<lparr>cs_gateway := g, cs_served := cs_served s + 1\<rparr>)
      | (SessionClosed r, g) \<Rightarrow> (200, s\<lparr>cs_gateway := g\<rparr>)))"

section \<open>main.go: concurrent requests\<close>

datatype conc_event = Verifying nat | Finishing nat

text \<open>The rest of a request whose verification has given \<open>out\<close>.\<close>

definition verified_env :: "'w gateway_env \<Rightarrow> verify_result option result \<Rightarrow> 'w gateway_env" where
  "verified_env E out = E\<lparr>ge_verify := (\<lambda>_ _ w. (out, w))\<rparr>"

fun conform_concurrent ::
    "'w conform_harness \<Rightarrow> string \<Rightarrow> payment_payload \<Rightarrow> conc_event list \<Rightarrow> (nat \<rightharpoonup> verify_result option result) \<Rightarrow>
     'w conform_state \<Rightarrow> int list \<times> 'w conform_state" where
  "conform_concurrent H path p [] vs s = ([], s)"
| "conform_concurrent H path p (Verifying i # es) vs s =
     (let g = cs_gateway s; E = ch_env H; (out, w) = ge_verify E p (requirements E (conform_url H path)) (gw_world g) in
      conform_concurrent H path p es (vs(i \<mapsto> out)) (s\<lparr>cs_gateway := g\<lparr>gw_world := w\<rparr>\<rparr>))"
| "conform_concurrent H path p (Finishing i # es) vs s =
     (case vs i of
        None \<Rightarrow> conform_concurrent H path p es vs s
      | Some out \<Rightarrow>
         (let (code, s1) = conform_post (H\<lparr>ch_env := verified_env (ch_env H) out\<rparr>) path p s;
              (codes, s2) = conform_concurrent H path p es vs s1 in (code # codes, s2)))"

text \<open>Every one of \<open>n\<close> requests is verified and then finished.\<close>

fun orderly :: "nat set \<Rightarrow> nat set \<Rightarrow> conc_event list \<Rightarrow> bool" where
  "orderly vs fs [] \<longleftrightarrow> True"
| "orderly vs fs (Verifying i # es) \<longleftrightarrow> i \<notin> vs \<and> orderly (insert i vs) fs es"
| "orderly vs fs (Finishing i # es) \<longleftrightarrow> i \<in> vs \<and> i \<notin> fs \<and> orderly vs (insert i fs) es"

fun finishing :: "conc_event \<Rightarrow> bool" where
  "finishing (Finishing i) \<longleftrightarrow> True"
| "finishing (Verifying i) \<longleftrightarrow> False"

definition schedule :: "nat \<Rightarrow> conc_event list \<Rightarrow> bool" where
  "schedule n es \<longleftrightarrow> orderly {} {} es \<and> length (filter finishing es) = n"

section \<open>main.go: the checks\<close>

record check_result =
  cr_name :: string
  cr_ok :: bool
  cr_detail :: string

definition check_replay :: "'w conform_harness \<Rightarrow> 'w conform_state \<Rightarrow> check_result \<times> 'w conform_state" where
  "check_replay H s =
     (case conform_sign H (conform_url H ''/a'') True s of
        (Inl e, s1) \<Rightarrow> (\<lparr>cr_name = ''replay rejected'', cr_ok = False, cr_detail = e\<rparr>, s1)
      | (Inr p, s1) \<Rightarrow> (case conform_post H ''/a'' p s1 of (code, s2) \<Rightarrow>
          if code \<noteq> 200 then (\<lparr>cr_name = ''replay rejected'', cr_ok = False,
            cr_detail = ''first payment not accepted (HTTP '' @ big_show code @ '')''\<rparr>, s2)
          else (case conform_post H ''/a'' p s2 of (code2, s3) \<Rightarrow>
            if code2 = 200 then (\<lparr>cr_name = ''replay rejected'', cr_ok = False, cr_detail = ''a replayed payment was accepted''\<rparr>, s3)
            else (\<lparr>cr_name = ''replay rejected'', cr_ok = True, cr_detail = ''the second submission was refused''\<rparr>, s3))))"

definition check_concurrent_single_settlement ::
    "'w conform_harness \<Rightarrow> conc_event list \<Rightarrow> nat \<Rightarrow> 'w conform_state \<Rightarrow> check_result \<times> 'w conform_state" where
  "check_concurrent_single_settlement H es n s =
     (case conform_sign H (conform_url H ''/a'') True s of
        (Inl e, s1) \<Rightarrow> (\<lparr>cr_name = ''single settlement under load'', cr_ok = False, cr_detail = e\<rparr>, s1)
      | (Inr p, s1) \<Rightarrow>
         (let (codes, s2) = conform_concurrent H ''/a'' p es Map.empty s1;
              ok200 = length (filter (\<lambda>c. c = 200) codes); delta = conform_settlements s2 - conform_settlements s1 in
          if ok200 \<noteq> 1 then (\<lparr>cr_name = ''single settlement under load'', cr_ok = False,
            cr_detail = big_show (int ok200) @ '' of '' @ big_show (int n) @ '' concurrent requests settled, want 1''\<rparr>, s2)
          else if delta \<noteq> 1 then (\<lparr>cr_name = ''single settlement under load'', cr_ok = False,
            cr_detail = ''gateway recorded '' @ big_show delta @ '' new settlements, want 1''\<rparr>, s2)
          else (\<lparr>cr_name = ''single settlement under load'', cr_ok = True,
            cr_detail = ''exactly one of the concurrent requests settled''\<rparr>, s2)))"

definition check_cross_resource :: "'w conform_harness \<Rightarrow> 'w conform_state \<Rightarrow> check_result \<times> 'w conform_state" where
  "check_cross_resource H s =
     (case conform_sign H (conform_url H ''/a'') True s of
        (Inl e, s1) \<Rightarrow> (\<lparr>cr_name = ''resource binding enforced'', cr_ok = False, cr_detail = e\<rparr>, s1)
      | (Inr p, s1) \<Rightarrow> (case conform_post H ''/b'' p s1 of (code, s2) \<Rightarrow>
          if code = 200 then (\<lparr>cr_name = ''resource binding enforced'', cr_ok = False,
            cr_detail = ''a payment bound to one resource settled another''\<rparr>, s2)
          else (\<lparr>cr_name = ''resource binding enforced'', cr_ok = True,
            cr_detail = ''the cross-resource payment was refused''\<rparr>, s2)))"

definition check_settlement_failure :: "('w conform_harness \<times> 'w conform_state) result \<Rightarrow> check_result" where
  "check_settlement_failure built =
     (case built of
        Inl e \<Rightarrow> \<lparr>cr_name = ''failed settlement is clean'', cr_ok = False, cr_detail = e\<rparr>
      | Inr (H, s) \<Rightarrow> (case conform_sign H (conform_url H ''/a'') True s of
        (Inl e, s1) \<Rightarrow> \<lparr>cr_name = ''failed settlement is clean'', cr_ok = False, cr_detail = e\<rparr>
      | (Inr p, s1) \<Rightarrow> (case conform_post H ''/a'' p s1 of (code, s2) \<Rightarrow>
          if code = 200 then \<lparr>cr_name = ''failed settlement is clean'', cr_ok = False,
            cr_detail = ''a payment settled against a failing facilitator''\<rparr>
          else if conform_settlements s2 \<noteq> 0 then \<lparr>cr_name = ''failed settlement is clean'', cr_ok = False,
            cr_detail = ''a settlement was recorded despite the failure''\<rparr>
          else if cs_served s2 \<noteq> 0 then \<lparr>cr_name = ''failed settlement is clean'', cr_ok = False,
            cr_detail = ''the resource was served despite the failure''\<rparr>
          else \<lparr>cr_name = ''failed settlement is clean'', cr_ok = True,
            cr_detail = ''no delivery and no record on a failed settlement''\<rparr>)))"

text \<open>\<open>run\<close>: the results it prints, and the error it ends with.\<close>

definition conform_run ::
    "bool \<Rightarrow> ('w conform_harness \<times> 'w conform_state) result \<Rightarrow> conc_event list \<Rightarrow> nat \<Rightarrow>
     ('w conform_harness \<times> 'w conform_state) result \<Rightarrow> check_result list \<times> string option" where
  "conform_run is_self built es concurrency failing_built =
     (if \<not> is_self then ([], Some ''only --self mode is implemented; run: conform --self'')
      else (case built of Inl e \<Rightarrow> ([], Some e) | Inr (H, s0) \<Rightarrow>
        (let (r1, s1) = check_replay H s0;
             (r2, s2) = check_concurrent_single_settlement H es concurrency s1;
             (r3, s3) = check_cross_resource H s2;
             results = [r1, r2, r3, check_settlement_failure failing_built] in
         (results, if \<forall>r\<in>set results. cr_ok r then None else Some ''one or more invariants failed''))))"

section \<open>A payment through the default policy\<close>

text \<open>The states that differ in what the checks do not look at.\<close>

definition same_books :: "'w gateway \<Rightarrow> 'w gateway \<Rightarrow> bool" where
  "same_books s s' \<longleftrightarrow> gw_settlements s' = gw_settlements s \<and> gw_inflight s' = gw_inflight s"

lemma same_books_refl [simp]: "same_books s s"
  by (simp add: same_books_def)

lemma default_flow:
  assumes "inflight_get (fst (payload_nonce (ge_geth E) p)) s = None" and "check_resource_binding E p reqs = None"
    and "ge_policy E w = None" and "ge_deliverer E = None" and "ge_verify E p reqs (gw_world s) = (out, w)"
  obtains (valid) v pc s1 where "out = Inr (Some v)" "vr_is_valid v" "gw_world s1 = w" "same_books s s1"
      "verify_and_settle E (Decoded p) reqs s = settle E p reqs pc s1"
  | (refused) f s1 where "\<nexists>v. out = Inr (Some v) \<and> vr_is_valid v" "gw_world s1 = w" "same_books s s1"
      "verify_and_settle E (Decoded p) reqs s = (Inl f, s1)"
proof (cases out)
  case (Inl e)
  then show thesis using assms
    by (intro refused [of "s\<lparr>gw_world := w\<rparr>"]) (auto simp: verify_and_settle_def same_books_def)
next
  case (Inr vr)
  let ?s1 = "s\<lparr>gw_world := w\<rparr>"
  let ?pc = "fresh_context E p reqs vr ?s1"
  obtain d s2 where d: "gateway_decide E ?pc ?s1 = (d, s2)" by (cases "gateway_decide E ?pc ?s1")
  have s2: "gw_world s2 = w" "same_books s s2"
    using gateway_decide_frame [of E ?pc ?s1] d by (simp_all add: same_books_def)
  let ?s3 = "record_decision E ?pc d False s2"
  have s3: "gw_world ?s3 = w" "same_books s ?s3" using s2 by (simp_all add: same_books_def)
  have gd: "d = always_verify_decide ?pc"
    using d assms(3) by (auto simp: gateway_decide_def gateway_policy_def)
  show thesis
  proof (cases "\<exists>v. vr = Some v \<and> vr_is_valid v")
    case True
    then obtain v where v: "vr = Some v" "vr_is_valid v" by blast
    have "d_action d = ActionApprove" using v by (simp add: gd always_verify_decide_def fresh_context_def)
    then have "verify_and_settle E (Decoded p) reqs s = settle E p reqs ?pc ?s3"
      using assms(1,2,5) d Inr
      by (simp add: verify_and_settle_def fresh_context_def Let_def deliver_def assms(4) split: prod.split sum.split)
    then show thesis using valid [OF _ v(2) s3] Inr v(1) by blast
  next
    case False
    then have "d_action d = ActionReject" by (auto simp: gd always_verify_decide_def fresh_context_def reject_def split: option.splits)
    then have "verify_and_settle E (Decoded p) reqs s = (Inl (refusal d ?pc vr), ?s3)"
      using assms(1,2,5) d Inr by (simp add: verify_and_settle_def fresh_context_def Let_def)
    then show thesis using refused [OF _ s3] Inr False by auto
  qed
qed

lemma settle_succeeds:
  assumes "disk_ok E" and "ge_settle E p reqs (gw_world s) = (Inr (Some sr), w)" and "sresp_success sr"
    and "parse_exact_payload (ge_geth E) (pp_payload p) = Inr (a, sig)"
  obtains r s' where "settle E p reqs pc s = (Inr r, s')" "gw_settlements s' = gw_settlements s @ [r]" "gw_world s' = w"
    "gw_inflight s' = gw_inflight s"
proof -
  obtain r s' where st: "settle E p reqs pc s = (Inr r, s')"
    using settle_ok [OF assms(1) _ assms(3,4), of reqs s pc] assms(2) by auto
  then show thesis using that by (cases rule: settle_cases [of E p reqs pc s]) (use assms(2) in auto)
qed

lemma settle_fails:
  assumes "ge_settle E p reqs (gw_world s) = (out, w)" and "\<nexists>sr. out = Inr (Some sr) \<and> sresp_success sr"
  obtains f s' where "settle E p reqs pc s = (Inl f, s')" "gw_world s' = w" "same_books s s'"
proof -
  have "\<exists>f s'. settle E p reqs pc s = (Inl f, s') \<and> gw_world s' = w \<and> same_books s s'"
    using assms by (auto simp: settle_def same_books_def Let_def split: sum.split option.split)
  then show thesis using that by blast
qed

section \<open>A request of the probe\<close>

text \<open>A status of 200 is a served payment; 402 leaves the books as they are.\<close>

lemma post_flow:
  assumes "ch_protect H" and "\<not> ge_sessions_enabled (ch_env H)" and "ge_receipt_key (ch_env H) = None" and "pp_session p = None"
    and "verify_and_settle (ch_env H) (Decoded p) (requirements (ch_env H) (conform_url H path))
      (count inc_request (cs_gateway s)) = (out, g)"
  shows "\<exists>g'. conform_post H path p s = (if isl out then (402, s\<lparr>cs_gateway := g'\<rparr>)
      else (200, s\<lparr>cs_gateway := g', cs_served := cs_served s + 1\<rparr>)) \<and> gw_world g' = gw_world g \<and> same_books g g'"
  using assms
  by (cases out) (auto simp: conform_post_def middleware_def conform_url_def write_requirements_def same_books_def Let_def)

section \<open>The payer's account\<close>

definition funded :: "address \<Rightarrow> address \<Rightarrow> bytes32 \<Rightarrow> int \<Rightarrow> local_world \<Rightarrow> bool" where
  "funded payer to domain amount w \<longleftrightarrow>
     (let t = cn_token (lw_chain w); f = lw_facilitator w; now_s = unix_of (lw_now w) in
      token_open t to \<and> payer \<noteq> 0 \<and> \<not> tk_frozen t payer \<and> amount \<le> int (tk_balance_of t payer) \<and>
      tk_domain_separator t = domain \<and> \<not> lf_dvp f \<and> lf_domain f \<in> {None, Some (Inr domain)} \<and>
      0 < now_s \<and> now_s \<le> cn_time (lw_chain w) \<and> cn_time (lw_chain w) \<le> now_s + 5 \<and> now_s + 300 < 2 ^ 63)"

definition spent :: "address \<Rightarrow> bytes32 \<Rightarrow> local_world \<Rightarrow> bool" where
  "spent payer n w \<longleftrightarrow> tk_authorization_state (cn_token (lw_chain w)) payer n"

text \<open>A step that neither spends an authorization nor takes the payer's means.\<close>

definition calm :: "address \<Rightarrow> address \<Rightarrow> bytes32 \<Rightarrow> local_world \<Rightarrow> local_world \<Rightarrow> bool" where
  "calm payer to domain w w' \<longleftrightarrow> (\<forall>m. funded payer to domain m w \<longrightarrow> funded payer to domain m w') \<and>
     (\<forall>n. spent payer n w' \<longleftrightarrow> spent payer n w) \<and> lw_random w' = lw_random w \<and> lw_now w' = lw_now w"

lemma calm_refl [simp]: "calm payer to domain w w"
  by (simp add: calm_def)

lemma calm_trans: "calm payer to domain w w1 \<Longrightarrow> calm payer to domain w1 w2 \<Longrightarrow> calm payer to domain w w2"
  by (simp add: calm_def)

lemma verify_calm:
  assumes "funded payer to domain m w"
  shows "calm payer to domain w (snd (ge_verify (gateway_facilitator G ec E) p reqs w))"
proof -
  let ?f = "lw_facilitator w" and ?c = "lw_chain w"
  define f' where "f' = snd (facilitator_verify G (chain_api G ec) (lw_now w) ?c p reqs ?f)"
  have dom: "lf_domain ?f \<in> {None, Some (Inr domain)}" "tk_domain_separator (cn_token ?c) = domain"
    using assms by (auto simp: funded_def Let_def)
  have "f' = ?f \<or> f' = snd (facilitator_domain (chain_api G ec) ?c ?f)"
    by (auto simp: f'_def facilitator_verify_def split: option.split sum.split prod.split)
  then have "lf_domain f' \<in> {None, Some (Inr domain)}"
    using dom by (auto simp: facilitator_domain_def chain_api_def split: option.splits)
  moreover have "lf_dvp f' = lf_dvp ?f" by (simp add: f'_def verify_keeps_dvp)
  moreover have "snd (ge_verify (gateway_facilitator G ec E) p reqs w) = w\<lparr>lw_facilitator := f'\<rparr>"
    by (simp add: gateway_facilitator_def f'_def split: prod.split)
  ultimately show ?thesis by (auto simp: calm_def funded_def spent_def Let_def)
qed

lemma local_settle_time: "cn_time (snd (local_settle G ec timeout pr c)) = cn_time c"
  by (auto simp: local_settle_def facilitator_settle_def chain_api_def split: sum.split prod.split)

lemma transfer_result:
  assumes "transfer_with_authorization G ec time a v r s t = Inr t'"
  shows "tk_paused t' = tk_paused t \<and> tk_allowlist_enabled t' = tk_allowlist_enabled t \<and> tk_frozen t' = tk_frozen t \<and>
    tk_domain_separator t' = tk_domain_separator t \<and> (token_ok t \<longrightarrow> token_ok t') \<and>
    (\<forall>p n. tk_authorization_state t' p n \<longleftrightarrow> tk_authorization_state t p n \<or> (p = au_from a \<and> n = au_nonce a)) \<and>
    int (tk_balance_of t' (au_from a)) \<ge> int (tk_balance_of t (au_from a)) - int (nat (au_value a))"
proof -
  have "token_ok t \<longrightarrow> token_ok t'"
    using assms token_ok_settle by (auto simp: transfer_with_authorization_def split: if_splits)
  moreover have "int (tk_balance_of t' (au_from a)) \<ge> int (tk_balance_of t (au_from a)) - int (nat (au_value a))"
    using transfer_moves [OF assms] by (auto simp: credit_def debit_def of_nat_diff)
  moreover have "tk_paused t' = tk_paused t \<and> tk_allowlist_enabled t' = tk_allowlist_enabled t \<and> tk_frozen t' = tk_frozen t \<and>
    tk_domain_separator t' = tk_domain_separator t \<and>
    (\<forall>p n. tk_authorization_state t' p n \<longleftrightarrow> tk_authorization_state t p n \<or> (p = au_from a \<and> n = au_nonce a))"
    using assms by (auto simp: transfer_with_authorization_def settle_authorization_def move_tokens_def emit_def Let_def
        split: if_splits)
  ultimately show ?thesis by blast
qed

section \<open>The payments the probe signs\<close>

definition probe_payment :: "geth \<Rightarrow> bytes32 \<Rightarrow> 'w conform_harness \<Rightarrow> int \<Rightarrow> string \<Rightarrow> bytes32 \<Rightarrow> payment_payload \<Rightarrow> bool" where
  "probe_payment G k H t url x p \<longleftrightarrow> (\<exists>sig.
     sign_authorization G (wallet_from_key G k) (ch_domain H) (conform_authorization H t (bound_nonce G x url)) = Inr sig \<and>
     p = auth_payload G (ch_network H) (conform_authorization H t (bound_nonce G x url)) sig
       (''0x'' @ hex_encode (bytes32_bytes x)) None None None)"

lemma conform_signs:
  assumes "\<And>h. crypto_sign G h k \<noteq> None" and "ge_geth (ch_env H) = G" and "ge_random (ch_env H) = next_random"
    and "ge_now (ch_env H) = lw_now" and "ch_payer H = wallet_from_key G k" and "lw_random (gw_world (cs_gateway s)) = x # rest"
  obtains p where "conform_sign H url True s =
      (Inr p, s\<lparr>cs_gateway := (cs_gateway s)\<lparr>gw_world := (gw_world (cs_gateway s))\<lparr>lw_random := rest\<rparr>\<rparr>\<rparr>)"
    "probe_payment G k H (lw_now (gw_world (cs_gateway s))) url x p"
proof -
  let ?a = "conform_authorization H (lw_now (gw_world (cs_gateway s))) (bound_nonce G x url)"
  have "\<exists>sig. sign_authorization G (wallet_from_key G k) (ch_domain H) ?a = Inr sig"
    using assms(1) [of "digest G (ch_domain H) (struct_hash G ?a)"] assms(5)
    by (auto simp: sign_authorization_def sign_struct_def wallet_from_key_def conform_authorization_def)
  then obtain sig where "sign_authorization G (wallet_from_key G k) (ch_domain H) ?a = Inr sig" by blast
  then show thesis
    using that [of "auth_payload G (ch_network H) ?a sig (''0x'' @ hex_encode (bytes32_bytes x)) None None None"] assms(2-6)
    by (simp add: conform_sign_def next_random_def now_def probe_payment_def Let_def)
qed

lemma probe_payment_facts:
  assumes "geth_text G" and "geth_sig G" and "probe_payment G k H t url x p" and "ch_payer H = wallet_from_key G k" and "0 \<le> ch_price H"
    and "a = conform_authorization H t (bound_nonce G x url)"
  obtains sig where "parse_exact_payload G (pp_payload p) = Inr (a, sig)" "sig ! 64 = 27 \<or> sig ! 64 = 28"
    "recover_signer G (ch_domain H) a sig = Inr (au_from a)" "pp_version p = x402_version" "pp_scheme p = scheme_exact"
    "pp_network p = ch_network H" "fst (payload_nonce G p) = bound_nonce G x url" "pp_session p = None" "au_from a = key_address G k"
proof -
  obtain sig where s: "sign_authorization G (wallet_from_key G k) (ch_domain H) a = Inr sig"
      "p = auth_payload G (ch_network H) a sig (''0x'' @ hex_encode (bytes32_bytes x)) None None None"
    using assms(3,6) by (auto simp: probe_payment_def)
  note sg = sign_struct_Inr [OF assms(2) s(1) [unfolded sign_authorization_def]]
  have "parse_exact_payload G (pp_payload p) = Inr (a, sig)"
    unfolding s(2) by (rule auth_payload_parses [OF assms(1)]) (use sg assms(5,6) in \<open>simp_all add: conform_authorization_def\<close>)
  moreover have "fst (payload_nonce G p) = bound_nonce G x url"
    using auth_payload_nonce [OF assms(1)] by (simp add: s(2) assms(6) conform_authorization_def)
  moreover have "au_from a = key_address G k" by (simp add: assms(4,6) conform_authorization_def wallet_from_key_def)
  ultimately show thesis using that sg s(2) by (auto simp: recover_signer_def)
qed

text \<open>The probe's own environment, its payer and its facilitator.\<close>

definition probe :: "geth \<Rightarrow> ecrecover \<Rightarrow> bytes32 \<Rightarrow> local_world gateway_env \<Rightarrow> bytes32 \<Rightarrow> string \<Rightarrow> local_world conform_harness" where
  "probe G ec k E domain host = self_harness (gateway_facilitator G ec E) (wallet_from_key G k) domain host"

lemma probe_sel [simp]:
  "ch_env (probe G ec k E domain host) = gateway_facilitator G ec (conform_env True E)"
  "ch_payer (probe G ec k E domain host) = wallet_from_key G k" "ch_domain (probe G ec k E domain host) = domain"
  "ch_pay_to (probe G ec k E domain host) = ge_pay_to E" "ch_network (probe G ec k E domain host) = ge_network E"
  "ch_price (probe G ec k E domain host) = 1" "ch_host (probe G ec k E domain host) = host" "ch_protect (probe G ec k E domain host)"
  by (simp_all add: probe_def self_harness_def build_harness_def serializing_facilitator_def conform_env_def gateway_facilitator_def)

lemma conform_env_sel [simp]:
  "ge_geth (conform_env b E) = ge_geth E" "ge_price (conform_env b E) = 1" "ge_pay_to (conform_env b E) = ge_pay_to E"
  "ge_network (conform_env b E) = ge_network E" "ge_dvp_address (conform_env b E) = 0" "ge_policy (conform_env b E) = (\<lambda>_. None)"
  "ge_deliverer (conform_env b E) = None" "ge_receipt_key (conform_env b E) = None" "\<not> ge_sessions_enabled (conform_env b E)"
  "ge_require_bound_nonce (conform_env b E) = b" "ge_disk (conform_env b E) = ge_disk E"
  by (simp_all add: conform_env_def)

text \<open>A payer with the price, who has not used the nonce, gets a valid verdict, and it settles.\<close>

lemma probe_verifies:
  assumes "geth_text G" and "geth_sig G" and "H = probe G ec k E domain host" and "probe_payment G k H t url x p"
    and "funded (key_address G k) (ge_pay_to E) domain m w" and "1 \<le> m" and "t = lw_now w"
    and "\<not> spent (key_address G k) (bound_nonce G x url) w"
    and "ge_verify (ch_env H) p (requirements (ch_env H) resource) w = (out, w')"
  shows "\<exists>v. out = Inr (Some v) \<and> vr_is_valid v \<and>
    fst (facilitator_verify G (chain_api G ec) (lw_now w) (lw_chain w) p (requirements (ch_env H) resource) (lw_facilitator w)) = Inr v"
proof -
  let ?E = "ch_env H" and ?f = "lw_facilitator w" and ?c = "lw_chain w"
  let ?reqs = "requirements ?E resource"
  define a where "a = conform_authorization H t (bound_nonce G x url)"
  note H = assms(3)
  obtain sig where p: "parse_exact_payload G (pp_payload p) = Inr (a, sig)" "recover_signer G domain a sig = Inr (au_from a)"
      "pp_version p = x402_version" "pp_scheme p = scheme_exact" "pp_network p = ge_network E" "au_from a = key_address G k"
    by (rule probe_payment_facts [OF assms(1,2,4) _ _ a_def]) (auto simp: H)
  note terms = direct_terms [of ?E resource]
  have fd: "tk_domain_separator (cn_token ?c) = domain" "lf_domain ?f \<in> {None, Some (Inr domain)}" "0 < unix_of (lw_now w)"
      "unix_of (lw_now w) + 300 < 2 ^ 63" "\<not> tk_frozen (cn_token ?c) (key_address G k)"
      "m \<le> int (tk_balance_of (cn_token ?c) (key_address G k))"
    using assms(5) by (simp_all add: funded_def Let_def)
  have a: "au_to a = ge_pay_to E" "au_value a = 1" "au_valid_after a = 0" "au_valid_before a = unix_of (lw_now w) + 300"
      "au_nonce a = bound_nonce G x url"
    using fd(3,4) by (simp_all add: a_def conform_authorization_def H assms(7) i64_id)
  have ct: "check_terms G (lw_now w) ?reqs a = None"
    using terms assms(1) fd(3) by (simp add: check_terms_def a H)
  have cc: "check_chain G (chain_api G ec) ?c a = Inr \<lparr>vr_is_valid = True, vr_invalid_reason = '''', vr_payer = address_hex G (au_from a)\<rparr>"
    using assms(6,8) fd(5,6) by (simp add: check_chain_def chain_api_def spent_def a p(6))
  obtain f' where dm: "facilitator_domain (chain_api G ec) ?c ?f = (Inr domain, f')"
    using fd(1,2) by (auto simp: facilitator_domain_def chain_api_def)
  have nw: "pp_network p = pr_network ?reqs" using p(5) by (simp add: requirements_def H)
  have dir: "\<not> snd (expected_recipient G ?reqs)" using terms(1) assms(1) by (simp add: H)
  have ver: "facilitator_verify G (chain_api G ec) (lw_now w) ?c p ?reqs ?f =
      (Inr \<lparr>vr_is_valid = True, vr_invalid_reason = '''', vr_payer = address_hex G (au_from a)\<rparr>, f')"
    by (simp only: facilitator_verify_def p(1-4) nw ct dm dir option.case sum.case prod.case cc if_False) simp
  then show ?thesis using assms(9) by (auto simp: H gateway_facilitator_def)
qed

lemma probe_settles:
  assumes "geth_text G" and "geth_sig G" and "ecrecover_law G ec" and "H = probe G ec k E domain host"
    and "probe_payment G k H t url x p" and "funded (key_address G k) (ge_pay_to E) domain m w" and "1 \<le> m" and "t = lw_now w"
    and "\<not> spent (key_address G k) (bound_nonce G x url) w"
  obtains sr w' where "ge_settle (ch_env H) p (requirements (ch_env H) resource) w = (Inr (Some sr), w')" "sresp_success sr"
    "funded (key_address G k) (ge_pay_to E) domain (m - 1) w'" "lw_random w' = lw_random w" "lw_now w' = lw_now w"
    "\<And>n. spent (key_address G k) n w' \<longleftrightarrow> spent (key_address G k) n w \<or> n = bound_nonce G x url"
proof -
  let ?E = "ch_env H" and ?f = "lw_facilitator w" and ?c = "lw_chain w"
  let ?reqs = "requirements ?E resource"
  define a where "a = conform_authorization H t (bound_nonce G x url)"
  note H = assms(4)
  obtain sig where p: "parse_exact_payload G (pp_payload p) = Inr (a, sig)" "sig ! 64 = 27 \<or> sig ! 64 = 28"
      "au_from a = key_address G k"
    by (rule probe_payment_facts [OF assms(1,2,5) _ _ a_def]) (auto simp: H)
  have fd: "tk_domain_separator (cn_token ?c) = domain" "lf_domain ?f \<in> {None, Some (Inr domain)}" "0 < unix_of (lw_now w)"
      "unix_of (lw_now w) + 300 < 2 ^ 63" "\<not> lf_dvp ?f" "token_open (cn_token ?c) (ge_pay_to E)" "key_address G k \<noteq> 0"
      "unix_of (lw_now w) \<le> cn_time ?c" "cn_time ?c \<le> unix_of (lw_now w) + 5"
    using assms(6) by (simp_all add: funded_def Let_def)
  have a: "au_to a = ge_pay_to E" "au_value a = 1" "au_valid_after a = 0" "au_valid_before a = unix_of (lw_now w) + 300"
      "au_nonce a = bound_nonce G x url"
    using fd(3,4) by (simp_all add: a_def conform_authorization_def H assms(8) i64_id)
  obtain out w1 where gv: "ge_verify ?E p ?reqs w = (out, w1)" by (cases "ge_verify ?E p ?reqs w")
  obtain v where ver: "fst (facilitator_verify G (chain_api G ec) (lw_now w) ?c p ?reqs ?f) = Inr v" "vr_is_valid v"
    using probe_verifies [OF assms(1,2,4-9) gv] by blast
  have dir: "\<not> snd (expected_recipient G ?reqs)" using direct_terms(1) [of ?E] assms(1) by (simp add: H)
  have rng: "auth_in_range a" using fd(3,4) by (simp add: auth_in_range_def u256_range_def a)
  have "\<exists>sr c'. local_settle G ec (lf_timeout ?f) (p, ?reqs) ?c = (Inr sr, c') \<and> sresp_success sr"
    using verified_settles [OF assms(3) ver p(1,2) dir _ _ _ rng fd(8,9), of "lf_timeout ?f"] fd by (auto simp: a p(3))
  then obtain sr c' where ls: "local_settle G ec (lf_timeout ?f) (p, ?reqs) ?c = (Inr sr, c')" "sresp_success sr" by blast
  let ?w = "w\<lparr>lw_chain := c'\<rparr>"
  have gs: "ge_settle ?E p ?reqs w = (Inr (Some sr), ?w)"
    using gateway_settle [OF fd(5), of G ec "conform_env True E" p ?reqs] ls(1) by (simp add: H)
  obtain v r q t' where tr: "transfer_with_authorization G ec (cn_time ?c) a v r q (cn_token ?c) = Inr t'" "cn_token c' = t'"
    by (rule local_settle_success [of G ec "lf_timeout ?f" "(p, ?reqs)" ?c sr]) (use ls p(1) in auto)
  have tm: "cn_time c' = cn_time ?c" using local_settle_time [of G ec "lf_timeout ?f" "(p, ?reqs)" ?c] ls(1) by simp
  note res = transfer_result [OF tr(1)]
  show thesis
  proof (rule that [OF gs ls(2)])
    show "funded (key_address G k) (ge_pay_to E) domain (m - 1) ?w"
      using assms(6) res by (auto simp: funded_def Let_def tr(2) tm token_open_def a p(3))
    show "spent (key_address G k) n ?w \<longleftrightarrow> spent (key_address G k) n w \<or> n = bound_nonce G x url" for n
      using res by (auto simp: spent_def tr(2) a p(3))
  qed simp_all
qed

text \<open>A spent authorization does not settle again, whatever its verdict was.\<close>

lemma probe_spent_fails:
  assumes "geth_text G" and "geth_sig G" and "H = probe G ec k E domain host"
    and "probe_payment G k H t url x p" and "funded (key_address G k) (ge_pay_to E) domain m w"
    and "spent (key_address G k) (bound_nonce G x url) w" and "ge_settle (ch_env H) p (requirements (ch_env H) resource) w = (out, w')"
  shows "(\<nexists>sr. out = Inr (Some sr) \<and> sresp_success sr) \<and> calm (key_address G k) (ge_pay_to E) domain w w'"
proof -
  let ?E = "ch_env H" and ?f = "lw_facilitator w" and ?c = "lw_chain w"
  let ?reqs = "requirements ?E resource"
  define a where "a = conform_authorization H t (bound_nonce G x url)"
  note H = assms(3)
  obtain sig where p: "parse_exact_payload G (pp_payload p) = Inr (a, sig)" "au_from a = key_address G k"
    by (rule probe_payment_facts [OF assms(1,2,4) _ _ a_def]) (auto simp: H)
  have n: "au_nonce a = bound_nonce G x url" by (simp add: a_def conform_authorization_def)
  let ?ls = "local_settle G ec (lf_timeout ?f) (p, ?reqs) ?c"
  have dvp: "\<not> lf_dvp ?f" using assms(5) by (simp add: funded_def Let_def)
  have gs: "out = map_sum id Some (fst ?ls)" "w' = w\<lparr>lw_chain := snd ?ls\<rparr>"
    using gateway_settle [OF dvp, of G ec "conform_env True E" p ?reqs] assms(7) by (simp_all add: H)
  have refused: "\<exists>e. transfer_with_authorization G ec tm a v r q (cn_token ?c) = Inl e" for tm v r q
    using transfer_spends [of G ec tm a v r q "cn_token ?c"] assms(6)
    by (cases "transfer_with_authorization G ec tm a v r q (cn_token ?c)") (auto simp: spent_def p(2) n)
  have "(\<nexists>sr. fst ?ls = Inr sr \<and> sresp_success sr) \<and> cn_token (snd ?ls) = cn_token ?c"
    using local_settle_cases [of G ec "lf_timeout ?f" "(p, ?reqs)" ?c]
  proof (elim disjE exE conjE)
    fix a' s' v r q sr
    assume "parse_exact_payload G (pp_payload (fst (p, ?reqs))) = Inr (a', s')" and sr: "fst ?ls = Inr sr"
      and t: "case transfer_with_authorization G ec (cn_time ?c) a' v r q (cn_token ?c) of
        Inl _ \<Rightarrow> \<not> sresp_success sr \<and> cn_token (snd ?ls) = cn_token ?c | Inr t \<Rightarrow> sresp_success sr \<and> cn_token (snd ?ls) = t"
    then have "a' = a" using p(1) by simp
    then show ?thesis using t sr refused [of "cn_time ?c" v r q] by auto
  qed simp
  moreover have "cn_time (snd ?ls) = cn_time ?c" by (rule local_settle_time)
  ultimately show ?thesis
    using gs by (auto simp: calm_def funded_def spent_def Let_def map_sum_def split: sum.splits)
qed

section \<open>A request of the probe, fresh and repeated\<close>

text \<open>The harness with another verification, and a state from which the payer can still pay \<open>m\<close>.\<close>

definition verifying ::
    "'w conform_harness \<Rightarrow> (payment_payload \<Rightarrow> payment_requirements \<Rightarrow> 'w \<Rightarrow> verify_result option result \<times> 'w) \<Rightarrow> 'w conform_harness" where
  "verifying H v = H\<lparr>ch_env := (ch_env H)\<lparr>ge_verify := v\<rparr>\<rparr>"

lemma verifying_own: "verifying H (ge_verify (ch_env H)) = H"
  by (simp add: verifying_def)

lemma requirements_verify [simp]: "requirements (E\<lparr>ge_verify := v\<rparr>) r = requirements E r"
  by (simp add: requirements_def gateway_timeout_def)

definition probing :: "address \<Rightarrow> address \<Rightarrow> bytes32 \<Rightarrow> int \<Rightarrow> local_world conform_state \<Rightarrow> bool" where
  "probing payer to domain m s \<longleftrightarrow> gw_inflight (cs_gateway s) = Map.empty \<and> funded payer to domain m (gw_world (cs_gateway s))"

abbreviation world_of :: "'w conform_state \<Rightarrow> 'w" where
  "world_of s \<equiv> gw_world (cs_gateway s)"

lemma probe_bound:
  assumes "geth_text G" and "geth_sig G" and "H = probe G ec k E domain host" and "probe_payment G k H t (conform_url H path) x p"
  shows "check_resource_binding ((ch_env H)\<lparr>ge_verify := v\<rparr>) p (requirements (ch_env H) (conform_url H path)) = None"
proof -
  have "check_resource_binding ((ch_env H)\<lparr>ge_verify := v\<rparr>) p (requirements (ch_env H) (conform_url H path)) =
      check_resource_binding (ch_env H) p (requirements (ch_env H) (conform_url H path))"
    by (simp add: check_resource_binding_def Let_def split: sum.split prod.split)
  also have "\<dots> = None"
  proof -
    obtain sig where p: "p = auth_payload G (ge_network E) (conform_authorization H t (bound_nonce G x (conform_url H path))) sig
        (''0x'' @ hex_encode (bytes32_bytes x)) None None None"
      using assms(3,4) by (auto simp: probe_payment_def)
    show ?thesis unfolding p using auth_payload_bound [of "ch_env H"] assms(1,3)
      by (simp add: conform_authorization_def requirements_def)
  qed
  finally show ?thesis .
qed

lemma post_pays:
  assumes "geth_text G" and "geth_sig G" and "ecrecover_law G ec" and "disk_ok E" and "H = probe G ec k E domain host"
    and "probe_payment G k H (lw_now (world_of s)) (conform_url H path) x p"
    and "probing (key_address G k) (ge_pay_to E) domain m s" and "1 \<le> m"
    and "\<not> spent (key_address G k) (bound_nonce G x (conform_url H path)) (world_of s)"
    and "v p (requirements (ch_env H) (conform_url H path)) (world_of s) = (Inr (Some vr), w)" and "vr_is_valid vr"
    and "calm (key_address G k) (ge_pay_to E) domain (world_of s) w"
  obtains s' where "conform_post (verifying H v) path p s = (200, s')" "probing (key_address G k) (ge_pay_to E) domain (m - 1) s'"
    "lw_random (world_of s') = lw_random (world_of s)" "lw_now (world_of s') = lw_now (world_of s)"
    "\<And>n. spent (key_address G k) n (world_of s') \<longleftrightarrow> spent (key_address G k) n (world_of s) \<or> n = bound_nonce G x (conform_url H path)"
    "conform_settlements s' = conform_settlements s + 1"
proof -
  let ?E = "(ch_env H)\<lparr>ge_verify := v\<rparr>" and ?H = "verifying H v"
  let ?reqs = "requirements (ch_env H) (conform_url H path)" and ?s = "count inc_request (cs_gateway s)"
  note H = assms(5)
  have fd: "funded (key_address G k) (ge_pay_to E) domain m w" "gw_inflight (cs_gateway s) = Map.empty"
    using assms(7,12) by (auto simp: probing_def calm_def)
  have un: "\<not> spent (key_address G k) (bound_nonce G x (conform_url H path)) w" and nw: "lw_now w = lw_now (world_of s)"
    and rn: "lw_random w = lw_random (world_of s)"
    using assms(9,12) by (simp_all add: calm_def)
  obtain sr w' where gs: "ge_settle (ch_env H) p ?reqs w = (Inr (Some sr), w')" "sresp_success sr"
    and w': "funded (key_address G k) (ge_pay_to E) domain (m - 1) w'" "lw_random w' = lw_random w" "lw_now w' = lw_now w"
      "\<And>n. spent (key_address G k) n w' \<longleftrightarrow> spent (key_address G k) n w \<or> n = bound_nonce G x (conform_url H path)"
    by (rule probe_settles [OF assms(1-3,5,6) fd(1) assms(8) nw [symmetric] un]) blast
  obtain sig a where p: "parse_exact_payload G (pp_payload p) = Inr (a, sig)" "pp_session p = None"
    by (rule probe_payment_facts [OF assms(1,2,6) _ _ refl]) (auto simp: H)
  have fresh: "inflight_get (fst (payload_nonce (ge_geth ?E) p)) ?s = None" using fd(2) by (simp add: inflight_get_def)
  have policy: "ge_policy ?E w = None" "ge_deliverer ?E = None" by (simp_all add: H)
  have verified: "ge_verify ?E p ?reqs (gw_world ?s) = (Inr (Some vr), w)" using assms(10) by simp
  have flow: "\<exists>r s3. verify_and_settle ?E (Decoded p) ?reqs ?s = (Inr r, s3) \<and>
      gw_settlements s3 = gw_settlements (cs_gateway s) @ [r] \<and> gw_world s3 = w' \<and> gw_inflight s3 = Map.empty"
    using fresh probe_bound [OF assms(1,2,5,6)] policy verified
  proof (cases rule: default_flow)
    case (valid v' pc s1)
    obtain r s3 where "settle ?E p ?reqs pc s1 = (Inr r, s3)" "gw_settlements s3 = gw_settlements s1 @ [r]" "gw_world s3 = w'"
        "gw_inflight s3 = gw_inflight s1"
      by (rule settle_succeeds [of ?E p ?reqs s1 sr w' a sig pc]) (use assms(4) gs p valid(3) H in \<open>auto simp: disk_ok_def\<close>)
    then show ?thesis using valid(4,5) fd(2) by (auto simp: same_books_def)
  next
    case (refused f s1)
    then show ?thesis using assms(11) by auto
  qed
  then obtain r s3 where s3: "verify_and_settle ?E (Decoded p) ?reqs ?s = (Inr r, s3)"
      "gw_settlements s3 = gw_settlements (cs_gateway s) @ [r]" "gw_world s3 = w'" "gw_inflight s3 = Map.empty" by blast
  obtain g where g: "conform_post ?H path p s = (200, s\<lparr>cs_gateway := g, cs_served := cs_served s + 1\<rparr>)" "gw_world g = w'" "same_books s3 g"
    using post_flow [of ?H p path s "Inr r" s3] s3 p(2) by (auto simp: verifying_def conform_url_def H)
  show thesis
    by (rule that [OF g(1)])
      (use g(2,3) s3(2,4) w' un rn nw assms(12) in \<open>simp_all add: probing_def same_books_def conform_settlements_def calm_def\<close>)
qed

lemma post_refused:
  assumes "geth_text G" and "geth_sig G" and "H = probe G ec k E domain host"
    and "probe_payment G k H t (conform_url H path) x p" and "probing (key_address G k) (ge_pay_to E) domain m s"
    and "spent (key_address G k) (bound_nonce G x (conform_url H path)) (world_of s)"
    and "v p (requirements (ch_env H) (conform_url H path)) (world_of s) = (out, w)"
    and "calm (key_address G k) (ge_pay_to E) domain (world_of s) w"
  obtains s' where "conform_post (verifying H v) path p s = (402, s')" "probing (key_address G k) (ge_pay_to E) domain m s'"
    "calm (key_address G k) (ge_pay_to E) domain (world_of s) (world_of s')" "conform_settlements s' = conform_settlements s"
proof -
  let ?E = "(ch_env H)\<lparr>ge_verify := v\<rparr>" and ?H = "verifying H v" and ?calm = "calm (key_address G k) (ge_pay_to E) domain"
  let ?reqs = "requirements (ch_env H) (conform_url H path)" and ?s = "count inc_request (cs_gateway s)"
  note H = assms(3)
  have fd: "funded (key_address G k) (ge_pay_to E) domain m w" "gw_inflight (cs_gateway s) = Map.empty"
    "spent (key_address G k) (bound_nonce G x (conform_url H path)) w"
    using assms(5,6,8) by (auto simp: probing_def calm_def)
  obtain out2 w2 where gs: "ge_settle (ch_env H) p ?reqs w = (out2, w2)" by (cases "ge_settle (ch_env H) p ?reqs w")
  note fails = probe_spent_fails [OF assms(1-4) fd(1,3) gs]
  obtain sig a where p: "pp_session p = None"
    by (rule probe_payment_facts [OF assms(1,2,4) _ _ refl]) (auto simp: H)
  have fresh: "inflight_get (fst (payload_nonce (ge_geth ?E) p)) ?s = None" using fd(2) by (simp add: inflight_get_def)
  have policy: "ge_policy ?E w = None" "ge_deliverer ?E = None" by (simp_all add: H)
  have verified: "ge_verify ?E p ?reqs (gw_world ?s) = (out, w)" using assms(7) by simp
  have flow: "\<exists>f s3. verify_and_settle ?E (Decoded p) ?reqs ?s = (Inl f, s3) \<and>
      gw_settlements s3 = gw_settlements (cs_gateway s) \<and> ?calm (world_of s) (gw_world s3) \<and> gw_inflight s3 = Map.empty"
    using fresh probe_bound [OF assms(1-4)] policy verified
  proof (cases rule: default_flow)
    case (valid v' pc s1)
    obtain f s3 where "settle ?E p ?reqs pc s1 = (Inl f, s3)" "gw_world s3 = w2" "same_books s1 s3"
      by (rule settle_fails [of ?E p ?reqs s1 out2 w2 pc]) (use gs fails valid(3) in auto)
    then show ?thesis using valid(4,5) fd(2) calm_trans [OF assms(8)] fails by (auto simp: same_books_def)
  next
    case (refused f s1)
    then show ?thesis using fd(2) assms(8) by (auto simp: same_books_def)
  qed
  then obtain f s3 where s3: "verify_and_settle ?E (Decoded p) ?reqs ?s = (Inl f, s3)"
      "gw_settlements s3 = gw_settlements (cs_gateway s)" "?calm (world_of s) (gw_world s3)" "gw_inflight s3 = Map.empty" by blast
  obtain g where g: "conform_post ?H path p s = (402, s\<lparr>cs_gateway := g\<rparr>)" "gw_world g = gw_world s3" "same_books s3 g"
    using post_flow [of ?H p path s "Inl f" s3] s3 p by (auto simp: verifying_def conform_url_def H)
  show thesis
    by (rule that [OF g(1)])
      (use g(2,3) s3(2-4) assms(5) in \<open>simp_all add: probing_def same_books_def conform_settlements_def calm_def\<close>)
qed

section \<open>Concurrent requests with one authorization\<close>

lemma verified_harness: "H\<lparr>ch_env := verified_env (ch_env H) out\<rparr> = verifying H (\<lambda>_ _ w. (out, w))"
  by (simp add: verifying_def verified_env_def)

lemma concurrent_spent:
  assumes "geth_text G" and "geth_sig G" and "H = probe G ec k E domain host" and "probe_payment G k H t (conform_url H path) x p"
    and "probing (key_address G k) (ge_pay_to E) domain m s"
    and "spent (key_address G k) (bound_nonce G x (conform_url H path)) (world_of s)"
    and "conform_concurrent H path p es vs s = (codes, s')"
  shows "200 \<notin> set codes \<and> probing (key_address G k) (ge_pay_to E) domain m s' \<and>
    calm (key_address G k) (ge_pay_to E) domain (world_of s) (world_of s') \<and> conform_settlements s' = conform_settlements s"
  using assms(5-7)
proof (induction es arbitrary: vs s codes s')
  case (Cons e es)
  let ?calm = "calm (key_address G k) (ge_pay_to E) domain"
  show ?case
  proof (cases e)
    case (Verifying i)
    obtain out w where v: "ge_verify (ch_env H) p (requirements (ch_env H) (conform_url H path)) (world_of s) = (out, w)" by fastforce
    have c: "?calm (world_of s) w"
      using verify_calm [of "key_address G k" "ge_pay_to E" domain m "world_of s" G ec "conform_env True E"] Cons.prems(1) v
      by (metis assms(3) probe_sel(1) probing_def snd_conv)
    let ?s = "s\<lparr>cs_gateway := (cs_gateway s)\<lparr>gw_world := w\<rparr>\<rparr>"
    have "probing (key_address G k) (ge_pay_to E) domain m ?s"
      "spent (key_address G k) (bound_nonce G x (conform_url H path)) (world_of ?s)"
      using Cons.prems(1,2) c by (simp_all add: probing_def calm_def)
    from Cons.IH [OF this] Cons.prems(3) v have "200 \<notin> set codes \<and> probing (key_address G k) (ge_pay_to E) domain m s' \<and>
        ?calm (world_of ?s) (world_of s') \<and> conform_settlements s' = conform_settlements ?s"
      by (simp add: Verifying Let_def)
    then show ?thesis using calm_trans [OF c] by (simp add: conform_settlements_def)
  next
    case (Finishing i)
    show ?thesis
    proof (cases "vs i")
      case None
      then show ?thesis using Cons.IH [OF Cons.prems(1,2)] Cons.prems(3) by (simp add: Finishing)
    next
      case (Some out)
      obtain s1 where p1: "conform_post (verifying H (\<lambda>_ _ w. (out, w))) path p s = (402, s1)"
          "probing (key_address G k) (ge_pay_to E) domain m s1" "?calm (world_of s) (world_of s1)"
          "conform_settlements s1 = conform_settlements s"
        by (rule post_refused [OF assms(1-4) Cons.prems(1,2), of "\<lambda>_ _ w. (out, w)" out "world_of s"]) simp_all
      have "spent (key_address G k) (bound_nonce G x (conform_url H path)) (world_of s1)"
        using Cons.prems(2) p1(3) by (simp add: calm_def)
      note ih = Cons.IH [OF p1(2) this]
      obtain codes1 s2 where c1: "conform_concurrent H path p es vs s1 = (codes1, s2)" by fastforce
      have "codes = 402 # codes1" "s' = s2"
        using Cons.prems(3) c1 p1(1) by (simp_all add: Finishing Some verified_harness)
      then show ?thesis using ih [OF c1] p1(4) calm_trans [OF p1(3)] by simp
    qed
  qed
qed simp

lemma concurrent_once:
  assumes "geth_text G" and "geth_sig G" and "ecrecover_law G ec" and "disk_ok E" and "H = probe G ec k E domain host"
    and "probe_payment G k H (lw_now (world_of s)) (conform_url H path) x p"
    and "probing (key_address G k) (ge_pay_to E) domain m s" and "1 \<le> m"
    and "\<not> spent (key_address G k) (bound_nonce G x (conform_url H path)) (world_of s)"
    and "\<forall>i out. vs i = Some out \<longrightarrow> (\<exists>v. out = Inr (Some v) \<and> vr_is_valid v)" and "orderly (dom vs) fs es"
    and "\<exists>e\<in>set es. finishing e" and "conform_concurrent H path p es vs s = (codes, s')"
  shows "length (filter (\<lambda>c. c = 200) codes) = 1 \<and> probing (key_address G k) (ge_pay_to E) domain (m - 1) s' \<and>
    conform_settlements s' = conform_settlements s + 1 \<and> lw_random (world_of s') = lw_random (world_of s)"
  using assms(6,7,9-13)
proof (induction es arbitrary: vs fs s codes s')
  case (Cons e es)
  let ?calm = "calm (key_address G k) (ge_pay_to E) domain" and ?reqs = "requirements (ch_env H) (conform_url H path)"
  show ?case
  proof (cases e)
    case (Verifying i)
    obtain out w where v: "ge_verify (ch_env H) p ?reqs (world_of s) = (out, w)" by fastforce
    have fd: "funded (key_address G k) (ge_pay_to E) domain m (world_of s)" using Cons.prems(2) by (simp add: probing_def)
    have c: "?calm (world_of s) w"
      using verify_calm [OF fd, of G ec "conform_env True E"] v by (metis assms(5) probe_sel(1) snd_conv)
    obtain vr where out: "out = Inr (Some vr)" "vr_is_valid vr"
      using probe_verifies [OF assms(1,2,5) Cons.prems(1) fd assms(8) refl Cons.prems(3) v] by blast
    let ?s = "s\<lparr>cs_gateway := (cs_gateway s)\<lparr>gw_world := w\<rparr>\<rparr>" and ?vs = "vs(i \<mapsto> out)"
    have "length (filter (\<lambda>c. c = 200) codes) = 1 \<and> probing (key_address G k) (ge_pay_to E) domain (m - 1) s' \<and>
      conform_settlements s' = conform_settlements ?s + 1 \<and> lw_random (world_of s') = lw_random (world_of ?s)"
    proof (rule Cons.IH [of ?s ?vs fs])
      show "\<forall>j out. ?vs j = Some out \<longrightarrow> (\<exists>v. out = Inr (Some v) \<and> vr_is_valid v)" using Cons.prems(4) out by simp
      show "orderly (dom ?vs) fs es" using Cons.prems(5) by (simp add: Verifying)
      show "\<exists>e\<in>set es. finishing e" using Cons.prems(6) by (simp add: Verifying)
      show "conform_concurrent H path p es ?vs ?s = (codes, s')" using Cons.prems(7) v by (simp add: Verifying Let_def)
    qed (use Cons.prems(1-3) c in \<open>simp_all add: probing_def calm_def\<close>)
    then show ?thesis using c by (simp add: conform_settlements_def calm_def)
  next
    case (Finishing i)
    then obtain out where i: "vs i = Some out" using Cons.prems(5) by auto
    with Cons.prems(4) obtain vr where out: "out = Inr (Some vr)" "vr_is_valid vr" by blast
    obtain s1 where p1: "conform_post (verifying H (\<lambda>_ _ w. (out, w))) path p s = (200, s1)"
        "probing (key_address G k) (ge_pay_to E) domain (m - 1) s1" "lw_random (world_of s1) = lw_random (world_of s)"
        "\<And>n. spent (key_address G k) n (world_of s1) \<longleftrightarrow> spent (key_address G k) n (world_of s) \<or> n = bound_nonce G x (conform_url H path)"
        "conform_settlements s1 = conform_settlements s + 1"
      by (rule post_pays [OF assms(1-5) Cons.prems(1,2) assms(8) Cons.prems(3), of "\<lambda>_ _ w. (out, w)" vr "world_of s"])
        (use out in simp_all)
    obtain codes1 s2 where c1: "conform_concurrent H path p es vs s1 = (codes1, s2)" by fastforce
    have eq: "codes = 200 # codes1" "s' = s2"
      using Cons.prems(7) c1 p1(1) by (simp_all add: Finishing i verified_harness)
    have "spent (key_address G k) (bound_nonce G x (conform_url H path)) (world_of s1)" using p1(4) by simp
    from concurrent_spent [OF assms(1,2,5) Cons.prems(1) p1(2) this c1]
    have "200 \<notin> set codes1" "probing (key_address G k) (ge_pay_to E) domain (m - 1) s2"
      "conform_settlements s2 = conform_settlements s1" "lw_random (world_of s2) = lw_random (world_of s1)"
      by (simp_all add: calm_def)
    then show ?thesis using p1(3,5) by (auto simp: eq filter_empty_conv)
  qed
qed simp

section \<open>The checks\<close>

lemma self_post_pays:
  assumes "geth_text G" and "geth_sig G" and "ecrecover_law G ec" and "disk_ok E" and "H = probe G ec k E domain host"
    and "probe_payment G k H (lw_now (world_of s)) (conform_url H path) x p"
    and "probing (key_address G k) (ge_pay_to E) domain m s" and "1 \<le> m"
    and "\<not> spent (key_address G k) (bound_nonce G x (conform_url H path)) (world_of s)"
  obtains s' where "conform_post H path p s = (200, s')" "probing (key_address G k) (ge_pay_to E) domain (m - 1) s'"
    "lw_random (world_of s') = lw_random (world_of s)" "lw_now (world_of s') = lw_now (world_of s)"
    "\<And>n. spent (key_address G k) n (world_of s') \<longleftrightarrow> spent (key_address G k) n (world_of s) \<or> n = bound_nonce G x (conform_url H path)"
    "conform_settlements s' = conform_settlements s + 1"
proof -
  let ?reqs = "requirements (ch_env H) (conform_url H path)"
  obtain out w where v: "ge_verify (ch_env H) p ?reqs (world_of s) = (out, w)" by fastforce
  have fd: "funded (key_address G k) (ge_pay_to E) domain m (world_of s)" using assms(7) by (simp add: probing_def)
  have c: "calm (key_address G k) (ge_pay_to E) domain (world_of s) w"
    using verify_calm [OF fd, of G ec "conform_env True E"] v by (metis assms(5) probe_sel(1) snd_conv)
  obtain vr where out: "out = Inr (Some vr)" "vr_is_valid vr"
    using probe_verifies [OF assms(1,2,5,6) fd assms(8) refl assms(9) v] by blast
  show thesis
    by (rule post_pays [OF assms(1-9), of "ge_verify (ch_env H)" vr w])
      (use out c v in \<open>simp_all add: verifying_own that\<close>)
qed

lemma self_post_refused:
  assumes "geth_text G" and "geth_sig G" and "H = probe G ec k E domain host"
    and "probe_payment G k H t (conform_url H path) x p" and "probing (key_address G k) (ge_pay_to E) domain m s"
    and "spent (key_address G k) (bound_nonce G x (conform_url H path)) (world_of s)"
  obtains s' where "conform_post H path p s = (402, s')" "probing (key_address G k) (ge_pay_to E) domain m s'"
    "calm (key_address G k) (ge_pay_to E) domain (world_of s) (world_of s')"
proof -
  obtain out w where v: "ge_verify (ch_env H) p (requirements (ch_env H) (conform_url H path)) (world_of s) = (out, w)" by fastforce
  have fd: "funded (key_address G k) (ge_pay_to E) domain m (world_of s)" using assms(5) by (simp add: probing_def)
  have c: "calm (key_address G k) (ge_pay_to E) domain (world_of s) w"
    using verify_calm [OF fd, of G ec "conform_env True E"] v by (metis assms(3) probe_sel(1) snd_conv)
  show thesis
    by (rule post_refused [OF assms(1-6), of "ge_verify (ch_env H)" out w]) (use v c in \<open>simp_all add: verifying_own that\<close>)
qed

text \<open>Signing uses a random value up, and nothing else.\<close>

lemma probe_signs:
  assumes "\<And>h. crypto_sign G h k \<noteq> None" and "H = probe G ec k E domain host" and "lw_random (world_of s) = x # rest"
    and "probing (key_address G k) (ge_pay_to E) domain m s"
  obtains p s' where "conform_sign H url True s = (Inr p, s')" "probe_payment G k H (lw_now (world_of s')) url x p"
    "probing (key_address G k) (ge_pay_to E) domain m s'" "lw_random (world_of s') = rest"
    "\<And>n. spent (key_address G k) n (world_of s') \<longleftrightarrow> spent (key_address G k) n (world_of s)"
    "conform_settlements s' = conform_settlements s"
proof -
  let ?s = "s\<lparr>cs_gateway := (cs_gateway s)\<lparr>gw_world := (world_of s)\<lparr>lw_random := rest\<rparr>\<rparr>\<rparr>"
  obtain p where p: "conform_sign H url True s = (Inr p, ?s)" "probe_payment G k H (lw_now (world_of s)) url x p"
    by (rule conform_signs [of G k H s x rest url]) (use assms in simp_all)
  show thesis
    by (rule that [OF p(1)])
      (use p(2) assms(4) in \<open>simp_all add: probing_def funded_def spent_def conform_settlements_def Let_def\<close>)
qed

lemma replay_passes:
  assumes "geth_text G" and "geth_sig G" and "ecrecover_law G ec" and "disk_ok E" and "H = probe G ec k E domain host"
    and "\<And>h. crypto_sign G h k \<noteq> None" and "lw_random (world_of s) = x # rest"
    and "probing (key_address G k) (ge_pay_to E) domain m s" and "1 \<le> m"
    and "\<not> spent (key_address G k) (bound_nonce G x (conform_url H ''/a'')) (world_of s)"
  obtains r s' where "check_replay H s = (r, s')" "cr_ok r" "probing (key_address G k) (ge_pay_to E) domain (m - 1) s'"
    "lw_random (world_of s') = rest"
    "\<And>n. spent (key_address G k) n (world_of s') \<longleftrightarrow>
      spent (key_address G k) n (world_of s) \<or> n = bound_nonce G x (conform_url H ''/a'')"
proof -
  obtain p s1 where p: "conform_sign H (conform_url H ''/a'') True s = (Inr p, s1)"
      "probe_payment G k H (lw_now (world_of s1)) (conform_url H ''/a'') x p" "probing (key_address G k) (ge_pay_to E) domain m s1"
      "lw_random (world_of s1) = rest" "\<And>n. spent (key_address G k) n (world_of s1) \<longleftrightarrow> spent (key_address G k) n (world_of s)"
    by (rule probe_signs [OF assms(6,5,7,8)]) blast
  have "\<not> spent (key_address G k) (bound_nonce G x (conform_url H ''/a'')) (world_of s1)" using assms(10) p(5) by blast
  then obtain s2 where s2: "conform_post H ''/a'' p s1 = (200, s2)" "probing (key_address G k) (ge_pay_to E) domain (m - 1) s2"
      "lw_random (world_of s2) = lw_random (world_of s1)"
      "\<And>n. spent (key_address G k) n (world_of s2) \<longleftrightarrow> spent (key_address G k) n (world_of s1) \<or> n = bound_nonce G x (conform_url H ''/a'')"
    by (rule self_post_pays [OF assms(1-5) p(2,3) assms(9)]) blast
  have "spent (key_address G k) (bound_nonce G x (conform_url H ''/a'')) (world_of s2)" using s2(4) by blast
  then obtain s3 where s3: "conform_post H ''/a'' p s2 = (402, s3)" "probing (key_address G k) (ge_pay_to E) domain (m - 1) s3"
      "calm (key_address G k) (ge_pay_to E) domain (world_of s2) (world_of s3)"
    by (rule self_post_refused [OF assms(1,2,5) p(2) s2(2)]) blast
  show thesis
    by (rule that [of "\<lparr>cr_name = ''replay rejected'', cr_ok = True, cr_detail = ''the second submission was refused''\<rparr>" s3])
      (use p(1,4,5) s2(1,3,4) s3 in \<open>simp_all add: check_replay_def calm_def\<close>)
qed

lemma concurrent_passes:
  assumes "geth_text G" and "geth_sig G" and "ecrecover_law G ec" and "disk_ok E" and "H = probe G ec k E domain host"
    and "\<And>h. crypto_sign G h k \<noteq> None" and "lw_random (world_of s) = x # rest"
    and "probing (key_address G k) (ge_pay_to E) domain m s" and "1 \<le> m"
    and "\<not> spent (key_address G k) (bound_nonce G x (conform_url H ''/a'')) (world_of s)"
    and "schedule n es" and "1 \<le> n"
  obtains r s' where "check_concurrent_single_settlement H es n s = (r, s')" "cr_ok r"
    "probing (key_address G k) (ge_pay_to E) domain (m - 1) s'" "lw_random (world_of s') = rest"
proof -
  obtain p s1 where p: "conform_sign H (conform_url H ''/a'') True s = (Inr p, s1)"
      "probe_payment G k H (lw_now (world_of s1)) (conform_url H ''/a'') x p" "probing (key_address G k) (ge_pay_to E) domain m s1"
      "lw_random (world_of s1) = rest" "\<And>n. spent (key_address G k) n (world_of s1) \<longleftrightarrow> spent (key_address G k) n (world_of s)"
    by (rule probe_signs [OF assms(6,5,7,8)]) blast
  obtain codes s2 where c: "conform_concurrent H ''/a'' p es Map.empty s1 = (codes, s2)" by fastforce
  have "filter finishing es \<noteq> []" using assms(11,12) by (auto simp: schedule_def)
  then have "\<exists>e\<in>set es. finishing e" by (simp add: filter_empty_conv)
  moreover have "orderly (dom (Map.empty :: nat \<rightharpoonup> verify_result option result)) {} es" using assms(11) by (simp add: schedule_def)
  ultimately have "length (filter (\<lambda>c. c = 200) codes) = 1 \<and> probing (key_address G k) (ge_pay_to E) domain (m - 1) s2 \<and>
      conform_settlements s2 = conform_settlements s1 + 1 \<and> lw_random (world_of s2) = lw_random (world_of s1)"
    using concurrent_once [OF assms(1-5) p(2,3) assms(9) _ _ _ _ c, of "{}"] p(5) assms(10) by simp
  then show thesis
    by (intro that [of "\<lparr>cr_name = ''single settlement under load'', cr_ok = True,
        cr_detail = ''exactly one of the concurrent requests settled''\<rparr>" s2])
      (use p(1,4) c in \<open>simp_all add: check_concurrent_single_settlement_def\<close>)
qed

text \<open>A payment the binding check refuses, or whose settlement fails, is a 402 and leaves the books.\<close>

lemma binding_refused:
  assumes "inflight_get (fst (payload_nonce (ge_geth E) p)) s = None" and "check_resource_binding E p reqs = Some f"
  shows "verify_and_settle E (Decoded p) reqs s = (Inl f, s)"
  using assms by (simp add: verify_and_settle_def Let_def)

lemma other_resource_unbound:
  assumes "geth_text G" and "au_nonce a = bound_nonce G x url" and "bound_nonce G x (pr_resource reqs) \<noteq> bound_nonce G x url"
    and "ge_geth E = G"
  shows "check_resource_binding E (auth_payload G network a sig (''0x'' @ hex_encode (bytes32_bytes x)) None None None) reqs =
    Some (fail ErrCodeNonceUnbound ''authorization nonce is not bound to this resource'')"
proof -
  let ?p = "auth_payload G network a sig (''0x'' @ hex_encode (bytes32_bytes x)) None None None"
  have "pp_confirmation ?p = None" "ep_nonce_seed (pp_payload ?p) = ''0x'' @ hex_encode (bytes32_bytes x)"
    by (simp_all add: auth_payload_def)
  then show ?thesis
    using auth_payload_nonce [OF assms(1)] assms(2-4) by (simp add: check_resource_binding_def hex_to_32_def)
qed

lemma cross_passes:
  assumes "geth_text G" and "H = probe G ec k E domain host"
    and "\<And>h. crypto_sign G h k \<noteq> None" and "lw_random (world_of s) = x # rest"
    and "probing (key_address G k) (ge_pay_to E) domain m s"
    and "bound_nonce G x (conform_url H ''/b'') \<noteq> bound_nonce G x (conform_url H ''/a'')"
  obtains r s' where "check_cross_resource H s = (r, s')" "cr_ok r"
proof -
  obtain p s1 where p: "conform_sign H (conform_url H ''/a'') True s = (Inr p, s1)"
      "probe_payment G k H (lw_now (world_of s1)) (conform_url H ''/a'') x p" "probing (key_address G k) (ge_pay_to E) domain m s1"
    by (rule probe_signs [OF assms(3,2,4,5)]) blast
  let ?reqs = "requirements (ch_env H) (conform_url H ''/b'')" and ?s = "count inc_request (cs_gateway s1)"
  define a where "a = conform_authorization H (lw_now (world_of s1)) (bound_nonce G x (conform_url H ''/a''))"
  obtain sig where sig: "p = auth_payload G (ch_network H) a sig (''0x'' @ hex_encode (bytes32_bytes x)) None None None"
    using p(2) by (auto simp: probe_payment_def a_def)
  have "au_nonce a = bound_nonce G x (conform_url H ''/a'')" by (simp add: a_def conform_authorization_def)
  then have "check_resource_binding (ch_env H) p ?reqs =
      Some (fail ErrCodeNonceUnbound ''authorization nonce is not bound to this resource'')"
    unfolding sig by (rule other_resource_unbound [OF assms(1)]) (use assms(6) in \<open>simp_all add: requirements_def assms(2)\<close>)
  moreover have "inflight_get (fst (payload_nonce (ge_geth (ch_env H)) p)) ?s = None"
    using p(3) by (simp add: probing_def inflight_get_def)
  ultimately have "verify_and_settle (ch_env H) (Decoded p) ?reqs ?s =
      (Inl (fail ErrCodeNonceUnbound ''authorization nonce is not bound to this resource''), ?s)"
    by (rule binding_refused [rotated])
  moreover have "pp_session p = None" by (simp add: sig auth_payload_def)
  ultimately obtain g where "conform_post H ''/b'' p s1 = (402, s1\<lparr>cs_gateway := g\<rparr>)"
    using post_flow [of H p "''/b''" s1] by (fastforce simp: assms(2))
  then show thesis
    by (intro that [of "\<lparr>cr_name = ''resource binding enforced'', cr_ok = True,
        cr_detail = ''the cross-resource payment was refused''\<rparr>"]) (simp_all add: check_cross_resource_def p(1))
qed

lemma failing_settlement_refused:
  assumes "ge_settle E = (\<lambda>p reqs w. (Inr (Some sr), w))" and "\<not> sresp_success sr" and "\<And>w. ge_policy E w = None"
    and "ge_deliverer E = None" and "gw_inflight s = Map.empty"
  obtains f s' where "verify_and_settle E (Decoded p) reqs s = (Inl f, s')" "same_books s s'"
proof -
  have fresh: "inflight_get (fst (payload_nonce (ge_geth E) p)) s = None" using assms(5) by (simp add: inflight_get_def)
  show thesis
  proof (cases "check_resource_binding E p reqs")
    case (Some f)
    then show thesis using binding_refused [OF fresh] that by simp
  next
    case None
    obtain out w where v: "ge_verify E p reqs (gw_world s) = (out, w)" by fastforce
    show thesis
      using fresh None assms(3,4) v
    proof (cases rule: default_flow)
      case (valid v' pc s1)
      obtain f s2 where "settle E p reqs pc s1 = (Inl f, s2)" "same_books s1 s2"
        by (rule settle_fails [of E p reqs s1 "Inr (Some sr)" "gw_world s1" pc]) (use assms(1,2) in auto)
      then show thesis using that valid(4,5) by (auto simp: same_books_def)
    next
      case (refused f s1)
      then show thesis using that by simp
    qed
  qed
qed

lemma failure_passes:
  assumes "\<And>h. crypto_sign G h k \<noteq> None" and "lw_random w1 = x # rest"
  shows "cr_ok (check_settlement_failure
    (Inr (failing_harness (gateway_facilitator G ec E) (wallet_from_key G k) domain host, conform_start w1)))"
proof -
  define H where "H = failing_harness (gateway_facilitator G ec E) (wallet_from_key G k) domain host"
  have H: "ge_geth (ch_env H) = G" "ge_random (ch_env H) = next_random" "ge_now (ch_env H) = lw_now" "ch_protect H"
      "ch_payer H = wallet_from_key G k" "\<not> ge_sessions_enabled (ch_env H)" "ge_receipt_key (ch_env H) = None"
      "\<And>w. ge_policy (ch_env H) w = None" "ge_deliverer (ch_env H) = None"
    by (simp_all add: H_def failing_harness_def build_harness_def failing_settle_facilitator_def conform_env_def gateway_facilitator_def)
  obtain sr where sr: "ge_settle (ch_env H) = (\<lambda>p reqs w. (Inr (Some sr), w))" "\<not> sresp_success sr"
    by (simp add: H_def failing_harness_def build_harness_def failing_settle_facilitator_def that)
  let ?s = "conform_start w1"
  let ?s1 = "?s\<lparr>cs_gateway := (cs_gateway ?s)\<lparr>gw_world := w1\<lparr>lw_random := rest\<rparr>\<rparr>\<rparr>"
  obtain p where p: "conform_sign H (conform_url H ''/a'') True ?s = (Inr p, ?s1)"
      "probe_payment G k H (lw_now w1) (conform_url H ''/a'') x p"
    by (rule conform_signs [of G k H ?s x rest "conform_url H ''/a''"]) (use assms H in \<open>simp_all add: conform_start_def\<close>)
  obtain f g where f: "verify_and_settle (ch_env H) (Decoded p) (requirements (ch_env H) (conform_url H ''/a''))
      (count inc_request (cs_gateway ?s1)) = (Inl f, g)" "same_books (count inc_request (cs_gateway ?s1)) g"
    by (rule failing_settlement_refused [OF sr H(8,9), of "count inc_request (cs_gateway ?s1)"]) (simp_all add: conform_start_def)
  have "pp_session p = None" using p(2) by (auto simp: probe_payment_def auth_payload_def)
  then obtain g' where "conform_post H ''/a'' p ?s1 = (402, ?s1\<lparr>cs_gateway := g'\<rparr>)" "same_books g g'"
    using post_flow [OF H(4,6,7) _ f(1)] by auto
  then show ?thesis
    using f(2) p(1) by (simp add: check_settlement_failure_def same_books_def conform_settlements_def conform_start_def
        flip: H_def)
qed

text \<open>A target that serves without payment is found out by the first check.\<close>

lemma unprotected_found:
  assumes "\<not> ch_protect H"
  shows "\<not> cr_ok (fst (check_replay H s))"
  using assms by (auto simp: check_replay_def conform_post_def split: sum.split prod.split)

lemma no_requests_found: "\<not> cr_ok (fst (check_concurrent_single_settlement H [] n s))"
  by (auto simp: check_concurrent_single_settlement_def split: sum.split prod.split)

text \<open>
  C37. The gateway passes its own conformance probe. For a payer with two payments and three
  random values whose bound nonces are distinct and unused, every check of
  \<open>conform --self\<close> passes, whatever the order in which the \<open>n \<ge> 1\<close> concurrent requests
  verify and settle, and it ends without an error: the gateway settles a payment once, refuses
  it when replayed or sent to another resource, and delivers and records nothing when the
  settlement fails. The probe is not vacuous: a target that serves without payment makes it
  end with an error, and so does a run with no concurrent requests.
\<close>

theorem conform_self_passes:
  assumes "geth_text G" and "geth_sig G" and "ecrecover_law G ec" and "\<And>h. crypto_sign G h k \<noteq> None" and "disk_ok E"
    and "H = self_harness (gateway_facilitator G ec E) (wallet_from_key G k) domain host"
    and "funded (key_address G k) (ge_pay_to E) domain 2 w" and "lw_random w = x1 # x2 # x3 # rest"
    and "\<not> spent (key_address G k) (bound_nonce G x1 (conform_url H ''/a'')) w"
    and "\<not> spent (key_address G k) (bound_nonce G x2 (conform_url H ''/a'')) w"
    and "bound_nonce G x1 (conform_url H ''/a'') \<noteq> bound_nonce G x2 (conform_url H ''/a'')"
    and "bound_nonce G x3 (conform_url H ''/b'') \<noteq> bound_nonce G x3 (conform_url H ''/a'')"
    and "schedule n es" and "1 \<le> n" and "lw_random w1 = x # rest1"
  shows "(\<exists>rs. conform_run True (Inr (H, conform_start w)) es n
      (Inr (failing_harness (gateway_facilitator G ec E) (wallet_from_key G k) domain host, conform_start w1)) = (rs, None) \<and>
      length rs = 4 \<and> (\<forall>r\<in>set rs. cr_ok r)) \<and>
    (\<not> ch_protect H' \<longrightarrow> snd (conform_run True (Inr (H', s)) es m failing) = Some ''one or more invariants failed'') \<and>
    snd (conform_run True (Inr (H', s)) [] 0 failing) = Some ''one or more invariants failed''"
proof -
  have H: "H = probe G ec k E domain host" by (simp add: probe_def assms(6))
  have start: "probing (key_address G k) (ge_pay_to E) domain 2 (conform_start w)" "world_of (conform_start w) = w"
    using assms(7) by (simp_all add: probing_def conform_start_def)
  have rnd: "lw_random (world_of (conform_start w)) = x1 # x2 # x3 # rest" using assms(8) start(2) by simp
  have un: "\<not> spent (key_address G k) (bound_nonce G x1 (conform_url H ''/a'')) (world_of (conform_start w))"
    using assms(9) start(2) by simp
  obtain r1 s1 where r1: "check_replay H (conform_start w) = (r1, s1)" "cr_ok r1"
      "probing (key_address G k) (ge_pay_to E) domain (2 - 1) s1" "lw_random (world_of s1) = x2 # x3 # rest"
      "\<And>n. spent (key_address G k) n (world_of s1) \<longleftrightarrow>
        spent (key_address G k) n (world_of (conform_start w)) \<or> n = bound_nonce G x1 (conform_url H ''/a'')"
    by (rule replay_passes [OF assms(1-3,5) H assms(4) rnd start(1) _ un]) auto
  have un2: "\<not> spent (key_address G k) (bound_nonce G x2 (conform_url H ''/a'')) (world_of s1)"
    using r1(5) assms(10,11) start(2) by metis
  obtain r2 s2 where r2: "check_concurrent_single_settlement H es n s1 = (r2, s2)" "cr_ok r2"
      "probing (key_address G k) (ge_pay_to E) domain (2 - 1 - 1) s2" "lw_random (world_of s2) = x3 # rest"
    by (rule concurrent_passes [OF assms(1-3,5) H assms(4) r1(4,3) _ un2 assms(13,14)]) auto
  obtain r3 s3 where r3: "check_cross_resource H s2 = (r3, s3)" "cr_ok r3"
    by (rule cross_passes [OF assms(1) H assms(4) r2(4,3) assms(12)]) auto
  have "\<not> cr_ok (fst (check_concurrent_single_settlement H' [] 0 (snd (check_replay H' s))))" by (rule no_requests_found)
  then have "snd (conform_run True (Inr (H', s)) [] 0 failing) = Some ''one or more invariants failed''"
    by (auto simp: conform_run_def split: prod.split)
  moreover have "snd (conform_run True (Inr (H', s)) es m failing) = Some ''one or more invariants failed''" if "\<not> ch_protect H'"
    using unprotected_found [OF that, of s] by (auto simp: conform_run_def split: prod.split)
  ultimately show ?thesis
    using r1(1,2) r2(1,2) r3 failure_passes [OF assms(4,15)] by (simp add: conform_run_def)
qed

definition probe_world :: local_world where
  "probe_world = \<lparr>lw_chain = pay_chain, lw_facilitator = plain_facilitator, lw_now = 1000000000000, lw_random = [1, 2, 4]\<rparr>"

lemma probe_world_funded: "funded (key_address sample_geth 2) (ge_pay_to contract_env) 0 2 probe_world"
proof -
  have "sum_balances pay_token = 100"
    using sum_fun_upd [of "\<lambda>_. 0" 2 100] by (simp add: sum_balances_def pay_token_def)
  then show ?thesis
    by (simp add: funded_def token_open_def token_ok_def probe_world_def pay_chain_def sample_unix sample_key(1)
        plain_facilitator_def uint256_max_def) (simp add: pay_token_def token_new_def)
qed

lemma sample_bound_nonce: "bound_nonce sample_geth x url = of_nat (sum_list (map unat (bytes32_bytes x)) +
    sum_list (map unat (bytes32_bytes (of_nat (sum_list (map (\<lambda>c. unat (of_char c :: byte)) url))))))"
  by (simp add: bound_nonce_def sample_geth_def string_bytes_def comp_def)

lemma url_sums:
  "sum_list (map (\<lambda>c. unat (of_char c :: byte)) ''http://h/a'') = 848"
  "sum_list (map (\<lambda>c. unat (of_char c :: byte)) ''http://h/b'') = 849"
  by simp_all

lemma byte_sums:
  "sum_list (map unat (bytes32_bytes 1)) = 1" "sum_list (map unat (bytes32_bytes 2)) = 2"
  "sum_list (map unat (bytes32_bytes 4)) = 4" "sum_list (map unat (bytes32_bytes 848)) = 83"
  "sum_list (map unat (bytes32_bytes 849)) = 84"
  by (simp_all add: bytes32_bytes_def upt_rec)

lemma probe_nonces:
  "bound_nonce sample_geth 1 ''http://h/a'' \<noteq> bound_nonce sample_geth 2 ''http://h/a''"
  "bound_nonce sample_geth 4 ''http://h/b'' \<noteq> bound_nonce sample_geth 4 ''http://h/a''"
  unfolding sample_bound_nonce url_sums by (simp_all add: byte_sums)

theorem conform_self_passes_witness:
  "\<exists>rs. conform_run True (Inr (self_harness contract_env (wallet_from_key sample_geth 2) 0 ''h'', conform_start probe_world))
      [Verifying 0, Verifying 1, Finishing 1, Finishing 0] 2
      (Inr (failing_harness contract_env (wallet_from_key sample_geth 2) 0 ''h'', conform_start probe_world)) = (rs, None) \<and>
    length rs = 4 \<and> (\<forall>r\<in>set rs. cr_ok r)"
proof -
  obtain E0 where E: "contract_env = gateway_facilitator sample_geth sample_ec E0" by (simp add: contract_env_def)
  have E0: "ge_pay_to E0 = 3" "disk_ok E0"
    using arg_cong [OF E, of ge_pay_to] arg_cong [OF E, of ge_disk] contract_direct
    by (simp_all add: gateway_facilitator_def direct_gateway_def disk_ok_def)
  let ?H = "self_harness (gateway_facilitator sample_geth sample_ec E0) (wallet_from_key sample_geth 2) 0 ''h''"
  have url: "conform_url ?H p = ''http://h'' @ p" for p
    by (simp add: conform_url_def self_harness_def build_harness_def)
  have un: "\<not> spent a m probe_world" for a m
    by (simp add: spent_def probe_world_def pay_chain_def pay_token_def token_new_def)
  have sched: "schedule 2 [Verifying 0, Verifying 1, Finishing 1, Finishing 0]" by (simp add: schedule_def)
  have fd: "funded (key_address sample_geth 2) (ge_pay_to E0) 0 2 probe_world" using probe_world_funded E0(1) by simp
  have rnd: "lw_random probe_world = 1 # 2 # 4 # []" by (simp add: probe_world_def)
  have "bound_nonce sample_geth 1 (conform_url ?H ''/a'') \<noteq> bound_nonce sample_geth 2 (conform_url ?H ''/a'')"
    "bound_nonce sample_geth 4 (conform_url ?H ''/b'') \<noteq> bound_nonce sample_geth 4 (conform_url ?H ''/a'')"
    using probe_nonces by (simp_all add: url)
  note passes = conform_self_passes [OF sample_geth_text sample_geth_sig sample_ec_law sample_key(2) E0(2) refl fd rnd un un this
      sched _ rnd, THEN conjunct1]
  show ?thesis unfolding E by (rule passes) simp
qed

end
