(* ===== verification/Hub.thy ===== *)
theory Hub
  imports Prelude
begin

text \<open>
  The demo server (\<open>cmd/demoweb\<close>): one hub runs the demo, keeps its log and fans every event
  out to the connected browsers. The hub's critical sections are the operations below; what
  happens between them (a send to one browser, a write of one event, the run's return) is a
  step of its own, and a schedule is any sequence of steps.

  Theorem: without a reset, a connected browser's stream, its buffer and what is on its way
  to it are always together the log, in order; after a reset no superseded run writes to the
  log. \<open>stale_event_after_reset\<close> shows a schedule in which a reset leaves a browser with an
  event that is not in the log.
\<close>

section \<open>hub.go\<close>

text \<open>\<open>demoflow.Event\<close>.\<close>

record demo_event =
  ev_step :: int
  ev_title :: string
  ev_kind :: string
  ev_text :: string
  ev_balances :: "(string \<times> string) list"
  ev_tx_hash :: string
  ev_error_code :: string
  ev_mandate_id :: string
  ev_audit_step :: string
  ev_audit_ok :: bool

definition blank_event :: demo_event where
  "blank_event = \<lparr>ev_step = 0, ev_title = '''', ev_kind = '''', ev_text = '''', ev_balances = [], ev_tx_hash = '''',
     ev_error_code = '''', ev_mandate_id = '''', ev_audit_step = '''', ev_audit_ok = False\<rparr>"

definition reset_event :: demo_event where
  "reset_event = blank_event\<lparr>ev_kind := ''reset''\<rparr>"

definition failed_event :: "string \<Rightarrow> demo_event" where
  "failed_event e = blank_event\<lparr>ev_kind := ''error'', ev_text := ''demo failed: '' @ e @ [CHR 0x0A], ev_error_code := ''demo_failed''\<rparr>"

text \<open>
  A stream's channel is its number; the context of a run is the run's generation; a wake
  channel is its number, closed once the hub has moved on to a larger one.
\<close>

record hub =
  hb_events :: "demo_event list"
  hb_subs :: "nat set"
  hb_running :: bool
  hb_run_ctx :: "int option"
  hb_cancel :: "int option"
  hb_gen :: int
  hb_auto :: bool
  hb_step_delay :: int
  hb_next :: bool
  hb_wake :: nat

definition new_hub :: "bool \<Rightarrow> int \<Rightarrow> hub" where
  "new_hub auto delay = \<lparr>hb_events = [], hb_subs = {}, hb_running = False, hb_run_ctx = None, hb_cancel = None, hb_gen = 0,
     hb_auto = auto, hb_step_delay = delay, hb_next = False, hb_wake = 0\<rparr>"

definition signal_control :: "hub \<Rightarrow> hub" where
  "signal_control h = h\<lparr>hb_wake := hb_wake h + 1\<rparr>"

text \<open>\<open>start\<close>: the run to launch, if any.\<close>

definition start_run :: "bool \<Rightarrow> hub \<Rightarrow> int option \<times> hub" where
  "start_run auto h =
     (let h1 = (if auto then signal_control (h\<lparr>hb_auto := True\<rparr>) else h) in
      if hb_running h1 then (None, h1)
      else let gen = hb_gen h1 + 1 in
        (Some gen, h1\<lparr>hb_gen := gen, hb_run_ctx := Some gen, hb_cancel := Some gen, hb_running := True\<rparr>))"

definition run_finished :: "int \<Rightarrow> hub \<Rightarrow> hub" where
  "run_finished gen h = (if hb_gen h = gen then h\<lparr>hb_running := False\<rparr> else h)"

definition send_next :: "hub \<Rightarrow> hub" where
  "send_next h = h\<lparr>hb_next := True\<rparr>"

text \<open>\<open>reset\<close>: the context it cancels and the streams it tells.\<close>

definition reset_hub :: "hub \<Rightarrow> int option \<times> nat set \<times> hub" where
  "reset_hub h =
     (let h1 = h\<lparr>hb_gen := hb_gen h + 1, hb_running := False, hb_auto := False, hb_events := []\<rparr> in
      (hb_cancel h, hb_subs h1, (signal_control h1)\<lparr>hb_next := False\<rparr>))"

definition emit_event :: "int \<Rightarrow> demo_event \<Rightarrow> hub \<Rightarrow> nat set option \<times> hub" where
  "emit_event gen e h =
     (if gen \<noteq> hb_gen h then (None, h) else (Some (hb_subs h), h\<lparr>hb_events := hb_events h @ [e]\<rparr>))"

definition hub_subscribe :: "nat \<Rightarrow> hub \<Rightarrow> demo_event list \<times> hub" where
  "hub_subscribe ch h = (hb_events h, h\<lparr>hb_subs := insert ch (hb_subs h)\<rparr>)"

definition hub_unsubscribe :: "nat \<Rightarrow> hub \<Rightarrow> hub" where
  "hub_unsubscribe ch h = h\<lparr>hb_subs := hb_subs h - {ch}\<rparr>"

text \<open>
  \<open>gate\<close>: a turn of its loop waits with the control state it has read; the ready cases of
  its select, one of which is taken.
\<close>

datatype gate_turn = GateReturns | GateAgain

definition gate_select :: "int \<Rightarrow> bool \<Rightarrow> nat \<Rightarrow> bool \<Rightarrow> int set \<Rightarrow> hub \<Rightarrow> (gate_turn \<times> hub) list" where
  "gate_select ctx auto wake elapsed cancelled h =
     (if ctx \<in> cancelled then [(GateReturns, h)] else []) @
     (if auto \<and> elapsed then [(GateReturns, h)] else []) @
     (if hb_next h then [(GateReturns, h\<lparr>hb_next := False\<rparr>)] else []) @
     (if wake < hb_wake h then [(GateAgain, h)] else [])"

section \<open>The goroutines around the hub\<close>

text \<open>
  The runs that have not returned, those that returned an error they still have to report,
  the sends of an event not made yet (by a run or, \<open>None\<close>, by a reset), each stream's buffer,
  and what each stream has written.
\<close>

record hub_world =
  hw_hub :: hub
  hw_cancelled :: "int set"
  hw_runs :: "int set"
  hw_failed :: "int \<rightharpoonup> string"
  hw_sending :: "(int option \<times> demo_event \<times> nat set) list"
  hw_queues :: "nat \<Rightarrow> demo_event list"
  hw_pages :: "nat \<Rightarrow> demo_event list"
  hw_streams :: nat

definition hub_world_new :: "hub \<Rightarrow> hub_world" where
  "hub_world_new h = \<lparr>hw_hub = h, hw_cancelled = {}, hw_runs = {}, hw_failed = Map.empty, hw_sending = [],
     hw_queues = (\<lambda>_. []), hw_pages = (\<lambda>_. []), hw_streams = 0\<rparr>"

definition stream_capacity :: nat where
  "stream_capacity = 1024"

definition not_done :: "(int option \<times> demo_event \<times> nat set) list \<Rightarrow> (int option \<times> demo_event \<times> nat set) list" where
  "not_done xs = filter (\<lambda>(s, e, cs). cs \<noteq> {}) xs"

definition publish :: "int option \<Rightarrow> demo_event \<Rightarrow> nat set option \<times> hub \<Rightarrow> hub_world \<Rightarrow> hub_world" where
  "publish sender e r w = w\<lparr>hw_hub := snd r,
     hw_sending := hw_sending w @ (case fst r of None \<Rightarrow> [] | Some cs \<Rightarrow> not_done [(sender, e, cs)])\<rparr>"

definition run_idle :: "int \<Rightarrow> hub_world \<Rightarrow> bool" where
  "run_idle g w \<longleftrightarrow> g \<in> hw_runs w \<and> (\<forall>(s, e, cs)\<in>set (hw_sending w). s \<noteq> Some g)"

text \<open>The goroutine of a run: emitting, returning, and reporting its error.\<close>

definition run_emits :: "int \<Rightarrow> demo_event \<Rightarrow> hub_world \<Rightarrow> hub_world option" where
  "run_emits g e w = (if run_idle g w then Some (publish (Some g) e (emit_event g e (hw_hub w)) w) else None)"

definition run_returns :: "int \<Rightarrow> string option \<Rightarrow> hub_world \<Rightarrow> hub_world option" where
  "run_returns g err w =
     (if run_idle g w then Some (w\<lparr>hw_hub := run_finished g (hw_hub w), hw_runs := hw_runs w - {g},
        hw_failed := (hw_failed w)(g := err)\<rparr>) else None)"

definition run_reports :: "int \<Rightarrow> hub_world \<Rightarrow> hub_world option" where
  "run_reports g w =
     (case hw_failed w g of
        None \<Rightarrow> None
      | Some e \<Rightarrow> (let w1 = w\<lparr>hw_failed := (hw_failed w)(g := None)\<rparr> in
          if g \<in> hw_cancelled w then Some w1
          else Some (publish (Some g) (failed_event e) (emit_event g (failed_event e) (hw_hub w1)) w1)))"

definition start_goroutine :: "bool \<Rightarrow> hub_world \<Rightarrow> hub_world" where
  "start_goroutine auto w =
     (let (g, h) = start_run auto (hw_hub w) in
      w\<lparr>hw_hub := h, hw_runs := (case g of None \<Rightarrow> hw_runs w | Some g \<Rightarrow> insert g (hw_runs w))\<rparr>)"

definition reset_goroutine :: "hub_world \<Rightarrow> hub_world" where
  "reset_goroutine w =
     (let (ctx, subs, h) = reset_hub (hw_hub w) in
      publish None reset_event (Some subs, h)
        (w\<lparr>hw_cancelled := (case ctx of None \<Rightarrow> hw_cancelled w | Some c \<Rightarrow> insert c (hw_cancelled w))\<rparr>))"

text \<open>One send of a fan-out: a full buffer drops the event.\<close>

definition send_to :: "nat \<Rightarrow> nat \<Rightarrow> hub_world \<Rightarrow> hub_world option" where
  "send_to i c w =
     (if i < length (hw_sending w) then
        (let (s, e, cs) = hw_sending w ! i in
         if c \<in> cs then Some (w\<lparr>
           hw_queues := (if length (hw_queues w c) < stream_capacity then (hw_queues w)(c := hw_queues w c @ [e]) else hw_queues w),
           hw_sending := not_done ((hw_sending w)[i := (s, e, cs - {c})])\<rparr>)
         else None)
      else None)"

section \<open>main.go\<close>

text \<open>\<open>handleEvents\<close>: connecting replays the log; then each event is written as it comes.\<close>

definition stream_connects :: "hub_world \<Rightarrow> hub_world" where
  "stream_connects w =
     (let c = hw_streams w; (past, h) = hub_subscribe c (hw_hub w) in
      w\<lparr>hw_hub := h, hw_streams := c + 1, hw_pages := (hw_pages w)(c := past)\<rparr>)"

definition stream_writes :: "nat \<Rightarrow> hub_world \<Rightarrow> hub_world option" where
  "stream_writes c w =
     (case hw_queues w c of
        [] \<Rightarrow> None
      | e # q \<Rightarrow> (if c \<in> hb_subs (hw_hub w) then
          Some (w\<lparr>hw_queues := (hw_queues w)(c := q), hw_pages := (hw_pages w)(c := hw_pages w c @ [e])\<rparr>) else None))"

definition stream_disconnects :: "nat \<Rightarrow> hub_world \<Rightarrow> hub_world option" where
  "stream_disconnects c w =
     (if c \<in> hb_subs (hw_hub w) then Some (w\<lparr>hw_hub := hub_unsubscribe c (hw_hub w)\<rparr>) else None)"

datatype hub_act = HubStart bool | HubNext | HubReset | HubEmits int demo_event | HubReturns int "string option" |
  HubReports int | HubSends nat nat | HubConnects | HubWrites nat | HubDisconnects nat

text \<open>\<open>handleControl\<close>: the status of the reply and what it does; \<open>None\<close> is a body that does not decode.\<close>

definition handle_control :: "string \<Rightarrow> string option \<Rightarrow> int \<times> hub_act option" where
  "handle_control meth body =
     (if meth \<noteq> ''POST'' then (405, None)
      else (case body of
        None \<Rightarrow> (400, None)
      | Some action \<Rightarrow>
          if action = ''start'' then (204, Some (HubStart False))
          else if action = ''auto'' then (204, Some (HubStart True))
          else if action = ''next'' then (204, Some HubNext)
          else if action = ''reset'' then (204, Some HubReset)
          else (400, None)))"

definition port_hint :: "string \<Rightarrow> string" where
  "port_hint listen = (if listen \<noteq> [] \<and> hd listen = CHR '':'' then listen else '' at '' @ listen)"

text \<open>A step of the server; \<open>None\<close> when it is not enabled.\<close>

fun hub_step :: "hub_act \<Rightarrow> hub_world \<Rightarrow> hub_world option" where
  "hub_step (HubStart auto) w = Some (start_goroutine auto w)"
| "hub_step HubNext w = Some (w\<lparr>hw_hub := send_next (hw_hub w)\<rparr>)"
| "hub_step HubReset w = Some (reset_goroutine w)"
| "hub_step (HubEmits g e) w = run_emits g e w"
| "hub_step (HubReturns g err) w = run_returns g err w"
| "hub_step (HubReports g) w = run_reports g w"
| "hub_step (HubSends i c) w = send_to i c w"
| "hub_step HubConnects w = Some (stream_connects w)"
| "hub_step (HubWrites c) w = stream_writes c w"
| "hub_step (HubDisconnects c) w = stream_disconnects c w"

fun hub_steps :: "hub_act list \<Rightarrow> hub_world \<Rightarrow> hub_world option" where
  "hub_steps [] w = Some w"
| "hub_steps (a # acts) w = (case hub_step a w of None \<Rightarrow> None | Some w' \<Rightarrow> hub_steps acts w')"

section \<open>What a stream has, and the log\<close>

definition inflight :: "nat \<Rightarrow> hub_world \<Rightarrow> demo_event list" where
  "inflight c w = map (\<lambda>(s, e, cs). e) (filter (\<lambda>(s, e, cs). c \<in> cs) (hw_sending w))"

text \<open>Everything a stream has written, has in its buffer, and is about to be sent.\<close>

definition stream_of :: "nat \<Rightarrow> hub_world \<Rightarrow> demo_event list" where
  "stream_of c w = hw_pages w c @ hw_queues w c @ inflight c w"

lemmas hub_ops = start_goroutine_def start_run_def signal_control_def send_next_def run_emits_def run_returns_def run_reports_def
  publish_def emit_event_def run_finished_def not_done_def send_to_def stream_connects_def hub_subscribe_def stream_writes_def
  stream_disconnects_def hub_unsubscribe_def reset_goroutine_def reset_hub_def

lemma hub_steps_append:
  "hub_steps (as @ bs) w = (case hub_steps as w of None \<Rightarrow> None | Some w' \<Rightarrow> hub_steps bs w')"
  by (induction as arbitrary: w) (auto split: option.split)

lemma hub_steps_snoc:
  "hub_steps (as @ [a]) w = Some w'' \<longleftrightarrow> (\<exists>w'. hub_steps as w = Some w' \<and> hub_step a w' = Some w'')"
  by (auto simp: hub_steps_append split: option.splits)

text \<open>Without a reset the generation and the log only grow.\<close>

lemma hub_step_grows:
  assumes "hub_step a w = Some w'" and "a \<noteq> HubReset"
  shows "hb_gen (hw_hub w) \<le> hb_gen (hw_hub w') \<and> length (hb_events (hw_hub w)) \<le> length (hb_events (hw_hub w'))"
  using assms by (cases a) (auto simp: hub_ops Let_def split: if_splits option.splits list.splits prod.splits)

definition first_run :: "hub_world \<Rightarrow> bool" where
  "first_run w \<longleftrightarrow> hw_runs w \<subseteq> {1} \<and> dom (hw_failed w) \<subseteq> {1} - hw_runs w \<and> 0 \<le> hb_gen (hw_hub w) \<and>
     (hb_gen (hw_hub w) = 0 \<longrightarrow> hw_runs w = {} \<and> hw_failed w = Map.empty \<and> hw_sending w = []) \<and>
     (hw_sending w = [] \<or> hw_failed w = Map.empty \<and> (\<exists>e cs. hw_sending w = [(Some 1, e, cs)] \<and> cs \<subseteq> {..<hw_streams w})) \<and>
     hb_subs (hw_hub w) \<subseteq> {..<hw_streams w} \<and> (\<forall>c\<ge>hw_streams w. hw_queues w c = []) \<and>
     (\<forall>c\<in>hb_subs (hw_hub w). stream_of c w = hb_events (hw_hub w))"

lemma first_run_new: "first_run (hub_world_new (new_hub auto delay))"
  by (simp add: first_run_def hub_world_new_def new_hub_def)

lemma first_run_start:
  assumes "first_run w" and "hb_gen (hw_hub (start_goroutine auto w)) \<le> 1"
  shows "first_run (start_goroutine auto w)"
  using assms by (auto simp: first_run_def hub_ops Let_def stream_of_def inflight_def split: if_splits)

lemma first_run_publish:
  assumes "first_run w" and "hw_sending w = []" and "hw_failed w = Map.empty" and "g = 1" and "hb_gen (hw_hub w) \<noteq> 0"
  shows "first_run (publish (Some g) e (emit_event g e (hw_hub w)) w)"
  using assms by (auto simp: first_run_def publish_def emit_event_def not_done_def stream_of_def inflight_def)

lemma first_run_idle:
  assumes "first_run w" and "run_idle g w"
  shows "g = 1 \<and> hw_sending w = [] \<and> hw_failed w = Map.empty \<and> hb_gen (hw_hub w) \<noteq> 0"
  using assms by (auto simp: first_run_def run_idle_def)

lemma first_run_emits:
  assumes "first_run w" and "run_emits g e w = Some w'"
  shows "first_run w'"
proof -
  have i: "run_idle g w" and w': "w' = publish (Some g) e (emit_event g e (hw_hub w)) w"
    using assms(2) by (auto simp: run_emits_def split: if_splits)
  show ?thesis using first_run_publish [OF assms(1)] first_run_idle [OF assms(1) i] by (simp add: w')
qed

lemma first_run_returns:
  assumes "first_run w" and "run_returns g err w = Some w'"
  shows "first_run w'"
proof -
  have i: "run_idle g w"
    and w': "w' = w\<lparr>hw_hub := run_finished g (hw_hub w), hw_runs := hw_runs w - {g}, hw_failed := (hw_failed w)(g := err)\<rparr>"
    using assms(2) by (auto simp: run_returns_def split: if_splits)
  show ?thesis using assms(1) first_run_idle [OF assms(1) i]
    by (cases err) (auto simp: w' first_run_def run_finished_def stream_of_def inflight_def)
qed

lemma first_run_reports:
  assumes "first_run w" and "run_reports g w = Some w'"
  shows "first_run w'"
proof -
  obtain e where e: "hw_failed w g = Some e" using assms(2) by (auto simp: run_reports_def split: option.splits)
  let ?w = "w\<lparr>hw_failed := (hw_failed w)(g := None)\<rparr>"
  have d: "g \<in> dom (hw_failed w)" using e by blast
  then have g: "g = 1" "hb_gen (hw_hub w) \<noteq> 0" "hw_sending w = []" using assms(1) by (auto simp: first_run_def)
  have f: "hw_failed ?w = Map.empty" using assms(1) g(1) by (auto simp: first_run_def fun_eq_iff dom_def subset_iff)
  have "first_run ?w" using assms(1) f g(3) by (auto simp: first_run_def stream_of_def inflight_def)
  then show ?thesis
    using first_run_publish [of ?w g "failed_event e"] f g assms(2) e by (auto simp: run_reports_def Let_def split: if_splits)
qed

lemma first_run_sends:
  assumes "first_run w" and "send_to i c w = Some w'" and "length (hb_events (hw_hub w)) \<le> stream_capacity"
  shows "first_run w'"
proof -
  obtain e cs where s: "hw_sending w = [(Some 1, e, cs)]" "hw_failed w = Map.empty" "cs \<subseteq> {..<hw_streams w}"
    using assms(1,2) by (auto simp: first_run_def send_to_def split: if_splits)
  have i: "i = 0" "c \<in> cs" using assms(2) by (auto simp: send_to_def s split: if_splits)
  have room: "length (hw_queues w c) < stream_capacity" if "c \<in> hb_subs (hw_hub w)"
  proof -
    have "stream_of c w = hb_events (hw_hub w)" using assms(1) that by (auto simp: first_run_def)
    then have "hb_events (hw_hub w) = hw_pages w c @ hw_queues w c @ [e]" using i(2) by (simp add: stream_of_def inflight_def s)
    then show ?thesis using assms(3) by simp
  qed
  have w': "w' = w\<lparr>hw_queues := (if length (hw_queues w c) < stream_capacity then (hw_queues w)(c := hw_queues w c @ [e]) else hw_queues w),
      hw_sending := not_done [(Some 1, e, cs - {c})]\<rparr>"
    using assms(2) i by (auto simp: send_to_def s)
  have "stream_of c' w' = stream_of c' w" if "c' \<in> hb_subs (hw_hub w)" for c'
    using that i(2) room by (auto simp: stream_of_def inflight_def w' s not_done_def)
  then show ?thesis
    using assms(1) s i by (auto simp: first_run_def w' not_done_def)
qed

lemma first_run_streams:
  assumes "first_run w"
  shows "first_run (stream_connects w)" and "stream_writes c w = Some w' \<Longrightarrow> first_run w'"
    and "stream_disconnects c w = Some w' \<Longrightarrow> first_run w'"
proof -
  let ?c = "hw_streams w" and ?w = "stream_connects w"
  have "inflight ?c w = []" "hw_queues w ?c = []" using assms by (auto simp: first_run_def inflight_def)
  then have new: "stream_of ?c ?w = hb_events (hw_hub w)"
    by (simp add: stream_connects_def hub_subscribe_def stream_of_def inflight_def Let_def)
  have old: "stream_of c' ?w = stream_of c' w" if "c' \<noteq> ?c" for c'
    using that by (simp add: stream_connects_def hub_subscribe_def stream_of_def inflight_def Let_def)
  have sel: "hw_runs ?w = hw_runs w" "hw_failed ?w = hw_failed w" "hb_gen (hw_hub ?w) = hb_gen (hw_hub w)"
      "hw_sending ?w = hw_sending w" "hb_events (hw_hub ?w) = hb_events (hw_hub w)" "hw_queues ?w = hw_queues w"
      "hb_subs (hw_hub ?w) = insert ?c (hb_subs (hw_hub w))" "hw_streams ?w = Suc ?c"
    by (simp_all add: stream_connects_def hub_subscribe_def Let_def)
  have wide: "{..<?c} \<subseteq> {..<Suc ?c}" by auto
  have "\<forall>c'\<in>hb_subs (hw_hub ?w). stream_of c' ?w = hb_events (hw_hub ?w)"
    using assms new old by (metis first_run_def insert_iff sel(5,7))
  moreover have "hb_subs (hw_hub ?w) \<subseteq> {..<hw_streams ?w}" using assms wide by (auto simp: first_run_def sel)
  moreover have "\<forall>c'\<ge>hw_streams ?w. hw_queues ?w c' = []" using assms by (simp add: first_run_def sel)
  moreover have "hw_sending ?w = [] \<or>
      hw_failed ?w = Map.empty \<and> (\<exists>e cs. hw_sending ?w = [(Some 1, e, cs)] \<and> cs \<subseteq> {..<hw_streams ?w})"
    using assms wide unfolding first_run_def sel by (meson subset_trans)
  ultimately show "first_run ?w" using assms unfolding first_run_def sel by blast
next
  show "first_run w'" if writes: "stream_writes c w = Some w'"
  proof -
    obtain e q where q: "hw_queues w c = e # q" "c \<in> hb_subs (hw_hub w)"
        "w' = w\<lparr>hw_queues := (hw_queues w)(c := q), hw_pages := (hw_pages w)(c := hw_pages w c @ [e])\<rparr>"
      using writes by (auto simp: stream_writes_def split: list.splits if_splits)
    have "stream_of c' w' = stream_of c' w" for c' by (simp add: stream_of_def inflight_def q)
    moreover have "c < hw_streams w" using assms q(2) by (auto simp: first_run_def)
    ultimately show ?thesis using assms by (simp add: first_run_def q(3))
  qed
next
  show "first_run w'" if "stream_disconnects c w = Some w'"
  proof -
    have w': "w' = w\<lparr>hw_hub := hub_unsubscribe c (hw_hub w)\<rparr>"
      using that by (simp add: stream_disconnects_def split: if_splits)
    have "stream_of c' w' = stream_of c' w" for c' by (simp add: stream_of_def inflight_def w')
    then show ?thesis using assms by (simp add: first_run_def w' hub_unsubscribe_def) blast
  qed
qed

lemma first_run_step:
  assumes "first_run w" and "hub_step a w = Some w'" and "a \<noteq> HubReset" and "hb_gen (hw_hub w') \<le> 1"
    and "length (hb_events (hw_hub w')) \<le> stream_capacity"
  shows "first_run w'"
proof (cases a)
  case HubNext
  then have "w' = w\<lparr>hw_hub := send_next (hw_hub w)\<rparr>" using assms(2) by simp
  then show ?thesis using assms(1) by (simp add: first_run_def send_next_def stream_of_def inflight_def)
next
  case (HubSends i c)
  then show ?thesis using first_run_sends [OF assms(1)] hub_step_grows [OF assms(2,3)] assms(2,5) by simp
next
  case (HubStart auto)
  then show ?thesis using assms(2,4) first_run_start [OF assms(1), of auto] by simp
next
  case (HubEmits g e)
  then show ?thesis using assms(2) first_run_emits [OF assms(1)] by simp
next
  case (HubReturns g err)
  then show ?thesis using assms(2) first_run_returns [OF assms(1)] by simp
next
  case (HubReports g)
  then show ?thesis using assms(2) first_run_reports [OF assms(1)] by simp
next
  case HubConnects
  then show ?thesis using assms(2) first_run_streams(1) [OF assms(1)] by simp
next
  case (HubWrites c)
  then show ?thesis using assms(2) first_run_streams(2) [OF assms(1)] by simp
next
  case (HubDisconnects c)
  then show ?thesis using assms(2) first_run_streams(3) [OF assms(1)] by simp
qed (use assms(3) in simp)

lemma first_run_steps:
  assumes "first_run w0" and "hub_steps acts w0 = Some w" and "HubReset \<notin> set acts" and "hb_gen (hw_hub w) \<le> 1"
    and "length (hb_events (hw_hub w)) \<le> stream_capacity"
  shows "first_run w"
  using assms(2-)
proof (induction acts arbitrary: w rule: rev_induct)
  case Nil
  then show ?case using assms(1) by simp
next
  case (snoc a acts)
  obtain w1 where w1: "hub_steps acts w0 = Some w1" "hub_step a w1 = Some w" using snoc.prems(1) hub_steps_snoc by blast
  have "a \<noteq> HubReset" "HubReset \<notin> set acts" using snoc.prems(2) by auto
  with snoc.IH [OF w1(1)] hub_step_grows [OF w1(2)] snoc.prems(3,4) show ?case
    by (intro first_run_step [OF _ w1(2)]) auto
qed

section \<open>After a reset\<close>

text \<open>The runs that may still write, and what a step does to them and to the log.\<close>

definition live :: "hub_world \<Rightarrow> int set" where
  "live w = hw_runs w \<union> dom (hw_failed w)"

lemma live_start:
  "live (start_goroutine auto w) \<subseteq> insert (hb_gen (hw_hub (start_goroutine auto w))) (live w)"
  "hb_gen (hw_hub w) \<le> hb_gen (hw_hub (start_goroutine auto w))"
  by (auto simp: live_def start_goroutine_def start_run_def signal_control_def Let_def)

lemma live_reset:
  "live (reset_goroutine w) = live w" "hb_gen (hw_hub (reset_goroutine w)) = hb_gen (hw_hub w) + 1"
  "hb_events (hw_hub (reset_goroutine w)) = []"
  by (simp_all add: live_def reset_goroutine_def reset_hub_def publish_def signal_control_def Let_def)

text \<open>A step that is no start and no reset leaves the generation, and the log unless the current run writes.\<close>

lemma live_publish:
  "live (publish s e (emit_event g e h) w) = live w" "hb_gen (hw_hub (publish s e (emit_event g e h) w)) = hb_gen h"
  "g < hb_gen h \<Longrightarrow> hb_events (hw_hub (publish s e (emit_event g e h) w)) = hb_events h"
  by (simp_all add: live_def publish_def emit_event_def)

definition quiet_step :: "hub_world \<Rightarrow> hub_world \<Rightarrow> bool" where
  "quiet_step w w' \<longleftrightarrow> live w' \<subseteq> live w \<and> hb_gen (hw_hub w') = hb_gen (hw_hub w) \<and>
     ((\<forall>g\<in>live w. g < hb_gen (hw_hub w)) \<longrightarrow> hb_events (hw_hub w') = hb_events (hw_hub w))"

lemma quiet_emits: "run_emits g e w = Some w' \<Longrightarrow> quiet_step w w'"
  using live_publish [where s = "Some g" and e = e and g = g and h = "hw_hub w" and w = w]
  by (auto simp: run_emits_def quiet_step_def run_idle_def live_def split: if_splits)

lemma quiet_returns: "run_returns g err w = Some w' \<Longrightarrow> quiet_step w w'"
  by (cases err) (auto simp: run_returns_def quiet_step_def run_finished_def run_idle_def live_def split: if_splits)

lemma quiet_reports:
  assumes "run_reports g w = Some w'"
  shows "quiet_step w w'"
proof -
  obtain e where e: "hw_failed w g = Some e" using assms by (auto simp: run_reports_def split: option.splits)
  let ?w = "w\<lparr>hw_failed := (hw_failed w)(g := None)\<rparr>"
  have "live ?w \<subseteq> live w" "g \<in> live w" using e by (auto simp: live_def)
  then show ?thesis
    using assms e live_publish [where s = "Some g" and e = "failed_event e" and g = g and h = "hw_hub w" and w = ?w]
    by (auto simp: run_reports_def quiet_step_def Let_def split: if_splits)
qed

lemma quiet_step:
  assumes "hub_step a w = Some w'" and "\<forall>auto. a \<noteq> HubStart auto" and "a \<noteq> HubReset"
  shows "quiet_step w w'"
proof (cases a)
  case (HubSends i c)
  then show ?thesis using assms(1) by (auto simp: send_to_def quiet_step_def live_def Let_def split: if_splits prod.splits)
next
  case (HubWrites c)
  then show ?thesis using assms(1) by (auto simp: stream_writes_def quiet_step_def live_def split: list.splits if_splits)
next
  case (HubDisconnects c)
  then show ?thesis
    using assms(1) by (auto simp: stream_disconnects_def hub_unsubscribe_def quiet_step_def live_def split: if_splits)
next
  case (HubStart auto)
  then show ?thesis using assms(2) by simp
next
  case HubReset
  then show ?thesis using assms(3) by simp
qed (use assms(1) in \<open>simp_all add: quiet_emits quiet_returns quiet_reports\<close>,
    use assms(1) in \<open>auto simp: quiet_step_def live_def send_next_def stream_connects_def hub_subscribe_def Let_def\<close>)

definition runs_known :: "hub_world \<Rightarrow> bool" where
  "runs_known w \<longleftrightarrow> (\<forall>g\<in>live w. g \<le> hb_gen (hw_hub w))"

definition superseded :: "hub_world \<Rightarrow> bool" where
  "superseded w \<longleftrightarrow> hb_events (hw_hub w) = [] \<and> (\<forall>g\<in>live w. g < hb_gen (hw_hub w))"

lemma runs_known_step:
  assumes "runs_known w" and "hub_step a w = Some w'"
  shows "runs_known w'"
proof -
  consider auto where "a = HubStart auto" | "a = HubReset" | "\<forall>auto. a \<noteq> HubStart auto" "a \<noteq> HubReset" by blast
  then show ?thesis
  proof cases
    case 1
    then show ?thesis using assms live_start [where auto = auto and w = w] by (fastforce simp: runs_known_def)
  next
    case 2
    then show ?thesis using assms live_reset [of w] by (fastforce simp: runs_known_def)
  next
    case 3
    then show ?thesis using assms(1) quiet_step [OF assms(2)] by (auto simp: runs_known_def quiet_step_def)
  qed
qed

lemma runs_known_steps: "runs_known w \<Longrightarrow> hub_steps acts w = Some w' \<Longrightarrow> runs_known w'"
  by (induction acts arbitrary: w) (auto split: option.splits intro: runs_known_step)

lemma reset_supersedes: "runs_known w \<Longrightarrow> superseded (reset_goroutine w)"
  using live_reset [of w] by (fastforce simp: runs_known_def superseded_def)

lemma superseded_step:
  assumes "superseded w" and "hub_step a w = Some w'" and "\<forall>auto. a \<noteq> HubStart auto"
  shows "superseded w'"
proof (cases "a = HubReset")
  case True
  then show ?thesis using assms reset_supersedes [of w] by (force simp: superseded_def runs_known_def)
next
  case False
  then show ?thesis using assms(1) quiet_step [OF assms(2,3)] by (auto simp: superseded_def quiet_step_def)
qed

lemma superseded_steps:
  assumes "superseded w" and "hub_steps acts w = Some w'" and "\<forall>auto. HubStart auto \<notin> set acts"
  shows "superseded w'"
  using assms
proof (induction acts arbitrary: w)
  case (Cons a acts)
  then obtain w1 where w1: "hub_step a w = Some w1" "hub_steps acts w1 = Some w'" by (auto split: option.splits)
  have "superseded w1" using superseded_step [OF Cons.prems(1) w1(1)] Cons.prems(3) by auto
  then show ?case using Cons.IH w1(2) Cons.prems(3) by auto
qed simp

text \<open>The gate waits exactly when none of its cases is ready; a change of the control state makes one ready.\<close>

lemma gate_waits_iff:
  "gate_select ctx auto wake elapsed cancelled h = [] \<longleftrightarrow>
     ctx \<notin> cancelled \<and> \<not> (auto \<and> elapsed) \<and> \<not> hb_next h \<and> hb_wake h \<le> wake"
  by (auto simp: gate_select_def)

lemma control_step_wakes:
  assumes "hub_step a w = Some w'"
  shows "hb_wake (hw_hub w) \<le> hb_wake (hw_hub w') \<and>
    (hb_auto (hw_hub w') \<noteq> hb_auto (hw_hub w) \<longrightarrow> hb_wake (hw_hub w) < hb_wake (hw_hub w'))"
proof (cases a)
  case (HubStart auto)
  then have "w' = start_goroutine auto w" using assms by simp
  then show ?thesis
    by (cases auto; cases "hb_running (hw_hub w)") (simp_all add: start_goroutine_def start_run_def signal_control_def Let_def)
next
  case HubReset
  then show ?thesis using assms by (auto simp: reset_goroutine_def reset_hub_def publish_def signal_control_def Let_def)
next
  case (HubEmits g e)
  then show ?thesis using assms by (auto simp: run_emits_def publish_def emit_event_def split: if_splits)
next
  case (HubReturns g err)
  then show ?thesis using assms by (auto simp: run_returns_def run_finished_def split: if_splits)
next
  case (HubReports g)
  then show ?thesis
    using assms by (auto simp: run_reports_def publish_def emit_event_def Let_def split: option.splits if_splits)
next
  case (HubSends i c)
  then show ?thesis using assms by (auto simp: send_to_def Let_def split: if_splits prod.splits)
next
  case (HubWrites c)
  then show ?thesis using assms by (auto simp: stream_writes_def split: list.splits if_splits)
next
  case (HubDisconnects c)
  then show ?thesis using assms by (auto simp: stream_disconnects_def hub_unsubscribe_def split: if_splits)
qed (use assms in \<open>auto simp: send_next_def stream_connects_def hub_subscribe_def Let_def\<close>)

lemma control_change_wakes:
  assumes "hub_steps acts w = Some w'"
  shows "hb_wake (hw_hub w) \<le> hb_wake (hw_hub w') \<and>
    (hb_auto (hw_hub w') \<noteq> hb_auto (hw_hub w) \<longrightarrow> hb_wake (hw_hub w) < hb_wake (hw_hub w'))"
  using assms
proof (induction acts arbitrary: w)
  case (Cons a acts)
  then obtain w1 where w1: "hub_step a w = Some w1" "hub_steps acts w1 = Some w'" by (auto split: option.splits)
  show ?case using Cons.IH [OF w1(2)] control_step_wakes [OF w1(1)] by (metis le_trans less_le_trans le_less_trans)
qed simp

section \<open>The property\<close>

text \<open>
  C38. The demo's streams are gapless. In every schedule of control requests, the run's
  emissions, its return, single sends, connections and writes: while the first run is the
  only one and there was no reset, and at most 1024 events were logged, what a connected
  browser was replayed and sent, what its buffer holds and what is on its way to it are
  together exactly the log, in order, whenever it connected. After a reset and until the next
  start the log stays empty, whatever superseded runs still emit or report. And a gate that
  waits while the mode of the run changes is always woken: it never waits with a control state
  that is out of date.
\<close>

theorem hub_streams_the_log:
  assumes "hub_steps acts (hub_world_new (new_hub auto delay)) = Some w"
  shows "(HubReset \<notin> set acts \<and> hb_gen (hw_hub w) \<le> 1 \<and> length (hb_events (hw_hub w)) \<le> stream_capacity \<longrightarrow>
      (\<forall>c\<in>hb_subs (hw_hub w). hw_pages w c @ hw_queues w c @ inflight c w = hb_events (hw_hub w))) \<and>
    (hub_steps (HubReset # later) w = Some w1 \<and> (\<forall>auto. HubStart auto \<notin> set later) \<longrightarrow> hb_events (hw_hub w1) = []) \<and>
    (hub_steps others w = Some w2 \<and>
      gate_select ctx (hb_auto (hw_hub w)) (hb_wake (hw_hub w)) elapsed cancelled (hw_hub w2) = [] \<longrightarrow>
      hb_auto (hw_hub w2) = hb_auto (hw_hub w) \<and> ctx \<notin> cancelled \<and> \<not> hb_next (hw_hub w2))"
proof (intro conjI impI ballI)
  fix c
  assume "HubReset \<notin> set acts \<and> hb_gen (hw_hub w) \<le> 1 \<and> length (hb_events (hw_hub w)) \<le> stream_capacity" "c \<in> hb_subs (hw_hub w)"
  then show "hw_pages w c @ hw_queues w c @ inflight c w = hb_events (hw_hub w)"
    using first_run_steps [OF first_run_new assms] by (auto simp: first_run_def stream_of_def)
next
  have "runs_known (hub_world_new (new_hub auto delay))" by (simp add: runs_known_def live_def hub_world_new_def)
  then have "superseded (reset_goroutine w)" using reset_supersedes runs_known_steps assms by blast
  then show "hb_events (hw_hub w1) = []" if "hub_steps (HubReset # later) w = Some w1 \<and> (\<forall>auto. HubStart auto \<notin> set later)"
    using superseded_steps [of "reset_goroutine w" later w1] that by (simp add: superseded_def)
qed (use control_change_wakes [of others w w2] in \<open>auto simp: gate_waits_iff\<close>)

text \<open>
  The sends of an emission and of a reset are made outside the lock. Here the run's first
  event is in the log, not yet sent, when the reset clears the log; the browser is told to
  clear before it is sent the event, and keeps it.
\<close>

definition first_event :: demo_event where
  "first_event = blank_event\<lparr>ev_kind := ''log'', ev_text := ''minted''\<rparr>"

lemma stale_event_after_reset:
  "\<exists>w. hub_steps [HubConnects, HubStart False, HubEmits 1 first_event, HubReset, HubSends 1 0, HubSends 0 0, HubWrites 0, HubWrites 0]
      (hub_world_new (new_hub False 0)) = Some w \<and>
    hb_events (hw_hub w) = [] \<and> hw_pages w 0 = [reset_event, first_event] \<and> hw_queues w 0 = [] \<and> hw_sending w = []"
  by (simp add: hub_ops run_idle_def hub_world_new_def new_hub_def stream_capacity_def Let_def)

theorem hub_streams_the_log_witness:
  "\<exists>w. hub_steps [HubStart True, HubEmits 1 first_event, HubConnects, HubEmits 1 reset_event, HubSends 0 0]
      (hub_world_new (new_hub False 0)) = Some w \<and>
    hw_pages w 0 @ hw_queues w 0 @ inflight 0 w = hb_events (hw_hub w) \<and> length (hb_events (hw_hub w)) = 2"
proof -
  let ?acts = "[HubStart True, HubEmits 1 first_event, HubConnects, HubEmits 1 reset_event, HubSends 0 0]"
  obtain w where w: "hub_steps ?acts (hub_world_new (new_hub False 0)) = Some w"
      "hb_subs (hw_hub w) = {0}" "hb_gen (hw_hub w) = 1" "length (hb_events (hw_hub w)) = 2"
    by (simp add: hub_ops run_idle_def hub_world_new_def new_hub_def stream_capacity_def Let_def)
  then show ?thesis
    using hub_streams_the_log [OF w(1)] by (auto simp: stream_capacity_def)
qed

end
