(* ===== verification/Observe.thy ===== *)
theory Observe
  imports GatewayRuns "HOL-Library.List_Lexorder" "HOL-Library.Char_ord"
begin

text \<open>
  What an operator sees of a gateway (\<open>x402/metrics.go\<close> Render, the health and metrics
  endpoints) and the outbox's loop (\<open>x402/outbox.go\<close> Run).

  Theorem: over any run of requests, revocations and time the counters are the run's own
  numbers: every request once, every 402 once, and as many successes, of payments and of
  sessions, as settlements were recorded.
\<close>

section \<open>metrics.go: Render\<close>

text \<open>
  \<open>%q\<close> of an ASCII text, and \<open>%d\<close>. What \<open>%g\<close> prints of the latency sum is the argument
  \<open>fmt_g\<close>.
\<close>

definition quote_char :: "char \<Rightarrow> string" where
  "quote_char c =
     (if c = CHR 0x22 then [CHR 0x5C, CHR 0x22] else if c = CHR 0x5C then [CHR 0x5C, CHR 0x5C]
      else if c = CHR 0x07 then [CHR 0x5C, CHR ''a''] else if c = CHR 0x08 then [CHR 0x5C, CHR ''b'']
      else if c = CHR 0x0C then [CHR 0x5C, CHR ''f''] else if c = CHR 0x0A then [CHR 0x5C, CHR ''n'']
      else if c = CHR 0x0D then [CHR 0x5C, CHR ''r''] else if c = CHR 0x09 then [CHR 0x5C, CHR ''t'']
      else if c = CHR 0x0B then [CHR 0x5C, CHR ''v'']
      else if (of_char c :: nat) < 0x20 \<or> of_char c = (0x7F :: nat) then [CHR 0x5C, CHR ''x''] @ hex_encode [of_char c]
      else [c])"

definition go_quote :: "string \<Rightarrow> string" where
  "go_quote s = [CHR 0x22] @ concat (map quote_char s) @ [CHR 0x22]"

definition counter_line :: "string \<Rightarrow> int \<Rightarrow> string" where
  "counter_line name v = name @ '' '' @ big_show v @ [CHR 0x0A]"

definition counter_header :: "string \<Rightarrow> string \<Rightarrow> string" where
  "counter_header name help = ''# HELP '' @ name @ '' '' @ help @ [CHR 0x0A] @ ''# TYPE '' @ name @ '' counter'' @ [CHR 0x0A]"

definition label_text :: "string \<Rightarrow> string \<Rightarrow> string \<Rightarrow> string" where
  "label_text name label v = name @ ''{'' @ label @ ''='' @ go_quote v @ ''}''"

definition refusal_codes :: "metrics \<Rightarrow> string list" where
  "refusal_codes m = sorted_list_of_set (dom (mt_refusals m))"

definition metrics_render :: "(real \<Rightarrow> string) \<Rightarrow> metrics option \<Rightarrow> string" where
  "metrics_render fmt_g mo =
     (case mo of None \<Rightarrow> '''' | Some m \<Rightarrow>
        counter_header ''x402_requests_total'' ''Payment requests handled.'' @ counter_line ''x402_requests_total'' (mt_requests m) @
        counter_header ''x402_refusals_total'' ''402 responses by error code.'' @
        concat (map (\<lambda>c. counter_line (label_text ''x402_refusals_total'' ''code'' c) (the (mt_refusals m c))) (refusal_codes m)) @
        counter_header ''x402_settlements_total'' ''Settlements by outcome.'' @
        counter_line (label_text ''x402_settlements_total'' ''outcome'' ''success'') (mt_settle_success m) @
        counter_line (label_text ''x402_settlements_total'' ''outcome'' ''fail'') (mt_settle_fail m) @
        counter_header ''x402_deliveries_total'' ''Assets delivered after settlement.'' @
        counter_line ''x402_deliveries_total'' (mt_deliveries m) @
        counter_header ''x402_refunds_total'' ''Refunds recorded after a failed delivery.'' @
        counter_line ''x402_refunds_total'' (mt_refunds m) @
        counter_header ''x402_sessions_total'' ''Payment sessions by phase.'' @
        counter_line (label_text ''x402_sessions_total'' ''phase'' ''opened'') (mt_sessions_opened m) @
        counter_line (label_text ''x402_sessions_total'' ''phase'' ''settled'') (mt_sessions_settled m) @
        counter_header ''x402_settlement_latency_seconds''
          ''Settlement latency, as a sum and count for the average.'' @
        ''x402_settlement_latency_seconds_sum '' @ fmt_g (mt_settle_latency_sum m) @ [CHR 0x0A] @
        counter_line ''x402_settlement_latency_seconds_count'' (mt_settle_latency_count m))"

text \<open>The endpoints: content type and body.\<close>

definition gateway_health :: "string \<times> string" where
  "gateway_health = (''application/json'', [CHR 0x7B, CHR 0x22] @ ''status'' @ [CHR 0x22, CHR 0x3A, CHR 0x22] @ ''ok'' @ [CHR 0x22, CHR 0x7D])"

definition metrics_handler :: "(real \<Rightarrow> string) \<Rightarrow> 'w gateway \<Rightarrow> string \<times> string" where
  "metrics_handler fmt_g s = (''text/plain; version=0.0.4'', metrics_render fmt_g (gw_metrics s))"

section \<open>outbox.go: Run\<close>

text \<open>
  \<open>Run\<close> drains, then waits for the next tick or the end of its context: a round is what each
  mark of its pass meets and how it ends. Without another round it is still waiting.
\<close>

datatype outbox_wake = Tick | Cancelled

fun outbox_run :: "'s sink \<Rightarrow> ((string \<Rightarrow> io) \<times> outbox_wake) list \<Rightarrow> 's \<times> journal \<Rightarrow> 's \<times> journal" where
  "outbox_run publish [] sj = sj"
| "outbox_run publish ((outs, Tick) # rounds) sj = outbox_run publish rounds (drain publish outs sj)"
| "outbox_run publish ((outs, Cancelled) # rounds) sj = drain publish outs sj"

lemma outbox_run_passes:
  "\<exists>outs. outbox_run publish rounds sj = run (outbox_step publish) sj (map ODrain outs)"
proof (induction publish rounds sj rule: outbox_run.induct)
  case (1 publish sj)
  then show ?case by (intro exI [of _ "[]"]) simp
next
  case (2 publish outs rounds sj)
  then obtain os where "outbox_run publish rounds (drain publish outs sj) =
      run (outbox_step publish) (drain publish outs sj) (map ODrain os)" by blast
  then show ?case by (cases sj) (auto intro!: exI [of _ "outs # os"])
next
  case (3 publish outs rounds sj)
  then show ?case by (cases sj) (auto intro!: exI [of _ "[outs]"])
qed

section \<open>What the counters count\<close>

definition refusal_total :: "metrics \<Rightarrow> int" where
  "refusal_total m = (\<Sum>c\<in>dom (mt_refusals m). the (mt_refusals m c))"

lemma refusal_total_inc:
  assumes "finite (dom (mt_refusals m))"
  shows "refusal_total (inc_refusal code m) = refusal_total m + 1"
proof (cases "mt_refusals m code")
  case None
  then have "code \<notin> dom (mt_refusals m)" by auto
  with assms have "(\<Sum>c\<in>dom (mt_refusals m). the (((mt_refusals m)(code \<mapsto> 1)) c)) = refusal_total m"
    unfolding refusal_total_def by (intro sum.cong) auto
  with None assms \<open>code \<notin> dom (mt_refusals m)\<close> show ?thesis by (simp add: refusal_total_def inc_refusal_def)
next
  case (Some n)
  then have i: "insert code (dom (mt_refusals m)) = dom (mt_refusals m)" "code \<in> dom (mt_refusals m)" by auto
  have "(\<Sum>c\<in>dom (mt_refusals m) - {code}. the (((mt_refusals m)(code \<mapsto> n + 1)) c)) =
      (\<Sum>c\<in>dom (mt_refusals m) - {code}. the (mt_refusals m c))" by (intro sum.cong) auto
  then show ?thesis
    using sum.remove [OF assms i(2), of "\<lambda>c. the (mt_refusals m c)"]
      sum.remove [OF assms i(2), of "\<lambda>c. the (((mt_refusals m)(code \<mapsto> n + 1)) c)"] Some i
    by (simp add: refusal_total_def inc_refusal_def)
qed

text \<open>A step that counts \<open>k\<close> requests and \<open>n\<close> refusals, and what it settles.\<close>

definition tallies :: "int \<Rightarrow> int \<Rightarrow> 'w gateway \<Rightarrow> 'w gateway \<Rightarrow> bool" where
  "tallies k n s s' \<longleftrightarrow> (\<forall>m. gw_metrics s = Some m \<longrightarrow> (\<exists>m'. gw_metrics s' = Some m' \<and>
     mt_settle_success m' + mt_sessions_settled m' - int (length (gw_settlements s')) =
       mt_settle_success m + mt_sessions_settled m - int (length (gw_settlements s)) \<and>
     mt_settle_latency_count m' - mt_settle_success m' - mt_settle_fail m' \<ge>
       mt_settle_latency_count m - mt_settle_success m - mt_settle_fail m \<and>
     mt_requests m' = mt_requests m + k \<and>
     (finite (dom (mt_refusals m)) \<longrightarrow> finite (dom (mt_refusals m')) \<and> refusal_total m' = refusal_total m + n)))"

lemma tallies_trans: "tallies k n s s1 \<Longrightarrow> tallies k' n' s1 s2 \<Longrightarrow> tallies (k + k') (n + n') s s2"
  unfolding tallies_def by fastforce

lemma tallies_then: "tallies 0 0 s s1 \<Longrightarrow> tallies 0 n s1 s2 \<Longrightarrow> tallies 0 n s s2"
  using tallies_trans [of 0 0 s s1 0 n s2] by simp

lemma tallies_same: "gw_metrics s' = gw_metrics s \<Longrightarrow> gw_settlements s' = gw_settlements s \<Longrightarrow> tallies 0 0 s s'"
  by (simp add: tallies_def)

lemma tallies_refl [simp]: "tallies 0 0 s s"
  by (simp add: tallies_same)

lemma tallies_count:
  "tallies 1 0 s (count inc_request s)" "tallies 0 0 s (count inc_refund s)" "tallies 0 0 s (count inc_delivery s)"
  "tallies 0 0 s (count inc_session_opened s)"
  by (simp_all add: tallies_def count_def inc_request_def inc_refund_def inc_delivery_def inc_session_opened_def refusal_total_def)

lemma tallies_refusal: "tallies 0 1 s (count (inc_refusal code) s)"
proof -
  have "finite (dom (mt_refusals (inc_refusal code m)))" if "finite (dom (mt_refusals m))" for m
    using that by (simp add: inc_refusal_def)
  then show ?thesis using refusal_total_inc by (simp add: tallies_def count_def) (simp add: inc_refusal_def)
qed

lemma metrics_frame [simp]:
  "gw_metrics (notify E pc ok s) = gw_metrics s" "gw_metrics (snd (gateway_decide E pc s)) = gw_metrics s"
  "gw_metrics (record_decision E pc d b s) = gw_metrics s" "gw_metrics (inflight_put x df s) = gw_metrics s"
  "gw_metrics (inflight_remove x s) = gw_metrics s" "gw_metrics (session_put i sess s) = gw_metrics s"
  "gw_metrics (session_remove i s) = gw_metrics s" "gw_metrics (record_revocation E i a sg s) = gw_metrics s"
  "gw_metrics (journal_refund E r tx s) = gw_metrics s" "gw_metrics (journal_refund_pending E r s) = gw_metrics s"
  "gw_metrics (decided E pc s) = gw_metrics s"
  by (simp_all add: notify_def gateway_decide_def record_decision_def inflight_put_def inflight_remove_def session_put_def
      session_remove_def record_revocation_def journal_refund_def journal_refund_pending_def decided_def Let_def split: prod.split)

lemma settlements_frame [simp]:
  "gw_settlements (record_revocation E i a sg s) = gw_settlements s" "gw_settlements (journal_refund E r tx s) = gw_settlements s"
  "gw_settlements (journal_refund_pending E r s) = gw_settlements s"
  by (simp_all add: record_revocation_def journal_refund_def journal_refund_pending_def Let_def)

lemma tallies_refund: "tallies 0 0 s (snd (refund E r e s))"
  using tallies_count(2) [of s]
  by (auto simp: refund_def Let_def tallies_def split: option.split sum.split prod.split)

lemma tallies_deliver: "tallies 0 0 s (snd (deliver E r s))"
proof -
  have "tallies 0 0 s (snd (refund E r e (s\<lparr>gw_world := w\<rparr>)))" for e w
    by (rule tallies_then [OF tallies_same tallies_refund]) simp_all
  moreover have "tallies 0 0 s (count inc_delivery (s\<lparr>gw_world := w\<rparr>))" for w
    by (rule tallies_then [OF tallies_same tallies_count(3)]) simp_all
  ultimately show ?thesis by (auto simp: deliver_def split: option.split sum.split prod.split)
qed

text \<open>An attempt: the latency, and the outcome when it is counted.\<close>

lemma tallies_attempt:
  "tallies 0 0 s (count (observe_settle_latency d) s)"
  "tallies 0 0 s (count inc_settle_fail (notify E pc b (count (observe_settle_latency d) s)))"
  by (auto simp: tallies_def count_def observe_settle_latency_def inc_settle_fail_def refusal_total_def notify_def)

lemma tallies_settle: "tallies 0 0 s (snd (settle E p reqs pc s))"
proof -
  obtain out w where g: "ge_settle E p reqs (gw_world s) = (out, w)" by (cases "ge_settle E p reqs (gw_world s)")
  let ?s = "count (observe_settle_latency (ge_now E w - now E s)) (s\<lparr>gw_world := w\<rparr>)"
  have fail: "tallies 0 0 s (count inc_settle_fail (notify E pc False ?s))"
    by (rule tallies_then [OF tallies_same tallies_attempt(2)]) simp_all
  have observed: "tallies 0 0 s ?s"
    by (rule tallies_then [OF tallies_same tallies_attempt(1)]) simp_all
  have quiet: "tallies 0 0 s s'" if "gw_metrics s' = gw_metrics ?s" "gw_settlements s' = gw_settlements s" for s'
    by (rule tallies_then [OF observed tallies_same]) (use that in simp_all)
  have success: "tallies 0 0 s (count inc_settle_success s')"
    if "gw_metrics s' = gw_metrics ?s" "gw_settlements s' = gw_settlements s @ [r]" for s' r
    using that by (auto simp: tallies_def count_def observe_settle_latency_def inc_settle_success_def refusal_total_def)
  have entry: "gw_metrics s1 = gw_metrics ?s \<and> gw_settlements s1 = gw_settlements s" if "append_entry E e ?s = (x, s1)" for e x s1
    using that append_entry_frame(3,6) [of E e ?s] by simp
  show ?thesis
  proof (cases "\<exists>sr a sig. out = Inr (Some sr) \<and> sresp_success sr \<and> parse_exact_payload (ge_geth E) (pp_payload p) = Inr (a, sig)")
    case False
    then have "snd (settle E p reqs pc s) \<in> {count inc_settle_fail (notify E pc False ?s), notify E pc False ?s}"
      by (auto simp: settle_def g Let_def split: sum.split option.split)
    then show ?thesis using fail quiet [of "notify E pc False ?s"] by auto
  next
    case True
    then obtain sr a sig where ok: "out = Inr (Some sr)" "sresp_success sr"
      "parse_exact_payload (ge_geth E) (pp_payload p) = Inr (a, sig)" by blast
    define r where "r = \<lparr>st_payer = au_from a, st_amount = Some (au_value a),
      st_tx_hash = hex_to_hash (ge_geth E) (sresp_transaction sr), st_time = now E ?s, st_delivery_tx = 0\<rparr>"
    obtain err s1 where ap: "append_entry E (settlement_entry E r) ?s = (err, s1)" by fastforce
    show ?thesis
    proof (cases err)
      case (Some x)
      then have "snd (settle E p reqs pc s) = notify E pc False s1"
        using ok ap by (simp add: settle_def g r_def [symmetric] Let_def)
      then show ?thesis using quiet [of "notify E pc False s1"] entry [OF ap] by simp
    next
      case None
      then have "snd (settle E p reqs pc s) = count inc_settle_success
          (record_decision E pc approve True ((notify E pc True s1)\<lparr>gw_settlements := gw_settlements (notify E pc True s1) @ [r]\<rparr>))"
        using ok ap by (simp add: settle_def g r_def [symmetric] Let_def)
      then show ?thesis using success entry [OF ap] by simp
    qed
  qed
qed

lemma tallies_begin_deferred: "tallies 0 0 s (snd (begin_deferred E p reqs pc n s))"
proof -
  obtain out s' where st: "settle E p reqs pc s = (out, s')" by (cases "settle E p reqs pc s")
  then have "tallies 0 0 s s'" using tallies_settle [of s E p reqs pc] by simp
  moreover have "tallies 0 0 s' (inflight_put n df s')" for df by (rule tallies_same) simp_all
  ultimately show ?thesis by (auto simp: begin_deferred_def st intro: tallies_then split: sum.split)
qed

lemma tallies_resume: "tallies 0 0 s (snd (resume_deferred E p reqs n df s))"
proof (cases rule: resume_cases [of E p reqs n df s])
  case (approved st s1)
  then have "tallies 0 0 s (inflight_remove n s1)" by (intro tallies_same) simp_all
  then show ?thesis using approved(4) tallies_then [OF _ tallies_deliver] by simp
qed (simp_all add: tallies_same)

lemma tallies_verify_and_settle: "tallies 0 0 s (snd (verify_and_settle E header reqs s))"
proof -
  have fresh: "tallies 0 0 s (snd (verify_and_settle E (Decoded p) reqs s))"
    if "inflight_get (fst (payload_nonce (ge_geth E) p)) s = None" for p
  proof -
    have world: "tallies 0 0 s (s\<lparr>gw_world := w\<rparr>)" for w by (rule tallies_same) simp_all
    have dec: "gateway_decide E pc (s\<lparr>gw_world := w\<rparr>) = (d, s2) \<Longrightarrow> tallies 0 0 s (record_decision E pc d False s2)" for pc w d s2
      using metrics_frame(2) [of E pc "s\<lparr>gw_world := w\<rparr>"] gateway_decide_frame(3) [of E pc "s\<lparr>gw_world := w\<rparr>"]
      by (intro tallies_same) simp_all
    have paid: "tallies 0 0 s s3"
      if "settle E p reqs pc (record_decision E pc d False s2) = (out, s3)" "gateway_decide E pc (s\<lparr>gw_world := w\<rparr>) = (d, s2)"
      for reqs pc d s2 out s3 w
      using tallies_then [OF dec [OF that(2)] tallies_settle [of _ E p reqs pc]] that(1) by simp
    show ?thesis
      using that
      by (auto simp: verify_and_settle_def Let_def world dec split: option.split sum.split prod.split
          intro: paid tallies_then [OF paid tallies_deliver] tallies_then [OF dec tallies_begin_deferred])
  qed
  show ?thesis
  proof (cases header)
    case (Decoded p)
    then show ?thesis
      using fresh [of p] tallies_resume by (cases "inflight_get (fst (payload_nonce (ge_geth E) p)) s")
        (simp_all add: verify_and_settle_def Let_def)
  qed (simp_all add: verify_and_settle_def)
qed

lemma tallies_issue_receipt: "tallies 0 0 s (snd (issue_receipt E r reqs header key s))"
  by (rule tallies_same) (simp_all add: issue_receipt_def Let_def split: prod.split option.split sum.split)

lemma tallies_revoke: "tallies 0 0 s (snd (revoke_mandate E rj s))"
  by (rule tallies_same) (simp_all add: revoke_mandate_def split: option.split sum.split)

lemma tallies_write: "tallies 0 1 s (snd (write_requirements E resource f s))"
  by (simp add: write_requirements_def tallies_refusal)

definition refused :: "reply \<Rightarrow> bool" where
  "refused r \<longleftrightarrow> (case r of PaymentRequired t \<Rightarrow> True | _ \<Rightarrow> False)"

text \<open>The replies that write requirements and those that do not.\<close>

definition answers :: "'w gateway \<Rightarrow> reply \<times> 'w gateway \<Rightarrow> bool" where
  "answers s r \<longleftrightarrow> tallies 0 (if refused (fst r) then 1 else 0) s (snd r)"

lemma answers_write: "tallies 0 0 s s1 \<Longrightarrow> answers s (write_requirements E resource f s1)"
  using tallies_then [OF _ tallies_write] by (auto simp: answers_def refused_def write_requirements_def)

lemma answers_served: "tallies 0 0 s s' \<Longrightarrow> answers s (Served x i, s')" "tallies 0 0 s s' \<Longrightarrow> answers s (SessionClosed y, s')"
  by (simp_all add: answers_def refused_def)

lemma answers_open_session: "answers s (open_session E resource p s)"
proof -
  have world: "tallies 0 0 s (s\<lparr>gw_world := w\<rparr>)" for w by (rule tallies_same) simp_all
  have dec: "tallies 0 0 s s2" if "gateway_decide E pc (s\<lparr>gw_world := w\<rparr>) = (d, s2)" for pc w d s2
    using that metrics_frame(2) [of E pc "s\<lparr>gw_world := w\<rparr>"] gateway_decide_frame(3) [of E pc "s\<lparr>gw_world := w\<rparr>"]
    by (intro tallies_same) simp_all
  have new: "tallies 0 0 s s3" if "tallies 0 0 s s2" "new_session_id E s2 = (y, s3)" for s2 y s3
    by (rule tallies_then [OF that(1) tallies_same]) (use that(2) in \<open>auto simp: new_session_id_def split: prod.splits\<close>)
  have opened: "tallies 0 0 s (count inc_session_opened (session_put i sess s3))" if "tallies 0 0 s s3" for i sess s3
    by (rule tallies_then [OF tallies_then [OF that tallies_same] tallies_count(4)]) simp_all
  show ?thesis
    unfolding open_session_def Let_def
    by (auto intro!: answers_write answers_served opened intro: world dec new split: option.split sum.split prod.split)
qed

lemma tallies_refund_unused: "tallies 0 0 s (refund_unused E sess r s)"
  by (rule tallies_same) (simp_all add: refund_unused_def Let_def split: option.split sum.split prod.split)

lemma tallies_settle_session: "tallies 0 0 s (snd (snd (settle_session E sess s)))"
proof -
  have unused: "gw_metrics (refund_unused E sess r s') = gw_metrics s'" "gw_settlements (refund_unused E sess r s') = gw_settlements s'"
    for r s' by (simp_all add: refund_unused_def Let_def split: option.split sum.split prod.split)
  have settled: "tallies 0 0 s (count inc_session_settled s')"
    if "gw_metrics s' = gw_metrics s" "gw_settlements s' = gw_settlements s @ [r]" for s' r
    using that by (auto simp: tallies_def count_def inc_session_settled_def refusal_total_def)
  have entry: "gw_metrics s' = gw_metrics s \<and> gw_settlements s' = gw_settlements s"
    if "append_entry E e (s\<lparr>gw_world := w\<rparr>) = (x, s')" for e w x s'
    using that append_entry_frame(3,6) [of E e "s\<lparr>gw_world := w\<rparr>"] by simp
  show ?thesis
    unfolding settle_session_def Let_def
    by (auto simp: unused intro!: tallies_same settled split: sum.split option.split prod.split dest: entry)
qed

lemma answers_handle_session: "answers s (handle_session E resource i close s)"
proof -
  have settled: "tallies 0 0 s s'" if "settle_session E sess s = (out, sess', s')" for sess out sess' s'
    using tallies_settle_session [of s E sess] that by simp
  have removed: "tallies 0 0 s (session_remove i s')" "tallies 0 0 s (session_put i x s')" if "tallies 0 0 s s'" for x s'
    by (rule tallies_then [OF that tallies_same]; simp)+
  show ?thesis
    unfolding handle_session_def Let_def write_session_closed_def
    by (auto intro!: answers_write answers_served removed intro: settled split: option.split sum.split prod.split)
qed

text \<open>A request counts once, and once more when it is refused.\<close>

lemma middleware_tallies:
  "tallies 1 (if refused (fst (middleware E rq s)) then 1 else 0) s (snd (middleware E rq s))"
proof -
  let ?s = "count inc_request s"
  have paid: "tallies 0 0 ?s s1" if "verify_and_settle E header reqs ?s = (out, s1)" for header reqs out s1
    using tallies_verify_and_settle [of ?s E header reqs] that by simp
  have receipt: "tallies 0 0 ?s s2"
    if "issue_receipt E r reqs' header' key s1 = (x, s2)" "verify_and_settle E header reqs ?s = (out, s1)"
    for header reqs out s1 r reqs' header' key x s2
    using tallies_then [OF paid [OF that(2)] tallies_issue_receipt [of s1 E r reqs' header' key]] that(1) by simp
  have "answers ?s (middleware E rq s)"
    unfolding middleware_def Let_def
    by (auto intro!: answers_write answers_served answers_handle_session answers_open_session intro: paid receipt
        split: option.split sum.split prod.split)
  then show ?thesis
    using tallies_trans [OF tallies_count(1)] by (fastforce simp: answers_def)
qed

section \<open>A run\<close>

text \<open>The replies of a run, in order.\<close>

fun gateway_replies :: "'w gateway_env \<Rightarrow> 'w gateway \<Rightarrow> 'w gateway_event list \<Rightarrow> reply list" where
  "gateway_replies E s [] = []"
| "gateway_replies E s (Request rq # es) = fst (middleware E rq s) # gateway_replies E (gateway_step E s (Request rq)) es"
| "gateway_replies E s (Revoke rj # es) = gateway_replies E (gateway_step E s (Revoke rj)) es"
| "gateway_replies E s (Elapse f # es) = gateway_replies E (gateway_step E s (Elapse f)) es"

lemma run_tallies:
  "tallies (int (length (gateway_replies E s es))) (int (length (filter refused (gateway_replies E s es)))) s (run (gateway_step E) s es)"
proof (induction E s es rule: gateway_replies.induct)
  case (2 E s rq es)
  then show ?case using tallies_trans [OF middleware_tallies [of E rq s]] by (fastforce simp: ac_simps)
next
  case (3 E s rj es)
  then show ?case using tallies_trans [OF tallies_revoke [of s E rj]] by fastforce
next
  case (4 E s f es)
  have "tallies 0 0 s (s\<lparr>gw_world := f (gw_world s)\<rparr>)" by (rule tallies_same) simp_all
  then show ?case using tallies_trans 4 by fastforce
qed simp

lemma refusal_codes_once:
  assumes "finite (dom (mt_refusals m))"
  shows "sorted_wrt (<) (refusal_codes m)" and "set (refusal_codes m) = dom (mt_refusals m)"
    and "sum_list (map (\<lambda>c. the (mt_refusals m c)) (refusal_codes m)) = refusal_total m"
  using assms by (simp_all add: refusal_codes_def refusal_total_def sum_list_distinct_conv_sum_set)

section \<open>The property\<close>

text \<open>
  C39. The gateway's counters are the run's own numbers. Over any run of requests, revocations
  and time, whatever the facilitator, the policies, the deliverer and the disk do, every
  request is counted once; every reply of 402, and only those, is counted under one code, and
  the codes rendered, each once and in ascending order, add up to them; the payments and
  sessions counted as settled are as many as the settlements recorded; and there are at least
  as many settlement attempts as counted successes and failures.
\<close>

theorem metrics_match_the_run:
  assumes "gw_metrics s = Some m" and "finite (dom (mt_refusals m))"
    and "s' = run (gateway_step E) s es" and "replies = gateway_replies E s es"
  shows "\<exists>m'. gw_metrics s' = Some m' \<and> mt_requests m' = mt_requests m + int (length replies) \<and>
    refusal_total m' = refusal_total m + int (length (filter refused replies)) \<and>
    sorted_wrt (<) (refusal_codes m') \<and> set (refusal_codes m') = dom (mt_refusals m') \<and>
    sum_list (map (\<lambda>c. the (mt_refusals m' c)) (refusal_codes m')) = refusal_total m' \<and>
    mt_settle_success m' - mt_settle_success m + (mt_sessions_settled m' - mt_sessions_settled m) =
      int (length (gw_settlements s')) - int (length (gw_settlements s)) \<and>
    mt_settle_success m' - mt_settle_success m + (mt_settle_fail m' - mt_settle_fail m) \<le>
      mt_settle_latency_count m' - mt_settle_latency_count m"
proof -
  obtain m' where m': "gw_metrics s' = Some m'"
      "mt_settle_success m' + mt_sessions_settled m' - int (length (gw_settlements s')) =
        mt_settle_success m + mt_sessions_settled m - int (length (gw_settlements s))"
      "mt_settle_latency_count m' - mt_settle_success m' - mt_settle_fail m' \<ge>
        mt_settle_latency_count m - mt_settle_success m - mt_settle_fail m"
      "mt_requests m' = mt_requests m + int (length replies)" "finite (dom (mt_refusals m'))"
      "refusal_total m' = refusal_total m + int (length (filter refused replies))"
    using run_tallies [of E s es] assms by (auto simp: tallies_def)
  then show ?thesis using refusal_codes_once [OF m'(5)] by (intro exI [of _ m']) simp
qed

text \<open>A success of the facilitator that cannot be recorded is counted neither as a success nor as a failure.\<close>

lemma unrecorded_settlement_uncounted:
  assumes "ge_settle E p reqs (gw_world s) = (Inr (Some sr), w)" and "sresp_success sr"
    and "parse_exact_payload (ge_geth E) (pp_payload p) = Inr (a, sig)"
    and "\<And>r s1. fst (append_entry E (settlement_entry E r) s1) \<noteq> None" and "gw_metrics s = Some m"
  shows "\<exists>m' f. gw_metrics (snd (settle E p reqs pc s)) = Some m' \<and> fst (settle E p reqs pc s) = Inl f \<and>
    mt_settle_success m' = mt_settle_success m \<and> mt_settle_fail m' = mt_settle_fail m \<and>
    mt_settle_latency_count m' = mt_settle_latency_count m + 1"
proof -
  let ?s = "count (observe_settle_latency (ge_now E w - now E s)) (s\<lparr>gw_world := w\<rparr>)"
  define r where "r = \<lparr>st_payer = au_from a, st_amount = Some (au_value a),
    st_tx_hash = hex_to_hash (ge_geth E) (sresp_transaction sr), st_time = now E ?s, st_delivery_tx = 0\<rparr>"
  obtain x s1 where ap: "append_entry E (settlement_entry E r) ?s = (Some x, s1)"
    using assms(4) [of r ?s] by (cases "append_entry E (settlement_entry E r) ?s") auto
  have "gw_metrics s1 = gw_metrics ?s" using append_entry_frame(6) [of E "settlement_entry E r" ?s] unfolding ap by simp
  then have "gw_metrics s1 = map_option (observe_settle_latency (ge_now E w - now E s)) (gw_metrics s)"
    by (simp add: count_def)
  then show ?thesis
    using assms(1-3,5) ap by (simp add: settle_def r_def [symmetric] Let_def observe_settle_latency_def)
qed

definition bare_request :: http_request where
  "bare_request = \<lparr>rq_host = ''h'', rq_path = ''/doc'', rq_payment = NoHeader, rq_session = '''', rq_session_close = ''''\<rparr>"

lemma bare_replies:
  "gateway_replies E s [Request bare_request, Elapse f, Request bare_request] =
     replicate 2 (fst (write_requirements E ''http://h/doc'' (fail ErrCodePaymentRequired ''X-PAYMENT header is required'') s))"
  by (simp add: bare_request_def middleware_def write_requirements_def numeral_2_eq_2 Let_def)

theorem metrics_match_the_run_witness:
  "\<exists>m. gw_metrics (run (gateway_step (sample_env AlwaysVerify)) ((sample_gateway None)\<lparr>gw_metrics := Some new_metrics\<rparr>)
      [Request bare_request, Elapse id, Request bare_request]) = Some m \<and> mt_requests m = 2 \<and> refusal_total m = 2"
proof -
  let ?s = "(sample_gateway None)\<lparr>gw_metrics := Some new_metrics\<rparr>"
    and ?es = "[Request bare_request, Elapse id, Request bare_request]"
  have "gw_metrics ?s = Some new_metrics" "finite (dom (mt_refusals new_metrics))" by (simp_all add: new_metrics_def)
  from metrics_match_the_run [OF this refl refl, of "sample_env AlwaysVerify" ?es] show ?thesis
    unfolding bare_replies
    by (auto simp: refused_def write_requirements_def new_metrics_def refusal_total_def)
qed

end
