(* ===== verification/EventStream.thy ===== *)
theory EventStream
  imports Auditor Observe Operators
begin

text \<open>
  The event stream from the gateway's journal to the auditor: the Kafka sink of the outbox
  (\<open>x402/sink_kafka.go\<close>), the auditor's flags, sources and consumer (\<open>cmd/audit\<close>). The client
  library and the broker are parameters: \<open>produce\<close> is what a synchronous send does to the
  topic, a list of fetches is what the polls return.

  Theorem: an audit over the stream that a gateway's outbox has drained ends as the audit over
  its journal. \<open>slow_broker_reads_empty\<close> is the case the consumer takes for a drained topic.
\<close>

section \<open>sink_kafka.go\<close>

text \<open>A record's key and value.\<close>

type_synonym kafka_record = "string \<times> byte list"

definition kafka_publish ::
    "(journal_entry \<Rightarrow> byte list option) \<Rightarrow> ('s \<Rightarrow> kafka_record \<Rightarrow> 's \<times> string option) \<Rightarrow> 's sink" where
  "kafka_publish enc produce s e =
     (case enc e of
        None \<Rightarrow> (s, Some ''x402: marshal settlement event'')
      | Some v \<Rightarrow> (case produce s (je_id e, v) of
          (s', Some err) \<Rightarrow> (s', Some (''x402: produce settlement '' @ je_id e @ '': '' @ err))
        | (s', None) \<Rightarrow> (s', None)))"

text \<open>
  The topic only grows and only by what is produced; a send without an error is in it. One
  with an error may be.
\<close>

definition broker_law :: "('s \<Rightarrow> kafka_record \<Rightarrow> 's \<times> string option) \<Rightarrow> ('s \<Rightarrow> byte list set) \<Rightarrow> bool" where
  "broker_law produce topic \<longleftrightarrow>
     (\<forall>s k v. topic s \<subseteq> topic (fst (produce s (k, v))) \<and> topic (fst (produce s (k, v))) \<subseteq> insert v (topic s) \<and>
        (snd (produce s (k, v)) = None \<longrightarrow> v \<in> topic (fst (produce s (k, v)))))"

section \<open>cmd/audit: flags and sources\<close>

record audit_options =
  ao_receipt :: string
  ao_mandate :: string
  ao_journal :: string
  ao_brokers :: "string list"
  ao_topic :: string
  ao_rpc :: string
  ao_gateway :: string

text \<open>\<open>parseFlags\<close>, from the values of the flags.\<close>

definition audit_parse_flags :: "string \<Rightarrow> string \<Rightarrow> string \<Rightarrow> string \<Rightarrow> string \<Rightarrow> string \<Rightarrow> string \<Rightarrow> audit_options result" where
  "audit_parse_flags r m j broker topic rpc g =
     (if r = '''' then Inl ''--receipt is required''
      else Inr \<lparr>ao_receipt = r, ao_mandate = m, ao_journal = j,
        ao_brokers = (if broker \<noteq> '''' then split_comma broker else []), ao_topic = topic, ao_rpc = rpc, ao_gateway = g\<rparr>)"

text \<open>A poll: its errors, \<open>None\<close> for an exceeded deadline, and its records.\<close>

record kafka_fetch =
  kf_errors :: "string option list"
  kf_values :: "byte list list"

text \<open>The loop of \<open>readKafkaEvents\<close>; without another fetch it is still polling (\<open>None\<close>).\<close>

fun poll_values :: "kafka_fetch list \<Rightarrow> byte list list \<Rightarrow> byte list list result option" where
  "poll_values [] values = None"
| "poll_values (f # fs) values =
     (if kf_errors f \<noteq> [] then
        Some (case filter (\<lambda>e. e \<noteq> None) (kf_errors f) of
          [] \<Rightarrow> Inr values
        | e # es \<Rightarrow> Inl (''kafka fetch: '' @ the e))
      else if kf_values f = [] then Some (Inr values)
      else poll_values fs (values @ kf_values f))"

definition parse_event_records :: "(byte list \<Rightarrow> journal_entry option) \<Rightarrow> byte list list \<Rightarrow> journal_entry list" where
  "parse_event_records dec values = map (\<lambda>v. the (dec v)) (filter (\<lambda>v. dec v \<noteq> None) values)"

definition read_kafka_events ::
    "(byte list \<Rightarrow> journal_entry option) \<Rightarrow> (string list \<Rightarrow> string \<Rightarrow> kafka_fetch list result) \<Rightarrow> string list \<Rightarrow> string \<Rightarrow>
     journal_entry list result option" where
  "read_kafka_events dec client brokers topic =
     (if topic = '''' then Some (Inl ''--topic is required with --broker'')
      else (case client brokers topic of
        Inl e \<Rightarrow> Some (Inl (''kafka: '' @ e))
      | Inr fetches \<Rightarrow> map_option (map_sum id (parse_event_records dec)) (poll_values fetches [])))"

text \<open>The files, the broker and the node a run of the command meets.\<close>

record audit_world =
  aw_receipt :: "string \<Rightarrow> signed_receipt_json result"
  aw_mandate :: "string \<Rightarrow> signed_mandate_json result"
  aw_journal :: "string \<Rightarrow> jline log_file option"
  aw_client :: "string list \<Rightarrow> string \<Rightarrow> kafka_fetch list result"
  aw_node :: "string \<Rightarrow> (bytes32 \<Rightarrow> tx_receipt result) result"

definition audit_events :: "(byte list \<Rightarrow> journal_entry option) \<Rightarrow> audit_world \<Rightarrow> audit_options \<Rightarrow> journal_entry list result option option" where
  "audit_events dec W opts =
     (if ao_brokers opts \<noteq> [] then map_option Some (read_kafka_events dec (aw_client W) (ao_brokers opts) (ao_topic opts))
      else if ao_journal opts \<noteq> '''' then Some (Some (map_sum id entries (journal_open (aw_journal W (ao_journal opts)))))
      else Some None)"

definition audit_inputs_of :: "audit_world \<Rightarrow> audit_options \<Rightarrow> journal_entry list result option \<Rightarrow> audit_inputs" where
  "audit_inputs_of W opts events = \<lparr>ai_receipt = aw_receipt W (ao_receipt opts),
     ai_mandate = (if ao_mandate opts = '''' then None else Some (aw_mandate W (ao_mandate opts))), ai_events = events,
     ai_gateway = ao_gateway opts, ai_chain = (if ao_rpc opts = '''' then None else Some (aw_node W (ao_rpc opts)))\<rparr>"

text \<open>The command on parsed flags; \<open>None\<close> while it is still polling.\<close>

definition audit_command ::
    "geth \<Rightarrow> (byte list \<Rightarrow> journal_entry option) \<Rightarrow> audit_world \<Rightarrow> audit_options \<Rightarrow> (string option \<times> auditor) option" where
  "audit_command G dec W opts =
     (case load_receipt G (audit_inputs_of W opts None) of
        Inl e \<Rightarrow> Some (Some e, new_auditor)
      | Inr r \<Rightarrow> map_option (\<lambda>ev. audit_run G (audit_inputs_of W opts ev)) (audit_events dec W opts))"

section \<open>The verdict of an audit\<close>

text \<open>Two states of an audit with the same verdict so far.\<close>

definition same_verdict :: "auditor result \<Rightarrow> auditor result \<Rightarrow> bool" where
  "same_verdict x y \<longleftrightarrow> rel_sum (=) (\<lambda>a b. ad_failed a = ad_failed b) x y"

lemma find_revocation_set:
  "set es = set es' \<Longrightarrow> find_revocation mid t es = None \<longleftrightarrow> find_revocation mid t es' = None"
  by (simp add: find_revocation_None)

lemma audit_delegation_verdict:
  assumes "set es = set es'" and "ai_mandate i = ai_mandate i'"
  shows "same_verdict (audit_delegation G i r es b a) (audit_delegation G i' r es' b a)"
proof -
  have "ad_failed (audit_revocation r es b a1) = ad_failed (audit_revocation r es' b a1)" for a1
    using find_revocation_set [OF assms(1)] by (simp add: audit_revocation_failed)
  then show ?thesis
    by (auto simp: same_verdict_def audit_delegation_def audit_mandate_def assms(2) Let_def split: option.split sum.split)
qed

lemma audit_node_verdict:
  assumes "ad_failed a = ad_failed a'" and "ai_chain i = ai_chain i'"
  shows "same_verdict (audit_node G i r a) (audit_node G i' r a')"
  using assms by (auto simp: same_verdict_def audit_node_def audit_on_chain_def Let_def split: option.split sum.split)

lemma audit_run_verdict:
  assumes "set es = set es'"
  shows "fst (audit_run G (i\<lparr>ai_events := Some (Inr es)\<rparr>)) = fst (audit_run G (i\<lparr>ai_events := Some (Inr es')\<rparr>))"
proof -
  let ?i = "i\<lparr>ai_events := Some (Inr es)\<rparr>" and ?i' = "i\<lparr>ai_events := Some (Inr es')\<rparr>"
  have lr: "load_receipt G ?i' = load_receipt G ?i" by (simp add: load_receipt_def)
  have ev: "load_events ?i = Inr (es, True)" "load_events ?i' = Inr (es', True)" by (simp_all add: load_events_def)
  show ?thesis
  proof (cases "load_receipt G ?i")
    case (Inl e)
    then show ?thesis using lr by (simp add: audit_run_def)
  next
    case (Inr rs)
    obtain r sig where rs: "rs = (r, sig)" by fastforce
    let ?a = "audit_signature G (ai_gateway i) r sig"
    have d: "same_verdict (audit_delegation G ?i r es True ?a) (audit_delegation G ?i' r es' True ?a)"
      by (rule audit_delegation_verdict [OF assms]) simp
    show ?thesis
    proof (cases "audit_delegation G ?i r es True ?a")
      case (Inl e)
      then have "audit_delegation G ?i' r es' True ?a = Inl e"
        using d by (auto simp: same_verdict_def elim: rel_sum.cases)
      then show ?thesis using Inl Inr rs lr ev by (simp add: audit_run_def)
    next
      case (Inr b)
      then obtain b' where b': "audit_delegation G ?i' r es' True ?a = Inr b'" "ad_failed b = ad_failed b'"
        using d by (auto simp: same_verdict_def elim: rel_sum.cases)
      have n: "same_verdict (audit_node G ?i r b) (audit_node G ?i' r b')"
        by (rule audit_node_verdict [OF b'(2)]) simp
      show ?thesis
        using n Inr b'(1) \<open>load_receipt G ?i = Inr rs\<close> rs lr ev
        by (cases "audit_node G ?i r b"; cases "audit_node G ?i' r b'") (simp_all add: audit_run_def same_verdict_def)
    qed
  qed
qed

section \<open>The stream carries the journal\<close>

definition stream_inv :: "(byte list \<Rightarrow> journal_entry option) \<Rightarrow> ('s \<Rightarrow> byte list set) \<Rightarrow> 's \<times> journal \<Rightarrow> bool" where
  "stream_inv dec topic sj \<longleftrightarrow> journal_synced (snd sj) \<and>
     (\<forall>v\<in>topic (fst sj). \<exists>e\<in>set (entries (snd sj)). dec v = Some e) \<and>
     (\<forall>e\<in>set (entries (snd sj)). je_id e \<in> jm_published (jr_mem (snd sj)) \<longrightarrow> (\<exists>v\<in>topic (fst sj). dec v = Some e)) \<and>
     jm_published (jr_mem (snd sj)) \<subseteq> je_id ` set (entries (snd sj))"

lemma stream_invD:
  assumes "stream_inv dec topic (s, j)"
  shows "journal_synced j" and "\<forall>v\<in>topic s. \<exists>e\<in>set (entries j). dec v = Some e"
    and "\<forall>e\<in>set (entries j). je_id e \<in> jm_published (jr_mem j) \<longrightarrow> (\<exists>v\<in>topic s. dec v = Some e)"
    and "jm_published (jr_mem j) \<subseteq> je_id ` set (entries j)"
  using assms unfolding stream_inv_def fst_conv snd_conv by blast+

lemma stream_invI:
  assumes "journal_synced j" and "\<forall>v\<in>topic s. \<exists>e\<in>set (entries j). dec v = Some e"
    and "\<forall>e\<in>set (entries j). je_id e \<in> jm_published (jr_mem j) \<longrightarrow> (\<exists>v\<in>topic s. dec v = Some e)"
    and "jm_published (jr_mem j) \<subseteq> je_id ` set (entries j)"
  shows "stream_inv dec topic (s, j)"
  using assms unfolding stream_inv_def fst_conv snd_conv by blast

definition codec_law :: "(journal_entry \<Rightarrow> byte list option) \<Rightarrow> (byte list \<Rightarrow> journal_entry option) \<Rightarrow> bool" where
  "codec_law enc dec \<longleftrightarrow> (\<forall>e v. enc e = Some v \<longrightarrow> dec v = Some e)"

lemma stream_distinct: "stream_inv dec topic (s, j) \<Longrightarrow> distinct (map je_id (entries j))"
  using mem_wf_replay [of "jr_file j"] by (simp add: stream_inv_def journal_synced_def mem_wf_def entries_def)

lemma kafka_publish_topic:
  assumes "codec_law enc dec" and "broker_law produce topic" and "kafka_publish enc produce s e = (s', err)"
    and "\<forall>v\<in>topic s. \<exists>e\<in>E. dec v = Some e" and "e \<in> E"
  shows "topic s \<subseteq> topic s' \<and> (\<forall>v\<in>topic s'. \<exists>e\<in>E. dec v = Some e) \<and> (err = None \<longrightarrow> (\<exists>v\<in>topic s'. dec v = Some e))"
proof (cases "enc e")
  case None
  then show ?thesis using assms(3,4) by (auto simp: kafka_publish_def)
next
  case (Some v)
  obtain s1 er where p: "produce s (je_id e, v) = (s1, er)" by fastforce
  have law: "topic s \<subseteq> topic s1" "topic s1 \<subseteq> insert v (topic s)" "er = None \<longrightarrow> v \<in> topic s1"
    using assms(2) p unfolding broker_law_def by (metis fst_conv snd_conv)+
  have v: "dec v = Some e" using assms(1) Some by (simp add: codec_law_def)
  have r: "s' = s1" "err = None \<longleftrightarrow> er = None"
    using assms(3) p Some by (auto simp: kafka_publish_def split: option.splits)
  show ?thesis using law v r assms(4,5) by auto
qed

lemma stream_mark:
  assumes "stream_inv dec topic (s, j)" and "e \<in> set (entries j)" and "v \<in> topic s" and "dec v = Some e"
  shows "stream_inv dec topic (s, snd (mark_published IoOk (je_id e) j)) \<and>
    entries (snd (mark_published IoOk (je_id e) j)) = entries j"
proof -
  let ?j = "snd (mark_published IoOk (je_id e) j)"
  have synced: "journal_synced ?j"
    using jmach.step_inv [of j "JMark (je_id e)"] assms(1) by (simp add: stream_inv_def jop_step_def)
  have mem: "entries ?j = entries j" "jm_published (jr_mem ?j) = insert (je_id e) (jm_published (jr_mem j))"
    using jop_run_cases [of IoOk "JMark (je_id e)" j] by (auto simp: entries_def)
  have "e' = e" if "e' \<in> set (entries j)" "je_id e' = je_id e" for e'
    using stream_distinct [OF assms(1)] that assms(2) by (metis distinct_map inj_onD)
  then show ?thesis
    using assms synced mem by (auto simp: stream_inv_def)
qed

lemma stream_append:
  assumes "stream_inv dec topic (s, j)"
  shows "stream_inv dec topic (s, snd (journal_append IoOk e j))"
proof -
  let ?j = "snd (journal_append IoOk e j)"
  have synced: "journal_synced ?j"
    using jmach.step_inv [of j "JAppend e"] assms by (simp add: stream_inv_def jop_step_def)
  have wf: "mem_wf (jr_mem j)"
    using assms mem_wf_replay [of "jr_file j"] by (simp add: stream_inv_def journal_synced_def)
  show ?thesis
  proof (cases "jm_index (jr_mem j) (je_id e)")
    case None
    have new: "je_id e' \<noteq> je_id e" if "e' \<in> set (entries j)" for e'
    proof -
      obtain k where "k < length (jm_entries (jr_mem j))" "jm_entries (jr_mem j) ! k = e'"
        using \<open>e' \<in> set (entries j)\<close> by (auto simp: entries_def in_set_conv_nth)
      then have "jm_index (jr_mem j) (je_id e') = Some k" using wf by (simp add: mem_wf_def)
      then show ?thesis using None by auto
    qed
    have mem: "entries ?j = entries j @ [e]" "jm_published (jr_mem ?j) = jm_published (jr_mem j)"
      using jop_run_cases [of IoOk "JAppend e" j] None by (simp_all add: entries_def journal_record_def)
    note inv = stream_invD [OF assms]
    show ?thesis
    proof (rule stream_invI [OF synced])
      show "\<forall>v\<in>topic s. \<exists>e'\<in>set (entries ?j). dec v = Some e'" using inv(2) by (auto simp: mem(1))
      have "je_id e \<notin> jm_published (jr_mem j)" using inv(4) new by (metis image_iff subsetD)
      then show "\<forall>e'\<in>set (entries ?j). je_id e' \<in> jm_published (jr_mem ?j) \<longrightarrow> (\<exists>v\<in>topic s. dec v = Some e')"
        using inv(3) by (simp add: mem)
      show "jm_published (jr_mem ?j) \<subseteq> je_id ` set (entries ?j)" using inv(4) by (auto simp: mem)
    qed
  next
    case (Some k)
    then show ?thesis using assms by (simp add: journal_append_def)
  qed
qed

lemma stream_drain_list:
  assumes "codec_law enc dec" and "broker_law produce topic"
  shows "stream_inv dec topic (s, j) \<Longrightarrow> set es \<subseteq> set (entries j) \<Longrightarrow>
    stream_inv dec topic (drain_list (kafka_publish enc produce) (\<lambda>_. IoOk) es (s, j))"
proof (induction es arbitrary: s j)
  case (Cons e es)
  obtain s' er where p: "kafka_publish enc produce s e = (s', er)" by fastforce
  have t: "topic s \<subseteq> topic s'" "\<forall>v\<in>topic s'. \<exists>e\<in>set (entries j). dec v = Some e"
    "er = None \<longrightarrow> (\<exists>v\<in>topic s'. dec v = Some e)"
    using kafka_publish_topic [OF assms p stream_invD(2) [OF Cons.prems(1)]] Cons.prems(2) by simp_all
  note old = stream_invD [OF Cons.prems(1)]
  have kept: "\<forall>e\<in>set (entries j). je_id e \<in> jm_published (jr_mem j) \<longrightarrow> (\<exists>v\<in>topic s'. dec v = Some e)"
    using old(3) t(1) by blast
  have inv: "stream_inv dec topic (s', j)" by (intro stream_invI old(1) t(2) kept old(4))
  show ?case
  proof (cases er)
    case None
    then obtain v where v: "v \<in> topic s'" "dec v = Some e" using t(3) by blast
    have "e \<in> set (entries j)" using Cons.prems(2) by simp
    note mark = stream_mark [OF inv this v]
    obtain j' where j': "mark_published IoOk (je_id e) j = (None, j')"
      using jop_run_cases [of IoOk "JMark (je_id e)" j] by (auto split: if_splits)
    show ?thesis using Cons.IH [of s' j'] mark Cons.prems(2) p None j' by simp
  next
    case (Some x)
    then show ?thesis using p inv by simp
  qed
qed simp

text \<open>A healthy disk: the broker may still refuse or lose any send.\<close>

definition disk_fine :: "outbox_event \<Rightarrow> bool" where
  "disk_fine ev \<longleftrightarrow> (case ev of OAppend out e \<Rightarrow> out = IoOk | ODrain outs \<Rightarrow> outs = (\<lambda>_. IoOk) | ORestart \<Rightarrow> True)"

interpretation event_stream: machine "outbox_step (kafka_publish enc produce)"
  "\<lambda>_ ev. codec_law enc dec \<and> broker_law produce topic \<and> disk_fine ev" "stream_inv dec topic" for enc produce dec topic
proof unfold_locales
  fix sj :: "'a \<times> journal" and ev
  assume inv: "stream_inv dec topic sj" and ok: "codec_law enc dec \<and> broker_law produce topic \<and> disk_fine ev"
  obtain s j where sj: "sj = (s, j)" by fastforce
  show "stream_inv dec topic (outbox_step (kafka_publish enc produce) sj ev)"
  proof (cases ev)
    case (OAppend out e)
    then show ?thesis using stream_append inv ok by (simp add: sj disk_fine_def)
  next
    case (ODrain outs)
    have "set (unpublished j) \<subseteq> set (entries j)" by (auto simp: unpublished_def entries_def)
    then show ?thesis using stream_drain_list [of enc dec produce topic s j "unpublished j"] inv ok ODrain
      by (simp add: sj disk_fine_def drain_def)
  next
    case ORestart
    have "jr_mem j = journal_replay (jr_file j)" using inv by (simp add: sj stream_inv_def journal_synced_def)
    then have "\<lparr>jr_file = jr_file j, jr_mem = journal_replay (jr_file j)\<rparr> = j" by (cases j) simp
    then show ?thesis using inv by (simp add: sj ORestart)
  qed
qed

lemma allowed_pointwise: "allowed step (\<lambda>_ e. P e) s es \<longleftrightarrow> (\<forall>e\<in>set es. P e)"
  by (induction es arbitrary: s) simp_all

lemma drained_stream:
  assumes "stream_inv dec topic (s, j)" and "unpublished j = []" and "set values = topic s"
  shows "set (parse_event_records dec values) = set (entries j)"
proof -
  note inv = stream_invD [OF assms(1)]
  have "je_id e \<in> jm_published (jr_mem j)" if "e \<in> set (entries j)" for e
    using assms(2) that by (simp add: unpublished_def entries_def filter_empty_conv)
  then have carried: "\<exists>v\<in>set values. dec v = Some e" if "e \<in> set (entries j)" for e
    using inv(3) assms(3) that by blast
  show ?thesis
  proof (intro set_eqI iffI)
    fix e
    assume "e \<in> set (parse_event_records dec values)"
    then obtain v where "v \<in> set values" "dec v = Some e" by (auto simp: parse_event_records_def)
    then show "e \<in> set (entries j)" using inv(2) assms(3) by (metis option.inject)
  next
    fix e
    assume "e \<in> set (entries j)"
    then obtain v where v: "v \<in> set values" "dec v = Some e" using carried by blast
    then have "v \<in> set (filter (\<lambda>v. dec v \<noteq> None) values)" by simp
    then have "the (dec v) \<in> set (parse_event_records dec values)" unfolding parse_event_records_def set_map by (rule imageI)
    then show "e \<in> set (parse_event_records dec values)" using v by simp
  qed
qed

section \<open>The property\<close>

text \<open>
  C40. Auditing the stream is auditing the journal. A gateway's journal starts empty; entries
  are appended, the outbox passes over it and the process restarts in any order, on a healthy
  disk and with a broker that may refuse any send, or store it and report an error, so that
  records repeat. When nothing is left unpublished and the auditor's polls have read the whole
  topic, an audit with \<open>--broker\<close> ends, with the same verdict and the same error, as the audit
  with \<open>--journal\<close> on the gateway's file.
\<close>

theorem stream_audit_is_journal_audit:
  assumes "codec_law enc dec" and "broker_law produce topic" and "topic s0 = {}" and "clean_file f" and "parsed f = []"
    and "\<forall>ev\<in>set evs. disk_fine ev"
    and "run (outbox_step (kafka_publish enc produce)) (s0, \<lparr>jr_file = f, jr_mem = journal_replay f\<rparr>) evs = (s, j)"
    and "unpublished j = []" and "poll_values fetches [] = Some (Inr values)" and "set values = topic s"
    and "ao_brokers opts \<noteq> []" and "ao_topic opts \<noteq> ''''" and "aw_client W (ao_brokers opts) (ao_topic opts) = Inr fetches"
    and "file \<noteq> ''''" and "aw_journal W file = Some (jr_file j)"
  shows "map_option fst (audit_command G dec W opts) = map_option fst (audit_command G dec W (opts\<lparr>ao_brokers := [], ao_journal := file\<rparr>))"
proof -
  let ?j0 = "\<lparr>jr_file = f, jr_mem = journal_replay f\<rparr>" and ?opts = "opts\<lparr>ao_brokers := [], ao_journal := file\<rparr>"
  have "journal_replay f = empty_mem" by (simp add: journal_replay_def assms(5))
  then have "stream_inv dec topic (s0, ?j0)"
    using assms(3,4) by (simp add: stream_inv_def journal_synced_def entries_def empty_mem_def)
  then have inv: "stream_inv dec topic (s, j)"
    using event_stream.run_inv [of dec topic "(s0, ?j0)" enc produce evs] assms(1,2,6,7)
    by (simp add: allowed_pointwise)
  have same: "set (parse_event_records dec values) = set (entries j)"
    by (rule drained_stream [OF inv assms(8,10)])
  have "jr_mem j = journal_replay (jr_file j)" using inv by (simp add: stream_inv_def journal_synced_def)
  then have ev: "audit_events dec W ?opts = Some (Some (Inr (entries j)))"
    using assms(14,15) by (simp add: audit_events_def journal_open_def entries_def)
  have ev': "audit_events dec W opts = Some (Some (Inr (parse_event_records dec values)))"
    using assms(9,11-13) by (simp add: audit_events_def read_kafka_events_def)
  have inputs: "audit_inputs_of W ?opts e = audit_inputs_of W opts e" for e by (simp add: audit_inputs_of_def)
  have verdict: "fst (audit_run G (audit_inputs_of W opts (Some (Inr (parse_event_records dec values))))) =
      fst (audit_run G (audit_inputs_of W opts (Some (Inr (entries j)))))"
    using audit_run_verdict [OF same, of G "audit_inputs_of W opts None"] by (simp add: audit_inputs_of_def)
  show ?thesis
    unfolding audit_command_def inputs ev ev' using verdict by (cases "load_receipt G (audit_inputs_of W opts None)") simp_all
qed

text \<open>
  A deadline without records is taken for a drained topic: with a broker that does not answer
  within two seconds the audit runs on no events, and no revocation is seen.
\<close>

lemma slow_broker_reads_empty:
  assumes "client brokers topic = Inr (\<lparr>kf_errors = [None], kf_values = []\<rparr> # later)" and "topic \<noteq> ''''"
  shows "read_kafka_events dec client brokers topic = Some (Inr [])"
  using assms by (simp add: read_kafka_events_def parse_event_records_def)

section \<open>Witness\<close>

definition streamed_entry :: journal_entry where
  "streamed_entry = blank_entry\<lparr>je_id := ''t'', je_amount := ''60''\<rparr>"

definition streamed_enc :: "journal_entry \<Rightarrow> byte list option" where
  "streamed_enc e = (if e = streamed_entry then Some [1] else None)"

definition streamed_dec :: "byte list \<Rightarrow> journal_entry option" where
  "streamed_dec v = (if v = [1] then Some streamed_entry else None)"

definition list_broker :: "byte list list \<Rightarrow> kafka_record \<Rightarrow> byte list list \<times> string option" where
  "list_broker s r = (s @ [snd r], None)"

definition streamed_options :: audit_options where
  "streamed_options = \<lparr>ao_receipt = ''r'', ao_mandate = ''m'', ao_journal = '''', ao_brokers = [''b''], ao_topic = ''settlements'',
     ao_rpc = '''', ao_gateway = ''''\<rparr>"

definition streamed_file :: "jline log_file" where
  "streamed_file = jr_file (snd (run (outbox_step (kafka_publish streamed_enc list_broker))
     ([], \<lparr>jr_file = [], jr_mem = journal_replay []\<rparr>) [OAppend IoOk streamed_entry, ODrain (\<lambda>_. IoOk)]))"

definition streamed_world :: audit_world where
  "streamed_world = \<lparr>aw_receipt = (\<lambda>_. ai_receipt audited_inputs), aw_mandate = (\<lambda>_. Inr audited_mandate),
     aw_journal = (\<lambda>_. Some streamed_file),
     aw_client = (\<lambda>_ _. Inr [\<lparr>kf_errors = [], kf_values = [[1], [1]]\<rparr>, \<lparr>kf_errors = [None], kf_values = []\<rparr>]),
     aw_node = (\<lambda>_. Inl '''')\<rparr>"

theorem stream_audit_is_journal_audit_witness:
  "map_option fst (audit_command sample_geth streamed_dec streamed_world streamed_options) =
     map_option fst (audit_command sample_geth streamed_dec streamed_world (streamed_options\<lparr>ao_brokers := [], ao_journal := ''j''\<rparr>)) \<and>
   audit_events streamed_dec streamed_world streamed_options = Some (Some (Inr [streamed_entry, streamed_entry]))"
proof -
  let ?publish = "kafka_publish streamed_enc list_broker" and ?evs = "[OAppend IoOk streamed_entry, ODrain (\<lambda>_. IoOk)]"
  obtain s j where r: "run (outbox_step ?publish) ([], \<lparr>jr_file = [], jr_mem = journal_replay []\<rparr>) ?evs = (s, j)" by fastforce
  have kept: "streamed_file = jr_file j" using r by (simp add: streamed_file_def)
  have id: "je_id streamed_entry = ''t''" by (simp add: streamed_entry_def)
  have laws: "codec_law streamed_enc streamed_dec" "broker_law list_broker set"
    by (auto simp: codec_law_def streamed_enc_def streamed_dec_def broker_law_def list_broker_def)
  have empty: "clean_file ([] :: jline log_file)" "parsed ([] :: jline log_file) = []" by code_simp+
  have replay: "journal_replay [] = empty_mem" by (simp add: journal_replay_def empty(2))
  have final: "s = [[1]] \<and> unpublished j = []"
    using r by (auto simp: replay journal_append_def write_line_def empty_mem_def journal_record_def drain_def unpublished_def
        kafka_publish_def streamed_enc_def list_broker_def mark_published_def id file_write_def Let_def split: prod.splits)
  have fine: "\<forall>ev\<in>set ?evs. disk_fine ev" by (simp add: disk_fine_def)
  have polled: "poll_values [\<lparr>kf_errors = [], kf_values = [[1], [1]]\<rparr>, \<lparr>kf_errors = [None], kf_values = []\<rparr>] [] = Some (Inr [[1], [1]])"
    by simp
  have "map_option fst (audit_command sample_geth streamed_dec streamed_world streamed_options) =
     map_option fst (audit_command sample_geth streamed_dec streamed_world (streamed_options\<lparr>ao_brokers := [], ao_journal := ''j''\<rparr>))"
    by (rule stream_audit_is_journal_audit [OF laws _ empty fine r _ polled])
      (use final in \<open>simp_all add: streamed_options_def streamed_world_def kept\<close>)
  then show ?thesis
    by (simp add: audit_events_def streamed_options_def streamed_world_def read_kafka_events_def parse_event_records_def
        streamed_dec_def)
qed

end
