(* ===== verification/Demoflow.thy ===== *)
theory Demoflow
  imports "HOL-Library.Sublist" Simulation Bindings Auditor Hub
begin

text \<open>
  The demo (\<open>internal/demoflow\<close>, run by \<open>cmd/demo\<close> and \<open>cmd/demoweb\<close>): eighteen steps on a
  simulated chain with two gateways and one agent, told as a stream of events. The chain is
  the bound contracts with the reports of the sent transactions; the gateways, their
  facilitators, the agent, the ledger and the audit are the models of the other theories.
  The backend's blocks and logs, the plain ETH transfer, clock, randomness and the journal's
  temporary file are parameters.

  Theorems: what an observer of the events may conclude about the run; and what the demo
  itself does not look at.
\<close>

section \<open>The chain and the run\<close>

record 'n demo_world =
  dw_chain :: chain_world
  dw_reports :: "(bytes32 \<times> tx_report) list"
  dw_node :: 'n
  dw_first :: local_facilitator
  dw_second :: local_facilitator

text \<open>
  The generated keys are given. \<open>de_file\<close> is the temporary file: \<open>Inl\<close> when it cannot be
  made, \<open>None\<close> when the journal cannot open it. \<open>de_json\<close> prints a refusal's body.
\<close>

record 'n demo_env =
  de_geth :: geth
  de_bind :: binding_env
  de_created :: "address \<Rightarrow> chain_world \<Rightarrow> address"
  de_domain :: bytes32
  de_chain_id :: int
  de_issuer :: bytes32
  de_gateway :: bytes32
  de_delegator :: bytes32
  de_seller :: bytes32
  de_wallet :: "wallet result"
  de_first_url :: string
  de_second_url :: string
  de_route :: "string \<Rightarrow> string \<times> string"
  de_json :: "reply \<Rightarrow> string"
  de_commit :: "'n \<Rightarrow> 'n"
  de_nonce :: "address \<Rightarrow> 'n demo_world \<Rightarrow> nat result"
  de_gas_price :: "'n demo_world \<Rightarrow> int result"
  de_send_eth :: "nat \<Rightarrow> address \<Rightarrow> int \<Rightarrow> int \<Rightarrow> 'n demo_world \<Rightarrow> tx_report \<times> 'n demo_world"
  de_logs :: "'n demo_world \<Rightarrow> chain_reader"
  de_receipt :: "bytes32 \<Rightarrow> 'n demo_world \<Rightarrow> tx_receipt result"
  de_head :: "'n demo_world \<Rightarrow> nat result"
  de_tx_block :: "bytes32 \<Rightarrow> 'n demo_world \<Rightarrow> nat option"
  de_now :: "'n demo_world \<Rightarrow> int"
  de_random :: "'n demo_world \<Rightarrow> bytes32 option \<times> 'n demo_world"
  de_disk :: "journal_entry \<Rightarrow> 'n demo_world \<Rightarrow> io"
  de_file :: "jline log_file option result"
  de_gated :: bool

text \<open>What the caller sees: the calls of \<open>gate\<close> and of \<open>emit\<close>, in order.\<close>

datatype demo_beat = Gated int | Emitted demo_event

text \<open>
  The fields of the two gateways that Run sets are in their environments. The state of a
  gateway holds the world of its last request; the current one is \<open>ds_world\<close>.
\<close>

record 'n demo_state =
  ds_world :: "'n demo_world"
  ds_first_env :: "'n demo_world gateway_env"
  ds_first :: "'n demo_world gateway"
  ds_second_env :: "'n demo_world gateway_env"
  ds_second :: "'n demo_world gateway"
  ds_agent :: agent
  ds_beats :: "demo_beat list"

section \<open>Sequencing\<close>

text \<open>A part of Run: an early return is an \<open>Inl\<close>, and what was emitted stays emitted.\<close>

type_synonym ('n, 'a) flow = "'n demo_state \<Rightarrow> 'a result \<times> 'n demo_state"

definition flow_return :: "'a \<Rightarrow> ('n, 'a) flow" where
  "flow_return x s = (Inr x, s)"

definition flow_fail :: "string \<Rightarrow> ('n, 'a) flow" where
  "flow_fail e s = (Inl e, s)"

definition flow_bind :: "('n, 'a) flow \<Rightarrow> ('a \<Rightarrow> ('n, 'b) flow) \<Rightarrow> ('n, 'b) flow" where
  "flow_bind m f s = (case m s of (Inl e, s1) \<Rightarrow> (Inl e, s1) | (Inr x, s1) \<Rightarrow> f x s1)"

definition flow_seq :: "('n, unit) flow \<Rightarrow> ('n, 'b) flow \<Rightarrow> ('n, 'b) flow" where
  "flow_seq m k = flow_bind m (\<lambda>_. k)"

definition flow_of :: "'a result \<Rightarrow> ('n, 'a) flow" where
  "flow_of r s = (r, s)"

definition flow_get :: "('n demo_state \<Rightarrow> 'a) \<Rightarrow> ('n, 'a) flow" where
  "flow_get f s = (Inr (f s), s)"

definition flow_put :: "('n demo_state \<Rightarrow> 'n demo_state) \<Rightarrow> ('n, unit) flow" where
  "flow_put f s = (Inr (), f s)"

definition flow_check :: "bool \<Rightarrow> string \<Rightarrow> ('n, unit) flow" where
  "flow_check ok e = (if ok then flow_return () else flow_fail e)"

section \<open>The emitter\<close>

definition nl :: string where
  "nl = [CHR 0x0A]"

definition quoted :: "string \<Rightarrow> string" where
  "quoted s = CHR 0x22 # s @ [CHR 0x22]"

definition beat :: "demo_beat \<Rightarrow> ('n, unit) flow" where
  "beat b = flow_put (\<lambda>s. s\<lparr>ds_beats := ds_beats s @ [b]\<rparr>)"

definition emit_step :: "'n demo_env \<Rightarrow> int \<Rightarrow> string \<Rightarrow> string \<Rightarrow> ('n, unit) flow" where
  "emit_step D n title lead =
     flow_seq (if de_gated D then beat (Gated n) else flow_return ())
       (beat (Emitted (blank_event\<lparr>ev_step := n, ev_kind := ''step'', ev_title := title,
          ev_text := lead @ ''== '' @ big_show n @ ''. '' @ title @ '' =='' @ nl\<rparr>)))"

definition emit_log :: "string \<Rightarrow> ('n, unit) flow" where
  "emit_log text = beat (Emitted (blank_event\<lparr>ev_kind := ''log'', ev_text := text\<rparr>))"

definition emit_err :: "string \<Rightarrow> string \<Rightarrow> ('n, unit) flow" where
  "emit_err text code = beat (Emitted (blank_event\<lparr>ev_kind := ''error'', ev_text := text, ev_error_code := code\<rparr>))"

definition emit_tx :: "string \<Rightarrow> string \<Rightarrow> ('n, unit) flow" where
  "emit_tx text h = beat (Emitted (blank_event\<lparr>ev_kind := ''tx'', ev_text := text, ev_tx_hash := h\<rparr>))"

definition emit_balance :: "string \<Rightarrow> (string \<times> string) list \<Rightarrow> ('n, unit) flow" where
  "emit_balance text bs = beat (Emitted (blank_event\<lparr>ev_kind := ''balance'', ev_text := text, ev_balances := bs\<rparr>))"

definition emit_mandate :: "string \<Rightarrow> string \<Rightarrow> ('n, unit) flow" where
  "emit_mandate text i = beat (Emitted (blank_event\<lparr>ev_kind := ''log'', ev_text := text, ev_mandate_id := i\<rparr>))"

definition emit_audit :: "string \<Rightarrow> bool \<Rightarrow> string \<Rightarrow> ('n, unit) flow" where
  "emit_audit name ok detail = beat (Emitted (blank_event\<lparr>ev_kind := ''audit'', ev_audit_step := name, ev_audit_ok := ok,
     ev_text := ''   ['' @ (if ok then ''PASS'' else ''FAIL'') @ ''] '' @ name @ '': '' @ detail @ nl\<rparr>))"

definition emit_done :: "string \<Rightarrow> ('n, unit) flow" where
  "emit_done text = beat (Emitted (blank_event\<lparr>ev_kind := ''done'', ev_text := text\<rparr>))"

section \<open>Transactions\<close>

text \<open>\<open>sim.Commit()\<close>.\<close>

definition commit_block :: "'n demo_env \<Rightarrow> ('n, unit) flow" where
  "commit_block D = flow_put (\<lambda>s. s\<lparr>ds_world := (ds_world s)\<lparr>dw_node := de_commit D (dw_node (ds_world s))\<rparr>\<rparr>)"

definition on_chain :: "(chain_world \<Rightarrow> 'a \<times> chain_world) \<Rightarrow> ('n, 'a) flow" where
  "on_chain f s = (let (r, c) = f (dw_chain (ds_world s)) in (Inr r, s\<lparr>ds_world := (ds_world s)\<lparr>dw_chain := c\<rparr>\<rparr>))"

text \<open>\<open>mine\<close>: a sent transaction, a block, and the wait, whose receipt is not looked at.\<close>

definition mined :: "'n demo_env \<Rightarrow> string \<Rightarrow> tx_report \<Rightarrow> ('n, unit) flow" where
  "mined D waiting rep =
     (case rep of
        SendError e \<Rightarrow> flow_fail e
      | WaitError e \<Rightarrow> flow_seq (commit_block D) (flow_fail (waiting @ e))
      | Receipt _ \<Rightarrow> commit_block D)"

definition mine :: "'n demo_env \<Rightarrow> (chain_world \<Rightarrow> tx_report \<times> chain_world) \<Rightarrow> ('n, unit) flow" where
  "mine D tx = flow_bind (on_chain tx) (mined D '''')"

text \<open>A contract's \<open>Deploy\<close>, the block, and the wait.\<close>

definition package_error :: "string \<Rightarrow> tx_report \<Rightarrow> tx_report" where
  "package_error package rep = (case rep of SendError e \<Rightarrow> SendError (package @ '': deploy: '' @ e) | _ \<Rightarrow> rep)"

definition demo_deploy :: "'n demo_env \<Rightarrow> string \<Rightarrow> string \<Rightarrow> contract_init \<Rightarrow> ('n, address) flow" where
  "demo_deploy D package waiting init =
     flow_bind (on_chain (bound_deploy (de_bind D) (de_created D) (key_address (de_geth D) (de_issuer D)) init)) (\<lambda>(rep, a).
     flow_seq (mined D waiting (package_error package rep)) (flow_return a))"

definition ether :: int where
  "ether = 1000000000000000000"

definition fund_eth :: "'n demo_env \<Rightarrow> address \<Rightarrow> ('n, unit) flow" where
  "fund_eth D to =
     flow_bind (flow_get ds_world) (\<lambda>w.
     flow_bind (flow_of (de_nonce D (key_address (de_geth D) (de_issuer D)) w)) (\<lambda>nonce.
     flow_bind (flow_of (de_gas_price D w)) (\<lambda>gas_price.
     flow_bind (\<lambda>s. let (rep, w1) = de_send_eth D nonce to (ether div 100) gas_price (ds_world s) in (Inr rep, s\<lparr>ds_world := w1\<rparr>))
       (mined D ''''))))"

section \<open>The gateways\<close>

text \<open>
  What a local facilitator calls, on the bound token and DvP contracts: a submission leaves
  its report behind, under the transaction's hash, and the wait finds it.
\<close>

definition submitted :: "'n demo_env \<Rightarrow> (chain_world \<Rightarrow> tx_report \<times> chain_world) \<Rightarrow> 'n demo_world \<Rightarrow> bytes32 result \<times> 'n demo_world" where
  "submitted D f w =
     (case f (dw_chain w) of
        (SendError e, c) \<Rightarrow> (Inl e, w\<lparr>dw_chain := c\<rparr>)
      | (rep, c) \<Rightarrow> (let h = ce_hash (be_chain (de_bind D)) (dw_chain w) in
          (Inr h, w\<lparr>dw_chain := c, dw_reports := (h, rep) # dw_reports w\<rparr>)))"

definition demo_calls :: "'n demo_env \<Rightarrow> address \<Rightarrow> address \<Rightarrow> address \<Rightarrow> 'n demo_world chain_calls" where
  "demo_calls D opts tok dvp = (let B = de_bind D in \<lparr>
     cc_domain = (\<lambda>w. token_DomainSeparator B tok (dw_chain w)),
     cc_authorization_state = (\<lambda>w a n. token_AuthorizationState B tok a n (dw_chain w)),
     cc_balance_of = (\<lambda>w a. token_BalanceOf B tok a (dw_chain w)),
     cc_frozen = (\<lambda>w a. token_Frozen B tok a (dw_chain w)),
     cc_transfer_with_authorization = (\<lambda>a (v, r, s). submitted D (token_TransferWithAuthorization B tok opts a v r s)),
     cc_settle_and_deliver = (\<lambda>seller n a (v, r, s). submitted D (dvp_SettleAndDeliver B dvp opts seller n a v r s)),
     cc_commit = (\<lambda>w. w\<lparr>dw_node := de_commit D (dw_node w)\<rparr>),
     cc_wait_mined = (\<lambda>h _ w. (case map_of (dw_reports w) h of
         Some (Receipt ok) \<Rightarrow> Inr ok | Some (WaitError e) \<Rightarrow> Inl e | _ \<Rightarrow> Inl ''not found'', w))\<rparr>)"

definition local_calls ::
    "'n demo_env \<Rightarrow> 'n demo_world chain_calls \<Rightarrow> ('n demo_world \<Rightarrow> local_facilitator) \<Rightarrow>
     (local_facilitator \<Rightarrow> 'n demo_world \<Rightarrow> 'n demo_world) \<Rightarrow> 'n demo_world gateway_env \<Rightarrow> 'n demo_world gateway_env" where
  "local_calls D api fac put E = E\<lparr>
     ge_verify := (\<lambda>p reqs w.
       let (out, f) = facilitator_verify (de_geth D) api (de_now D w) w p reqs (fac w) in (map_sum id Some out, put f w)),
     ge_settle := (\<lambda>p reqs w.
       let (out, w1) = facilitator_settle (de_geth D) api (fac w) p reqs w in (map_sum id Some out, w1))\<rparr>"

definition demo_network :: "'n demo_env \<Rightarrow> string" where
  "demo_network D = ''eip155:'' @ big_show (de_chain_id D)"

text \<open>The fields both gateways leave out, and the backend they share.\<close>

definition plain_gateway :: "'n demo_env \<Rightarrow> address \<Rightarrow> address \<Rightarrow> 'n demo_world gateway_env" where
  "plain_gateway D tok pay_to = \<lparr>
     ge_geth = de_geth D, ge_token_address = tok, ge_pay_to = pay_to, ge_price = 500, ge_network = demo_network D,
     ge_timeout = 0, ge_dvp_address = 0, ge_require_bound_nonce = True, ge_receipt_key = None, ge_confirm_depth = 0,
     ge_sessions_enabled = False, ge_policy = (\<lambda>_. None), ge_scorer = None,
     ge_verify = (\<lambda>_ _ w. (Inl '''', w)), ge_settle = (\<lambda>_ _ w. (Inl '''', w)), ge_deliverer = None, ge_refunder = None,
     ge_head = de_head D, ge_tx_block = de_tx_block D, ge_now = de_now D, ge_random = de_random D, ge_disk = de_disk D\<rparr>"

definition gateway_address :: "'n demo_env \<Rightarrow> address" where
  "gateway_address D = key_address (de_geth D) (de_gateway D)"

definition seller_address :: "'n demo_env \<Rightarrow> address" where
  "seller_address D = key_address (de_geth D) (de_seller D)"

definition delegator_address :: "'n demo_env \<Rightarrow> address" where
  "delegator_address D = key_address (de_geth D) (de_delegator D)"

definition issuer_address :: "'n demo_env \<Rightarrow> address" where
  "issuer_address D = key_address (de_geth D) (de_issuer D)"

definition identity_at :: "'n demo_env \<Rightarrow> address \<Rightarrow> 'n demo_world \<Rightarrow> policy" where
  "identity_at D reg w = IdentityPolicy (registry_IsRegistered (de_bind D) reg (dw_chain w))"

definition demo_first :: "'n demo_env \<Rightarrow> address \<Rightarrow> address \<Rightarrow> 'n demo_world gateway_env" where
  "demo_first D tok reg =
     local_calls D (demo_calls D (gateway_address D) tok 0) dw_first (\<lambda>f w. w\<lparr>dw_first := f\<rparr>)
       ((plain_gateway D tok (gateway_address D))\<lparr>ge_policy := (\<lambda>w. Some (Chain [AlwaysVerify, identity_at D reg w]))\<rparr>)"

definition demo_second :: "'n demo_env \<Rightarrow> address \<Rightarrow> address \<Rightarrow> address \<Rightarrow> address \<Rightarrow> mandate_policy \<Rightarrow> 'n demo_world gateway_env" where
  "demo_second D tok reg elig dvp mp =
     local_calls D (demo_calls D (seller_address D) tok dvp) dw_second (\<lambda>f w. w\<lparr>dw_second := f\<rparr>)
       ((plain_gateway D tok (seller_address D))\<lparr>ge_dvp_address := dvp, ge_receipt_key := Some (de_gateway D),
          ge_policy := (\<lambda>w. Some (Chain [AlwaysVerify, identity_at D reg w,
            EligibilityPolicy (eligibility_IsEligible (de_bind D) elig (dw_chain w)), MandatePolicy mp]))\<rparr>)"

definition first_facilitator :: local_facilitator where
  "first_facilitator = \<lparr>lf_timeout = 0, lf_dvp = False, lf_asset_amount = 0, lf_domain = None\<rparr>"

definition second_facilitator :: local_facilitator where
  "second_facilitator = \<lparr>lf_timeout = 0, lf_dvp = True, lf_asset_amount = 1, lf_domain = None\<rparr>"

text \<open>A new gateway has no records.\<close>

definition fresh_gateway :: "'w \<Rightarrow> 'w gateway" where
  "fresh_gateway w = \<lparr>gw_world = w, gw_store = (\<lambda>_. new_mp_state), gw_journal = None, gw_settlements = [],
     gw_inflight = Map.empty, gw_sessions = Map.empty, gw_metrics = None\<rparr>"

text \<open>The two protected handlers; a refusal prints its own body.\<close>

definition report_body :: "'n demo_env \<Rightarrow> reply \<Rightarrow> string" where
  "report_body D rep = (case rep of
     Served _ _ \<Rightarrow> ''{'' @ quoted ''report'' @ '':'' @ quoted ''market report body'' @ '','' @ quoted ''paid'' @ '':true}''
   | _ \<Rightarrow> de_json D rep)"

definition asset_body :: "'n demo_env \<Rightarrow> reply \<Rightarrow> string" where
  "asset_body D rep = (case rep of
     Served _ _ \<Rightarrow> ''{'' @ quoted ''asset'' @ '':'' @ quoted ''tRWA'' @ '','' @ quoted ''delivered'' @ '':true}''
   | _ \<Rightarrow> de_json D rep)"

text \<open>A call of the agent at one of the two servers.\<close>

type_synonym ('n, 'a) client_call =
  "'n demo_world gateway agent_env \<Rightarrow> agent \<Rightarrow> 'n demo_world gateway \<Rightarrow> 'a result \<times> agent \<times> 'n demo_world gateway"

definition at_first :: "'n demo_env \<Rightarrow> ('n, 'a) client_call \<Rightarrow> ('n, 'a) flow" where
  "at_first D f s =
     (let (r, ag, g) = f (gateway_client (ds_first_env s) (de_route D) 200 (report_body D)) (ds_agent s)
            ((ds_first s)\<lparr>gw_world := ds_world s\<rparr>) in
      (r, s\<lparr>ds_agent := ag, ds_first := g, ds_world := gw_world g\<rparr>))"

definition at_second :: "'n demo_env \<Rightarrow> ('n, 'a) client_call \<Rightarrow> ('n, 'a) flow" where
  "at_second D f s =
     (let (r, ag, g) = f (gateway_client (ds_second_env s) (de_route D) 200 (asset_body D)) (ds_agent s)
            ((ds_second s)\<lparr>gw_world := ds_world s\<rparr>) in
      (r, s\<lparr>ds_agent := ag, ds_second := g, ds_world := gw_world g\<rparr>))"

definition report_url :: "'n demo_env \<Rightarrow> string" where
  "report_url D = de_first_url D @ ''/premium/report''"

definition asset_url :: "'n demo_env \<Rightarrow> string" where
  "asset_url D = de_second_url D @ ''/premium/asset''"

definition get_report :: "'n demo_env \<Rightarrow> ('n, agent_result) flow" where
  "get_report D = at_first D (\<lambda>A. agent_get A (report_url D))"

definition get_asset :: "'n demo_env \<Rightarrow> ('n, agent_result) flow" where
  "get_asset D = at_second D (\<lambda>A. agent_get A (asset_url D))"

definition retry_report :: "'n demo_env \<Rightarrow> ('n, agent_result) flow" where
  "retry_report D = at_first D (\<lambda>A ag g. let (r, g1) = agent_retry A (report_url D) ag g in (r, ag, g1))"

text \<open>A plain request with the agent's last header, which is empty before its first payment.\<close>

definition resend_report :: "'n demo_env \<Rightarrow> ('n, http_response) flow" where
  "resend_report D = at_first D (\<lambda>A ag g.
     let (r, g1) = an_http A (case ag_last_header ag of
           None \<Rightarrow> plain_get (report_url D) | Some p \<Rightarrow> paid_get (report_url D) p) g in (r, ag, g1))"

section \<open>Steps 1 to 8: issuance, identity, a payment and its replay\<close>

text \<open>\<open>%s\<close> of a big integer read from the chain, nil when the read failed.\<close>

definition read_text :: "int result \<Rightarrow> string" where
  "read_text r = amount_text (case r of Inl _ \<Rightarrow> None | Inr n \<Rightarrow> Some n)"

definition http_text :: "agent_result \<Rightarrow> string" where
  "http_text r = ''   HTTP '' @ big_show (rs_status r)"

definition code_text :: "agent_result \<Rightarrow> string" where
  "code_text r = http_text r @ '', errorCode '' @ quoted (errcode_string (rs_error_code r))"

definition expect_code :: "errcode \<Rightarrow> string \<Rightarrow> agent_result \<Rightarrow> ('n, unit) flow" where
  "expect_code c what r = flow_check (rs_error_code r = c) (what @ '', got '' @ quoted (errcode_string (rs_error_code r)))"

definition expect_paid :: "string \<Rightarrow> agent_result \<Rightarrow> ('n, unit) flow" where
  "expect_paid what r = flow_check (rs_status r = 200)
     (what @ '', got '' @ big_show (rs_status r) @ '' '' @ quoted (errcode_string (rs_error_code r)))"

text \<open>The three handles Run works with from here on: the token, the registry, the agent's wallet.\<close>

record demo_handles =
  dh_token :: address
  dh_registry :: address
  dh_wallet :: wallet

definition demo_issue :: "'n demo_env \<Rightarrow> wallet \<Rightarrow> ('n, demo_handles) flow" where
  "demo_issue D wal = (let G = de_geth D; a = w_address wal in
     flow_seq (emit_step D 1 ''Issuance: deploy tKRW and mint'' '''') (
     flow_bind (demo_deploy D ''token'' ''deploy wait: '' (InitToken (de_domain D))) (\<lambda>tok.
     flow_seq (emit_log (''   contract: '' @ address_hex G tok @ '' (issuer: '' @ address_hex G (issuer_address D) @ '')'' @ nl)) (
     flow_seq (mine D (token_Mint (de_bind D) tok (issuer_address D) a 100000)) (
     flow_seq (emit_log (''   minted '' @ big_show 100000 @ '' tKRW to agent wallet '' @ address_hex G a @ '' (agent ETH balance: 0)'' @ nl @ nl)) (
     flow_bind (demo_deploy D ''registry'' ''registry deploy wait: '' InitIdentity) (\<lambda>reg.
     flow_seq (emit_log (''   identity registry: '' @ address_hex G reg @ nl @ nl)) (
     flow_return \<lparr>dh_token = tok, dh_registry = reg, dh_wallet = wal\<rparr>))))))))"

definition demo_gateway :: "'n demo_env \<Rightarrow> demo_handles \<Rightarrow> ('n, unit) flow" where
  "demo_gateway D H =
     flow_seq (emit_step D 2 ''Gateway: protect a paid resource, require a registered agent'' '''') (
     flow_seq (flow_put (\<lambda>s. s\<lparr>ds_world := (ds_world s)\<lparr>dw_first := first_facilitator\<rparr>,
       ds_first_env := demo_first D (dh_token H) (dh_registry H), ds_first := fresh_gateway (ds_world s)\<rparr>))
     (emit_log (''   price '' @ big_show 500 @ '' tKRW, payTo '' @ address_hex (de_geth D) (gateway_address D) @ nl @ nl)))"

definition demo_agent :: "wallet \<Rightarrow> bytes32 \<Rightarrow> agent" where
  "demo_agent wal domain = \<lparr>ag_wallet = wal, ag_domain = domain, ag_max_amount = Some 1000, ag_grant = None, ag_mandate = None,
     ag_confirmation = None, ag_last_header = None, ag_last_amount = None, ag_last_resource = ''''\<rparr>"

definition demo_unregistered :: "'n demo_env \<Rightarrow> demo_handles \<Rightarrow> ('n, unit) flow" where
  "demo_unregistered D H =
     flow_seq (emit_step D 3 ''Identity: an unregistered agent is refused'' '''') (
     flow_bind (flow_get (\<lambda>s. token_DomainSeparator (de_bind D) (dh_token H) (dw_chain (ds_world s)))) (\<lambda>r.
     flow_bind (flow_of r) (\<lambda>domain.
     flow_seq (flow_put (\<lambda>s. s\<lparr>ds_agent := demo_agent (dh_wallet H) domain\<rparr>)) (
     flow_bind (get_report D) (\<lambda>refused.
     flow_seq (emit_err (code_text refused @ '' (agent not yet registered)'' @ nl @ nl) (errcode_string (rs_error_code refused)))
       (flow_check (rs_status refused = 402 \<and> rs_error_code refused = ErrCodeIdentityUnregistered)
         (''expected an identity_unregistered rejection, got '' @ big_show (rs_status refused) @ '' '' @
          quoted (errcode_string (rs_error_code refused)))))))))"

definition demo_register :: "'n demo_env \<Rightarrow> demo_handles \<Rightarrow> ('n, unit) flow" where
  "demo_register D H = (let G = de_geth D; a = w_address (dh_wallet H) in
     flow_seq (emit_step D 4 ''Register the agent'' '''') (
     flow_seq (fund_eth D a) (
     flow_bind (flow_get (\<lambda>s. ce_hash (be_chain (de_bind D)) (dw_chain (ds_world s)))) (\<lambda>h.
     flow_seq (mine D (registry_Register (de_bind D) (dh_registry H) a ''https://cards.example/demo-agent''))
       (emit_log (''   registered agent '' @ address_hex G a @ '' (tx '' @ hash_hex G h @ '')'' @ nl @ nl))))))"

definition demo_pay :: "'n demo_env \<Rightarrow> ('n, unit) flow" where
  "demo_pay D =
     flow_seq (emit_step D 5 ''Agent: read the 402 response and pay by signature'' '''') (
     flow_bind (get_report D) (\<lambda>r.
     flow_seq (emit_log (http_text r @ '', paid '' @ amount_text (rs_amount r) @ '' tKRW'' @ nl)) (
     flow_seq (emit_log (''   response body: '' @ rs_body r @ nl))
       (case rs_settlement r of
          None \<Rightarrow> flow_return ()
        | Some st \<Rightarrow> emit_tx (''   settlement tx: '' @ sresp_transaction st @ nl @ nl) (sresp_transaction st)))))"

definition token_balance :: "'n demo_env \<Rightarrow> demo_handles \<Rightarrow> address \<Rightarrow> 'n demo_state \<Rightarrow> string" where
  "token_balance D H a s = read_text (token_BalanceOf (de_bind D) (dh_token H) a (dw_chain (ds_world s)))"

definition demo_balances :: "'n demo_env \<Rightarrow> demo_handles \<Rightarrow> ('n, unit) flow" where
  "demo_balances D H =
     flow_seq (emit_step D 6 ''Settlement check: balances'' '''') (
     flow_bind (flow_get (token_balance D H (w_address (dh_wallet H)))) (\<lambda>agent_bal.
     flow_bind (flow_get (token_balance D H (gateway_address D))) (\<lambda>pay_to_bal.
     emit_balance (''   agent balance: '' @ agent_bal @ '' tKRW / payTo balance: '' @ pay_to_bal @ '' tKRW'' @ nl @ nl)
       [(''agent tKRW'', agent_bal), (''payTo tKRW'', pay_to_bal)])))"

definition demo_token_reader :: "'n demo_env \<Rightarrow> demo_handles \<Rightarrow> chain_world \<Rightarrow> token_reader" where
  "demo_token_reader D H c = \<lparr>tr_total_supply = token_TotalSupply (de_bind D) (dh_token H) c,
     tr_balance_of = (\<lambda>a. token_BalanceOf (de_bind D) (dh_token H) a c)\<rparr>"

text \<open>\<open>%v\<close> of the mismatches, separated by blanks.\<close>

fun spaced :: "string list \<Rightarrow> string" where
  "spaced [] = ''''"
| "spaced [x] = x"
| "spaced (x # xs) = x @ '' '' @ spaced xs"

definition demo_reconcile :: "'n demo_env \<Rightarrow> demo_handles \<Rightarrow> ('n, unit) flow" where
  "demo_reconcile D H =
     flow_seq (emit_step D 7 ''Ledger reconciliation: off-chain ledger vs on-chain state'' '''') (
     flow_bind (flow_get (\<lambda>s. fst (reconcile (de_geth D) (de_logs D (ds_world s))
       (demo_token_reader D H (dw_chain (ds_world s))) ledger_new))) (\<lambda>out.
     flow_bind (flow_of out) (\<lambda>rep.
     flow_seq (emit_log (''   '' @ big_show (rp_events rep) @ '' events, '' @ big_show (int (rp_accounts rep)) @ '' accounts'' @ nl)) (
     flow_seq (emit_log (''   minted '' @ big_show (rp_minted rep) @ '' - burned '' @ big_show (rp_burned rep) @
       '' = ledger supply '' @ big_show (rp_ledger_supply rep) @ nl)) (
     flow_seq (emit_log (''   on-chain totalSupply '' @ big_show (rp_on_chain_supply rep) @ '', sum of balances '' @
       big_show (rp_sum_balances rep) @ nl)) (
     flow_seq (flow_check (report_ok rep) (''reconciliation mismatches: ['' @ spaced (rp_mismatches rep) @ '']''))
       (emit_log (''   reconciliation passed: the ledger matches the chain'' @ nl))))))))"

definition demo_replay :: "'n demo_env \<Rightarrow> ('n, unit) flow" where
  "demo_replay D =
     flow_seq (emit_step D 8 ''Replay check: resend the same signature'' nl) (
     flow_bind (resend_report D) (\<lambda>resp.
     flow_seq (emit_log (''   reused X-PAYMENT header: HTTP '' @ big_show (hr_status resp) @ '' (402 expected: nonce already used)'' @ nl))
       (flow_check (hr_status resp = 402) (''replay must be rejected, got '' @ big_show (hr_status resp)))))"

section \<open>Steps 9 to 13: the life of a mandate\<close>

text \<open>The mandate Run signs each time, as far as it varies.\<close>

definition demo_mandate :: "'n demo_env \<Rightarrow> demo_handles \<Rightarrow> address \<Rightarrow> int \<Rightarrow> int option \<Rightarrow> byte \<Rightarrow> int \<Rightarrow> mandate" where
  "demo_mandate D H payee most budget i t = \<lparr>m_delegator = delegator_address D, m_agent = w_address (dh_wallet H),
     m_max_amount_per_payment = Some most, m_allowed_payees = [payee], m_allowed_resources = [],
     m_valid_after = Some 0, m_valid_before = Some (unix_of t + 3600), m_budget_amount = budget,
     m_budget_window_seconds = None, m_max_payments_per_window = None, m_rate_window_seconds = None,
     m_mandate_id = copy32 [i]\<rparr>"

definition signed_mandate :: "'n demo_env \<Rightarrow> mandate \<Rightarrow> signed_mandate_json result" where
  "signed_mandate D m = and_then (sign_mandate (de_geth D) (de_delegator D) m (Some (de_chain_id D))) (\<lambda>sig.
     Inr \<lparr>smj_mandate = mandate_to_json (de_geth D) m, smj_signature = ''0x'' @ hex_encode sig\<rparr>)"

definition signed_confirmation :: "'n demo_env \<Rightarrow> confirmation \<Rightarrow> confirmation_json result" where
  "signed_confirmation D c = and_then (sign_confirmation (de_geth D) (de_delegator D) c (Some (de_chain_id D))) (\<lambda>sig.
     Inr ((confirmation_to_json (de_geth D) c)\<lparr>cj_signature := ''0x'' @ hex_encode sig\<rparr>))"

definition granted :: "'n demo_env \<Rightarrow> demo_handles \<Rightarrow> address \<Rightarrow> int \<Rightarrow> int option \<Rightarrow> byte \<Rightarrow> ('n, signed_mandate_json) flow" where
  "granted D H payee most budget i =
     flow_bind (flow_get (\<lambda>s. de_now D (ds_world s))) (\<lambda>t. flow_of (signed_mandate D (demo_mandate D H payee most budget i t)))"

definition carry :: "signed_mandate_json option \<Rightarrow> confirmation_json option \<Rightarrow> ('n, unit) flow" where
  "carry sm c = flow_put (\<lambda>s. s\<lparr>ds_agent := (ds_agent s)\<lparr>ag_mandate := sm, ag_confirmation := c\<rparr>\<rparr>)"

text \<open>The new policy's state is behind reference 0 of the first gateway.\<close>

definition require_mandates :: "'n demo_env \<Rightarrow> demo_handles \<Rightarrow> 'n demo_state \<Rightarrow> 'n demo_state" where
  "require_mandates D H s =
     (let (mp0, st) = new_mandate_policy (Some (de_chain_id D)) 0 (gw_store (ds_first s));
          mp = mp0\<lparr>mp_ask_on_exceed := True, mp_defer_above := Some 1000\<rparr> in
      s\<lparr>ds_first := (ds_first s)\<lparr>gw_store := st\<rparr>,
        ds_first_env := (ds_first_env s)\<lparr>ge_policy := (\<lambda>w. Some (Chain [AlwaysVerify,
          identity_at D (dh_registry H) w, MandatePolicy mp]))\<rparr>\<rparr>)"

definition demo_delegate :: "'n demo_env \<Rightarrow> demo_handles \<Rightarrow> ('n, signed_mandate_json) flow" where
  "demo_delegate D H =
     flow_seq (emit_step D 9 ''Delegation: the gateway now also requires a signed mandate'' nl) (
     flow_seq (flow_put (require_mandates D H)) (
     flow_bind (granted D H (gateway_address D) 500 (Some 100000) 1) (\<lambda>good.
     flow_seq (emit_mandate (''   delegator '' @ address_hex (de_geth D) (delegator_address D) @ '' signed mandate '' @
       mj_mandate_id (smj_mandate good) @ '' for the agent'' @ nl @ nl) (mj_mandate_id (smj_mandate good)))
       (flow_return good))))"

text \<open>The agent holds no confirmation yet.\<close>

definition demo_within :: "'n demo_env \<Rightarrow> signed_mandate_json \<Rightarrow> ('n, unit) flow" where
  "demo_within D good =
     flow_seq (emit_step D 10 ''Agent pays under the mandate'' '''') (
     flow_seq (flow_put (\<lambda>s. s\<lparr>ds_agent := (ds_agent s)\<lparr>ag_mandate := Some good\<rparr>\<rparr>)) (
     flow_bind (get_report D) (\<lambda>r.
     flow_seq (emit_log (http_text r @ '', paid '' @ amount_text (rs_amount r) @ '' tKRW under the mandate'' @ nl @ nl))
       (expect_paid ''payment under the mandate should settle'' r))))"

definition confirmation_for :: "'n demo_env \<Rightarrow> bytes32 \<Rightarrow> ask_request \<Rightarrow> int \<Rightarrow> confirmation" where
  "confirmation_for D i ask t = \<lparr>c_mandate_id = i,
     c_authorization_nonce = copy32 (from_hex (de_geth D) (ask_authorization_nonce ask)),
     c_amount = set_string10 (ask_amount ask), c_resource = ask_resource ask, c_valid_before = Some (unix_of t + 600)\<rparr>"

definition demo_confirm :: "'n demo_env \<Rightarrow> ask_request \<Rightarrow> ('n, unit) flow" where
  "demo_confirm D ask =
     flow_bind (flow_get (\<lambda>s. de_now D (ds_world s))) (\<lambda>t.
     flow_bind (flow_of (signed_confirmation D (confirmation_for D (copy32 [2]) ask t))) (\<lambda>conf.
     flow_seq (flow_put (\<lambda>s. s\<lparr>ds_agent := (ds_agent s)\<lparr>ag_confirmation := Some conf\<rparr>\<rparr>)) (
     flow_bind (get_report D) (\<lambda>r.
     flow_seq (emit_log (''   after the delegator confirmed: HTTP '' @ big_show (rs_status r) @ '', paid '' @
       amount_text (rs_amount r) @ '' tKRW'' @ nl @ nl))
       (expect_paid ''confirmed payment should settle'' r)))))"

definition demo_beyond :: "'n demo_env \<Rightarrow> demo_handles \<Rightarrow> ('n, unit) flow" where
  "demo_beyond D H =
     flow_seq (emit_step D 11 ''A payment beyond the mandate asks the delegator'' '''') (
     flow_bind (granted D H (gateway_address D) 100 None 2) (\<lambda>tight.
     flow_seq (carry (Some tight) None) (
     flow_bind (get_report D) (\<lambda>asked.
     flow_seq (emit_err (code_text asked @ '' (500 tKRW over the 100 per-payment limit)'' @ nl) (errcode_string (rs_error_code asked)))
       (case (if rs_error_code asked = ErrCodeConfirmationRequired then rs_ask asked else None) of
          None \<Rightarrow> flow_fail (''over-limit payment should be confirmation_required, got '' @ quoted (errcode_string (rs_error_code asked)))
        | Some ask \<Rightarrow> demo_confirm D ask)))))"

definition revoke_first :: "signed_mandate_json \<Rightarrow> byte list \<Rightarrow> ('n, unit) flow" where
  "revoke_first good sig s =
     (let (err, g) = revoke_mandate (ds_first_env s) \<lparr>rj_mandate_id = mj_mandate_id (smj_mandate good),
            rj_signature = ''0x'' @ hex_encode sig\<rparr> ((ds_first s)\<lparr>gw_world := ds_world s\<rparr>) in
      (case err of None \<Rightarrow> Inr () | Some e \<Rightarrow> Inl e, s\<lparr>ds_first := g, ds_world := gw_world g\<rparr>))"

definition demo_revoke :: "'n demo_env \<Rightarrow> signed_mandate_json \<Rightarrow> ('n, unit) flow" where
  "demo_revoke D good =
     flow_seq (emit_step D 12 ''Revocation: the delegator withdraws the mandate'' '''') (
     flow_bind (flow_of (sign_revocation (de_geth D) (de_delegator D) (copy32 [1]) (Some (de_chain_id D)))) (\<lambda>sig.
     flow_seq (revoke_first good sig) (
     flow_seq (carry (Some good) None) (
     flow_bind (get_report D) (\<lambda>r.
     flow_seq (emit_err (code_text r @ '' (the mandate no longer authorizes payment)'' @ nl @ nl) (errcode_string (rs_error_code r)))
       (expect_code ErrCodeMandateRevoked ''payment under a revoked mandate should be mandate_revoked'' r))))))"

definition raise_price :: "'n demo_state \<Rightarrow> 'n demo_state" where
  "raise_price s = s\<lparr>ds_first_env := (ds_first_env s)\<lparr>ge_confirm_depth := 2, ge_price := 2000\<rparr>,
     ds_agent := (ds_agent s)\<lparr>ag_max_amount := Some 5000\<rparr>\<rparr>"

definition demo_large :: "'n demo_env \<Rightarrow> demo_handles \<Rightarrow> ('n, unit) flow" where
  "demo_large D H =
     flow_seq (emit_step D 13 ''A large payment is delivered only after confirmations'' '''') (
     flow_seq (flow_put raise_price) (
     flow_bind (granted D H (gateway_address D) 2000 (Some 100000) 3) (\<lambda>big.
     flow_seq (carry (Some big) None) (
     flow_bind (get_report D) (\<lambda>r.
     flow_bind (flow_get (\<lambda>s. show_nat (ge_confirm_depth (ds_first_env s)))) (\<lambda>depth.
     flow_seq (emit_err (code_text r @ '' (settled, delivery held for '' @ depth @ '' confirmations)'' @ nl)
       (errcode_string (rs_error_code r))) (
     flow_seq (expect_code ErrCodePaymentDeferred ''large payment should be payment_deferred'' r) (
     flow_seq (commit_block D) (
     flow_seq (commit_block D) (
     flow_bind (retry_report D) (\<lambda>delivered.
     flow_seq (emit_log (''   after '' @ depth @ '' blocks, the same payment delivers: HTTP '' @ big_show (rs_status delivered) @ nl @ nl))
       (expect_paid ''deferred payment should deliver once confirmed'' delivered))))))))))))"

section \<open>Steps 14 to 16: delivery against payment\<close>

record dvp_handles =
  dp_elig :: address
  dp_assets :: address
  dp_settler :: address

definition demo_deploy_dvp :: "'n demo_env \<Rightarrow> demo_handles \<Rightarrow> ('n, dvp_handles) flow" where
  "demo_deploy_dvp D H = (let G = de_geth D in
     flow_seq (emit_step D 14 ''Provision: eligibility registry, RWA asset, and the DvP contract'' '''') (
     flow_seq (fund_eth D (seller_address D)) (
     flow_seq (fund_eth D (delegator_address D)) (
     flow_bind (demo_deploy D ''eligibility'' '''' InitEligibility) (\<lambda>elig.
     flow_bind (demo_deploy D ''asset'' '''' (InitAsset elig)) (\<lambda>ast.
     flow_bind (demo_deploy D ''dvp'' '''' (InitDvP (dh_token H) ast)) (\<lambda>dvp.
     flow_seq (emit_log (''   eligibility '' @ address_hex G elig @ '', asset '' @ address_hex G ast @ '', dvp '' @ address_hex G dvp @ nl))
       (flow_return \<lparr>dp_elig = elig, dp_assets = ast, dp_settler = dvp\<rparr>))))))))"

definition demo_provision :: "'n demo_env \<Rightarrow> demo_handles \<Rightarrow> dvp_handles \<Rightarrow> ('n, unit) flow" where
  "demo_provision D H V = (let B = de_bind D; G = de_geth D in
     flow_seq (mine D (eligibility_SetEligible B (dp_elig V) (issuer_address D) (delegator_address D) True)) (
     flow_seq (mine D (eligibility_Delegate B (dp_elig V) (delegator_address D) (w_address (dh_wallet H)))) (
     flow_seq (mine D (eligibility_SetEligible B (dp_elig V) (issuer_address D) (seller_address D) True)) (
     flow_seq (mine D (asset_Mint B (dp_assets V) (issuer_address D) (seller_address D) 10)) (
     flow_seq (mine D (asset_Approve B (dp_assets V) (seller_address D) (dp_settler V) 100))
       (emit_log (''   delegator '' @ address_hex G (delegator_address D) @ '' is eligible and sponsors the agent; seller '' @
         address_hex G (seller_address D) @ '' holds 10 tRWA'' @ nl @ nl)))))))"

text \<open>The journal of the second gateway, on the temporary file.\<close>

definition open_temp :: "'n demo_env \<Rightarrow> journal result" where
  "open_temp D = and_then (de_file D) journal_open"

definition second_gateway :: "'n demo_env \<Rightarrow> demo_handles \<Rightarrow> dvp_handles \<Rightarrow> journal \<Rightarrow> 'n demo_state \<Rightarrow> 'n demo_state" where
  "second_gateway D H V j s =
     (let (mp, st) = new_mandate_policy (Some (de_chain_id D)) 0 (\<lambda>_. new_mp_state);
          E = demo_second D (dh_token H) (dh_registry H) (dp_elig V) (dp_settler V) mp;
          w = (ds_world s)\<lparr>dw_second := second_facilitator\<rparr> in
      s\<lparr>ds_world := w, ds_second_env := E, ds_second := attach_journal E j ((fresh_gateway w)\<lparr>gw_store := st\<rparr>)\<rparr>)"

definition demo_dvp_gateway :: "'n demo_env \<Rightarrow> demo_handles \<Rightarrow> dvp_handles \<Rightarrow> ('n, signed_mandate_json) flow" where
  "demo_dvp_gateway D H V =
     flow_bind (flow_of (open_temp D)) (\<lambda>j.
     flow_seq (flow_put (second_gateway D H V j))
       (granted D H (seller_address D) 500 (Some 100000) 4))"

definition lower_limit :: "signed_mandate_json \<Rightarrow> 'n demo_state \<Rightarrow> 'n demo_state" where
  "lower_limit sm s = s\<lparr>ds_agent := (ds_agent s)\<lparr>ag_mandate := Some sm, ag_confirmation := None, ag_max_amount := Some 500\<rparr>\<rparr>"

definition demo_ineligible :: "'n demo_env \<Rightarrow> dvp_handles \<Rightarrow> signed_mandate_json \<Rightarrow> ('n, unit) flow" where
  "demo_ineligible D V sm =
     flow_seq (emit_step D 15 ''Refuse: an ineligible payer is turned away before settlement'' '''') (
     flow_seq (mine D (eligibility_SetEligible (de_bind D) (dp_elig V) (issuer_address D) (delegator_address D) False)) (
     flow_seq (flow_put (lower_limit sm)) (
     flow_bind (get_asset D) (\<lambda>r.
     flow_seq (emit_err (code_text r @ '' (the agent's sponsored eligibility was withdrawn)'' @ nl) (errcode_string (rs_error_code r))) (
     flow_seq (expect_code ErrCodeNotEligible ''ineligible payer should be payer_not_eligible'' r) (
     flow_seq (mine D (eligibility_SetEligible (de_bind D) (dp_elig V) (issuer_address D) (delegator_address D) True))
       (emit_log (''   sponsorship restored: the agent is eligible again'' @ nl @ nl))))))))"

definition asset_balance :: "'n demo_env \<Rightarrow> dvp_handles \<Rightarrow> address \<Rightarrow> 'n demo_state \<Rightarrow> string" where
  "asset_balance D V a s = read_text (asset_BalanceOf (de_bind D) (dp_assets V) a (dw_chain (ds_world s)))"

definition settlement_text :: "agent_result \<Rightarrow> string" where
  "settlement_text r = (case rs_settlement r of None \<Rightarrow> '''' | Some st \<Rightarrow> sresp_transaction st)"

definition demo_buy :: "'n demo_env \<Rightarrow> demo_handles \<Rightarrow> dvp_handles \<Rightarrow> ('n, agent_result) flow" where
  "demo_buy D H V = (let a = w_address (dh_wallet H); sl = seller_address D in
     flow_seq (emit_step D 16 ''Deliver atomically: DvP settles payment and delivery in one transaction'' '''') (
     flow_bind (get_asset D) (\<lambda>bought.
     flow_seq (expect_paid ''DvP purchase should settle'' bought) (
     flow_seq (emit_tx (''   settlement tx: '' @ settlement_text bought @ '' (payment and delivery together)'' @ nl) (settlement_text bought)) (
     flow_bind (flow_get (token_balance D H a)) (\<lambda>agent_krw.
     flow_bind (flow_get (token_balance D H sl)) (\<lambda>seller_krw.
     flow_bind (flow_get (asset_balance D V a)) (\<lambda>agent_rwa.
     flow_bind (flow_get (asset_balance D V sl)) (\<lambda>seller_rwa.
     flow_seq (emit_balance (''   agent: '' @ agent_krw @ '' tKRW / '' @ agent_rwa @ '' tRWA, seller: '' @ seller_krw @ '' tKRW / '' @
         seller_rwa @ '' tRWA'' @ nl @ nl)
       [(''agent tKRW'', agent_krw), (''agent tRWA'', agent_rwa), (''seller tKRW'', seller_krw), (''seller tRWA'', seller_rwa)])
       (flow_return bought))))))))))"

section \<open>Steps 17 and 18: the receipt and its audit\<close>

definition demo_receipt :: "'n demo_env \<Rightarrow> agent_result \<Rightarrow> ('n, signed_receipt_json \<times> receipt) flow" where
  "demo_receipt D bought = (let G = de_geth D in
     flow_seq (emit_step D 17 ''Receipt: the gateway signs the settlement'' '''')
       (case (case rs_settlement bought of None \<Rightarrow> None | Some st \<Rightarrow> sresp_receipt st) of
          None \<Rightarrow> flow_fail ''DvP settlement should carry a signed receipt''
        | Some issued \<Rightarrow>
            flow_bind (flow_of (to_receipt G (srj_receipt issued))) (\<lambda>r.
            flow_seq (emit_log (''   settlement tx '' @ hash_hex G (rc_settlement_tx r) @ '', mandate '' @ mandate_id_hex r @ nl)) (
            flow_seq (emit_log (''   signed for delegator '' @ address_hex G (rc_delegator r) @ '', payer '' @ address_hex G (rc_payer r) @ nl @ nl))
              (flow_return (issued, r))))))"

fun log_shows :: "geth \<Rightarrow> address \<Rightarrow> int option \<Rightarrow> tx_log list \<Rightarrow> bool" where
  "log_shows G to amount [] = False"
| "log_shows G to amount (lg # lgs) =
     (if length (tl_topics lg) \<noteq> 3 \<or> tl_topics lg ! 0 \<noteq> transfer_topic G then log_shows G to amount lgs
      else if bytes_to_address G (bytes32_bytes (tl_topics lg ! 2)) \<noteq> to then log_shows G to amount lgs
      else case amount of
        None \<Rightarrow> True
      | Some x \<Rightarrow> if int (bytes_nat (tl_data lg)) = x then True else log_shows G to amount lgs)"

definition revoked_before :: "receipt \<Rightarrow> journal_entry list \<Rightarrow> bool" where
  "revoked_before r es \<longleftrightarrow> list_ex (\<lambda>e. je_kind e = ''revocation'' \<and> (case je_revocation e of None \<Rightarrow> False
     | Some rv \<Rightarrow> equal_fold (rr_mandate_id rv) (mandate_id_hex r) \<and> je_at e < rc_issued_at r)) es"

text \<open>The four offline checks, then the two on the chain.\<close>

definition audit_receipt_signature :: "'n demo_env \<Rightarrow> receipt \<Rightarrow> byte list \<Rightarrow> ('n, unit) flow" where
  "audit_receipt_signature D r sig =
     (let out = verify_receipt (de_geth D) r sig in
      emit_audit ''receipt signature'' (out = Inr (gateway_address D))
        (''signed by '' @ address_hex (de_geth D) (case out of Inl _ \<Rightarrow> 0 | Inr a \<Rightarrow> a)))"

definition audit_chain_of_trust :: "'n demo_env \<Rightarrow> receipt \<Rightarrow> mandate \<Rightarrow> byte list \<Rightarrow> ('n, unit) flow" where
  "audit_chain_of_trust D r m sig =
     (let out = verify_mandate (de_geth D) m sig (Some (de_chain_id D)) in
      emit_audit ''mandate delegation chain''
        (out = Inr (rc_delegator r) \<and> m_agent m = rc_payer r \<and> m_mandate_id m = rc_mandate_id r)
        (''delegator '' @ address_hex (de_geth D) (case out of Inl _ \<Rightarrow> 0 | Inr a \<Rightarrow> a) @
         '', agent '' @ address_hex (de_geth D) (m_agent m)))"

definition audit_offline :: "'n demo_env \<Rightarrow> signed_mandate_json \<Rightarrow> signed_receipt_json \<Rightarrow> receipt \<Rightarrow> ('n, unit) flow" where
  "audit_offline D sm issued r =
     flow_bind (flow_of (hex_bytes (srj_signature issued))) (\<lambda>receipt_sig.
     flow_seq (audit_receipt_signature D r receipt_sig) (
     flow_bind (flow_of (to_mandate (de_geth D) (smj_mandate sm))) (\<lambda>m.
     flow_bind (flow_of (hex_bytes (smj_signature sm))) (\<lambda>mandate_sig.
     flow_seq (audit_chain_of_trust D r m mandate_sig) (
     flow_bind (flow_get (\<lambda>s. revoked_before r (journal_entries (ds_second s)))) (\<lambda>revoked.
     flow_seq (emit_audit ''revocation status'' (\<not> revoked) ''no revocation before the receipt was issued'')
       (emit_audit ''payment within mandate scope''
         (within_scope m (rc_pay_to r) (rc_resource r) (case rc_amount r of None \<Rightarrow> 0 | Some x \<Rightarrow> x) = None)
         ''amount, payee, and resource are within scope'')))))))"

definition audit_chain :: "'n demo_env \<Rightarrow> receipt \<Rightarrow> ('n, unit) flow" where
  "audit_chain D r =
     flow_bind (flow_get (\<lambda>s. de_receipt D (rc_settlement_tx r) (ds_world s))) (\<lambda>out.
     flow_bind (flow_of out) (\<lambda>rc.
     flow_seq (emit_audit ''settlement on chain'' (tr_success rc \<and> log_shows (de_geth D) (rc_pay_to r) (rc_amount r) (tr_logs rc))
       (''settlement tx '' @ hash_hex (de_geth D) (rc_settlement_tx r) @ '' status '' @ (if tr_success rc then ''1'' else ''0'')))
       (emit_audit ''asset delivery on chain'' (log_shows (de_geth D) (rc_payer r) None (tr_logs rc))
         ''asset delivered within the settlement transaction'')))"

definition complete_text :: string where
  "complete_text = ''demo complete: identity, signed payment, settlement, reconciliation, replay rejection, the mandate lifecycle '' @
     ''(grant, pay, ask and confirm, revoke, deferred delivery), eligibility-gated DvP delivery, a signed receipt, and an offline audit'' @ nl"

definition demo_audit :: "'n demo_env \<Rightarrow> signed_mandate_json \<Rightarrow> signed_receipt_json \<Rightarrow> receipt \<Rightarrow> ('n, unit) flow" where
  "demo_audit D sm issued r =
     flow_seq (emit_step D 18 ''Audit: verify the receipt offline, then confirm settlement on chain'' '''') (
     flow_seq (audit_offline D sm issued r) (
     flow_seq (audit_chain D r)
       (emit_done complete_text)))"

section \<open>Run\<close>

definition demo_payments :: "'n demo_env \<Rightarrow> demo_handles \<Rightarrow> ('n, unit) flow" where
  "demo_payments D H =
     flow_seq (demo_gateway D H) (flow_seq (demo_unregistered D H) (flow_seq (demo_register D H) (flow_seq (demo_pay D) (
     flow_seq (demo_balances D H) (flow_seq (demo_reconcile D H) (demo_replay D))))))"

definition demo_mandates :: "'n demo_env \<Rightarrow> demo_handles \<Rightarrow> ('n, unit) flow" where
  "demo_mandates D H =
     flow_bind (demo_delegate D H) (\<lambda>good.
     flow_seq (demo_within D good) (flow_seq (demo_beyond D H) (flow_seq (demo_revoke D good) (demo_large D H))))"

definition demo_delivery :: "'n demo_env \<Rightarrow> demo_handles \<Rightarrow> ('n, unit) flow" where
  "demo_delivery D H =
     flow_bind (demo_deploy_dvp D H) (\<lambda>V.
     flow_seq (demo_provision D H V) (
     flow_bind (demo_dvp_gateway D H V) (\<lambda>sm.
     flow_seq (demo_ineligible D V sm) (
     flow_bind (demo_buy D H V) (\<lambda>bought.
     flow_bind (demo_receipt D bought) (\<lambda>(issued, r).
     demo_audit D sm issued r))))))"

text \<open>
  What Run starts from: the simulated chain, and nothing of its own. The gateways and the
  agent are made by the steps 2, 14 and 3; no step before them reads these fields.
\<close>

definition demo_start :: "'n demo_env \<Rightarrow> 'n demo_world \<Rightarrow> 'n demo_state" where
  "demo_start D w = \<lparr>ds_world = w, ds_first_env = plain_gateway D 0 0, ds_first = fresh_gateway w,
     ds_second_env = plain_gateway D 0 0, ds_second = fresh_gateway w,
     ds_agent = demo_agent \<lparr>w_key = 0, w_address = 0\<rparr> 0, ds_beats = []\<rparr>"

definition demo_run :: "'n demo_env \<Rightarrow> ('n, unit) flow" where
  "demo_run D =
     flow_bind (flow_of (de_wallet D)) (\<lambda>wal.
     flow_bind (demo_issue D wal) (\<lambda>H.
     flow_seq (demo_payments D H) (flow_seq (demo_mandates D H) (demo_delivery D H))))"

text \<open>
  \<open>cmd/demo\<close>: the texts, in the order they are printed, and the error \<open>log.Fatal\<close> ends with.
\<close>

fun printed :: "demo_beat \<Rightarrow> string" where
  "printed (Gated n) = ''''"
| "printed (Emitted e) = ev_text e"

definition demo_command :: "'n demo_env \<Rightarrow> 'n demo_world \<Rightarrow> string option \<times> string" where
  "demo_command D w = (case demo_run (D\<lparr>de_gated := True\<rparr>) (demo_start D w) of
     (r, s) \<Rightarrow> (case r of Inl e \<Rightarrow> Some e | Inr _ \<Rightarrow> None, concat (map printed (ds_beats s))))"

section \<open>What an observer of the events sees\<close>

text \<open>
  The beats that structure the stream: the calls of the gate, the steps, the refusals by
  their code, the verdicts of the audit, and the end. \<open>heading\<close> forgets a verdict, \<open>outline\<close> the refusal
  too.
\<close>

datatype mark = AtGate int | AtStep int | Refusal string | Verdict string bool | Complete

definition event_mark :: "demo_event \<Rightarrow> mark list" where
  "event_mark e = (if ev_kind e = ''step'' then [AtStep (ev_step e)] else if ev_kind e = ''error'' then [Refusal (ev_error_code e)]
     else if ev_kind e = ''audit'' then [Verdict (ev_audit_step e) (ev_audit_ok e)]
     else if ev_kind e = ''done'' then [Complete] else [])"

fun beat_mark :: "demo_beat \<Rightarrow> mark list" where
  "beat_mark (Gated n) = [AtGate n]"
| "beat_mark (Emitted e) = event_mark e"

definition marks :: "demo_beat list \<Rightarrow> mark list" where
  "marks bs = concat (map beat_mark bs)"

fun heading :: "mark \<Rightarrow> mark" where
  "heading (Verdict name ok) = Verdict name True"
| "heading m = m"

fun outline :: "mark \<Rightarrow> mark" where
  "outline (Refusal c) = Refusal ''''"
| "outline m = heading m"

text \<open>
  \<open>tells m xs\<close>: a run of \<open>m\<close> only adds beats; when it succeeds, the headings of their marks are
  \<open>xs\<close>, and when it fails, they are the beginning of \<open>xs\<close> up to the code of a refusal, without
  the end.
\<close>

definition told :: "mark list \<Rightarrow> 'a result \<Rightarrow> mark list \<Rightarrow> bool" where
  "told xs r ms \<longleftrightarrow> (case r of Inr _ \<Rightarrow> map heading ms = xs
     | Inl _ \<Rightarrow> prefix (map outline ms) (map outline xs) \<and> Complete \<notin> set ms)"

lemma outline_heading [simp]: "outline (heading m) = outline m" "outline \<circ> heading = outline"
proof -
  show "outline (heading m) = outline m" for m by (cases m) simp_all
  then show "outline \<circ> heading = outline" by (simp add: fun_eq_iff)
qed

lemma heading_complete [simp]: "heading m = Complete \<longleftrightarrow> m = Complete" "Complete = heading m \<longleftrightarrow> m = Complete"
  by (cases m; simp)+

definition tells :: "('n, 'a) flow \<Rightarrow> mark list \<Rightarrow> bool" where
  "tells m xs \<longleftrightarrow> (\<forall>s. \<exists>bs. ds_beats (snd (m s)) = ds_beats s @ bs \<and> told xs (fst (m s)) (marks bs))"

lemma marks_simps [simp]: "marks [] = []" "marks (b # bs) = beat_mark b @ marks bs" "marks (as @ bs) = marks as @ marks bs"
  by (simp_all add: marks_def)

lemma tellsI:
  assumes "\<And>s. ds_beats (snd (m s)) = ds_beats s @ bs s" and "\<And>s. told xs (fst (m s)) (marks (bs s))"
  shows "tells m xs"
  using assms by (auto simp: tells_def)

text \<open>What a part of the run leaves alone: a view of the state it does not change.\<close>

definition frame :: "('n demo_state \<Rightarrow> 'v) \<Rightarrow> ('n, 'a) flow \<Rightarrow> bool" where
  "frame v m \<longleftrightarrow> (\<forall>s. v (snd (m s)) = v s)"

named_theorems flow_frame \<open>Parts of the run and what they leave alone.\<close>

lemma frameD: "frame v m \<Longrightarrow> m s = (r, s1) \<Longrightarrow> v s1 = v s"
  unfolding frame_def by (metis snd_conv)

lemma frame_basic [flow_frame]:
  "frame v (flow_return x)" "frame v (flow_fail e)" "frame v (flow_of r)" "frame v (flow_get f)" "frame v (flow_check ok e)"
  by (simp_all add: frame_def flow_return_def flow_fail_def flow_of_def flow_get_def flow_check_def)

lemma frame_put: "(\<And>s. v (f s) = v s) \<Longrightarrow> frame v (flow_put f)"
  by (simp add: frame_def flow_put_def)

lemma frame_bind: "frame v m \<Longrightarrow> (\<And>x. frame v (f x)) \<Longrightarrow> frame v (flow_bind m f)"
  by (auto simp: frame_def flow_bind_def split: prod.split sum.split) (metis snd_conv)+

lemma frame_seq: "frame v m \<Longrightarrow> frame v k \<Longrightarrow> frame v (flow_seq m k)"
  unfolding flow_seq_def by (rule frame_bind)

text \<open>A view that does not look at the world is left alone by every transaction.\<close>

definition off_chain :: "('n demo_state \<Rightarrow> 'v) \<Rightarrow> bool" where
  "off_chain v \<longleftrightarrow> (\<forall>s w. v (s\<lparr>ds_world := w\<rparr>) = v s)"

lemma off_chain_views [simp]:
  "off_chain ds_beats" "off_chain ds_agent" "off_chain ds_second" "off_chain ds_second_env"
  "off_chain (\<lambda>s. ag_wallet (ds_agent s))"
  by (simp_all add: off_chain_def)

lemma frame_chain [flow_frame]:
  assumes "off_chain v"
  shows "frame v (on_chain h)" "frame v (commit_block D)" "frame v (mined D waiting rep)" "frame v (mine D tx)"
    "frame v (demo_deploy D package waiting init)" "frame v (fund_eth D a)"
proof -
  show h: "frame v (on_chain h)" for h :: "chain_world \<Rightarrow> 'z \<times> chain_world"
    using assms by (simp add: frame_def on_chain_def off_chain_def split: prod.split)
  show c: "frame v (commit_block D)"
    using assms by (simp add: commit_block_def frame_put off_chain_def)
  show m: "frame v (mined D waiting rep)" for waiting rep
    by (cases rep) (simp_all add: mined_def c frame_seq flow_frame)
  show "frame v (mine D tx)" unfolding mine_def by (intro frame_bind h m)
  show "frame v (demo_deploy D package waiting init)"
    unfolding demo_deploy_def by (intro frame_bind h) (auto intro!: frame_seq m flow_frame)
  have "frame v (\<lambda>s. let (rep, w1) = de_send_eth D nonce a (ether div 100) gp (ds_world s) in (Inr rep, s\<lparr>ds_world := w1\<rparr>))"
    for nonce gp using assms by (simp add: frame_def off_chain_def split: prod.split)
  then show "frame v (fund_eth D a)" unfolding fund_eth_def by (intro frame_bind m flow_frame)
qed

text \<open>What only computes, sends or asks, emits nothing.\<close>

abbreviation silent :: "('n, 'a) flow \<Rightarrow> bool" where
  "silent \<equiv> frame ds_beats"

lemma silent_tells: "silent m \<Longrightarrow> tells m []"
  by (rule tellsI [of _ "\<lambda>_. []"]) (simp_all add: frame_def told_def split: sum.split)

lemma silent_calls: "silent (at_first D f)" "silent (at_second D g)"
  by (simp_all add: frame_def at_first_def at_second_def split: prod.split)

lemma silent_updates:
  "silent (flow_put (\<lambda>s. s\<lparr>ds_agent := ag s\<rparr>))" "silent (flow_put raise_price)" "silent (flow_put (lower_limit sm))"
  "silent (flow_put (require_mandates D H))" "silent (flow_put (second_gateway D H V j))"
  "silent (flow_put (\<lambda>s. s\<lparr>ds_world := w s, ds_first_env := E s, ds_first := g s\<rparr>))"
  by (rule frame_put; simp add: raise_price_def lower_limit_def require_mandates_def second_gateway_def Let_def split: prod.split)+

lemma frame_pure [flow_frame]:
  "frame v (granted D H payee most budget i)" "frame v (expect_code code what r)" "frame v (expect_paid what r)"
  by (simp_all add: granted_def expect_code_def expect_paid_def frame_bind flow_frame)

lemma silent_agent:
  "silent (get_report D)" "silent (get_asset D)" "silent (retry_report D)" "silent (resend_report D)" "silent (revoke_first sm sig)"
  "silent (carry x c)"
  by (simp_all add: get_report_def get_asset_def retry_report_def resend_report_def silent_calls carry_def frame_put
      frame_def [of _ "revoke_first sm sig"] revoke_first_def split: prod.split)

lemmas flow_silent = frame_basic frame_chain [OF off_chain_views(1)] frame_pure silent_updates silent_agent

text \<open>Composition.\<close>

lemma told_then:
  assumes "told xs (Inr u) ms" and "Complete \<notin> set xs" and "told ys r ns"
  shows "told (xs @ ys) r (ms @ ns)"
proof -
  have "map outline xs = map outline ms" "Complete \<notin> set ms" using assms(1,2) by (auto simp: told_def)
  then show ?thesis using assms(1,3) by (auto simp: told_def split: sum.splits)
qed

lemma told_failed: "told xs (Inl e) ms \<Longrightarrow> told (xs @ ys) (Inl e) ms"
  by (auto simp: told_def intro: prefix_prefix)

lemma tells_bind:
  assumes "tells m xs" and "Complete \<notin> set xs" and "\<And>x. tells (f x) ys"
  shows "tells (flow_bind m f) (xs @ ys)"
  unfolding tells_def
proof
  fix s
  obtain bs where b: "ds_beats (snd (m s)) = ds_beats s @ bs" "told xs (fst (m s)) (marks bs)"
    using assms(1) by (auto simp: tells_def)
  show "\<exists>bs. ds_beats (snd (flow_bind m f s)) = ds_beats s @ bs \<and> told (xs @ ys) (fst (flow_bind m f s)) (marks bs)"
  proof (cases "m s")
    case (Pair r s1)
    show ?thesis
    proof (cases r)
      case (Inl e)
      then show ?thesis using b Pair told_failed by (auto simp: flow_bind_def)
    next
      case (Inr x)
      obtain cs where c: "ds_beats (snd (f x s1)) = ds_beats s1 @ cs" "told ys (fst (f x s1)) (marks cs)"
        using assms(3) by (auto simp: tells_def)
      then show ?thesis using b Pair Inr told_then [OF _ assms(2) c(2)]
        by (intro exI [of _ "bs @ cs"]) (simp add: flow_bind_def)
    qed
  qed
qed

lemma tells_seq: "tells m xs \<Longrightarrow> Complete \<notin> set xs \<Longrightarrow> tells k ys \<Longrightarrow> tells (flow_seq m k) (xs @ ys)"
  unfolding flow_seq_def by (rule tells_bind)

text \<open>A silent part in front, and a marked one.\<close>

lemma silent_then: "silent m \<Longrightarrow> (\<And>x. tells (f x) ys) \<Longrightarrow> tells (flow_bind m f) ys"
  using tells_bind [OF silent_tells, of m f ys] by simp

lemma silent_first: "silent m \<Longrightarrow> tells k ys \<Longrightarrow> tells (flow_seq m k) ys"
  unfolding flow_seq_def by (rule silent_then)

lemma tells_beat: "tells (beat b) (map heading (beat_mark b))"
  by (rule tellsI [of _ "\<lambda>_. [b]"]) (simp_all add: beat_def flow_put_def told_def)

lemma silent_beat_seq:
  assumes "beat_mark b = []" and "tells k ys"
  shows "tells (flow_seq (beat b) k) ys"
  using tells_seq [OF tells_beat _ assms(2), of b] assms(1) by simp

lemma emits_no_mark:
  "tells k ys \<Longrightarrow> tells (flow_seq (emit_log text) k) ys" "tells k ys \<Longrightarrow> tells (flow_seq (emit_tx text h) k) ys"
  "tells k ys \<Longrightarrow> tells (flow_seq (emit_balance text bs) k) ys" "tells k ys \<Longrightarrow> tells (flow_seq (emit_mandate text i) k) ys"
  by (simp_all add: emit_log_def emit_tx_def emit_balance_def emit_mandate_def silent_beat_seq event_mark_def
      blank_event_def)

lemma last_emits_no_mark:
  "tells (emit_log text) []" "tells (emit_tx text h) []" "tells (emit_balance text bs) []"
  "tells (emit_mandate text i) []"
  using tells_beat by (simp_all add: emit_log_def emit_tx_def emit_balance_def emit_mandate_def
      event_mark_def blank_event_def tells_def beat_def flow_put_def told_def)

lemma tells_verdict:
  "tells (emit_audit name ok detail) [Verdict name True]"
  "tells k ys \<Longrightarrow> tells (flow_seq (emit_audit name ok detail) k) (Verdict name True # ys)"
proof -
  let ?b = "Emitted (blank_event\<lparr>ev_kind := ''audit'', ev_audit_step := name, ev_audit_ok := ok,
     ev_text := ''   ['' @ (if ok then ''PASS'' else ''FAIL'') @ ''] '' @ name @ '': '' @ detail @ nl\<rparr>)"
  show v: "tells (emit_audit name ok detail) [Verdict name True]"
    using tells_beat [of ?b] by (simp add: emit_audit_def event_mark_def)
  show "tells k ys \<Longrightarrow> tells (flow_seq (emit_audit name ok detail) k) (Verdict name True # ys)"
    using tells_seq [OF v, of k ys] by simp
qed

text \<open>A step, and what it marks.\<close>

definition step_marks :: "'n demo_env \<Rightarrow> int \<Rightarrow> mark list" where
  "step_marks D n = (if de_gated D then [AtGate n] else []) @ [AtStep n]"

lemma step_marks_open [simp]: "Complete \<notin> set (step_marks D n)"
  by (simp add: step_marks_def)

lemma tells_emit_step: "tells (emit_step D n title lead) (step_marks D n)"
proof -
  let ?e = "blank_event\<lparr>ev_step := n, ev_kind := ''step'', ev_title := title,
          ev_text := lead @ ''== '' @ big_show n @ ''. '' @ title @ '' =='' @ nl\<rparr>"
  have e: "tells (beat (Emitted ?e)) [AtStep n]"
    using tells_beat [of "Emitted ?e"] by (simp add: event_mark_def)
  show ?thesis
    using tells_seq [OF tells_beat [of "Gated n"] _ e] silent_first [OF frame_basic(1) e]
    by (auto simp: emit_step_def step_marks_def)
qed

lemma tells_step: "tells k ys \<Longrightarrow> tells (flow_seq (emit_step D n title lead) k) (step_marks D n @ ys)"
  by (rule tells_seq [OF tells_emit_step]) simp_all

text \<open>A refusal, shown whatever it was and then checked.\<close>

lemma tells_refusal:
  fixes k :: "('n, 'a) flow"
  assumes "code = expected \<Longrightarrow> tells k ys" and "\<And>s. code \<noteq> expected \<Longrightarrow> \<exists>e. k s = (Inl e, s)"
  shows "tells (flow_seq (emit_err text (errcode_string code)) k) (Refusal (errcode_string expected) # ys)"
proof -
  let ?b = "Emitted (blank_event\<lparr>ev_kind := ''error'', ev_text := text, ev_error_code := errcode_string code\<rparr>)"
  have b: "tells (beat ?b) [Refusal (errcode_string code)]"
    using tells_beat [of ?b] by (simp add: event_mark_def)
  show ?thesis
  proof (cases "code = expected")
    case True
    then show ?thesis using tells_seq [OF b _ assms(1)] by (simp add: emit_err_def)
  next
    case False
    show ?thesis
    proof (rule tellsI [of _ "\<lambda>_. [?b]"])
      fix s :: "'n demo_state"
      let ?s = "s\<lparr>ds_beats := ds_beats s @ [?b]\<rparr>"
      obtain e where "k ?s = (Inl e, ?s)" using assms(2) False by blast
      then have "flow_seq (emit_err text (errcode_string code)) k s = (Inl e, ?s)"
        by (simp add: flow_seq_def flow_bind_def emit_err_def beat_def flow_put_def)
      then show "ds_beats (snd (flow_seq (emit_err text (errcode_string code)) k s)) = ds_beats s @ [?b]"
        and "told (Refusal (errcode_string expected) # ys) (fst (flow_seq (emit_err text (errcode_string code)) k s)) (marks [?b])"
        by (simp_all add: told_def event_mark_def)
    qed
  qed
qed

text \<open>A check that fails ends the run where it stands.\<close>

lemma check_fails: "\<not> ok \<Longrightarrow> flow_check ok e s = (Inl e, s)" "\<not> ok \<Longrightarrow> flow_seq (flow_check ok e) k s = (Inl e, s)"
  by (simp_all add: flow_check_def flow_fail_def flow_seq_def flow_bind_def)

lemma tells_last_step: "tells k [] \<Longrightarrow> tells (flow_seq (emit_step D n title lead) k) (step_marks D n)"
  using tells_step [of k "[]"] by simp

lemmas tells_rules = tells_last_step emits_no_mark last_emits_no_mark silent_first silent_then silent_tells flow_silent

lemma tells_issue: "tells (demo_issue D wal) (step_marks D 1)"
  unfolding demo_issue_def Let_def by (rule tells_rules)+

lemma tells_gateway: "tells (demo_gateway D H) (step_marks D 2)"
  unfolding demo_gateway_def by (rule tells_rules)+

lemma tells_register: "tells (demo_register D H) (step_marks D 4)"
  unfolding demo_register_def Let_def by (rule tells_rules)+

lemma tells_pay: "tells (demo_pay D) (step_marks D 5)"
proof -
  have "tells (case rs_settlement r of None \<Rightarrow> flow_return ()
        | Some st \<Rightarrow> emit_tx (''   settlement tx: '' @ sresp_transaction st @ nl @ nl) (sresp_transaction st)) []" for r
    by (cases "rs_settlement r") (simp_all add: last_emits_no_mark silent_tells flow_silent)
  then show ?thesis unfolding demo_pay_def
    by (intro tells_last_step silent_then [OF silent_agent(1)] emits_no_mark(1))
qed

lemma tells_balances: "tells (demo_balances D H) (step_marks D 6)"
  unfolding demo_balances_def by (rule tells_rules)+

lemma tells_reconcile: "tells (demo_reconcile D H) (step_marks D 7)"
  unfolding demo_reconcile_def by (rule tells_rules)+

lemma tells_replay: "tells (demo_replay D) (step_marks D 8)"
  unfolding demo_replay_def by (rule tells_rules)+

lemma tells_delegate: "tells (demo_delegate D H) (step_marks D 9)"
  unfolding demo_delegate_def
  by (rule tells_rules)+

lemma tells_within: "tells (demo_within D sm) (step_marks D 10)"
  unfolding demo_within_def by (rule tells_rules)+

lemma tells_unregistered: "tells (demo_unregistered D H) (step_marks D 3 @ [Refusal (errcode_string ErrCodeIdentityUnregistered)])"
  unfolding demo_unregistered_def
  by (rule tells_step tells_refusal tells_rules)+ (simp add: check_fails)

lemma tells_confirm: "tells (demo_confirm D ask) []"
  unfolding demo_confirm_def by (rule tells_rules)+

lemma tells_beyond: "tells (demo_beyond D H) (step_marks D 11 @ [Refusal (errcode_string ErrCodeConfirmationRequired)])"
proof -
  have "tells (flow_seq (emit_err t (errcode_string (rs_error_code r)))
      (case if rs_error_code r = ErrCodeConfirmationRequired then rs_ask r else None of
         None \<Rightarrow> flow_fail e | Some ask \<Rightarrow> demo_confirm D ask)) [Refusal (errcode_string ErrCodeConfirmationRequired)]"
    for t e r
    by (rule tells_refusal) (auto simp: flow_fail_def tells_confirm silent_tells flow_silent split: option.split)
  note asked = this
  show ?thesis unfolding demo_beyond_def by (rule tells_step asked tells_rules)+
qed

lemma tells_revoke: "tells (demo_revoke D sm) (step_marks D 12 @ [Refusal (errcode_string ErrCodeMandateRevoked)])"
  unfolding demo_revoke_def
  by (rule tells_step tells_refusal tells_rules)+ (simp add: expect_code_def check_fails)

lemma tells_large: "tells (demo_large D H) (step_marks D 13 @ [Refusal (errcode_string ErrCodePaymentDeferred)])"
  unfolding demo_large_def
  by (rule tells_step tells_refusal tells_rules)+ (simp add: expect_code_def check_fails)

lemma tells_deploy_dvp: "tells (demo_deploy_dvp D H) (step_marks D 14)"
  unfolding demo_deploy_dvp_def Let_def by (rule tells_rules)+

lemma tells_provision: "tells (demo_provision D H V) []"
  unfolding demo_provision_def Let_def by (rule tells_rules)+

lemma tells_dvp_gateway: "tells (demo_dvp_gateway D H V) []"
  unfolding demo_dvp_gateway_def by (rule tells_rules)+

lemma tells_ineligible: "tells (demo_ineligible D V sm) (step_marks D 15 @ [Refusal (errcode_string ErrCodeNotEligible)])"
  unfolding demo_ineligible_def
  by (rule tells_step tells_refusal tells_rules)+ (simp add: expect_code_def check_fails)

lemma tells_buy: "tells (demo_buy D H V) (step_marks D 16)"
  unfolding demo_buy_def Let_def by (rule tells_rules)+

lemma tells_receipt: "tells (demo_receipt D bought) (step_marks D 17)"
proof -
  have "tells (case x of None \<Rightarrow> flow_fail e
      | Some issued \<Rightarrow> flow_bind (flow_of (to_receipt G (srj_receipt issued))) (\<lambda>r.
          flow_seq (emit_log (a r)) (flow_seq (emit_log (b r)) (flow_return (issued, r))))) []" for x e a b G
    by (cases x; simp; (rule tells_rules)+)
  then show ?thesis unfolding demo_receipt_def Let_def by (rule tells_last_step)
qed

definition offline_verdicts :: "string list" where
  "offline_verdicts = [''receipt signature'', ''mandate delegation chain'', ''revocation status'', ''payment within mandate scope'']"

definition chain_verdicts :: "string list" where
  "chain_verdicts = [''settlement on chain'', ''asset delivery on chain'']"

abbreviation verdict_marks :: "string list \<Rightarrow> mark list" where
  "verdict_marks names \<equiv> map (\<lambda>name. Verdict name True) names"

lemma verdicts_open [simp]: "Complete \<notin> (\<lambda>name. Verdict name ok) ` A"
  by auto

lemma tells_offline: "tells (audit_offline D sm issued r) (verdict_marks offline_verdicts)"
  unfolding audit_offline_def audit_receipt_signature_def audit_chain_of_trust_def Let_def offline_verdicts_def list.map
  by (rule tells_verdict silent_then flow_silent)+

lemma tells_chain: "tells (audit_chain D r) (verdict_marks chain_verdicts)"
  unfolding audit_chain_def chain_verdicts_def list.map by (rule tells_verdict silent_then flow_silent)+

lemma tells_audit:
  "tells (demo_audit D sm issued r) (step_marks D 18 @ verdict_marks offline_verdicts @ verdict_marks chain_verdicts @ [Complete])"
proof -
  have "tells (emit_done complete_text) [Complete]"
    by (simp add: tells_def emit_done_def beat_def flow_put_def told_def event_mark_def)
  then show ?thesis unfolding demo_audit_def
    using tells_seq [OF tells_offline _ tells_seq [OF tells_chain]] by (intro tells_step) simp
qed

text \<open>The script: the steps in order, and the refusals the demo is there to show.\<close>

definition demo_script :: "'n demo_env \<Rightarrow> mark list" where
  "demo_script D =
     step_marks D 1 @ step_marks D 2 @ step_marks D 3 @ [Refusal ''identity_unregistered''] @ step_marks D 4 @
     step_marks D 5 @ step_marks D 6 @ step_marks D 7 @ step_marks D 8 @ step_marks D 9 @ step_marks D 10 @
     step_marks D 11 @ [Refusal ''confirmation_required''] @ step_marks D 12 @ [Refusal ''mandate_revoked''] @
     step_marks D 13 @ [Refusal ''payment_deferred''] @ step_marks D 14 @
     step_marks D 15 @ [Refusal ''payer_not_eligible''] @ step_marks D 16 @ step_marks D 17 @
     step_marks D 18 @ verdict_marks offline_verdicts @ verdict_marks chain_verdicts @ [Complete]"

lemma tells_payments: "tells (demo_payments D H) (step_marks D 2 @ (step_marks D 3 @ [Refusal ''identity_unregistered'']) @
    step_marks D 4 @ step_marks D 5 @ step_marks D 6 @ step_marks D 7 @ step_marks D 8)"
  using tells_unregistered [of D H] unfolding demo_payments_def errcode_string.simps
  by (intro tells_seq tells_gateway tells_register tells_pay tells_balances tells_reconcile tells_replay) simp_all

lemma tells_mandates: "tells (demo_mandates D H) (step_marks D 9 @ step_marks D 10 @
    (step_marks D 11 @ [Refusal ''confirmation_required'']) @ (step_marks D 12 @ [Refusal ''mandate_revoked'']) @
    (step_marks D 13 @ [Refusal ''payment_deferred'']))"
  using tells_beyond [of D H] tells_revoke [of D] tells_large [of D H] unfolding demo_mandates_def errcode_string.simps
  by (intro tells_bind tells_seq tells_delegate tells_within) simp_all

lemma tells_delivery: "tells (demo_delivery D H) (step_marks D 14 @ (step_marks D 15 @ [Refusal ''payer_not_eligible'']) @
    step_marks D 16 @ step_marks D 17 @
     step_marks D 18 @ verdict_marks offline_verdicts @ verdict_marks chain_verdicts @ [Complete])"
proof -
  have a: "tells (case x of (issued, r) \<Rightarrow> demo_audit D sm issued r) (step_marks D 18 @ verdict_marks offline_verdicts @ verdict_marks chain_verdicts @ [Complete])" for x sm
    by (cases x) (simp add: tells_audit)
  have "tells (flow_bind (demo_dvp_gateway D H V) (\<lambda>sm. flow_seq (demo_ineligible D V sm) (
      flow_bind (demo_buy D H V) (\<lambda>bought. flow_bind (demo_receipt D bought) (\<lambda>(issued, r). demo_audit D sm issued r)))))
      ([] @ (step_marks D 15 @ [Refusal ''payer_not_eligible'']) @ step_marks D 16 @ step_marks D 17 @
     step_marks D 18 @ verdict_marks offline_verdicts @ verdict_marks chain_verdicts @ [Complete])"
    for V using tells_ineligible [of D V] unfolding errcode_string.simps
    by (intro tells_bind tells_seq tells_dvp_gateway tells_buy tells_receipt a) simp_all
  then have "tells (flow_seq (demo_provision D H V) (
      flow_bind (demo_dvp_gateway D H V) (\<lambda>sm. flow_seq (demo_ineligible D V sm) (
      flow_bind (demo_buy D H V) (\<lambda>bought. flow_bind (demo_receipt D bought) (\<lambda>(issued, r). demo_audit D sm issued r))))))
      ((step_marks D 15 @ [Refusal ''payer_not_eligible'']) @ step_marks D 16 @ step_marks D 17 @
     step_marks D 18 @ verdict_marks offline_verdicts @ verdict_marks chain_verdicts @ [Complete])" for V
    using tells_seq [OF tells_provision] by fastforce
  then show ?thesis unfolding demo_delivery_def by (intro tells_bind tells_deploy_dvp) simp_all
qed

lemma tells_run: "tells (demo_run D) (demo_script D)"
proof -
  have a: "tells (flow_bind (demo_issue D wal) (\<lambda>H. flow_seq (demo_payments D H) (flow_seq (demo_mandates D H) (demo_delivery D H))))
      (demo_script D)" for wal
    using tells_bind [OF tells_issue [of D wal] _ tells_seq [OF tells_payments _ tells_seq [OF tells_mandates _ tells_delivery]]]
    by (simp add: demo_script_def)
  show ?thesis unfolding demo_run_def by (rule silent_then [OF frame_basic(3)]) (rule a)
qed

end
