(* ===== verification/DemoAudit.thy ===== *)
theory DemoAudit
  imports Demoflow
begin

text \<open>
  What the demo's audit shows (steps 14 to 18 of \<open>internal/demoflow\<close>): the receipt of the DvP
  purchase passes the four offline checks whatever the chain, its clock and its randomness
  do, because it comes from a gateway that has just been made, for a payment the agent signed
  under the mandate the demo audits it against. Together with the story of Demoflow, this is
  what an observer of the events may conclude.
\<close>

section \<open>A journal without revocations\<close>

definition unrevoked :: "'w gateway \<Rightarrow> bool" where
  "unrevoked s \<longleftrightarrow> journal_ok s \<and> (\<forall>e\<in>set (journal_entries s). je_kind e \<noteq> ''revocation'')"

lemma unrevoked_same: "gw_journal s' = gw_journal s \<Longrightarrow> unrevoked s' \<longleftrightarrow> unrevoked s"
  by (simp add: unrevoked_def journal_ok_def journal_entries_def)

lemma unrevoked_append:
  assumes "unrevoked s" and "je_kind e \<noteq> ''revocation''"
  shows "unrevoked (snd (append_entry E e s))"
proof -
  obtain es where "journal_entries (snd (append_entry E e s)) = journal_entries s @ es" "set es \<subseteq> {e}"
    using append_entry_grows(2) [of s E e] assms(1) unfolding unrevoked_def by blast
  then show ?thesis
    using append_entry_grows(1) [of s E e] assms by (auto simp: unrevoked_def)
qed

lemma unrevoked_entries:
  "unrevoked s \<Longrightarrow> unrevoked (record_decision E pc d b s)"
  "unrevoked s \<Longrightarrow> unrevoked (journal_refund E r tx s)"
  "unrevoked s \<Longrightarrow> unrevoked (journal_refund_pending E r s)"
  by (simp_all add: record_decision_def decision_entry_def journal_refund_def journal_refund_pending_def Let_def unrevoked_append)

lemma unrevoked_frame [simp]:
  "unrevoked (count f s) \<longleftrightarrow> unrevoked s" "unrevoked (notify E pc ok s) \<longleftrightarrow> unrevoked s"
  "unrevoked (s\<lparr>gw_world := w\<rparr>) \<longleftrightarrow> unrevoked s" "unrevoked (inflight_put n df s) \<longleftrightarrow> unrevoked s"
  "unrevoked (s\<lparr>gw_settlements := rs\<rparr>) \<longleftrightarrow> unrevoked s" "unrevoked (snd (gateway_decide E pc s)) \<longleftrightarrow> unrevoked s"
  by (rule unrevoked_same; simp)+

lemma unrevoked_settle:
  assumes "unrevoked s"
  shows "unrevoked (snd (settle E p reqs pc s))"
proof -
  obtain out w where g: "ge_settle E p reqs (gw_world s) = (out, w)" by (cases "ge_settle E p reqs (gw_world s)")
  have a: "unrevoked (snd (append_entry E (settlement_entry E r) s'))" if "unrevoked s'" for r s'
    using that by (rule unrevoked_append) (simp add: settlement_entry_def blank_entry_def)
  have "unrevoked s1" if "append_entry E (settlement_entry E r) s' = (x, s1)" "unrevoked s'" for r s' x s1
    using a [OF that(2), of r] that(1) by simp
  then show ?thesis
    using assms by (auto simp: settle_def g Let_def split: sum.split option.split prod.split intro!: unrevoked_entries)
qed

section \<open>A fresh gateway's answers\<close>

text \<open>
  A gateway without sessions, deliverer and payments in flight, whose journal holds no
  revocation. It answers a payment from the authorization alone; only a deferral leaves one
  in flight.
\<close>

definition fresh_books :: "'w gateway \<Rightarrow> bool" where
  "fresh_books s \<longleftrightarrow> gw_inflight s = Map.empty \<and> unrevoked s"

lemma fresh_books_frame [simp]:
  "fresh_books (s\<lparr>gw_world := w\<rparr>) \<longleftrightarrow> fresh_books s" "fresh_books (count f s) \<longleftrightarrow> fresh_books s"
  by (simp_all add: fresh_books_def)

lemma fresh_verify_and_settle:
  assumes "fresh_books s" and "ge_deliverer E = None" and "verify_and_settle E (Decoded p) reqs s = (out, s')"
  shows "unrevoked s'" and "(\<forall>f. out = Inl f \<longrightarrow> fl_code f \<noteq> ErrCodePaymentDeferred) \<Longrightarrow> fresh_books s'"
    and "out = Inr r \<Longrightarrow> \<exists>sr t. Settlement.settled_record E p sr t r"
proof -
  have "inflight_get n s = None" for n using assms(1) by (simp add: fresh_books_def inflight_get_def)
  obtain vr w where v: "ge_verify E p reqs (gw_world s) = (vr, w)" by (cases "ge_verify E p reqs (gw_world s)")
  have "unrevoked s' \<and> ((\<forall>f. out = Inl f \<longrightarrow> fl_code f \<noteq> ErrCodePaymentDeferred) \<longrightarrow> fresh_books s') \<and>
      (\<forall>r. out = Inr r \<longrightarrow> (\<exists>sr t. Settlement.settled_record E p sr t r))"
  proof (cases "check_resource_binding E p reqs \<noteq> None \<or> (\<exists>e. vr = Inl e)")
    case True
    then have "\<exists>f. out = Inl f \<and> s' \<in> {s, s\<lparr>gw_world := w\<rparr>}"
      using assms(3) v \<open>\<And>n. inflight_get n s = None\<close>
      by (cases "check_resource_binding E p reqs") (auto simp: verify_and_settle_def)
    then show ?thesis using assms(1) by (auto simp: fresh_books_def)
  next
    case False
    then obtain x where x: "check_resource_binding E p reqs = None" "vr = Inr x" by (cases vr) auto
    let ?s1 = "s\<lparr>gw_world := w\<rparr>"
    let ?pc = "fresh_context E p reqs x ?s1"
    obtain d s2 where d: "gateway_decide E ?pc ?s1 = (d, s2)" by (cases "gateway_decide E ?pc ?s1")
    have s2: "unrevoked s2" "gw_inflight s2 = Map.empty"
      using unrevoked_frame(6) [of E ?pc ?s1] assms(1) d gateway_decide_frame [of E ?pc ?s1]
      by (simp_all add: fresh_books_def)
    let ?s3 = "record_decision E ?pc d False s2"
    have s3: "unrevoked ?s3" "gw_inflight ?s3 = Map.empty" using s2 by (simp_all add: unrevoked_entries)
    obtain y s4 where st: "settle E p reqs ?pc ?s3 = (y, s4)" by (cases "settle E p reqs ?pc ?s3")
    have s4: "unrevoked s4" using unrevoked_settle [OF s3(1), of E p reqs ?pc] st by simp
    have i4: "gw_inflight s4 = Map.empty" and r4: "\<forall>r. y = Inr r \<longrightarrow> (\<exists>sr t. Settlement.settled_record E p sr t r)"
      using st s3(2) by (cases rule: settle_cases [of E p reqs ?pc ?s3]; auto)+
    have run: "verify_and_settle E (Decoded p) reqs s = (if d_action d = ActionApprove then (case settle E p reqs ?pc ?s3 of
          (Inl f, s') \<Rightarrow> (Inl f, s') | (Inr r, s') \<Rightarrow> deliver E r s')
        else if d_action d = ActionDefer then begin_deferred E p reqs ?pc (fst (payload_nonce (ge_geth E) p)) ?s3
        else (Inl (refusal d ?pc x), ?s3))"
      using v x d \<open>\<And>n. inflight_get n s = None\<close>
      by (simp add: verify_and_settle_def fresh_context_def [symmetric] Let_def)
    then show ?thesis
      using st s4 i4 r4 s3 assms(2,3)
      by (cases y) (auto simp: fresh_books_def deliver_def begin_deferred_def fail_def split: if_splits)
  qed
  then show "unrevoked s'" and "(\<forall>f. out = Inl f \<longrightarrow> fl_code f \<noteq> ErrCodePaymentDeferred) \<Longrightarrow> fresh_books s'"
    and "out = Inr r \<Longrightarrow> \<exists>sr t. Settlement.settled_record E p sr t r" by blast+
qed

lemma unrevoked_receipt:
  assumes "unrevoked s"
  shows "unrevoked (snd (issue_receipt E r reqs header key s))"
  using assms by (auto simp: issue_receipt_def Let_def blank_entry_def split: prod.split option.split sum.split
      intro!: unrevoked_append)

lemma receipt_inflight [simp]: "gw_inflight (snd (issue_receipt E r reqs header key s)) = gw_inflight s"
  by (auto simp: issue_receipt_def Let_def split: prod.split option.split sum.split)

text \<open>What such a gateway answers a request for its terms, and a payment.\<close>

lemma fresh_terms:
  assumes "fresh_books g" and "\<not> ge_sessions_enabled E" and "gateway_server E route status body (plain_get url) g = (out, g')"
  obtains resp t resource where "out = Inr resp" "hr_status resp = 402" "hr_body resp \<noteq> Inl e" "hr_terms resp = Some t"
    "rqr_accepts t = [requirements E resource]" "fresh_books g'"
  using assms by (auto simp: gateway_server_def middleware_def write_requirements_def plain_get_def reply_response_def Let_def)

definition signed_for ::
    "'w gateway_env \<Rightarrow> settlement_record \<Rightarrow> payment_payload \<Rightarrow> signed_receipt_json option \<Rightarrow> bool" where
  "signed_for E r p receipt \<longleftrightarrow> (case ge_receipt_key E of
     None \<Rightarrow> receipt = None
   | Some key \<Rightarrow> (\<exists>resource s s'. issue_receipt E r (requirements E resource) (Decoded p) key s = (receipt, s')))"

lemma fresh_payment:
  assumes "fresh_books g" and "\<not> ge_sessions_enabled E" and "ge_deliverer E = None"
    and "gateway_server E route status body (paid_get url p) g = (out, g')"
  obtains (refused) resp t where "out = Inr resp" "hr_status resp = 402" "hr_terms resp = Some t" "unrevoked g'"
      "rqr_error_code t \<noteq> ErrCodePaymentDeferred \<Longrightarrow> fresh_books g'"
  | (served) resp r receipt sr t where "out = Inr resp" "hr_status resp = status" "hr_terms resp = None" "fresh_books g'"
      "hr_payment_response resp = Some (payment_response E r receipt)" "Settlement.settled_record E p sr t r"
      "signed_for E r p receipt"
proof -
  let ?resource = "''http://'' @ fst (route url) @ snd (route url)"
  let ?g = "count inc_request g"
  obtain x g1 where v: "verify_and_settle E (Decoded p) (requirements E ?resource) ?g = (x, g1)"
    by (cases "verify_and_settle E (Decoded p) (requirements E ?resource) ?g")
  have g: "fresh_books ?g" using assms(1) by simp
  note f = fresh_verify_and_settle [OF g assms(3) v]
  have m: "middleware E \<lparr>rq_host = fst (route url), rq_path = snd (route url), rq_payment = Decoded p, rq_session = '''',
      rq_session_close = ''''\<rparr> g = (case x of
        Inl f \<Rightarrow> write_requirements E ?resource f g1
      | Inr r \<Rightarrow> (case ge_receipt_key E of
          None \<Rightarrow> (Served (Some (payment_response E r None)) None, g1)
        | Some key \<Rightarrow> (let (receipt, s2) = issue_receipt E r (requirements E ?resource) (Decoded p) key g1 in
            (Served (Some (payment_response E r receipt)) None, s2))))"
    using assms(2) v by (auto simp: middleware_def Let_def split: option.split sum.split prod.split)
  show thesis
  proof (cases x)
    case (Inl e)
    let ?t = "\<lparr>rqr_version = x402_version, rqr_error = fl_reason e, rqr_error_code = fl_code e,
      rqr_accepts = [requirements E ?resource], rqr_ask = fl_ask e\<rparr>"
    have o: "out = Inr (reply_response status body (PaymentRequired ?t))"
        "g' = count (inc_refusal (errcode_string (fl_code e))) g1"
      using assms(4) m Inl by (simp_all add: gateway_server_def write_requirements_def paid_get_def plain_get_def)
    have "fl_code e \<noteq> ErrCodePaymentDeferred \<Longrightarrow> fresh_books g1" using f(2) Inl by blast
    then show thesis using f(1) o by (intro refused [of "reply_response status body (PaymentRequired ?t)" ?t]) (simp_all add: reply_response_def)
  next
    case (Inr r)
    obtain sr t where sr: "Settlement.settled_record E p sr t r" using f(3) Inr by blast
    have g1: "fresh_books g1" using f(2) Inr by blast
    show thesis
    proof (cases "ge_receipt_key E")
      case None
      then show thesis
        using served [of _ r None sr t] assms(4) m Inr sr g1
        by (auto simp: gateway_server_def paid_get_def plain_get_def reply_response_def signed_for_def)
    next
      case (Some key)
      obtain receipt s2 where i: "issue_receipt E r (requirements E ?resource) (Decoded p) key g1 = (receipt, s2)"
        by (cases "issue_receipt E r (requirements E ?resource) (Decoded p) key g1")
      have "fresh_books s2"
        using g1 i receipt_inflight [of E r "requirements E ?resource" "Decoded p" key g1]
          unrevoked_receipt [of g1 E r "requirements E ?resource" "Decoded p" key] by (simp add: fresh_books_def)
      moreover have "signed_for E r p receipt" using Some i by (auto simp: signed_for_def)
      ultimately show thesis
        using served [of _ r receipt sr t] assms(4) m Inr sr Some i
        by (auto simp: gateway_server_def paid_get_def plain_get_def reply_response_def)
    qed
  qed
qed

section \<open>The agent at a fresh gateway\<close>

lemma random_books: "fresh_books g \<Longrightarrow> an_random (gateway_client E route status body) g = (x, g1) \<Longrightarrow> fresh_books g1"
  by (auto simp: gateway_client_def split: prod.splits)

lemma nonce_books:
  assumes "fresh_books g" and "agent_bound_nonce (gateway_client E route status body) ag resource g = (x, g1)"
  shows "fresh_books g1"
  using assms random_books
  by (auto simp: agent_bound_nonce_def agent_payment_nonce_def new_nonce_def Let_def split: option.splits sum.splits prod.splits if_splits)

lemma build_books:
  assumes "fresh_books g" and "build_payment (gateway_client E route status body) ag req amount g = (x, g1)"
  shows "fresh_books g1"
proof -
  obtain y g0 where n: "agent_bound_nonce (gateway_client E route status body) ag (pr_resource req) g = (y, g0)"
    by (cases "agent_bound_nonce (gateway_client E route status body) ag (pr_resource req) g")
  have "g1 = g0"
  proof (cases y)
    case (Inl e)
    then show ?thesis using assms(2) n by (simp add: build_payment_def)
  next
    case (Inr z)
    obtain nonce seed where z: "z = (nonce, seed)" by (cases z)
    show ?thesis
      using assms(2) build_payment_eq [OF n [unfolded Inr z], of amount] by (auto split: sum.splits)
  qed
  then show ?thesis using nonce_books [OF assms(1) n] by simp
qed

text \<open>What the payment the agent built says to a gateway that could read it.\<close>

lemma auth_payload_read:
  assumes "geth_text G" and "parse_exact_payload G (pp_payload (auth_payload G network a sig seed m c ss)) = Inr (a', sig')"
  shows "au_from a' = au_from a \<and> au_value a' = au_value a"
  using assms(2) geth_textD(1,2) [OF assms(1)]
  by (auto simp: parse_exact_payload_def auth_payload_def Let_def split: if_splits option.splits)

lemma result_of_response:
  assumes "build_result resp amount req = Inr res"
  shows "rs_status res = hr_status resp" "rs_settlement res = hr_payment_response resp"
    "rs_error_code res = (case if hr_status resp = 402 then hr_terms resp else None of None \<Rightarrow> NoCode | Some t \<Rightarrow> rqr_error_code t)"
  using assms by (auto simp: build_result_def Let_def split: sum.splits)

lemma agent_at_fresh:
  assumes "fresh_books g" and "\<not> ge_sessions_enabled E" and "ge_deliverer E = None" and "geth_text (ge_geth E)" and "status \<noteq> 402"
    and "agent_get (gateway_client E route status body) url ag g = (Inr res, ag', g')"
  shows "ag_wallet ag' = ag_wallet ag \<and> ag_mandate ag' = ag_mandate ag \<and>
    (rs_error_code res \<noteq> ErrCodePaymentDeferred \<or> rs_status res = status \<longrightarrow> fresh_books g') \<and>
    (rs_status res = status \<longrightarrow> (\<exists>r receipt p. rs_settlement res = Some (payment_response E r receipt) \<and>
       signed_for E r p receipt \<and> pp_mandate p = ag_mandate ag \<and> st_payer r = w_address (ag_wallet ag) \<and>
       st_amount r = Some (ge_price E)))"
proof -
  let ?A = "gateway_client E route status body"
  obtain out0 g1 where h: "an_http ?A (plain_get url) g = (out0, g1)" by (cases "an_http ?A (plain_get url) g")
  then have "gateway_server E route status body (plain_get url) g = (out0, g1)" by simp
  then obtain resp t resource where o: "out0 = Inr resp" "hr_status resp = 402" "hr_terms resp = Some t"
      "rqr_accepts t = [requirements E resource]" "fresh_books g1"
    by (rule fresh_terms [OF assms(1,2)])
  let ?req = "requirements E resource"
  have req: "pr_scheme ?req = scheme_exact" "set_string10 (pr_max_amount_required ?req) = Some (ge_price E)"
    by (simp_all add: requirements_def)
  obtain b where b: "read_body resp = Inr b"
    using assms(6) h o(1) by (cases "read_body resp") (auto simp: agent_get_def)
  obtain y g2 where bp: "build_payment ?A ag ?req (ge_price E) g1 = (y, g2)" by (cases "build_payment ?A ag ?req (ge_price E) g1")
  have g2: "fresh_books g2" by (rule build_books [OF o(5) bp])
  obtain p where p: "y = Inr p"
    using assms(6) h o(1-4) b req bp by (cases y) (auto simp: agent_get_def Let_def split: if_splits)
  obtain z g3 where z: "gateway_server E route status body (paid_get url p) g2 = (z, g3)"
    by (cases "gateway_server E route status body (paid_get url p) g2")
  have sent: "send_payment ?A url p (Some (ge_price E)) (Some ?req) g2 = (Inr res, g')"
    and ag': "ag' = ag\<lparr>ag_last_header := Some p, ag_last_amount := Some (ge_price E), ag_last_resource := url\<rparr>"
    using assms(6) h o(1-4) b req bp p by (auto simp: agent_get_def Let_def split: if_splits prod.splits)
  obtain nonce seed sig where pd: "p = auth_payload (ge_geth E) (pr_network ?req)
      (agent_authorization (ge_geth E) ag ?req (ge_price E) (an_now ?A g2) nonce) sig seed (ag_mandate ag) (ag_confirmation ag) None"
    by (rule build_payment_Inr [OF bp [unfolded p]]) (rule that, simp)
  have read: "st_payer r = w_address (ag_wallet ag) \<and> st_amount r = Some (ge_price E)"
    if "Settlement.settled_record E p sr t' r" for sr t' r
    using that auth_payload_read [OF assms(4)]
    by (auto simp: Settlement.settled_record_def pd agent_authorization_def dest: auth_payload_read [OF assms(4)])
  from g2 assms(2,3) z show ?thesis
  proof (cases rule: fresh_payment)
    case (refused resp' t')
    then have "build_result resp' (Some (ge_price E)) (Some ?req) = Inr res" "g' = g3" using sent z by (simp_all add: send_payment_def)
    note res = result_of_response [OF this(1)]
    show ?thesis using res refused ag' assms(5) \<open>g' = g3\<close> by auto
  next
    case (served resp' r receipt sr t')
    then have "build_result resp' (Some (ge_price E)) (Some ?req) = Inr res" "g' = g3" using sent z by (simp_all add: send_payment_def)
    note res = result_of_response [OF this(1)]
    have "pp_mandate p = ag_mandate ag" by (simp add: pd)
    then show ?thesis using res read [OF served(6)] served ag' \<open>g' = g3\<close> by auto
  qed
qed

section \<open>Steps 15 to 18\<close>

lemma flow_bind_Inr: "flow_bind m f s = (Inr y, s') \<longleftrightarrow> (\<exists>x s1. m s = (Inr x, s1) \<and> f x s1 = (Inr y, s'))"
  by (auto simp: flow_bind_def split: prod.splits sum.splits)

lemma flow_seq_Inr: "flow_seq m k s = (Inr y, s') \<longleftrightarrow> (\<exists>s1. m s = (Inr (), s1) \<and> k s1 = (Inr y, s'))"
  by (simp add: flow_seq_def flow_bind_Inr)

lemma flow_basic_Inr:
  "flow_return x s = (Inr y, s') \<longleftrightarrow> y = x \<and> s' = s" "flow_of r s = (Inr y, s') \<longleftrightarrow> r = Inr y \<and> s' = s"
  "flow_get f s = (Inr y, s') \<longleftrightarrow> y = f s \<and> s' = s" "flow_put h s = (Inr (), s') \<longleftrightarrow> s' = h s"
  "flow_check ok e s = (Inr (), s') \<longleftrightarrow> ok \<and> s' = s" "flow_fail e s \<noteq> (Inr z, s')"
  by (auto simp: flow_return_def flow_of_def flow_get_def flow_put_def flow_check_def flow_fail_def)

lemmas flow_Inr = flow_bind_Inr flow_seq_Inr flow_basic_Inr

text \<open>The part of the state the purchase depends on, which transactions and events leave alone.\<close>

definition stage :: "'n demo_state \<Rightarrow> 'n demo_world gateway_env \<times> 'n demo_world gateway \<times> agent" where
  "stage s = (ds_second_env s, ds_second s, ds_agent s)"

lemma stage_off_chain [simp]: "off_chain stage"
  by (simp add: off_chain_def stage_def)

definition off_air :: "('n demo_state \<Rightarrow> 'v) \<Rightarrow> bool" where
  "off_air v \<longleftrightarrow> (\<forall>s bs. v (s\<lparr>ds_beats := bs\<rparr>) = v s)"

lemma off_air_views [simp]: "off_air stage" "off_air (\<lambda>s. ag_wallet (ds_agent s))" "off_air ds_second"
  by (simp_all add: off_air_def stage_def)

lemma frame_emits [flow_frame]:
  assumes "off_air v"
  shows "frame v (beat b)" "frame v (emit_log t)" "frame v (emit_err t c)" "frame v (emit_tx t h)" "frame v (emit_balance t bs)"
    "frame v (emit_mandate t i)" "frame v (emit_audit name ok d)" "frame v (emit_step D n title lead)"
proof -
  show b: "frame v (beat b)" for b using assms by (simp add: beat_def frame_put off_air_def)
  show "frame v (emit_step D n title lead)" unfolding emit_step_def by (intro frame_seq b) (simp add: b flow_frame)
qed (use assms in \<open>simp_all add: emit_log_def emit_err_def emit_tx_def emit_balance_def emit_mandate_def emit_audit_def
    beat_def frame_put off_air_def\<close>)

text \<open>The second gateway with books as new, and the agent of the demo.\<close>

definition second_ready :: "'n demo_env \<Rightarrow> demo_handles \<Rightarrow> 'n demo_state \<Rightarrow> bool" where
  "second_ready D H s \<longleftrightarrow> (\<exists>elig dvp mp. ds_second_env s = demo_second D (dh_token H) (dh_registry H) elig dvp mp) \<and>
     fresh_books (ds_second s) \<and> ag_wallet (ds_agent s) = dh_wallet H"

lemma second_ready_stage: "stage s' = stage s \<Longrightarrow> second_ready D H s' \<longleftrightarrow> second_ready D H s"
  by (simp add: second_ready_def stage_def)

lemma second_ready_kept: "stage s' = stage s \<Longrightarrow> second_ready D H s \<Longrightarrow> second_ready D H s'"
  using second_ready_stage by blast

lemma demo_second_sel:
  "ge_geth (demo_second D tok reg elig dvp mp) = de_geth D" "ge_pay_to (demo_second D tok reg elig dvp mp) = seller_address D"
  "ge_price (demo_second D tok reg elig dvp mp) = 500" "ge_deliverer (demo_second D tok reg elig dvp mp) = None"
  "ge_receipt_key (demo_second D tok reg elig dvp mp) = Some (de_gateway D)"
  "\<not> ge_sessions_enabled (demo_second D tok reg elig dvp mp)"
  by (simp_all add: demo_second_def local_calls_def plain_gateway_def)

text \<open>The purchase: what was paid, and that the receipt was issued for it.\<close>

definition purchased :: "'n demo_env \<Rightarrow> demo_handles \<Rightarrow> signed_mandate_json option \<Rightarrow> agent_result \<Rightarrow> bool" where
  "purchased D H sm res \<longleftrightarrow> (\<exists>(E :: 'n demo_world gateway_env) r receipt p. ge_geth E = de_geth D \<and> ge_pay_to E = seller_address D \<and>
     ge_receipt_key E = Some (de_gateway D) \<and> rs_settlement res = Some (payment_response E r receipt) \<and>
     signed_for E r p receipt \<and> pp_mandate p = sm \<and> st_payer r = w_address (dh_wallet H) \<and> st_amount r = Some 500)"

lemma get_asset_ready:
  assumes "geth_text (de_geth D)" and "second_ready D H s" and "get_asset D s = (Inr res, s')"
  shows "ag_mandate (ds_agent s') = ag_mandate (ds_agent s) \<and>
    (rs_error_code res \<noteq> ErrCodePaymentDeferred \<or> rs_status res = 200 \<longrightarrow> second_ready D H s') \<and>
    (rs_status res = 200 \<longrightarrow> purchased D H (ag_mandate (ds_agent s)) res)"
proof -
  obtain elig dvp mp where E: "ds_second_env s = demo_second D (dh_token H) (dh_registry H) elig dvp mp"
    and g: "fresh_books ((ds_second s)\<lparr>gw_world := ds_world s\<rparr>)" and wal: "ag_wallet (ds_agent s) = dh_wallet H"
    using assms(2) by (auto simp: second_ready_def)
  let ?E = "demo_second D (dh_token H) (dh_registry H) elig dvp mp"
  obtain out ag g' where call: "agent_get (gateway_client ?E (de_route D) 200 (asset_body D)) (asset_url D) (ds_agent s)
      ((ds_second s)\<lparr>gw_world := ds_world s\<rparr>) = (out, ag, g')"
    by (cases "agent_get (gateway_client ?E (de_route D) 200 (asset_body D)) (asset_url D) (ds_agent s)
      ((ds_second s)\<lparr>gw_world := ds_world s\<rparr>)")
  have o: "out = Inr res" "s' = s\<lparr>ds_agent := ag, ds_second := g', ds_world := gw_world g'\<rparr>"
    using assms(3) call by (auto simp: get_asset_def at_second_def E)
  note sel = demo_second_sel [of D "dh_token H" "dh_registry H" elig dvp mp]
  have t: "geth_text (ge_geth ?E)" by (simp add: sel assms(1))
  note a = agent_at_fresh [OF g sel(6,4) t _ call [unfolded o(1)]]
  show ?thesis using a o(2) E wal sel by (auto simp: second_ready_def purchased_def)
qed

section \<open>The agent's wallet\<close>

text \<open>No call of the agent changes its wallet; the demo makes the agent in step 3.\<close>

abbreviation purse :: "'n demo_state \<Rightarrow> wallet" where
  "purse s \<equiv> ag_wallet (ds_agent s)"

lemma agent_get_wallet: "agent_get A url ag w = (r, ag', w') \<Longrightarrow> ag_wallet ag' = ag_wallet ag"
  by (auto simp: agent_get_def Let_def split: prod.splits sum.splits option.splits list.splits if_splits)

lemma frame_calls [flow_frame]: "frame purse (get_report D)" "frame purse (get_asset D)"
  using agent_get_wallet
  by (auto simp: frame_def get_report_def get_asset_def at_first_def at_second_def split: prod.split)

lemma frame_purse [flow_frame]:
  "frame purse (retry_report D)" "frame purse (resend_report D)"
  "frame purse (revoke_first sm sig)" "frame purse (carry x c)" "frame purse (flow_put (require_mandates D H))"
  "frame purse (flow_put raise_price)" "frame purse (flow_put (second_gateway D H V j))" "frame purse (flow_put (lower_limit sm))"
  by (simp_all add: frame_def flow_put_def retry_report_def resend_report_def at_first_def
      revoke_first_def carry_def require_mandates_def raise_price_def second_gateway_def lower_limit_def Let_def split: prod.split)

lemma frame_option [flow_frame]: "frame v m \<Longrightarrow> (\<And>x. frame v (f x)) \<Longrightarrow> frame v (case u of None \<Rightarrow> m | Some x \<Rightarrow> f x)"
  by (simp split: option.split)

lemmas purse_rules = frame_bind frame_seq frame_basic frame_pure frame_calls frame_purse frame_option frame_chain [OF off_chain_views(5)]
  frame_emits [OF off_air_views(2)]

lemma purse_steps:
  "frame purse (demo_register D H)" "frame purse (demo_pay D)" "frame purse (demo_balances D H)" "frame purse (demo_reconcile D H)"
  "frame purse (demo_replay D)" "frame purse (demo_mandates D H)" "frame purse (demo_deploy_dvp D H)" "frame purse (demo_provision D H V)"
proof -
  show "frame purse (demo_register D H)" "frame purse (demo_pay D)" "frame purse (demo_balances D H)"
    "frame purse (demo_reconcile D H)" "frame purse (demo_replay D)" "frame purse (demo_deploy_dvp D H)" "frame purse (demo_provision D H V)"
    unfolding demo_register_def demo_pay_def demo_balances_def demo_reconcile_def demo_replay_def demo_deploy_dvp_def
      demo_provision_def Let_def by (rule purse_rules)+
  have p: "frame purse (flow_put (\<lambda>s. s\<lparr>ds_agent := (ds_agent s)\<lparr>ag_mandate := Some sm\<rparr>\<rparr>))"
    "frame purse (flow_put (\<lambda>s. s\<lparr>ds_agent := (ds_agent s)\<lparr>ag_confirmation := Some cf\<rparr>\<rparr>))" for sm cf
    by (rule frame_put; simp)+
  show "frame purse (demo_mandates D H)"
    unfolding demo_mandates_def demo_delegate_def demo_within_def demo_beyond_def demo_confirm_def demo_revoke_def demo_large_def
    by (rule purse_rules p)+
qed

section \<open>From the second gateway to the receipt\<close>

lemmas purse_kept = purse_steps [THEN frameD] frame_calls(1) [THEN frameD] frame_emits(3) [OF off_air_views(2), THEN frameD]

lemma unregistered_purse:
  assumes "demo_unregistered D H s = (Inr (), s')"
  shows "purse s' = dh_wallet H"
proof -
  obtain domain s1 r s2 s3 where "get_report D (s1\<lparr>ds_agent := demo_agent (dh_wallet H) domain\<rparr>) = (Inr r, s2)"
    and "emit_err (code_text r @ '' (agent not yet registered)'' @ nl @ nl) (errcode_string (rs_error_code r)) s2 = (Inr (), s3)"
    and "s' = s3"
    using assms by (auto simp: demo_unregistered_def flow_Inr)
  then show ?thesis by (auto simp: demo_agent_def dest!: purse_kept)
qed

lemma payments_purse: "demo_payments D H s = (Inr (), s') \<Longrightarrow> purse s' = dh_wallet H"
  by (auto simp: demo_payments_def flow_Inr dest!: unregistered_purse purse_kept)

lemma attach_journal_books:
  "gw_journal (attach_journal E j g) = Some j" "gw_inflight (attach_journal E j g) = gw_inflight g"
  by (simp_all add: attach_journal_def restore_accounting_def split: option.split)

lemma second_gateway_ready:
  assumes "de_file D = Inr (Some [])" and "open_temp D = Inr j" and "purse s = dh_wallet H"
  shows "second_ready D H (second_gateway D H V j s)"
proof -
  have j: "j = \<lparr>jr_file = [], jr_mem = journal_replay []\<rparr>" using assms(1,2) by (simp add: open_temp_def journal_open_def)
  then have "entries j = []" "mem_wf (jr_mem j)"
    by (simp_all add: mem_wf_replay) (simp add: entries_def journal_replay_def parsed_def empty_mem_def)
  then show ?thesis using assms(3)
    by (auto simp: second_ready_def second_gateway_def fresh_books_def unrevoked_def journal_ok_def journal_entries_def
        attach_journal_books fresh_gateway_def Let_def split: prod.split)
qed

definition dvp_mandate :: "'n demo_env \<Rightarrow> demo_handles \<Rightarrow> signed_mandate_json \<Rightarrow> bool" where
  "dvp_mandate D H sm \<longleftrightarrow> (\<exists>t. signed_mandate D (demo_mandate D H (seller_address D) 500 (Some 100000) 4 t) = Inr sm)"

lemma dvp_gateway_ready:
  assumes "de_file D = Inr (Some [])" and "purse s = dh_wallet H" and "demo_dvp_gateway D H V s = (Inr sm, s')"
  shows "second_ready D H s'" "dvp_mandate D H sm"
  using assms(3) second_gateway_ready [OF assms(1) _ assms(2)]
  by (auto simp: demo_dvp_gateway_def granted_def flow_Inr dvp_mandate_def)

lemma stage_chain: "mine D tx s = (x, s') \<Longrightarrow> stage s' = stage s"
  by (rule frameD [OF frame_chain(4) [OF stage_off_chain]])

lemma stage_emits:
  "emit_log t s = (x, s') \<Longrightarrow> stage s' = stage s" "emit_err t c s = (x, s') \<Longrightarrow> stage s' = stage s"
  "emit_tx t h s = (x, s') \<Longrightarrow> stage s' = stage s" "emit_balance t bs s = (x, s') \<Longrightarrow> stage s' = stage s"
  "emit_audit name ok d s = (x, s') \<Longrightarrow> stage s' = stage s" "emit_step D n title lead s = (x, s') \<Longrightarrow> stage s' = stage s"
  by (erule frameD [rotated], intro frame_emits off_air_views)+

lemmas stage_rules = stage_chain stage_emits

lemma ineligible_ready:
  assumes "geth_text (de_geth D)" and "second_ready D H s" and "demo_ineligible D V sm s = (Inr (), s')"
  shows "second_ready D H s' \<and> ag_mandate (ds_agent s') = Some sm"
proof -
  obtain s1 s2 r s3 s4 s5 where a: "stage s2 = stage s" "get_asset D (lower_limit sm s2) = (Inr r, s3)"
      "stage s' = stage s3" "rs_error_code r = ErrCodeNotEligible"
    using assms(3) by (auto simp: demo_ineligible_def flow_Inr expect_code_def dest!: stage_rules)
  have "second_ready D H (lower_limit sm s2)" "ag_mandate (ds_agent (lower_limit sm s2)) = Some sm"
    using assms(2) a(1) by (auto simp: second_ready_def lower_limit_def stage_def)
  then show ?thesis
    using get_asset_ready [OF assms(1) _ a(2)] a(3,4) second_ready_stage [OF a(3)] by (simp add: stage_def)
qed

lemma buy_ready:
  assumes "geth_text (de_geth D)" and "second_ready D H s" and "demo_buy D H V s = (Inr res, s')"
  shows "second_ready D H s' \<and> purchased D H (ag_mandate (ds_agent s)) res"
proof -
  obtain s1 s2 where a: "stage s1 = stage s" "get_asset D s1 = (Inr res, s2)" "stage s' = stage s2" "rs_status res = 200"
    using assms(3) by (auto simp: demo_buy_def Let_def flow_Inr expect_paid_def dest!: stage_rules)
  have "second_ready D H s1" "ag_mandate (ds_agent s1) = ag_mandate (ds_agent s)"
    using assms(2) second_ready_stage [OF a(1)] a(1) by (simp_all add: stage_def)
  then show ?thesis using get_asset_ready [OF assms(1) _ a(2)] a(4) second_ready_stage [OF a(3)] by simp
qed

lemma receipt_read:
  assumes "demo_receipt D res s = (Inr (issued, r), s')"
  obtains st where "rs_settlement res = Some st" "sresp_receipt st = Some issued"
    "to_receipt (de_geth D) (srj_receipt issued) = Inr r" "stage s' = stage s"
proof -
  obtain st where st: "rs_settlement res = Some st" "sresp_receipt st \<noteq> None"
    using assms by (cases "rs_settlement res"; cases "sresp_receipt (the (rs_settlement res))") (auto simp: demo_receipt_def Let_def flow_Inr)
  then show thesis
    using assms that [of st] by (auto simp: demo_receipt_def Let_def flow_Inr dest!: stage_rules)
qed

section \<open>The offline checks\<close>

text \<open>What the receipt of the purchase says, read back, and the mandate it names.\<close>

lemma demo_mandate_wire:
  assumes "geth_text G" and "G = de_geth D" and "signed_mandate D m = Inr sm"
  shows "to_mandate G (smj_mandate sm) = Inr (wire_normal m)"
    and "\<exists>sig. sign_mandate G (de_delegator D) m (Some (de_chain_id D)) = Inr sig \<and> hex_bytes (smj_signature sm) = Inr sig"
  using assms(3) to_mandate_print [OF assms(1)] by (auto simp: signed_mandate_def assms(2) hex_bytes_print and_then_def split: sum.splits)

lemma wire_normal_sel [simp]:
  "m_delegator (wire_normal m) = m_delegator m" "m_agent (wire_normal m) = m_agent m"
  "m_mandate_id (wire_normal m) = m_mandate_id m"
  by (simp_all add: wire_normal_def)

lemma verify_mandate_wire: "geth_bytes G \<Longrightarrow> verify_mandate G (wire_normal m) sig c = verify_mandate G m sig c"
  by (simp add: verify_mandate_def mandate_struct_hash_wire_normal split: sum.split)

definition audits_clean :: "'n demo_env \<Rightarrow> signed_mandate_json \<Rightarrow> signed_receipt_json \<Rightarrow> receipt \<Rightarrow> bool" where
  "audits_clean D sm issued r \<longleftrightarrow> (\<forall>sig. hex_bytes (srj_signature issued) = Inr sig \<longrightarrow>
       verify_receipt (de_geth D) r sig = Inr (gateway_address D)) \<and>
     (\<forall>m sig. to_mandate (de_geth D) (smj_mandate sm) = Inr m \<and> hex_bytes (smj_signature sm) = Inr sig \<longrightarrow>
       verify_mandate (de_geth D) m sig (Some (de_chain_id D)) = Inr (rc_delegator r) \<and> m_agent m = rc_payer r \<and>
       m_mandate_id m = rc_mandate_id r \<and>
       within_scope m (rc_pay_to r) (rc_resource r) (case rc_amount r of None \<Rightarrow> 0 | Some x \<Rightarrow> x) = None)"

lemma purchase_audits_clean:
  assumes "geth_text (de_geth D)" and "geth_nonempty (de_geth D)" and "geth_sig (de_geth D)" and "geth_bytes (de_geth D)"
    and "purchased D H (Some sm) res" and "dvp_mandate D H sm"
    and "rs_settlement res = Some st" and "sresp_receipt st = Some issued" and "to_receipt (de_geth D) (srj_receipt issued) = Inr r"
  shows "audits_clean D sm issued r"
proof -
  let ?G = "de_geth D"
  obtain t where "signed_mandate D (demo_mandate D H (seller_address D) 500 (Some 100000) 4 t) = Inr sm"
    using assms(6) by (auto simp: dvp_mandate_def)
  define m where "m = demo_mandate D H (seller_address D) 500 (Some 100000) 4 t"
  have sm: "signed_mandate D m = Inr sm" by (simp add: m_def) fact
  note wire = demo_mandate_wire [OF assms(1) refl sm]
  obtain sig where sig: "sign_mandate ?G (de_delegator D) m (Some (de_chain_id D)) = Inr sig" "hex_bytes (smj_signature sm) = Inr sig"
    using wire(2) by blast
  have "m_delegator m = key_address ?G (de_delegator D)" by (simp add: m_def demo_mandate_def delegator_address_def)
  then have vm: "verify_mandate ?G (wire_normal m) sig (Some (de_chain_id D)) = Inr (m_delegator m)"
    using sign_mandate_verify [OF assms(3) sig(1)] by (simp add: verify_mandate_wire [OF assms(4)])
  obtain E :: "'a demo_world gateway_env" and q receipt p where b: "ge_geth E = ?G" "ge_pay_to E = seller_address D"
      "ge_receipt_key E = Some (de_gateway D)" "st = payment_response E q receipt" "signed_for E q p receipt"
      "pp_mandate p = Some sm" "st_payer q = w_address (dh_wallet H)" "st_amount q = Some 500"
    using assms(5,7) by (auto simp: purchased_def)
  obtain resource s s' where "issue_receipt E q (requirements E resource) (Decoded p) (de_gateway D) s = (Some issued, s')"
    using b(3-5) assms(8) by (auto simp: signed_for_def payment_response_def)
  note issued = this
  obtain rc rsig where rc: "to_receipt ?G (srj_receipt issued) = Inr rc" "hex_bytes (srj_signature issued) = Inr rsig"
      "verify_receipt ?G rc rsig = Inr (gateway_address D)" "rc_payer rc = w_address (dh_wallet H)" "rc_pay_to rc = seller_address D"
      "rc_amount rc = Some 500" "rc_mandate_id rc = m_mandate_id m" "rc_delegator rc = m_delegator m"
    by (rule issued_receipt_reads [OF assms(1-3) b(1) issued b(6) wire(1) b(8)], rule that)
       (simp_all add: b(2,7) gateway_address_def)
  moreover have "within_scope (wire_normal m) (seller_address D) x 500 = None" for x
    by (simp add: within_scope_def m_def demo_mandate_def wire_normal_def zero_nil_def exceeds_def contains_address_def)
  moreover have "r = rc" using rc(1) assms(9) by simp
  ultimately show ?thesis using wire(1) sig(2) vm
    by (auto simp: audits_clean_def m_def demo_mandate_def)
qed

lemma unrevoked_before: "unrevoked g \<Longrightarrow> \<not> revoked_before r (journal_entries g)"
  by (auto simp: unrevoked_def revoked_before_def list_ex_iff)

section \<open>What the observer may conclude\<close>

definition honest :: "demo_beat list \<Rightarrow> bool" where
  "honest bs \<longleftrightarrow> (\<forall>name. Verdict name False \<in> set (marks bs) \<longrightarrow> name \<in> set chain_verdicts)"

lemma honest_append [simp]: "honest (as @ bs) \<longleftrightarrow> honest as \<and> honest bs"
  by (auto simp: honest_def)

text \<open>From \<open>P\<close>, what the part adds is honest, and when it succeeds with \<open>x\<close> the state is in \<open>Q x\<close>.\<close>

definition honestly :: "('n demo_state \<Rightarrow> bool) \<Rightarrow> ('n, 'a) flow \<Rightarrow> ('a \<Rightarrow> 'n demo_state \<Rightarrow> bool) \<Rightarrow> bool" where
  "honestly P m Q \<longleftrightarrow> (\<forall>s. P s \<longrightarrow>
     (\<exists>bs. ds_beats (snd (m s)) = ds_beats s @ bs \<and> honest bs) \<and> (\<forall>x s'. m s = (Inr x, s') \<longrightarrow> Q x s'))"

lemma honestly_bind:
  assumes "honestly P m Q" and "\<And>x. honestly (Q x) (f x) R"
  shows "honestly P (flow_bind m f) R"
  unfolding honestly_def
proof (intro allI impI)
  fix s assume "P s"
  then have m: "\<exists>bs. ds_beats (snd (m s)) = ds_beats s @ bs \<and> honest bs" "\<And>x s'. m s = (Inr x, s') \<Longrightarrow> Q x s'"
    using assms(1) by (auto simp: honestly_def)
  then obtain bs where bs: "ds_beats (snd (m s)) = ds_beats s @ bs" "honest bs" by blast
  show "(\<exists>bs. ds_beats (snd (flow_bind m f s)) = ds_beats s @ bs \<and> honest bs) \<and>
      (\<forall>x s'. flow_bind m f s = (Inr x, s') \<longrightarrow> R x s')"
  proof (cases "\<exists>x s1. m s = (Inr x, s1)")
    case True
    then obtain x s1 where x: "m s = (Inr x, s1)" by blast
    obtain cs where "ds_beats (snd (f x s1)) = ds_beats s1 @ cs" "honest cs" "\<forall>y s'. f x s1 = (Inr y, s') \<longrightarrow> R y s'"
      using assms(2) m(2) [OF x] unfolding honestly_def by meson
    then show ?thesis using bs x by (auto simp: flow_bind_def)
  next
    case False
    then obtain e s1 where "m s = (Inl e, s1)" by (cases "m s"; cases "fst (m s)") auto
    then show ?thesis using bs by (auto simp: flow_bind_def)
  qed
qed

lemma honestly_seq: "honestly P m (\<lambda>_. Q) \<Longrightarrow> honestly Q k R \<Longrightarrow> honestly P (flow_seq m k) R"
  unfolding flow_seq_def by (rule honestly_bind)

text \<open>A part whose script has no verdict is honest.\<close>

definition speechless :: "mark list \<Rightarrow> bool" where
  "speechless xs \<longleftrightarrow> (\<forall>name ok. Verdict name ok \<notin> set xs)"

lemma heading_verdict [simp]: "heading m = Verdict name True \<longleftrightarrow> (\<exists>ok. m = Verdict name ok)"
  by (cases m) auto

lemma outline_verdict [simp]: "outline m = Verdict name True \<longleftrightarrow> (\<exists>ok. m = Verdict name ok)"
  by (cases m) auto

lemma told_speechless:
  assumes "told xs r (marks bs)" and "speechless xs"
  shows "honest bs"
proof -
  have "False" if v: "Verdict name False \<in> set (marks bs)" for name
  proof (cases r)
    case (Inl e)
    then have "prefix (map outline (marks bs)) (map outline xs)" using assms(1) by (simp add: told_def)
    then have "set (map outline (marks bs)) \<subseteq> set (map outline xs)" by (rule set_mono_prefix)
    then have "outline (Verdict name False) \<in> outline ` set xs" using v by auto
    then obtain m where m: "outline (Verdict name False) = outline m" "m \<in> set xs" by (rule imageE)
    then have "\<exists>ok. m = Verdict name ok" using m(1) [symmetric] by simp
    then show False using assms(2) m(2) by (auto simp: speechless_def)
  next
    case (Inr x)
    have "heading (Verdict name False) \<in> heading ` set (marks bs)" using v by (rule imageI)
    then have "Verdict name True \<in> set xs" using assms(1) Inr by (auto simp: told_def)
    then show False using assms(2) by (auto simp: speechless_def)
  qed
  then show ?thesis by (auto simp: honest_def)
qed

lemma honestly_tells:
  assumes "tells m xs" and "speechless xs" and "\<And>s x s'. P s \<Longrightarrow> m s = (Inr x, s') \<Longrightarrow> Q x s'"
  shows "honestly P m Q"
  using assms told_speechless unfolding honestly_def tells_def by meson

lemma honestly_audit:
  assumes "ok \<or> name \<in> set chain_verdicts"
  shows "honestly P (emit_audit name ok detail) (\<lambda>_ _. True)"
  using assms by (auto simp: honestly_def emit_audit_def beat_def flow_put_def honest_def event_mark_def)

lemma honestly_offline:
  "honestly (\<lambda>s. second_ready D H s \<and> audits_clean D sm issued r) (audit_offline D sm issued r) (\<lambda>_ _. True)"
  unfolding honestly_def
proof (intro allI impI conjI TrueI)
  fix s :: "'a demo_state"
  assume s: "second_ready D H s \<and> audits_clean D sm issued r"
  then have "\<not> revoked_before r (journal_entries (ds_second s))"
    using unrevoked_before by (auto simp: second_ready_def fresh_books_def)
  with s show "\<exists>bs. ds_beats (snd (audit_offline D sm issued r s)) = ds_beats s @ bs \<and> honest bs"
    by (cases "hex_bytes (srj_signature issued)"; cases "to_mandate (de_geth D) (smj_mandate sm)"; cases "hex_bytes (smj_signature sm)")
       (auto simp: audit_offline_def audit_receipt_signature_def audit_chain_of_trust_def audits_clean_def Let_def flow_bind_def flow_seq_def
        flow_of_def flow_get_def emit_audit_def beat_def flow_put_def honest_def event_mark_def)
qed

lemma honestly_weaken: "honestly P m Q \<Longrightarrow> (\<And>s. P' s \<Longrightarrow> P s) \<Longrightarrow> honestly P' m Q"
  unfolding honestly_def by blast

lemma honestly_silent: "silent m \<Longrightarrow> honestly P m (\<lambda>_ _. True)"
  by (rule honestly_tells [OF silent_tells]) (simp_all add: speechless_def)

lemma honestly_chain: "honestly P (audit_chain D r) (\<lambda>_ _. True)"
  unfolding audit_chain_def
  by (rule honestly_bind [OF honestly_silent [OF frame_basic(4)]], rule honestly_bind [OF honestly_silent [OF frame_basic(3)]],
      rule honestly_seq [OF honestly_audit honestly_audit]) (simp_all add: chain_verdicts_def)

lemma speechless_steps [simp]:
  "speechless (step_marks D n)" "speechless (Refusal c # xs) \<longleftrightarrow> speechless xs" "speechless []" "speechless [Complete]"
  "speechless (xs @ ys) \<longleftrightarrow> speechless xs \<and> speechless ys"
  by (auto simp: speechless_def step_marks_def)

lemma honestly_demo_audit:
  "honestly (\<lambda>s. second_ready D H s \<and> audits_clean D sm issued r) (demo_audit D sm issued r) (\<lambda>_ _. True)"
proof -
  have e: "honestly (\<lambda>s. second_ready D H s \<and> audits_clean D sm issued r) (emit_step D n title lead)
      (\<lambda>_ s. second_ready D H s \<and> audits_clean D sm issued r)" for n title lead
    by (rule honestly_tells [OF tells_emit_step], simp) (blast dest: stage_emits(6) intro: second_ready_kept)
  have "tells (emit_done complete_text) [Complete]"
    by (simp add: tells_def emit_done_def beat_def flow_put_def told_def event_mark_def)
  then have d: "honestly (\<lambda>_. True) (emit_done complete_text) (\<lambda>_ _. True)" by (rule honestly_tells) simp_all
  show ?thesis unfolding demo_audit_def by (rule honestly_seq [OF e honestly_seq [OF honestly_offline honestly_seq [OF honestly_chain d]]])
qed

text \<open>The parts of the run, from what they need to what they leave.\<close>

lemma honestly_ineligible:
  assumes "geth_text (de_geth D)"
  shows "honestly (second_ready D H) (demo_ineligible D V sm)
    (\<lambda>_ s. second_ready D H s \<and> ag_mandate (ds_agent s) = Some sm)"
  by (rule honestly_tells [OF tells_ineligible]) (simp_all add: ineligible_ready [OF assms])

lemma honestly_buy:
  assumes "geth_text (de_geth D)"
  shows "honestly (\<lambda>s. second_ready D H s \<and> ag_mandate (ds_agent s) = Some sm) (demo_buy D H V)
    (\<lambda>res s. second_ready D H s \<and> purchased D H (Some sm) res)"
proof (rule honestly_tells [OF tells_buy])
  fix s res s' assume "second_ready D H s \<and> ag_mandate (ds_agent s) = Some sm" "demo_buy D H V s = (Inr res, s')"
  then show "second_ready D H s' \<and> purchased D H (Some sm) res" using buy_ready [OF assms, of H s V res s'] by simp
qed simp

lemma honestly_receipt:
  assumes "geth_text (de_geth D)" and "geth_nonempty (de_geth D)" and "geth_sig (de_geth D)" and "geth_bytes (de_geth D)"
    and "dvp_mandate D H sm"
  shows "honestly (\<lambda>s. second_ready D H s \<and> purchased D H (Some sm) res) (demo_receipt D res)
    (\<lambda>x s. second_ready D H s \<and> audits_clean D sm (fst x) (snd x))"
proof (rule honestly_tells [OF tells_receipt])
  fix s s' and x :: "signed_receipt_json \<times> receipt"
  assume p: "second_ready D H s \<and> purchased D H (Some sm) res" and r: "demo_receipt D res s = (Inr x, s')"
  have "demo_receipt D res s = (Inr (fst x, snd x), s')" using r by simp
  then show "second_ready D H s' \<and> audits_clean D sm (fst x) (snd x)"
    using p by (elim receipt_read) (blast intro: second_ready_kept purchase_audits_clean [OF assms(1-4) _ assms(5)])
qed simp

lemma honestly_purchase:
  assumes "geth_text (de_geth D)" and "geth_nonempty (de_geth D)" and "geth_sig (de_geth D)" and "geth_bytes (de_geth D)"
  shows "honestly (\<lambda>s. second_ready D H s \<and> dvp_mandate D H sm) (flow_seq (demo_ineligible D V sm) (
      flow_bind (demo_buy D H V) (\<lambda>bought. flow_bind (demo_receipt D bought) (\<lambda>(issued, r). demo_audit D sm issued r))))
    (\<lambda>_ _. True)"
proof (cases "dvp_mandate D H sm")
  case True
  have a: "honestly (\<lambda>s. second_ready D H s \<and> audits_clean D sm (fst x) (snd x)) (case x of (issued, r) \<Rightarrow> demo_audit D sm issued r)
      (\<lambda>_ _. True)" for x
    by (cases x) (simp add: honestly_demo_audit)
  have "honestly (second_ready D H) (flow_seq (demo_ineligible D V sm) (
      flow_bind (demo_buy D H V) (\<lambda>bought. flow_bind (demo_receipt D bought) (\<lambda>(issued, r). demo_audit D sm issued r))))
    (\<lambda>_ _. True)"
    by (rule honestly_seq [OF honestly_ineligible [OF assms(1)]], rule honestly_bind [OF honestly_buy [OF assms(1)]],
        rule honestly_bind [OF honestly_receipt [OF assms True]], rule a)
  then show ?thesis by (rule honestly_weaken) simp
qed (simp add: honestly_def)

text \<open>A part that keeps the wallet and whose script has no verdict.\<close>

lemma honestly_keeps:
  assumes "tells m xs" and "speechless xs" and "frame purse m"
  shows "honestly (\<lambda>s. purse s = a) m (\<lambda>_ s. purse s = a)"
  by (rule honestly_tells [OF assms(1,2)]) (simp add: frameD [OF assms(3)])

lemma honestly_delivery:
  assumes "geth_text (de_geth D)" and "geth_nonempty (de_geth D)" and "geth_sig (de_geth D)" and "geth_bytes (de_geth D)"
    and "de_file D = Inr (Some [])"
  shows "honestly (\<lambda>s. purse s = dh_wallet H) (demo_delivery D H) (\<lambda>_ _. True)"
proof -
  have g: "honestly (\<lambda>s. purse s = dh_wallet H) (demo_dvp_gateway D H V) (\<lambda>sm s. second_ready D H s \<and> dvp_mandate D H sm)" for V
    by (rule honestly_tells [OF tells_dvp_gateway]) (simp_all add: dvp_gateway_ready [OF assms(5)])
  have k: "honestly (\<lambda>s. purse s = dh_wallet H) (demo_deploy_dvp D H) (\<lambda>_ s. purse s = dh_wallet H)"
    "honestly (\<lambda>s. purse s = dh_wallet H) (demo_provision D H V) (\<lambda>_ s. purse s = dh_wallet H)" for V
    by (rule honestly_keeps [OF tells_deploy_dvp _ purse_steps(7)] honestly_keeps [OF tells_provision _ purse_steps(8)], simp)+
  show ?thesis unfolding demo_delivery_def
    by (rule honestly_bind [OF k(1)], rule honestly_seq [OF k(2)], rule honestly_bind [OF g], rule honestly_purchase [OF assms(1-4)])
qed

lemma honestly_run:
  assumes "geth_text (de_geth D)" and "geth_nonempty (de_geth D)" and "geth_sig (de_geth D)" and "geth_bytes (de_geth D)"
    and "de_file D = Inr (Some [])"
  shows "honestly (\<lambda>_. True) (demo_run D) (\<lambda>_ _. True)"
proof -
  have i: "honestly (\<lambda>_. True) (demo_issue D wal) (\<lambda>_ _. True)" for wal
    by (rule honestly_tells [OF tells_issue]) simp_all
  have p: "honestly (\<lambda>_. True) (demo_payments D H) (\<lambda>_ s. purse s = dh_wallet H)" for H
    by (rule honestly_tells [OF tells_payments]) (simp_all add: payments_purse)
  have m: "honestly (\<lambda>s. purse s = dh_wallet H) (demo_mandates D H) (\<lambda>_ s. purse s = dh_wallet H)" for H
    by (rule honestly_keeps [OF tells_mandates _ purse_steps(6)]) simp
  show ?thesis unfolding demo_run_def
    by (rule honestly_bind [OF honestly_silent [OF frame_basic(3)]], rule honestly_bind [OF i], rule honestly_seq [OF p],
        rule honestly_seq [OF m honestly_delivery [OF assms]])
qed

text \<open>
  C31. The demo tells what happened: on any chain, with any clock, randomness and transaction
  outcomes, a run of the demo whose journal starts on an empty temporary file emits, when it
  succeeds, the eighteen steps in order with the refusals they are there to show, under their
  codes, the six verdicts of the audit and the end; a run that fails emits the beginning of
  that, up to the codes, and no end; and no verdict of the offline audit - signature, mandate
  delegation, revocation, scope - is ever a failure: only the two read from the chain can be.
\<close>

theorem demo_tells:
  assumes "geth_text (de_geth D)" and "geth_nonempty (de_geth D)" and "geth_sig (de_geth D)" and "geth_bytes (de_geth D)"
    and "de_file D = Inr (Some [])"
    and "demo_run D (demo_start D w) = (r, s)"
  shows "told (demo_script D) r (marks (ds_beats s)) \<and>
    (\<forall>name. Verdict name False \<in> set (marks (ds_beats s)) \<longrightarrow>
      name = ''settlement on chain'' \<or> name = ''asset delivery on chain'')"
proof -
  have start: "ds_beats (demo_start D w) = []" by (simp add: demo_start_def)
  have "told (demo_script D) r (marks (ds_beats s))"
    using tells_run [of D] assms(6) start unfolding tells_def by (metis append_Nil fst_conv snd_conv)
  moreover have "honest (ds_beats s)"
    using honestly_run [OF assms(1-5)] assms(6) start unfolding honestly_def by (metis append_Nil snd_conv)
  ultimately show ?thesis by (auto simp: honest_def chain_verdicts_def)
qed

section \<open>A run\<close>

text \<open>
  A simulated chain for the demo: forty transactions are mined, a contract's
  address and a transaction's hash are the number of those still to come, a node counts its
  blocks and hands out nonces.
\<close>

definition demo_deployment :: deployment where
  "demo_deployment = \<lparr>dp_token = 40, dp_asset = 31, dp_eligibility = 32, dp_identity = 38, dp_spend = 0, dp_dvp = 30\<rparr>"

definition demo_binding :: binding_env where
  "demo_binding = \<lparr>be_chain = \<lparr>ce_geth = sample_geth, ce_ec = sample_ec,
     ce_abi = (\<lambda>v. if u256_range v then Some (nat v) else None), ce_hash = (\<lambda>c. of_nat (length (cw_fates c)))\<rparr>,
     be_at = demo_deployment, be_lost = None\<rparr>"

definition transfer_log :: "transfer_event \<Rightarrow> tx_log" where
  "transfer_log e = \<lparr>tl_topics = [transfer_topic sample_geth, ucast (te_from e), ucast (te_to e)],
     tl_data = nat_bytes (te_value e)\<rparr>"

definition demo_node :: "(nat \<times> nat) demo_env" where
  "demo_node = \<lparr>
     de_geth = sample_geth, de_bind = demo_binding, de_created = (\<lambda>_ c. of_nat (length (cw_fates c))), de_domain = 7,
     de_chain_id = 1337, de_issuer = 1, de_gateway = 3, de_delegator = 4, de_seller = 5,
     de_wallet = Inr (wallet_from_key sample_geth 2), de_first_url = ''http://a'', de_second_url = ''http://b'',
     de_route = (\<lambda>url. (drop 7 (take 8 url), drop 8 url)), de_json = (\<lambda>_. ''{}''), de_commit = (\<lambda>(b, r). (b + 1, r)),
     de_nonce = (\<lambda>_ _. Inr 0), de_gas_price = (\<lambda>_. Inr 1), de_send_eth = (\<lambda>_ _ _ _ w. (Receipt True, w)),
     de_logs = (\<lambda>w. \<lparr>ch_head = Inr (fst (dw_node w)), ch_hash = (\<lambda>_. Inr 0),
       ch_logs = (\<lambda>_ _. Inr (map encode_log (tk_log (co_token (cw_contracts (dw_chain w))))))\<rparr>),
     de_receipt = (\<lambda>h w. Inr \<lparr>tr_success = True, tr_logs = map transfer_log
       (tk_log (co_token (cw_contracts (dw_chain w))) @ as_log (co_asset (cw_contracts (dw_chain w))))\<rparr>),
     de_head = (\<lambda>w. Inr (fst (dw_node w))), de_tx_block = (\<lambda>_ w. Some (fst (dw_node w))), de_now = (\<lambda>_. 1000000000000),
     de_random = (\<lambda>w. (Some (of_nat (snd (dw_node w))), w\<lparr>dw_node := (fst (dw_node w), snd (dw_node w) + 1)\<rparr>)),
     de_disk = (\<lambda>_ _. IoOk), de_file = Inr (Some []), de_gated = False\<rparr>"

definition demo_genesis :: "(nat \<times> nat) demo_world" where
  "demo_genesis = \<lparr>dw_chain = \<lparr>cw_contracts = sample_contracts, cw_fates = replicate 40 Mined, cw_time = 1000\<rparr>,
     dw_reports = [], dw_node = (0, 100), dw_first = first_facilitator, dw_second = second_facilitator\<rparr>"

theorem demo_tells_witness:
  "\<exists>r s. demo_run demo_node (demo_start demo_node demo_genesis) = (r, s) \<and>
     told (demo_script demo_node) r (marks (ds_beats s)) \<and> Verdict ''receipt signature'' False \<notin> set (marks (ds_beats s))"
proof -
  obtain r s where "demo_run demo_node (demo_start demo_node demo_genesis) = (r, s)" by fastforce
  moreover have "de_geth demo_node = sample_geth" "de_file demo_node = Inr (Some [])" by (simp_all add: demo_node_def)
  ultimately show ?thesis
    using demo_tells [of demo_node demo_genesis r s] by (auto simp: sample_geth_text sample_geth_nonempty sample_geth_sig)
qed

end
