(* ===== verification/Spec2Isabelle.thy ===== *)
theory Spec2Isabelle
  imports LocalGateway Remote Auditor Issuer GatewayStart OnChain Bindings SimCommand Conform Hub
    EventStream DemoAudit
begin

text \<open>
  The stablecoin and x402 payment gateway of this repository, in Isabelle/HOL.

  The program: a contract issues tKRW (\<open>contracts/KRWTestStablecoin.sol\<close>); an agent pays for
  an HTTP resource by signing an EIP-3009 authorization (\<open>wallet\<close>), usually under a
  delegator's mandate (\<open>x402/mandate.go\<close>); a gateway (\<open>x402/gateway.go\<close>) asks a facilitator
  (\<open>x402/facilitator_local.go\<close>) to verify it, lets a chain of policies
  (\<open>x402/policy*.go\<close>) decide, has it settled on chain, journals it (\<open>x402/journal.go\<close>),
  publishes it (\<open>x402/outbox.go\<close>), delivers, and signs a receipt (\<open>x402/receipt.go\<close>); a
  ledger (\<open>ledger\<close>) follows the contract's logs and reconciles; a reserve file (\<open>reserve\<close>)
  backs the issuance.

  Theories, in the order of use:
  \<^item> Prelude, GoText, Geth: int64 and time, runs of machines, Go's decimal and hexadecimal
    text, and go-ethereum as one record parameter with its documented laws.
  \<^item> Wire: the structs that travel (\<open>x402/types.go\<close>, \<open>errcodes.go\<close> and the wire forms).
  \<^item> Wallet, Mandate: typed-data hashing, signing, recovery, and their wire round trips.
  \<^item> Accounts: a mandate's budget and rate windows with reservations; what every
    interleaving of reserve, commit and release keeps of them, confirmed payments included.
  \<^item> Policy: every accept policy and the chain of them, decision tables, the agent's grant
    policies; what an approval promises.
  \<^item> AppendLog, Journal, Reserve: the append-only files with every outcome of a write, the
    settlement journal with its outbox, the reserve total; restart and crash theorems. The
    locales \<open>durable_log\<close> and \<open>replayed_log\<close> are the contract, interpreted for each file.
  \<^item> Receipt: signed settlement receipts.
  \<^item> Token: the contract, every external function, as a machine; conservation and the
    one-time use of an authorization.
  \<^item> Ledger: full replay, incremental sync with reorgs, reconciliation, and its refinement
    of the contract through the logs.
  \<^item> Facilitator: verify and settle; the locale \<open>payment_rail\<close> is what a gateway relies on,
    interpreted for the local facilitator on the contract.
  \<^item> Gateway, Session: the gateway's state, payment flow, deferral, refunds, receipts,
    revocation and restart; sessions and the HTTP middleware.
  \<^item> Settlement: each gateway operation's effect on settlements, journal and revocations: it
    is quiet, or settles exactly once. GatewayRuns: the gateway as a machine of requests,
    revocations and time, its invariants, and what a served payment means.
  \<^item> Deferred: payments in flight, delivered at the confirm depth; what the retry of one
    checks and what it does not. SessionRuns: sessions over any run of requests: what is
    charged and what is refunded.
  \<^item> Agent: the paying client (\<open>x402/agent.go\<close>), with the HTTP client as a parameter.
  \<^item> LocalGateway: agent, gateway and contract composed: what a served payment moved on the
    contract, and that an agent with funds is served.
  \<^item> Remote: the facilitator over HTTP, client and service (\<open>x402/facilitator_remote.go\<close>,
    \<open>cmd/facilitator\<close>), equal to the local one behind it.
  \<^item> GatewayStart: the gateway's command (\<open>cmd/gateway\<close>): flags, construction, routes; what a
    started gateway enforces.
  \<^item> Issuer: the issuer's commands (\<open>cmd/issuer\<close>) over contract, reserve file and ledger: the
    supply stays backed under every fate of a transaction, redemption in three steps.
  \<^item> Auditor: the auditor (\<open>cmd/audit\<close>): what a passed audit means and when the gateway's own
    receipts pass.
  \<^item> Operators: the delegator's and the agent's commands (\<open>cmd/delegator\<close>, \<open>cmd/agent\<close>): what is
    signed is accepted, an answered ask is not asked again, a revocation takes effect.
  \<^item> Contracts: the eligibility and identity registries, the asset, delivery versus payment and
    delegated spending (\<open>contracts/*.sol\<close>) on one chain. The locale \<open>ledger_token\<close> is what a
    contract relies on in a token, interpreted for tKRW and tRWA.
  \<^item> OnChain: delivery and refund (\<open>x402/delivery.go\<close>) and the delegator's commands on chain;
    the registered mandate against the gateway's policy.
  \<^item> Bindings: the Go bindings of all contracts as method names and arguments (\<open>token\<close>,
    \<open>asset\<close>, \<open>spend\<close>, \<open>dvp\<close>, \<open>eligibility\<close>, \<open>registry\<close>), keys from the environment
    (\<open>internal/nodeutil\<close>) and the commands that deploy and set up contracts: each binding
    reaches its function; the registries as the gateway reads them.
  \<^item> Profile: the chain profiler (\<open>cmd/chainprofile\<close>): when its loops end, what a trace holds.
  \<^item> Simulation, SimulationRuns, SimCommand: the simulation (\<open>sim\<close>, \<open>cmd/sim\<close>) of the
    modelled agent against the modelled gateway under combinations of policies, its reports,
    and the replay of logged decisions: the report adds up, the protected combinations stop
    redirected payments, a replay counts what the other table decides.
  \<^item> Conform: the conformance probe (\<open>cmd/conform\<close>) against the gateway on the contract, its
    concurrent requests in any schedule; the gateway passes it.
  \<^item> Hub: the demo server's hub (\<open>cmd/demoweb\<close>), its critical sections and the steps between
    them in any schedule; its streams follow the log.
  \<^item> Observe: the counters over a run and the text they are rendered as (\<open>x402/metrics.go\<close>), the
    loop of the outbox. EventStream: the Kafka sink and the auditor's sources; auditing the
    drained stream is auditing the journal.
  \<^item> Demoflow, DemoAudit: the demo (\<open>internal/demoflow\<close>, \<open>cmd/demo\<close>): its eighteen steps over the
    bindings, two gateways, the agent, the ledger and the audit, told as a stream of events;
    what an observer of the events may conclude.

  State is passed explicitly; an operation that can fail returns a sum whose left side is
  the error. External code (go-ethereum, registries, sinks, deliverers, the operating
  system, clocks and random sources) is an argument of the definitions that use it. Go maps
  are partial functions, or association lists where the code sums over them. Machine
  integers are words or carry their wrap-around; big integers are \<open>int\<close>. Handlers run as one
  step, as their locks make the pieces of them do; the accounting's calls are also proved
  correct under any interleaving. There is no fuel: every loop is structural over a list, but
  for the profiler's loops over wrapping block numbers, which are partial functions whose
  returning is a theorem.

  Texts of errors that embed a value the model does not have (a quoted string, an error of
  a library) keep their fixed part.

  Not modelled: the Kafka client and JSON (parameters), flag parsing, logging and the texts
  commands print (but for the demo's), the demo's page, and tests. The demo's backend - its blocks, logs,
  receipts and plain ETH transfers - its clock, randomness, generated keys and temporary file
  are parameters.
\<close>

end
